(* ===== verification/Hb_Prelude.thy ===== *)
theory Hb_Prelude
  imports Main "HOL-Library.AList" "HOL-Library.Word"
begin

text \<open>
  The vocabulary that every component of the development shares: JavaScript errors and results,
  computations that change a state and may throw, JavaScript's insertion-ordered \<open>Map\<close>, byte
  buffers with the clamping of \<open>subarray\<close>, and the tests on strings the code uses.

  A JavaScript string is held as its UTF-8 bytes (one \<^typ>\<open>char\<close> per byte), so that
  \<open>TextEncoder.encode\<close> and \<open>TextDecoder.decode\<close> are the two directions of one bijection; the one
  function of the code that looks at UTF-16 code units (\<open>uriEncode\<close>) works on code units instead.
\<close>

named_theorems hb_defs \<open>unfolding of the small definitions of the model\<close>
named_theorems hb_inv \<open>preservation of the components' invariants\<close>

section \<open>Errors and results\<close>

datatype js_error = JsError (err_name: string) (err_message: string)

type_synonym 'a res = "js_error + 'a"
type_synonym byte = "8 word"

abbreviation Error :: "string \<Rightarrow> js_error" where
  "Error m \<equiv> JsError ''Error'' m"

abbreviation TypeError :: "string \<Rightarrow> js_error" where
  "TypeError m \<equiv> JsError ''TypeError'' m"

abbreviation RangeError :: "string \<Rightarrow> js_error" where
  "RangeError m \<equiv> JsError ''RangeError'' m"

section \<open>Stateful code that may throw\<close>

text \<open>
  The effects before a \<open>throw\<close> stay, so a computation returns the state in both cases.
\<close>

type_synonym ('s, 'a) jsm = "'s \<Rightarrow> 'a res \<times> 's"

definition js_ret :: "'a \<Rightarrow> ('s, 'a) jsm" where
  "js_ret x = (\<lambda>s. (Inr x, s))"

definition js_throw :: "js_error \<Rightarrow> ('s, 'a) jsm" where
  "js_throw e = (\<lambda>s. (Inl e, s))"

definition js_bind :: "('s, 'a) jsm \<Rightarrow> ('a \<Rightarrow> ('s, 'b) jsm) \<Rightarrow> ('s, 'b) jsm" where
  "js_bind m f = (\<lambda>s. case m s of (Inl e, s') \<Rightarrow> (Inl e, s') | (Inr x, s') \<Rightarrow> f x s')"

definition js_try :: "('s, 'a) jsm \<Rightarrow> (js_error \<Rightarrow> ('s, 'a) jsm) \<Rightarrow> ('s, 'a) jsm" where
  "js_try m h = (\<lambda>s. case m s of (Inl e, s') \<Rightarrow> h e s' | (Inr x, s') \<Rightarrow> (Inr x, s'))"

text \<open>\<open>try { m } finally { f }\<close> where the finaliser cannot throw.\<close>

definition js_finally :: "('s, 'a) jsm \<Rightarrow> ('s \<Rightarrow> 's) \<Rightarrow> ('s, 'a) jsm" where
  "js_finally m f = (\<lambda>s. case m s of (r, s') \<Rightarrow> (r, f s'))"

text \<open>\<open>finally\<close> with an effectful finaliser: an error of the finaliser replaces the outcome.\<close>

definition js_ensure :: "('s, 'a) jsm \<Rightarrow> ('s, unit) jsm \<Rightarrow> ('s, 'a) jsm" where
  "js_ensure m f = (\<lambda>s. case m s of (r, s') \<Rightarrow> (case f s' of (Inl e, s'') \<Rightarrow> (Inl e, s'') | (Inr _, s'') \<Rightarrow> (r, s'')))"

definition js_modify :: "('s \<Rightarrow> 's) \<Rightarrow> ('s, unit) jsm" where
  "js_modify f = (\<lambda>s. (Inr (), f s))"

lemmas js_defs [hb_defs] = js_ret_def js_throw_def js_bind_def js_try_def js_finally_def js_ensure_def js_modify_def

lemma js_bind_ret [simp]: "js_bind (js_ret x) f = f x"
  by (simp add: js_defs)

lemma js_bind_throw [simp]: "js_bind (js_throw e) f = js_throw e"
  by (simp add: js_defs)

lemma js_ret_bind [simp]: "js_bind m js_ret = m"
  by (auto simp: js_defs fun_eq_iff split: prod.splits sum.splits)

lemma js_bind_assoc: "js_bind (js_bind m f) g = js_bind m (\<lambda>x. js_bind (f x) g)"
  by (auto simp: js_defs fun_eq_iff split: prod.splits sum.splits)

lemma js_try_ret [simp]: "js_try (js_ret x) h = js_ret x"
  by (simp add: js_defs)

lemma js_try_throw [simp]: "js_try (js_throw e) h = h e"
  by (simp add: js_defs)

text \<open>An invariant of the state that a computation keeps, whether it returns or throws.\<close>

definition js_keeps :: "('s \<Rightarrow> bool) \<Rightarrow> ('s, 'a) jsm \<Rightarrow> bool" where
  "js_keeps P m \<longleftrightarrow> (\<forall>s. P s \<longrightarrow> P (snd (m s)))"

lemma js_keepsD: "js_keeps P m \<Longrightarrow> P s \<Longrightarrow> m s = (r, t) \<Longrightarrow> P t"
  unfolding js_keeps_def by (metis snd_conv)

lemma js_keeps_ret [simp]: "js_keeps P (js_ret x)"
  by (simp add: js_keeps_def js_defs)

lemma js_keeps_throw [simp]: "js_keeps P (js_throw e)"
  by (simp add: js_keeps_def js_defs)

lemma js_keeps_modify: "(\<And>s. P s \<Longrightarrow> P (f s)) \<Longrightarrow> js_keeps P (js_modify f)"
  by (simp add: js_keeps_def js_defs)

lemma js_keeps_bind: "js_keeps P m \<Longrightarrow> (\<And>x. js_keeps P (f x)) \<Longrightarrow> js_keeps P (js_bind m f)"
  by (fastforce simp: js_keeps_def js_bind_def split: prod.splits sum.splits)

lemma js_keeps_try: "js_keeps P m \<Longrightarrow> (\<And>e. js_keeps P (h e)) \<Longrightarrow> js_keeps P (js_try m h)"
  by (fastforce simp: js_keeps_def js_try_def split: prod.splits sum.splits)

lemma js_keeps_finally: "js_keeps P m \<Longrightarrow> (\<And>s. P s \<Longrightarrow> P (f s)) \<Longrightarrow> js_keeps P (js_finally m f)"
  by (fastforce simp: js_keeps_def js_finally_def split: prod.splits)

lemma js_keeps_ensure: "js_keeps P m \<Longrightarrow> js_keeps P f \<Longrightarrow> js_keeps P (js_ensure m f)"
  by (fastforce simp: js_keeps_def js_ensure_def split: prod.splits sum.splits)

lemmas js_keeps_rules = js_keeps_ret js_keeps_throw js_keeps_bind js_keeps_try

section \<open>JavaScript's Map\<close>

text \<open>
  A \<open>Map\<close> keeps its entries in insertion order, and \<open>set\<close> on a key that is present keeps its
  place: an association list without duplicate keys, updated by the library's AList operations.
\<close>

type_synonym ('k, 'v) jsmap = "('k \<times> 'v) list"

abbreviation jm_get :: "('k, 'v) jsmap \<Rightarrow> 'k \<Rightarrow> 'v option" where
  "jm_get m k \<equiv> map_of m k"

abbreviation jm_set :: "'k \<Rightarrow> 'v \<Rightarrow> ('k, 'v) jsmap \<Rightarrow> ('k, 'v) jsmap" where
  "jm_set k v m \<equiv> AList.update k v m"

abbreviation jm_delete :: "'k \<Rightarrow> ('k, 'v) jsmap \<Rightarrow> ('k, 'v) jsmap" where
  "jm_delete k m \<equiv> AList.delete k m"

abbreviation jm_keys :: "('k, 'v) jsmap \<Rightarrow> 'k list" where
  "jm_keys m \<equiv> map fst m"

abbreviation jm_values :: "('k, 'v) jsmap \<Rightarrow> 'v list" where
  "jm_values m \<equiv> map snd m"

abbreviation jm_size :: "('k, 'v) jsmap \<Rightarrow> nat" where
  "jm_size m \<equiv> length m"

definition jm_has :: "('k, 'v) jsmap \<Rightarrow> 'k \<Rightarrow> bool" where
  "jm_has m k \<longleftrightarrow> k \<in> set (jm_keys m)"

definition jm_wf :: "('k, 'v) jsmap \<Rightarrow> bool" where
  "jm_wf m \<longleftrightarrow> distinct (jm_keys m)"

text \<open>What a client of a \<open>Map\<close> relies on, whatever represents it.\<close>

locale js_map =
  fixes get :: "'m \<Rightarrow> 'k \<Rightarrow> 'v option"
    and upd :: "'k \<Rightarrow> 'v \<Rightarrow> 'm \<Rightarrow> 'm"
    and del :: "'k \<Rightarrow> 'm \<Rightarrow> 'm"
    and keys :: "'m \<Rightarrow> 'k list"
    and wf :: "'m \<Rightarrow> bool"
  assumes get_upd: "get (upd k v m) j = (if j = k then Some v else get m j)"
    and get_del: "get (del k m) j = (if j = k then None else get m j)"
    and keys_iff: "j \<in> set (keys m) \<longleftrightarrow> get m j \<noteq> None"
    and wf_upd: "wf m \<Longrightarrow> wf (upd k v m)"
    and wf_del: "wf m \<Longrightarrow> wf (del k m)"
    and wf_keys: "wf m \<Longrightarrow> distinct (keys m)"
begin

lemma keys_upd: "set (keys (upd k v m)) = insert k (set (keys m))"
  by (auto simp: keys_iff get_upd split: if_splits)

lemma keys_del: "set (keys (del k m)) = set (keys m) - {k}"
  by (auto simp: keys_iff get_del split: if_splits)

lemma upd_size:
  assumes "wf m"
  shows "length (keys (upd k v m)) = (if get m k = None then Suc (length (keys m)) else length (keys m))"
proof -
  have "length (keys (upd k v m)) = card (insert k (set (keys m)))"
    using wf_keys [OF wf_upd [OF assms]] by (metis distinct_card keys_upd)
  then show ?thesis
    using wf_keys [OF assms] by (auto simp: distinct_card card_insert_if keys_iff)
qed

lemma del_size:
  assumes "wf m"
  shows "length (keys (del k m)) = (if get m k = None then length (keys m) else length (keys m) - 1)"
proof -
  have "length (keys (del k m)) = card (set (keys m) - {k})"
    using wf_keys [OF wf_del [OF assms]] by (metis distinct_card keys_del)
  then show ?thesis
    using wf_keys [OF assms] by (auto simp: distinct_card card_Diff_singleton_if keys_iff)
qed

end

lemma jm_wf_set [simp, intro]: "jm_wf m \<Longrightarrow> jm_wf (jm_set k v m)"
  by (simp add: jm_wf_def distinct_update)

lemma jm_wf_delete [simp, intro]: "jm_wf m \<Longrightarrow> jm_wf (jm_delete k m)"
  by (simp add: jm_wf_def distinct_delete)

lemma jm_wf_Nil [simp]: "jm_wf []"
  by (simp add: jm_wf_def)

lemma jm_get_set [simp]: "jm_get (jm_set k v m) j = (if j = k then Some v else jm_get m j)"
  by (simp add: update_conv')

lemma jm_get_delete [simp]: "jm_get (jm_delete k m) j = (if j = k then None else jm_get m j)"
  by (simp add: delete_conv')

lemma jm_has_get: "jm_has m k \<longleftrightarrow> jm_get m k \<noteq> None"
  by (simp add: jm_has_def map_of_eq_None_iff)

interpretation jm: js_map map_of AList.update AList.delete "map fst" jm_wf
proof unfold_locales
  fix m :: "('a \<times> 'b) list" and j
  show "j \<in> set (map fst m) \<longleftrightarrow> map_of m j \<noteq> None"
    by (simp add: map_of_eq_None_iff)
qed (auto simp: jm_wf_def distinct_update distinct_delete)

lemma jm_size_set:
  "jm_wf m \<Longrightarrow> jm_size (jm_set k v m) = (if jm_get m k = None then Suc (jm_size m) else jm_size m)"
  using jm.upd_size [of m k v] by simp

lemma jm_size_delete:
  "jm_wf m \<Longrightarrow> jm_size (jm_delete k m) = (if jm_get m k = None then jm_size m else jm_size m - 1)"
  using jm.del_size [of m k] by simp

lemma jm_delete_fresh: "jm_get m k = None \<Longrightarrow> jm_delete k m = m"
  by (metis delete_id map_of_eq_None_iff)

lemma jm_set_fresh: "jm_get m k = None \<Longrightarrow> jm_set k v m = m @ [(k, v)]"
  by (induction m) (auto split: if_splits)

text \<open>A quantity summed over the values of a map, as a running total keeps it.\<close>

definition jm_sum :: "('v \<Rightarrow> nat) \<Rightarrow> ('k, 'v) jsmap \<Rightarrow> nat" where
  "jm_sum f m = sum_list (map f (jm_values m))"

lemma jm_sum_Nil [simp]: "jm_sum f [] = 0"
  by (simp add: jm_sum_def)

lemma jm_sum_set_fresh: "jm_get m k = None \<Longrightarrow> jm_sum f (jm_set k v m) = jm_sum f m + f v"
  by (simp add: jm_set_fresh jm_sum_def)

lemma jm_sum_delete:
  "jm_wf m \<Longrightarrow> jm_get m k = Some v \<Longrightarrow> jm_sum f m = f v + jm_sum f (jm_delete k m)"
proof (induction m)
  case Nil
  then show ?case by simp
next
  case (Cons x m)
  obtain j w where x: "x = (j, w)" by force
  show ?case
  proof (cases "j = k")
    case True
    with Cons.prems x have "jm_delete k m = m"
      by (intro jm_delete_fresh) (simp add: jm_wf_def map_of_eq_None_iff)
    with True Cons.prems x show ?thesis by (simp add: jm_sum_def)
  next
    case False
    with Cons x show ?thesis by (simp add: jm_sum_def jm_wf_def)
  qed
qed

section \<open>Byte buffers\<close>

text \<open>\<open>buffer.subarray(b, e)\<close> clamps both ends to the buffer.\<close>

definition subarray :: "nat \<Rightarrow> nat \<Rightarrow> 'a list \<Rightarrow> 'a list" where
  "subarray b e xs = take (e - b) (drop b xs)"

text \<open>\<open>target.set(xs, at)\<close> throws a RangeError when the source does not fit.\<close>

definition buf_set :: "'a list \<Rightarrow> nat \<Rightarrow> 'a list \<Rightarrow> 'a list res" where
  "buf_set xs i ys =
     (if i + length xs \<le> length ys then Inr (take i ys @ xs @ drop (i + length xs) ys)
      else Inl (RangeError ''offset is out of bounds''))"

lemma length_subarray [simp]: "length (subarray b e xs) = min (e - b) (length xs - b)"
  by (simp add: subarray_def)

lemma subarray_all [simp]: "length xs \<le> e \<Longrightarrow> subarray 0 e xs = xs"
  by (simp add: subarray_def)

lemma subarray_adjacent:
  "b \<le> m \<Longrightarrow> m \<le> e \<Longrightarrow> subarray b m xs @ subarray m e xs = subarray b e xs"
proof -
  assume h: "b \<le> m" "m \<le> e"
  then have "e - b = (m - b) + (e - m)" "drop m xs = drop (m - b) (drop b xs)"
    by simp_all
  then show ?thesis by (simp add: subarray_def take_add)
qed

lemma buf_set_read:
  "buf_set xs i ys = Inr zs \<Longrightarrow> subarray i (i + length xs) zs = xs \<and> length zs = length ys"
  by (auto simp: buf_set_def subarray_def split: if_splits)

text \<open>\<open>TextEncoder\<close> and \<open>TextDecoder\<close> on the UTF-8 representation.\<close>

definition text_encode :: "string \<Rightarrow> byte list" where
  "text_encode s = map (\<lambda>c. of_nat (of_char c)) s"

definition text_decode :: "byte list \<Rightarrow> string" where
  "text_decode bs = map (\<lambda>b. char_of (unat b)) bs"

lemma length_text_encode [simp]: "length (text_encode s) = length s"
  by (simp add: text_encode_def)

lemma text_decode_encode [simp]: "text_decode (text_encode s) = s"
proof -
  have "char_of (unat (of_nat (of_char c) :: byte)) = c" for c
  proof -
    have "of_char c < (256 :: nat)"
      using nat_of_char_less_256 [of c] by simp
    then have "unat (of_nat (of_char c) :: byte) = of_char c"
      by (simp add: unat_of_nat)
    then show ?thesis by simp
  qed
  then show ?thesis by (simp add: text_encode_def text_decode_def comp_def map_idI)
qed

section \<open>Strings\<close>

fun starts_with :: "'a list \<Rightarrow> 'a list \<Rightarrow> bool" where
  "starts_with [] s = True"
| "starts_with (p # ps) [] = False"
| "starts_with (p # ps) (c # s) = (p = c \<and> starts_with ps s)"

lemma starts_with_iff: "starts_with p s \<longleftrightarrow> (\<exists>r. s = p @ r)"
  by (induction p s rule: starts_with.induct) auto

lemma starts_with_append [simp]: "starts_with p (p @ r)"
  by (simp add: starts_with_iff)

definition ends_with :: "'a list \<Rightarrow> 'a list \<Rightarrow> bool" where
  "ends_with p s \<longleftrightarrow> starts_with (rev p) (rev s)"

lemma ends_with_iff: "ends_with p s \<longleftrightarrow> (\<exists>r. s = r @ p)"
proof -
  have "ends_with p s \<longleftrightarrow> (\<exists>r. rev s = rev p @ r)"
    by (simp add: ends_with_def starts_with_iff)
  also have "\<dots> \<longleftrightarrow> (\<exists>r. s = r @ p)"
    by (metis rev_append rev_rev_ident)
  finally show ?thesis .
qed

text \<open>\<open>s.includes(p)\<close>.\<close>

fun contains :: "'a list \<Rightarrow> 'a list \<Rightarrow> bool" where
  "contains p [] = (p = [])"
| "contains p (c # s) = (starts_with p (c # s) \<or> contains p s)"

lemma contains_iff: "contains p s \<longleftrightarrow> (\<exists>u v. s = u @ p @ v)"
proof (induction s)
  case (Cons c s)
  have "(\<exists>u v. c # s = u @ p @ v) \<longleftrightarrow> (\<exists>v. c # s = p @ v) \<or> (\<exists>u v. s = u @ p @ v)"
    by (metis append_Cons append_Nil list.inject neq_Nil_conv)
  with Cons show ?case by (simp add: starts_with_iff)
qed simp

text \<open>\<open>s.split(sep)\<close> for a separator of one character: always at least one piece.\<close>

fun split_on :: "'a \<Rightarrow> 'a list \<Rightarrow> 'a list list" where
  "split_on c [] = [[]]"
| "split_on c (x # xs) =
     (if x = c then [] # split_on c xs
      else (case split_on c xs of [] \<Rightarrow> [[x]] | p # ps \<Rightarrow> (x # p) # ps))"

text \<open>The decimal rendering of a number in a template literal.\<close>

fun show_nat :: "nat \<Rightarrow> string" where
  "show_nat n = (if n < 10 then [char_of (48 + n)] else show_nat (n div 10) @ [char_of (48 + n mod 10)])"

declare show_nat.simps [simp del]

definition show_int :: "int \<Rightarrow> string" where
  "show_int i = (if i < 0 then CHR ''-'' # show_nat (nat (- i)) else show_nat (nat i))"

text \<open>
  The characters of \<open>\s\<close> in a regular expression, as UTF-8: the ASCII white space, NO-BREAK SPACE, OGHAM SPACE MARK, the
  spaces U+2000 to U+200A, LINE and PARAGRAPH SEPARATOR, NARROW NO-BREAK SPACE, MEDIUM MATHEMATICAL SPACE,
  IDEOGRAPHIC SPACE and the byte order mark. A lead byte occurs only at the start of a character, so the test
  may be made at every byte.
\<close>

definition js_spaces :: "string list" where
  "js_spaces =
     [[CHR 0x09], [CHR 0x0A], [CHR 0x0B], [CHR 0x0C], [CHR 0x0D], [CHR 0x20], [CHR 0xC2, CHR 0xA0],
      [CHR 0xE1, CHR 0x9A, CHR 0x80], [CHR 0xE2, CHR 0x80, CHR 0x80], [CHR 0xE2, CHR 0x80, CHR 0x81],
      [CHR 0xE2, CHR 0x80, CHR 0x82], [CHR 0xE2, CHR 0x80, CHR 0x83], [CHR 0xE2, CHR 0x80, CHR 0x84],
      [CHR 0xE2, CHR 0x80, CHR 0x85], [CHR 0xE2, CHR 0x80, CHR 0x86], [CHR 0xE2, CHR 0x80, CHR 0x87],
      [CHR 0xE2, CHR 0x80, CHR 0x88], [CHR 0xE2, CHR 0x80, CHR 0x89], [CHR 0xE2, CHR 0x80, CHR 0x8A],
      [CHR 0xE2, CHR 0x80, CHR 0xA8], [CHR 0xE2, CHR 0x80, CHR 0xA9], [CHR 0xE2, CHR 0x80, CHR 0xAF],
      [CHR 0xE2, CHR 0x81, CHR 0x9F], [CHR 0xE3, CHR 0x80, CHR 0x80], [CHR 0xEF, CHR 0xBB, CHR 0xBF]]"

definition at_space :: "string \<Rightarrow> bool" where
  "at_space s \<longleftrightarrow> list_ex (\<lambda>w. starts_with w s) js_spaces"

text \<open>\<open>\s*\<close>, which takes every white space character there is.\<close>

fun after_space :: "string list \<Rightarrow> string \<Rightarrow> string option" where
  "after_space [] s = None"
| "after_space (w # ws) s = (if w \<noteq> [] \<and> starts_with w s then Some (drop (length w) s) else after_space ws s)"

lemma after_space_length: "after_space ws s = Some r \<Longrightarrow> length r < length s"
  by (induction ws) (auto simp: starts_with_iff split: if_splits)

function skip_spaces :: "string \<Rightarrow> string" where
  "skip_spaces s = (case after_space js_spaces s of None \<Rightarrow> s | Some r \<Rightarrow> skip_spaces r)"
  by pat_completeness auto
termination
  by (relation "measure length") (auto dest: after_space_length)

declare skip_spaces.simps [simp del]

lemma skip_spaces_length: "length (skip_spaces s) \<le> length s"
proof (induction s rule: skip_spaces.induct)
  case (1 s)
  show ?case
  proof (cases "after_space js_spaces s")
    case (Some r)
    from 1 [OF this] after_space_length [OF this] Some show ?thesis by (simp add: skip_spaces.simps [of s])
  qed (simp add: skip_spaces.simps [of s])
qed

section \<open>Executions\<close>

text \<open>
  A component is a set of events, each a step from one state to the next; an execution is a list of
  events. An invariant that every step keeps is kept by every execution, and a quantity that no step
  lowers is lowered by no execution.
\<close>

inductive exec :: "('s \<Rightarrow> 'e \<Rightarrow> 's \<Rightarrow> bool) \<Rightarrow> 's \<Rightarrow> 'e list \<Rightarrow> 's \<Rightarrow> bool" for step where
  exec_Nil: "exec step s [] s"
| exec_Cons: "step s e t \<Longrightarrow> exec step t es u \<Longrightarrow> exec step s (e # es) u"

inductive_simps exec_Nil_iff [simp]: "exec step s [] t"
inductive_simps exec_Cons_iff: "exec step s (e # es) t"

lemma exec_append: "exec step s es t \<Longrightarrow> exec step t fs u \<Longrightarrow> exec step s (es @ fs) u"
  by (induction rule: exec.induct) (auto intro: exec.intros)

locale invariant_machine =
  fixes step :: "'s \<Rightarrow> 'e \<Rightarrow> 's \<Rightarrow> bool"
    and inv :: "'s \<Rightarrow> bool"
  assumes inv_step: "inv s \<Longrightarrow> step s e t \<Longrightarrow> inv t"
begin

lemma inv_exec: "exec step s es t \<Longrightarrow> inv s \<Longrightarrow> inv t"
  by (induction rule: exec.induct) (auto intro: inv_step)

end

end
