(* ===== verification/Hb_Types.thy ===== *)
theory Hb_Types
  imports Hb_Prelude
begin

text \<open>
  The data the components exchange: the database configuration (\<open>bindings/config.ts\<close>), the insert
  options (\<open>bindings/insert_options.ts\<close>), SQL types and their derivation from Arrow types
  (\<open>json_typedef.ts\<close>), status codes (\<open>status.ts\<close>), data protocols, file flags and file infos
  (\<open>bindings/runtime.ts\<close>), tokens, file infos and interrupt handles.

  A text that the code builds with \<open>JSON.stringify\<close> and hands to the engine is represented by the
  value it encodes. Optional properties are options, \<open>undefined\<close> being \<open>None\<close>.
\<close>

section \<open>Status codes, data protocols, file flags\<close>

definition SUCCESS :: int where "SUCCESS = 0"
definition MAX_ARROW_ERROR :: int where "MAX_ARROW_ERROR = 255"
definition DUCKDB_WASM_RETRY :: int where "DUCKDB_WASM_RETRY = 256"

lemmas status_defs = SUCCESS_def MAX_ARROW_ERROR_def DUCKDB_WASM_RETRY_def

definition IsArrowBuffer :: "int \<Rightarrow> bool" where
  "IsArrowBuffer status \<longleftrightarrow> status \<le> MAX_ARROW_ERROR"

definition IsDuckDBWasmRetry :: "int \<Rightarrow> bool" where
  "IsDuckDBWasmRetry status \<longleftrightarrow> status = DUCKDB_WASM_RETRY"

lemma retry_is_no_arrow_buffer: "IsDuckDBWasmRetry s \<Longrightarrow> \<not> IsArrowBuffer s"
  by (simp add: IsDuckDBWasmRetry_def IsArrowBuffer_def status_defs)

datatype DuckDBDataProtocol = BUFFER | NODE_FS | BROWSER_FILEREADER | BROWSER_FSACCESS | HTTP | S3

fun protocol_number :: "DuckDBDataProtocol \<Rightarrow> nat" where
  "protocol_number BUFFER = 0"
| "protocol_number NODE_FS = 1"
| "protocol_number BROWSER_FILEREADER = 2"
| "protocol_number BROWSER_FSACCESS = 3"
| "protocol_number HTTP = 4"
| "protocol_number S3 = 5"

text \<open>The flags are bits of a number; a test \<open>flags & FLAG\<close> asks for one bit.\<close>

datatype file_flag = FILE_FLAGS_READ | FILE_FLAGS_WRITE | FILE_FLAGS_DIRECT_IO | FILE_FLAGS_FILE_CREATE
  | FILE_FLAGS_FILE_CREATE_NEW | FILE_FLAGS_APPEND | FILE_FLAGS_PRIVATE | FILE_FLAGS_NULL_IF_NOT_EXISTS
  | FILE_FLAGS_PARALLEL_ACCESS | FILE_FLAGS_EXCLUSIVE_CREATE | FILE_FLAGS_NULL_IF_EXISTS

fun flag_bit :: "file_flag \<Rightarrow> nat" where
  "flag_bit FILE_FLAGS_READ = 0"
| "flag_bit FILE_FLAGS_WRITE = 1"
| "flag_bit FILE_FLAGS_DIRECT_IO = 2"
| "flag_bit FILE_FLAGS_FILE_CREATE = 3"
| "flag_bit FILE_FLAGS_FILE_CREATE_NEW = 4"
| "flag_bit FILE_FLAGS_APPEND = 5"
| "flag_bit FILE_FLAGS_PRIVATE = 6"
| "flag_bit FILE_FLAGS_NULL_IF_NOT_EXISTS = 7"
| "flag_bit FILE_FLAGS_PARALLEL_ACCESS = 8"
| "flag_bit FILE_FLAGS_EXCLUSIVE_CREATE = 9"
| "flag_bit FILE_FLAGS_NULL_IF_EXISTS = 10"

type_synonym flags = "32 word"

definition has_flag :: "flags \<Rightarrow> file_flag \<Rightarrow> bool" where
  "has_flag fs f \<longleftrightarrow> bit fs (flag_bit f)"

section \<open>Configuration\<close>

datatype DuckDBAccessMode = UNDEFINED | AUTOMATIC | READ_ONLY | READ_WRITE

datatype file_handling = Auto | Manual

record DuckDBQueryConfig =
  queryPollingInterval :: "nat option"
  castBigIntToDouble :: "bool option"
  castTimestampToDate :: "bool option"
  castDurationToTime64 :: "bool option"
  castDecimalToDouble :: "bool option"

record DuckDBFilesystemConfig =
  cfg_reliableHeadRequests :: "bool option"
  cfg_allowFullHTTPReads :: "bool option"
  cfg_forceFullHTTPReads :: "bool option"

text \<open>\<open>opfs\<close> is an object with the one optional property \<open>fileHandling\<close>.\<close>

record DuckDBConfig =
  path :: "string option"
  accessMode :: "DuckDBAccessMode option"
  maximumThreads :: "nat option"
  useDirectIO :: "bool option"
  query :: "DuckDBQueryConfig option"
  filesystem :: "DuckDBFilesystemConfig option"
  allowUnsignedExtensions :: "bool option"
  arrowLosslessConversion :: "bool option"
  customUserAgent :: "string option"
  opfs :: "file_handling option option"
  singleThreadedExtensionLoad :: "bool option"

definition empty_config :: DuckDBConfig where
  "empty_config = \<lparr>path = None, accessMode = None, maximumThreads = None, useDirectIO = None,
     query = None, filesystem = None, allowUnsignedExtensions = None, arrowLosslessConversion = None,
     customUserAgent = None, opfs = None, singleThreadedExtensionLoad = None\<rparr>"

record S3Config =
  region :: "string option"
  endpoint :: "string option"
  accessKeyId :: "string option"
  secretAccessKey :: "string option"
  sessionToken :: "string option"

record DuckDBFileInfo =
  cacheEpoch :: nat
  fileId :: nat
  fileName :: string
  dataProtocol :: DuckDBDataProtocol
  dataUrl :: "string option"
  reliableHeadRequests :: bool
  allowFullHttpReads :: bool
  forceFullHttpReads :: bool
  s3Config :: "S3Config option"

record DuckDBGlobalFileInfo =
  g_cacheEpoch :: nat
  g_reliableHeadRequests :: bool
  g_allowFullHttpReads :: bool
  g_forceFullHttpReads :: bool
  g_s3Config :: "S3Config option"

record WebFile =
  wf_fileName :: string
  wf_dataProtocol :: DuckDBDataProtocol
  wf_fileId :: "nat option"
  wf_fileSize :: "nat option"
  wf_dataUrl :: "string option"
  wf_dataNativeFd :: "nat option"
  wf_collectStatistics :: "bool option"
  wf_reliableHeadRequests :: "bool option"
  wf_allowFullHttpReads :: "bool option"

datatype TokenType = IDENTIFIER | NUMERIC_CONSTANT | STRING_CONSTANT | OPERATOR | KEYWORD | COMMENT

record ScriptTokens =
  tok_offsets :: "nat list"
  tok_types :: "TokenType list"

text \<open>An interrupt handle names the shared wasm memory and the byte offset of the flag in it.\<close>

record InterruptHandle =
  ih_memory :: nat
  ih_offset :: nat

section \<open>SQL types of Arrow types\<close>

text \<open>
  The type ids that \<open>arrowToSQLType\<close> lists, with the attributes it reads; every other Arrow type is
  \<open>AT_Other\<close> with its printed form.
\<close>

datatype time_unit = Second | Millisecond | Microsecond | Nanosecond

datatype arrow_type =
    AT_Binary | AT_Bool | AT_Date | AT_DateDay | AT_DateMillisecond
  | AT_Decimal int int
  | AT_Float | AT_Float16 | AT_Float32 | AT_Float64
  | AT_Int | AT_Int16 | AT_Int32 | AT_Int64 | AT_Uint16 | AT_Uint32 | AT_Uint64 | AT_Uint8
  | AT_IntervalDayTime | AT_IntervalYearMonth
  | AT_List arrow_type
  | AT_FixedSizeBinary nat
  | AT_Null | AT_Utf8
  | AT_Struct "(string \<times> arrow_type) list"
  | AT_Map arrow_type arrow_type
  | AT_Time "time_unit option"
  | AT_Timestamp "time_unit option" "string option"
  | AT_Other string

text \<open>The interface also has an optional \<open>nullable\<close>, which no code sets.\<close>

datatype SQLType = SQLType
  (sqlType: string)
  (precision: "int option")
  (scale: "int option")
  (timezone: "string option")
  (byteWidth: "nat option")
  (keyType: "SQLType option")
  (valueType: "SQLType option")
  (fields: "(string \<times> SQLType) list option")

type_synonym SQLField = "string \<times> SQLType"

abbreviation plain_type :: "string \<Rightarrow> SQLType" where
  "plain_type s \<equiv> SQLType s None None None None None None None"

text \<open>\<open>ts.timezone || undefined\<close>: the empty string counts as absent.\<close>

definition timezone_or_undefined :: "string option \<Rightarrow> string option" where
  "timezone_or_undefined tz = (if tz = Some [] then None else tz)"

fun time_name :: "time_unit option \<Rightarrow> string" where
  "time_name None = ''time[s]''"
| "time_name (Some Microsecond) = ''time[us]''"
| "time_name (Some Millisecond) = ''time[ms]''"
| "time_name (Some Nanosecond) = ''time[ns]''"
| "time_name (Some Second) = ''time[s]''"

fun timestamp_name :: "time_unit option \<Rightarrow> string" where
  "timestamp_name None = ''timestamp''"
| "timestamp_name (Some Second) = ''timestamp[s]''"
| "timestamp_name (Some Microsecond) = ''timestamp[us]''"
| "timestamp_name (Some Nanosecond) = ''timestamp[ns]''"
| "timestamp_name (Some Millisecond) = ''timestamp[ms]''"

function arrowToSQLType :: "arrow_type \<Rightarrow> SQLType res"
  and arrowToSQLFields :: "(string \<times> arrow_type) list \<Rightarrow> SQLField list res"
where
  "arrowToSQLType AT_Binary = Inr (plain_type ''binary'')"
| "arrowToSQLType AT_Bool = Inr (plain_type ''bool'')"
| "arrowToSQLType AT_Date = Inr (plain_type ''date'')"
| "arrowToSQLType AT_DateDay = Inr (plain_type ''date32[d]'')"
| "arrowToSQLType AT_DateMillisecond = Inr (plain_type ''date64[ms]'')"
| "arrowToSQLType (AT_Decimal p s) = Inr (SQLType ''decimal'' (Some p) (Some s) None None None None None)"
| "arrowToSQLType AT_Float = Inr (plain_type ''float'')"
| "arrowToSQLType AT_Float16 = Inr (plain_type ''float16'')"
| "arrowToSQLType AT_Float32 = Inr (plain_type ''float32'')"
| "arrowToSQLType AT_Float64 = Inr (plain_type ''float64'')"
| "arrowToSQLType AT_Int = Inr (plain_type ''int32'')"
| "arrowToSQLType AT_Int16 = Inr (plain_type ''int16'')"
| "arrowToSQLType AT_Int32 = Inr (plain_type ''int32'')"
| "arrowToSQLType AT_Int64 = Inr (plain_type ''int64'')"
| "arrowToSQLType AT_Uint16 = Inr (plain_type ''uint16'')"
| "arrowToSQLType AT_Uint32 = Inr (plain_type ''uint32'')"
| "arrowToSQLType AT_Uint64 = Inr (plain_type ''uint64'')"
| "arrowToSQLType AT_Uint8 = Inr (plain_type ''uint8'')"
| "arrowToSQLType AT_IntervalDayTime = Inr (plain_type ''interval[dt]'')"
| "arrowToSQLType AT_IntervalYearMonth = Inr (plain_type ''interval[m]'')"
| "arrowToSQLType (AT_List v) = (case arrowToSQLType v of
        Inl e \<Rightarrow> Inl e
      | Inr t \<Rightarrow> Inr (SQLType ''list'' None None None None None (Some t) None))"
| "arrowToSQLType (AT_FixedSizeBinary w) = Inr (SQLType ''fixedsizebinary'' None None None (Some w) None None None)"
| "arrowToSQLType AT_Null = Inr (plain_type ''null'')"
| "arrowToSQLType AT_Utf8 = Inr (plain_type ''utf8'')"
| "arrowToSQLType (AT_Struct cs) = (case arrowToSQLFields cs of
        Inl e \<Rightarrow> Inl e
      | Inr fs \<Rightarrow> Inr (SQLType ''struct'' None None None None None None (Some fs)))"
| "arrowToSQLType (AT_Map k v) = (case arrowToSQLType k of
        Inl e \<Rightarrow> Inl e
      | Inr kt \<Rightarrow> (case arrowToSQLType v of
           Inl e \<Rightarrow> Inl e
         | Inr vt \<Rightarrow> Inr (SQLType ''map'' None None None None (Some kt) (Some vt) None)))"
| "arrowToSQLType (AT_Time u) = Inr (plain_type (time_name u))"
| "arrowToSQLType (AT_Timestamp u tz) =
        Inr (SQLType (timestamp_name u) None None (timezone_or_undefined tz) None None None None)"
| "arrowToSQLType (AT_Other s) = Inl (Error (''unsupported arrow type: '' @ s))"
| "arrowToSQLFields [] = Inr []"
| "arrowToSQLFields ((n, t) # cs) = (case arrowToSQLType t of
     Inl e \<Rightarrow> Inl e
   | Inr st \<Rightarrow> (case arrowToSQLFields cs of
        Inl e \<Rightarrow> Inl e
      | Inr fs \<Rightarrow> Inr ((n, st) # fs)))"
  by pat_completeness auto
termination
  by (relation "measure (case_sum size (size_list (size_prod (\<lambda>_. 0) size)))") auto

definition arrowToSQLField :: "string \<Rightarrow> arrow_type \<Rightarrow> SQLField res" where
  "arrowToSQLField name ty =
     (case arrowToSQLType ty of Inl e \<Rightarrow> Inl e | Inr t \<Rightarrow> Inr (name, t))"

text \<open>
  The struct case maps \<open>arrowToSQLField\<close> over the children; as a loop it stops at the first error.
\<close>

lemma arrowToSQLFields_Cons:
  "arrowToSQLFields ((n, t) # cs) = (case arrowToSQLField n t of
     Inl e \<Rightarrow> Inl e
   | Inr f \<Rightarrow> (case arrowToSQLFields cs of Inl e \<Rightarrow> Inl e | Inr fs \<Rightarrow> Inr (f # fs)))"
  by (simp add: arrowToSQLField_def split: sum.splits)

section \<open>Insert options\<close>

datatype JSONTableShape = ROW_ARRAY | COLUMN_OBJECT

text \<open>The options that CSV and JSON inserts share are those that column flattening touches.\<close>

record CSVInsertOptions =
  csv_name :: string
  csv_schema :: "string option"
  csv_create :: "bool option"
  csv_header :: "bool option"
  csv_delimiter :: "string option"
  csv_quote :: "string option"
  csv_escape :: "string option"
  csv_skip :: "nat option"
  csv_detect :: "bool option"
  csv_dateFormat :: "string option"
  csv_timestampFormat :: "string option"
  csv_columns :: "(string \<times> arrow_type) list option"
  csv_columnsFlat :: "SQLField list option"

record JSONInsertOptions =
  json_name :: string
  json_schema :: "string option"
  json_create :: "bool option"
  json_shape :: "JSONTableShape option"
  json_columns :: "(string \<times> arrow_type) list option"
  json_columnsFlat :: "SQLField list option"

record ArrowInsertOptions =
  arrow_name :: string
  arrow_schema :: "string option"
  arrow_create :: "bool option"

text \<open>
  \<open>for (const k in options.columns) out.push(arrowToSQLField(k, options.columns[k]))\<close>.
\<close>

fun flatten_columns :: "(string \<times> arrow_type) list \<Rightarrow> SQLField list res" where
  "flatten_columns [] = Inr []"
| "flatten_columns ((k, ty) # cs) = (case arrowToSQLField k ty of
     Inl e \<Rightarrow> Inl e
   | Inr f \<Rightarrow> (case flatten_columns cs of Inl e \<Rightarrow> Inl e | Inr fs \<Rightarrow> Inr (f # fs)))"

lemma flatten_columns_eq: "flatten_columns cs = arrowToSQLFields cs"
proof (induction cs)
  case Nil
  then show ?case by simp
next
  case (Cons c cs)
  then show ?case by (cases c) (simp only: flatten_columns.simps arrowToSQLFields_Cons)
qed

end
