(* ===== verification/Hb_FileStats.thy ===== *)
theory Hb_FileStats
  imports Hb_Types
begin

text \<open>
  \<open>bindings/file_stats.ts\<close>: the reader of the engine's file statistics, and the engine's encoder of
  one block (\<open>lib/src/io/file_stats.cc\<close>) that it has to match. The header is seven doubles; each
  block is three bytes of two nibbles.
\<close>

unbundle bit_operations_syntax

record FileBlockStatistics =
  file_reads_cold :: nat
  file_reads_ahead :: nat
  file_reads_cached :: nat
  file_writes :: nat
  page_accesses :: nat
  page_loads :: nat

record FileStatistics =
  totalFileReadsCold :: "nat option"
  totalFileReadsAhead :: "nat option"
  totalFileReadsCached :: "nat option"
  totalFileWrites :: "nat option"
  totalPageAccesses :: "nat option"
  totalPageLoads :: "nat option"
  blockSize :: "nat option"
  blockStats :: "byte list"

text \<open>An element of a typed array; reading past its end gives \<open>undefined\<close>.\<close>

definition elem :: "'a list \<Rightarrow> nat \<Rightarrow> 'a option" where
  "elem xs i = (if i < length xs then Some (xs ! i) else None)"

text \<open>
  The constructor. \<open>f64\<close> is the view of the same bytes as doubles. The block buffer is allocated with
  the length of the whole input, so it keeps 56 zero bytes at its end.
\<close>

definition FileStatistics :: "nat list \<Rightarrow> byte list \<Rightarrow> FileStatistics" where
  "FileStatistics f64 u8array = \<lparr>
     totalFileReadsCold = elem f64 0,
     totalFileReadsAhead = elem f64 1,
     totalFileReadsCached = elem f64 2,
     totalFileWrites = elem f64 3,
     totalPageAccesses = elem f64 4,
     totalPageLoads = elem f64 5,
     blockSize = elem f64 6,
     blockStats = (let blocks = drop (7 * 8) u8array
                   in blocks @ replicate (length u8array - length blocks) 0)\<rparr>"

text \<open>\<open>undefined & 15\<close> and \<open>undefined >> 4\<close> are 0.\<close>

definition stat_byte :: "FileStatistics \<Rightarrow> nat \<Rightarrow> byte" where
  "stat_byte st i = (case elem (blockStats st) i of None \<Rightarrow> 0 | Some b \<Rightarrow> b)"

definition low_nibble :: "byte \<Rightarrow> nat" where "low_nibble b = unat (b AND 15)"
definition high_nibble :: "byte \<Rightarrow> nat" where "high_nibble b = unat (drop_bit 4 b)"

definition getBlockStats :: "FileStatistics \<Rightarrow> nat \<Rightarrow> FileBlockStatistics" where
  "getBlockStats st index = \<lparr>
     file_reads_cold = high_nibble (stat_byte st (index * 3 + 0)),
     file_reads_ahead = low_nibble (stat_byte st (index * 3 + 1)),
     file_reads_cached = high_nibble (stat_byte st (index * 3 + 1)),
     file_writes = low_nibble (stat_byte st (index * 3 + 0)),
     page_accesses = low_nibble (stat_byte st (index * 3 + 1)),
     page_loads = high_nibble (stat_byte st (index * 3 + 1))\<rparr>"

section \<open>The engine's encoder\<close>

text \<open>The loop \<open>for (value = 0; value < 16; ++value)\<close>, left at the first value that fails.\<close>

fun nibble_loop :: "nat list \<Rightarrow> nat \<Rightarrow> nat \<Rightarrow> nat" where
  "nibble_loop [] hitsGEQ hits = hitsGEQ"
| "nibble_loop (value # values) hitsGEQ hits =
     (if hits \<ge> 2 ^ value - 1 then nibble_loop values value hits else hitsGEQ)"

definition as_nibble :: "nat \<Rightarrow> nat" where
  "as_nibble hits = nibble_loop [0..<16] 0 hits"

definition nibbles :: "nat \<Rightarrow> nat \<Rightarrow> byte" where
  "nibbles lo hi = of_nat (lo + 16 * hi)"

definition encode_block :: "FileBlockStatistics \<Rightarrow> byte list" where
  "encode_block b =
    [nibbles (as_nibble (file_writes b)) (as_nibble (file_reads_cold b)),
     nibbles (as_nibble (file_reads_ahead b)) (as_nibble (file_reads_cached b)),
     nibbles (as_nibble (page_accesses b)) (as_nibble (page_loads b))]"

lemma nibble_loop_bound: "g \<le> n \<Longrightarrow> \<forall>v \<in> set vs. v \<le> n \<Longrightarrow> nibble_loop vs g h \<le> n"
  by (induction vs arbitrary: g) auto

lemma as_nibble_bound: "as_nibble h < 16"
proof -
  have "as_nibble h \<le> 15"
    unfolding as_nibble_def by (rule nibble_loop_bound) auto
  then show ?thesis by simp
qed

lemma unat_nibbles: "lo < 16 \<Longrightarrow> hi < 16 \<Longrightarrow> unat (nibbles lo hi) = lo + 16 * hi"
  unfolding nibbles_def by (subst unat_of_nat) simp

lemma low_nibble_mod: "low_nibble b = unat b mod 16"
proof -
  have "b AND 15 = take_bit 4 b"
    by (simp add: take_bit_eq_mask mask_eq_exp_minus_1)
  then show ?thesis
    by (simp add: low_nibble_def take_bit_eq_mod unat_mod)
qed

lemma high_nibble_div: "high_nibble b = unat b div 16"
  by (simp add: high_nibble_def drop_bit_eq_div unat_div)

lemma nibbles_split [simp]:
  "lo < 16 \<Longrightarrow> hi < 16 \<Longrightarrow> low_nibble (nibbles lo hi) = lo"
  "lo < 16 \<Longrightarrow> hi < 16 \<Longrightarrow> high_nibble (nibbles lo hi) = hi"
  by (simp_all add: low_nibble_mod high_nibble_div unat_nibbles)

lemma concat_encode_nth:
  "i < length bs \<Longrightarrow> k < 3 \<Longrightarrow> concat (map encode_block bs) ! (i * 3 + k) = encode_block (bs ! i) ! k"
proof (induction bs arbitrary: i)
  case Nil
  then show ?case by simp
next
  case (Cons b bs)
  have len: "length (encode_block b) = 3" by (simp add: encode_block_def)
  show ?case
  proof (cases i)
    case 0
    with Cons.prems len show ?thesis by (simp add: nth_append)
  next
    case (Suc j)
    with Cons len show ?thesis by (simp add: nth_append)
  qed
qed

lemma length_concat_encode [simp]: "length (concat (map encode_block bs)) = length bs * 3"
  by (induction bs) (simp_all add: encode_block_def)

lemma stat_byte_encoded:
  assumes "length hdr = 56" "i < length bs" "k < 3"
  shows "stat_byte (FileStatistics f64 (hdr @ concat (map encode_block bs))) (i * 3 + k)
           = encode_block (bs ! i) ! k"
proof -
  have "i * 3 + k < length bs * 3" using assms by linarith
  with assms show ?thesis
    by (simp add: stat_byte_def FileStatistics_def elem_def nth_append concat_encode_nth)
qed

text \<open>C29: on what the engine exports, \<open>getBlockStats\<close> returns the exported counters of a block for
  the file reads and writes; but for the two page counters it returns the read-ahead and cached-read
  counters, since it reads the second byte of the block twice and the third never.\<close>

theorem getBlockStats_decodes:
  assumes "length hdr = 56" and "i < length bs"
  shows "getBlockStats (FileStatistics f64 (hdr @ concat (map encode_block bs))) i =
    \<lparr>file_reads_cold = as_nibble (file_reads_cold (bs ! i)),
     file_reads_ahead = as_nibble (file_reads_ahead (bs ! i)),
     file_reads_cached = as_nibble (file_reads_cached (bs ! i)),
     file_writes = as_nibble (file_writes (bs ! i)),
     page_accesses = as_nibble (file_reads_ahead (bs ! i)),
     page_loads = as_nibble (file_reads_cached (bs ! i))\<rparr>"
  using stat_byte_encoded [OF assms, of 0] stat_byte_encoded [OF assms, of 1]
  by (simp add: getBlockStats_def encode_block_def as_nibble_bound)

theorem getBlockStats_decodes_witness:
  "page_accesses (getBlockStats (FileStatistics [] (replicate 56 0 @ concat (map encode_block
      [\<lparr>file_reads_cold = 1, file_reads_ahead = 0, file_reads_cached = 0, file_writes = 0,
        page_accesses = 3, page_loads = 1\<rparr>]))) 0) = 0 \<and> as_nibble 3 = 2"
proof -
  have "as_nibble 3 = 2" "as_nibble 0 = 0" by code_simp+
  then show ?thesis by (subst getBlockStats_decodes) simp_all
qed

end
