(* ===== verification/Hb_Prefetch.thy ===== *)
theory Hb_Prefetch
  imports Hb_Prelude
begin

text \<open>
  \<open>parallel/extension_prefetch.ts\<close>: the worker's store of prefetched extensions. Downloads run
  concurrently; the store's state changes when a prefetch is requested, when a download settles, when
  LOAD takes an entry and when the store is cleared, and these events come in any order.

  WebCrypto's digest, the presence of \<open>crypto.subtle\<close> and of \<open>AbortSignal\<close>, and the outcome of each
  download are parameters.
\<close>

definition SIGNATURE_SIZE :: nat where "SIGNATURE_SIZE = 256"
definition HASH_CHUNK_SIZE :: nat where "HASH_CHUNK_SIZE = 1024 * 1024"
definition MAX_HELD_BYTES :: nat where "MAX_HELD_BYTES = 256 * 1024 * 1024"
definition PREFETCH_TIMEOUT_MS :: nat where "PREFETCH_TIMEOUT_MS = 30000"

record PrefetchedExtension =
  px_bytes :: "byte list"
  px_hash :: "byte list option"
  px_module :: "nat option"

text \<open>
  A running prefetch is in flight since a generation (\<open>Some\<close>); \<open>None\<close> is an entry whose promise has
  settled already, which nothing removes.
\<close>

record prefetch =
  prefetched :: "(string, PrefetchedExtension) jsmap"
  running :: "(string, nat option) jsmap"
  heldBytes :: nat
  generation :: nat

definition prefetch_init :: prefetch where
  "prefetch_init = \<lparr>prefetched = [], running = [], heldBytes = 0, generation = 0\<rparr>"

section \<open>The two-level hash\<close>

function hash_chunks :: "byte list \<Rightarrow> nat \<Rightarrow> nat \<Rightarrow> byte list list" where
  "hash_chunks bytes stop offset =
     (if offset < stop
      then subarray offset (min stop (offset + HASH_CHUNK_SIZE)) bytes
             # hash_chunks bytes stop (offset + HASH_CHUNK_SIZE)
      else [])"
  by pat_completeness auto
termination
  by (relation "measure (\<lambda>(bytes, stop, offset). stop - offset)") (auto simp: HASH_CHUNK_SIZE_def)

declare hash_chunks.simps [simp del]

text \<open>\<open>hashes.forEach((h, i) => concatenated.set(h, i * 32))\<close>.\<close>

fun set_hashes :: "byte list list \<Rightarrow> nat \<Rightarrow> byte list \<Rightarrow> byte list res" where
  "set_hashes [] i out = Inr out"
| "set_hashes (h # hs) i out =
     (case buf_set h (i * 32) out of Inl e \<Rightarrow> Inl e | Inr out' \<Rightarrow> set_hashes hs (Suc i) out')"

definition computeExtensionHash :: "(byte list \<Rightarrow> byte list) \<Rightarrow> bool \<Rightarrow> byte list \<Rightarrow> byte list option res" where
  "computeExtensionHash digest subtle bytes =
     (if length bytes < SIGNATURE_SIZE \<or> \<not> subtle then Inr None
      else let stop = length bytes - SIGNATURE_SIZE;
               hashes = map digest (hash_chunks bytes stop 0)
           in (case set_hashes hashes 0 (replicate (length hashes * 32) 0) of
                 Inl e \<Rightarrow> Inl e
               | Inr concatenated \<Rightarrow> Inr (Some (digest concatenated))))"

lemma hash_chunks_concat:
  "offset \<le> stop \<Longrightarrow> concat (hash_chunks bytes stop offset) = subarray offset stop bytes"
proof (induction bytes stop offset rule: hash_chunks.induct)
  case (1 bytes stop offset)
  show ?case
  proof (cases "offset < stop")
    case True
    let ?m = "min stop (offset + HASH_CHUNK_SIZE)"
    have rest: "concat (hash_chunks bytes stop (offset + HASH_CHUNK_SIZE)) = subarray ?m stop bytes"
    proof (cases "offset + HASH_CHUNK_SIZE \<le> stop")
      case True
      with 1 \<open>offset < stop\<close> show ?thesis by (simp add: min_def)
    next
      case False
      then show ?thesis by (simp add: hash_chunks.simps subarray_def min_def)
    qed
    have "concat (hash_chunks bytes stop offset) = subarray offset ?m bytes @ subarray ?m stop bytes"
      using True rest by (simp add: hash_chunks.simps [of bytes stop offset])
    then show ?thesis using True by (simp add: subarray_adjacent)
  next
    case False
    with "1.prems" show ?thesis by (simp add: hash_chunks.simps subarray_def)
  qed
qed

lemma hash_chunks_size: "c \<in> set (hash_chunks bytes stop offset) \<Longrightarrow> length c \<le> HASH_CHUNK_SIZE"
proof (induction bytes stop offset rule: hash_chunks.induct)
  case (1 bytes stop offset)
  then show ?case
    by (subst (asm) (2) hash_chunks.simps) (auto split: if_splits)
qed

lemma set_hashes_concat:
  assumes "\<forall>h \<in> set hs. length h = 32" and "length pre = i * 32"
  shows "set_hashes hs i (pre @ replicate (length hs * 32) z) = Inr (pre @ concat hs)"
  using assms
proof (induction hs arbitrary: i pre)
  case Nil
  then show ?case by simp
next
  case (Cons h hs)
  have h: "length h = 32" using Cons.prems by simp
  have set: "buf_set h (i * 32) (pre @ replicate (length (h # hs) * 32) z)
      = Inr ((pre @ h) @ replicate (length hs * 32) z)"
    using h Cons.prems(2) by (simp add: buf_set_def drop_replicate)
  have "set_hashes hs (Suc i) ((pre @ h) @ replicate (length hs * 32) z) = Inr ((pre @ h) @ concat hs)"
    using Cons.prems h by (intro Cons.IH) simp_all
  then show ?case by (simp only: set_hashes.simps set sum.case) simp
qed

section \<open>Downloads\<close>

text \<open>
  How a fetch can settle: an error or timeout while fetching or reading, or a response with a status,
  its bytes and the module compiled from it, if compiling succeeded.
\<close>

datatype download = NetworkFailure | Response nat "byte list" "nat option"

text \<open>
  \<open>prefetchOne\<close> up to its first await, and \<open>running.set(url, p)\<close> after it. Where the global
  \<open>AbortSignal\<close> does not exist, reading \<open>AbortSignal.timeout\<close> throws at once, the finaliser deletes the
  entry before it has been made, and a settled promise is entered.
\<close>

definition prefetchOne_start :: "bool \<Rightarrow> string \<Rightarrow> prefetch \<Rightarrow> prefetch" where
  "prefetchOne_start abort_signal url st =
     (if abort_signal then st\<lparr>running := jm_set url (Some (generation st)) (running st)\<rparr>
      else let st' = st\<lparr>running := jm_delete url (running st)\<rparr>
           in st'\<lparr>running := jm_set url None (running st')\<rparr>)"

text \<open>\<open>prefetchOne\<close> from the settled download on; a failing hash counts as no hash.\<close>

definition prefetchOne_finish ::
  "(byte list \<Rightarrow> byte list) \<Rightarrow> bool \<Rightarrow> string \<Rightarrow> nat \<Rightarrow> download \<Rightarrow> prefetch \<Rightarrow> prefetch" where
  "prefetchOne_finish digest subtle url startedIn dl st =
     (let st' =
        (case dl of
           NetworkFailure \<Rightarrow> st
         | Response status bytes modul \<Rightarrow>
             if status \<noteq> 200 then st
             else let hash = (case computeExtensionHash digest subtle bytes of Inl _ \<Rightarrow> None | Inr h \<Rightarrow> h)
                  in if generation st \<noteq> startedIn \<or> heldBytes st + length bytes > MAX_HELD_BYTES then st
                     else st\<lparr>prefetched := jm_set url \<lparr>px_bytes = bytes, px_hash = hash, px_module = modul\<rparr>
                                            (prefetched st),
                             heldBytes := heldBytes st + length bytes\<rparr>)
      in st'\<lparr>running := jm_delete url (running st')\<rparr>)"

text \<open>The loop of \<open>prefetchExtensions\<close>: the new state and the URLs whose promises are awaited.\<close>

fun prefetchExtensions :: "bool \<Rightarrow> string list \<Rightarrow> prefetch \<Rightarrow> string list \<times> prefetch" where
  "prefetchExtensions sig [] st = ([], st)"
| "prefetchExtensions sig (url # urls) st =
     (if jm_has (prefetched st) url then prefetchExtensions sig urls st
      else let st' = (if jm_has (running st) url then st else prefetchOne_start sig url st);
               (work, st'') = prefetchExtensions sig urls st'
           in (url # work, st''))"

definition prefetchesRunning :: "prefetch \<Rightarrow> bool" where
  "prefetchesRunning st \<longleftrightarrow> jm_size (running st) > 0"

definition takePrefetchedExtension :: "string \<Rightarrow> prefetch \<Rightarrow> PrefetchedExtension option \<times> prefetch" where
  "takePrefetchedExtension url st =
     (case jm_get (prefetched st) url of
        None \<Rightarrow> (None, st)
      | Some entry \<Rightarrow>
          (Some entry, st\<lparr>prefetched := jm_delete url (prefetched st),
                          heldBytes := heldBytes st - length (px_bytes entry)\<rparr>))"

definition clearPrefetchedExtensions :: "prefetch \<Rightarrow> prefetch" where
  "clearPrefetchedExtensions st = st\<lparr>prefetched := [], heldBytes := 0, generation := Suc (generation st)\<rparr>"

lemmas prefetch_op_defs = prefetchOne_start_def prefetchOne_finish_def takePrefetchedExtension_def
  clearPrefetchedExtensions_def

section \<open>The store as a state machine\<close>

datatype prefetch_event = PE_prefetch "string list" | PE_settle string download | PE_take string | PE_clear

inductive prefetch_step ::
  "(byte list \<Rightarrow> byte list) \<Rightarrow> bool \<Rightarrow> bool \<Rightarrow> prefetch \<Rightarrow> prefetch_event \<Rightarrow> prefetch \<Rightarrow> bool"
  for digest subtle sig where
  ps_prefetch: "prefetchExtensions sig urls st = (work, st') \<Longrightarrow>
     prefetch_step digest subtle sig st (PE_prefetch urls) st'"
| ps_settle: "jm_get (running st) url = Some (Some g) \<Longrightarrow>
     prefetch_step digest subtle sig st (PE_settle url dl) (prefetchOne_finish digest subtle url g dl st)"
| ps_take: "takePrefetchedExtension url st = (r, st') \<Longrightarrow> prefetch_step digest subtle sig st (PE_take url) st'"
| ps_clear: "prefetch_step digest subtle sig st PE_clear (clearPrefetchedExtensions st)"

inductive_cases prefetch_stepE: "prefetch_step digest subtle sig st e st'"

definition hash_of :: "(byte list \<Rightarrow> byte list) \<Rightarrow> bool \<Rightarrow> byte list \<Rightarrow> byte list option" where
  "hash_of digest subtle bytes = (case computeExtensionHash digest subtle bytes of Inl _ \<Rightarrow> None | Inr h \<Rightarrow> h)"

definition prefetch_inv :: "(byte list \<Rightarrow> byte list) \<Rightarrow> bool \<Rightarrow> bool \<Rightarrow> prefetch \<Rightarrow> bool" where
  "prefetch_inv digest subtle sig st \<longleftrightarrow>
     jm_wf (prefetched st) \<and> jm_wf (running st)
   \<and> heldBytes st = jm_sum (length \<circ> px_bytes) (prefetched st)
   \<and> heldBytes st \<le> MAX_HELD_BYTES
   \<and> (\<forall>url. jm_get (running st) url \<noteq> None \<longrightarrow> jm_get (prefetched st) url = None)
   \<and> (\<forall>url e. jm_get (prefetched st) url = Some e \<longrightarrow> px_hash e = hash_of digest subtle (px_bytes e))
   \<and> (sig \<longrightarrow> (\<forall>url. jm_get (running st) url \<noteq> Some None))"

lemma prefetch_inv_init [simp]: "prefetch_inv digest subtle sig prefetch_init"
  by (simp add: prefetch_inv_def prefetch_init_def)

lemma prefetch_inv_start [hb_inv]:
  "prefetch_inv digest subtle sig st \<Longrightarrow> jm_get (prefetched st) url = None \<Longrightarrow>
   prefetch_inv digest subtle sig (prefetchOne_start sig url st)"
  by (auto simp: prefetch_inv_def prefetchOne_start_def Let_def)

lemma prefetch_inv_prefetch [hb_inv]:
  "prefetch_inv digest subtle sig st \<Longrightarrow> prefetchExtensions sig urls st = (work, st') \<Longrightarrow>
   prefetch_inv digest subtle sig st'"
proof (induction sig urls st arbitrary: work st' rule: prefetchExtensions.induct)
  case (1 sig st)
  then show ?case by simp
next
  case (2 sig url urls st)
  then show ?case
    by (auto simp: jm_has_get Let_def split: if_splits prod.splits intro: prefetch_inv_start)
qed

lemma prefetch_inv_finish [hb_inv]:
  assumes "prefetch_inv digest subtle sig st" and "jm_get (running st) url = Some (Some g)"
  shows "prefetch_inv digest subtle sig (prefetchOne_finish digest subtle url g dl st)"
proof -
  have "jm_get (prefetched st) url = None" using assms by (simp add: prefetch_inv_def)
  with assms show ?thesis
    by (auto simp: prefetch_inv_def prefetchOne_finish_def Let_def hash_of_def jm_sum_set_fresh
        split: download.splits if_splits)
qed

lemma prefetch_inv_take [hb_inv]:
  assumes "prefetch_inv digest subtle sig st" and "takePrefetchedExtension url st = (r, st')"
  shows "prefetch_inv digest subtle sig st'"
proof (cases "jm_get (prefetched st) url")
  case None
  with assms show ?thesis by (simp add: takePrefetchedExtension_def)
next
  case (Some e)
  have "jm_sum (length \<circ> px_bytes) (prefetched st)
      = length (px_bytes e) + jm_sum (length \<circ> px_bytes) (jm_delete url (prefetched st))"
    using jm_sum_delete [OF _ Some] assms(1) by (simp add: prefetch_inv_def)
  with assms Some show ?thesis
    by (auto simp: prefetch_inv_def takePrefetchedExtension_def split: if_splits)
qed

lemma prefetch_inv_clear [hb_inv]:
  "prefetch_inv digest subtle sig st \<Longrightarrow> prefetch_inv digest subtle sig (clearPrefetchedExtensions st)"
  by (auto simp: prefetch_inv_def clearPrefetchedExtensions_def)

interpretation pf: invariant_machine "prefetch_step digest subtle sig" "prefetch_inv digest subtle sig"
  by unfold_locales (auto elim!: prefetch_stepE intro: hb_inv)

section \<open>Properties\<close>

text \<open>the signature hash of an extension covers exactly the file without its 256-byte signature:
  with a digest of 32 bytes, it is the digest of the concatenated digests of consecutive pieces of at
  most 1 MiB whose concatenation is that part of the file.\<close>

theorem computeExtensionHash_covers:
  assumes "\<forall>x. length (digest x) = 32" and "SIGNATURE_SIZE \<le> length bytes"
  shows "\<exists>chunks. computeExtensionHash digest True bytes = Inr (Some (digest (concat (map digest chunks))))
           \<and> concat chunks = take (length bytes - SIGNATURE_SIZE) bytes
           \<and> list_all (\<lambda>c. length c \<le> HASH_CHUNK_SIZE) chunks"
proof -
  let ?stop = "length bytes - SIGNATURE_SIZE"
  let ?chunks = "hash_chunks bytes ?stop 0"
  have "set_hashes (map digest ?chunks) 0 ([] @ replicate (length (map digest ?chunks) * 32) 0)
      = Inr ([] @ concat (map digest ?chunks))"
    by (rule set_hashes_concat) (use assms(1) in auto)
  then have "computeExtensionHash digest True bytes = Inr (Some (digest (concat (map digest ?chunks))))"
    using assms(2) by (simp add: computeExtensionHash_def Let_def)
  moreover have "concat ?chunks = take ?stop bytes"
    by (simp add: hash_chunks_concat) (simp add: subarray_def)
  ultimately show ?thesis
    by (intro exI [of _ ?chunks]) (auto simp: list_all_iff dest: hash_chunks_size)
qed

theorem computeExtensionHash_covers_witness:
  "\<exists>chunks. computeExtensionHash (\<lambda>_. replicate 32 7) True (replicate 300 1)
       = Inr (Some (replicate 32 7))
     \<and> concat chunks = take 44 (replicate 300 (1 :: byte))"
proof -
  have "SIGNATURE_SIZE \<le> length (replicate 300 (1 :: byte))" by (simp add: SIGNATURE_SIZE_def)
  then show ?thesis
    using computeExtensionHash_covers [of "\<lambda>_. replicate 32 7" "replicate 300 1"]
    by (auto simp: SIGNATURE_SIZE_def)
qed

text \<open>C9: whatever downloads settle, LOADs take entries and the store is cleared, in any order, the
  byte count is the size of what is held and at most 256 MiB, no URL is both held and downloading, and
  every held entry carries the hash of its own bytes (or none where it could not be computed).\<close>

theorem prefetch_store_consistent:
  assumes "exec (prefetch_step digest subtle sig) prefetch_init es st"
  shows "heldBytes st = jm_sum (length \<circ> px_bytes) (prefetched st)
    \<and> heldBytes st \<le> MAX_HELD_BYTES
    \<and> set (jm_keys (prefetched st)) \<inter> set (jm_keys (running st)) = {}
    \<and> (\<forall>url e. jm_get (prefetched st) url = Some e \<longrightarrow> px_hash e = hash_of digest subtle (px_bytes e))"
proof -
  have inv: "prefetch_inv digest subtle sig st"
    using pf.inv_exec [OF assms] by simp
  then have "set (jm_keys (prefetched st)) \<inter> set (jm_keys (running st)) = {}"
    by (auto simp: prefetch_inv_def map_of_eq_None_iff)
  with inv show ?thesis by (simp add: prefetch_inv_def)
qed

theorem prefetch_store_consistent_witness:
  "heldBytes (prefetchOne_finish (\<lambda>_. []) False ''u'' 0 (Response 200 [1, 2] None)
      (snd (prefetchExtensions True [''u''] prefetch_init))) = 2
   \<and> heldBytes (prefetchOne_finish (\<lambda>_. []) False ''u'' 0 (Response 200 [1, 2] None)
      (snd (prefetchExtensions True [''u''] prefetch_init))) \<le> MAX_HELD_BYTES"
proof -
  let ?s1 = "snd (prefetchExtensions True [''u''] prefetch_init)"
  let ?s2 = "prefetchOne_finish (\<lambda>_. []) False ''u'' 0 (Response 200 [1, 2] None) ?s1"
  have s1: "prefetch_step (\<lambda>_. []) False True prefetch_init (PE_prefetch [''u'']) ?s1"
    by (rule ps_prefetch [where work = "fst (prefetchExtensions True [''u''] prefetch_init)"]) simp
  have "jm_get (running ?s1) ''u'' = Some (Some 0)"
    by (simp add: prefetch_init_def prefetchOne_start_def jm_has_def)
  then have s2: "prefetch_step (\<lambda>_. []) False True ?s1 (PE_settle ''u'' (Response 200 [1, 2] None)) ?s2"
    by (rule ps_settle)
  have "exec (prefetch_step (\<lambda>_. []) False True) prefetch_init
      [PE_prefetch [''u''], PE_settle ''u'' (Response 200 [1, 2] None)] ?s2"
    using s1 s2 by (blast intro: exec.intros)
  then have "heldBytes ?s2 \<le> MAX_HELD_BYTES"
    using prefetch_store_consistent by blast
  then show ?thesis
    by (simp add: prefetch_init_def prefetchOne_start_def prefetchOne_finish_def jm_has_def
        Let_def computeExtensionHash_def MAX_HELD_BYTES_def)
qed

text \<open>each entry serves one LOAD: a second take of the same URL finds nothing, and a download that
  was started before the store was cleared adds nothing after it.\<close>

theorem prefetch_entry_single_use:
  "fst (takePrefetchedExtension url (snd (takePrefetchedExtension url st))) = None
   \<and> (\<forall>g dl. g \<le> generation st \<longrightarrow>
        prefetched (prefetchOne_finish digest subtle url g dl (clearPrefetchedExtensions st)) = [])"
  by (auto simp: prefetch_op_defs Let_def split: option.splits download.splits)

theorem prefetch_entry_single_use_witness:
  "fst (takePrefetchedExtension ''u'' (snd (takePrefetchedExtension ''u'' prefetch_init))) = None
   \<and> prefetched (prefetchOne_finish (\<lambda>_. []) False ''u'' 0 (Response 200 [] None)
        (clearPrefetchedExtensions prefetch_init)) = []"
  using prefetch_entry_single_use [of "''u''" prefetch_init "\<lambda>_. []" False]
  by (simp add: prefetch_init_def)

text \<open>
  Waiting for the prefetches ends when \<open>running\<close> is empty. Where \<open>AbortSignal\<close> exists, every entry of
  \<open>running\<close> is a download in flight, so it empties when they settle; where it does not, an entry
  stays for ever and every later request waits for ever.
\<close>

lemma running_in_flight:
  assumes "exec (prefetch_step digest subtle True) prefetch_init es st"
    and "jm_get (running st) url = Some g"
  shows "\<exists>n. g = Some n"
proof -
  have "prefetch_inv digest subtle True st"
    using pf.inv_exec [OF assms(1)] by simp
  with assms(2) show ?thesis by (cases g) (auto simp: prefetch_inv_def)
qed

lemma settled_entry_stays:
  assumes "prefetch_step digest subtle sig st e st'" and "jm_get (running st) url = Some None"
  shows "jm_get (running st') url = Some None"
proof -
  have pre: "jm_get (running (snd (prefetchExtensions sig urls s))) url = Some None"
    if "jm_get (running s) url = Some None" for urls s
    using that
  proof (induction urls arbitrary: s)
    case (Cons u urls)
    then have "jm_get (running (prefetchOne_start sig u s)) url = Some None" if "\<not> jm_has (running s) u"
      using that by (auto simp: prefetchOne_start_def jm_has_get)
    with Cons show ?case by (auto simp: Let_def split: prod.splits)
      (metis snd_conv)+
  qed simp
  show ?thesis
    using assms(1)
  proof (rule prefetch_stepE)
    fix urls work
    assume "prefetchExtensions sig urls st = (work, st')"
    then show ?thesis using pre [OF assms(2), of urls] by simp
  next
    fix u g dl
    assume "st' = prefetchOne_finish digest subtle u g dl st" "jm_get (running st) u = Some (Some g)"
    then show ?thesis
      using assms(2) by (auto simp: prefetchOne_finish_def Let_def split: download.splits)
  qed (use assms(2) in \<open>auto simp: prefetch_op_defs split: option.splits\<close>)
qed

end
