(* ===== verification/Hb_Protocol.thy ===== *)
theory Hb_Protocol
  imports Hb_Types Hb_FileStats
begin

text \<open>
  The messages between the page and the database worker (\<open>parallel/worker_request.ts\<close>), the log
  entries that travel with them (\<open>log.ts\<close>), and the interface \<open>DuckDBBindings\<close>
  (\<open>bindings/bindings_interface.ts\<close>) the worker's dispatcher is written against.
\<close>

section \<open>Log entries\<close>

datatype LogLevel = LL_NONE | LL_DEBUG | LL_INFO | LL_WARNING | LL_ERROR
datatype LogTopic = LT_NONE | LT_CONNECT | LT_DISCONNECT | LT_OPEN | LT_QUERY | LT_INSTANTIATE
datatype LogEvent = LE_NONE | LE_OK | LE_ERROR | LE_START | LE_RUN | LE_CAPTURE
datatype LogOrigin = LO_NONE | LO_WEB_WORKER | LO_NODE_WORKER | LO_BINDINGS | LO_ASYNC_DUCKDB

record LogEntry =
  log_timestamp :: nat
  log_level :: LogLevel
  log_origin :: LogOrigin
  log_topic :: LogTopic
  log_event :: LogEvent
  log_value :: "string option"

fun level_number :: "LogLevel \<Rightarrow> nat" where
  "level_number LL_NONE = 0"
| "level_number LL_DEBUG = 1"
| "level_number LL_INFO = 2"
| "level_number LL_WARNING = 3"
| "level_number LL_ERROR = 4"

text \<open>\<open>ConsoleLogger.log\<close> prints an entry at or above its level; the printed entries are the state.\<close>

definition ConsoleLogger_log :: "LogLevel \<Rightarrow> LogEntry \<Rightarrow> LogEntry list \<Rightarrow> LogEntry list" where
  "ConsoleLogger_log level entry out =
     (if level_number (log_level entry) \<ge> level_number level then out @ [entry] else out)"

fun getLogLevelLabel :: "LogLevel \<Rightarrow> string" where
  "getLogLevelLabel LL_NONE = ''NONE''"
| "getLogLevelLabel LL_DEBUG = ''DEBUG''"
| "getLogLevelLabel LL_INFO = ''INFO''"
| "getLogLevelLabel LL_WARNING = ''WARNING''"
| "getLogLevelLabel LL_ERROR = ''ERROR''"

fun getLogEventLabel :: "LogEvent \<Rightarrow> string" where
  "getLogEventLabel LE_NONE = ''NONE''"
| "getLogEventLabel LE_OK = ''OK''"
| "getLogEventLabel LE_ERROR = ''ERROR''"
| "getLogEventLabel LE_START = ''START''"
| "getLogEventLabel LE_RUN = ''RUN''"
| "getLogEventLabel LE_CAPTURE = ''CAPTURE''"

fun getLogTopicLabel :: "LogTopic \<Rightarrow> string" where
  "getLogTopicLabel LT_CONNECT = ''CONNECT''"
| "getLogTopicLabel LT_DISCONNECT = ''DISCONNECT''"
| "getLogTopicLabel LT_INSTANTIATE = ''INSTANTIATE''"
| "getLogTopicLabel LT_OPEN = ''OPEN''"
| "getLogTopicLabel LT_QUERY = ''QUERY''"
| "getLogTopicLabel LT_NONE = ''?''"

fun getLogOriginLabel :: "LogOrigin \<Rightarrow> string" where
  "getLogOriginLabel LO_NONE = ''NONE''"
| "getLogOriginLabel LO_WEB_WORKER = ''WEB WORKER''"
| "getLogOriginLabel LO_NODE_WORKER = ''NODE WORKER''"
| "getLogOriginLabel LO_BINDINGS = ''DUCKDB BINDINGS''"
| "getLogOriginLabel LO_ASYNC_DUCKDB = ''DUCKDB''"

section \<open>Requests\<close>

datatype WorkerRequestType =
    CANCEL_PENDING_QUERY | CLOSE_PREPARED | COLLECT_FILE_STATISTICS | REGISTER_OPFS_FILE_NAME | CONNECT
  | COPY_FILE_TO_BUFFER | COPY_FILE_TO_PATH | CREATE_PREPARED | DISCONNECT | DROP_FILE | DROP_FILES
  | EXPORT_FILE_STATISTICS | FETCH_QUERY_RESULTS | FLUSH_FILES | GET_FEATURE_FLAGS
  | GET_INTERRUPT_HANDLE | GET_TABLE_NAMES | GET_VERSION | GLOB_FILE_INFOS
  | INSERT_ARROW_FROM_IPC_STREAM | INSERT_CSV_FROM_PATH | INSERT_JSON_FROM_PATH | INSTANTIATE | OPEN
  | PING | POLL_PENDING_QUERY | PREFETCH_EXTENSIONS | REGISTER_FILE_BUFFER | REGISTER_FILE_HANDLE
  | REGISTER_FILE_URL | RESET | RUN_PREPARED | RUN_QUERY | SEND_PREPARED | START_PENDING_QUERY | TOKENIZE

type_synonym ConnectionID = nat
type_synonym StatementID = nat

text \<open>A value that travels as JSON text: the parameters of a prepared statement.\<close>

datatype json = JNull | JBool bool | JNum int | JStr string | JArr "json list" | JObj "(string \<times> json) list"

text \<open>What a caller may register as a file: the kinds the code tells apart, with their identity.\<close>

datatype file_handle = SyncAccessHandle nat | AsyncFileHandle nat | BlobHandle nat | NoHandle

datatype request_data =
    Q_CLOSE_PREPARED ConnectionID StatementID
  | Q_CANCEL_PENDING_QUERY ConnectionID
  | Q_GET_INTERRUPT_HANDLE ConnectionID
  | Q_COLLECT_FILE_STATISTICS string bool
  | Q_REGISTER_OPFS_FILE_NAME string
  | Q_CONNECT
  | Q_COPY_FILE_TO_BUFFER string
  | Q_COPY_FILE_TO_PATH string string
  | Q_CREATE_PREPARED ConnectionID string
  | Q_DISCONNECT ConnectionID
  | Q_DROP_FILE string
  | Q_DROP_FILES "string list option"
  | Q_EXPORT_FILE_STATISTICS string
  | Q_FETCH_QUERY_RESULTS ConnectionID
  | Q_FLUSH_FILES
  | Q_GET_FEATURE_FLAGS
  | Q_GET_TABLE_NAMES ConnectionID string
  | Q_GET_VERSION
  | Q_GLOB_FILE_INFOS string
  | Q_INSERT_ARROW_FROM_IPC_STREAM ConnectionID "byte list" "ArrowInsertOptions option"
  | Q_INSERT_CSV_FROM_PATH ConnectionID string CSVInsertOptions
  | Q_INSERT_JSON_FROM_PATH ConnectionID string JSONInsertOptions
  | Q_INSTANTIATE string "string option" "bool option"
  | Q_OPEN DuckDBConfig
  | Q_PING
  | Q_PREFETCH_EXTENSIONS "string list"
  | Q_POLL_PENDING_QUERY ConnectionID
  | Q_REGISTER_FILE_BUFFER string "byte list"
  | Q_REGISTER_FILE_HANDLE string file_handle DuckDBDataProtocol bool
  | Q_REGISTER_FILE_URL string string DuckDBDataProtocol bool
  | Q_RESET
  | Q_RUN_PREPARED ConnectionID StatementID "json list"
  | Q_RUN_QUERY ConnectionID string
  | Q_SEND_PREPARED ConnectionID StatementID "json list"
  | Q_START_PENDING_QUERY ConnectionID string bool
  | Q_TOKENIZE string

fun request_type :: "request_data \<Rightarrow> WorkerRequestType" where
  "request_type (Q_CLOSE_PREPARED _ _) = CLOSE_PREPARED"
| "request_type (Q_CANCEL_PENDING_QUERY _) = CANCEL_PENDING_QUERY"
| "request_type (Q_GET_INTERRUPT_HANDLE _) = GET_INTERRUPT_HANDLE"
| "request_type (Q_COLLECT_FILE_STATISTICS _ _) = COLLECT_FILE_STATISTICS"
| "request_type (Q_REGISTER_OPFS_FILE_NAME _) = REGISTER_OPFS_FILE_NAME"
| "request_type Q_CONNECT = CONNECT"
| "request_type (Q_COPY_FILE_TO_BUFFER _) = COPY_FILE_TO_BUFFER"
| "request_type (Q_COPY_FILE_TO_PATH _ _) = COPY_FILE_TO_PATH"
| "request_type (Q_CREATE_PREPARED _ _) = CREATE_PREPARED"
| "request_type (Q_DISCONNECT _) = DISCONNECT"
| "request_type (Q_DROP_FILE _) = DROP_FILE"
| "request_type (Q_DROP_FILES _) = DROP_FILES"
| "request_type (Q_EXPORT_FILE_STATISTICS _) = EXPORT_FILE_STATISTICS"
| "request_type (Q_FETCH_QUERY_RESULTS _) = FETCH_QUERY_RESULTS"
| "request_type Q_FLUSH_FILES = FLUSH_FILES"
| "request_type Q_GET_FEATURE_FLAGS = GET_FEATURE_FLAGS"
| "request_type (Q_GET_TABLE_NAMES _ _) = GET_TABLE_NAMES"
| "request_type Q_GET_VERSION = GET_VERSION"
| "request_type (Q_GLOB_FILE_INFOS _) = GLOB_FILE_INFOS"
| "request_type (Q_INSERT_ARROW_FROM_IPC_STREAM _ _ _) = INSERT_ARROW_FROM_IPC_STREAM"
| "request_type (Q_INSERT_CSV_FROM_PATH _ _ _) = INSERT_CSV_FROM_PATH"
| "request_type (Q_INSERT_JSON_FROM_PATH _ _ _) = INSERT_JSON_FROM_PATH"
| "request_type (Q_INSTANTIATE _ _ _) = INSTANTIATE"
| "request_type (Q_OPEN _) = OPEN"
| "request_type Q_PING = PING"
| "request_type (Q_PREFETCH_EXTENSIONS _) = PREFETCH_EXTENSIONS"
| "request_type (Q_POLL_PENDING_QUERY _) = POLL_PENDING_QUERY"
| "request_type (Q_REGISTER_FILE_BUFFER _ _) = REGISTER_FILE_BUFFER"
| "request_type (Q_REGISTER_FILE_HANDLE _ _ _ _) = REGISTER_FILE_HANDLE"
| "request_type (Q_REGISTER_FILE_URL _ _ _ _) = REGISTER_FILE_URL"
| "request_type Q_RESET = RESET"
| "request_type (Q_RUN_PREPARED _ _ _) = RUN_PREPARED"
| "request_type (Q_RUN_QUERY _ _) = RUN_QUERY"
| "request_type (Q_SEND_PREPARED _ _ _) = SEND_PREPARED"
| "request_type (Q_START_PENDING_QUERY _ _ _) = START_PENDING_QUERY"
| "request_type (Q_TOKENIZE _) = TOKENIZE"

record WorkerRequest =
  req_messageId :: nat
  req_data :: request_data

section \<open>Responses\<close>

datatype WorkerResponseType =
    CONNECTION_INFO | ERROR | FEATURE_FLAGS | FILE_BUFFER | FILE_INFOS | FILE_SIZE | FILE_STATISTICS
  | INSTANTIATE_PROGRESS | INTERRUPT_HANDLE | LOG | PROGRESS_UPDATE | OK | PREPARED_STATEMENT_ID
  | QUERY_PLAN | QUERY_RESULT | QUERY_RESULT_CHUNK | QUERY_RESULT_HEADER | QUERY_RESULT_HEADER_OR_NULL
  | REGISTERED_FILE | SCRIPT_TOKENS | SUCCESS_RESPONSE | TABLE_NAMES | VERSION_STRING

record InstantiationProgress =
  startedAt :: nat
  updatedAt :: nat
  bytesTotal :: nat
  bytesLoaded :: nat

record ProgressEntry =
  pe_status :: string
  pe_percentage :: string
  pe_repetitions :: string

text \<open>The \<open>data\<close> of a response; \<open>D_buffer None\<close> is the \<open>null\<close> of "header or null" and of a retry.\<close>

datatype response_data =
    D_null
  | D_number nat
  | D_bool bool
  | D_string string
  | D_bytes "byte list"
  | D_buffer "byte list option"
  | D_strings "string list"
  | D_files "WebFile list"
  | D_tokens ScriptTokens
  | D_stats FileStatistics
  | D_interrupt "InterruptHandle option"
  | D_error js_error
  | D_log LogEntry
  | D_inst_progress InstantiationProgress
  | D_progress ProgressEntry

record WorkerResponse =
  res_messageId :: nat
  res_requestId :: nat
  res_type :: WorkerResponseType
  res_data :: response_data

section \<open>The bindings interface\<close>

text \<open>
  One field per method that the dispatcher or a connection calls; a method changes the bindings' state and may throw. Methods that return a
  promise are represented by their settled outcome. \<open>connect\<close> returns the connection id.
\<close>

record 'b DuckDBBindings =
  b_open :: "DuckDBConfig \<Rightarrow> ('b, unit) jsm"
  b_reset :: "('b, unit) jsm"
  b_getVersion :: "('b, string) jsm"
  b_getExtensionUrl :: "string \<Rightarrow> ('b, string) jsm"
  b_getFeatureFlags :: "('b, nat) jsm"
  b_tokenize :: "string \<Rightarrow> ('b, ScriptTokens) jsm"
  b_connect :: "('b, nat) jsm"
  b_disconnect :: "nat \<Rightarrow> ('b, unit) jsm"
  b_runQuery :: "nat \<Rightarrow> string \<Rightarrow> ('b, byte list) jsm"
  b_startPendingQuery :: "nat \<Rightarrow> string \<Rightarrow> bool \<Rightarrow> ('b, byte list option) jsm"
  b_pollPendingQuery :: "nat \<Rightarrow> ('b, byte list option) jsm"
  b_cancelPendingQuery :: "nat \<Rightarrow> ('b, bool) jsm"
  b_getInterruptHandle :: "nat \<Rightarrow> ('b, InterruptHandle option) jsm"
  b_fetchQueryResults :: "nat \<Rightarrow> ('b, byte list option) jsm"
  b_getTableNames :: "nat \<Rightarrow> string \<Rightarrow> ('b, string list) jsm"
  b_createPrepared :: "nat \<Rightarrow> string \<Rightarrow> ('b, nat) jsm"
  b_closePrepared :: "nat \<Rightarrow> nat \<Rightarrow> ('b, unit) jsm"
  b_runPrepared :: "nat \<Rightarrow> nat \<Rightarrow> json list \<Rightarrow> ('b, byte list) jsm"
  b_sendPrepared :: "nat \<Rightarrow> nat \<Rightarrow> json list \<Rightarrow> ('b, byte list) jsm"
  b_insertArrowFromIPCStream :: "nat \<Rightarrow> byte list \<Rightarrow> ArrowInsertOptions option \<Rightarrow> ('b, unit) jsm"
  b_insertCSVFromPath :: "nat \<Rightarrow> string \<Rightarrow> CSVInsertOptions \<Rightarrow> ('b, unit) jsm"
  b_insertJSONFromPath :: "nat \<Rightarrow> string \<Rightarrow> JSONInsertOptions \<Rightarrow> ('b, unit) jsm"
  b_registerFileURL :: "string \<Rightarrow> string \<Rightarrow> DuckDBDataProtocol \<Rightarrow> bool \<Rightarrow> ('b, unit) jsm"
  b_registerFileBuffer :: "string \<Rightarrow> byte list \<Rightarrow> ('b, unit) jsm"
  b_registerFileHandleAsync :: "string \<Rightarrow> file_handle \<Rightarrow> DuckDBDataProtocol \<Rightarrow> bool \<Rightarrow> ('b, unit) jsm"
  b_prepareDBFileHandle :: "string \<Rightarrow> DuckDBDataProtocol \<Rightarrow> ('b, unit) jsm"
  b_globFiles :: "string \<Rightarrow> ('b, WebFile list) jsm"
  b_dropFile :: "string \<Rightarrow> ('b, unit) jsm"
  b_dropFiles :: "string list option \<Rightarrow> ('b, unit) jsm"
  b_flushFiles :: "('b, unit) jsm"
  b_copyFileToPath :: "string \<Rightarrow> string \<Rightarrow> ('b, unit) jsm"
  b_copyFileToBuffer :: "string \<Rightarrow> ('b, byte list) jsm"
  b_registerOPFSFileName :: "string \<Rightarrow> ('b, unit) jsm"
  b_collectFileStatistics :: "string \<Rightarrow> bool \<Rightarrow> ('b, unit) jsm"
  b_exportFileStatistics :: "string \<Rightarrow> ('b, FileStatistics) jsm"

end
