(* ===== verification/Hb_Dispatcher.thy ===== *)
theory Hb_Dispatcher
  imports Hb_Protocol Hb_Prefetch "HOL-Library.Multiset"
begin

text \<open>
  \<open>parallel/worker_dispatcher.ts\<close> and \<open>parallel/worker_globals.ts\<close>: the worker's side of the request
  protocol, and the cancellation of a pending query through a flag in shared memory.

  The dispatcher is one class: its fields, the worker's globals it reads (the registered cancel buffer,
  the armed intervals, the prefetch store) and the messages it has posted are one record. Everything
  between two \<open>await\<close>s is one step. A request suspended at an \<open>await\<close> of \<open>onMessage\<close> is kept in the
  state: in \<open>d_waiting\<close> while prefetches run, in \<open>d_instantiating\<close> while the module is instantiated, in
  \<open>d_prefetching\<close> while its own downloads run. Inside a request body the promise-returning methods of the
  bindings are taken as one call. The bindings' methods and the outcome of instantiating the module are
  parameters, as they are abstract members of the class. Transfer lists are left out: they move a buffer
  that the worker does not use again.
\<close>

section \<open>State\<close>

record 'b dispatcher =
  d_bindings :: "'b option"
  d_nextMessageId :: nat
  d_cancelWatcher :: "nat option"
  d_cancelConn :: "nat option"
  d_cancelInt32 :: "nat option"
  d_timers :: "(nat, nat) jsmap"
  d_nextTimer :: nat
  d_globalCancel :: "nat option"
  d_oauth :: "nat option"
  d_sabs :: "nat \<Rightarrow> int"
  d_prefetch :: prefetch
  d_out :: "WorkerResponse list"
  d_waiting :: "WorkerRequest list"
  d_instantiating :: "WorkerRequest list"
  d_prefetching :: "(WorkerRequest \<times> string list) list"

definition dispatcher_init :: "'b dispatcher" where
  "dispatcher_init = \<lparr>d_bindings = None, d_nextMessageId = 0, d_cancelWatcher = None, d_cancelConn = None,
     d_cancelInt32 = None, d_timers = [], d_nextTimer = 0, d_globalCancel = None, d_oauth = None,
     d_sabs = (\<lambda>_. 0), d_prefetch = prefetch_init, d_out = [], d_waiting = [], d_instantiating = [],
     d_prefetching = []\<rparr>"

section \<open>Posting messages\<close>

definition next_message_id :: "('b dispatcher, nat) jsm" where
  "next_message_id d = (Inr (d_nextMessageId d), d\<lparr>d_nextMessageId := Suc (d_nextMessageId d)\<rparr>)"

definition postMessage :: "nat \<Rightarrow> nat \<Rightarrow> WorkerResponseType \<Rightarrow> response_data \<Rightarrow> ('b dispatcher, unit) jsm" where
  "postMessage mid rid ty dat d =
     (Inr (), d\<lparr>d_out := d_out d @ [\<lparr>res_messageId = mid, res_requestId = rid, res_type = ty, res_data = dat\<rparr>]\<rparr>)"

definition respond :: "nat \<Rightarrow> WorkerResponseType \<Rightarrow> response_data \<Rightarrow> ('b dispatcher, unit) jsm" where
  "respond rid ty dat = js_bind next_message_id (\<lambda>mid. postMessage mid rid ty dat)"

definition log :: "LogEntry \<Rightarrow> ('b dispatcher, unit) jsm" where
  "log entry = respond 0 LOG (D_log entry)"

definition sendOK :: "nat \<Rightarrow> ('b dispatcher, unit) jsm" where
  "sendOK rid = respond rid OK D_null"

definition failWith :: "nat \<Rightarrow> js_error \<Rightarrow> ('b dispatcher, unit) jsm" where
  "failWith rid e = respond rid ERROR (D_error e)"

text \<open>\<open>this._bindings.m(...)\<close>: reading a method of \<open>null\<close> throws.\<close>

definition call :: "('b, 'a) jsm \<Rightarrow> ('b dispatcher, 'a) jsm" where
  "call m d = (case d_bindings d of
     None \<Rightarrow> (Inl (TypeError ''Cannot read properties of null''), d)
   | Some b \<Rightarrow> (case m b of (r, b') \<Rightarrow> (r, d\<lparr>d_bindings := Some b'\<rparr>)))"

section \<open>Cancellation through shared memory\<close>

definition startCancelWatch :: "nat \<Rightarrow> 'b dispatcher \<Rightarrow> 'b dispatcher" where
  "startCancelWatch connId d = (case d_globalCancel d of
     None \<Rightarrow> d
   | Some int32 \<Rightarrow>
       let d = (case d_cancelWatcher d of None \<Rightarrow> d | Some t \<Rightarrow> d\<lparr>d_timers := jm_delete t (d_timers d)\<rparr>);
           d = d\<lparr>d_cancelConn := Some connId, d_cancelInt32 := Some int32\<rparr>
       in d\<lparr>d_cancelWatcher := Some (d_nextTimer d),
            d_timers := jm_set (d_nextTimer d) int32 (d_timers d),
            d_nextTimer := Suc (d_nextTimer d)\<rparr>)"

definition attemptCancel :: "'b DuckDBBindings \<Rightarrow> nat \<Rightarrow> nat option \<Rightarrow> 'b dispatcher \<Rightarrow> 'b dispatcher" where
  "attemptCancel B int32 conn d = (case conn of
     None \<Rightarrow> d
   | Some c \<Rightarrow>
       if d_bindings d = None then d
       else (case call (b_cancelPendingQuery B c) d of
               (Inr _, d') \<Rightarrow> d'\<lparr>d_sabs := (d_sabs d')(int32 := 0)\<rparr>
             | (Inl e, d') \<Rightarrow> d'))"

definition stopCancelWatch :: "'b dispatcher \<Rightarrow> 'b dispatcher" where
  "stopCancelWatch d =
     (let d = (case d_cancelWatcher d of
                 None \<Rightarrow> d
               | Some t \<Rightarrow> d\<lparr>d_timers := jm_delete t (d_timers d), d_cancelWatcher := None\<rparr>)
      in d\<lparr>d_cancelConn := None, d_cancelInt32 := None\<rparr>)"

text \<open>The callback of the interval, which closed over the buffer it was armed with.\<close>

definition cancelTick :: "'b DuckDBBindings \<Rightarrow> nat \<Rightarrow> 'b dispatcher \<Rightarrow> 'b dispatcher" where
  "cancelTick B int32 d =
     (if d_sabs d int32 \<noteq> 1 then d else attemptCancel B int32 (d_cancelConn d) d)"

text \<open>
  \<open>handlePreInitMessage\<close>: messages that set globals and never reach the dispatcher; the others are
  answered \<open>false\<close>.
\<close>

datatype worker_message = InitOAuthSab nat | InitCancelSab nat | RequestMessage WorkerRequest | OtherMessage

definition handlePreInitMessage :: "worker_message \<Rightarrow> 'b dispatcher \<Rightarrow> bool \<times> 'b dispatcher" where
  "handlePreInitMessage m d = (case m of
     InitOAuthSab sab \<Rightarrow> (True, d\<lparr>d_oauth := Some sab\<rparr>)
   | InitCancelSab sab \<Rightarrow> (True, d\<lparr>d_globalCancel := Some sab\<rparr>)
   | RequestMessage _ \<Rightarrow> (False, d)
   | OtherMessage \<Rightarrow> (False, d))"

section \<open>The request handlers\<close>

text \<open>The three shapes of a handler: call and \<open>sendOK\<close>; call and post the result; post a message whose
  id is taken before the call that computes its data.\<close>

definition reply_ok :: "nat \<Rightarrow> ('b, unit) jsm \<Rightarrow> ('b dispatcher, unit) jsm" where
  "reply_ok rid m = js_bind (call m) (\<lambda>_. sendOK rid)"

definition reply_with ::
  "nat \<Rightarrow> WorkerResponseType \<Rightarrow> ('a \<Rightarrow> response_data) \<Rightarrow> ('b, 'a) jsm \<Rightarrow> ('b dispatcher, unit) jsm" where
  "reply_with rid ty f m = js_bind (call m) (\<lambda>x. respond rid ty (f x))"

definition reply_lazy ::
  "nat \<Rightarrow> WorkerResponseType \<Rightarrow> ('a \<Rightarrow> response_data) \<Rightarrow> ('b, 'a) jsm \<Rightarrow> ('b dispatcher, unit) jsm" where
  "reply_lazy rid ty f m = js_bind next_message_id (\<lambda>mid. js_bind (call m) (\<lambda>x. postMessage mid rid ty (f x)))"

text \<open>The URLs of the extensions to prefetch: unresolvable names and loaded extensions are skipped.\<close>

fun extension_urls :: "'b DuckDBBindings \<Rightarrow> string list \<Rightarrow> ('b dispatcher, string list) jsm" where
  "extension_urls B [] = js_ret []"
| "extension_urls B (name # names) =
     js_bind (js_try (js_bind (call (b_getExtensionUrl B name)) (\<lambda>url. js_ret (if url = [] then [] else [url])))
                     (\<lambda>_. js_ret []))
       (\<lambda>here. js_bind (extension_urls B names) (\<lambda>rest. js_ret (here @ rest)))"

definition handle_PREFETCH_EXTENSIONS ::
  "'b DuckDBBindings \<Rightarrow> bool \<Rightarrow> bool \<Rightarrow> WorkerRequest \<Rightarrow> string list \<Rightarrow> ('b dispatcher, unit) jsm" where
  "handle_PREFETCH_EXTENSIONS B xhr sig req names =
     (if \<not> xhr then sendOK (req_messageId req)
      else js_bind (extension_urls B names) (\<lambda>urls d.
             let (work, p) = prefetchExtensions sig urls (d_prefetch d)
             in (Inr (), d\<lparr>d_prefetch := p, d_prefetching := d_prefetching d @ [(req, work)]\<rparr>)))"

definition handle_RESET :: "'b DuckDBBindings \<Rightarrow> nat \<Rightarrow> ('b dispatcher, unit) jsm" where
  "handle_RESET B rid =
     js_bind (js_modify stopCancelWatch) (\<lambda>_.
     js_bind (js_modify (\<lambda>d. d\<lparr>d_prefetch := clearPrefetchedExtensions (d_prefetch d)\<rparr>)) (\<lambda>_.
     reply_ok rid (b_reset B)))"

definition handle_OPEN :: "'b DuckDBBindings \<Rightarrow> nat \<Rightarrow> DuckDBConfig \<Rightarrow> ('b dispatcher, unit) jsm" where
  "handle_OPEN B rid config =
     js_bind (js_modify stopCancelWatch) (\<lambda>_.
     (case path config of
        Some p \<Rightarrow>
          if starts_with ''opfs://'' p
          then js_bind (call (b_prepareDBFileHandle B p BROWSER_FSACCESS)) (\<lambda>_.
                 reply_ok rid (b_open B (config\<lparr>useDirectIO := Some True\<rparr>)))
          else reply_ok rid (b_open B config)
      | None \<Rightarrow> reply_ok rid (b_open B config)))"

definition handle_CONNECT :: "'b DuckDBBindings \<Rightarrow> nat \<Rightarrow> ('b dispatcher, unit) jsm" where
  "handle_CONNECT B rid = reply_with rid CONNECTION_INFO D_number (b_connect B)"

definition handle_DISCONNECT :: "'b DuckDBBindings \<Rightarrow> nat \<Rightarrow> nat \<Rightarrow> ('b dispatcher, unit) jsm" where
  "handle_DISCONNECT B rid conn =
     js_bind (js_modify (\<lambda>d. if d_cancelConn d = Some conn then stopCancelWatch d else d)) (\<lambda>_.
     reply_ok rid (b_disconnect B conn))"

definition handle_CREATE_PREPARED :: "'b DuckDBBindings \<Rightarrow> nat \<Rightarrow> nat \<Rightarrow> string \<Rightarrow> ('b dispatcher, unit) jsm" where
  "handle_CREATE_PREPARED B rid conn txt =
     reply_with rid PREPARED_STATEMENT_ID D_number (b_createPrepared B conn txt)"

definition handle_RUN_PREPARED ::
  "'b DuckDBBindings \<Rightarrow> nat \<Rightarrow> nat \<Rightarrow> nat \<Rightarrow> json list \<Rightarrow> ('b dispatcher, unit) jsm" where
  "handle_RUN_PREPARED B rid conn stmt params =
     reply_with rid QUERY_RESULT D_bytes (b_runPrepared B conn stmt params)"

definition handle_RUN_QUERY :: "'b DuckDBBindings \<Rightarrow> nat \<Rightarrow> nat \<Rightarrow> string \<Rightarrow> ('b dispatcher, unit) jsm" where
  "handle_RUN_QUERY B rid conn txt = reply_with rid QUERY_RESULT D_bytes (b_runQuery B conn txt)"

definition handle_SEND_PREPARED ::
  "'b DuckDBBindings \<Rightarrow> nat \<Rightarrow> nat \<Rightarrow> nat \<Rightarrow> json list \<Rightarrow> ('b dispatcher, unit) jsm" where
  "handle_SEND_PREPARED B rid conn stmt params =
     reply_with rid QUERY_RESULT_HEADER D_bytes (b_sendPrepared B conn stmt params)"

definition handle_START_PENDING_QUERY ::
  "'b DuckDBBindings \<Rightarrow> nat \<Rightarrow> nat \<Rightarrow> string \<Rightarrow> bool \<Rightarrow> ('b dispatcher, unit) jsm" where
  "handle_START_PENDING_QUERY B rid connId txt stream =
     js_bind (js_modify (startCancelWatch connId)) (\<lambda>_.
     js_bind (call (b_startPendingQuery B connId txt stream)) (\<lambda>result.
     js_bind (js_modify (\<lambda>d. if result \<noteq> None then stopCancelWatch d else d)) (\<lambda>_.
     respond rid QUERY_RESULT_HEADER_OR_NULL (D_buffer result))))"

definition handle_POLL_PENDING_QUERY :: "'b DuckDBBindings \<Rightarrow> nat \<Rightarrow> nat \<Rightarrow> ('b dispatcher, unit) jsm" where
  "handle_POLL_PENDING_QUERY B rid conn =
     js_bind (js_modify (\<lambda>d. case d_cancelInt32 d of
        Some int32 \<Rightarrow>
          if d_cancelConn d = Some conn \<and> d_sabs d int32 = 1
          then attemptCancel B int32 (d_cancelConn d) d else d
      | None \<Rightarrow> d)) (\<lambda>_.
     js_bind (call (b_pollPendingQuery B conn)) (\<lambda>result.
     js_bind (js_modify (\<lambda>d. if result \<noteq> None then stopCancelWatch d else d)) (\<lambda>_.
     respond rid QUERY_RESULT_HEADER_OR_NULL (D_buffer result))))"

definition handle_CANCEL_PENDING_QUERY :: "'b DuckDBBindings \<Rightarrow> nat \<Rightarrow> nat \<Rightarrow> ('b dispatcher, unit) jsm" where
  "handle_CANCEL_PENDING_QUERY B rid conn =
     js_bind (js_modify stopCancelWatch) (\<lambda>_.
     reply_with rid SUCCESS_RESPONSE D_bool (b_cancelPendingQuery B conn))"

definition handle_FETCH_QUERY_RESULTS :: "'b DuckDBBindings \<Rightarrow> nat \<Rightarrow> nat \<Rightarrow> ('b dispatcher, unit) jsm" where
  "handle_FETCH_QUERY_RESULTS B rid conn =
     reply_with rid QUERY_RESULT_CHUNK D_buffer (b_fetchQueryResults B conn)"

definition handle_GET_TABLE_NAMES :: "'b DuckDBBindings \<Rightarrow> nat \<Rightarrow> nat \<Rightarrow> string \<Rightarrow> ('b dispatcher, unit) jsm" where
  "handle_GET_TABLE_NAMES B rid conn txt = reply_with rid TABLE_NAMES D_strings (b_getTableNames B conn txt)"

definition handle_GLOB_FILE_INFOS :: "'b DuckDBBindings \<Rightarrow> nat \<Rightarrow> string \<Rightarrow> ('b dispatcher, unit) jsm" where
  "handle_GLOB_FILE_INFOS B rid p = reply_with rid FILE_INFOS D_files (b_globFiles B p)"

text \<open>The handlers that register, copy and export files.\<close>

definition handle_files :: "'b DuckDBBindings \<Rightarrow> nat \<Rightarrow> request_data \<Rightarrow> ('b dispatcher, unit) jsm option" where
  "handle_files B rid data = (case data of
     Q_REGISTER_FILE_URL n u p dio \<Rightarrow> Some (reply_ok rid (b_registerFileURL B n u p dio))
   | Q_REGISTER_FILE_BUFFER n buf \<Rightarrow> Some (reply_ok rid (b_registerFileBuffer B n buf))
   | Q_REGISTER_FILE_HANDLE n h p dio \<Rightarrow> Some (reply_ok rid (b_registerFileHandleAsync B n h p dio))
   | Q_COPY_FILE_TO_PATH n p \<Rightarrow> Some (reply_ok rid (b_copyFileToPath B n p))
   | Q_COPY_FILE_TO_BUFFER n \<Rightarrow> Some (reply_with rid FILE_BUFFER D_bytes (b_copyFileToBuffer B n))
   | Q_COLLECT_FILE_STATISTICS n en \<Rightarrow> Some (reply_ok rid (b_collectFileStatistics B n en))
   | Q_REGISTER_OPFS_FILE_NAME n \<Rightarrow> Some (reply_ok rid (b_registerOPFSFileName B n))
   | Q_EXPORT_FILE_STATISTICS n \<Rightarrow> Some (reply_lazy rid FILE_STATISTICS D_stats (b_exportFileStatistics B n))
   | _ \<Rightarrow> None)"

text \<open>The handlers that insert data and tokenize.\<close>

definition handle_inserts :: "'b DuckDBBindings \<Rightarrow> nat \<Rightarrow> request_data \<Rightarrow> ('b dispatcher, unit) jsm option" where
  "handle_inserts B rid data = (case data of
     Q_INSERT_ARROW_FROM_IPC_STREAM c buf o1 \<Rightarrow> Some (reply_ok rid (b_insertArrowFromIPCStream B c buf o1))
   | Q_INSERT_CSV_FROM_PATH c p o1 \<Rightarrow> Some (reply_ok rid (b_insertCSVFromPath B c p o1))
   | Q_INSERT_JSON_FROM_PATH c p o1 \<Rightarrow> Some (reply_ok rid (b_insertJSONFromPath B c p o1))
   | Q_TOKENIZE txt \<Rightarrow> Some (reply_with rid SCRIPT_TOKENS D_tokens (b_tokenize B txt))
   | _ \<Rightarrow> None)"

text \<open>The \<open>switch\<close> inside the \<open>try\<close>. PING and INSTANTIATE are handled before it and fall through it.\<close>

definition dispatch_body ::
  "'b DuckDBBindings \<Rightarrow> bool \<Rightarrow> bool \<Rightarrow> WorkerRequest \<Rightarrow> ('b dispatcher, unit) jsm" where
  "dispatch_body B xhr sig req =
    (let rid = req_messageId req in
     case req_data req of
       Q_PREFETCH_EXTENSIONS names \<Rightarrow> handle_PREFETCH_EXTENSIONS B xhr sig req names
     | Q_GET_VERSION \<Rightarrow> reply_lazy rid VERSION_STRING D_string (b_getVersion B)
     | Q_GET_FEATURE_FLAGS \<Rightarrow> reply_lazy rid FEATURE_FLAGS D_number (b_getFeatureFlags B)
     | Q_RESET \<Rightarrow> handle_RESET B rid
     | Q_OPEN config \<Rightarrow> handle_OPEN B rid config
     | Q_DROP_FILE n \<Rightarrow> reply_ok rid (b_dropFile B n)
     | Q_DROP_FILES ns \<Rightarrow> reply_ok rid (b_dropFiles B ns)
     | Q_FLUSH_FILES \<Rightarrow> reply_ok rid (b_flushFiles B)
     | Q_CONNECT \<Rightarrow> handle_CONNECT B rid
     | Q_DISCONNECT c \<Rightarrow> handle_DISCONNECT B rid c
     | Q_CREATE_PREPARED c t \<Rightarrow> handle_CREATE_PREPARED B rid c t
     | Q_CLOSE_PREPARED c st \<Rightarrow> reply_ok rid (b_closePrepared B c st)
     | Q_RUN_PREPARED c st ps \<Rightarrow> handle_RUN_PREPARED B rid c st ps
     | Q_RUN_QUERY c t \<Rightarrow> handle_RUN_QUERY B rid c t
     | Q_SEND_PREPARED c st ps \<Rightarrow> handle_SEND_PREPARED B rid c st ps
     | Q_START_PENDING_QUERY c t s \<Rightarrow> handle_START_PENDING_QUERY B rid c t s
     | Q_POLL_PENDING_QUERY c \<Rightarrow> handle_POLL_PENDING_QUERY B rid c
     | Q_GET_INTERRUPT_HANDLE c \<Rightarrow> reply_lazy rid INTERRUPT_HANDLE D_interrupt (b_getInterruptHandle B c)
     | Q_CANCEL_PENDING_QUERY c \<Rightarrow> handle_CANCEL_PENDING_QUERY B rid c
     | Q_FETCH_QUERY_RESULTS c \<Rightarrow> handle_FETCH_QUERY_RESULTS B rid c
     | Q_GET_TABLE_NAMES c t \<Rightarrow> handle_GET_TABLE_NAMES B rid c t
     | Q_GLOB_FILE_INFOS p \<Rightarrow> handle_GLOB_FILE_INFOS B rid p
     | Q_PING \<Rightarrow> js_ret ()
     | Q_INSTANTIATE _ _ _ \<Rightarrow> js_ret ()
     | data \<Rightarrow> (case handle_files B rid data of
          Some h \<Rightarrow> h
        | None \<Rightarrow> (case handle_inserts B rid data of Some h \<Rightarrow> h | None \<Rightarrow> js_ret ())))"

text \<open>The \<open>catch\<close>: disarm the watcher if the failing request is the one it watches for, then report.\<close>

definition dispatch_catch :: "WorkerRequest \<Rightarrow> js_error \<Rightarrow> ('b dispatcher, unit) jsm" where
  "dispatch_catch req e =
     js_bind (js_modify (\<lambda>d. case d_cancelConn d of
        None \<Rightarrow> d
      | Some cc \<Rightarrow> (case req_data req of
           Q_START_PENDING_QUERY c _ _ \<Rightarrow> if c = cc then stopCancelWatch d else d
         | Q_POLL_PENDING_QUERY c \<Rightarrow> if c = cc then stopCancelWatch d else d
         | _ \<Rightarrow> d))) (\<lambda>_. failWith (req_messageId req) e)"

definition dispatch :: "'b DuckDBBindings \<Rightarrow> bool \<Rightarrow> bool \<Rightarrow> WorkerRequest \<Rightarrow> 'b dispatcher \<Rightarrow> 'b dispatcher" where
  "dispatch B xhr sig req d = snd (js_try (dispatch_body B xhr sig req) (dispatch_catch req) d)"

section \<open>onMessage\<close>

text \<open>\<open>onMessage\<close> from the arrival of a request to its first \<open>await\<close>, or to its end.\<close>

definition onMessage ::
  "'b DuckDBBindings \<Rightarrow> bool \<Rightarrow> bool \<Rightarrow> WorkerRequest \<Rightarrow> 'b dispatcher \<Rightarrow> 'b dispatcher" where
  "onMessage B xhr sig req d =
     (case req_data req of
        Q_PING \<Rightarrow> snd (sendOK (req_messageId req) d)
      | Q_INSTANTIATE mainModule pthreadWorker fwd \<Rightarrow>
          let d = (if d_bindings d \<noteq> None
                   then snd (failWith (req_messageId req) (Error ''duckdb already initialized'') d) else d)
          in d\<lparr>d_instantiating := d_instantiating d @ [req]\<rparr>
      | _ \<Rightarrow>
          if d_bindings d = None
          then snd (failWith (req_messageId req) (Error ''duckdb is not initialized'') d)
          else if prefetchesRunning (d_prefetch d) \<and> request_type (req_data req) \<noteq> PREFETCH_EXTENSIONS
          then d\<lparr>d_waiting := d_waiting d @ [req]\<rparr>
          else dispatch B xhr sig req d)"

text \<open>The rest of INSTANTIATE when \<open>this.instantiate\<close> settles.\<close>

definition instantiated :: "WorkerRequest \<Rightarrow> 'b res \<Rightarrow> 'b dispatcher \<Rightarrow> 'b dispatcher" where
  "instantiated req outcome d =
     (let d = d\<lparr>d_instantiating := remove1 req (d_instantiating d)\<rparr> in
      case outcome of
        Inr b \<Rightarrow> snd (sendOK (req_messageId req) (d\<lparr>d_bindings := Some b\<rparr>))
      | Inl e \<Rightarrow> snd (failWith (req_messageId req) e (d\<lparr>d_bindings := None\<rparr>)))"

text \<open>The progress callback of INSTANTIATE, made unless the request says \<open>false\<close>.\<close>

definition forwardProgress :: "WorkerRequest \<Rightarrow> InstantiationProgress \<Rightarrow> 'b dispatcher \<Rightarrow> 'b dispatcher" where
  "forwardProgress req p d = (case req_data req of
     Q_INSTANTIATE _ _ (Some False) \<Rightarrow> d
   | _ \<Rightarrow> snd (respond (req_messageId req) INSTANTIATE_PROGRESS (D_inst_progress p) d))"

text \<open>A waiting request goes on when no prefetch runs any more.\<close>

definition resume :: "'b DuckDBBindings \<Rightarrow> bool \<Rightarrow> bool \<Rightarrow> WorkerRequest \<Rightarrow> 'b dispatcher \<Rightarrow> 'b dispatcher" where
  "resume B xhr sig req d = dispatch B xhr sig req (d\<lparr>d_waiting := remove1 req (d_waiting d)\<rparr>)"

text \<open>PREFETCH_EXTENSIONS goes on when its downloads have settled.\<close>

definition prefetch_done :: "WorkerRequest \<Rightarrow> string list \<Rightarrow> 'b dispatcher \<Rightarrow> 'b dispatcher" where
  "prefetch_done req work d =
     snd (sendOK (req_messageId req) (d\<lparr>d_prefetching := remove1 (req, work) (d_prefetching d)\<rparr>))"

section \<open>The worker as a state machine\<close>

text \<open>
  The events of the worker's loop. \<open>DE_flag\<close> is the page writing the cancel flag, \<open>DE_take\<close> the engine's
  LOAD taking a prefetched extension through the hook that \<open>installPrefetchHook\<close> leaves in the globals. The parameter
  \<open>digest\<close> and the flag \<open>subtle\<close> belong to the prefetch store.
\<close>

datatype 'b dispatcher_event =
    DE_message worker_message
  | DE_instantiated WorkerRequest "'b res"
  | DE_progress WorkerRequest InstantiationProgress
  | DE_resume WorkerRequest
  | DE_prefetch_settled string download
  | DE_prefetch_done WorkerRequest "string list"
  | DE_take string
  | DE_tick nat
  | DE_flag nat int
  | DE_log LogEntry

record 'b worker_env =
  we_bindings :: "'b DuckDBBindings"
  we_xhr :: bool
  we_sig :: bool
  we_digest :: "byte list \<Rightarrow> byte list"
  we_subtle :: bool

inductive dispatcher_step :: "'b worker_env \<Rightarrow> 'b dispatcher \<Rightarrow> 'b dispatcher_event \<Rightarrow> 'b dispatcher \<Rightarrow> bool"
  for E where
  ds_preinit: "handlePreInitMessage m d = (True, d') \<Longrightarrow> dispatcher_step E d (DE_message m) d'"
| ds_request: "handlePreInitMessage (RequestMessage req) d = (False, d') \<Longrightarrow>
     dispatcher_step E d (DE_message (RequestMessage req)) (onMessage (we_bindings E) (we_xhr E) (we_sig E) req d')"
| ds_instantiated: "req \<in> set (d_instantiating d) \<Longrightarrow>
     dispatcher_step E d (DE_instantiated req outcome) (instantiated req outcome d)"
| ds_progress: "req \<in> set (d_instantiating d) \<Longrightarrow>
     dispatcher_step E d (DE_progress req p) (forwardProgress req p d)"
| ds_resume: "req \<in> set (d_waiting d) \<Longrightarrow> \<not> prefetchesRunning (d_prefetch d) \<Longrightarrow>
     dispatcher_step E d (DE_resume req) (resume (we_bindings E) (we_xhr E) (we_sig E) req d)"
| ds_settled: "jm_get (running (d_prefetch d)) url = Some (Some g) \<Longrightarrow>
     dispatcher_step E d (DE_prefetch_settled url dl)
       (d\<lparr>d_prefetch := prefetchOne_finish (we_digest E) (we_subtle E) url g dl (d_prefetch d)\<rparr>)"
| ds_prefetch_done: "(req, work) \<in> set (d_prefetching d) \<Longrightarrow>
     list_all (\<lambda>u. jm_get (running (d_prefetch d)) u \<in> {None, Some None}) work \<Longrightarrow>
     dispatcher_step E d (DE_prefetch_done req work) (prefetch_done req work d)"
| ds_take: "dispatcher_step E d (DE_take url) (d\<lparr>d_prefetch := snd (takePrefetchedExtension url (d_prefetch d))\<rparr>)"
| ds_tick: "jm_get (d_timers d) t = Some int32 \<Longrightarrow>
     dispatcher_step E d (DE_tick t) (cancelTick (we_bindings E) int32 d)"
| ds_flag: "dispatcher_step E d (DE_flag sab v) (d\<lparr>d_sabs := (d_sabs d)(sab := v)\<rparr>)"
| ds_log: "dispatcher_step E d (DE_log entry) (snd (log entry d))"

inductive_cases dispatcher_stepE: "dispatcher_step E d e d'"

end
