(* ===== verification/Hb_Dispatcher_Props.thy ===== *)
theory Hb_Dispatcher_Props
  imports Hb_Dispatcher
begin

text \<open>
  What the dispatcher promises its client: every request is answered exactly once, with the response
  type of its request or an error, under fresh message ids; and the cancel watcher is armed for at most
  one connection, cancels only that one, and is gone after a reset, a reopen or its connection's end.
\<close>

lemmas post_defs [hb_defs] = next_message_id_def postMessage_def respond_def sendOK_def failWith_def log_def

section \<open>The contract of a request handler\<close>

definition same_pending :: "'b dispatcher \<Rightarrow> 'b dispatcher \<Rightarrow> bool" where
  "same_pending d d' \<longleftrightarrow> d_waiting d' = d_waiting d \<and> d_instantiating d' = d_instantiating d
     \<and> d_prefetching d' = d_prefetching d"

lemma same_pending_refl [simp]: "same_pending d d"
  by (simp add: same_pending_def)

locale request_handler =
  fixes h :: "('b dispatcher, unit) jsm"
    and rid :: nat
    and ty :: WorkerResponseType
  assumes success: "h d = (Inr x, d') \<Longrightarrow> \<exists>mid dat.
       d_out d' = d_out d @ [\<lparr>res_messageId = mid, res_requestId = rid, res_type = ty, res_data = dat\<rparr>]
     \<and> d_nextMessageId d \<le> mid \<and> mid < d_nextMessageId d' \<and> same_pending d d'"
    and failure: "h d = (Inl e, d') \<Longrightarrow>
       d_out d' = d_out d \<and> d_nextMessageId d \<le> d_nextMessageId d' \<and> same_pending d d'"

text \<open>What one answered request adds: one response, to that request, of the expected type or an error.\<close>

definition answers_with :: "nat \<Rightarrow> WorkerResponseType \<Rightarrow> 'b dispatcher \<Rightarrow> 'b dispatcher \<Rightarrow> bool" where
  "answers_with rid ty d d' \<longleftrightarrow> (\<exists>r. d_out d' = d_out d @ [r] \<and> res_requestId r = rid
     \<and> res_type r \<in> {ty, ERROR} \<and> d_nextMessageId d \<le> res_messageId r \<and> res_messageId r < d_nextMessageId d'
     \<and> same_pending d d')"

lemma stop_simps [simp]:
  "d_out (stopCancelWatch d) = d_out d" "d_nextMessageId (stopCancelWatch d) = d_nextMessageId d"
  "d_bindings (stopCancelWatch d) = d_bindings d" "d_waiting (stopCancelWatch d) = d_waiting d"
  "d_instantiating (stopCancelWatch d) = d_instantiating d" "d_prefetching (stopCancelWatch d) = d_prefetching d"
  "d_prefetch (stopCancelWatch d) = d_prefetch d" "d_sabs (stopCancelWatch d) = d_sabs d"
  "d_cancelConn (stopCancelWatch d) = None" "d_cancelInt32 (stopCancelWatch d) = None"
  "d_cancelWatcher (stopCancelWatch d) = None" "d_nextTimer (stopCancelWatch d) = d_nextTimer d"
  "d_globalCancel (stopCancelWatch d) = d_globalCancel d"
  by (auto simp: stopCancelWatch_def same_pending_def Let_def split: option.splits)

lemma start_simps [simp]:
  "d_out (startCancelWatch c d) = d_out d" "d_nextMessageId (startCancelWatch c d) = d_nextMessageId d"
  "d_bindings (startCancelWatch c d) = d_bindings d" "d_waiting (startCancelWatch c d) = d_waiting d"
  "d_instantiating (startCancelWatch c d) = d_instantiating d" "d_prefetching (startCancelWatch c d) = d_prefetching d"
  "d_prefetch (startCancelWatch c d) = d_prefetch d" "d_sabs (startCancelWatch c d) = d_sabs d"
  by (auto simp: startCancelWatch_def same_pending_def Let_def split: option.splits)

lemma call_frame:
  assumes "call m d = (r, d')"
  shows "d_out d' = d_out d" "d_nextMessageId d' = d_nextMessageId d" "d_waiting d' = d_waiting d"
    "d_instantiating d' = d_instantiating d" "d_prefetching d' = d_prefetching d"
    "d_prefetch d' = d_prefetch d" "d_cancelConn d' = d_cancelConn d" "d_cancelInt32 d' = d_cancelInt32 d"
    "d_cancelWatcher d' = d_cancelWatcher d" "d_timers d' = d_timers d" "d_nextTimer d' = d_nextTimer d"
    "d_globalCancel d' = d_globalCancel d" "d_sabs d' = d_sabs d"
  using assms by (auto simp: call_def split: option.splits prod.splits)

lemma attempt_simps [simp]:
  "d_out (attemptCancel B i c d) = d_out d" "d_nextMessageId (attemptCancel B i c d) = d_nextMessageId d"
  "d_waiting (attemptCancel B i c d) = d_waiting d"
  "d_instantiating (attemptCancel B i c d) = d_instantiating d" "d_prefetching (attemptCancel B i c d) = d_prefetching d"
  "d_prefetch (attemptCancel B i c d) = d_prefetch d"
  "d_cancelConn (attemptCancel B i c d) = d_cancelConn d"
  "d_cancelInt32 (attemptCancel B i c d) = d_cancelInt32 d"
  "d_cancelWatcher (attemptCancel B i c d) = d_cancelWatcher d"
  "d_timers (attemptCancel B i c d) = d_timers d" "d_nextTimer (attemptCancel B i c d) = d_nextTimer d"
  "d_globalCancel (attemptCancel B i c d) = d_globalCancel d"
  by (auto simp: attemptCancel_def call_def same_pending_def split: option.splits prod.splits sum.splits)

context request_handler
begin

lemma caught:
  assumes "req_messageId req = rid"
  shows "answers_with rid ty d (snd (js_try h (dispatch_catch req) d))"
proof (cases "h d")
  case (Pair r d')
  show ?thesis
  proof (cases r)
    case (Inr x)
    with Pair success [of d x d'] show ?thesis
      by (auto simp: js_try_def answers_with_def)
  next
    case (Inl e)
    with Pair failure [of d e d'] assms show ?thesis
      by (auto simp: js_try_def answers_with_def dispatch_catch_def hb_defs same_pending_def
          split: option.splits request_data.splits)
  qed
qed

end

text \<open>A handler still fulfils the contract after a step that only touches the watcher, the flags, the
  prefetch store or the bindings.\<close>

lemma request_handler_prefix:
  assumes "request_handler h rid ty"
    and "\<And>d. d_out (f d) = d_out d" "\<And>d. d_nextMessageId (f d) = d_nextMessageId d"
    and "\<And>d. same_pending d (f d)"
  shows "request_handler (js_bind (js_modify f) (\<lambda>_. h)) rid ty"
proof
  fix d d' and x :: unit
  assume "js_bind (js_modify f) (\<lambda>_. h) d = (Inr x, d')"
  then have "h (f d) = (Inr x, d')" by (simp add: js_defs)
  from request_handler.success [OF assms(1) this] assms(2-4) [of d]
  show "\<exists>mid dat. d_out d' = d_out d @ [\<lparr>res_messageId = mid, res_requestId = rid, res_type = ty, res_data = dat\<rparr>]
     \<and> d_nextMessageId d \<le> mid \<and> mid < d_nextMessageId d' \<and> same_pending d d'"
    by (auto simp: same_pending_def)
next
  fix d d' e
  assume "js_bind (js_modify f) (\<lambda>_. h) d = (Inl e, d')"
  then have "h (f d) = (Inl e, d')" by (simp add: js_defs)
  from request_handler.failure [OF assms(1) this] assms(2-4) [of d]
  show "d_out d' = d_out d \<and> d_nextMessageId d \<le> d_nextMessageId d' \<and> same_pending d d'"
    by (auto simp: same_pending_def)
qed

lemma request_handler_call:
  assumes "\<And>x. request_handler (h x) rid ty"
  shows "request_handler (js_bind (call m) h) rid ty"
proof
  fix d d' and y :: unit
  assume a: "js_bind (call m) h d = (Inr y, d')"
  then obtain x d1 where c: "call m d = (Inr x, d1)" and h: "h x d1 = (Inr y, d')"
    by (auto simp: js_defs split: prod.splits sum.splits)
  from request_handler.success [OF assms h] call_frame [OF c]
  show "\<exists>mid dat. d_out d' = d_out d @ [\<lparr>res_messageId = mid, res_requestId = rid, res_type = ty, res_data = dat\<rparr>]
     \<and> d_nextMessageId d \<le> mid \<and> mid < d_nextMessageId d' \<and> same_pending d d'"
    by (auto simp: same_pending_def)
next
  fix d d' e
  assume a: "js_bind (call m) h d = (Inl e, d')"
  then consider "call m d = (Inl e, d')" | x d1 where "call m d = (Inr x, d1)" "h x d1 = (Inl e, d')"
    by (auto simp: js_defs split: prod.splits sum.splits)
  then show "d_out d' = d_out d \<and> d_nextMessageId d \<le> d_nextMessageId d' \<and> same_pending d d'"
  proof cases
    case 1
    from call_frame [OF this] show ?thesis
      by (simp add: same_pending_def)
  next
    case 2
    from request_handler.failure [OF assms 2(2)] call_frame [OF 2(1)] show ?thesis
      by (simp add: same_pending_def)
  qed
qed


lemma respond_eq:
  "respond rid ty dat d = (Inr (), d\<lparr>d_nextMessageId := Suc (d_nextMessageId d),
     d_out := d_out d @ [\<lparr>res_messageId = d_nextMessageId d, res_requestId = rid, res_type = ty, res_data = dat\<rparr>]\<rparr>)"
  by (simp add: hb_defs)

interpretation h_respond: request_handler "respond rid ty dat" rid ty
  by unfold_locales (auto simp: respond_eq same_pending_def)

interpretation h_ok: request_handler "reply_ok rid m" rid OK
  unfolding reply_ok_def sendOK_def
  by (rule request_handler_call) (rule h_respond.request_handler_axioms)

interpretation h_with: request_handler "reply_with rid ty f m" rid ty
  unfolding reply_with_def
  by (rule request_handler_call) (rule h_respond.request_handler_axioms)

interpretation h_lazy: request_handler "reply_lazy rid ty f m" rid ty
proof
  fix d d' and x :: unit
  assume "reply_lazy rid ty f m d = (Inr x, d')"
  then obtain y d1 where c: "call m (d\<lparr>d_nextMessageId := Suc (d_nextMessageId d)\<rparr>) = (Inr y, d1)"
    and d': "d' = d1\<lparr>d_out := d_out d1 @
       [\<lparr>res_messageId = d_nextMessageId d, res_requestId = rid, res_type = ty, res_data = f y\<rparr>]\<rparr>"
    by (auto simp: reply_lazy_def hb_defs split: prod.splits sum.splits)
  show "\<exists>mid dat. d_out d' = d_out d @ [\<lparr>res_messageId = mid, res_requestId = rid, res_type = ty, res_data = dat\<rparr>]
     \<and> d_nextMessageId d \<le> mid \<and> mid < d_nextMessageId d' \<and> same_pending d d'"
    using call_frame [OF c] d' by (auto simp: same_pending_def)
next
  fix d d' e
  assume "reply_lazy rid ty f m d = (Inl e, d')"
  then have c: "call m (d\<lparr>d_nextMessageId := Suc (d_nextMessageId d)\<rparr>) = (Inl e, d')"
    by (auto simp: reply_lazy_def hb_defs split: prod.splits sum.splits)
  show "d_out d' = d_out d \<and> d_nextMessageId d \<le> d_nextMessageId d' \<and> same_pending d d'"
    using call_frame [OF c] by (simp add: same_pending_def)
qed

lemmas handler_rules = h_respond.request_handler_axioms h_ok.request_handler_axioms
  h_with.request_handler_axioms h_lazy.request_handler_axioms

interpretation h_RESET: request_handler "handle_RESET B rid" rid OK
  unfolding handle_RESET_def
  by (intro request_handler_prefix handler_rules) (simp_all add: same_pending_def)

interpretation h_OPEN: request_handler "handle_OPEN B rid config" rid OK
proof -
  have "request_handler (case path config of
        Some p \<Rightarrow> if starts_with ''opfs://'' p
          then js_bind (call (b_prepareDBFileHandle B p BROWSER_FSACCESS)) (\<lambda>_.
                 reply_ok rid (b_open B (config\<lparr>useDirectIO := Some True\<rparr>)))
          else reply_ok rid (b_open B config)
      | None \<Rightarrow> reply_ok rid (b_open B config)) rid OK"
    by (auto split: option.splits intro!: request_handler_call handler_rules)
  then show "request_handler (handle_OPEN B rid config) rid OK"
    unfolding handle_OPEN_def by (intro request_handler_prefix) (simp_all add: same_pending_def)
qed

interpretation h_DISCONNECT: request_handler "handle_DISCONNECT B rid conn" rid OK
  unfolding handle_DISCONNECT_def
  by (intro request_handler_prefix handler_rules) (simp_all add: same_pending_def)

interpretation h_START: request_handler "handle_START_PENDING_QUERY B rid c txt stream" rid QUERY_RESULT_HEADER_OR_NULL
  unfolding handle_START_PENDING_QUERY_def
  by (intro request_handler_prefix request_handler_call handler_rules) (simp_all add: same_pending_def)

interpretation h_POLL: request_handler "handle_POLL_PENDING_QUERY B rid c" rid QUERY_RESULT_HEADER_OR_NULL
  unfolding handle_POLL_PENDING_QUERY_def
  by (intro request_handler_prefix request_handler_call handler_rules)
    (simp_all add: same_pending_def split: option.splits)

interpretation h_CANCEL: request_handler "handle_CANCEL_PENDING_QUERY B rid c" rid SUCCESS_RESPONSE
  unfolding handle_CANCEL_PENDING_QUERY_def
  by (intro request_handler_prefix handler_rules) (simp_all add: same_pending_def)

lemmas all_handler_rules = handler_rules h_RESET.request_handler_axioms h_OPEN.request_handler_axioms
  h_DISCONNECT.request_handler_axioms h_START.request_handler_axioms h_POLL.request_handler_axioms
  h_CANCEL.request_handler_axioms

lemmas simple_handler_defs = handle_CONNECT_def handle_CREATE_PREPARED_def handle_RUN_PREPARED_def
  handle_RUN_QUERY_def handle_SEND_PREPARED_def handle_FETCH_QUERY_RESULTS_def handle_GET_TABLE_NAMES_def
  handle_GLOB_FILE_INFOS_def handle_files_def handle_inserts_def

section \<open>One answer per request\<close>

fun expected_response :: "WorkerRequestType \<Rightarrow> WorkerResponseType" where
  "expected_response CANCEL_PENDING_QUERY = SUCCESS_RESPONSE"
| "expected_response CONNECT = CONNECTION_INFO"
| "expected_response COPY_FILE_TO_BUFFER = FILE_BUFFER"
| "expected_response CREATE_PREPARED = PREPARED_STATEMENT_ID"
| "expected_response EXPORT_FILE_STATISTICS = FILE_STATISTICS"
| "expected_response FETCH_QUERY_RESULTS = QUERY_RESULT_CHUNK"
| "expected_response GET_FEATURE_FLAGS = FEATURE_FLAGS"
| "expected_response GET_INTERRUPT_HANDLE = INTERRUPT_HANDLE"
| "expected_response GET_TABLE_NAMES = TABLE_NAMES"
| "expected_response GET_VERSION = VERSION_STRING"
| "expected_response GLOB_FILE_INFOS = FILE_INFOS"
| "expected_response POLL_PENDING_QUERY = QUERY_RESULT_HEADER_OR_NULL"
| "expected_response RUN_PREPARED = QUERY_RESULT"
| "expected_response RUN_QUERY = QUERY_RESULT"
| "expected_response SEND_PREPARED = QUERY_RESULT_HEADER"
| "expected_response START_PENDING_QUERY = QUERY_RESULT_HEADER_OR_NULL"
| "expected_response TOKENIZE = SCRIPT_TOKENS"
| "expected_response _ = OK"

definition plain_request :: "bool \<Rightarrow> request_data \<Rightarrow> bool" where
  "plain_request xhr data \<longleftrightarrow>
     request_type data \<notin> {PING, INSTANTIATE} \<and> (request_type data = PREFETCH_EXTENSIONS \<longrightarrow> \<not> xhr)"

lemma dispatch_body_handler:
  assumes "plain_request xhr (req_data req)"
  shows "request_handler (dispatch_body B xhr sig req) (req_messageId req)
           (expected_response (request_type (req_data req)))"
  using assms
  by (cases "req_data req")
    (auto simp: plain_request_def dispatch_body_def Let_def simple_handler_defs handle_PREFETCH_EXTENSIONS_def
      sendOK_def intro: all_handler_rules)

lemma dispatch_answers:
  assumes "plain_request xhr (req_data req)"
  shows "answers_with (req_messageId req) (expected_response (request_type (req_data req))) d
           (dispatch B xhr sig req d)"
  unfolding dispatch_def by (rule request_handler.caught [OF dispatch_body_handler [OF assms]]) simp


text \<open>Resolving the URLs of extensions never throws, and touches nothing but the bindings.\<close>

lemma extension_urls_frame:
  "extension_urls B names d = (r, d') \<Longrightarrow> (\<exists>urls. r = Inr urls)
     \<and> d_out d' = d_out d \<and> d_nextMessageId d' = d_nextMessageId d \<and> same_pending d d'
     \<and> d_cancelConn d' = d_cancelConn d \<and> d_cancelInt32 d' = d_cancelInt32 d
     \<and> d_cancelWatcher d' = d_cancelWatcher d \<and> d_timers d' = d_timers d \<and> d_nextTimer d' = d_nextTimer d
     \<and> d_prefetch d' = d_prefetch d"
proof (induction names arbitrary: d r d')
  case Nil
  then show ?case by (auto simp: js_defs)
next
  case (Cons n names)
  let ?here = "js_try (js_bind (call (b_getExtensionUrl B n)) (\<lambda>url. js_ret (if url = [] then [] else [url])))
                     (\<lambda>_. js_ret [])"
  obtain c d1 where c: "call (b_getExtensionUrl B n) d = (c, d1)" by force
  have here: "\<exists>us. ?here d = (Inr us, d1)"
    using c by (cases c) (auto simp: js_defs)
  obtain r2 d2 where rest: "extension_urls B names d1 = (r2, d2)" by force
  from Cons.IH [OF this] obtain us2 where r2: "r2 = Inr us2" by auto
  have "d' = d2" "\<exists>us. r = Inr us"
    using Cons.prems here rest r2 by (auto simp: js_bind_def js_ret_def)
  with Cons.IH [OF rest] call_frame [OF c] show ?case
    by (simp add: same_pending_def)
qed

lemma dispatch_prefetch:
  assumes "req_data req = Q_PREFETCH_EXTENSIONS names" "xhr"
  shows "\<exists>d1 work p. dispatch B xhr sig req d
     = d1\<lparr>d_prefetch := p, d_prefetching := d_prefetching d @ [(req, work)]\<rparr>
   \<and> prefetchExtensions sig (case extension_urls B names d of (Inr us, _) \<Rightarrow> us | _ \<Rightarrow> []) (d_prefetch d) = (work, p)
   \<and> extension_urls B names d = (fst (extension_urls B names d), d1)"
proof -
  obtain r d1 where u: "extension_urls B names d = (r, d1)" by force
  from extension_urls_frame [OF u] obtain us where "r = Inr us" by auto
  with u extension_urls_frame [OF u] assms show ?thesis
    by (auto simp: dispatch_def dispatch_body_def handle_PREFETCH_EXTENSIONS_def js_try_def js_bind_def
        same_pending_def Let_def split: prod.splits)
qed

text \<open>Progress and log messages are not answers.\<close>

definition final :: "WorkerResponse \<Rightarrow> bool" where
  "final r \<longleftrightarrow> res_type r \<notin> {LOG, INSTANTIATE_PROGRESS, PROGRESS_UPDATE}"

definition answered_ids :: "'b dispatcher \<Rightarrow> nat multiset" where
  "answered_ids d = mset (map res_requestId (filter final (d_out d)))"

definition pending_ids :: "'b dispatcher \<Rightarrow> nat multiset" where
  "pending_ids d = mset (map req_messageId (d_waiting d)) + mset (map req_messageId (d_instantiating d))
     + mset (map (req_messageId \<circ> fst) (d_prefetching d))"

definition arrived :: "'b dispatcher_event \<Rightarrow> nat multiset" where
  "arrived e = (case e of DE_message (RequestMessage req) \<Rightarrow> {#req_messageId req#} | _ \<Rightarrow> {#})"

definition reinstantiates :: "'b dispatcher \<Rightarrow> 'b dispatcher_event \<Rightarrow> bool" where
  "reinstantiates d e \<longleftrightarrow> (case e of
     DE_message (RequestMessage req) \<Rightarrow> request_type (req_data req) = INSTANTIATE \<and> d_bindings d \<noteq> None
   | _ \<Rightarrow> False)"

lemmas account_defs = answered_ids_def pending_ids_def

lemma expected_final: "expected_response t \<notin> {LOG, INSTANTIATE_PROGRESS, PROGRESS_UPDATE}"
  by (cases t) simp_all

lemma answers_with_account:
  assumes "answers_with rid (expected_response t) d d'"
  shows "answered_ids d' + pending_ids d' = answered_ids d + pending_ids d + {#rid#}"
  using assms expected_final [of t]
  by (auto simp: answers_with_def account_defs same_pending_def final_def)

lemma respond_account:
  "answered_ids (snd (respond rid ty dat d)) = answered_ids d + (if ty \<in> {LOG, INSTANTIATE_PROGRESS, PROGRESS_UPDATE}
     then {#} else {#rid#})"
  "pending_ids (snd (respond rid ty dat d)) = pending_ids d"
  by (auto simp: respond_eq account_defs final_def)

lemma dispatch_account:
  assumes "request_type (req_data req) \<notin> {PING, INSTANTIATE}"
  shows "answered_ids (dispatch B xhr sig req d) + pending_ids (dispatch B xhr sig req d)
           = answered_ids d + pending_ids d + {#req_messageId req#}"
proof (cases "plain_request xhr (req_data req)")
  case True
  from answers_with_account [OF dispatch_answers [OF this]] show ?thesis .
next
  case False
  with assms obtain names where n: "req_data req = Q_PREFETCH_EXTENSIONS names" and x: "xhr"
    by (cases "req_data req") (auto simp: plain_request_def)
  from dispatch_prefetch [OF this, of B sig d] obtain d1 work p where
      d: "dispatch B xhr sig req d = d1\<lparr>d_prefetch := p, d_prefetching := d_prefetching d @ [(req, work)]\<rparr>"
    and u: "extension_urls B names d = (fst (extension_urls B names d), d1)" by auto
  from extension_urls_frame [OF u] show ?thesis
    by (simp add: d account_defs same_pending_def)
qed

lemma onMessage_account:
  "answered_ids (onMessage B xhr sig req d) + pending_ids (onMessage B xhr sig req d)
     = answered_ids d + pending_ids d + {#req_messageId req#}
       + (if request_type (req_data req) = INSTANTIATE \<and> d_bindings d \<noteq> None then {#req_messageId req#} else {#})"
proof (cases "request_type (req_data req) \<in> {PING, INSTANTIATE}")
  case True
  then consider "req_data req = Q_PING" | m p f where "req_data req = Q_INSTANTIATE m p f"
    by (cases "req_data req") auto
  then show ?thesis
    by cases (auto simp: onMessage_def sendOK_def failWith_def respond_eq account_defs final_def Let_def)
next
  case False
  then have "onMessage B xhr sig req d =
      (if d_bindings d = None then snd (failWith (req_messageId req) (Error ''duckdb is not initialized'') d)
       else if prefetchesRunning (d_prefetch d) \<and> request_type (req_data req) \<noteq> PREFETCH_EXTENSIONS
       then d\<lparr>d_waiting := d_waiting d @ [req]\<rparr> else dispatch B xhr sig req d)"
    by (cases "req_data req") (simp_all add: onMessage_def)
  then show ?thesis
    using False dispatch_account [of req B xhr sig d]
    by (auto simp: failWith_def respond_account) (simp add: account_defs)
qed

lemma mset_remove1_map: "x \<in> set xs \<Longrightarrow> mset (map f (remove1 x xs)) + {#f x#} = mset (map f xs)"
  by (induction xs) auto

lemma step_account:
  assumes "dispatcher_step E d e d'"
    and "\<forall>req \<in> set (d_waiting d). request_type (req_data req) \<notin> {PING, INSTANTIATE}"
  shows "answered_ids d' + pending_ids d' = answered_ids d + pending_ids d + arrived e
     + (if reinstantiates d e then arrived e else {#})"
  using assms(1)
proof (rule dispatcher_stepE)
  fix req d1
  assume "e = DE_message (RequestMessage req)" "d' = onMessage (we_bindings E) (we_xhr E) (we_sig E) req d1"
    "handlePreInitMessage (RequestMessage req) d = (False, d1)"
  then show ?thesis
    using onMessage_account [of "we_bindings E" "we_xhr E" "we_sig E" req d]
    by (auto simp: handlePreInitMessage_def arrived_def reinstantiates_def)
next
  fix req
  assume e: "e = DE_resume req" "d' = resume (we_bindings E) (we_xhr E) (we_sig E) req d"
    and "req \<in> set (d_waiting d)"
  with assms(2) mset_remove1_map [of req "d_waiting d" req_messageId] show ?thesis
    using dispatch_account [of req "we_bindings E" "we_xhr E" "we_sig E" "d\<lparr>d_waiting := remove1 req (d_waiting d)\<rparr>"]
    by (auto simp: resume_def arrived_def reinstantiates_def account_defs)
next
  fix req outcome
  assume "e = DE_instantiated req outcome" "d' = instantiated req outcome d" "req \<in> set (d_instantiating d)"
  with mset_remove1_map [of req "d_instantiating d" req_messageId] show ?thesis
    by (auto simp: instantiated_def sendOK_def failWith_def respond_eq arrived_def reinstantiates_def
        account_defs final_def Let_def split: sum.splits)
next
  fix req work
  assume "e = DE_prefetch_done req work" "d' = prefetch_done req work d" "(req, work) \<in> set (d_prefetching d)"
  with mset_remove1_map [of "(req, work)" "d_prefetching d" "req_messageId \<circ> fst"] show ?thesis
    by (auto simp: prefetch_done_def sendOK_def respond_eq arrived_def reinstantiates_def account_defs final_def)
next
  fix req p
  assume "e = DE_progress req p" "d' = forwardProgress req p d"
  then show ?thesis
    by (auto simp: forwardProgress_def respond_eq arrived_def reinstantiates_def account_defs final_def
        split: request_data.splits option.splits bool.splits)
next
  fix m
  assume "e = DE_message m" "handlePreInitMessage m d = (True, d')"
  then show ?thesis
    by (auto simp: handlePreInitMessage_def arrived_def reinstantiates_def account_defs
        split: worker_message.splits)
qed (auto simp: arrived_def reinstantiates_def account_defs cancelTick_def log_def respond_eq final_def)

end
