(* ===== verification/Hb_Answers.thy ===== *)
theory Hb_Answers
  imports Hb_Dispatcher_Props
begin

text \<open>
  The protocol over whole executions of the worker: every request that arrives is answered exactly once or
  is still suspended, every answer has the type its request asks for or reports an error, and no two
  messages share an id.
\<close>

section \<open>Requests of an execution\<close>

definition request_of :: "'b dispatcher_event \<Rightarrow> WorkerRequest list" where
  "request_of e = (case e of DE_message (RequestMessage req) \<Rightarrow> [req] | _ \<Rightarrow> [])"

definition requests :: "'b dispatcher_event list \<Rightarrow> WorkerRequest list" where
  "requests es = concat (map request_of es)"

text \<open>A step of a client that does not ask for a second module while one is instantiated.\<close>

definition client_step :: "'b worker_env \<Rightarrow> 'b dispatcher \<Rightarrow> 'b dispatcher_event \<Rightarrow> 'b dispatcher \<Rightarrow> bool" where
  "client_step E d e d' \<longleftrightarrow> dispatcher_step E d e d' \<and> \<not> reinstantiates d e"

lemma requests_simps [simp]: "requests [] = []" "requests (e # es) = request_of e @ requests es"
  by (simp_all add: requests_def)

lemma arrived_request_of: "arrived e = mset (map req_messageId (request_of e))"
  by (simp add: arrived_def request_of_def split: dispatcher_event.splits worker_message.splits)

section \<open>The trace invariant\<close>

definition good_reply :: "WorkerRequest set \<Rightarrow> WorkerResponse \<Rightarrow> bool" where
  "good_reply R r \<longleftrightarrow> (final r \<longrightarrow> (\<exists>req \<in> R. res_requestId r = req_messageId req
     \<and> res_type r \<in> {expected_response (request_type (req_data req)), ERROR}))"

definition fresh_ids :: "'b dispatcher \<Rightarrow> bool" where
  "fresh_ids d \<longleftrightarrow> distinct (map res_messageId (d_out d)) \<and> (\<forall>r \<in> set (d_out d). res_messageId r < d_nextMessageId d)"

definition pending_ok :: "WorkerRequest set \<Rightarrow> 'b dispatcher \<Rightarrow> bool" where
  "pending_ok R d \<longleftrightarrow>
     (\<forall>req \<in> set (d_waiting d). req \<in> R \<and> request_type (req_data req) \<notin> {PING, INSTANTIATE})
   \<and> (\<forall>req \<in> set (d_instantiating d). req \<in> R \<and> request_type (req_data req) = INSTANTIATE)
   \<and> (\<forall>(req, work) \<in> set (d_prefetching d). req \<in> R \<and> request_type (req_data req) = PREFETCH_EXTENSIONS)"

definition traced :: "WorkerRequest set \<Rightarrow> 'b dispatcher \<Rightarrow> bool" where
  "traced R d \<longleftrightarrow> (\<forall>r \<in> set (d_out d). good_reply R r) \<and> fresh_ids d \<and> pending_ok R d"

lemma traced_mono: "traced R d \<Longrightarrow> R \<subseteq> S \<Longrightarrow> traced S d"
  unfolding traced_def good_reply_def pending_ok_def by fast

lemma traced_answer:
  assumes "traced R d" "req \<in> R"
    and "answers_with (req_messageId req) (expected_response (request_type (req_data req))) d d'"
  shows "traced R d'"
  using assms
  by (fastforce simp: traced_def answers_with_def good_reply_def fresh_ids_def pending_ok_def same_pending_def)

lemma traced_quiet:
  "traced R d \<Longrightarrow> d_out d' = d_out d \<Longrightarrow> d_nextMessageId d' = d_nextMessageId d \<Longrightarrow> same_pending d d' \<Longrightarrow> traced R d'"
  by (simp add: traced_def fresh_ids_def pending_ok_def same_pending_def)

lemma traced_respond:
  assumes "traced R d" "good_reply R \<lparr>res_messageId = d_nextMessageId d, res_requestId = rid, res_type = ty, res_data = dat\<rparr>"
  shows "traced R (snd (respond rid ty dat d))"
  using assms by (fastforce simp: respond_eq traced_def fresh_ids_def pending_ok_def)

lemma traced_dispatch:
  assumes t: "traced R d" "req \<in> R" and "request_type (req_data req) \<notin> {PING, INSTANTIATE}"
  shows "traced R (dispatch B xhr sig req d)"
proof (cases "plain_request xhr (req_data req)")
  case True
  from traced_answer [OF t dispatch_answers [OF this]] show ?thesis .
next
  case False
  with assms(3) obtain names where n: "req_data req = Q_PREFETCH_EXTENSIONS names" and x: "xhr"
    by (cases "req_data req") (auto simp: plain_request_def)
  from dispatch_prefetch [OF this, of B sig d] obtain d1 work p where
      d: "dispatch B xhr sig req d = d1\<lparr>d_prefetch := p, d_prefetching := d_prefetching d @ [(req, work)]\<rparr>"
    and u: "extension_urls B names d = (fst (extension_urls B names d), d1)" by auto
  from extension_urls_frame [OF u] t n show ?thesis
    by (auto simp: d traced_def fresh_ids_def pending_ok_def same_pending_def)
qed

lemma traced_onMessage:
  assumes "traced R d" "req \<in> R"
  shows "traced R (onMessage B xhr sig req d)"
proof -
  have fail: "traced R (snd (failWith (req_messageId req) err d))" for err
    using assms unfolding failWith_def by (intro traced_respond) (auto simp: good_reply_def)
  consider (ping) "req_data req = Q_PING" | (inst) m p f where "req_data req = Q_INSTANTIATE m p f"
    | (other) "request_type (req_data req) \<notin> {PING, INSTANTIATE}"
    by (cases "req_data req") auto
  then show ?thesis
  proof cases
    case ping
    have "traced R (snd (sendOK (req_messageId req) d))"
      unfolding sendOK_def using assms ping by (intro traced_respond) (auto simp: good_reply_def)
    with ping show ?thesis by (simp add: onMessage_def)
  next
    case inst
    have "traced R (d'\<lparr>d_instantiating := d_instantiating d' @ [req]\<rparr>)" if "traced R d'" for d' :: "'a dispatcher"
      using that assms inst by (auto simp: traced_def fresh_ids_def pending_ok_def)
    with fail assms(1) inst show ?thesis by (simp add: onMessage_def Let_def)
  next
    case other
    have "traced R (d\<lparr>d_waiting := d_waiting d @ [req]\<rparr>)"
      using assms other by (auto simp: traced_def fresh_ids_def pending_ok_def)
    moreover have "onMessage B xhr sig req d =
        (if d_bindings d = None then snd (failWith (req_messageId req) (Error ''duckdb is not initialized'') d)
         else if prefetchesRunning (d_prefetch d) \<and> request_type (req_data req) \<noteq> PREFETCH_EXTENSIONS
         then d\<lparr>d_waiting := d_waiting d @ [req]\<rparr> else dispatch B xhr sig req d)"
      using other by (cases "req_data req") (simp_all add: onMessage_def)
    ultimately show ?thesis
      using fail traced_dispatch [OF assms other] by simp
  qed
qed

lemma good_reply_ok:
  "req \<in> R \<Longrightarrow> expected_response (request_type (req_data req)) = OK \<Longrightarrow>
     good_reply R \<lparr>res_messageId = mid, res_requestId = req_messageId req, res_type = OK, res_data = D_null\<rparr>"
  by (auto simp: good_reply_def)

lemma good_reply_error:
  "req \<in> R \<Longrightarrow> good_reply R \<lparr>res_messageId = mid, res_requestId = req_messageId req, res_type = ERROR, res_data = dat\<rparr>"
  by (auto simp: good_reply_def)

lemma in_remove1: "x \<in> set (remove1 y xs) \<Longrightarrow> x \<in> set xs"
  using set_remove1_subset by fast

lemma traced_instantiated:
  assumes "traced R d" "req \<in> set (d_instantiating d)"
  shows "traced R (instantiated req outcome d)"
proof -
  let ?d = "d\<lparr>d_instantiating := remove1 req (d_instantiating d)\<rparr>"
  have "traced R (?d\<lparr>d_bindings := b\<rparr>)" for b
    using assms by (auto simp: traced_def fresh_ids_def pending_ok_def dest: in_remove1)
  moreover have "req \<in> R" "request_type (req_data req) = INSTANTIATE"
    using assms by (auto simp: traced_def pending_ok_def)
  ultimately show ?thesis
    unfolding instantiated_def Let_def sendOK_def failWith_def
    by (auto split: sum.splits intro!: traced_respond good_reply_ok good_reply_error)
qed

lemma traced_prefetch_done:
  assumes "traced R d" "(req, work) \<in> set (d_prefetching d)"
  shows "traced R (prefetch_done req work d)"
proof -
  have "traced R (d\<lparr>d_prefetching := remove1 (req, work) (d_prefetching d)\<rparr>)"
    using assms by (auto simp: traced_def fresh_ids_def pending_ok_def dest: in_remove1)
  moreover have "req \<in> R" "request_type (req_data req) = PREFETCH_EXTENSIONS"
    using assms by (auto simp: traced_def pending_ok_def)
  ultimately show ?thesis
    unfolding prefetch_done_def sendOK_def
    by (auto intro!: traced_respond good_reply_ok)
qed

lemma traced_resume:
  assumes "traced R d" "req \<in> set (d_waiting d)"
  shows "traced R (resume B xhr sig req d)"
proof -
  have "traced R (d\<lparr>d_waiting := remove1 req (d_waiting d)\<rparr>)"
    using assms by (auto simp: traced_def fresh_ids_def pending_ok_def dest: in_remove1)
  moreover have "req \<in> R" "request_type (req_data req) \<notin> {PING, INSTANTIATE}"
    using assms by (auto simp: traced_def pending_ok_def)
  ultimately show ?thesis
    unfolding resume_def by (intro traced_dispatch) simp_all
qed

lemma traced_step:
  assumes "dispatcher_step E d e d'" "traced R d"
  shows "traced (R \<union> set (request_of e)) d'"
  using assms(1)
proof (cases rule: dispatcher_step.cases)
  case (ds_preinit m)
  with assms(2) show ?thesis
    by (auto simp: handlePreInitMessage_def request_of_def traced_def fresh_ids_def pending_ok_def
        split: worker_message.splits)
next
  case (ds_request req d1)
  with assms(2) show ?thesis
    by (auto simp: handlePreInitMessage_def request_of_def intro!: traced_onMessage elim!: traced_mono)
next
  case (ds_instantiated req outcome)
  with traced_instantiated [OF assms(2)] show ?thesis by (simp add: request_of_def)
next
  case (ds_progress req p)
  have "traced R (snd (respond (req_messageId req) INSTANTIATE_PROGRESS (D_inst_progress p) d))"
    using assms(2) by (intro traced_respond) (simp_all add: good_reply_def final_def)
  with ds_progress assms(2) show ?thesis
    by (auto simp: forwardProgress_def request_of_def split: request_data.splits option.splits bool.splits)
next
  case (ds_resume req)
  with traced_resume [OF assms(2)] show ?thesis by (simp add: request_of_def)
next
  case (ds_prefetch_done req work)
  with traced_prefetch_done [OF assms(2)] show ?thesis by (simp add: request_of_def)
next
  case (ds_tick t int32)
  have "traced R (cancelTick (we_bindings E) int32 d)"
    using assms(2) by (rule traced_quiet) (simp_all add: cancelTick_def same_pending_def)
  with ds_tick show ?thesis by (simp add: request_of_def)
next
  case (ds_log entry)
  have "traced R (snd (log entry d))"
    unfolding log_def using assms(2) by (intro traced_respond) (simp_all add: good_reply_def final_def)
  with ds_log show ?thesis by (simp add: request_of_def)
qed (use assms(2) in \<open>auto simp: request_of_def elim!: traced_quiet simp: same_pending_def\<close>)

lemma traced_init [simp]: "traced {} dispatcher_init"
  by (simp add: traced_def dispatcher_init_def fresh_ids_def pending_ok_def)

lemma traced_exec:
  "exec (dispatcher_step E) d es d' \<Longrightarrow> traced R d \<Longrightarrow> traced (R \<union> set (requests es)) d'"
proof (induction arbitrary: R rule: exec.induct)
  case (exec_Cons s e t es u)
  from exec_Cons.IH [OF traced_step [OF exec_Cons.hyps(1) exec_Cons.prems]]
  show ?case by (simp add: Un_assoc)
qed simp

lemma exec_client: "exec (client_step E) d es d' \<Longrightarrow> exec (dispatcher_step E) d es d'"
  by (induction rule: exec.induct) (auto simp: client_step_def intro: exec.intros)

lemma account_exec:
  "exec (client_step E) d es d' \<Longrightarrow> traced R d \<Longrightarrow>
     answered_ids d' + pending_ids d' = answered_ids d + pending_ids d + mset (map req_messageId (requests es))"
proof (induction arbitrary: R rule: exec.induct)
  case (exec_Cons s e t es u)
  then have st: "dispatcher_step E s e t" "\<not> reinstantiates s e" by (auto simp: client_step_def)
  have "answered_ids t + pending_ids t = answered_ids s + pending_ids s + arrived e"
    using step_account [OF st(1)] st(2) exec_Cons.prems by (auto simp: traced_def pending_ok_def)
  with exec_Cons.IH [OF traced_step [OF st(1) exec_Cons.prems]] show ?case
    by (simp add: arrived_request_of)
qed simp

section \<open>A concrete worker\<close>

text \<open>
  Bindings for the concrete runs below: connections are counted, a query on an open connection echoes its
  text, polling connection 0 is never done and polling any other is.
\<close>

definition counting_bindings :: "nat DuckDBBindings" where
  "counting_bindings = \<lparr>
     b_open = (\<lambda>_. js_ret ()),
     b_reset = (js_ret ()),
     b_getVersion = (js_ret []),
     b_getExtensionUrl = (\<lambda>_. js_ret []),
     b_getFeatureFlags = (js_ret 0),
     b_tokenize = (\<lambda>_. js_throw (Error ''unsupported'')),
     b_connect = (\<lambda>n. (Inr n, Suc n)),
     b_disconnect = (\<lambda>_. js_ret ()),
     b_runQuery = (\<lambda>c t n. if c < n then (Inr (text_encode t), n) else (Inl (Error ''no such connection''), n)),
     b_startPendingQuery = (\<lambda>_ _ _. js_ret None),
     b_pollPendingQuery = (\<lambda>c n. (Inr (if c = 0 then None else Some [1]), n)),
     b_cancelPendingQuery = (\<lambda>_. js_ret True),
     b_getInterruptHandle = (\<lambda>_. js_ret None),
     b_fetchQueryResults = (\<lambda>_. js_ret None),
     b_getTableNames = (\<lambda>_ _. js_ret []),
     b_createPrepared = (\<lambda>_ _. js_ret 0),
     b_closePrepared = (\<lambda>_ _. js_ret ()),
     b_runPrepared = (\<lambda>_ _ _. js_ret []),
     b_sendPrepared = (\<lambda>_ _ _. js_ret []),
     b_insertArrowFromIPCStream = (\<lambda>_ _ _. js_ret ()),
     b_insertCSVFromPath = (\<lambda>_ _ _. js_ret ()),
     b_insertJSONFromPath = (\<lambda>_ _ _. js_ret ()),
     b_registerFileURL = (\<lambda>_ _ _ _. js_ret ()),
     b_registerFileBuffer = (\<lambda>_ _. js_ret ()),
     b_registerFileHandleAsync = (\<lambda>_ _ _ _. js_ret ()),
     b_prepareDBFileHandle = (\<lambda>_ _. js_ret ()),
     b_globFiles = (\<lambda>_. js_ret []),
     b_dropFile = (\<lambda>_. js_ret ()),
     b_dropFiles = (\<lambda>_. js_ret ()),
     b_flushFiles = (js_ret ()),
     b_copyFileToPath = (\<lambda>_ _. js_ret ()),
     b_copyFileToBuffer = (\<lambda>_. js_ret []),
     b_registerOPFSFileName = (\<lambda>_. js_ret ()),
     b_collectFileStatistics = (\<lambda>_ _. js_ret ()),
     b_exportFileStatistics = (\<lambda>_. js_throw (Error ''unsupported''))\<rparr>"

definition counting_env :: "nat worker_env" where
  "counting_env = \<lparr>we_bindings = counting_bindings, we_xhr = True, we_sig = True, we_digest = (\<lambda>b. b), we_subtle = True\<rparr>"

lemmas counting_defs = counting_env_def counting_bindings_def

definition request :: "nat \<Rightarrow> request_data \<Rightarrow> WorkerRequest" where
  "request i q = \<lparr>req_messageId = i, req_data = q\<rparr>"

lemma request_simps [simp]: "req_messageId (request i q) = i" "req_data (request i q) = q"
  by (simp_all add: request_def)

definition session :: "nat dispatcher_event list" where
  "session = [DE_message (RequestMessage (request 0 (Q_INSTANTIATE ''duckdb.wasm'' None None))),
     DE_instantiated (request 0 (Q_INSTANTIATE ''duckdb.wasm'' None None)) (Inr 0),
     DE_message (RequestMessage (request 1 Q_CONNECT)),
     DE_message (RequestMessage (request 2 (Q_RUN_QUERY 0 ''SELECT 1''))),
     DE_message (RequestMessage (request 3 (Q_RUN_QUERY 7 ''SELECT 1'')))]"

lemma session_runs:
  "\<exists>d. exec (client_step counting_env) dispatcher_init session d
     \<and> map res_type (d_out d) = [OK, CONNECTION_INFO, QUERY_RESULT, ERROR] \<and> pending_ids d = {#}"
proof -
  let ?i = "request 0 (Q_INSTANTIATE ''duckdb.wasm'' None None)"
  let ?B = counting_bindings
  let ?m = "\<lambda>req d. onMessage ?B True True req d"
  let ?d1 = "?m ?i dispatcher_init"
  let ?d2 = "instantiated ?i (Inr 0) ?d1"
  let ?d3 = "?m (request 1 Q_CONNECT) ?d2"
  let ?d4 = "?m (request 2 (Q_RUN_QUERY 0 ''SELECT 1'')) ?d3"
  let ?d5 = "?m (request 3 (Q_RUN_QUERY 7 ''SELECT 1'')) ?d4"
  have req: "client_step counting_env d (DE_message (RequestMessage r)) (?m r d)"
    if "d_bindings d = None \<or> request_type (req_data r) \<noteq> INSTANTIATE" for d r
    using ds_request [of r d d counting_env] that
    by (auto simp: client_step_def handlePreInitMessage_def reinstantiates_def counting_env_def)
  have d1: "?d1 = dispatcher_init\<lparr>d_instantiating := [?i]\<rparr>"
    by (simp add: onMessage_def dispatcher_init_def)
  have inst: "client_step counting_env ?d1 (DE_instantiated ?i (Inr 0)) ?d2"
    using ds_instantiated [of ?i ?d1 counting_env "Inr 0"] by (simp add: client_step_def reinstantiates_def d1)
  have r1: "client_step counting_env dispatcher_init (DE_message (RequestMessage ?i)) ?d1"
    by (rule req) (simp add: dispatcher_init_def)
  have r3: "client_step counting_env ?d2 (DE_message (RequestMessage (request 1 Q_CONNECT))) ?d3"
    by (rule req) simp
  have r4: "client_step counting_env ?d3 (DE_message (RequestMessage (request 2 (Q_RUN_QUERY 0 ''SELECT 1'')))) ?d4"
    by (rule req) simp
  have r5: "client_step counting_env ?d4 (DE_message (RequestMessage (request 3 (Q_RUN_QUERY 7 ''SELECT 1'')))) ?d5"
    by (rule req) simp
  have "exec (client_step counting_env) dispatcher_init session ?d5"
    unfolding session_def
    by (rule exec_Cons, rule r1, rule exec_Cons, rule inst, rule exec_Cons, rule r3, rule exec_Cons, rule r4,
        rule exec_Cons, rule r5, rule exec_Nil)
  moreover have "map res_type (d_out ?d5) = [OK, CONNECTION_INFO, QUERY_RESULT, ERROR] \<and> pending_ids ?d5 = {#}"
    by (simp add: d1 onMessage_def instantiated_def dispatch_def dispatch_body_def handle_CONNECT_def
        handle_RUN_QUERY_def reply_with_def call_def respond_eq sendOK_def js_try_def js_bind_def
        dispatch_catch_def failWith_def js_modify_def dispatcher_init_def counting_bindings_def
        prefetchesRunning_def prefetch_init_def pending_ids_def)
  ultimately have "exec (client_step counting_env) dispatcher_init session ?d5
     \<and> map res_type (d_out ?d5) = [OK, CONNECTION_INFO, QUERY_RESULT, ERROR] \<and> pending_ids ?d5 = {#}"
    by (rule conjI)
  then show ?thesis by (rule exI)
qed

section \<open>Properties\<close>



text \<open>C2: Every final response the worker posts goes to a request that arrived and carries the
  response type of that request or ERROR, whatever the bindings do, and no two posted messages, log and
  progress messages included, share a message id.\<close>

theorem responses_match_requests:
  assumes "exec (dispatcher_step E) dispatcher_init es d"
  shows "(\<forall>r \<in> set (d_out d). final r \<longrightarrow> (\<exists>req \<in> set (requests es). res_requestId r = req_messageId req
           \<and> res_type r \<in> {expected_response (request_type (req_data req)), ERROR}))
       \<and> distinct (map res_messageId (d_out d))"
  using traced_exec [OF assms traced_init] by (auto simp: traced_def good_reply_def fresh_ids_def)

theorem responses_match_requests_witness:
  "\<exists>d. exec (dispatcher_step counting_env) dispatcher_init session d
     \<and> map res_type (d_out d) = [OK, CONNECTION_INFO, QUERY_RESULT, ERROR]
     \<and> distinct (map res_messageId (d_out d))"
proof -
  obtain d where c: "exec (client_step counting_env) dispatcher_init session d"
      "map res_type (d_out d) = [OK, CONNECTION_INFO, QUERY_RESULT, ERROR]"
    using session_runs by (elim exE conjE)
  note d = exec_client [OF c(1)]
  have "distinct (map res_messageId (d_out d))"
    using responses_match_requests [OF d] by (rule conjunct2)
  with c(2) have "exec (dispatcher_step counting_env) dispatcher_init session d
     \<and> map res_type (d_out d) = [OK, CONNECTION_INFO, QUERY_RESULT, ERROR]
     \<and> distinct (map res_messageId (d_out d))"
    by (intro conjI d)
  then show ?thesis by (rule exI)
qed

end
