(* ===== verification/Hb_Cancel.thy ===== *)
theory Hb_Cancel
  imports Hb_Answers
begin

text \<open>
  Cancellation through the shared flag: the dispatcher's four fields always describe one armed interval or
  none, an interval cancels the connection it was armed for and no other, the check at the top of a poll does
  what a tick does, and the watcher does not survive the connection it watches.
\<close>

section \<open>The invariant of the watcher\<close>

definition cancel_inv :: "'b dispatcher \<Rightarrow> bool" where
  "cancel_inv d \<longleftrightarrow> (case d_cancelWatcher d of
     None \<Rightarrow> d_timers d = [] \<and> d_cancelConn d = None \<and> d_cancelInt32 d = None
   | Some t \<Rightarrow> t < d_nextTimer d \<and> (\<exists>c s. d_cancelConn d = Some c \<and> d_cancelInt32 d = Some s \<and> d_timers d = [(t, s)]))"

definition same_watch :: "'b dispatcher \<Rightarrow> 'b dispatcher \<Rightarrow> bool" where
  "same_watch d d' \<longleftrightarrow> d_cancelWatcher d' = d_cancelWatcher d \<and> d_cancelConn d' = d_cancelConn d
     \<and> d_cancelInt32 d' = d_cancelInt32 d \<and> d_timers d' = d_timers d \<and> d_nextTimer d' = d_nextTimer d"

text \<open>What only looks at the watcher is kept by calls of the bindings and by posting messages.\<close>

locale watch_predicate =
  fixes P :: "'b dispatcher \<Rightarrow> bool"
  assumes same: "same_watch d d' \<Longrightarrow> P d \<Longrightarrow> P d'"
begin

lemma keeps_call: "js_keeps P (call m)"
  unfolding js_keeps_def
proof (intro allI impI)
  fix d :: "'b dispatcher"
  assume "P d"
  obtain r d' where c: "call m d = (r, d')" by force
  then have "same_watch d d'" using call_frame [OF c] by (simp add: same_watch_def)
  from same [OF this \<open>P d\<close>] c show "P (snd (call m d))" by simp
qed

lemma keeps_respond: "js_keeps P (respond rid ty dat)"
  by (auto simp: js_keeps_def respond_eq same_watch_def elim!: same [rotated])

lemma keeps_next_id: "js_keeps P next_message_id"
  by (auto simp: js_keeps_def next_message_id_def same_watch_def elim!: same [rotated])

lemma keeps_post: "js_keeps P (postMessage mid rid ty dat)"
  by (auto simp: js_keeps_def postMessage_def same_watch_def elim!: same [rotated])

lemmas keeps_basic = keeps_call keeps_respond keeps_next_id keeps_post js_keeps_rules

lemma keeps_replies:
  "js_keeps P (reply_ok rid m)" "js_keeps P (reply_with rid ty f m')"
  "js_keeps P (reply_lazy rid ty f m')" "js_keeps P (sendOK rid)"
  "js_keeps P (failWith rid e)" "js_keeps P (log entry)"
  unfolding reply_ok_def reply_with_def reply_lazy_def sendOK_def failWith_def log_def
  by (intro keeps_basic)+

lemma keeps_extension_urls: "js_keeps P (extension_urls B names)"
  by (induction names) (auto intro!: keeps_basic)

lemma keeps_prefetch: "js_keeps P (handle_PREFETCH_EXTENSIONS B xhr sig req names)"
  unfolding handle_PREFETCH_EXTENSIONS_def
  by (auto intro!: js_keeps_bind keeps_extension_urls keeps_replies)
    (auto simp: js_keeps_def same_watch_def Let_def split: prod.splits elim!: same [rotated])

lemma keeps_clear: "js_keeps P (js_modify (\<lambda>d. d\<lparr>d_prefetch := clearPrefetchedExtensions (d_prefetch d)\<rparr>))"
  by (auto intro!: js_keeps_modify simp: same_watch_def elim!: same [rotated])

end

interpretation watched: watch_predicate cancel_inv
  by unfold_locales (auto simp: cancel_inv_def same_watch_def split: option.splits)

definition unwatched :: "'b dispatcher \<Rightarrow> bool" where
  "unwatched d \<longleftrightarrow> d_cancelWatcher d = None \<and> d_cancelConn d = None \<and> d_timers d = []"

interpretation idle: watch_predicate unwatched
  by unfold_locales (auto simp: unwatched_def same_watch_def)

lemma cancel_inv_init [simp]: "cancel_inv dispatcher_init"
  by (simp add: cancel_inv_def dispatcher_init_def)

lemma stop_timers: "cancel_inv d \<Longrightarrow> d_timers (stopCancelWatch d) = []"
  by (auto simp: cancel_inv_def stopCancelWatch_def Let_def split: option.splits)

lemma cancel_inv_stop [hb_inv]: "cancel_inv d \<Longrightarrow> cancel_inv (stopCancelWatch d)"
  by (simp add: cancel_inv_def [of "stopCancelWatch d"] stop_timers)

lemma cancel_inv_start [hb_inv]: "cancel_inv d \<Longrightarrow> cancel_inv (startCancelWatch c d)"
  by (auto simp: cancel_inv_def startCancelWatch_def Let_def split: option.splits)

lemma cancel_inv_attempt [hb_inv]: "cancel_inv d \<Longrightarrow> cancel_inv (attemptCancel B i c d)"
  by (rule watched.same [rotated]) (simp_all add: same_watch_def)

lemma keeps_handlers [hb_inv]:
  "js_keeps cancel_inv (handle_RESET B rid)" "js_keeps cancel_inv (handle_OPEN B rid config)"
  "js_keeps cancel_inv (handle_DISCONNECT B rid c)" "js_keeps cancel_inv (handle_START_PENDING_QUERY B rid c txt stream)"
  "js_keeps cancel_inv (handle_POLL_PENDING_QUERY B rid c)" "js_keeps cancel_inv (handle_CANCEL_PENDING_QUERY B rid c)"
  unfolding handle_RESET_def handle_OPEN_def handle_DISCONNECT_def handle_START_PENDING_QUERY_def
    handle_POLL_PENDING_QUERY_def handle_CANCEL_PENDING_QUERY_def
  by (auto intro!: js_keeps_bind js_keeps_modify watched.keeps_clear watched.keeps_call watched.keeps_replies watched.keeps_respond
      cancel_inv_stop cancel_inv_start cancel_inv_attempt split: option.splits)

lemma keeps_dispatch_body: "js_keeps cancel_inv (dispatch_body B xhr sig req)"
  by (cases "req_data req")
    (simp_all add: dispatch_body_def Let_def simple_handler_defs watched.keeps_replies keeps_handlers watched.keeps_prefetch)

lemma keeps_dispatch_catch: "js_keeps cancel_inv (dispatch_catch req e)"
  unfolding dispatch_catch_def
  by (auto intro!: js_keeps_bind js_keeps_modify watched.keeps_replies cancel_inv_stop
      split: option.splits request_data.splits)

lemma cancel_inv_dispatch [hb_inv]: "cancel_inv d \<Longrightarrow> cancel_inv (dispatch B xhr sig req d)"
proof -
  assume inv: "cancel_inv d"
  have "js_keeps cancel_inv (js_try (dispatch_body B xhr sig req) (dispatch_catch req))"
    by (intro js_keeps_try keeps_dispatch_body keeps_dispatch_catch)
  with inv show ?thesis by (simp add: js_keeps_def dispatch_def)
qed

lemma cancel_inv_respond [hb_inv]:
  "cancel_inv d \<Longrightarrow> cancel_inv (snd (sendOK rid d))" "cancel_inv d \<Longrightarrow> cancel_inv (snd (failWith rid e d))"
  "cancel_inv d \<Longrightarrow> cancel_inv (snd (respond rid ty dat d))" "cancel_inv d \<Longrightarrow> cancel_inv (snd (log entry d))"
  using watched.keeps_replies(4-6) watched.keeps_respond unfolding js_keeps_def by blast+

lemma cancel_inv_updates [simp]:
  "cancel_inv (d\<lparr>d_waiting := ws\<rparr>) = cancel_inv d" "cancel_inv (d\<lparr>d_instantiating := is\<rparr>) = cancel_inv d"
  "cancel_inv (d\<lparr>d_prefetching := ps\<rparr>) = cancel_inv d" "cancel_inv (d\<lparr>d_prefetch := p\<rparr>) = cancel_inv d"
  "cancel_inv (d\<lparr>d_bindings := b\<rparr>) = cancel_inv d" "cancel_inv (d\<lparr>d_sabs := f\<rparr>) = cancel_inv d"
  "cancel_inv (d\<lparr>d_oauth := a\<rparr>) = cancel_inv d" "cancel_inv (d\<lparr>d_globalCancel := a\<rparr>) = cancel_inv d"
  by (simp_all add: cancel_inv_def split: option.splits)

lemma cancel_inv_onMessage [hb_inv]: "cancel_inv d \<Longrightarrow> cancel_inv (onMessage B xhr sig req d)"
  by (cases "req_data req") (simp_all add: onMessage_def Let_def cancel_inv_respond cancel_inv_dispatch)

interpretation watch: invariant_machine "dispatcher_step E" cancel_inv
proof
  fix d d' :: "'a dispatcher" and e
  assume "cancel_inv d" "dispatcher_step E d e d'"
  from this(2,1) show "cancel_inv d'"
    by (cases rule: dispatcher_step.cases)
      (auto simp: instantiated_def forwardProgress_def resume_def prefetch_done_def cancelTick_def
        handlePreInitMessage_def Let_def cancel_inv_respond cancel_inv_dispatch cancel_inv_onMessage cancel_inv_attempt
        split: sum.splits request_data.splits option.splits bool.splits worker_message.splits)
qed

lemma keeps_after:
  assumes "P (f d)" "js_keeps P h" "\<And>e. js_keeps P (c e)"
  shows "P (snd (js_try (js_bind (js_modify f) (\<lambda>_. h)) c d))"
proof -
  have "js_bind (js_modify f) (\<lambda>_. h) d = h (f d)" by (simp add: js_defs)
  then have "js_try (js_bind (js_modify f) (\<lambda>_. h)) c d = js_try h c (f d)" by (simp add: js_try_def)
  with js_keeps_try [OF assms(2,3)] assms(1) show ?thesis by (simp add: js_keeps_def)
qed

section \<open>Properties\<close>


lemma armed_runs:
  "\<exists>d. exec (dispatcher_step counting_env) dispatcher_init
       [DE_message (InitCancelSab 0), DE_message (RequestMessage (request 0 (Q_INSTANTIATE ''duckdb.wasm'' None None))),
        DE_instantiated (request 0 (Q_INSTANTIATE ''duckdb.wasm'' None None)) (Inr 0),
        DE_message (RequestMessage (request 1 (Q_START_PENDING_QUERY 3 ''SELECT 1'' False))), DE_flag 0 1] d
     \<and> d_timers d = [(0, 0)] \<and> d_sabs d 0 = 1"
proof -
  let ?i = "request 0 (Q_INSTANTIATE ''duckdb.wasm'' None None)"
  let ?m = "\<lambda>req d. onMessage counting_bindings True True req d"
  let ?d1 = "dispatcher_init\<lparr>d_globalCancel := Some 0\<rparr>"
  let ?d2 = "?m ?i ?d1"
  let ?d3 = "instantiated ?i (Inr 0) ?d2"
  let ?d4 = "?m (request 1 (Q_START_PENDING_QUERY 3 ''SELECT 1'' False)) ?d3"
  let ?d5 = "?d4\<lparr>d_sabs := (d_sabs ?d4)(0 := 1)\<rparr>"
  have m: "dispatcher_step counting_env d (DE_message (RequestMessage r)) (?m r d)" for d r
    using ds_request [of r d d counting_env] by (simp add: handlePreInitMessage_def counting_env_def)
  have e1: "dispatcher_step counting_env dispatcher_init (DE_message (InitCancelSab 0)) ?d1"
    by (rule ds_preinit) (simp add: handlePreInitMessage_def)
  have e3: "dispatcher_step counting_env ?d2 (DE_instantiated ?i (Inr 0)) ?d3"
    by (rule ds_instantiated) (simp add: onMessage_def dispatcher_init_def)
  have "exec (dispatcher_step counting_env) dispatcher_init
       [DE_message (InitCancelSab 0), DE_message (RequestMessage ?i), DE_instantiated ?i (Inr 0),
        DE_message (RequestMessage (request 1 (Q_START_PENDING_QUERY 3 ''SELECT 1'' False))), DE_flag 0 1] ?d5"
    by (rule exec_Cons, rule e1, rule exec_Cons, rule m, rule exec_Cons, rule e3, rule exec_Cons, rule m,
        rule exec_Cons, rule ds_flag, rule exec_Nil)
  moreover have "d_timers ?d5 = [(0, 0)] \<and> d_sabs ?d5 0 = 1"
    by (simp add: onMessage_def instantiated_def dispatch_def dispatch_body_def handle_START_PENDING_QUERY_def
        startCancelWatch_def call_def respond_eq sendOK_def js_try_def js_bind_def js_modify_def js_ret_def
        dispatcher_init_def counting_bindings_def prefetchesRunning_def prefetch_init_def Let_def)
  ultimately show ?thesis by (intro exI [of _ ?d5]) (rule conjI)
qed


text \<open>Dispatching RESET or OPEN leaves no watcher and no interval, and DISCONNECT of the watched
  connection leaves none either, whether the bindings succeed or throw: no later tick can cancel on a
  connection that is gone.\<close>

theorem watcher_does_not_outlive_connection:
  assumes "cancel_inv d"
    and "req_data req = Q_RESET \<or> (\<exists>config. req_data req = Q_OPEN config)
       \<or> (\<exists>c. req_data req = Q_DISCONNECT c \<and> d_cancelConn d = Some c)"
  shows "d_cancelWatcher (dispatch B xhr sig req d) = None \<and> d_cancelConn (dispatch B xhr sig req d) = None
     \<and> d_timers (dispatch B xhr sig req d) = []"
proof -
  have stop: "unwatched (stopCancelWatch d)" using assms(1) by (simp add: unwatched_def stop_timers)
  have catch: "js_keeps unwatched (dispatch_catch req e)" for e
    unfolding dispatch_catch_def
    by (intro js_keeps_bind js_keeps_modify idle.keeps_replies) (auto simp: unwatched_def split: option.splits)
  have "unwatched (dispatch B xhr sig req d)"
    using assms(2)
  proof (elim disjE exE conjE)
    assume "req_data req = Q_RESET"
    then show ?thesis
      unfolding dispatch_def
      by (simp add: dispatch_body_def handle_RESET_def Let_def)
        (rule keeps_after, rule stop, auto intro!: js_keeps_bind idle.keeps_clear idle.keeps_replies catch)
  next
    fix config assume "req_data req = Q_OPEN config"
    then show ?thesis
      unfolding dispatch_def
      by (simp add: dispatch_body_def handle_OPEN_def Let_def)
        (rule keeps_after, rule stop, auto split: option.splits intro!: js_keeps_bind idle.keeps_call idle.keeps_replies catch)
  next
    fix c assume "req_data req = Q_DISCONNECT c" "d_cancelConn d = Some c"
    then show ?thesis
      unfolding dispatch_def
      by (simp add: dispatch_body_def handle_DISCONNECT_def)
        (rule keeps_after, simp_all add: stop idle.keeps_replies catch)
  qed
  then show ?thesis by (simp add: unwatched_def)
qed

theorem watcher_does_not_outlive_connection_witness:
  "let d = startCancelWatch 4 (dispatcher_init\<lparr>d_globalCancel := Some 0, d_bindings := Some 0\<rparr>)
   in d_cancelConn d = Some 4 \<and> d_timers d = [(0, 0)]
    \<and> d_timers (dispatch counting_bindings True True (request 1 (Q_DISCONNECT 4)) d) = []"
proof -
  let ?d = "startCancelWatch 4 (dispatcher_init\<lparr>d_globalCancel := Some 0, d_bindings := Some (0 :: nat)\<rparr>)"
  have "cancel_inv ?d" by (rule cancel_inv_start) simp
  moreover have w: "d_cancelConn ?d = Some 4" "d_timers ?d = [(0, 0)]"
    by (simp_all add: startCancelWatch_def dispatcher_init_def)
  ultimately have "d_timers (dispatch counting_bindings True True (request 1 (Q_DISCONNECT 4)) ?d) = []"
    using watcher_does_not_outlive_connection [of ?d "request 1 (Q_DISCONNECT 4)" counting_bindings True True] by simp
  with w show ?thesis by (simp only: Let_def simp_thms)
qed

text \<open>Polling the watched connection is equivalent to a tick of its interval followed by the poll,
  as long as the cancellation does not throw: the check at the top of the poll neither loses a flag that is set
  nor cancels twice.\<close>

theorem poll_subsumes_tick:
  assumes "d_cancelConn d = Some c" "d_cancelInt32 d = Some s" "req_data req = Q_POLL_PENDING_QUERY c"
    and "d_bindings d = Some b" "\<exists>r. fst (b_cancelPendingQuery B c b) = Inr r"
  shows "dispatch B xhr sig req d = dispatch B xhr sig req (cancelTick B s d)"
proof (cases "d_sabs d s = 1")
  case False
  then show ?thesis by (simp add: cancelTick_def)
next
  case True
  let ?d = "attemptCancel B s (Some c) d"
  have tick: "cancelTick B s d = ?d" using True assms(1) by (simp add: cancelTick_def)
  have zero: "d_sabs ?d s = 0"
    using assms(4,5) by (auto simp: attemptCancel_def call_def split: prod.splits)
  have "dispatch_body B xhr sig req d = dispatch_body B xhr sig req ?d"
    using assms True zero
    by (simp add: dispatch_body_def handle_POLL_PENDING_QUERY_def js_bind_def js_modify_def)
  then show ?thesis by (simp add: tick dispatch_def js_try_def)
qed

theorem poll_subsumes_tick_witness:
  "let d = (startCancelWatch 0 (dispatcher_init\<lparr>d_globalCancel := Some 0, d_bindings := Some 0\<rparr>))\<lparr>d_sabs := (\<lambda>_. 1)\<rparr>;
       req = request 1 (Q_POLL_PENDING_QUERY 0)
   in dispatch counting_bindings True True req d
        = dispatch counting_bindings True True req (cancelTick counting_bindings 0 d)
    \<and> cancelTick counting_bindings 0 d \<noteq> d"
proof -
  let ?d = "(startCancelWatch 0 (dispatcher_init\<lparr>d_globalCancel := Some 0, d_bindings := Some (0 :: nat)\<rparr>))
     \<lparr>d_sabs := (\<lambda>_. 1)\<rparr>"
  have w: "d_cancelConn ?d = Some 0" "d_cancelInt32 ?d = Some 0" "d_bindings ?d = Some 0" "d_sabs ?d 0 = 1"
    by (simp_all add: startCancelWatch_def dispatcher_init_def)
  have c: "b_cancelPendingQuery counting_bindings 0 0 = (Inr True, 0)"
    by (simp add: counting_bindings_def js_ret_def)
  then have "\<exists>r. fst (b_cancelPendingQuery counting_bindings 0 0) = Inr r" by (intro exI [of _ True]) simp
  from poll_subsumes_tick [OF w(1,2) _ w(3) this, of "request 1 (Q_POLL_PENDING_QUERY 0)" True True]
  have eq: "dispatch counting_bindings True True (request 1 (Q_POLL_PENDING_QUERY 0)) ?d
     = dispatch counting_bindings True True (request 1 (Q_POLL_PENDING_QUERY 0)) (cancelTick counting_bindings 0 ?d)"
    by simp
  have "d_sabs (cancelTick counting_bindings 0 ?d) 0 = 0"
    using w c by (simp add: cancelTick_def attemptCancel_def call_def)
  with w(4) have "cancelTick counting_bindings 0 ?d \<noteq> ?d" by (metis zero_neq_one)
  with eq show ?thesis by (simp only: Let_def simp_thms)
qed

section \<open>A poll of another connection\<close>

text \<open>
  The end of a poll disarms the watcher without comparing connections: when the poll of an unwatched
  connection completes, the query that is watched loses its watcher while it is still pending.
\<close>

lemma poll_of_other_connection_disarms:
  assumes "cancel_inv d" "d_cancelConn d = Some c" "c \<noteq> c'" "d_bindings d = Some b"
    and "b_pollPendingQuery B c' b = (Inr (Some header), b')"
  shows "unwatched (dispatch B xhr sig \<lparr>req_messageId = i, req_data = Q_POLL_PENDING_QUERY c'\<rparr> d)"
proof -
  let ?d = "d\<lparr>d_bindings := Some b'\<rparr>"
  have "unwatched (stopCancelWatch ?d)" using assms(1) by (simp add: unwatched_def stop_timers)
  then have "unwatched (snd (respond i QUERY_RESULT_HEADER_OR_NULL (D_buffer (Some header)) (stopCancelWatch ?d)))"
    using idle.keeps_respond by (auto simp: js_keeps_def)
  moreover have "(case d_cancelInt32 d of Some s \<Rightarrow> if d_cancelConn d = Some c' \<and> d_sabs d s = 1
      then attemptCancel B s (d_cancelConn d) d else d | None \<Rightarrow> d) = d"
    using assms(2,3) by (auto split: option.splits)
  ultimately show ?thesis
    using assms by (simp add: dispatch_def dispatch_body_def handle_POLL_PENDING_QUERY_def js_try_def js_bind_def
        js_modify_def call_def respond_eq)
qed

end
