(* ===== verification/Hb_AsyncDuckDB.thy ===== *)
theory Hb_AsyncDuckDB
  imports Hb_Protocol
begin

text \<open>
  The page's side of the request protocol: \<open>AsyncDuckDB\<close> (\<open>parallel/async_bindings.ts\<close>) and the OPFS
  helpers of \<open>utils/opfs_util.ts\<close>.

  A worker is its identity. The state of the client is the class's fields together with what it has handed to
  the outside: the messages posted to workers, the settled promises of its tasks (keyed by the message id of the
  task), the log entries and the progress callbacks it has called. The tasks that were thrown away by \<open>onError\<close>
  leave no trace in the code; the model does not keep them either.
\<close>

section \<open>State\<close>

datatype settlement = Resolved response_data | Rejected js_error

datatype client_message = PostRequest WorkerRequest | PostCancelSab nat

record async_db =
  a_worker :: "nat option"
  a_listening :: "nat list"
  a_terminated :: "nat list"
  a_shutdownPromise :: "nat option"
  a_shutdownResolver :: "nat option"
  a_nextShutdown :: nat
  a_shutdownResolved :: "nat list"
  a_nextMessageId :: nat
  a_pending :: "(nat, request_data) jsmap"
  a_settled :: "(nat \<times> settlement) list"
  a_onInstantiationProgress :: "nat list"
  a_onExecutionProgress :: "nat list"
  a_config :: DuckDBConfig
  a_posted :: "(nat \<times> client_message) list"
  a_logged :: "LogEntry list"
  a_called :: "(nat \<times> response_data) list"

definition attach :: "nat \<Rightarrow> async_db \<Rightarrow> async_db" where
  "attach w a = a\<lparr>a_worker := Some w, a_listening := List.insert w (a_listening a),
     a_shutdownPromise := Some (a_nextShutdown a), a_shutdownResolver := Some (a_nextShutdown a),
     a_nextShutdown := Suc (a_nextShutdown a)\<rparr>"

definition AsyncDuckDB :: "nat option \<Rightarrow> async_db" where
  "AsyncDuckDB w =
     (let a = \<lparr>a_worker = None, a_listening = [], a_terminated = [], a_shutdownPromise = None,
        a_shutdownResolver = None, a_nextShutdown = 0, a_shutdownResolved = [], a_nextMessageId = 0,
        a_pending = [], a_settled = [], a_onInstantiationProgress = [], a_onExecutionProgress = [],
        a_config = empty_config, a_posted = [], a_logged = [], a_called = []\<rparr>
      in case w of None \<Rightarrow> a | Some v \<Rightarrow> attach v a)"

text \<open>Calling the resolver; after \<open>detach\<close> or \<open>terminate\<close> it is the empty function.\<close>

definition resolveShutdown :: "async_db \<Rightarrow> async_db" where
  "resolveShutdown a = (case a_shutdownResolver a of
     None \<Rightarrow> a | Some p \<Rightarrow> a\<lparr>a_shutdownResolved := List.insert p (a_shutdownResolved a)\<rparr>)"

definition detach :: "async_db \<Rightarrow> async_db" where
  "detach a = (case a_worker a of
     None \<Rightarrow> a
   | Some w \<Rightarrow> (resolveShutdown (a\<lparr>a_listening := removeAll w (a_listening a), a_worker := None\<rparr>))
       \<lparr>a_shutdownPromise := None, a_shutdownResolver := None\<rparr>)"

definition terminate :: "async_db \<Rightarrow> async_db" where
  "terminate a = (case a_worker a of
     None \<Rightarrow> a
   | Some w \<Rightarrow> a\<lparr>a_terminated := List.insert w (a_terminated a), a_worker := None, a_shutdownPromise := None,
       a_shutdownResolver := None\<rparr>)"

definition isDetached :: "async_db \<Rightarrow> bool" where
  "isDetached a \<longleftrightarrow> a_worker a = None"

text \<open>A caller may pass anything as the buffer: a shared buffer with its size, or something else.\<close>

datatype sab_argument = SharedBuffer nat nat | NotShared

definition registerCancelSAB :: "bool \<Rightarrow> sab_argument \<Rightarrow> (async_db, unit) jsm" where
  "registerCancelSAB sab_support sab =
     (if \<not> sab_support
      then js_throw (TypeError ''registerCancelSAB requires SharedArrayBuffer support (cross-origin isolation must be enabled)'')
      else (case sab of
        NotShared \<Rightarrow> js_throw (TypeError ''registerCancelSAB requires a SharedArrayBuffer (got a non-shared buffer)'')
      | SharedBuffer i n \<Rightarrow>
          if n < 4
          then js_throw (RangeError (''registerCancelSAB requires at least 4 bytes for the Int32 flag (got ''
                 @ show_nat n @ '')''))
          else js_modify (\<lambda>a. case a_worker a of
                 None \<Rightarrow> a | Some w \<Rightarrow> a\<lparr>a_posted := a_posted a @ [(w, PostCancelSab i)]\<rparr>)))"

section \<open>Tasks\<close>

text \<open>\<open>postTask\<close> up to its \<open>await\<close>: the id of the task it waits for, or nothing when no worker is attached (the
  caller then gets \<open>undefined\<close>).\<close>

definition postTask :: "request_data \<Rightarrow> async_db \<Rightarrow> nat option \<times> async_db" where
  "postTask task a = (case a_worker a of
     None \<Rightarrow> (None, a)
   | Some w \<Rightarrow>
       let mid = a_nextMessageId a
       in (Some mid, a\<lparr>a_nextMessageId := Suc mid, a_pending := jm_set mid task (a_pending a),
             a_posted := a_posted a @ [(w, PostRequest \<lparr>req_messageId = mid, req_data = task\<rparr>)]\<rparr>))"

definition settle :: "nat \<Rightarrow> settlement \<Rightarrow> async_db \<Rightarrow> async_db" where
  "settle mid s a = a\<lparr>a_settled := a_settled a @ [(mid, s)]\<rparr>"

fun response_type_name :: "WorkerResponseType \<Rightarrow> string" where
  "response_type_name CONNECTION_INFO = ''CONNECTION_INFO''"
| "response_type_name ERROR = ''ERROR''"
| "response_type_name FEATURE_FLAGS = ''FEATURE_FLAGS''"
| "response_type_name FILE_BUFFER = ''FILE_BUFFER''"
| "response_type_name FILE_INFOS = ''FILE_INFOS''"
| "response_type_name FILE_SIZE = ''FILE_SIZE''"
| "response_type_name FILE_STATISTICS = ''FILE_STATISTICS''"
| "response_type_name INSTANTIATE_PROGRESS = ''INSTANTIATE_PROGRESS''"
| "response_type_name INTERRUPT_HANDLE = ''INTERRUPT_HANDLE''"
| "response_type_name LOG = ''LOG''"
| "response_type_name PROGRESS_UPDATE = ''PROGRESS_UPDATE''"
| "response_type_name OK = ''OK''"
| "response_type_name PREPARED_STATEMENT_ID = ''PREPARED_STATEMENT_ID''"
| "response_type_name QUERY_PLAN = ''QUERY_PLAN''"
| "response_type_name QUERY_RESULT = ''QUERY_RESULT''"
| "response_type_name QUERY_RESULT_CHUNK = ''QUERY_RESULT_CHUNK''"
| "response_type_name QUERY_RESULT_HEADER = ''QUERY_RESULT_HEADER''"
| "response_type_name QUERY_RESULT_HEADER_OR_NULL = ''QUERY_RESULT_HEADER_OR_NULL''"
| "response_type_name REGISTERED_FILE = ''REGISTERED_FILE''"
| "response_type_name SCRIPT_TOKENS = ''SCRIPT_TOKENS''"
| "response_type_name SUCCESS_RESPONSE = ''SUCCESS''"
| "response_type_name TABLE_NAMES = ''TABLE_NAMES''"
| "response_type_name VERSION_STRING = ''VERSION_STRING''"

text \<open>The switch over the type of the task: which response type resolves it.\<close>

fun accepts :: "WorkerRequestType \<Rightarrow> WorkerResponseType \<Rightarrow> bool" where
  "accepts CLOSE_PREPARED r = (r = OK)"
| "accepts COLLECT_FILE_STATISTICS r = (r = OK)"
| "accepts REGISTER_OPFS_FILE_NAME r = (r = OK)"
| "accepts COPY_FILE_TO_PATH r = (r = OK)"
| "accepts DISCONNECT r = (r = OK)"
| "accepts DROP_FILE r = (r = OK)"
| "accepts DROP_FILES r = (r = OK)"
| "accepts FLUSH_FILES r = (r = OK)"
| "accepts INSERT_ARROW_FROM_IPC_STREAM r = (r = OK)"
| "accepts INSERT_CSV_FROM_PATH r = (r = OK)"
| "accepts INSERT_JSON_FROM_PATH r = (r = OK)"
| "accepts OPEN r = (r = OK)"
| "accepts PING r = (r = OK)"
| "accepts PREFETCH_EXTENSIONS r = (r = OK)"
| "accepts REGISTER_FILE_BUFFER r = (r = OK)"
| "accepts REGISTER_FILE_HANDLE r = (r = OK)"
| "accepts REGISTER_FILE_URL r = (r = OK)"
| "accepts RESET r = (r = OK)"
| "accepts INSTANTIATE r = (r = OK)"
| "accepts GLOB_FILE_INFOS r = (r = FILE_INFOS)"
| "accepts GET_VERSION r = (r = VERSION_STRING)"
| "accepts GET_FEATURE_FLAGS r = (r = FEATURE_FLAGS)"
| "accepts GET_TABLE_NAMES r = (r = TABLE_NAMES)"
| "accepts TOKENIZE r = (r = SCRIPT_TOKENS)"
| "accepts COPY_FILE_TO_BUFFER r = (r = FILE_BUFFER)"
| "accepts EXPORT_FILE_STATISTICS r = (r = FILE_STATISTICS)"
| "accepts CONNECT r = (r = CONNECTION_INFO)"
| "accepts RUN_PREPARED r = (r = QUERY_RESULT)"
| "accepts RUN_QUERY r = (r = QUERY_RESULT)"
| "accepts SEND_PREPARED r = (r = QUERY_RESULT_HEADER)"
| "accepts START_PENDING_QUERY r = (r = QUERY_RESULT_HEADER_OR_NULL)"
| "accepts POLL_PENDING_QUERY r = (r = QUERY_RESULT_HEADER_OR_NULL)"
| "accepts GET_INTERRUPT_HANDLE r = (r = INTERRUPT_HANDLE)"
| "accepts CANCEL_PENDING_QUERY r = (r = SUCCESS_RESPONSE)"
| "accepts FETCH_QUERY_RESULTS r = (r = QUERY_RESULT_CHUNK)"
| "accepts CREATE_PREPARED r = (r = PREPARED_STATEMENT_ID)"

text \<open>The error rebuilt from the fields of an ERROR response.\<close>

definition response_error :: "response_data \<Rightarrow> js_error" where
  "response_error dat = (case dat of D_error e \<Rightarrow> JsError (err_name e) (err_message e) | _ \<Rightarrow> JsError [] [])"

text \<open>A message from the worker: a response, or one that engine code posted with a string as its type.\<close>

datatype worker_output = FromDispatcher WorkerResponse | FromGlue string

definition onResponse :: "WorkerResponse \<Rightarrow> async_db \<Rightarrow> async_db" where
  "onResponse r a =
     (let rid = res_requestId r; dat = res_data r in
      case jm_get (a_pending a) rid of
        None \<Rightarrow> a
      | Some task \<Rightarrow>
          let a = a\<lparr>a_pending := jm_delete rid (a_pending a)\<rparr> in
          if res_type r = ERROR then settle rid (Rejected (response_error dat)) a
          else
            let a = (if request_type task \<in> {INSTANTIATE, CANCEL_PENDING_QUERY}
                     then a\<lparr>a_onInstantiationProgress := []\<rparr> else a)
            in if accepts (request_type task) (res_type r) then settle rid (Resolved dat) a
               else settle rid (Rejected (Error (''unexpected response type: '' @ response_type_name (res_type r)))) a)"

definition onClientMessage :: "worker_output \<Rightarrow> async_db \<Rightarrow> async_db" where
  "onClientMessage m a = (case m of
     FromGlue _ \<Rightarrow> a
   | FromDispatcher r \<Rightarrow>
       (case res_type r of
          PROGRESS_UPDATE \<Rightarrow> a\<lparr>a_called := a_called a @ map (\<lambda>p. (p, res_data r)) (a_onExecutionProgress a)\<rparr>
        | LOG \<Rightarrow> (case res_data r of D_log entry \<Rightarrow> a\<lparr>a_logged := a_logged a @ [entry]\<rparr> | _ \<Rightarrow> a)
        | INSTANTIATE_PROGRESS \<Rightarrow> a\<lparr>a_called := a_called a @ map (\<lambda>p. (p, res_data r)) (a_onInstantiationProgress a)\<rparr>
        | _ \<Rightarrow> onResponse r a))"

definition onError :: "async_db \<Rightarrow> async_db" where
  "onError a = a\<lparr>a_pending := []\<rparr>"

definition onClose :: "async_db \<Rightarrow> async_db" where
  "onClose a = (let a = resolveShutdown a in if jm_size (a_pending a) \<noteq> 0 then a else a\<lparr>a_pending := []\<rparr>)"

end
