(* ===== verification/Hb_AsyncApi.thy ===== *)
theory Hb_AsyncApi
  imports Hb_AsyncDuckDB
begin

text \<open>
  The methods of \<open>AsyncDuckDB\<close> (\<open>parallel/async_bindings.ts\<close>) and the search for OPFS files in a script
  (\<open>utils/opfs_util.ts\<close>).

  A method that posts one task is the posting; its promise is that task's. A method that awaits several tasks in
  a row is written over \<open>rpc\<close>, the round trip of one request, which is a parameter here: the request protocol
  provides it.
\<close>

section \<open>Methods that post one task\<close>

definition async_reset :: "async_db \<Rightarrow> nat option \<times> async_db" where
  "async_reset = postTask Q_RESET"

definition async_ping :: "async_db \<Rightarrow> nat option \<times> async_db" where
  "async_ping = postTask Q_PING"

definition async_dropFile :: "string \<Rightarrow> async_db \<Rightarrow> nat option \<times> async_db" where
  "async_dropFile name = postTask (Q_DROP_FILE name)"

definition async_dropFiles :: "string list option \<Rightarrow> async_db \<Rightarrow> nat option \<times> async_db" where
  "async_dropFiles names = postTask (Q_DROP_FILES names)"

definition async_flushFiles :: "async_db \<Rightarrow> nat option \<times> async_db" where
  "async_flushFiles = postTask Q_FLUSH_FILES"

definition async_instantiate :: "string \<Rightarrow> string option \<Rightarrow> nat option \<Rightarrow> async_db \<Rightarrow> nat option \<times> async_db" where
  "async_instantiate mainModuleURL pthreadWorkerURL progress a =
     (let a = (case progress of
                 None \<Rightarrow> a | Some p \<Rightarrow> a\<lparr>a_onInstantiationProgress := a_onInstantiationProgress a @ [p]\<rparr>)
      in postTask (Q_INSTANTIATE mainModuleURL pthreadWorkerURL (Some (length (a_onInstantiationProgress a) > 0))) a)"

definition async_getVersion :: "async_db \<Rightarrow> nat option \<times> async_db" where
  "async_getVersion = postTask Q_GET_VERSION"

definition async_getFeatureFlags :: "async_db \<Rightarrow> nat option \<times> async_db" where
  "async_getFeatureFlags = postTask Q_GET_FEATURE_FLAGS"

definition async_open :: "DuckDBConfig \<Rightarrow> async_db \<Rightarrow> nat option \<times> async_db" where
  "async_open config a = postTask (Q_OPEN config) (a\<lparr>a_config := config\<rparr>)"

definition async_prefetchExtensions :: "string list \<Rightarrow> async_db \<Rightarrow> nat option \<times> async_db" where
  "async_prefetchExtensions names = postTask (Q_PREFETCH_EXTENSIONS names)"

definition async_tokenize :: "string \<Rightarrow> async_db \<Rightarrow> nat option \<times> async_db" where
  "async_tokenize txt = postTask (Q_TOKENIZE txt)"

definition async_connectInternal :: "async_db \<Rightarrow> nat option \<times> async_db" where
  "async_connectInternal = postTask Q_CONNECT"

definition async_disconnect :: "nat \<Rightarrow> async_db \<Rightarrow> nat option \<times> async_db" where
  "async_disconnect conn = postTask (Q_DISCONNECT conn)"

definition async_pollPendingQuery :: "nat \<Rightarrow> async_db \<Rightarrow> nat option \<times> async_db" where
  "async_pollPendingQuery conn = postTask (Q_POLL_PENDING_QUERY conn)"

definition async_cancelPendingQuery :: "nat \<Rightarrow> async_db \<Rightarrow> nat option \<times> async_db" where
  "async_cancelPendingQuery conn = postTask (Q_CANCEL_PENDING_QUERY conn)"

definition async_getInterruptHandle :: "nat \<Rightarrow> async_db \<Rightarrow> nat option \<times> async_db" where
  "async_getInterruptHandle conn = postTask (Q_GET_INTERRUPT_HANDLE conn)"

definition async_fetchQueryResults :: "nat \<Rightarrow> async_db \<Rightarrow> nat option \<times> async_db" where
  "async_fetchQueryResults conn = postTask (Q_FETCH_QUERY_RESULTS conn)"

definition async_getTableNames :: "nat \<Rightarrow> string \<Rightarrow> async_db \<Rightarrow> nat option \<times> async_db" where
  "async_getTableNames conn txt = postTask (Q_GET_TABLE_NAMES conn txt)"

definition async_createPrepared :: "nat \<Rightarrow> string \<Rightarrow> async_db \<Rightarrow> nat option \<times> async_db" where
  "async_createPrepared conn txt = postTask (Q_CREATE_PREPARED conn txt)"

definition async_closePrepared :: "nat \<Rightarrow> nat \<Rightarrow> async_db \<Rightarrow> nat option \<times> async_db" where
  "async_closePrepared conn statement = postTask (Q_CLOSE_PREPARED conn statement)"

definition async_runPrepared :: "nat \<Rightarrow> nat \<Rightarrow> json list \<Rightarrow> async_db \<Rightarrow> nat option \<times> async_db" where
  "async_runPrepared conn statement params = postTask (Q_RUN_PREPARED conn statement params)"

definition async_sendPrepared :: "nat \<Rightarrow> nat \<Rightarrow> json list \<Rightarrow> async_db \<Rightarrow> nat option \<times> async_db" where
  "async_sendPrepared conn statement params = postTask (Q_SEND_PREPARED conn statement params)"

definition async_globFiles :: "string \<Rightarrow> async_db \<Rightarrow> nat option \<times> async_db" where
  "async_globFiles p = postTask (Q_GLOB_FILE_INFOS p)"

definition async_registerFileBuffer :: "string \<Rightarrow> byte list \<Rightarrow> async_db \<Rightarrow> nat option \<times> async_db" where
  "async_registerFileBuffer name buffer = postTask (Q_REGISTER_FILE_BUFFER name buffer)"

definition async_registerFileText :: "string \<Rightarrow> string \<Rightarrow> async_db \<Rightarrow> nat option \<times> async_db" where
  "async_registerFileText name txt = async_registerFileBuffer name (text_encode txt)"

text \<open>\<open>url\<close> may be \<open>undefined\<close>.\<close>

definition async_registerFileURL ::
  "string \<Rightarrow> string option \<Rightarrow> DuckDBDataProtocol \<Rightarrow> bool \<Rightarrow> async_db \<Rightarrow> nat option \<times> async_db" where
  "async_registerFileURL name url proto directIO =
     postTask (Q_REGISTER_FILE_URL name (case url of None \<Rightarrow> name | Some u \<Rightarrow> u) proto directIO)"

definition async_registerEmptyFileBuffer :: "string \<Rightarrow> async_db \<Rightarrow> nat option \<times> async_db" where
  "async_registerEmptyFileBuffer name a = (None, a)"

definition async_registerFileHandle ::
  "string \<Rightarrow> file_handle \<Rightarrow> DuckDBDataProtocol \<Rightarrow> bool \<Rightarrow> async_db \<Rightarrow> nat option \<times> async_db" where
  "async_registerFileHandle name handle proto directIO = postTask (Q_REGISTER_FILE_HANDLE name handle proto directIO)"

definition async_registerOPFSFileName :: "string \<Rightarrow> async_db \<Rightarrow> nat option \<times> async_db" where
  "async_registerOPFSFileName name = postTask (Q_REGISTER_OPFS_FILE_NAME name)"

definition async_collectFileStatistics :: "string \<Rightarrow> bool \<Rightarrow> async_db \<Rightarrow> nat option \<times> async_db" where
  "async_collectFileStatistics name en = postTask (Q_COLLECT_FILE_STATISTICS name en)"

definition async_exportFileStatistics :: "string \<Rightarrow> async_db \<Rightarrow> nat option \<times> async_db" where
  "async_exportFileStatistics name = postTask (Q_EXPORT_FILE_STATISTICS name)"

definition async_copyFileToBuffer :: "string \<Rightarrow> async_db \<Rightarrow> nat option \<times> async_db" where
  "async_copyFileToBuffer name = postTask (Q_COPY_FILE_TO_BUFFER name)"

definition async_copyFileToPath :: "string \<Rightarrow> string \<Rightarrow> async_db \<Rightarrow> nat option \<times> async_db" where
  "async_copyFileToPath name p = postTask (Q_COPY_FILE_TO_PATH name p)"

definition async_insertArrowFromIPCStream ::
  "nat \<Rightarrow> byte list \<Rightarrow> ArrowInsertOptions option \<Rightarrow> async_db \<Rightarrow> nat option \<times> async_db" where
  "async_insertArrowFromIPCStream conn buffer options a =
     (if length buffer = 0 then (None, a) else postTask (Q_INSERT_ARROW_FROM_IPC_STREAM conn buffer options) a)"

text \<open>The flattening of the column types happens before the task is posted; a type without a SQL name throws
  there.\<close>

definition csv_flatten :: "CSVInsertOptions \<Rightarrow> CSVInsertOptions res" where
  "csv_flatten options = (case csv_columns options of
     None \<Rightarrow> Inr options
   | Some cs \<Rightarrow> (case flatten_columns cs of
        Inl e \<Rightarrow> Inl e
      | Inr out \<Rightarrow> Inr (options\<lparr>csv_columnsFlat := Some out, csv_columns := None\<rparr>)))"

definition json_flatten :: "JSONInsertOptions \<Rightarrow> JSONInsertOptions res" where
  "json_flatten options = (case json_columns options of
     None \<Rightarrow> Inr options
   | Some cs \<Rightarrow> (case flatten_columns cs of
        Inl e \<Rightarrow> Inl e
      | Inr out \<Rightarrow> Inr (options\<lparr>json_columnsFlat := Some out, json_columns := None\<rparr>)))"

definition async_insertCSVFromPath ::
  "nat \<Rightarrow> string \<Rightarrow> CSVInsertOptions \<Rightarrow> async_db \<Rightarrow> nat option res \<times> async_db" where
  "async_insertCSVFromPath conn p options a = (case csv_flatten options of
     Inl e \<Rightarrow> (Inl e, a)
   | Inr o1 \<Rightarrow> (case postTask (Q_INSERT_CSV_FROM_PATH conn p o1) a of (m, a') \<Rightarrow> (Inr m, a')))"

definition async_insertJSONFromPath ::
  "nat \<Rightarrow> string \<Rightarrow> JSONInsertOptions \<Rightarrow> async_db \<Rightarrow> nat option res \<times> async_db" where
  "async_insertJSONFromPath conn p options a = (case json_flatten options of
     Inl e \<Rightarrow> (Inl e, a)
   | Inr o1 \<Rightarrow> (case postTask (Q_INSERT_JSON_FROM_PATH conn p o1) a of (m, a') \<Rightarrow> (Inr m, a')))"

section \<open>OPFS files named in a script\<close>

text \<open>\<open>\S*?'\<close> after the prefix: the shortest run of non-space characters before a quote, and the text after it.\<close>

fun until_quote :: "string \<Rightarrow> (string \<times> string) option" where
  "until_quote [] = None"
| "until_quote (c # s) =
     (if c = CHR 0x27 then Some ([], s)
      else if at_space (c # s) then None
      else (case until_quote s of None \<Rightarrow> None | Some (body, rest) \<Rightarrow> Some (c # body, rest)))"

lemma until_quote_length: "until_quote s = Some (body, rest) \<Longrightarrow> length rest < length s"
  by (induction s arbitrary: body rest) (fastforce split: if_splits option.splits)+

text \<open>\<open>matchAll\<close> of the global expression: at each position a match, or one character further.\<close>

function searchOPFSFiles :: "string \<Rightarrow> string list" where
  "searchOPFSFiles [] = []"
| "searchOPFSFiles (c # s) =
     (if starts_with (CHR 0x27 # ''opfs://'') (c # s)
      then (case until_quote (drop 8 (c # s)) of
              None \<Rightarrow> searchOPFSFiles s
            | Some (body, rest) \<Rightarrow> (''opfs://'' @ body) # searchOPFSFiles rest)
      else searchOPFSFiles s)"
  by pat_completeness auto
termination
  by (relation "measure length") (auto dest!: until_quote_length)

definition isOPFSProtocol :: "string \<Rightarrow> bool" where
  "isOPFSProtocol p \<longleftrightarrow> contains ''opfs://'' p"

definition shouldOPFSFileHandling :: "DuckDBConfig \<Rightarrow> bool" where
  "shouldOPFSFileHandling config \<longleftrightarrow>
     isOPFSProtocol (case path config of None \<Rightarrow> [] | Some p \<Rightarrow> p) \<and> opfs config = Some (Some Auto)"

fun registerOPFSFiles :: "(request_data \<Rightarrow> ('w, response_data) jsm) \<Rightarrow> string list \<Rightarrow> ('w, string list) jsm" where
  "registerOPFSFiles rpc [] = js_ret []"
| "registerOPFSFiles rpc (file # files) =
     js_bind (js_try (rpc (Q_REGISTER_OPFS_FILE_NAME file)) (\<lambda>_. js_throw (Error (''File Not found:'' @ file)))) (\<lambda>_.
     js_bind (registerOPFSFiles rpc files) (\<lambda>result. js_ret (file # result)))"

definition registerOPFSFileFromSQL :: "(request_data \<Rightarrow> ('w, response_data) jsm) \<Rightarrow> string \<Rightarrow> ('w, string list) jsm" where
  "registerOPFSFileFromSQL rpc txt = registerOPFSFiles rpc (searchOPFSFiles txt)"

definition with_opfs_files ::
  "(request_data \<Rightarrow> ('w, response_data) jsm) \<Rightarrow> DuckDBConfig \<Rightarrow> string \<Rightarrow> request_data \<Rightarrow> ('w, response_data) jsm" where
  "with_opfs_files rpc config txt task =
     (if shouldOPFSFileHandling config
      then js_bind (registerOPFSFileFromSQL rpc txt) (\<lambda>files.
             js_ensure (rpc task)
               (if length files > 0 then js_bind (rpc (Q_DROP_FILES (Some files))) (\<lambda>_. js_ret ()) else js_ret ()))
      else rpc task)"

definition async_runQuery ::
  "(request_data \<Rightarrow> ('w, response_data) jsm) \<Rightarrow> DuckDBConfig \<Rightarrow> nat \<Rightarrow> string \<Rightarrow> ('w, response_data) jsm" where
  "async_runQuery rpc config conn txt = with_opfs_files rpc config txt (Q_RUN_QUERY conn txt)"

definition async_startPendingQuery ::
  "(request_data \<Rightarrow> ('w, response_data) jsm) \<Rightarrow> DuckDBConfig \<Rightarrow> nat \<Rightarrow> string \<Rightarrow> bool \<Rightarrow> ('w, response_data) jsm" where
  "async_startPendingQuery rpc config conn txt allowStreamResult =
     with_opfs_files rpc config txt (Q_START_PENDING_QUERY conn txt allowStreamResult)"

section \<open>What the search finds\<close>

abbreviation quote :: char where "quote \<equiv> CHR 0x27"

fun no_space :: "string \<Rightarrow> bool" where
  "no_space [] = True"
| "no_space (c # s) = (\<not> at_space (c # s) \<and> no_space s)"

text \<open>The names the search is for: the scheme, then neither quotes nor white space.\<close>

definition opfs_name :: "string \<Rightarrow> bool" where
  "opfs_name f \<longleftrightarrow> starts_with ''opfs://'' f \<and> quote \<notin> set (drop 7 f) \<and> no_space (drop 7 f)"

text \<open>A script: quoted names, each after some text.\<close>

fun script :: "(string \<times> string) list \<Rightarrow> string \<Rightarrow> string" where
  "script [] rest = rest"
| "script ((txt, f) # xs) rest = txt @ quote # f @ quote # script xs rest"

lemma spaces_without_quote: "w \<in> set js_spaces \<Longrightarrow> quote \<notin> set w"
  by (auto simp: js_spaces_def)

lemma starts_with_before: "q \<notin> set w \<Longrightarrow> starts_with w (u @ q # v) = starts_with w u"
  by (induction w u rule: starts_with.induct) auto

lemma at_space_quote [simp]: "at_space (u @ quote # v) = at_space u"
  unfolding at_space_def list_ex_iff
  by (rule bex_cong [OF refl]) (rule starts_with_before [OF spaces_without_quote])

lemma at_space_quote_Cons [simp]: "at_space (c # u @ quote # v) = at_space (c # u)"
  using at_space_quote [of "c # u" v] by simp

lemma until_quote_name:
  "quote \<notin> set body \<Longrightarrow> no_space body \<Longrightarrow> until_quote (body @ quote # rest) = Some (body, rest)"
  by (induction body) auto

lemma until_quoteD:
  "until_quote s = Some (body, rest) \<Longrightarrow> s = body @ quote # rest \<and> quote \<notin> set body \<and> no_space body"
proof (induction s arbitrary: body rest)
  case (Cons c s)
  show ?case
  proof (cases "c = quote")
    case False
    with Cons.prems obtain b where b: "until_quote s = Some (b, rest)" "body = c # b" "\<not> at_space (c # s)"
      by (auto split: if_splits option.splits)
    from Cons.IH [OF b(1)] have s: "s = b @ quote # rest" "quote \<notin> set b" "no_space b" by auto
    with b(3) have "\<not> at_space ((c # b) @ quote # rest)" by simp
    then have "\<not> at_space (c # b)" by (simp only: at_space_quote not_False_eq_True)
    with s b(2) False show ?thesis by simp
  qed (use Cons.prems in auto)
qed simp

lemma search_skip: "quote \<notin> set u \<Longrightarrow> searchOPFSFiles (u @ s) = searchOPFSFiles s"
  by (induction u) auto

lemma search_name:
  assumes "opfs_name f"
  shows "searchOPFSFiles (quote # f @ quote # s) = f # searchOPFSFiles s"
proof -
  obtain body where f: "f = ''opfs://'' @ body"
    using assms by (auto simp: opfs_name_def starts_with_iff)
  with assms have "quote \<notin> set body" "no_space body" by (simp_all add: opfs_name_def)
  from until_quote_name [OF this] show ?thesis by (simp add: f)
qed

lemma search_sound_step:
  assumes "starts_with (quote # ''opfs://'') (c # s)" "until_quote (drop 8 (c # s)) = Some (body, rest)"
  shows "opfs_name (''opfs://'' @ body)" "c # s = (quote # (''opfs://'' @ body) @ [quote]) @ rest"
proof -
  obtain u where cs: "c # s = (quote # ''opfs://'') @ u" using assms(1) by (auto simp: starts_with_iff)
  then have "drop 8 (c # s) = u" by simp
  with until_quoteD assms(2) have "u = body @ quote # rest \<and> quote \<notin> set body \<and> no_space body" by simp
  with cs show "opfs_name (''opfs://'' @ body)" "c # s = (quote # (''opfs://'' @ body) @ [quote]) @ rest"
    by (simp_all add: opfs_name_def)
qed

lemma contains_suffix: "contains p v \<Longrightarrow> contains p (u @ v)"
  unfolding contains_iff by (metis append.assoc)

lemma contains_here: "contains p (p @ v)"
  unfolding contains_iff by (metis append_Nil)

lemma search_sound: "f \<in> set (searchOPFSFiles t) \<Longrightarrow> opfs_name f \<and> contains (quote # f @ [quote]) t"
proof (induction t rule: searchOPFSFiles.induct)
  case (2 c s)
  show ?case
  proof (cases "starts_with (quote # ''opfs://'') (c # s)")
    case False
    with "2.prems" have "f \<in> set (searchOPFSFiles s)" by (simp del: starts_with.simps)
    from "2.IH"(3) [OF False this] show ?thesis by simp
  next
    case True
    show ?thesis
    proof (cases "until_quote (drop 8 (c # s))")
      case None
      with True "2.prems" have "f \<in> set (searchOPFSFiles s)"
        by (simp del: starts_with.simps drop_Suc_Cons drop_Cons_numeral)
      from "2.IH"(1) [OF True None this] show ?thesis by simp
    next
      case (Some p)
      obtain body rest where p: "p = (body, rest)" by force
      note st = search_sound_step [OF True Some [unfolded p]]
      from "2.prems" True Some p have "f = ''opfs://'' @ body \<or> f \<in> set (searchOPFSFiles rest)"
        by (simp del: starts_with.simps drop_Suc_Cons drop_Cons_numeral)
      with "2.IH"(2) [OF True Some p [symmetric]] p st contains_here contains_suffix show ?thesis
        by (metis prod.inject)
    qed
  qed
qed simp

declare searchOPFSFiles.simps [simp del]

section \<open>Properties\<close>

text \<open>Searching a script made of quoted OPFS names with quote-free text around them finds exactly those
  names in their order, and whatever the search finds in any text is an OPFS name that stands in it between
  quotes.\<close>

theorem searchOPFSFiles_exact:
  "((\<forall>(txt, f) \<in> set xs. quote \<notin> set txt \<and> opfs_name f) \<and> quote \<notin> set rest \<longrightarrow>
     searchOPFSFiles (script xs rest) = map snd xs)
   \<and> (\<forall>f \<in> set (searchOPFSFiles t). opfs_name f \<and> contains (quote # f @ [quote]) t)"
proof (intro conjI impI ballI)
  show "(\<forall>(txt, f) \<in> set xs. quote \<notin> set txt \<and> opfs_name f) \<and> quote \<notin> set rest \<Longrightarrow>
     searchOPFSFiles (script xs rest) = map snd xs"
  proof (induction xs)
    case Nil
    then show ?case using search_skip [of rest "[]"] by (simp add: searchOPFSFiles.simps)
  next
    case (Cons x xs)
    then show ?case by (cases x) (simp add: search_skip search_name)
  qed
qed (use search_sound in blast)+

theorem searchOPFSFiles_exact_witness:
  "searchOPFSFiles (script [(''SELECT * FROM '', ''opfs://a/b.csv''), ('' JOIN '', ''opfs://c'')] '' USING (k)'')
     = [''opfs://a/b.csv'', ''opfs://c'']"
proof -
  have "opfs_name ''opfs://a/b.csv''" "opfs_name ''opfs://c''"
    by (simp_all add: opfs_name_def at_space_def js_spaces_def)
  with searchOPFSFiles_exact
    [of "[(''SELECT * FROM '', ''opfs://a/b.csv''), ('' JOIN '', ''opfs://c'')]" "'' USING (k)''"]
  show ?thesis by simp
qed

text \<open>The requests a method sends, in their order.\<close>

definition recording ::
  "(request_data \<Rightarrow> ('w, response_data) jsm) \<Rightarrow> request_data \<Rightarrow> ('w \<times> request_data list, response_data) jsm" where
  "recording rpc q = (\<lambda>(w, sent). case rpc q w of (r, w') \<Rightarrow> (r, (w', sent @ [q])))"

lemma registerOPFSFiles_sent:
  "registerOPFSFiles (recording rpc) files (w, sent) = (r, (w', sent')) \<Longrightarrow>
     (r = Inr files \<and> sent' = sent @ map Q_REGISTER_OPFS_FILE_NAME files)
   \<or> (\<exists>k < length files. r = Inl (Error (''File Not found:'' @ files ! k))
        \<and> sent' = sent @ map Q_REGISTER_OPFS_FILE_NAME (take (Suc k) files))"
proof (induction files arbitrary: w sent r w' sent')
  case Nil
  then show ?case by (simp add: js_defs)
next
  case (Cons f fs)
  let ?q = "Q_REGISTER_OPFS_FILE_NAME f"
  obtain r1 w1 where r1: "rpc ?q w = (r1, w1)" by force
  show ?case
  proof (cases r1)
    case (Inl e)
    with r1 Cons.prems have "r = Inl (Error (''File Not found:'' @ f))" "sent' = sent @ [?q]"
      by (simp_all add: recording_def js_defs)
    then show ?thesis by (intro disjI2 exI [of _ 0]) simp
  next
    case (Inr x)
    obtain r2 w2 s2 where rest: "registerOPFSFiles (recording rpc) fs (w1, sent @ [?q]) = (r2, (w2, s2))"
      by (metis prod.exhaust)
    have "recording rpc ?q (w, sent) = (Inr x, (w1, sent @ [?q]))" using r1 Inr by (simp add: recording_def)
    with Cons.prems rest have e: "r = (case r2 of Inl e \<Rightarrow> Inl e | Inr fs' \<Rightarrow> Inr (f # fs'))" "sent' = s2"
      by (auto simp: js_defs split: sum.splits)
    from Cons.IH [OF rest] show ?thesis
    proof (elim disjE exE conjE)
      fix k
      assume "k < length fs" "r2 = Inl (Error (''File Not found:'' @ fs ! k))"
        "s2 = (sent @ [?q]) @ map Q_REGISTER_OPFS_FILE_NAME (take (Suc k) fs)"
      with e show ?thesis by (intro disjI2 exI [of _ "Suc k"]) simp
    qed (use e in simp)
  qed
qed



end
