(* ===== verification/Hb_Client.thy ===== *)
theory Hb_Client
  imports Hb_AsyncApi
begin

text \<open>
  \<open>AsyncDuckDB\<close> under any sequence of events: what its user does (attach, detach, terminate, post tasks) and
  what the worker does (messages, errors, close). A task's promise is settled at most once, and a task that is
  dropped by an error event is never settled.
\<close>

datatype client_event =
    CE_task request_data
  | CE_instantiate string "string option" "nat option"
  | CE_open DuckDBConfig
  | CE_message worker_output
  | CE_error
  | CE_close
  | CE_attach nat
  | CE_detach
  | CE_terminate
  | CE_cancelSAB bool sab_argument

fun client_next :: "client_event \<Rightarrow> async_db \<Rightarrow> async_db" where
  "client_next (CE_task task) a = snd (postTask task a)"
| "client_next (CE_instantiate m p cb) a = snd (async_instantiate m p cb a)"
| "client_next (CE_open config) a = snd (async_open config a)"
| "client_next (CE_message m) a = onClientMessage m a"
| "client_next CE_error a = onError a"
| "client_next CE_close a = onClose a"
| "client_next (CE_attach w) a = attach w a"
| "client_next CE_detach a = detach a"
| "client_next CE_terminate a = terminate a"
| "client_next (CE_cancelSAB support sab) a = snd (registerCancelSAB support sab a)"

definition client_run :: "async_db \<Rightarrow> client_event \<Rightarrow> async_db \<Rightarrow> bool" where
  "client_run a e a' \<longleftrightarrow> a' = client_next e a"

lemma client_run_next: "client_run a e (client_next e a)"
  by (simp add: client_run_def)

section \<open>The invariant\<close>

abbreviation settled_ids :: "async_db \<Rightarrow> nat list" where
  "settled_ids a \<equiv> map fst (a_settled a)"

definition client_inv :: "async_db \<Rightarrow> bool" where
  "client_inv a \<longleftrightarrow> jm_wf (a_pending a) \<and> distinct (settled_ids a)
     \<and> (\<forall>mid. jm_get (a_pending a) mid \<noteq> None \<longrightarrow> mid < a_nextMessageId a \<and> mid \<notin> set (settled_ids a))
     \<and> (\<forall>mid \<in> set (settled_ids a). mid < a_nextMessageId a)"

text \<open>A task that is neither pending nor settled stays unsettled.\<close>

definition lost :: "nat \<Rightarrow> async_db \<Rightarrow> bool" where
  "lost mid a \<longleftrightarrow> mid < a_nextMessageId a \<and> jm_get (a_pending a) mid = None \<and> mid \<notin> set (settled_ids a)"

text \<open>How a response settles a pending task.\<close>

definition reply_outcome :: "request_data \<Rightarrow> WorkerResponse \<Rightarrow> settlement" where
  "reply_outcome task r =
     (if res_type r = ERROR then Rejected (response_error (res_data r))
      else if accepts (request_type task) (res_type r) then Resolved (res_data r)
      else Rejected (Error (''unexpected response type: '' @ response_type_name (res_type r))))"

lemma onResponse_settles:
  assumes "jm_get (a_pending a) (res_requestId r) = Some task"
  shows "a_settled (onResponse r a) = a_settled a @ [(res_requestId r, reply_outcome task r)]"
    "a_pending (onResponse r a) = jm_delete (res_requestId r) (a_pending a)"
    "a_nextMessageId (onResponse r a) = a_nextMessageId a" "a_posted (onResponse r a) = a_posted a"
    "a_worker (onResponse r a) = a_worker a"
  using assms by (simp_all add: onResponse_def settle_def reply_outcome_def Let_def)

text \<open>Both only look at the pending tasks, the settled ones and the next id.\<close>

locale task_predicate =
  fixes P :: "async_db \<Rightarrow> bool"
  assumes same: "a_pending a' = a_pending a \<Longrightarrow> a_settled a' = a_settled a \<Longrightarrow>
       a_nextMessageId a' = a_nextMessageId a \<Longrightarrow> P a \<Longrightarrow> P a'"
    and posted: "P a \<Longrightarrow> P (a\<lparr>a_nextMessageId := Suc (a_nextMessageId a),
       a_pending := jm_set (a_nextMessageId a) task (a_pending a)\<rparr>)"
    and settled: "P a \<Longrightarrow> jm_get (a_pending a) mid = Some task \<Longrightarrow>
       P (a\<lparr>a_pending := jm_delete mid (a_pending a), a_settled := a_settled a @ [(mid, s)]\<rparr>)"
    and cleared: "P a \<Longrightarrow> P (a\<lparr>a_pending := []\<rparr>)"
begin

lemma post:
  assumes "P a"
  shows "P (snd (postTask task a))"
proof (cases "a_worker a")
  case (Some w)
  show ?thesis
    by (rule same [OF _ _ _ posted [OF assms, of task]]) (simp_all add: postTask_def Some Let_def)
qed (simp add: postTask_def assms)

lemma response:
  assumes "P a"
  shows "P (onResponse r a)"
proof (cases "jm_get (a_pending a) (res_requestId r)")
  case (Some task)
  show ?thesis
    by (rule same [OF _ _ _ settled [OF assms Some, of "reply_outcome task r"]])
      (simp_all add: onResponse_settles [OF Some])
qed (simp add: onResponse_def assms)

lemma shutdown: "P a \<Longrightarrow> P (resolveShutdown a)"
  by (rule same [of _ a]) (simp_all add: resolveShutdown_def split: option.splits)

lemma client_message:
  assumes "P a"
  shows "P (onClientMessage m a)"
proof -
  have "P (case res_data r of D_log entry \<Rightarrow> a\<lparr>a_logged := a_logged a @ [entry]\<rparr> | _ \<Rightarrow> a)" for r :: WorkerResponse
    using assms by (cases "res_data r") (simp_all add: same [of _ a])
  moreover have "P (a\<lparr>a_called := cs\<rparr>)" for cs
    using assms by (rule same [rotated -1]) simp_all
  ultimately show ?thesis
    using response [OF assms] assms
    by (cases m) (simp_all add: onClientMessage_def split: WorkerResponseType.splits)
qed

lemma detached:
  assumes "P a"
  shows "P (detach a)"
proof (cases "a_worker a")
  case (Some w)
  have "P (a\<lparr>a_listening := removeAll w (a_listening a), a_worker := None\<rparr>)"
    by (rule same [OF _ _ _ assms]) simp_all
  from shutdown [OF this] show ?thesis
    by (rule same [rotated -1]) (simp_all add: detach_def Some)
qed (simp add: detach_def assms)

lemma kept: "P a \<Longrightarrow> P (client_next e a)"
proof (cases e)
  case (CE_instantiate m p cb)
  assume "P a"
  then have "P (case cb of None \<Rightarrow> a | Some c \<Rightarrow> a\<lparr>a_onInstantiationProgress := a_onInstantiationProgress a @ [c]\<rparr>)"
    by (auto split: option.splits intro: same [of _ a])
  from post [OF this] show ?thesis
    by (simp add: CE_instantiate async_instantiate_def Let_def)
next
  case (CE_open config)
  assume "P a"
  then have "P (a\<lparr>a_config := config\<rparr>)" by (auto intro: same [of _ a])
  from post [OF this] show ?thesis by (simp add: CE_open async_open_def)
next
  case CE_close
  assume "P a"
  then have "P (resolveShutdown a)" by (rule shutdown)
  with CE_close cleared show ?thesis by (simp add: onClose_def Let_def)
next
  case (CE_attach w)
  assume "P a" with CE_attach show ?thesis by (auto simp: attach_def intro: same [of _ a])
next
  case CE_terminate
  assume "P a" with CE_terminate show ?thesis
    by (auto simp: terminate_def split: option.splits intro: same [of _ a])
next
  case (CE_cancelSAB support sab)
  assume "P a" with CE_cancelSAB show ?thesis
    by (auto simp: registerCancelSAB_def js_defs split: sab_argument.splits option.splits intro: same [of _ a])
qed (auto simp: post client_message detached onError_def intro: cleared)

lemma run: "exec client_run a es a' \<Longrightarrow> P a \<Longrightarrow> P a'"
  by (induction rule: exec.induct) (auto simp: client_run_def intro: kept)

end

interpretation client: task_predicate client_inv
  by unfold_locales (auto simp: client_inv_def less_Suc_eq)

interpretation lost_task: task_predicate "lost mid"
  by unfold_locales (auto simp: lost_def)

lemma client_inv_AsyncDuckDB [simp]: "client_inv (AsyncDuckDB w)"
  by (cases w) (simp_all add: AsyncDuckDB_def attach_def client_inv_def)

section \<open>Properties\<close>

text \<open>Whatever happens to a client, each task's promise is settled at most once, a settled task is no
  longer pending, and both belong to ids that were handed out: a second response with the same request id has
  no effect.\<close>

theorem task_settled_at_most_once:
  assumes "exec client_run (AsyncDuckDB w) es a"
  shows "distinct (settled_ids a) \<and> set (settled_ids a) \<subseteq> {..<a_nextMessageId a}
     \<and> {mid. jm_get (a_pending a) mid \<noteq> None} \<subseteq> {..<a_nextMessageId a} - set (settled_ids a)"
  using client.run [OF assms client_inv_AsyncDuckDB] unfolding client_inv_def by auto

theorem task_settled_at_most_once_witness:
  "let a = client_next (CE_message (FromDispatcher \<lparr>res_messageId = 0, res_requestId = 0, res_type = OK, res_data = D_null\<rparr>))
             (client_next (CE_task Q_PING) (AsyncDuckDB (Some 7)))
   in settled_ids a = [0] \<and> distinct (settled_ids a)"
proof -
  let ?e1 = "CE_task Q_PING"
  let ?e2 = "CE_message (FromDispatcher \<lparr>res_messageId = 0, res_requestId = 0, res_type = OK, res_data = D_null\<rparr>)"
  let ?a = "client_next ?e2 (client_next ?e1 (AsyncDuckDB (Some 7)))"
  have "exec client_run (AsyncDuckDB (Some 7)) [?e1, ?e2] ?a"
    by (rule exec_Cons, rule client_run_next, rule exec_Cons, rule client_run_next, rule exec_Nil)
  from task_settled_at_most_once [OF this] have "distinct (settled_ids ?a)" by blast
  moreover have "settled_ids ?a = [0]"
    by (simp add: postTask_def AsyncDuckDB_def attach_def onClientMessage_def onResponse_def settle_def)
  ultimately show ?thesis by (simp only: Let_def simp_thms)
qed

text \<open>An error event of the worker drops every pending task without settling it: the promise of such a
  task is never resolved nor rejected, whatever happens afterwards.\<close>

theorem error_event_strands_tasks:
  assumes "exec client_run (AsyncDuckDB w) es a" and "jm_get (a_pending a) mid = Some task"
    and "exec client_run (onError a) fs b"
  shows "mid \<notin> set (settled_ids b) \<and> jm_get (a_pending b) mid = None"
proof -
  have "client_inv a" using client.run [OF assms(1)] by simp
  with assms(2) have "lost mid (onError a)" by (auto simp: client_inv_def lost_def onError_def)
  from lost_task.run [OF assms(3) this] show ?thesis by (simp add: lost_def)
qed

theorem error_event_strands_tasks_witness:
  "let a = client_next (CE_task Q_PING) (AsyncDuckDB (Some 7));
       b = client_next (CE_message (FromDispatcher \<lparr>res_messageId = 0, res_requestId = 0, res_type = OK, res_data = D_null\<rparr>)) (onError a)
   in jm_get (a_pending a) 0 = Some Q_PING \<and> 0 \<notin> set (settled_ids b)"
proof -
  let ?e2 = "CE_message (FromDispatcher \<lparr>res_messageId = 0, res_requestId = 0, res_type = OK, res_data = D_null\<rparr>)"
  let ?a = "client_next (CE_task Q_PING) (AsyncDuckDB (Some 7))"
  let ?b = "client_next ?e2 (onError ?a)"
  have e: "exec client_run (AsyncDuckDB (Some 7)) [CE_task Q_PING] ?a" "exec client_run (onError ?a) [?e2] ?b"
    by (rule exec_Cons, rule client_run_next, rule exec_Nil)+
  have p: "jm_get (a_pending ?a) 0 = Some Q_PING"
    by (simp add: postTask_def AsyncDuckDB_def attach_def)
  from error_event_strands_tasks [OF e(1) p e(2)] p show ?thesis by (simp only: Let_def simp_thms)
qed

end
