(* ===== verification/Hb_System.thy ===== *)
theory Hb_System
  imports Hb_Client Hb_Cancel
begin

text \<open>
  The page and the worker together: the client of \<open>async_bindings.ts\<close> attached to one worker that runs the
  dispatcher of \<open>worker_dispatcher.ts\<close>, with the two message channels between them, which keep the order of
  what is posted. Every promise is settled with what the worker answered to that very request.
\<close>

section \<open>The composed system\<close>

text \<open>
  \<open>s_queue\<close> holds the requests posted and not yet received; of the worker's messages the first \<open>s_seen\<close>
  have been delivered. \<open>s_received\<close> records the requests the worker has received.
\<close>

record 'b system =
  s_client :: async_db
  s_queue :: "WorkerRequest list"
  s_received :: "WorkerRequest list"
  s_worker :: "'b dispatcher"
  s_seen :: nat

definition system_init :: "'b system" where
  "system_init = \<lparr>s_client = AsyncDuckDB (Some 0), s_queue = [], s_received = [], s_worker = dispatcher_init, s_seen = 0\<rparr>"

text \<open>A call of a method: it may change the configuration and the progress callbacks, then posts its task.\<close>

datatype 'b system_event =
    SE_call DuckDBConfig "nat list" request_data
  | SE_receive
  | SE_worker "'b dispatcher_event"
  | SE_deliver

inductive system_step :: "'b worker_env \<Rightarrow> 'b system \<Rightarrow> 'b system_event \<Rightarrow> 'b system \<Rightarrow> bool" for E where
  ss_call: "postTask task ((s_client s)\<lparr>a_config := config, a_onInstantiationProgress := cbs\<rparr>) = (Some mid, a) \<Longrightarrow>
     system_step E s (SE_call config cbs task)
       (s\<lparr>s_client := a, s_queue := s_queue s @ [\<lparr>req_messageId = mid, req_data = task\<rparr>]\<rparr>)"
| ss_receive: "s_queue s = req # reqs \<Longrightarrow>
     client_step E (s_worker s) (DE_message (RequestMessage req)) d \<Longrightarrow>
     system_step E s SE_receive (s\<lparr>s_queue := reqs, s_received := s_received s @ [req], s_worker := d\<rparr>)"
| ss_worker: "request_of e = [] \<Longrightarrow> dispatcher_step E (s_worker s) e d \<Longrightarrow>
     system_step E s (SE_worker e) (s\<lparr>s_worker := d\<rparr>)"
| ss_deliver: "s_seen s < length (d_out (s_worker s)) \<Longrightarrow>
     system_step E s SE_deliver
       (s\<lparr>s_client := onClientMessage (FromDispatcher (d_out (s_worker s) ! s_seen s)) (s_client s), s_seen := Suc (s_seen s)\<rparr>)"

section \<open>The worker only appends to its messages\<close>

definition extends_out :: "WorkerResponse list \<Rightarrow> 'b dispatcher \<Rightarrow> bool" where
  "extends_out out d \<longleftrightarrow> (\<exists>rs. d_out d = out @ rs)"

lemma extends_respond: "extends_out out d \<Longrightarrow> extends_out out (snd (respond rid ty dat d))"
  by (auto simp: extends_out_def respond_eq)

lemma extends_dispatch:
  assumes "extends_out out d"
  shows "extends_out out (dispatch B xhr sig req d)"
proof -
  consider "plain_request xhr (req_data req)" | "req_data req = Q_PING" | "request_type (req_data req) = INSTANTIATE"
    | names where "req_data req = Q_PREFETCH_EXTENSIONS names" "xhr"
    by (cases "req_data req") (auto simp: plain_request_def)
  then show ?thesis
  proof cases
    case 1
    from dispatch_answers [OF 1, of d B sig] assms show ?thesis
      by (auto simp: answers_with_def extends_out_def)
  next
    case 4
    from dispatch_prefetch [OF 4, of B sig d] obtain d1 work p where
        d: "dispatch B xhr sig req d = d1\<lparr>d_prefetch := p, d_prefetching := d_prefetching d @ [(req, work)]\<rparr>"
      and u: "extension_urls B names d = (fst (extension_urls B names d), d1)" by auto
    from extension_urls_frame [OF u] assms show ?thesis by (simp add: d extends_out_def)
  qed (use assms in \<open>auto simp: dispatch_def dispatch_body_def js_try_def js_ret_def Let_def elim!: request_type.elims\<close>)
qed

lemma extends_onMessage:
  "extends_out out d \<Longrightarrow> extends_out out (onMessage B xhr sig req d)"
  by (cases "req_data req"; simp add: onMessage_def sendOK_def failWith_def Let_def extends_respond extends_dispatch)
    (auto simp: extends_out_def respond_eq)

lemma dispatcher_step_appends:
  assumes "dispatcher_step E d e d'"
  shows "\<exists>rs. d_out d' = d_out d @ rs"
proof -
  have "extends_out (d_out d) d" by (simp add: extends_out_def)
  with assms have "extends_out (d_out d) d'"
    by (cases rule: dispatcher_step.cases)
      (auto simp: handlePreInitMessage_def instantiated_def forwardProgress_def resume_def prefetch_done_def
        cancelTick_def sendOK_def failWith_def log_def Let_def extends_out_def respond_eq
        intro: extends_onMessage [unfolded extends_out_def] extends_dispatch [unfolded extends_out_def]
        split: sum.splits request_data.splits option.splits bool.splits worker_message.splits)
  then show ?thesis by (simp add: extends_out_def)
qed

section \<open>The invariant of the system\<close>

text \<open>The settlement the worker's answer stands for.\<close>

definition answer_outcome :: "WorkerResponse \<Rightarrow> settlement" where
  "answer_outcome r = (if res_type r = ERROR then Rejected (response_error (res_data r)) else Resolved (res_data r))"

definition issued :: "'b system \<Rightarrow> WorkerRequest list" where
  "issued s = s_received s @ s_queue s"

definition delivered :: "'b system \<Rightarrow> WorkerResponse list" where
  "delivered s = filter final (take (s_seen s) (d_out (s_worker s)))"

definition promises_ok :: "async_db \<Rightarrow> WorkerRequest list \<Rightarrow> bool" where
  "promises_ok a reqs \<longleftrightarrow> (\<forall>mid. jm_get (a_pending a) mid =
     (if mid < a_nextMessageId a \<and> mid \<notin> set (settled_ids a) then Some (req_data (reqs ! mid)) else None))"

definition system_inv :: "'b system \<Rightarrow> bool" where
  "system_inv s \<longleftrightarrow>
     map req_messageId (issued s) = [0..<a_nextMessageId (s_client s)]
   \<and> traced (set (s_received s)) (s_worker s)
   \<and> answered_ids (s_worker s) + pending_ids (s_worker s) = mset (map req_messageId (s_received s))
   \<and> s_seen s \<le> length (d_out (s_worker s))
   \<and> a_settled (s_client s) = map (\<lambda>r. (res_requestId r, answer_outcome r)) (delivered s)
   \<and> promises_ok (s_client s) (issued s)"

lemma accepts_expected: "accepts t r \<longleftrightarrow> r = expected_response t"
  by (cases t) simp_all

lemma expected_not_error: "expected_response t \<noteq> ERROR"
  by (cases t) simp_all

lemma reply_outcome_expected:
  "res_type r \<in> {expected_response (request_type task), ERROR} \<Longrightarrow> reply_outcome task r = answer_outcome r"
  by (auto simp: reply_outcome_def answer_outcome_def accepts_expected)

lemma issued_nth:
  assumes "map req_messageId (issued s) = [0..<n]" "req \<in> set (issued s)"
  shows "req_messageId req < n \<and> issued s ! req_messageId req = req"
proof -
  obtain i where i: "i < length (issued s)" "issued s ! i = req" using assms(2) by (auto simp: in_set_conv_nth)
  have "length (issued s) = n" using assms(1) by (metis diff_zero length_map length_upt)
  with i assms(1) have "req_messageId req = i" by (metis add_0 nth_map nth_upt)
  with i \<open>length (issued s) = n\<close> show ?thesis by simp
qed

lemma client_message_final:
  "final r \<Longrightarrow> onClientMessage (FromDispatcher r) a = onResponse r a"
  by (simp add: onClientMessage_def final_def split: WorkerResponseType.splits)

lemma client_message_other:
  assumes "\<not> final r"
  shows "a_settled (onClientMessage (FromDispatcher r) a) = a_settled a"
    "a_pending (onClientMessage (FromDispatcher r) a) = a_pending a"
    "a_nextMessageId (onClientMessage (FromDispatcher r) a) = a_nextMessageId a"
  using assms by (cases "res_type r"; simp add: onClientMessage_def final_def split: response_data.splits)+

text \<open>A response that has not been delivered answers a request whose promise is still pending.\<close>

lemma undelivered_not_settled:
  assumes "system_inv s" "s_seen s < length (d_out (s_worker s))" "final (d_out (s_worker s) ! s_seen s)"
  shows "res_requestId (d_out (s_worker s) ! s_seen s) \<notin> set (settled_ids (s_client s))"
proof
  let ?out = "d_out (s_worker s)" and ?n = "s_seen s"
  let ?id = "res_requestId (?out ! ?n)"
  assume "?id \<in> set (settled_ids (s_client s))"
  then have "?id \<in># mset (map res_requestId (delivered s))"
    using assms(1) by (auto simp: system_inv_def)
  then have one: "1 \<le> count (mset (map res_requestId (delivered s))) ?id" by (simp only: count_greater_eq_one_iff)
  have "?out = take ?n ?out @ [?out ! ?n] @ drop (Suc ?n) ?out"
    using assms(2) by (simp add: id_take_nth_drop)
  then have "answered_ids (s_worker s) = mset (map res_requestId (delivered s)) + {#?id#}
      + mset (map res_requestId (filter final (drop (Suc ?n) ?out)))"
    using assms(3) unfolding answered_ids_def delivered_def
    by (metis (no_types, lifting) append.assoc filter.simps(1) filter.simps(2) filter_append list.simps(8) list.simps(9)
        map_append mset.simps(1) mset.simps(2) mset_append)
  then have "count (answered_ids (s_worker s)) ?id = count (mset (map res_requestId (delivered s))) ?id + 1
      + count (mset (map res_requestId (filter final (drop (Suc ?n) ?out)))) ?id"
    by (simp only: count_union count_single if_True simp_thms)
  with one have "count (answered_ids (s_worker s)) ?id \<ge> 2" by linarith
  moreover have "count (mset (map req_messageId (s_received s))) ?id \<le> 1"
  proof -
    have "distinct (map req_messageId (issued s))" using assms(1) by (simp add: system_inv_def)
    then have "distinct (map req_messageId (s_received s))" by (simp add: issued_def)
    then show ?thesis by (metis count_mset_0_iff distinct_count_atmost_1 le_numeral_extra(4) zero_le)
  qed
  moreover have "count (answered_ids (s_worker s)) ?id \<le> count (mset (map req_messageId (s_received s))) ?id"
    using assms(1) by (metis system_inv_def count_union le_add1)
  ultimately show False by linarith
qed

lemma system_inv_call:
  assumes inv: "system_inv s"
    and p: "postTask task ((s_client s)\<lparr>a_config := config, a_onInstantiationProgress := cbs\<rparr>) = (Some mid, a)"
  shows "system_inv (s\<lparr>s_client := a, s_queue := s_queue s @ [\<lparr>req_messageId = mid, req_data = task\<rparr>]\<rparr>)"
proof -
  let ?c = "s_client s"
  let ?s = "s\<lparr>s_client := a, s_queue := s_queue s @ [\<lparr>req_messageId = mid, req_data = task\<rparr>]\<rparr>"
  from p have a: "mid = a_nextMessageId ?c" "a_nextMessageId a = Suc mid" "a_settled a = a_settled ?c"
      "a_pending a = jm_set mid task (a_pending ?c)"
    by (auto simp: postTask_def Let_def split: option.splits)
  have iss: "issued ?s = issued s @ [\<lparr>req_messageId = mid, req_data = task\<rparr>]" by (simp add: issued_def)
  have ids: "map req_messageId (issued s) = [0..<mid]" using inv a(1) by (simp add: system_inv_def)
  then have len: "length (issued s) = mid" by (metis diff_zero length_map length_upt)
  have set_lt: "mid \<notin> set (settled_ids ?c)"
  proof
    assume "mid \<in> set (settled_ids ?c)"
    then obtain r where r: "r \<in> set (delivered s)" "res_requestId r = mid" using inv by (auto simp: system_inv_def)
    then have "r \<in> set (d_out (s_worker s))" "final r" by (auto simp: delivered_def dest: in_set_takeD)
    then obtain req where "req \<in> set (s_received s)" "res_requestId r = req_messageId req"
      using inv by (auto simp: system_inv_def traced_def good_reply_def)
    with r(2) issued_nth [OF ids, of req] show False by (simp add: issued_def)
  qed
  have "promises_ok a (issued ?s)"
    unfolding promises_ok_def a(2)
  proof
    fix k
    have "jm_get (a_pending ?c) k = (if k < mid \<and> k \<notin> set (settled_ids ?c) then Some (req_data (issued s ! k)) else None)"
      using inv unfolding a(1) system_inv_def promises_ok_def by blast
    then show "jm_get (a_pending a) k = (if k < Suc mid \<and> k \<notin> set (settled_ids a) then Some (req_data (issued ?s ! k)) else None)"
      using set_lt len by (auto simp: a(3,4) iss nth_append less_Suc_eq)
  qed
  moreover have "map req_messageId (issued ?s) = [0..<a_nextMessageId a]" by (simp add: iss ids a(2))
  ultimately show ?thesis
    using inv a(3) by (simp add: system_inv_def delivered_def)
qed

lemma system_inv_worker:
  assumes inv: "system_inv s" and st: "dispatcher_step E (s_worker s) e d" and "\<not> reinstantiates (s_worker s) e"
    and q: "s_queue s = request_of e @ reqs"
  shows "system_inv (s\<lparr>s_queue := reqs, s_received := s_received s @ request_of e, s_worker := d\<rparr>)"
proof -
  let ?s = "s\<lparr>s_queue := reqs, s_received := s_received s @ request_of e, s_worker := d\<rparr>"
  have t: "traced (set (s_received s)) (s_worker s)" using inv by (simp add: system_inv_def)
  then have "answered_ids d + pending_ids d = answered_ids (s_worker s) + pending_ids (s_worker s) + arrived e"
    using step_account [OF st] assms(3) by (auto simp: traced_def pending_ok_def)
  then have acc: "answered_ids d + pending_ids d = mset (map req_messageId (s_received s @ request_of e))"
    using inv by (simp add: system_inv_def arrived_request_of)
  obtain rs where "d_out d = d_out (s_worker s) @ rs" using dispatcher_step_appends [OF st] by blast
  then have "delivered ?s = delivered s" "s_seen s \<le> length (d_out d)"
    using inv by (auto simp: delivered_def system_inv_def)
  moreover have "issued ?s = issued s" using q by (simp add: issued_def)
  moreover have "traced (set (s_received s @ request_of e)) d" using traced_step [OF st t] by simp
  ultimately show ?thesis using inv acc by (simp add: system_inv_def)
qed

lemma system_inv_deliver:
  assumes inv: "system_inv s" and n: "s_seen s < length (d_out (s_worker s))"
  shows "system_inv (s\<lparr>s_client := onClientMessage (FromDispatcher (d_out (s_worker s) ! s_seen s)) (s_client s),
       s_seen := Suc (s_seen s)\<rparr>)"
proof -
  let ?r = "d_out (s_worker s) ! s_seen s" and ?c = "s_client s"
  let ?a = "onClientMessage (FromDispatcher ?r) ?c"
  let ?s = "s\<lparr>s_client := ?a, s_seen := Suc (s_seen s)\<rparr>"
  have del: "delivered ?s = delivered s @ (if final ?r then [?r] else [])"
    using n by (simp add: delivered_def take_Suc_conv_app_nth)
  have iss: "issued ?s = issued s" by (simp add: issued_def)
  show ?thesis
  proof (cases "final ?r")
    case False
    have "promises_ok ?a x = promises_ok ?c x" for x
      by (simp add: promises_ok_def client_message_other [OF False])
    with False inv n show ?thesis by (simp add: system_inv_def client_message_other del iss)
  next
    case True
    have "?r \<in> set (d_out (s_worker s))" using n by simp
    with inv True obtain req where req: "req \<in> set (s_received s)" "res_requestId ?r = req_messageId req"
        "res_type ?r \<in> {expected_response (request_type (req_data req)), ERROR}"
      unfolding system_inv_def traced_def good_reply_def by blast
    have "map req_messageId (issued s) = [0..<a_nextMessageId ?c]" using inv by (simp add: system_inv_def)
    from issued_nth [OF this, of req] req(1,2)
    have "res_requestId ?r < a_nextMessageId ?c" "issued s ! res_requestId ?r = req" by (simp_all add: issued_def)
    then have pend: "jm_get (a_pending ?c) (res_requestId ?r) = Some (req_data req)"
    proof -
      have "promises_ok ?c (issued s)" using inv by (simp add: system_inv_def)
      with undelivered_not_settled [OF inv n True] \<open>res_requestId ?r < a_nextMessageId ?c\<close>
        \<open>issued s ! res_requestId ?r = req\<close>
      show ?thesis by (simp add: promises_ok_def)
    qed
    note a = onResponse_settles [OF pend, folded client_message_final [OF True]]
    have "promises_ok ?a (issued s)"
    proof -
      have "promises_ok ?c (issued s)" using inv by (simp add: system_inv_def)
      then show ?thesis by (auto simp: promises_ok_def a)
    qed
    moreover have "a_settled ?a = map (\<lambda>r. (res_requestId r, answer_outcome r)) (delivered ?s)"
      using inv reply_outcome_expected [OF req(3)] True by (simp add: a del system_inv_def)
    ultimately show ?thesis using inv n a(3) by (simp add: system_inv_def iss)
  qed
qed

interpretation sys: invariant_machine "system_step E" system_inv
proof
  fix s t :: "'a system" and e
  assume inv: "system_inv s" and st: "system_step E s e t"
  from st show "system_inv t"
  proof (cases rule: system_step.cases)
    case (ss_call task config cbs mid a)
    then show ?thesis using system_inv_call [OF inv] by simp
  next
    case (ss_receive req reqs d)
    then show ?thesis
      using system_inv_worker [OF inv, of E "DE_message (RequestMessage req)" d reqs]
      by (simp add: client_step_def request_of_def)
  next
    case (ss_worker w d)
    then have "\<not> reinstantiates (s_worker s) w"
      by (auto simp: reinstantiates_def request_of_def split: dispatcher_event.splits worker_message.splits)
    with ss_worker show ?thesis
      using system_inv_worker [OF inv, of E w d "s_queue s"] by simp
  next
    case ss_deliver
    then show ?thesis using system_inv_deliver [OF inv] by simp
  qed
qed

lemma system_inv_init [simp]: "system_inv system_init"
  by (simp add: system_inv_def system_init_def issued_def delivered_def AsyncDuckDB_def attach_def
      promises_ok_def) (simp add: account_defs dispatcher_init_def)

text \<open>A concrete run: a ping, received and answered.\<close>

definition ping_run :: "nat system_event list" where
  "ping_run = [SE_call empty_config [] Q_PING, SE_receive, SE_deliver]"

lemma ping_runs:
  "\<exists>s. exec (system_step counting_env) system_init ping_run s \<and> a_settled (s_client s) = [(0, Resolved D_null)]
     \<and> s_queue s = [] \<and> pending_ids (s_worker s) = {#} \<and> s_seen s = length (d_out (s_worker s))"
proof -
  let ?req = "\<lparr>req_messageId = 0, req_data = Q_PING\<rparr>"
  let ?c = "(s_client (system_init :: nat system))\<lparr>a_config := empty_config, a_onInstantiationProgress := []\<rparr>"
  let ?a = "snd (postTask Q_PING ?c)"
  let ?s1 = "(system_init :: nat system)\<lparr>s_client := ?a, s_queue := s_queue (system_init :: nat system) @ [?req]\<rparr>"
  let ?d = "onMessage counting_bindings True True ?req dispatcher_init"
  let ?s2 = "?s1\<lparr>s_queue := [], s_received := s_received ?s1 @ [?req], s_worker := ?d\<rparr>"
  let ?s3 = "?s2\<lparr>s_client := onClientMessage (FromDispatcher (d_out (s_worker ?s2) ! s_seen ?s2)) (s_client ?s2), s_seen := Suc (s_seen ?s2)\<rparr>"
  have e1: "system_step counting_env system_init (SE_call empty_config [] Q_PING) ?s1"
    by (rule ss_call) (simp add: postTask_def system_init_def AsyncDuckDB_def attach_def)
  have "dispatcher_step counting_env dispatcher_init (DE_message (RequestMessage ?req)) ?d"
    using ds_request [of ?req dispatcher_init dispatcher_init counting_env]
    by (simp add: handlePreInitMessage_def counting_env_def)
  then have e2: "system_step counting_env ?s1 SE_receive ?s2"
    by (intro ss_receive) (simp_all add: client_step_def reinstantiates_def system_init_def)
  have out: "d_out ?d = [\<lparr>res_messageId = 0, res_requestId = 0, res_type = OK, res_data = D_null\<rparr>]"
    by (simp add: onMessage_def sendOK_def respond_eq dispatcher_init_def)
  then have e3: "system_step counting_env ?s2 SE_deliver ?s3"
    by (intro ss_deliver) (simp add: system_init_def)
  have "exec (system_step counting_env) system_init ping_run ?s3"
    unfolding ping_run_def
    by (rule exec_Cons, rule e1, rule exec_Cons, rule e2, rule exec_Cons, rule e3, rule exec_Nil)
  moreover have "a_settled (s_client ?s3) = [(0, Resolved D_null)]"
    by (simp add: out postTask_def system_init_def AsyncDuckDB_def attach_def onClientMessage_def onResponse_def settle_def)
  moreover have "s_queue ?s3 = [] \<and> pending_ids (s_worker ?s3) = {#} \<and> s_seen ?s3 = length (d_out (s_worker ?s3))"
    by (simp add: out system_init_def)
      (simp add: onMessage_def sendOK_def respond_eq dispatcher_init_def pending_ids_def)
  ultimately show ?thesis by (intro exI [of _ ?s3]) (simp only: simp_thms)
qed

section \<open>Properties\<close>





end
