(* ===== verification/Hb_Connection.thy ===== *)
theory Hb_Connection
  imports Hb_AsyncApi
begin

text \<open>
  \<open>bindings/connection.ts\<close> and \<open>parallel/async_connection.ts\<close>: connections, prepared statements and the two
  iterators over a streamed result.

  The connection of the page talks to the worker through \<open>rpc\<close>, the round trip of one request; the connection
  inside the worker calls the bindings. Apache Arrow's readers are the parameter \<open>reader\<close>: what it makes of the
  bytes it is given. The log entry that precedes a query of the page is left out. A loop that waits for a result may wait for ever, so it is a partial function whose value is
  \<^term>\<open>None\<close> when it does not return.
\<close>

section \<open>Waiting for a result\<close>

text \<open>\<open>do { x = f() } while (x == null)\<close>\<close>

partial_function (option) until_some :: "('s, 'a option) jsm \<Rightarrow> 's \<Rightarrow> ('a res \<times> 's) option" where
  "until_some f s = (case f s of
     (Inl e, s') \<Rightarrow> Some (Inl e, s')
   | (Inr None, s') \<Rightarrow> until_some f s'
   | (Inr (Some x), s') \<Rightarrow> Some (Inr x, s'))"

text \<open>The state after \<open>k\<close> calls that all returned \<open>null\<close>.\<close>

fun after_nulls :: "('s, 'a option) jsm \<Rightarrow> nat \<Rightarrow> 's \<Rightarrow> 's option" where
  "after_nulls f 0 s = Some s"
| "after_nulls f (Suc k) s = (case f s of (Inr None, s') \<Rightarrow> after_nulls f k s' | _ \<Rightarrow> None)"

text \<open>The loop of \<open>AsyncDuckDBConnection.send\<close>, which gives up when the client has no worker.\<close>

partial_function (option) poll_attached ::
  "('s \<Rightarrow> bool) \<Rightarrow> ('s, 'a option) jsm \<Rightarrow> 's \<Rightarrow> ('a option res \<times> 's) option" where
  "poll_attached detached f s =
     (if detached s then Some (Inr None, s)
      else (case f s of
        (Inl e, s') \<Rightarrow> Some (Inl e, s')
      | (Inr None, s') \<Rightarrow> poll_attached detached f s'
      | (Inr (Some x), s') \<Rightarrow> Some (Inr (Some x), s')))"

section \<open>The iterators\<close>

record IteratorResult =
  ir_done :: bool
  ir_value :: "byte list option"

record result_iter =
  it_first :: bool
  it_depleted :: bool
  it_header :: "byte list"

definition ResultStreamIterator :: "byte list \<Rightarrow> result_iter" where
  "ResultStreamIterator header = \<lparr>it_first = True, it_depleted = False, it_header = header\<rparr>"

definition iter_next ::
  "('s, byte list option) jsm \<Rightarrow> result_iter \<Rightarrow> 's \<Rightarrow> (IteratorResult res \<times> result_iter \<times> 's) option" where
  "iter_next fetch it s =
     (if it_first it then Some (Inr \<lparr>ir_done = False, ir_value = Some (it_header it)\<rparr>, it\<lparr>it_first := False\<rparr>, s)
      else if it_depleted it then Some (Inr \<lparr>ir_done = True, ir_value = None\<rparr>, it, s)
      else (case until_some fetch s of
        None \<Rightarrow> None
      | Some (Inl e, s') \<Rightarrow> Some (Inl e, it, s')
      | Some (Inr buffer, s') \<Rightarrow>
          Some (Inr \<lparr>ir_done = (length buffer = 0), ir_value = Some buffer\<rparr>, it\<lparr>it_depleted := (length buffer = 0)\<rparr>, s')))"

text \<open>The iterator of the page asks for the next chunk before it hands out the one it has; \<open>ai_inFlight\<close> is the
  outcome of that request. A rejected promise stays in place.\<close>

record async_iter =
  ai_first :: bool
  ai_depleted :: bool
  ai_inFlight :: "byte list option res option"
  ai_header :: "byte list"

definition AsyncResultStreamIterator :: "byte list \<Rightarrow> async_iter" where
  "AsyncResultStreamIterator header = \<lparr>ai_first = True, ai_depleted = False, ai_inFlight = None, ai_header = header\<rparr>"

definition async_chunk ::
  "('s, byte list option) jsm \<Rightarrow> byte list \<Rightarrow> async_iter \<Rightarrow> 's \<Rightarrow> IteratorResult res \<times> async_iter \<times> 's" where
  "async_chunk fetch buffer it s =
     (let it = it\<lparr>ai_depleted := (length buffer = 0)\<rparr> in
      if length buffer = 0 then (Inr \<lparr>ir_done = True, ir_value = Some buffer\<rparr>, it, s)
      else (case fetch s of (r, s') \<Rightarrow>
        (Inr \<lparr>ir_done = False, ir_value = Some buffer\<rparr>, it\<lparr>ai_inFlight := Some r\<rparr>, s')))"

definition async_fetch_chunk ::
  "('s, byte list option) jsm \<Rightarrow> async_iter \<Rightarrow> 's \<Rightarrow> (IteratorResult res \<times> async_iter \<times> 's) option" where
  "async_fetch_chunk fetch it s = (case until_some fetch s of
     None \<Rightarrow> None
   | Some (Inl e, s') \<Rightarrow> Some (Inl e, it, s')
   | Some (Inr buffer, s') \<Rightarrow> Some (async_chunk fetch buffer it s'))"

definition async_next ::
  "('s, byte list option) jsm \<Rightarrow> async_iter \<Rightarrow> 's \<Rightarrow> (IteratorResult res \<times> async_iter \<times> 's) option" where
  "async_next fetch it s =
     (if ai_first it then Some (Inr \<lparr>ir_done = False, ir_value = Some (ai_header it)\<rparr>, it\<lparr>ai_first := False\<rparr>, s)
      else if ai_depleted it then Some (Inr \<lparr>ir_done = True, ir_value = None\<rparr>, it, s)
      else (case ai_inFlight it of
        None \<Rightarrow> async_fetch_chunk fetch it s
      | Some (Inl e) \<Rightarrow> Some (Inl e, it, s)
      | Some (Inr None) \<Rightarrow> async_fetch_chunk fetch (it\<lparr>ai_inFlight := None\<rparr>) s
      | Some (Inr (Some buffer)) \<Rightarrow> Some (async_chunk fetch buffer (it\<lparr>ai_inFlight := None\<rparr>) s)))"

section \<open>Connections inside the worker\<close>

definition conn_close :: "'b DuckDBBindings \<Rightarrow> nat \<Rightarrow> ('b, unit) jsm" where
  "conn_close B conn = b_disconnect B conn"

definition conn_query :: "'b DuckDBBindings \<Rightarrow> (byte list \<Rightarrow> 'r res) \<Rightarrow> nat \<Rightarrow> string \<Rightarrow> ('b, 'r) jsm" where
  "conn_query B reader conn txt = js_bind (b_runQuery B conn txt) (\<lambda>buffer b. (reader buffer, b))"

text \<open>The rejection of a failed poll: a missing worker has its own message.\<close>

definition poll_error :: "js_error \<Rightarrow> js_error" where
  "poll_error e = (if contains ''worker is not set!'' (err_message e) then Error ''Worker has been terminated'' else e)"

definition conn_poll :: "'b DuckDBBindings \<Rightarrow> nat \<Rightarrow> ('b, byte list option) jsm" where
  "conn_poll B conn = js_try (b_pollPendingQuery B conn) (\<lambda>e. js_throw (poll_error e))"

definition conn_send :: "'b DuckDBBindings \<Rightarrow> nat \<Rightarrow> string \<Rightarrow> bool \<Rightarrow> 'b \<Rightarrow> (result_iter res \<times> 'b) option" where
  "conn_send B conn txt allowStreamResult b =
     (case b_startPendingQuery B conn txt allowStreamResult b of
        (Inl e, b') \<Rightarrow> Some (Inl e, b')
      | (Inr (Some header), b') \<Rightarrow> Some (Inr (ResultStreamIterator header), b')
      | (Inr None, b') \<Rightarrow> (case until_some (conn_poll B conn) b' of
          None \<Rightarrow> None
        | Some (Inl e, b'') \<Rightarrow> Some (Inl e, b'')
        | Some (Inr header, b'') \<Rightarrow> Some (Inr (ResultStreamIterator header), b'')))"

definition conn_cancelSent :: "'b DuckDBBindings \<Rightarrow> nat \<Rightarrow> ('b, bool) jsm" where
  "conn_cancelSent B conn = b_cancelPendingQuery B conn"

definition conn_getTableNames :: "'b DuckDBBindings \<Rightarrow> nat \<Rightarrow> string \<Rightarrow> ('b, string list) jsm" where
  "conn_getTableNames B conn txt = b_getTableNames B conn txt"

text \<open>A prepared statement is the pair of its connection and statement ids.\<close>

definition conn_prepare :: "'b DuckDBBindings \<Rightarrow> nat \<Rightarrow> string \<Rightarrow> ('b, nat \<times> nat) jsm" where
  "conn_prepare B conn txt = js_bind (b_createPrepared B conn txt) (\<lambda>stmt. js_ret (conn, stmt))"

definition conn_insertArrowFromIPCStream :: "'b DuckDBBindings \<Rightarrow> nat \<Rightarrow> byte list \<Rightarrow> ArrowInsertOptions \<Rightarrow> ('b, unit) jsm" where
  "conn_insertArrowFromIPCStream B conn buffer options = b_insertArrowFromIPCStream B conn buffer (Some options)"

definition conn_insertArrowTable ::
  "'b DuckDBBindings \<Rightarrow> ('t \<Rightarrow> byte list) \<Rightarrow> nat \<Rightarrow> 't \<Rightarrow> ArrowInsertOptions \<Rightarrow> ('b, unit) jsm" where
  "conn_insertArrowTable B tableToIPC conn table options = conn_insertArrowFromIPCStream B conn (tableToIPC table) options"

definition conn_insertCSVFromPath :: "'b DuckDBBindings \<Rightarrow> nat \<Rightarrow> string \<Rightarrow> CSVInsertOptions \<Rightarrow> ('b, unit) jsm" where
  "conn_insertCSVFromPath B conn p options = b_insertCSVFromPath B conn p options"

definition conn_insertJSONFromPath :: "'b DuckDBBindings \<Rightarrow> nat \<Rightarrow> string \<Rightarrow> JSONInsertOptions \<Rightarrow> ('b, unit) jsm" where
  "conn_insertJSONFromPath B conn p options = b_insertJSONFromPath B conn p options"

definition stmt_close :: "'b DuckDBBindings \<Rightarrow> nat \<times> nat \<Rightarrow> ('b, unit) jsm" where
  "stmt_close B st = b_closePrepared B (fst st) (snd st)"

definition stmt_query :: "'b DuckDBBindings \<Rightarrow> (byte list \<Rightarrow> 'r res) \<Rightarrow> nat \<times> nat \<Rightarrow> json list \<Rightarrow> ('b, 'r) jsm" where
  "stmt_query B reader st params = js_bind (b_runPrepared B (fst st) (snd st) params) (\<lambda>buffer b. (reader buffer, b))"

definition stmt_send :: "'b DuckDBBindings \<Rightarrow> nat \<times> nat \<Rightarrow> json list \<Rightarrow> ('b, result_iter) jsm" where
  "stmt_send B st params =
     js_bind (b_sendPrepared B (fst st) (snd st) params) (\<lambda>header. js_ret (ResultStreamIterator header))"

section \<open>Connections of the page\<close>

text \<open>The data of a response, read at the type the method declares.\<close>

definition as_buffer :: "response_data \<Rightarrow> byte list option" where
  "as_buffer dat = (case dat of D_buffer b \<Rightarrow> b | D_bytes b \<Rightarrow> Some b | _ \<Rightarrow> None)"

abbreviation async_fetch :: "(request_data \<Rightarrow> ('w, response_data) jsm) \<Rightarrow> nat \<Rightarrow> ('w, byte list option) jsm" where
  "async_fetch rpc conn \<equiv> js_bind (rpc (Q_FETCH_QUERY_RESULTS conn)) (\<lambda>dat. js_ret (as_buffer dat))"

definition async_conn_query ::
  "(request_data \<Rightarrow> ('w, response_data) jsm) \<Rightarrow> DuckDBConfig \<Rightarrow> (byte list \<Rightarrow> 'r res) \<Rightarrow> nat \<Rightarrow> string \<Rightarrow> ('w, 'r) jsm" where
  "async_conn_query rpc config reader conn txt =
     js_bind (async_runQuery rpc config conn txt) (\<lambda>dat w.
       (case as_buffer dat of Some buffer \<Rightarrow> (reader buffer, w) | None \<Rightarrow> (reader [], w)))"

definition async_conn_send ::
  "(request_data \<Rightarrow> ('w, response_data) jsm) \<Rightarrow> DuckDBConfig \<Rightarrow> ('w \<Rightarrow> bool) \<Rightarrow> nat \<Rightarrow> string \<Rightarrow> bool
     \<Rightarrow> 'w \<Rightarrow> (async_iter option res \<times> 'w) option" where
  "async_conn_send rpc config detached conn txt allowStreamResult w =
     (case js_bind (async_startPendingQuery rpc config conn txt allowStreamResult) (\<lambda>dat. js_ret (as_buffer dat)) w of
        (Inl e, w') \<Rightarrow> Some (Inl e, w')
      | (Inr (Some header), w') \<Rightarrow> Some (Inr (Some (AsyncResultStreamIterator header)), w')
      | (Inr None, w') \<Rightarrow>
          (case poll_attached detached (js_bind (rpc (Q_POLL_PENDING_QUERY conn)) (\<lambda>dat. js_ret (as_buffer dat))) w' of
             None \<Rightarrow> None
           | Some (Inl e, w'') \<Rightarrow> Some (Inl e, w'')
           | Some (Inr None, w'') \<Rightarrow> Some (Inr None, w'')
           | Some (Inr (Some header), w'') \<Rightarrow> Some (Inr (Some (AsyncResultStreamIterator header)), w'')))"

definition async_stmt_send ::
  "(request_data \<Rightarrow> ('w, response_data) jsm) \<Rightarrow> nat \<times> nat \<Rightarrow> json list \<Rightarrow> ('w, async_iter) jsm" where
  "async_stmt_send rpc st params =
     js_bind (rpc (Q_SEND_PREPARED (fst st) (snd st) params)) (\<lambda>dat.
       js_ret (AsyncResultStreamIterator (case as_buffer dat of Some h \<Rightarrow> h | None \<Rightarrow> [])))"

section \<open>Waiting ends\<close>

lemma until_some_Some:
  "f s = (Inr (Some x), s') \<Longrightarrow> until_some f s = Some (Inr x, s')"
  "f s = (Inl e, s') \<Longrightarrow> until_some f s = Some (Inl e, s')"
  "f s = (Inr None, s') \<Longrightarrow> until_some f s = until_some f s'"
  by (simp_all add: until_some.simps)

lemma until_some_after_nulls:
  "after_nulls f k s = Some s1 \<Longrightarrow> until_some f s = until_some f s1"
  by (induction f k s rule: after_nulls.induct)
    (auto simp: until_some_Some split: prod.splits sum.splits option.splits)

section \<open>Both iterators hand out the same results\<close>

text \<open>The results of up to \<open>n\<close> calls of \<open>next\<close>, as a consumer takes them: it stops at the end and at an error.\<close>

fun pull :: "('i \<Rightarrow> 's \<Rightarrow> (IteratorResult res \<times> 'i \<times> 's) option) \<Rightarrow> nat \<Rightarrow> 'i \<Rightarrow> 's \<Rightarrow> IteratorResult res list option" where
  "pull step 0 it s = Some []"
| "pull step (Suc n) it s = (case step it s of
     None \<Rightarrow> None
   | Some (Inl e, _) \<Rightarrow> Some [Inl e]
   | Some (Inr r, it', s') \<Rightarrow>
       if ir_done r then Some [Inr r] else map_option (\<lambda>rs. Inr r # rs) (pull step n it' s'))"

definition coupled :: "('s, byte list option) jsm \<Rightarrow> result_iter \<Rightarrow> 's \<Rightarrow> async_iter \<Rightarrow> 's \<Rightarrow> bool" where
  "coupled fetch it s ai t \<longleftrightarrow> ai_first ai = it_first it \<and> ai_depleted ai = it_depleted it \<and> ai_header ai = it_header it
     \<and> (case ai_inFlight ai of None \<Rightarrow> t = s | Some r \<Rightarrow> \<not> it_first it \<and> fetch s = (r, t))"

lemma coupled_fetch:
  assumes c: "coupled fetch it s ai t" and n: "\<not> it_first it" "\<not> it_depleted it"
  shows "case iter_next fetch it s of
     None \<Rightarrow> async_next fetch ai t = None
   | Some (Inl e, _) \<Rightarrow> (\<exists>ai' t'. async_next fetch ai t = Some (Inl e, ai', t'))
   | Some (Inr r, it', s') \<Rightarrow> (\<exists>ai' t'. async_next fetch ai t = Some (Inr r, ai', t') \<and> (ir_done r \<or> coupled fetch it' s' ai' t'))"
proof -
  have chunk: "async_chunk fetch buffer ai0 u = (Inr \<lparr>ir_done = (length buffer = 0), ir_value = Some buffer\<rparr>, ai1, u1) \<Longrightarrow>
      length buffer \<noteq> 0 \<Longrightarrow> ai_first ai0 = it_first it \<Longrightarrow> ai_header ai0 = it_header it \<Longrightarrow>
      coupled fetch (it\<lparr>it_depleted := False\<rparr>) u ai1 u1" for buffer ai0 u ai1 u1
    using n by (auto simp: async_chunk_def coupled_def split: prod.splits)
  have val: "\<exists>ai1 u1. async_chunk fetch buffer ai0 u = (Inr \<lparr>ir_done = (length buffer = 0), ir_value = Some buffer\<rparr>, ai1, u1)"
    for buffer ai0 u by (cases "fetch u") (simp add: async_chunk_def Let_def)
  have direct: "case iter_next fetch it s of
     None \<Rightarrow> async_fetch_chunk fetch ai0 u = None
   | Some (Inl e, _) \<Rightarrow> (\<exists>ai' t'. async_fetch_chunk fetch ai0 u = Some (Inl e, ai', t'))
   | Some (Inr r, it', s') \<Rightarrow> (\<exists>ai' t'. async_fetch_chunk fetch ai0 u = Some (Inr r, ai', t')
        \<and> (ir_done r \<or> coupled fetch it' s' ai' t'))"
    if "until_some fetch s = until_some fetch u" "ai_first ai0 = it_first it" "ai_header ai0 = it_header it" for ai0 u
  proof (cases "until_some fetch u")
    case None
    with that n show ?thesis by (simp add: iter_next_def async_fetch_chunk_def)
  next
    case (Some p)
    obtain r u' where p: "p = (r, u')" by force
    show ?thesis
    proof (cases r)
      case (Inl e)
      with that n Some p show ?thesis by (simp add: iter_next_def async_fetch_chunk_def)
    next
      case (Inr buffer)
      with val [of buffer ai0 u'] chunk [of buffer ai0 u'] that n Some p show ?thesis
        by (cases "length buffer = 0") (auto simp: iter_next_def async_fetch_chunk_def)
    qed
  qed
  have ai: "\<not> ai_first ai" "\<not> ai_depleted ai" "ai_header ai = it_header it" using c n by (auto simp: coupled_def)
  show ?thesis
  proof (cases "ai_inFlight ai")
    case None
    have "async_next fetch ai t = async_fetch_chunk fetch ai t" using None ai by (simp add: async_next_def)
    moreover have "t = s" "ai_first ai = it_first it" using c None by (simp_all add: coupled_def)
    ultimately show ?thesis using direct [of t ai] ai(3) by (simp only:)
  next
    case (Some r)
    then have f: "fetch s = (r, t)" using c by (simp add: coupled_def)
    consider e where "r = Inl e" | "r = Inr None" | buffer where "r = Inr (Some buffer)"
      by (metis not_None_eq obj_sumE)
    then show ?thesis
    proof cases
      case 1
      with f n ai Some show ?thesis by (simp add: iter_next_def async_next_def until_some_Some)
    next
      case 2
      have eq: "async_next fetch ai t = async_fetch_chunk fetch (ai\<lparr>ai_inFlight := None\<rparr>) t"
        using 2 Some ai by (simp add: async_next_def)
      have "until_some fetch s = until_some fetch t" using f 2 by (simp add: until_some_Some)
      moreover have "ai_first ai = it_first it" using c by (simp add: coupled_def)
      ultimately show ?thesis unfolding eq using ai(3) by (intro direct) simp_all
    next
      case 3
      let ?ai = "ai\<lparr>ai_inFlight := None\<rparr>"
      have step: "async_next fetch ai t = Some (async_chunk fetch buffer ?ai t)"
        using 3 ai Some by (simp add: async_next_def)
      have sync: "iter_next fetch it s = Some (Inr \<lparr>ir_done = (length buffer = 0), ir_value = Some buffer\<rparr>,
          it\<lparr>it_depleted := (length buffer = 0)\<rparr>, t)"
        using f 3 n by (simp add: iter_next_def until_some_Some)
      obtain ai1 u1 where v: "async_chunk fetch buffer ?ai t
          = (Inr \<lparr>ir_done = (length buffer = 0), ir_value = Some buffer\<rparr>, ai1, u1)"
        using val by blast
      with chunk [OF v] ai n show ?thesis
        by (cases "length buffer = 0") (simp_all add: step sync)
    qed
  qed
qed

lemma coupled_pull:
  "coupled fetch it s ai t \<Longrightarrow> pull (async_next fetch) n ai t = pull (iter_next fetch) n it s"
proof (induction n arbitrary: it s ai t)
  case (Suc n)
  show ?case
  proof (cases "it_first it \<or> it_depleted it")
    case True
    show ?thesis
    proof (cases "it_first it")
      case True
      with Suc.prems have "coupled fetch (it\<lparr>it_first := False\<rparr>) s (ai\<lparr>ai_first := False\<rparr>) t"
        by (auto simp: coupled_def split: option.splits)
      from Suc.IH [OF this] True Suc.prems show ?thesis
        by (simp add: iter_next_def async_next_def coupled_def)
    qed (use True Suc.prems in \<open>simp add: iter_next_def async_next_def coupled_def\<close>)
  next
    case False
    with coupled_fetch [OF Suc.prems] Suc.IH show ?thesis
      by (auto split: option.splits sum.splits prod.splits)
  qed
qed simp

section \<open>What a source of chunks delivers\<close>

text \<open>
  From a state a source delivers a list of chunks when, retries aside, its successive answers are those
  non-empty chunks and then an empty one.
\<close>

inductive delivers :: "('s, byte list option) jsm \<Rightarrow> 's \<Rightarrow> byte list list \<Rightarrow> bool" for fetch where
  dl_end: "after_nulls fetch k s = Some s1 \<Longrightarrow> fetch s1 = (Inr (Some []), s2) \<Longrightarrow> delivers fetch s []"
| dl_chunk: "after_nulls fetch k s = Some s1 \<Longrightarrow> fetch s1 = (Inr (Some c), s2) \<Longrightarrow> c \<noteq> [] \<Longrightarrow>
     delivers fetch s2 cs \<Longrightarrow> delivers fetch s (c # cs)"

definition yielded :: "byte list \<Rightarrow> IteratorResult res" where
  "yielded c = Inr \<lparr>ir_done = False, ir_value = Some c\<rparr>"

lemma pull_delivered:
  "delivers fetch s cs \<Longrightarrow> \<not> it_first it \<Longrightarrow> \<not> it_depleted it \<Longrightarrow>
     pull (iter_next fetch) (Suc (length cs)) it s
       = Some (map yielded cs @ [Inr \<lparr>ir_done = True, ir_value = Some []\<rparr>])"
proof (induction arbitrary: it rule: delivers.induct)
  case (dl_end k s s1 s2)
  then have "until_some fetch s = Some (Inr [], s2)" by (simp add: until_some_after_nulls until_some_Some)
  with dl_end show ?case by (simp add: iter_next_def)
next
  case (dl_chunk k s s1 c s2 cs)
  then have "until_some fetch s = Some (Inr c, s2)" by (simp add: until_some_after_nulls until_some_Some)
  with dl_chunk.IH [of "it\<lparr>it_depleted := False\<rparr>"] dl_chunk.prems dl_chunk.hyps show ?case
    by (simp add: iter_next_def yielded_def)
qed

text \<open>A source for the concrete runs: answers taken from a list.\<close>

fun listed :: "(byte list option list, byte list option) jsm" where
  "listed [] = (Inl (Error ''no more''), [])"
| "listed (x # xs) = (Inr x, xs)"

section \<open>Properties\<close>

text \<open>C6: A consumer sees the same results from the page's iterator, which asks for the next chunk ahead of
  time, as from the iterator that fetches on demand: the same chunks, the same end, the same error, and the same
  absence of a result where fetching never returns.\<close>

theorem async_stream_equals_sync_stream:
  "pull (async_next fetch) n (AsyncResultStreamIterator header) s
     = pull (iter_next fetch) n (ResultStreamIterator header) s"
  by (rule coupled_pull) (simp add: coupled_def ResultStreamIterator_def AsyncResultStreamIterator_def)

text \<open>C7: When the source of a streamed result delivers a list of chunks, with any number of retries between
  them, iterating yields the header, then exactly those chunks in order, then the end: no chunk is lost, repeated or
  reordered and no retry is visible.\<close>

theorem stream_yields_every_chunk_in_order:
  assumes "delivers fetch s chunks"
  shows "pull (iter_next fetch) (length chunks + 2) (ResultStreamIterator header) s
     = Some (yielded header # map yielded chunks @ [Inr \<lparr>ir_done = True, ir_value = Some []\<rparr>])"
proof -
  let ?it = "(ResultStreamIterator header)\<lparr>it_first := False\<rparr>"
  have step: "iter_next fetch (ResultStreamIterator header) s
      = Some (Inr \<lparr>ir_done = False, ir_value = Some header\<rparr>, ?it, s)"
    by (simp add: iter_next_def ResultStreamIterator_def)
  have "pull (iter_next fetch) (Suc (length chunks)) ?it s
      = Some (map yielded chunks @ [Inr \<lparr>ir_done = True, ir_value = Some []\<rparr>])"
    by (rule pull_delivered [OF assms]) (simp_all add: ResultStreamIterator_def)
  then show ?thesis by (simp add: step yielded_def del: pull.simps(2)) (simp add: pull.simps(2) [of _ "Suc (length chunks)"] step)
qed

theorem stream_yields_every_chunk_in_order_witness:
  "pull (iter_next listed) 3 (ResultStreamIterator [9]) [None, Some [1, 2], None, None, Some []]
     = Some [yielded [9], yielded [1, 2], Inr \<lparr>ir_done = True, ir_value = Some []\<rparr>]"
proof -
  have "delivers listed [None, None, Some []] []"
    by (rule dl_end [where k = 2 and ?s1.0 = "[Some []]" and ?s2.0 = "[]"]) (simp_all add: numeral_2_eq_2)
  then have "delivers listed [None, Some [1, 2], None, None, Some []] [[1, 2]]"
    by (intro dl_chunk [where k = 1 and ?s1.0 = "[Some [1, 2], None, None, Some []]"]) simp_all
  from stream_yields_every_chunk_in_order [OF this, of "[9]"] show ?thesis by (simp add: numeral_3_eq_3 numeral_2_eq_2)
qed

text \<open>C8: Sending a query returns: when the pending query is started without a header and polling gives
  \<open>null\<close> any number of times and then a header, \<open>send\<close> returns the iterator over that header; when polling throws
  instead, \<open>send\<close> rejects with that error, or with the error that names a terminated worker.\<close>

theorem send_returns:
  assumes "b_startPendingQuery B conn txt allow b = (Inr None, b0)"
    and "after_nulls (conn_poll B conn) k b0 = Some b1"
    and "b_pollPendingQuery B conn b1 = (r, b2)" and "r \<noteq> Inr None"
  shows "conn_send B conn txt allow b = Some (case r of
      Inl e \<Rightarrow> (Inl (if contains ''worker is not set!'' (err_message e) then Error ''Worker has been terminated'' else e), b2)
    | Inr header \<Rightarrow> (Inr (ResultStreamIterator (the header)), b2))"
proof (cases r)
  case (Inl e)
  with assms have "conn_poll B conn b1 = (Inl (poll_error e), b2)"
    by (simp add: conn_poll_def js_try_def js_throw_def)
  with assms Inl show ?thesis
    by (simp add: conn_send_def until_some_after_nulls until_some_Some poll_error_def)
next
  case (Inr x)
  with assms obtain h where h: "x = Some h" by auto
  with assms Inr have "conn_poll B conn b1 = (Inr (Some h), b2)"
    by (simp add: conn_poll_def js_try_def)
  with assms Inr h show ?thesis
    by (simp add: conn_send_def until_some_after_nulls until_some_Some)
qed

text \<open>Bindings whose polls are answered from a list.\<close>

definition polled_bindings :: "byte list option list DuckDBBindings" where
  "polled_bindings = undefined\<lparr>b_startPendingQuery := (\<lambda>_ _ _. js_ret None), b_pollPendingQuery := (\<lambda>_. listed)\<rparr>"

theorem send_returns_witness:
  "conn_send polled_bindings 0 ''SELECT 1'' False [None, None, Some [5]] = Some (Inr (ResultStreamIterator [5]), [])"
proof -
  have b: "b_startPendingQuery polled_bindings 0 ''SELECT 1'' False [None, None, Some [5]] = (Inr None, [None, None, Some [5]])"
    "b_pollPendingQuery polled_bindings 0 = listed"
    by (simp_all add: polled_bindings_def js_ret_def)
  have "after_nulls (conn_poll polled_bindings 0) 2 [None, None, Some [5]] = Some [Some [5]]"
    by (simp add: b conn_poll_def js_try_def numeral_2_eq_2)
  from send_returns [OF b(1) this, of "Inr (Some [5])" "[]"] b(2) show ?thesis by simp
qed

end
