(* ===== verification/Hb_Json.thy ===== *)
theory Hb_Json
  imports Hb_Protocol
begin

text \<open>
  \<open>JSON.stringify\<close> and \<open>JSON.parse\<close> on the values the bindings exchange with the engine: literals, integers,
  strings, arrays and objects with their properties in insertion order (names that are array indices, which
  JavaScript would put first, do not occur). A number may have a fraction of zeros, which the engine prints for what it
  holds as a double. Other fractions, exponents and \<open>\u\<close> escapes of
  surrogate pairs do not occur in what the bindings build and are outside the model.
\<close>

section \<open>Printing\<close>

fun hex_digit :: "nat \<Rightarrow> char" where
  "hex_digit n = (if n < 10 then char_of (48 + n) else char_of (87 + n))"

definition escape :: "char \<Rightarrow> string" where
  "escape c =
     (if c = CHR 0x22 then [CHR 0x5C, CHR 0x22]
      else if c = CHR 0x5C then [CHR 0x5C, CHR 0x5C]
      else if c = CHR 0x08 then [CHR 0x5C, CHR ''b'']
      else if c = CHR 0x0C then [CHR 0x5C, CHR ''f'']
      else if c = CHR 0x0A then [CHR 0x5C, CHR ''n'']
      else if c = CHR 0x0D then [CHR 0x5C, CHR ''r'']
      else if c = CHR 0x09 then [CHR 0x5C, CHR ''t'']
      else if of_char c < (32 :: nat)
      then [CHR 0x5C, CHR ''u'', CHR ''0'', CHR ''0'', hex_digit (of_char c div 16), hex_digit (of_char c mod 16)]
      else [c])"

definition stringify_string :: "string \<Rightarrow> string" where
  "stringify_string s = CHR 0x22 # concat (map escape s) @ [CHR 0x22]"

fun join :: "string \<Rightarrow> string list \<Rightarrow> string" where
  "join sep [] = []"
| "join sep [x] = x"
| "join sep (x # y # ys) = x @ sep @ join sep (y # ys)"

fun stringify :: "json \<Rightarrow> string" where
  "stringify JNull = ''null''"
| "stringify (JBool b) = (if b then ''true'' else ''false'')"
| "stringify (JNum i) = show_int i"
| "stringify (JStr s) = stringify_string s"
| "stringify (JArr xs) = CHR ''['' # join '','' (map stringify xs) @ '']''"
| "stringify (JObj kvs) = CHR ''{'' # join '','' (map (\<lambda>(k, v). stringify_string k @ '':'' @ stringify v) kvs) @ ''}''"

section \<open>Parsing\<close>

definition json_space :: "char \<Rightarrow> bool" where
  "json_space c \<longleftrightarrow> c \<in> {CHR '' '', CHR 0x09, CHR 0x0A, CHR 0x0D}"

abbreviation json_ws :: "string \<Rightarrow> string" where
  "json_ws \<equiv> dropWhile json_space"

definition is_digit :: "char \<Rightarrow> bool" where
  "is_digit c \<longleftrightarrow> 48 \<le> (of_char c :: nat) \<and> (of_char c :: nat) \<le> 57"

definition digits_value :: "string \<Rightarrow> nat" where
  "digits_value ds = foldl (\<lambda>n c. n * 10 + (of_char c - 48)) 0 ds"

definition parse_nat :: "string \<Rightarrow> (nat \<times> string) option" where
  "parse_nat s = (case takeWhile is_digit s of
     [] \<Rightarrow> None
   | ds \<Rightarrow> if hd ds = CHR ''0'' \<and> length ds > 1 then None else Some (digits_value ds, dropWhile is_digit s))"

text \<open>The fraction of an integral number that the engine holds as a double, as in \<open>3.0\<close>.\<close>

definition after_fraction :: "string \<Rightarrow> string option" where
  "after_fraction t =
     (if t = [] \<or> hd t \<noteq> CHR ''.'' then Some t
      else (let ds = takeWhile is_digit (tl t) in
        if ds = [] \<or> list_ex (\<lambda>d. d \<noteq> CHR ''0'') ds then None else Some (dropWhile is_digit (tl t))))"

definition parse_int :: "string \<Rightarrow> (int \<times> string) option" where
  "parse_int s =
     (case (if s \<noteq> [] \<and> hd s = CHR ''-'' then map_option (\<lambda>(n, t). (- int n, t)) (parse_nat (tl s))
            else map_option (\<lambda>(n, t). (int n, t)) (parse_nat s)) of
        None \<Rightarrow> None
      | Some (i, t) \<Rightarrow> map_option (\<lambda>t. (i, t)) (after_fraction t))"

definition hex_value :: "char \<Rightarrow> nat option" where
  "hex_value c = (let n = of_char c :: nat in
     if 48 \<le> n \<and> n \<le> 57 then Some (n - 48) else if 97 \<le> n \<and> n \<le> 102 then Some (n - 87)
     else if 65 \<le> n \<and> n \<le> 70 then Some (n - 55) else None)"

text \<open>The character an escape stands for; of the \<open>\u\<close> escapes those of ASCII.\<close>

definition unescape_unit :: "string \<Rightarrow> (char \<times> string) option" where
  "unescape_unit s =
     (if length s < 4 \<or> s ! 0 \<noteq> CHR ''0'' \<or> s ! 1 \<noteq> CHR ''0'' then None
      else (case (hex_value (s ! 2), hex_value (s ! 3)) of
              (Some x, Some y) \<Rightarrow> if x < 8 then Some (char_of (16 * x + y), drop 4 s) else None
            | _ \<Rightarrow> None))"

fun unescape :: "string \<Rightarrow> (char \<times> string) option" where
  "unescape [] = None"
| "unescape (c # r) =
     (if c = CHR ''u'' then unescape_unit r
      else if c = CHR ''b'' then Some (CHR 0x08, r) else if c = CHR ''f'' then Some (CHR 0x0C, r)
      else if c = CHR ''n'' then Some (CHR 0x0A, r) else if c = CHR ''r'' then Some (CHR 0x0D, r)
      else if c = CHR ''t'' then Some (CHR 0x09, r)
      else if c \<in> {CHR 0x22, CHR 0x5C, CHR ''/''} then Some (c, r) else None)"

lemma unescape_length: "unescape s = Some (c, r) \<Longrightarrow> length r < length s"
  by (cases s) (auto simp: unescape_unit_def split: if_splits option.splits)

text \<open>The rest of a string after its opening quote.\<close>

function parse_string :: "string \<Rightarrow> (string \<times> string) option" where
  "parse_string [] = None"
| "parse_string (c # s) =
     (if c = CHR 0x22 then Some ([], s)
      else if c = CHR 0x5C
      then (case unescape s of None \<Rightarrow> None
            | Some (d, r) \<Rightarrow> map_option (\<lambda>(ds, t). (d # ds, t)) (parse_string r))
      else if of_char c < (32 :: nat) then None
      else map_option (\<lambda>(ds, t). (c # ds, t)) (parse_string s))"
  by pat_completeness auto
termination
  by (relation "measure length") (auto dest: unescape_length)

text \<open>The properties of a parsed object: a repeated name keeps its place and takes the later value.\<close>

definition object_of :: "(string \<times> json) list \<Rightarrow> (string \<times> json) list" where
  "object_of kvs = foldl (\<lambda>m (k, v). jm_set k v m) [] kvs"

text \<open>The nesting is bounded by the length of the text, which is the fuel of \<open>JSON_parse\<close>.\<close>

fun parse_value :: "nat \<Rightarrow> string \<Rightarrow> (json \<times> string) option"
  and parse_elements :: "nat \<Rightarrow> string \<Rightarrow> (json list \<times> string) option"
  and parse_members :: "nat \<Rightarrow> string \<Rightarrow> ((string \<times> json) list \<times> string) option" where
  "parse_value 0 s = None"
| "parse_value (Suc n) s = (let s = json_ws s in
     if starts_with ''null'' s then Some (JNull, drop 4 s)
     else if starts_with ''true'' s then Some (JBool True, drop 4 s)
     else if starts_with ''false'' s then Some (JBool False, drop 5 s)
     else (case s of
       [] \<Rightarrow> None
     | c # r \<Rightarrow>
         if c = CHR 0x22 then map_option (\<lambda>(x, t). (JStr x, t)) (parse_string r)
         else if c = CHR ''['' then
           (case json_ws r of
              [] \<Rightarrow> None
            | d # r' \<Rightarrow> if d = CHR '']'' then Some (JArr [], r')
                else map_option (\<lambda>(xs, t). (JArr xs, t)) (parse_elements n r))
         else if c = CHR ''{'' then
           (case json_ws r of
              [] \<Rightarrow> None
            | d # r' \<Rightarrow> if d = CHR ''}'' then Some (JObj [], r')
                else map_option (\<lambda>(xs, t). (JObj (object_of xs), t)) (parse_members n r))
         else map_option (\<lambda>(i, t). (JNum i, t)) (parse_int s)))"
| "parse_elements 0 s = None"
| "parse_elements (Suc n) s = (case parse_value n s of
     None \<Rightarrow> None
   | Some (x, t) \<Rightarrow> (case json_ws t of
       [] \<Rightarrow> None
     | c # r \<Rightarrow> if c = CHR '']'' then Some ([x], r)
         else if c = CHR '','' then map_option (\<lambda>(xs, u). (x # xs, u)) (parse_elements n r)
         else None))"
| "parse_members 0 s = None"
| "parse_members (Suc n) s = (case json_ws s of
     [] \<Rightarrow> None
   | q # r \<Rightarrow> if q \<noteq> CHR 0x22 then None else (case parse_string r of
       None \<Rightarrow> None
     | Some (k, t) \<Rightarrow> (case json_ws t of
         [] \<Rightarrow> None
       | c # v \<Rightarrow> if c \<noteq> CHR '':'' then None else (case parse_value n v of
           None \<Rightarrow> None
         | Some (x, u) \<Rightarrow> (case json_ws u of
             [] \<Rightarrow> None
           | e # w \<Rightarrow> if e = CHR ''}'' then Some ([(k, x)], w)
               else if e = CHR '','' then map_option (\<lambda>(xs, y). ((k, x) # xs, y)) (parse_members n w)
               else None)))))"

definition JSON_parse :: "string \<Rightarrow> json res" where
  "JSON_parse s = (case parse_value (2 * length s + 1) s of
     Some (j, t) \<Rightarrow> if json_ws t = [] then Inr j else Inl (JsError ''SyntaxError'' ''Unexpected non-whitespace character after JSON'')
   | None \<Rightarrow> Inl (JsError ''SyntaxError'' ''Unexpected token in JSON''))"

section \<open>Round trip\<close>

lemma char_code_less [simp]: "(of_char c :: nat) < 256"
  using nat_of_char_less_256 [of c] by simp

lemma hex_digit_value: "n < 16 \<Longrightarrow> hex_value (hex_digit n) = Some n"
  by (auto simp: hex_value_def Let_def)

lemma parse_string_escape:
  "parse_string (escape c @ t) = map_option (\<lambda>(ds, u). (c # ds, u)) (parse_string t)"
proof (cases "c \<in> {CHR 0x22, CHR 0x5C, CHR 0x08, CHR 0x0C, CHR 0x0A, CHR 0x0D, CHR 0x09}")
  case True
  then show ?thesis by (auto simp: escape_def)
next
  case False
  show ?thesis
  proof (cases "(of_char c :: nat) < 32")
    case True
    let ?n = "of_char c :: nat"
    have "unescape_unit (CHR ''0'' # CHR ''0'' # hex_digit (?n div 16) # hex_digit (?n mod 16) # t) = Some (c, t)"
      using True hex_digit_value [of "?n div 16"] hex_digit_value [of "?n mod 16"]
      by (simp add: unescape_unit_def del: hex_digit.simps)
    with True False show ?thesis by (simp add: escape_def del: hex_digit.simps)
  next
    case False
    with \<open>c \<notin> _\<close> show ?thesis by (simp add: escape_def)
  qed
qed

lemma parse_stringified: "parse_string (concat (map escape s) @ CHR 0x22 # rest) = Some (s, rest)"
  by (induction s) (simp_all add: parse_string_escape del: parse_string.simps, simp)

lemma show_nat_digits: "c \<in> set (show_nat n) \<Longrightarrow> is_digit c"
proof (induction n rule: show_nat.induct)
  case (1 n)
  show ?case
  proof (cases "n < 10")
    case True
    with 1(2) show ?thesis by (simp add: show_nat.simps [of n] is_digit_def)
  next
    case False
    with 1 show ?thesis by (auto simp: show_nat.simps [of n] is_digit_def)
  qed
qed

lemma show_nat_value: "digits_value (show_nat n) = n"
proof (induction n rule: show_nat.induct)
  case (1 n)
  show ?case
  proof (cases "n < 10")
    case True
    then show ?thesis by (simp add: show_nat.simps [of n] digits_value_def)
  next
    case False
    with 1 have "digits_value (show_nat (n div 10)) = n div 10" by simp
    moreover have "(48 + n mod 10) mod 256 = 48 + n mod 10" by simp
    ultimately show ?thesis using False by (simp add: show_nat.simps [of n] digits_value_def)
  qed
qed

lemma show_nat_ne [simp]: "show_nat n \<noteq> []"
  by (simp add: show_nat.simps [of n])

lemma show_nat_no_zero: "n > 0 \<Longrightarrow> hd (show_nat n) \<noteq> CHR ''0''"
proof (induction n rule: show_nat.induct)
  case (1 n)
  show ?case
  proof (cases "n < 10")
    case True
    then have "(of_char (hd (show_nat n)) :: nat) = 48 + n" by (simp add: show_nat.simps [of n])
    with 1(2) show ?thesis by auto
  next
    case False
    with 1 show ?thesis by (simp add: show_nat.simps [of n])
  qed
qed

lemma parse_shown_nat:
  assumes "rest = [] \<or> \<not> is_digit (hd rest)"
  shows "parse_nat (show_nat n @ rest) = Some (n, rest)"
proof -
  have "takeWhile is_digit (show_nat n @ rest) = show_nat n" "dropWhile is_digit (show_nat n @ rest) = rest"
    using assms show_nat_digits by (cases rest; auto simp: takeWhile_append dropWhile_append)+
  moreover have "\<not> (hd (show_nat n) = CHR ''0'' \<and> length (show_nat n) > 1)"
    using show_nat_no_zero [of n] by (cases "n = 0") (auto simp: show_nat.simps [of 0])
  moreover obtain d ds where d: "show_nat n = d # ds" by (cases "show_nat n") simp_all
  ultimately show ?thesis using show_nat_value [of n] unfolding parse_nat_def d by simp
qed

lemma minus_not_digit: "hd (show_nat n) \<noteq> CHR ''-''"
  using show_nat_digits [of "hd (show_nat n)" n] by (auto simp: is_digit_def)

lemma parse_shown_int:
  assumes "rest = [] \<or> \<not> is_digit (hd rest) \<and> hd rest \<noteq> CHR ''.''"
  shows "parse_int (show_int i @ rest) = Some (i, rest)"
  using assms parse_shown_nat [of rest] minus_not_digit [of "nat i"]
  by (auto simp: parse_int_def show_int_def after_fraction_def)

text \<open>Objects whose names are distinct, at every depth.\<close>

fun json_wf :: "json \<Rightarrow> bool" where
  "json_wf (JArr xs) = (\<forall>x \<in> set xs. json_wf x)"
| "json_wf (JObj kvs) = (distinct (map fst kvs) \<and> (\<forall>(k, v) \<in> set kvs. json_wf v))"
| "json_wf _ = True"

lemma object_of_distinct: "distinct (map fst kvs) \<Longrightarrow> object_of kvs = kvs"
proof -
  have "distinct (map fst (m @ kvs)) \<Longrightarrow> foldl (\<lambda>m (k, v). jm_set k v m) m kvs = m @ kvs" for m
  proof (induction kvs arbitrary: m)
    case (Cons kv kvs)
    obtain k v where kv: "kv = (k, v)" by force
    with Cons.prems have "jm_set k v m = m @ [(k, v)]" by (intro jm_set_fresh) (auto simp: map_of_eq_None_iff)
    with Cons.IH [of "m @ [(k, v)]"] Cons.prems kv show ?case by simp
  qed simp
  from this [of "[]"] show "distinct (map fst kvs) \<Longrightarrow> object_of kvs = kvs" by (simp add: object_of_def)
qed

lemma first_char:
  "\<exists>c r. stringify j = c # r \<and> \<not> json_space c \<and> c \<noteq> CHR '']'' \<and> c \<noteq> CHR ''}''"
proof (cases j)
  case (JNum i)
  obtain d ds where "show_nat (nat \<bar>i\<bar>) = d # ds" by (cases "show_nat (nat \<bar>i\<bar>)") simp_all
  moreover from this have "is_digit d" using show_nat_digits [of d "nat \<bar>i\<bar>"] by simp
  then have "\<not> json_space d \<and> d \<noteq> CHR '']'' \<and> d \<noteq> CHR ''}''"
    by (auto simp: is_digit_def json_space_def)
  ultimately show ?thesis using JNum by (auto simp: show_int_def json_space_def abs_if split: if_splits)
qed (auto simp: json_space_def stringify_string_def)

lemma stringify_ws: "json_ws (stringify j @ t) = stringify j @ t"
  using first_char [of j] by auto

text \<open>What may follow a value.\<close>

definition value_end :: "string \<Rightarrow> bool" where
  "value_end t \<longleftrightarrow> t = [] \<or> (hd t \<in> {CHR '','', CHR '']'', CHR ''}''})"

lemma value_endD: "value_end t \<Longrightarrow> t = [] \<or> \<not> is_digit (hd t) \<and> hd t \<noteq> CHR ''.''"
  by (auto simp: value_end_def is_digit_def)

lemma parse_number:
  assumes "value_end t"
  shows "parse_value (Suc n) (show_int i @ t) = Some (JNum i, t)"
proof -
  obtain d ds where d: "show_nat (nat \<bar>i\<bar>) = d # ds" by (cases "show_nat (nat \<bar>i\<bar>)") simp_all
  then have dig: "is_digit d" using show_nat_digits [of d "nat \<bar>i\<bar>"] by simp
  obtain c r where c: "show_int i = c # r" "c = CHR ''-'' \<or> is_digit c"
    using d dig by (auto simp: show_int_def abs_if split: if_splits)
  then have "\<not> json_space c \<and> c \<notin> {CHR ''n'', CHR ''t'', CHR ''f'', CHR 0x22, CHR ''['', CHR ''{''}"
    by (auto simp: is_digit_def json_space_def)
  with c(1) parse_shown_int [OF value_endD [OF assms], of i] show ?thesis by (auto simp: Let_def)
qed

lemma parse_text:
  "parse_value (Suc n) (stringify_string s @ t) = Some (JStr s, t)"
  using parse_stringified [of s t] by (simp add: stringify_string_def Let_def json_space_def)

abbreviation member :: "string \<times> json \<Rightarrow> string" where
  "member kv \<equiv> stringify_string (fst kv) @ '':'' @ stringify (snd kv)"

lemma stringify_obj: "stringify (JObj kvs) = CHR ''{'' # join '','' (map member kvs) @ ''}''"
  by (simp add: case_prod_unfold)

lemma parse_elements_joined:
  assumes "\<And>x t n. x \<in> set xs \<Longrightarrow> value_end t \<Longrightarrow> 2 * length (stringify x) + 1 \<le> n \<Longrightarrow>
       parse_value n (stringify x @ t) = Some (x, t)"
  shows "xs \<noteq> [] \<Longrightarrow> 2 * length (join '','' (map stringify xs)) + 2 \<le> n \<Longrightarrow>
     parse_elements n (join '','' (map stringify xs) @ CHR '']'' # t) = Some (xs, t)"
  using assms
proof (induction xs arbitrary: n)
  case (Cons x xs)
  obtain m where n: "n = Suc m" using Cons.prems(2) by (cases n) simp_all
  show ?case
  proof (cases xs)
    case Nil
    with Cons.prems n have "parse_value m (stringify x @ CHR '']'' # t) = Some (x, CHR '']'' # t)"
      by (intro Cons.prems(3)) (simp_all add: value_end_def)
    with Nil n show ?thesis by (simp add: json_space_def)
  next
    case (Cons y ys)
    let ?t = "CHR '','' # join '','' (map stringify xs) @ CHR '']'' # t"
    have j: "join '','' (map stringify (x # xs)) = stringify x @ '','' @ join '','' (map stringify xs)"
      by (simp add: Cons)
    have "parse_value m (stringify x @ ?t) = Some (x, ?t)"
      using Cons.prems(2) n unfolding j by (intro Cons.prems(3)) (simp_all add: value_end_def)
    moreover have "parse_elements m (join '','' (map stringify xs) @ CHR '']'' # t) = Some (xs, t)"
      using Cons.prems n unfolding j by (intro Cons.IH) (simp_all add: \<open>xs = y # ys\<close> del: join.simps)
    ultimately show ?thesis unfolding j n by (simp add: json_space_def)
  qed
qed simp

lemma parse_member:
  assumes "parse_value m (stringify (snd kv) @ u) = Some (snd kv, u)" "u \<noteq> []" "json_ws u = u"
  shows "parse_members (Suc m) (member kv @ u) = (case u of [] \<Rightarrow> None
     | e # w \<Rightarrow> if e = CHR ''}'' then Some ([kv], w)
        else if e = CHR '','' then map_option (\<lambda>(xs, y). (kv # xs, y)) (parse_members m w) else None)"
proof -
  obtain k v where kv: "kv = (k, v)" by force
  have "parse_members (Suc m) (member kv @ u) = (case json_ws u of [] \<Rightarrow> None
     | e # w \<Rightarrow> if e = CHR ''}'' then Some ([kv], w)
        else if e = CHR '','' then map_option (\<lambda>(xs, y). (kv # xs, y)) (parse_members m w) else None)"
    using assms(1) parse_stringified [of k "CHR '':'' # stringify v @ u"] unfolding kv
    by (simp add: stringify_string_def json_space_def)
  then show ?thesis by (simp only: assms(3))
qed

lemma parse_members_joined:
  assumes "\<And>kv t n. kv \<in> set kvs \<Longrightarrow> value_end t \<Longrightarrow> 2 * length (stringify (snd kv)) + 1 \<le> n \<Longrightarrow>
       parse_value n (stringify (snd kv) @ t) = Some (snd kv, t)"
  shows "kvs \<noteq> [] \<Longrightarrow> 2 * length (join '','' (map member kvs)) + 2 \<le> n \<Longrightarrow>
     parse_members n (join '','' (map member kvs) @ CHR ''}'' # t) = Some (kvs, t)"
  using assms
proof (induction kvs arbitrary: n)
  case (Cons kv kvs)
  obtain m where n: "n = Suc m" using Cons.prems(2) by (cases n) simp_all
  show ?case
  proof (cases kvs)
    case Nil
    let ?u = "CHR ''}'' # t"
    have "parse_value m (stringify (snd kv) @ ?u) = Some (snd kv, ?u)"
      using Cons.prems(2) n Nil by (intro Cons.prems(3)) (simp_all add: value_end_def)
    from parse_member [OF this] Nil n show ?thesis by (simp add: json_space_def)
  next
    case (Cons y ys)
    let ?u = "CHR '','' # join '','' (map member kvs) @ CHR ''}'' # t"
    have j: "join '','' (map member (kv # kvs)) = member kv @ '','' @ join '','' (map member kvs)"
      by (simp add: Cons)
    have "parse_value m (stringify (snd kv) @ ?u) = Some (snd kv, ?u)"
      using Cons.prems(2) n unfolding j by (intro Cons.prems(3)) (simp_all add: value_end_def)
    note mem = parse_member [OF this]
    have "parse_members m (join '','' (map member kvs) @ CHR ''}'' # t) = Some (kvs, t)"
      using Cons.prems n unfolding j by (intro Cons.IH) (simp_all add: \<open>kvs = y # ys\<close> del: join.simps)
    then show ?thesis using mem unfolding j n by (simp add: json_space_def)
  qed
qed simp

lemma parse_stringify:
  "json_wf j \<Longrightarrow> value_end t \<Longrightarrow> 2 * length (stringify j) + 1 \<le> n \<Longrightarrow> parse_value n (stringify j @ t) = Some (j, t)"
proof (induction j arbitrary: n t)
  case (JNum i)
  then show ?case using parse_number by (cases n) simp_all
next
  case (JStr s)
  then show ?case using parse_text by (cases n) simp_all
next
  case (JArr xs)
  obtain m where n: "n = Suc m" using JArr.prems(3) by (cases n) simp_all
  show ?case
  proof (cases xs)
    case Nil
    with n show ?thesis by (simp add: Let_def json_space_def)
  next
    case (Cons x ys)
    then obtain c r where c: "join '','' (map stringify xs) = c # r" "\<not> json_space c" "c \<noteq> CHR '']''"
      using first_char [of x] by (cases ys) auto
    have "parse_elements m (join '','' (map stringify xs) @ CHR '']'' # t) = Some (xs, t)"
      using JArr.prems n JArr.IH Cons by (intro parse_elements_joined) auto
    with c n show ?thesis by (simp add: Let_def json_space_def)
  qed
next
  case (JObj kvs)
  obtain m where n: "n = Suc m" using JObj.prems(3) by (cases n) simp_all
  show ?case
  proof (cases kvs)
    case Nil
    with n show ?thesis by (simp add: Let_def json_space_def)
  next
    case (Cons kv ys)
    then obtain r where c: "join '','' (map member kvs) = CHR 0x22 # r"
      by (cases ys) (auto simp: stringify_string_def)
    have "parse_members m (join '','' (map member kvs) @ CHR ''}'' # t) = Some (kvs, t)"
    proof (rule parse_members_joined)
      show "kvs \<noteq> []" using Cons by simp
      show "2 * length (join '','' (map member kvs)) + 2 \<le> m"
        using JObj.prems(3) n unfolding stringify_obj by simp
    next
      fix kv u k
      assume "kv \<in> set kvs" "value_end u" "2 * length (stringify (snd kv)) + 1 \<le> k"
      with JObj show "parse_value k (stringify (snd kv) @ u) = Some (snd kv, u)"
        by (cases kv) (auto simp: snds.simps)
    qed
    moreover have "object_of kvs = kvs" using JObj.prems(1) by (simp add: object_of_distinct)
    ultimately show ?thesis unfolding stringify_obj n using c by (simp add: Let_def json_space_def)
  qed
next
  case JNull
  then show ?case by (cases n) (simp_all add: Let_def json_space_def)
next
  case (JBool b)
  then show ?case by (cases n) (simp_all add: Let_def json_space_def)
qed

text \<open>\<open>JSON.parse\<close> reads back exactly the value \<open>JSON.stringify\<close> wrote.\<close>

lemma JSON_roundtrip:
  assumes "json_wf j"
  shows "JSON_parse (stringify j) = Inr j"
  using parse_stringify [OF assms, of "[]" "2 * length (stringify j) + 1"] by (simp add: JSON_parse_def value_end_def)

end
