(* ===== verification/Hb_Wasm.thy ===== *)
theory Hb_Wasm
  imports Hb_Json
begin

text \<open>
  The WebAssembly module as the TypeScript code sees it (\<open>bindings/duckdb_module.ts\<close>) and the helpers of
  \<open>bindings/runtime.ts\<close> that talk to it.

  The module itself, with its memory, stack, allocator and the engine behind \<open>ccall\<close>, is not TypeScript: its
  state is the type variable \<open>'e\<close> and its operations are the fields of the record \<open>wasm\<close>, a parameter of
  everything below. Cells of \<open>HEAPF64\<close> hold the integers the engine stores there.
\<close>

section \<open>The module's interface\<close>

datatype ccall_arg = A_num int | A_str string | A_bool bool

record 'e wasm =
  w_HEAPU8 :: "'e \<Rightarrow> byte list"
  w_setHEAPU8 :: "nat \<Rightarrow> byte list \<Rightarrow> 'e \<Rightarrow> 'e"
  w_HEAPF64 :: "'e \<Rightarrow> nat \<Rightarrow> int"
  w_setHEAPF64 :: "nat \<Rightarrow> int \<Rightarrow> 'e \<Rightarrow> 'e"
  w_setHEAP32 :: "nat \<Rightarrow> int \<Rightarrow> 'e \<Rightarrow> 'e"
  w_stackSave :: "'e \<Rightarrow> nat"
  w_stackAlloc :: "nat \<Rightarrow> 'e \<Rightarrow> nat \<times> 'e"
  w_stackRestore :: "nat \<Rightarrow> 'e \<Rightarrow> 'e"
  w_malloc :: "nat \<Rightarrow> 'e \<Rightarrow> nat \<times> 'e"
  w_free :: "nat \<Rightarrow> 'e \<Rightarrow> 'e"
  w_ccall :: "string \<Rightarrow> ccall_arg list \<Rightarrow> ('e, int) jsm"
  w_memory :: "'e \<Rightarrow> nat"
  w_sharedMemory :: "'e \<Rightarrow> bool"
  w_pthread :: "'e \<Rightarrow> (nat list \<times> nat list) option"

text \<open>The workers that host a thread, and those that wait in the pool.\<close>

definition runningWorkers :: "'e wasm \<Rightarrow> 'e \<Rightarrow> nat list" where
  "runningWorkers W e = (case w_pthread W e of None \<Rightarrow> [] | Some (run, unused) \<Rightarrow> run)"

definition unusedWorkers :: "'e wasm \<Rightarrow> 'e \<Rightarrow> nat list" where
  "unusedWorkers W e = (case w_pthread W e of None \<Rightarrow> [] | Some (run, unused) \<Rightarrow> unused)"

section \<open>Reading and writing the heap\<close>

definition heap_view :: "'e wasm \<Rightarrow> nat \<Rightarrow> nat \<Rightarrow> 'e \<Rightarrow> byte list" where
  "heap_view W begin len e = subarray begin (begin + len) (w_HEAPU8 W e)"

definition copyBuffer :: "'e wasm \<Rightarrow> nat \<Rightarrow> nat \<Rightarrow> ('e, byte list) jsm" where
  "copyBuffer W begin len e = (Inr (heap_view W begin len e), e)"

definition readString :: "'e wasm \<Rightarrow> nat \<Rightarrow> nat \<Rightarrow> ('e, string) jsm" where
  "readString W begin len e = (Inr (text_decode (heap_view W begin len e)), e)"

text \<open>\<open>HEAPU8.subarray(ptr, ptr + n).set(bytes)\<close>: writing past the end of the heap throws.\<close>

definition store_bytes :: "'e wasm \<Rightarrow> nat \<Rightarrow> byte list \<Rightarrow> ('e, unit) jsm" where
  "store_bytes W ptr bytes e =
     (if length (heap_view W ptr (length bytes) e) < length bytes
      then (Inl (RangeError ''offset is out of bounds''), e)
      else (Inr (), w_setHEAPU8 W ptr bytes e))"

definition failWith :: "'e wasm \<Rightarrow> string \<Rightarrow> ('e, unit) jsm" where
  "failWith W msg = js_bind (w_ccall W ''duckdb_web_fail_with'' [A_str msg]) (\<lambda>_. js_ret ())"

text \<open>
  \<open>callSRet\<close>: a response of three numbers is allocated on the module's stack, filled by the call, read, and the
  stack is restored. A call that throws leaves the function before that.
\<close>

definition callSRet :: "'e wasm \<Rightarrow> string \<Rightarrow> ccall_arg list \<Rightarrow> ('e, int \<times> nat \<times> nat) jsm" where
  "callSRet W funcName args e =
     (let stackPointer = w_stackSave W e;
          (response, e1) = w_stackAlloc W (3 * 8) e
      in (case w_ccall W funcName (A_num (int response) # args) e1 of
            (Inl err, e2) \<Rightarrow> (Inl err, e2)
          | (Inr _, e2) \<Rightarrow>
              (Inr (w_HEAPF64 W e2 (drop_bit 3 response + 0), nat (w_HEAPF64 W e2 (drop_bit 3 response + 1)),
                    nat (w_HEAPF64 W e2 (drop_bit 3 response + 2))),
               w_stackRestore W stackPointer e2)))"

definition dropResponseBuffers :: "'e wasm \<Rightarrow> ('e, unit) jsm" where
  "dropResponseBuffers W = js_bind (w_ccall W ''duckdb_web_clear_response'' []) (\<lambda>_. js_ret ())"

section \<open>Heap views after a growth of shared memory\<close>

text \<open>
  \<open>keepHeapViewsCurrent\<close> replaces each view of the module by an accessor. A view is the buffer it was made over;
  the accessor makes a fresh one whenever the memory's buffer is another.
\<close>

record heap_accessor =
  ha_view :: "nat option"
  ha_kept :: bool

definition keepHeapViewsCurrent :: "bool \<Rightarrow> bool \<Rightarrow> nat option \<Rightarrow> heap_accessor" where
  "keepHeapViewsCurrent wasmMemory shared view = \<lparr>ha_view = view, ha_kept = (wasmMemory \<and> shared)\<rparr>"

definition heap_get :: "nat \<Rightarrow> heap_accessor \<Rightarrow> nat option \<times> heap_accessor" where
  "heap_get buffer a =
     (if \<not> ha_kept a then (ha_view a, a)
      else let a = (if ha_view a = None \<or> ha_view a \<noteq> Some buffer then a\<lparr>ha_view := Some buffer\<rparr> else a)
           in (ha_view a, a))"

definition heap_set :: "nat \<Rightarrow> heap_accessor \<Rightarrow> heap_accessor" where
  "heap_set fresh a = a\<lparr>ha_view := Some fresh\<rparr>"

end
