(* ===== verification/Hb_Bindings.thy ===== *)
theory Hb_Bindings
  imports Hb_Wasm Hb_AsyncApi
begin

text \<open>
  \<open>bindings/bindings_base.ts\<close>: the class behind every build of the database, which turns each method into
  calls of the WebAssembly module.

  The state is the class's fields, the module, and the parts of \<open>globalThis.DUCKDB_RUNTIME\<close> the class writes.
  \<open>bd_blocks\<close> is the list of heap blocks the class has allocated and not freed, and \<open>bd_posted\<close> the messages it
  has posted to thread workers. The module is the parameter \<open>W\<close>; the file system API of the browser and the
  runtime's preparation of file handles are the parameter \<open>H\<close>. Warnings on the console are left out.
\<close>

section \<open>State\<close>

record UDFFunction =
  udf_functionId :: nat
  udf_connectionId :: nat
  udf_name :: string
  udf_returnType :: arrow_type
  udf_func :: nat

record UDFFunctionDeclaration =
  ud_functionId :: nat
  ud_name :: string
  ud_returnType :: SQLType

datatype pthread_message =
    PM_dropUDFFunctions nat
  | PM_registerUDFFunction UDFFunction
  | PM_registerFileHandle string file_handle
  | PM_dropFileHandle string

record 'e bindings =
  bd_wasm :: 'e
  bd_blocks :: "nat list"
  bd_nextUDFId :: nat
  bd_config :: "DuckDBConfig option"
  bd_deferredThreads :: "nat option"
  bd_files :: "(string, file_handle) jsmap"
  bd_preparedHandles :: "(string, file_handle) jsmap"
  bd_udfFunctions :: "(nat, UDFFunction) jsmap"
  bd_posted :: "(nat \<times> pthread_message) list"

definition DuckDBBindingsBase :: "'e \<Rightarrow> 'e bindings" where
  "DuckDBBindingsBase e = \<lparr>bd_wasm = e, bd_blocks = [], bd_nextUDFId = 1, bd_config = None, bd_deferredThreads = None,
     bd_files = [], bd_preparedHandles = [], bd_udfFunctions = [], bd_posted = []\<rparr>"

record PreparedDBFileHandle =
  ph_path :: string
  ph_handle :: file_handle
  ph_fromCached :: bool

text \<open>What the class uses of the browser; a missing method of the runtime is \<^term>\<open>None\<close>.\<close>

record 'e host =
  h_prepareFileHandles :: "(string list \<Rightarrow> ('e bindings, PreparedDBFileHandle list) jsm) option"
  h_prepareDBFileHandle :: "(string \<Rightarrow> ('e bindings, PreparedDBFileHandle list) jsm) option"
  h_getSize :: "file_handle \<Rightarrow> nat"
  h_createSyncAccessHandle :: "file_handle \<Rightarrow> file_handle res"
  h_getFileHandle :: "string \<Rightarrow> file_handle res"
  h_sharedArrayBuffer :: bool

section \<open>Calling the module\<close>

definition on_wasm :: "('e, 'a) jsm \<Rightarrow> ('e bindings, 'a) jsm" where
  "on_wasm m b = (case m (bd_wasm b) of (r, e) \<Rightarrow> (r, b\<lparr>bd_wasm := e\<rparr>))"

definition bd_malloc :: "'e wasm \<Rightarrow> nat \<Rightarrow> ('e bindings, nat) jsm" where
  "bd_malloc W n b = (case w_malloc W n (bd_wasm b) of
     (p, e) \<Rightarrow> (Inr p, b\<lparr>bd_wasm := e, bd_blocks := (if p = 0 then bd_blocks b else p # bd_blocks b)\<rparr>))"

definition bd_free :: "'e wasm \<Rightarrow> nat \<Rightarrow> ('e bindings, unit) jsm" where
  "bd_free W p b = (Inr (), b\<lparr>bd_wasm := w_free W p (bd_wasm b), bd_blocks := remove1 p (bd_blocks b)\<rparr>)"

definition ccall_number :: "'e wasm \<Rightarrow> string \<Rightarrow> ccall_arg list \<Rightarrow> ('e bindings, int) jsm" where
  "ccall_number W f args = on_wasm (w_ccall W f args)"

text \<open>\<open>callSRet\<close> followed by the check of the status, which every method starts with.\<close>

definition checked :: "'e wasm \<Rightarrow> int \<times> nat \<times> nat \<Rightarrow> ('e bindings, nat \<times> nat) jsm" where
  "checked W r = (case r of (s, d, n) \<Rightarrow>
     if s \<noteq> SUCCESS then js_bind (on_wasm (readString W d n)) (\<lambda>msg. js_throw (Error msg)) else js_ret (d, n))"

definition call_checked :: "'e wasm \<Rightarrow> string \<Rightarrow> ccall_arg list \<Rightarrow> ('e bindings, nat \<times> nat) jsm" where
  "call_checked W f args = js_bind (on_wasm (callSRet W f args)) (checked W)"

definition drop_response :: "'e wasm \<Rightarrow> ('e bindings, unit) jsm" where
  "drop_response W = on_wasm (dropResponseBuffers W)"

definition result_string :: "'e wasm \<Rightarrow> nat \<times> nat \<Rightarrow> ('e bindings, string) jsm" where
  "result_string W dn = js_bind (on_wasm (readString W (fst dn) (snd dn))) (\<lambda>s. js_bind (drop_response W) (\<lambda>_. js_ret s))"

definition result_buffer :: "'e wasm \<Rightarrow> nat \<times> nat \<Rightarrow> ('e bindings, byte list) jsm" where
  "result_buffer W dn = js_bind (on_wasm (copyBuffer W (fst dn) (snd dn))) (\<lambda>x. js_bind (drop_response W) (\<lambda>_. js_ret x))"

text \<open>A call with a text or buffer copied into the heap for its duration.\<close>

definition call_with_buffer ::
  "'e wasm \<Rightarrow> byte list \<Rightarrow> string \<Rightarrow> (int \<Rightarrow> int \<Rightarrow> ccall_arg list) \<Rightarrow> ('e bindings, nat \<times> nat) jsm" where
  "call_with_buffer W buf f args =
     js_bind (bd_malloc W (length buf)) (\<lambda>bufferPtr.
     js_bind (on_wasm (store_bytes W bufferPtr buf)) (\<lambda>_.
     js_bind (on_wasm (callSRet W f (args (int bufferPtr) (int (length buf))))) (\<lambda>r.
     js_bind (bd_free W bufferPtr) (\<lambda>_. checked W r))))"

section \<open>JSON of the options\<close>

definition opt_field :: "string \<Rightarrow> ('a \<Rightarrow> json) \<Rightarrow> 'a option \<Rightarrow> (string \<times> json) list" where
  "opt_field name f x = (case x of None \<Rightarrow> [] | Some v \<Rightarrow> [(name, f v)])"

abbreviation num :: "nat \<Rightarrow> json" where "num n \<equiv> JNum (int n)"

fun SQLType_json :: "SQLType \<Rightarrow> (string \<times> json) list" where
  "SQLType_json (SQLType ty p s tz bw kt vt fs) =
     [(''sqlType'', JStr ty)] @ opt_field ''precision'' JNum p @ opt_field ''scale'' JNum s
     @ opt_field ''timezone'' JStr tz @ opt_field ''byteWidth'' num bw
     @ (case kt of None \<Rightarrow> [] | Some t \<Rightarrow> [(''keyType'', JObj (SQLType_json t))])
     @ (case vt of None \<Rightarrow> [] | Some t \<Rightarrow> [(''valueType'', JObj (SQLType_json t))])
     @ (case fs of None \<Rightarrow> []
        | Some xs \<Rightarrow> [(''fields'', JArr (map (\<lambda>(n, t). JObj (SQLType_json t @ [(''name'', JStr n)])) xs))])"

definition SQLField_json :: "SQLField \<Rightarrow> json" where
  "SQLField_json f = JObj (SQLType_json (snd f) @ [(''name'', JStr (fst f))])"

definition query_config_json :: "DuckDBQueryConfig \<Rightarrow> json" where
  "query_config_json q = JObj (opt_field ''queryPollingInterval'' num (queryPollingInterval q)
     @ opt_field ''castBigIntToDouble'' JBool (castBigIntToDouble q)
     @ opt_field ''castTimestampToDate'' JBool (castTimestampToDate q)
     @ opt_field ''castDurationToTime64'' JBool (castDurationToTime64 q)
     @ opt_field ''castDecimalToDouble'' JBool (castDecimalToDouble q))"

definition filesystem_config_json :: "DuckDBFilesystemConfig \<Rightarrow> json" where
  "filesystem_config_json f = JObj (opt_field ''reliableHeadRequests'' JBool (cfg_reliableHeadRequests f)
     @ opt_field ''allowFullHTTPReads'' JBool (cfg_allowFullHTTPReads f)
     @ opt_field ''forceFullHTTPReads'' JBool (cfg_forceFullHTTPReads f))"

fun access_mode_number :: "DuckDBAccessMode \<Rightarrow> nat" where
  "access_mode_number UNDEFINED = 0"
| "access_mode_number AUTOMATIC = 1"
| "access_mode_number READ_ONLY = 2"
| "access_mode_number READ_WRITE = 3"

text \<open>The properties of the configuration in the order of its interface.\<close>

definition config_json :: "DuckDBConfig \<Rightarrow> json" where
  "config_json c = JObj (opt_field ''path'' JStr (path c)
     @ opt_field ''accessMode'' (\<lambda>m. num (access_mode_number m)) (accessMode c)
     @ opt_field ''maximumThreads'' num (maximumThreads c)
     @ opt_field ''useDirectIO'' JBool (useDirectIO c)
     @ opt_field ''query'' query_config_json (query c)
     @ opt_field ''filesystem'' filesystem_config_json (filesystem c)
     @ opt_field ''allowUnsignedExtensions'' JBool (allowUnsignedExtensions c)
     @ opt_field ''arrowLosslessConversion'' JBool (arrowLosslessConversion c)
     @ opt_field ''customUserAgent'' JStr (customUserAgent c)
     @ opt_field ''opfs'' (\<lambda>h. JObj (opt_field ''fileHandling''
         (\<lambda>m. JStr (case m of Auto \<Rightarrow> ''auto'' | Manual \<Rightarrow> ''manual'')) h)) (opfs c)
     @ opt_field ''singleThreadedExtensionLoad'' JBool (singleThreadedExtensionLoad c))"

definition arrow_options_json :: "ArrowInsertOptions \<Rightarrow> json" where
  "arrow_options_json opts = JObj ([(''name'', JStr (arrow_name opts))] @ opt_field ''schema'' JStr (arrow_schema opts)
     @ opt_field ''create'' JBool (arrow_create opts))"

abbreviation fields_json :: "SQLField list \<Rightarrow> json" where
  "fields_json fs \<equiv> JArr (map SQLField_json fs)"

text \<open>The flattened columns travel under the name \<open>columns\<close>.\<close>

definition csv_options_json :: "CSVInsertOptions \<Rightarrow> json" where
  "csv_options_json opts = JObj ([(''name'', JStr (csv_name opts))] @ opt_field ''schema'' JStr (csv_schema opts)
     @ opt_field ''create'' JBool (csv_create opts) @ opt_field ''header'' JBool (csv_header opts)
     @ opt_field ''delimiter'' JStr (csv_delimiter opts) @ opt_field ''quote'' JStr (csv_quote opts)
     @ opt_field ''escape'' JStr (csv_escape opts) @ opt_field ''skip'' num (csv_skip opts)
     @ opt_field ''detect'' JBool (csv_detect opts) @ opt_field ''dateFormat'' JStr (csv_dateFormat opts)
     @ opt_field ''timestampFormat'' JStr (csv_timestampFormat opts)
     @ opt_field ''columns'' fields_json (csv_columnsFlat opts))"

definition json_options_json :: "JSONInsertOptions \<Rightarrow> json" where
  "json_options_json opts = JObj ([(''name'', JStr (json_name opts))] @ opt_field ''schema'' JStr (json_schema opts)
     @ opt_field ''create'' JBool (json_create opts)
     @ opt_field ''shape'' (\<lambda>sh. JStr (case sh of ROW_ARRAY \<Rightarrow> ''row-array'' | COLUMN_OBJECT \<Rightarrow> ''column-object''))
         (json_shape opts)
     @ opt_field ''columns'' fields_json (json_columnsFlat opts))"

text \<open>What \<open>JSON.parse(...) as T\<close> is read as; the cast checks nothing, and a property that is missing reads as
  empty here.\<close>

fun json_nats :: "json \<Rightarrow> nat list" where
  "json_nats (JArr xs) = map (\<lambda>x. case x of JNum i \<Rightarrow> nat i | _ \<Rightarrow> 0) xs"
| "json_nats _ = []"

fun json_strings :: "json \<Rightarrow> string list" where
  "json_strings (JArr xs) = map (\<lambda>x. case x of JStr s \<Rightarrow> s | _ \<Rightarrow> []) xs"
| "json_strings _ = []"

fun json_field :: "string \<Rightarrow> json \<Rightarrow> json" where
  "json_field k (JObj kvs) = (case map_of kvs k of Some v \<Rightarrow> v | None \<Rightarrow> JNull)"
| "json_field k _ = JNull"

fun token_type :: "nat \<Rightarrow> TokenType" where
  "token_type n = [IDENTIFIER, NUMERIC_CONSTANT, STRING_CONSTANT, OPERATOR, KEYWORD, COMMENT] ! min n 5"

definition tokens_of_json :: "json \<Rightarrow> ScriptTokens" where
  "tokens_of_json j = \<lparr>tok_offsets = json_nats (json_field ''offsets'' j),
     tok_types = map token_type (json_nats (json_field ''types'' j))\<rparr>"

fun protocol_of_number :: "nat \<Rightarrow> DuckDBDataProtocol" where
  "protocol_of_number n = [BUFFER, NODE_FS, BROWSER_FILEREADER, BROWSER_FSACCESS, HTTP, S3] ! min n 5"

fun json_string_opt :: "json \<Rightarrow> string option" where
  "json_string_opt (JStr s) = Some s" | "json_string_opt _ = None"

fun json_nat_opt :: "json \<Rightarrow> nat option" where
  "json_nat_opt (JNum i) = Some (nat i)" | "json_nat_opt _ = None"

fun json_bool_opt :: "json \<Rightarrow> bool option" where
  "json_bool_opt (JBool b) = Some b" | "json_bool_opt _ = None"

definition web_file_of_json :: "json \<Rightarrow> WebFile" where
  "web_file_of_json j = \<lparr>
     wf_fileName = (case json_field ''fileName'' j of JStr s \<Rightarrow> s | _ \<Rightarrow> []),
     wf_dataProtocol = protocol_of_number (case json_field ''dataProtocol'' j of JNum i \<Rightarrow> nat i | _ \<Rightarrow> 0),
     wf_fileId = json_nat_opt (json_field ''fileId'' j), wf_fileSize = json_nat_opt (json_field ''fileSize'' j),
     wf_dataUrl = json_string_opt (json_field ''dataUrl'' j), wf_dataNativeFd = json_nat_opt (json_field ''dataNativeFd'' j),
     wf_collectStatistics = json_bool_opt (json_field ''collectStatistics'' j),
     wf_reliableHeadRequests = json_bool_opt (json_field ''reliableHeadRequests'' j),
     wf_allowFullHttpReads = json_bool_opt (json_field ''allowFullHttpReads'' j)\<rparr>"

definition web_files_of_json :: "json \<Rightarrow> WebFile list" where
  "web_files_of_json j = (case j of JArr xs \<Rightarrow> map web_file_of_json xs | _ \<Rightarrow> [])"

end
