(* ===== verification/Hb_Extension_Load.thy ===== *)
theory Hb_Extension_Load
  imports Hb_Prelude
begin

text \<open>
  \<open>DuckDBBindingsBase.EXTENSION_LOAD_RE\<close> of \<open>bindings/bindings_base.ts\<close>: does a script begin with an extension
  \<open>LOAD\<close> or \<open>INSTALL\<close>, after white space and comments?

  The expression is \<open>/^\s*(?:--[^\n]*\n\s*|\/\*[\s\S]*?\*\/\s*)*(?:force\s+)?(?:install|load)\b/i\<close>. Its one real choice
  is where a block comment ends: the lazy quantifier tries the first terminator first, but backtracking may go on to
  any later one. The matcher below tries them all.
\<close>

definition lower :: "char \<Rightarrow> char" where
  "lower c = (if 65 \<le> (of_char c :: nat) \<and> (of_char c :: nat) \<le> 90 then char_of ((of_char c :: nat) + 32) else c)"

text \<open>A keyword in any case, followed by a word boundary: the text after it.\<close>

definition word_char :: "char \<Rightarrow> bool" where
  "word_char c \<longleftrightarrow> (let n = of_char c :: nat in (48 \<le> n \<and> n \<le> 57) \<or> (65 \<le> n \<and> n \<le> 90) \<or> (97 \<le> n \<and> n \<le> 122) \<or> n = 95)"

definition after_prefix_i :: "string \<Rightarrow> string \<Rightarrow> string option" where
  "after_prefix_i w s = (if map lower (take (length w) s) = w then Some (drop (length w) s) else None)"

definition at_keyword :: "string \<Rightarrow> string \<Rightarrow> bool" where
  "at_keyword w s = (case after_prefix_i w s of None \<Rightarrow> False | Some r \<Rightarrow> (case r of [] \<Rightarrow> True | c # _ \<Rightarrow> \<not> word_char c))"

text \<open>\<open>(?:force\s+)?(?:install|load)\b\<close>\<close>

definition at_load :: "string \<Rightarrow> bool" where
  "at_load s \<longleftrightarrow> at_keyword ''install'' s \<or> at_keyword ''load'' s"

definition at_load_force :: "string \<Rightarrow> bool" where
  "at_load_force s \<longleftrightarrow> at_load s \<or> (case after_prefix_i ''force'' s of
     None \<Rightarrow> False | Some r \<Rightarrow> after_space js_spaces r \<noteq> None \<and> at_load (skip_spaces r))"

text \<open>The texts after each terminator of a block comment whose body starts here.\<close>

fun after_block :: "string \<Rightarrow> string list" where
  "after_block (a # b # s) = (if a = CHR ''*'' \<and> b = CHR ''/'' then [s] else []) @ after_block (b # s)"
| "after_block _ = []"

text \<open>The text after a line comment.\<close>

fun after_line :: "string \<Rightarrow> string option" where
  "after_line [] = None"
| "after_line (c # s) = (if c = CHR 0x0A then Some s else after_line s)"

lemma after_block_length: "r \<in> set (after_block s) \<Longrightarrow> length r < length s"
  by (induction s rule: after_block.induct) (auto split: if_splits)

lemma after_line_length: "after_line s = Some r \<Longrightarrow> length r < length s"
  by (induction s) (auto split: if_splits)

function at_extension_load :: "string \<Rightarrow> bool" where
  "at_extension_load s =
     (at_load_force s
      \<or> (starts_with ''--'' s \<and> (case after_line (drop 2 s) of None \<Rightarrow> False | Some r \<Rightarrow> at_extension_load (skip_spaces r)))
      \<or> (starts_with ''/*'' s \<and> list_ex (\<lambda>r. at_extension_load (skip_spaces r)) (after_block (drop 2 s))))"
  by pat_completeness auto
termination
proof (relation "measure length", goal_cases)
  case (2 s r)
  then have "length r < length (drop 2 s)" by (blast dest: after_line_length)
  then show ?case using skip_spaces_length [of r] by simp
next
  case (3 s r)
  then have "length r < length (drop 2 s)" by (blast dest: after_block_length)
  then show ?case using skip_spaces_length [of r] by simp
qed simp

declare at_extension_load.simps [simp del]

definition extension_load :: "string \<Rightarrow> bool" where
  "extension_load txt = at_extension_load (skip_spaces txt)"

section \<open>The language of the expression\<close>

inductive spaces :: "string \<Rightarrow> bool" where
  spaces_Nil: "spaces []"
| spaces_Cons: "w \<in> set js_spaces \<Longrightarrow> spaces u \<Longrightarrow> spaces (w @ u)"

inductive comments :: "string \<Rightarrow> bool" where
  comments_Nil: "comments []"
| comments_line: "CHR 0x0A \<notin> set body \<Longrightarrow> spaces sp \<Longrightarrow> comments rest \<Longrightarrow>
     comments (''--'' @ body @ [CHR 0x0A] @ sp @ rest)"
| comments_block: "spaces sp \<Longrightarrow> comments rest \<Longrightarrow> comments (''/*'' @ body @ ''*/'' @ sp @ rest)"

definition keyword :: "string \<Rightarrow> string \<Rightarrow> bool" where
  "keyword w s \<longleftrightarrow> (\<exists>k r. s = k @ r \<and> map lower k = w \<and> (r = [] \<or> \<not> word_char (hd r)))"

definition forced :: "string \<Rightarrow> bool" where
  "forced f \<longleftrightarrow> (\<exists>g sp. f = g @ sp \<and> map lower g = ''force'' \<and> spaces sp \<and> sp \<noteq> [])"

definition load_start :: "string \<Rightarrow> bool" where
  "load_start s \<longleftrightarrow> (\<exists>f t. s = f @ t \<and> (keyword ''install'' t \<or> keyword ''load'' t) \<and> (f = [] \<or> forced f))"

section \<open>White space is taken in one way\<close>

lemma js_spaces_ne: "w \<in> set js_spaces \<Longrightarrow> w \<noteq> []"
  by (auto simp: js_spaces_def)

lemma js_spaces_prefix_free:
  "w \<in> set js_spaces \<Longrightarrow> w' \<in> set js_spaces \<Longrightarrow> starts_with w w' \<Longrightarrow> w = w'"
proof -
  have "list_all (\<lambda>w. list_all (\<lambda>w'. starts_with w w' \<longrightarrow> w = w') js_spaces) js_spaces"
    by (simp add: js_spaces_def)
  then show "w \<in> set js_spaces \<Longrightarrow> w' \<in> set js_spaces \<Longrightarrow> starts_with w w' \<Longrightarrow> w = w'"
    by (simp add: list_all_iff)
qed

lemma after_space_unique:
  assumes "w \<in> set js_spaces"
  shows "after_space js_spaces (w @ s) = Some s"
proof -
  have "after_space ws (w @ s) = Some s" if "w \<in> set ws" "set ws \<subseteq> set js_spaces" for ws
    using that
  proof (induction ws)
    case (Cons v ws)
    show ?case
    proof (cases "starts_with v (w @ s)")
      case True
      then obtain r where "w @ s = v @ r" by (auto simp: starts_with_iff)
      then have "starts_with v w \<or> starts_with w v"
        by (metis append_eq_append_conv2 starts_with_append)
      with js_spaces_prefix_free Cons.prems assms have "v = w" by (metis list.set_intros(1) subsetD)
      with js_spaces_ne [OF assms] show ?thesis by simp
    next
      case False
      with Cons show ?thesis by auto
    qed
  qed simp
  then show ?thesis using assms by blast
qed

lemma after_space_None: "after_space js_spaces s = None \<longleftrightarrow> \<not> at_space s"
proof -
  have "after_space ws s = None \<longleftrightarrow> \<not> list_ex (\<lambda>w. starts_with w s) ws" if "[] \<notin> set ws" for ws
    using that by (induction ws) auto
  from this [of js_spaces] show ?thesis using js_spaces_ne by (auto simp: at_space_def)
qed

lemma skip_spaces_append: "spaces sp \<Longrightarrow> skip_spaces (sp @ t) = skip_spaces t"
proof (induction rule: spaces.induct)
  case (spaces_Cons w u)
  then show ?case by (simp add: skip_spaces.simps [of "w @ u @ t"] after_space_unique)
qed simp

lemma skip_spaces_none: "\<not> at_space t \<Longrightarrow> skip_spaces t = t"
  by (simp add: skip_spaces.simps [of t] after_space_None [symmetric])

lemma skip_spaces_split: "\<exists>sp. s = sp @ skip_spaces s \<and> spaces sp \<and> (at_space s \<longrightarrow> sp \<noteq> [])"
proof (induction s rule: skip_spaces.induct)
  case (1 s)
  show ?case
  proof (cases "at_space s")
    case False
    then show ?thesis using spaces_Nil by (simp add: skip_spaces_none)
  next
    case True
    then obtain w r where w: "w \<in> set js_spaces" "s = w @ r" by (auto simp: at_space_def list_ex_iff starts_with_iff)
    then have a: "after_space js_spaces s = Some r" by (simp add: after_space_unique)
    from 1 [OF a] obtain sp where "r = sp @ skip_spaces r" "spaces sp" by blast
    moreover have "skip_spaces s = skip_spaces r" by (simp add: skip_spaces.simps [of s] a)
    ultimately show ?thesis using w js_spaces_ne [OF w(1)] spaces_Cons [OF w(1)]
      by (intro exI [of _ "w @ sp"]) auto
  qed
qed

lemma at_space_first: "at_space (c # s) \<Longrightarrow> c \<in> {CHR 0x09, CHR 0x0A, CHR 0x0B, CHR 0x0C, CHR 0x0D, CHR 0x20,
   CHR 0xC2, CHR 0xE1, CHR 0xE2, CHR 0xE3, CHR 0xEF}"
  by (auto simp: at_space_def js_spaces_def)

lemma space_not_letter:
  "at_space (c # s) \<Longrightarrow> lower c \<noteq> CHR ''f'' \<and> lower c \<noteq> CHR ''i'' \<and> lower c \<noteq> CHR ''l''"
  by (auto simp: lower_def dest!: at_space_first split: if_splits)

section \<open>The matcher decides the language\<close>

lemma after_prefix_i_iff: "after_prefix_i w s = Some r \<longleftrightarrow> (\<exists>k. s = k @ r \<and> map lower k = w)"
proof
  assume "after_prefix_i w s = Some r"
  then have "map lower (take (length w) s) = w" "r = drop (length w) s"
    by (auto simp: after_prefix_i_def split: if_splits)
  then show "\<exists>k. s = k @ r \<and> map lower k = w" by (intro exI [of _ "take (length w) s"]) simp
next
  assume "\<exists>k. s = k @ r \<and> map lower k = w"
  then show "after_prefix_i w s = Some r" by (auto simp: after_prefix_i_def)
qed

lemma at_keyword_iff: "at_keyword w s \<longleftrightarrow> keyword w s"
proof -
  have "at_keyword w s \<longleftrightarrow> (\<exists>r. after_prefix_i w s = Some r \<and> (r = [] \<or> \<not> word_char (hd r)))"
    by (auto simp: at_keyword_def split: option.splits list.splits)
  then show ?thesis by (auto simp: keyword_def after_prefix_i_iff)
qed

lemma keyword_no_space: "keyword w t \<Longrightarrow> w \<in> {''install'', ''load''} \<Longrightarrow> \<not> at_space t"
  by (auto simp: keyword_def Cons_eq_map_conv map_eq_Cons_conv dest: space_not_letter)

lemma at_load_force_iff: "at_load_force s \<longleftrightarrow> load_start s"
proof
  assume "at_load_force s"
  then consider "at_load s" | r where "after_prefix_i ''force'' s = Some r" "at_space r" "at_load (skip_spaces r)"
    using after_space_None by (auto simp: at_load_force_def split: option.splits)
  then show "load_start s"
  proof cases
    case 1
    then show ?thesis unfolding load_start_def at_load_def at_keyword_iff by (intro exI [of _ "[]"] exI [of _ s]) simp
  next
    case 2
    obtain g where g: "s = g @ r" "map lower g = ''force''" using 2(1) by (auto simp: after_prefix_i_iff)
    obtain sp where sp: "r = sp @ skip_spaces r" "spaces sp" "sp \<noteq> []" using skip_spaces_split [of r] 2(2) by blast
    have "forced (g @ sp)" unfolding forced_def by (intro exI conjI) (rule refl, rule g(2), rule sp(2), rule sp(3))
    moreover have "s = (g @ sp) @ skip_spaces r" using g(1) sp(1) by simp
    moreover have "keyword ''install'' (skip_spaces r) \<or> keyword ''load'' (skip_spaces r)"
      using 2(3) by (simp add: at_load_def at_keyword_iff)
    ultimately show ?thesis unfolding load_start_def by blast
  qed
next
  assume "load_start s"
  then obtain f t where s: "s = f @ t" "keyword ''install'' t \<or> keyword ''load'' t"
    "f = [] \<or> forced f"
    by (auto simp: load_start_def)
  then have load: "at_load t" by (auto simp: at_load_def at_keyword_iff)
  from s(3) show "at_load_force s"
  proof
    assume "f = []"
    with s(1) load show ?thesis by (simp add: at_load_force_def)
  next
    assume "forced f"
    then obtain g sp where f: "f = g @ sp" "map lower g = ''force''" "spaces sp" "sp \<noteq> []"
      unfolding forced_def by (elim exE conjE) (rule that)
    have "after_prefix_i ''force'' s = Some (sp @ t)" using s(1) f by (auto simp: after_prefix_i_iff)
    moreover obtain w u where "w \<in> set js_spaces" "sp = w @ u" using f(3,4) by (cases rule: spaces.cases) auto
    then have "after_space js_spaces (sp @ t) \<noteq> None" by (simp add: after_space_unique)
    moreover have "skip_spaces (sp @ t) = t"
      using s(2) keyword_no_space by (auto simp: skip_spaces_append [OF f(3)] intro!: skip_spaces_none)
    ultimately show ?thesis using load by (auto simp: at_load_force_def)
  qed
qed

lemma load_start_no_space: "load_start t \<Longrightarrow> \<not> at_space t"
proof -
  assume "load_start t"
  then obtain f u where t: "t = f @ u" "keyword ''install'' u \<or> keyword ''load'' u"
    "f = [] \<or> forced f"
    by (auto simp: load_start_def)
  from t(3) show ?thesis
  proof
    assume "f = []" with t(1,2) keyword_no_space show ?thesis by auto
  next
    assume "forced f"
    then obtain c f' where "f = c # f'" "lower c = CHR ''f''" by (auto simp: forced_def map_eq_Cons_conv)
    with t(1) show ?thesis by (auto dest: space_not_letter)
  qed
qed

lemma comments_no_space: "comments cp \<Longrightarrow> load_start t \<Longrightarrow> \<not> at_space (cp @ t)"
  by (cases rule: comments.cases) (auto dest: load_start_no_space at_space_first)

lemma after_line_iff: "after_line s = Some r \<longleftrightarrow> (\<exists>body. s = body @ CHR 0x0A # r \<and> CHR 0x0A \<notin> set body)"
proof (induction s)
  case (Cons c s)
  show ?case
  proof (cases "c = CHR 0x0A")
    case True
    then show ?thesis by (auto simp: Cons_eq_append_conv)
  next
    case False
    with Cons show ?thesis by (auto simp: Cons_eq_append_conv)
  qed
qed simp

lemma after_block_iff: "r \<in> set (after_block s) \<longleftrightarrow> (\<exists>body. s = body @ ''*/'' @ r)"
proof (induction s rule: after_block.induct)
  case (1 a b s)
  then show ?case by (auto simp: Cons_eq_append_conv)
qed (auto simp: Cons_eq_append_conv)

lemma at_extension_load_complete:
  "comments cp \<Longrightarrow> load_start t \<Longrightarrow> at_extension_load (cp @ t)"
proof (induction rule: comments.induct)
  case comments_Nil
  then show ?case by (simp add: at_extension_load.simps [of t] at_load_force_iff)
next
  case (comments_line body sp rest)
  have "after_line (body @ [CHR 0x0A] @ sp @ rest @ t) = Some (sp @ rest @ t)"
    unfolding after_line_iff using comments_line.hyps(1) by auto
  moreover have "skip_spaces (sp @ rest @ t) = rest @ t"
    using comments_line comments_no_space by (simp add: skip_spaces_append skip_spaces_none)
  ultimately show ?case using comments_line
    by (subst at_extension_load.simps) (simp add: starts_with_iff)
next
  case (comments_block sp rest body)
  have "sp @ rest @ t \<in> set (after_block (body @ ''*/'' @ sp @ rest @ t))"
    unfolding after_block_iff by auto
  moreover have "skip_spaces (sp @ rest @ t) = rest @ t"
    using comments_block comments_no_space by (simp add: skip_spaces_append skip_spaces_none)
  ultimately show ?case using comments_block
    by (subst at_extension_load.simps) (auto simp: list_ex_iff intro!: bexI [of _ "sp @ rest @ t"])
qed

lemma at_extension_load_sound:
  "at_extension_load s \<Longrightarrow> \<exists>cp t. s = cp @ t \<and> comments cp \<and> load_start t"
proof (induction s rule: at_extension_load.induct)
  case (1 s)
  from "1.prems" consider "at_load_force s"
    | r where "starts_with ''--'' s" "after_line (drop 2 s) = Some r" "at_extension_load (skip_spaces r)"
    | r where "starts_with ''/*'' s" "r \<in> set (after_block (drop 2 s))" "at_extension_load (skip_spaces r)"
    by (subst (asm) at_extension_load.simps) (auto simp: list_ex_iff split: option.splits)
  then show ?case
  proof cases
    case 1
    then show ?thesis using comments_Nil by (intro exI [of _ "[]"] exI [of _ s]) (simp add: at_load_force_iff)
  next
    case 2
    then obtain cp t where ct: "skip_spaces r = cp @ t" "comments cp" "load_start t"
      using "1.IH"(1) 2 by blast
    obtain sp where "r = sp @ skip_spaces r" "spaces sp" using skip_spaces_split by blast
    moreover obtain u where "s = ''--'' @ u" using 2(1) by (auto simp: starts_with_iff)
    moreover obtain body where "drop 2 s = body @ CHR 0x0A # r" "CHR 0x0A \<notin> set body"
      using 2(2) by (auto simp: after_line_iff)
    ultimately have "s = (''--'' @ body @ [CHR 0x0A] @ sp @ cp) @ t" "comments (''--'' @ body @ [CHR 0x0A] @ sp @ cp)"
      using ct by (auto intro: comments_line [simplified])
    with ct(3) show ?thesis by blast
  next
    case 3
    then obtain cp t where ct: "skip_spaces r = cp @ t" "comments cp" "load_start t"
      using "1.IH"(2) by blast
    obtain sp where "r = sp @ skip_spaces r" "spaces sp" using skip_spaces_split by blast
    moreover obtain u where "s = ''/*'' @ u" using 3(1) by (auto simp: starts_with_iff)
    moreover obtain body where "drop 2 s = body @ ''*/'' @ r" using 3(2) by (auto simp: after_block_iff)
    ultimately have "s = (''/*'' @ body @ ''*/'' @ sp @ cp) @ t" "comments (''/*'' @ body @ ''*/'' @ sp @ cp)"
      using ct by (auto intro: comments_block [simplified])
    with ct(3) show ?thesis by blast
  qed
qed

section \<open>Properties\<close>

text \<open>What the comment in the source says: the first statement of a script, after white space and comments, each of which ends at its first terminator,
  is a load.\<close>

function first_statement :: "string \<Rightarrow> string" where
  "first_statement s = (let s = skip_spaces s in
     if starts_with ''--'' s then (case after_line (drop 2 s) of None \<Rightarrow> [] | Some r \<Rightarrow> first_statement r)
     else if starts_with ''/*'' s then (case after_block (drop 2 s) of [] \<Rightarrow> [] | r # _ \<Rightarrow> first_statement r)
     else s)"
  by pat_completeness auto
termination
proof (relation "measure length")
  fix s x r
  assume x: "x = skip_spaces s" "after_line (drop 2 x) = Some r"
  then have "length r < length (drop 2 x)" by (blast dest: after_line_length)
  then show "(r, s) \<in> measure length" using skip_spaces_length [of s] x(1) by simp
next
  fix s x r rs
  assume x: "x = skip_spaces s" "after_block (drop 2 x) = r # rs"
  then have "r \<in> set (after_block (drop 2 x))" by simp
  then have "length r < length (drop 2 x)" by (rule after_block_length)
  then show "(r, s) \<in> measure length" using skip_spaces_length [of s] x(1) by simp
qed simp

declare first_statement.simps [simp del]

definition begins_with_load :: "string \<Rightarrow> bool" where
  "begins_with_load txt \<longleftrightarrow> at_load_force (first_statement txt)"

lemma begins_with_load_matches: "at_load_force (first_statement s) \<Longrightarrow> at_extension_load (skip_spaces s)"
proof (induction s rule: first_statement.induct)
  case (1 s)
  let ?s = "skip_spaces s"
  have e: "\<not> at_load_force []" by code_simp
  consider "starts_with ''--'' ?s" | "\<not> starts_with ''--'' ?s" "starts_with ''/*'' ?s" | "\<not> starts_with ''--'' ?s" "\<not> starts_with ''/*'' ?s" by blast
  then show ?case
  proof cases
    case 1
    with "1.prems" e obtain r where r: "after_line (drop 2 ?s) = Some r" "at_load_force (first_statement r)"
      by (subst (asm) first_statement.simps) (auto simp: Let_def split: option.splits)
    from "1.IH"(1) [OF refl 1 r] 1 r(1) show ?thesis by (subst at_extension_load.simps) simp
  next
    case 2
    with "1.prems" e obtain r rs where r: "after_block (drop 2 ?s) = r # rs" "at_load_force (first_statement r)"
      by (subst (asm) first_statement.simps) (auto simp: Let_def split: list.splits)
    from "1.IH"(2) [OF refl 2 r] 2 r(1) show ?thesis by (subst at_extension_load.simps) simp
  next
    case 3
    with "1.prems" show ?thesis by (subst at_extension_load.simps, subst (asm) first_statement.simps) (simp add: Let_def)
  qed
qed

text \<open>C10: The test whether a script begins with an extension load holds exactly when the script is white
  space, then any number of line and block comments each followed by white space, then optionally \<open>FORCE\<close> and white
  space, then \<open>INSTALL\<close> or \<open>LOAD\<close> in any case at a word boundary. A block comment may here end at a later terminator than its first: the
  test holds for every script whose first statement is a load, as its comment says, but also for others, in which the first statement
  stands between two comments.\<close>

theorem extension_load_iff:
  "(extension_load txt \<longleftrightarrow> (\<exists>sp cp t. txt = sp @ cp @ t \<and> spaces sp \<and> comments cp \<and> load_start t))
   \<and> Collect begins_with_load \<subset> Collect extension_load"
proof (intro conjI iffI)
  assume "extension_load txt"
  then obtain cp t where ct: "skip_spaces txt = cp @ t" "comments cp" "load_start t"
    using at_extension_load_sound [of "skip_spaces txt"] by (auto simp: extension_load_def)
  obtain sp where sp: "txt = sp @ skip_spaces txt" "spaces sp" using skip_spaces_split by blast
  show "\<exists>sp cp t. txt = sp @ cp @ t \<and> spaces sp \<and> comments cp \<and> load_start t"
    using sp ct by (intro exI conjI) simp_all
next
  assume "\<exists>sp cp t. txt = sp @ cp @ t \<and> spaces sp \<and> comments cp \<and> load_start t"
  then obtain sp cp t where t: "txt = sp @ cp @ t" "spaces sp" "comments cp" "load_start t" by blast
  then have "skip_spaces txt = cp @ t"
    using comments_no_space by (simp add: skip_spaces_append skip_spaces_none)
  with at_extension_load_complete t show "extension_load txt" by (simp add: extension_load_def)
next
  let ?x = "''/* a */ SELECT 1 /* b */ load x''"
  have "extension_load ?x" "\<not> begins_with_load ?x" by code_simp+
  then have "\<not> Collect extension_load \<subseteq> Collect begins_with_load" by blast
  moreover have "Collect begins_with_load \<subseteq> Collect extension_load"
    using begins_with_load_matches by (auto simp: begins_with_load_def extension_load_def)
  ultimately show "Collect begins_with_load \<subset> Collect extension_load" by blast
qed

lemma extension_load_examples:
  "extension_load '' LOAD httpfs''" "extension_load ''/* a */ x */force  install x''"
  "\<not> extension_load ''SELECT 1 -- load x''" "\<not> extension_load ''loader''"
  by code_simp+

end
