(* ===== verification/Hb_BindingsOps.thy ===== *)
theory Hb_BindingsOps
  imports Hb_Bindings Hb_Extension_Load
begin

text \<open>
  The methods of \<open>DuckDBBindingsBase\<close> (\<open>bindings/bindings_base.ts\<close>), in the order of the class, and the record of
  them that the dispatcher is written against. \<open>threads_of_result\<close> stands for reading the one value of the Arrow
  result of \<open>SELECT current_setting('threads')\<close> with Apache Arrow.
\<close>

section \<open>Opening and asking the database\<close>

definition bindings_open :: "'e wasm \<Rightarrow> DuckDBConfig \<Rightarrow> ('e bindings, unit) jsm" where
  "bindings_open W config =
     js_bind (call_checked W ''duckdb_web_open'' [A_str (stringify (config_json config))]) (\<lambda>_.
     js_bind (drop_response W) (\<lambda>_.
     js_modify (\<lambda>b. b\<lparr>bd_config := Some config, bd_deferredThreads := None\<rparr>)))"

definition bindings_reset :: "'e wasm \<Rightarrow> ('e bindings, unit) jsm" where
  "bindings_reset W =
     js_bind (js_modify (\<lambda>b. b\<lparr>bd_deferredThreads := None\<rparr>)) (\<lambda>_.
     js_bind (call_checked W ''duckdb_web_reset'' []) (\<lambda>_. drop_response W))"

definition getVersion :: "'e wasm \<Rightarrow> ('e bindings, string) jsm" where
  "getVersion W = js_bind (call_checked W ''duckdb_web_get_version'' []) (result_string W)"

definition getExtensionUrl :: "'e wasm \<Rightarrow> string \<Rightarrow> ('e bindings, string) jsm" where
  "getExtensionUrl W name = js_bind (call_checked W ''duckdb_web_extension_url'' [A_str name]) (result_string W)"

definition getFeatureFlags :: "'e wasm \<Rightarrow> ('e bindings, nat) jsm" where
  "getFeatureFlags W = js_bind (ccall_number W ''duckdb_web_get_feature_flags'' []) (\<lambda>n. js_ret (nat n))"

definition json_result :: "'e wasm \<Rightarrow> (json \<Rightarrow> 'a) \<Rightarrow> nat \<times> nat \<Rightarrow> ('e bindings, 'a) jsm" where
  "json_result W f dn = js_bind (result_string W dn) (\<lambda>res b. (map_sum id f (JSON_parse res), b))"

definition bindings_tokenize :: "'e wasm \<Rightarrow> string \<Rightarrow> ('e bindings, ScriptTokens) jsm" where
  "bindings_tokenize W txt =
     js_bind (call_with_buffer W (text_encode txt) ''duckdb_web_tokenize_buffer'' (\<lambda>p n. [A_num p, A_num n]))
       (json_result W tokens_of_json)"

definition bindings_connect :: "'e wasm \<Rightarrow> ('e bindings, nat) jsm" where
  "bindings_connect W = js_bind (ccall_number W ''duckdb_web_connect'' []) (\<lambda>n. js_ret (nat n))"

text \<open>Posting one message to a list of workers.\<close>

definition post_to :: "nat list \<Rightarrow> pthread_message \<Rightarrow> 'e bindings \<Rightarrow> 'e bindings" where
  "post_to ws m b = b\<lparr>bd_posted := bd_posted b @ map (\<lambda>w. (w, m)) ws\<rparr>"

definition post_all :: "'e wasm \<Rightarrow> pthread_message \<Rightarrow> 'e bindings \<Rightarrow> 'e bindings" where
  "post_all W m b = post_to (runningWorkers W (bd_wasm b) @ unusedWorkers W (bd_wasm b)) m b"

definition bindings_disconnect :: "'e wasm \<Rightarrow> nat \<Rightarrow> ('e bindings, unit) jsm" where
  "bindings_disconnect W conn =
     js_bind (ccall_number W ''duckdb_web_disconnect'' [A_num (int conn)]) (\<lambda>_.
     js_modify (post_all W (PM_dropUDFFunctions conn)))"

section \<open>Queries, and extension loads on a single thread\<close>

definition withPrivateConnection :: "'e wasm \<Rightarrow> (nat \<Rightarrow> ('e bindings, 'a) jsm) \<Rightarrow> ('e bindings, 'a) jsm" where
  "withPrivateConnection W work =
     js_bind (ccall_number W ''duckdb_web_connect'' []) (\<lambda>c.
       js_ensure (work (nat c))
         (js_bind (ccall_number W ''duckdb_web_disconnect'' [A_num (int (nat c))]) (\<lambda>_. js_ret ())))"

definition runQueryImpl :: "'e wasm \<Rightarrow> nat \<Rightarrow> string \<Rightarrow> ('e bindings, byte list) jsm" where
  "runQueryImpl W conn txt =
     js_bind (call_with_buffer W (text_encode txt) ''duckdb_web_query_run_buffer''
                (\<lambda>p n. [A_num (int conn), A_num p, A_num n]))
       (result_buffer W)"

definition readThreadsSetting ::
  "'e wasm \<Rightarrow> (byte list \<Rightarrow> nat option res) \<Rightarrow> ('e bindings, nat option) jsm" where
  "readThreadsSetting W threads_of_result =
     js_try (js_bind (withPrivateConnection W (\<lambda>conn. runQueryImpl W conn (''SELECT current_setting('' @ quote # ''threads'' @ quote # '')'')))
               (\<lambda>res b. (threads_of_result res, b)))
       (\<lambda>_. js_ret None)"

definition set_threads :: "'e wasm \<Rightarrow> nat \<Rightarrow> ('e bindings, unit) jsm" where
  "set_threads W n =
     js_bind (withPrivateConnection W (\<lambda>conn. runQueryImpl W conn (''SET threads='' @ show_nat n))) (\<lambda>_. js_ret ())"

definition restoreDeferredThreads :: "'e wasm \<Rightarrow> ('e bindings, unit) jsm" where
  "restoreDeferredThreads W b = (case bd_deferredThreads b of
     None \<Rightarrow> (Inr (), b)
   | Some threads \<Rightarrow>
       js_try (js_bind (set_threads W threads) (\<lambda>_. js_modify (\<lambda>b. b\<lparr>bd_deferredThreads := None\<rparr>)))
         (\<lambda>_. js_ret ()) b)"

definition withSingleThreadedExtensionLoad ::
  "'e wasm \<Rightarrow> (byte list \<Rightarrow> nat option res) \<Rightarrow> string \<Rightarrow> ('e bindings, 'a) jsm \<Rightarrow> ('e bindings, 'a) jsm" where
  "withSingleThreadedExtensionLoad W threads_of_result txt work b =
     (if (case bd_config b of None \<Rightarrow> False | Some c \<Rightarrow> singleThreadedExtensionLoad c = Some False) then work b
      else if \<not> extension_load txt then js_bind (restoreDeferredThreads W) (\<lambda>_. work) b
      else if bd_deferredThreads b \<noteq> None then work b
      else js_bind (readThreadsSetting W threads_of_result) (\<lambda>previousThreads.
             (case previousThreads of
                None \<Rightarrow> work
              | Some n \<Rightarrow>
                  if n \<le> 1 then work
                  else js_bind (set_threads W 1) (\<lambda>_.
                       js_bind (js_modify (\<lambda>b. b\<lparr>bd_deferredThreads := Some n\<rparr>)) (\<lambda>_. work)))) b)"

definition bindings_runQuery ::
  "'e wasm \<Rightarrow> (byte list \<Rightarrow> nat option res) \<Rightarrow> nat \<Rightarrow> string \<Rightarrow> ('e bindings, byte list) jsm" where
  "bindings_runQuery W thr conn txt = withSingleThreadedExtensionLoad W thr txt (runQueryImpl W conn txt)"

text \<open>A result whose data pointer is null is \<open>null\<close>; its response is not dropped.\<close>

definition header_or_null :: "'e wasm \<Rightarrow> nat \<times> nat \<Rightarrow> ('e bindings, byte list option) jsm" where
  "header_or_null W dn = (if fst dn = 0 then js_ret None else js_bind (result_buffer W dn) (\<lambda>x. js_ret (Some x)))"

definition startPendingQueryImpl :: "'e wasm \<Rightarrow> nat \<Rightarrow> string \<Rightarrow> bool \<Rightarrow> ('e bindings, byte list option) jsm" where
  "startPendingQueryImpl W conn txt allowStreamResult =
     js_bind (call_with_buffer W (text_encode txt) ''duckdb_web_pending_query_start_buffer''
                (\<lambda>p n. [A_num (int conn), A_num p, A_num n, A_bool allowStreamResult]))
       (header_or_null W)"

definition bindings_startPendingQuery ::
  "'e wasm \<Rightarrow> (byte list \<Rightarrow> nat option res) \<Rightarrow> nat \<Rightarrow> string \<Rightarrow> bool \<Rightarrow> ('e bindings, byte list option) jsm" where
  "bindings_startPendingQuery W thr conn txt allowStreamResult =
     withSingleThreadedExtensionLoad W thr txt (startPendingQueryImpl W conn txt allowStreamResult)"

definition bindings_pollPendingQuery :: "'e wasm \<Rightarrow> nat \<Rightarrow> ('e bindings, byte list option) jsm" where
  "bindings_pollPendingQuery W conn =
     js_bind (call_checked W ''duckdb_web_pending_query_poll'' [A_num (int conn)]) (header_or_null W)"

definition bindings_cancelPendingQuery :: "'e wasm \<Rightarrow> nat \<Rightarrow> ('e bindings, bool) jsm" where
  "bindings_cancelPendingQuery W conn =
     js_bind (ccall_number W ''duckdb_web_pending_query_cancel'' [A_num (int conn)]) (\<lambda>r. js_ret (r \<noteq> 0))"

text \<open>The address is a signed 32-bit number; \<open>>>> 0\<close> makes it unsigned.\<close>

definition unsigned32 :: "int \<Rightarrow> nat" where
  "unsigned32 i = unat (word_of_int i :: 32 word)"

definition bindings_getInterruptHandle :: "'e wasm \<Rightarrow> 'e host \<Rightarrow> nat \<Rightarrow> ('e bindings, InterruptHandle option) jsm" where
  "bindings_getInterruptHandle W H conn b =
     (let memory = w_memory W (bd_wasm b) in
      if \<not> h_sharedArrayBuffer H \<or> \<not> w_sharedMemory W (bd_wasm b) then (Inr None, b)
      else js_bind (ccall_number W ''duckdb_web_connection_interrupt_flag'' [A_num (int conn)])
             (\<lambda>r. js_ret (Some \<lparr>ih_memory = memory, ih_offset = unsigned32 r\<rparr>)) b)"

definition bindings_fetchQueryResults :: "'e wasm \<Rightarrow> nat \<Rightarrow> ('e bindings, byte list option) jsm" where
  "bindings_fetchQueryResults W conn =
     js_bind (on_wasm (callSRet W ''duckdb_web_query_fetch_results'' [A_num (int conn)])) (\<lambda>(s, d, n).
       if IsDuckDBWasmRetry s then js_bind (drop_response W) (\<lambda>_. js_ret None)
       else if \<not> IsArrowBuffer s
       then js_bind (on_wasm (readString W d n)) (\<lambda>msg.
              js_throw (Error (''Unexpected StatusCode from duckdb_web_query_fetch_results ('' @ show_int s
                 @ '') and with self reported error as'' @ msg)))
       else js_bind (checked W (s, d, n)) (\<lambda>dn. js_bind (result_buffer W dn) (\<lambda>x. js_ret (Some x))))"

definition bindings_getTableNames :: "'e wasm \<Rightarrow> nat \<Rightarrow> string \<Rightarrow> ('e bindings, string list) jsm" where
  "bindings_getTableNames W conn txt =
     js_bind (call_with_buffer W (text_encode txt) ''duckdb_web_get_tablenames_buffer''
                (\<lambda>p n. [A_num (int conn), A_num p, A_num n]))
       (json_result W json_strings)"

section \<open>User-defined functions\<close>

definition declaration_json :: "UDFFunctionDeclaration \<Rightarrow> json" where
  "declaration_json decl = JObj [(''functionId'', num (ud_functionId decl)), (''name'', JStr (ud_name decl)),
     (''returnType'', JObj (SQLType_json (ud_returnType decl)))]"

text \<open>\<open>worker.postMessage\<close> of an object that holds a function: the structured clone refuses it, at the first worker.\<close>

definition post_function :: "'e wasm \<Rightarrow> UDFFunction \<Rightarrow> ('e bindings, unit) jsm" where
  "post_function W def b =
     (if runningWorkers W (bd_wasm b) @ unusedWorkers W (bd_wasm b) = [] then (Inr (), b)
      else (Inl (JsError ''DataCloneError'' (udf_name def @ '' could not be cloned'')), b))"

definition createScalarFunction ::
  "'e wasm \<Rightarrow> nat \<Rightarrow> string \<Rightarrow> arrow_type \<Rightarrow> nat \<Rightarrow> ('e bindings, unit) jsm" where
  "createScalarFunction W conn name returns func b = (case arrowToSQLType returns of
     Inl e \<Rightarrow> (Inl e, b)
   | Inr t \<Rightarrow>
       let decl = \<lparr>ud_functionId = bd_nextUDFId b, ud_name = name, ud_returnType = t\<rparr>;
           def = \<lparr>udf_functionId = bd_nextUDFId b, udf_connectionId = conn, udf_name = name,
                  udf_returnType = returns, udf_func = func\<rparr>
       in js_bind (js_modify (\<lambda>b. b\<lparr>bd_nextUDFId := bd_nextUDFId b + 1\<rparr>)) (\<lambda>_.
          js_bind (call_checked W ''duckdb_web_udf_scalar_create''
                     [A_num (int conn), A_str (stringify (declaration_json decl))]) (\<lambda>_.
          js_bind (drop_response W) (\<lambda>_.
          js_bind (js_modify (\<lambda>b. b\<lparr>bd_udfFunctions := jm_set (udf_functionId def) def (bd_udfFunctions b)\<rparr>)) (\<lambda>_.
          post_function W def)))) b)"

section \<open>Prepared statements\<close>

definition bindings_createPrepared :: "'e wasm \<Rightarrow> nat \<Rightarrow> string \<Rightarrow> ('e bindings, nat) jsm" where
  "bindings_createPrepared W conn txt =
     js_bind (restoreDeferredThreads W) (\<lambda>_.
     js_bind (call_with_buffer W (text_encode txt) ''duckdb_web_prepared_create_buffer''
                (\<lambda>p n. [A_num (int conn), A_num p, A_num n])) (\<lambda>(d, n).
     js_bind (drop_response W) (\<lambda>_. js_ret d)))"

definition bindings_closePrepared :: "'e wasm \<Rightarrow> nat \<Rightarrow> nat \<Rightarrow> ('e bindings, unit) jsm" where
  "bindings_closePrepared W conn statement =
     js_bind (call_checked W ''duckdb_web_prepared_close'' [A_num (int conn), A_num (int statement)])
       (\<lambda>_. drop_response W)"

definition bindings_runPrepared :: "'e wasm \<Rightarrow> nat \<Rightarrow> nat \<Rightarrow> json list \<Rightarrow> ('e bindings, byte list) jsm" where
  "bindings_runPrepared W conn statement params =
     js_bind (restoreDeferredThreads W) (\<lambda>_.
     js_bind (call_checked W ''duckdb_web_prepared_run''
                [A_num (int conn), A_num (int statement), A_str (stringify (JArr params))]) (result_buffer W))"

definition bindings_sendPrepared :: "'e wasm \<Rightarrow> nat \<Rightarrow> nat \<Rightarrow> json list \<Rightarrow> ('e bindings, byte list) jsm" where
  "bindings_sendPrepared W conn statement params =
     js_bind (restoreDeferredThreads W) (\<lambda>_.
     js_bind (call_checked W ''duckdb_web_prepared_send''
                [A_num (int conn), A_num (int statement), A_str (stringify (JArr params))]) (result_buffer W))"

section \<open>Inserting data\<close>

definition bindings_insertArrowFromIPCStream ::
  "'e wasm \<Rightarrow> nat \<Rightarrow> byte list \<Rightarrow> ArrowInsertOptions option \<Rightarrow> ('e bindings, unit) jsm" where
  "bindings_insertArrowFromIPCStream W conn buffer options =
     js_bind (restoreDeferredThreads W) (\<lambda>_.
     if length buffer = 0 then js_ret ()
     else js_bind (call_with_buffer W buffer ''duckdb_web_insert_arrow_from_ipc_stream''
            (\<lambda>p n. [A_num (int conn), A_num p, A_num n,
               A_str (case options of None \<Rightarrow> [] | Some opts \<Rightarrow> stringify (arrow_options_json opts))]))
          (\<lambda>_. js_ret ()))"

text \<open>The columns of the options, flattened beside them; an error of \<open>arrowToSQLType\<close> is thrown.\<close>

definition csv_columnsFlat_set :: "CSVInsertOptions \<Rightarrow> CSVInsertOptions res" where
  "csv_columnsFlat_set options = (case csv_columns options of
     None \<Rightarrow> Inr options
   | Some cs \<Rightarrow> map_sum id (\<lambda>flat. options\<lparr>csv_columnsFlat := Some flat\<rparr>) (flatten_columns cs))"

definition json_columnsFlat_set :: "JSONInsertOptions \<Rightarrow> JSONInsertOptions res" where
  "json_columnsFlat_set options = (case json_columns options of
     None \<Rightarrow> Inr options
   | Some cs \<Rightarrow> map_sum id (\<lambda>flat. options\<lparr>json_columnsFlat := Some flat\<rparr>) (flatten_columns cs))"

definition bindings_insertCSVFromPath :: "'e wasm \<Rightarrow> nat \<Rightarrow> string \<Rightarrow> CSVInsertOptions \<Rightarrow> ('e bindings, unit) jsm" where
  "bindings_insertCSVFromPath W conn filePath options =
     js_bind (restoreDeferredThreads W) (\<lambda>_.
     (case csv_columnsFlat_set options of
        Inl e \<Rightarrow> js_throw e
      | Inr opt \<Rightarrow>
          js_bind (call_checked W ''duckdb_web_insert_csv_from_path''
                     [A_num (int conn), A_str filePath, A_str (stringify (csv_options_json opt))]) (\<lambda>_. js_ret ())))"

definition bindings_insertJSONFromPath :: "'e wasm \<Rightarrow> nat \<Rightarrow> string \<Rightarrow> JSONInsertOptions \<Rightarrow> ('e bindings, unit) jsm" where
  "bindings_insertJSONFromPath W conn filePath options =
     js_bind (restoreDeferredThreads W) (\<lambda>_.
     (case json_columnsFlat_set options of
        Inl e \<Rightarrow> js_throw e
      | Inr opt \<Rightarrow>
          js_bind (call_checked W ''duckdb_web_insert_json_from_path''
                     [A_num (int conn), A_str filePath, A_str (stringify (json_options_json opt))]) (\<lambda>_. js_ret ())))"

section \<open>Files\<close>

definition bindings_globFiles :: "'e wasm \<Rightarrow> string \<Rightarrow> ('e bindings, WebFile list) jsm" where
  "bindings_globFiles W filePath =
     js_bind (call_checked W ''duckdb_web_fs_glob_file_infos'' [A_str filePath]) (json_result W web_files_of_json)"

definition bindings_registerFileURL ::
  "'e wasm \<Rightarrow> string \<Rightarrow> string \<Rightarrow> DuckDBDataProtocol \<Rightarrow> bool \<Rightarrow> ('e bindings, unit) jsm" where
  "bindings_registerFileURL W name url proto directIO =
     js_bind (call_checked W ''duckdb_web_fs_register_file_url''
                [A_str name, A_str url, A_num (int (protocol_number proto)), A_bool directIO]) (\<lambda>_. drop_response W)"

text \<open>The block with the bytes of the file belongs to the engine from here on: it is not freed.\<close>

definition bindings_registerFileBuffer :: "'e wasm \<Rightarrow> string \<Rightarrow> byte list \<Rightarrow> ('e bindings, unit) jsm" where
  "bindings_registerFileBuffer W name buffer =
     js_bind (bd_malloc W (length buffer)) (\<lambda>ptr.
     js_bind (on_wasm (store_bytes W ptr buffer)) (\<lambda>_.
     js_bind (call_checked W ''duckdb_web_fs_register_file_buffer''
                [A_str name, A_num (int ptr), A_num (int (length buffer))]) (\<lambda>_. drop_response W)))"

definition bindings_registerFileText :: "'e wasm \<Rightarrow> string \<Rightarrow> string \<Rightarrow> ('e bindings, unit) jsm" where
  "bindings_registerFileText W name txt = bindings_registerFileBuffer W name (text_encode txt)"

text \<open>Telling the workers of a handle: one that runs gets it, one that waits drops the name. A synchronous access handle cannot be
  cloned, so posting it to the first running worker throws.\<close>

definition post_handle :: "'e wasm \<Rightarrow> string \<Rightarrow> file_handle \<Rightarrow> ('e bindings, unit) jsm" where
  "post_handle W name handle b =
     (if runningWorkers W (bd_wasm b) \<noteq> [] \<and> (case handle of SyncAccessHandle _ \<Rightarrow> True | _ \<Rightarrow> False)
      then (Inl (JsError ''DataCloneError'' (name @ '' could not be cloned'')), b)
      else (Inr (), post_to (unusedWorkers W (bd_wasm b)) (PM_dropFileHandle name)
                      (post_to (runningWorkers W (bd_wasm b)) (PM_registerFileHandle name handle) b)))"

definition bindings_registerFileHandle ::
  "'e wasm \<Rightarrow> string \<Rightarrow> file_handle \<Rightarrow> DuckDBDataProtocol \<Rightarrow> bool \<Rightarrow> ('e bindings, unit) jsm" where
  "bindings_registerFileHandle W name handle protocol directIO =
     js_bind (call_checked W ''duckdb_web_fs_register_file_url''
                [A_str name, A_str name, A_num (int (protocol_number protocol)), A_bool directIO]) (\<lambda>_.
     js_bind (drop_response W) (\<lambda>_.
     js_bind (js_modify (\<lambda>b. b\<lparr>bd_files := jm_set name handle (bd_files b),
                               bd_preparedHandles := jm_delete name (bd_preparedHandles b)\<rparr>)) (\<lambda>_.
     post_handle W name handle)))"

definition prepareFileHandleAsync ::
  "'e host \<Rightarrow> string \<Rightarrow> file_handle \<Rightarrow> DuckDBDataProtocol \<Rightarrow> bool \<Rightarrow> file_handle res" where
  "prepareFileHandleAsync H name handle protocol directIO =
     (if protocol = BROWSER_FSACCESS
      then (case handle of
              SyncAccessHandle _ \<Rightarrow> Inr handle
            | AsyncFileHandle _ \<Rightarrow>
                map_sum (\<lambda>e. Error (err_message e @ '':'' @ name)) id (h_createSyncAccessHandle H handle)
            | _ \<Rightarrow> map_sum (\<lambda>e. Error (err_message e @ '':'' @ name)) id
                    (case h_getFileHandle H name of
                       Inl e \<Rightarrow> Inl e
                     | Inr fileHandle \<Rightarrow> h_createSyncAccessHandle H fileHandle))
      else Inr handle)"

definition bindings_registerFileHandleAsync ::
  "'e wasm \<Rightarrow> 'e host \<Rightarrow> string \<Rightarrow> file_handle \<Rightarrow> DuckDBDataProtocol \<Rightarrow> bool \<Rightarrow> ('e bindings, unit) jsm" where
  "bindings_registerFileHandleAsync W H name handle protocol directIO =
     (case prepareFileHandleAsync H name handle protocol directIO of
        Inl e \<Rightarrow> js_throw e
      | Inr handle_inner \<Rightarrow> bindings_registerFileHandle W name handle_inner protocol directIO)"

text \<open>The loop over the handles that the runtime prepared.\<close>

fun register_prepared :: "'e wasm \<Rightarrow> 'e host \<Rightarrow> PreparedDBFileHandle list \<Rightarrow> ('e bindings, unit) jsm" where
  "register_prepared W H [] = js_ret ()"
| "register_prepared W H (item # items) =
     js_bind (if \<not> ph_fromCached item \<and> h_getSize H (ph_handle item) \<noteq> 0
              then bindings_registerFileHandleAsync W H (ph_path item) (ph_handle item) BROWSER_FSACCESS True
              else js_ret ()) (\<lambda>_. register_prepared W H items)"

definition bindings_prepareFileHandle ::
  "'e wasm \<Rightarrow> 'e host \<Rightarrow> string \<Rightarrow> DuckDBDataProtocol \<Rightarrow> ('e bindings, unit) jsm" where
  "bindings_prepareFileHandle W H name protocol =
     (case (if protocol = BROWSER_FSACCESS then h_prepareFileHandles H else None) of
        Some prepare \<Rightarrow> js_bind (prepare [name]) (register_prepared W H)
      | None \<Rightarrow> js_throw (Error (''prepareFileHandle: unsupported protocol '' @ show_nat (protocol_number protocol))))"

definition bindings_prepareDBFileHandle ::
  "'e wasm \<Rightarrow> 'e host \<Rightarrow> string \<Rightarrow> DuckDBDataProtocol \<Rightarrow> ('e bindings, unit) jsm" where
  "bindings_prepareDBFileHandle W H filePath protocol =
     (case (if protocol = BROWSER_FSACCESS then h_prepareDBFileHandle H else None) of
        Some prepare \<Rightarrow> js_bind (prepare filePath) (register_prepared W H)
      | None \<Rightarrow> js_throw (Error (''prepareDBFileHandle: unsupported protocol '' @ show_nat (protocol_number protocol))))"

definition bindings_dropFile :: "'e wasm \<Rightarrow> string \<Rightarrow> ('e bindings, unit) jsm" where
  "bindings_dropFile W name =
     js_bind (call_checked W ''duckdb_web_fs_drop_file'' [A_str name]) (\<lambda>_. drop_response W)"

text \<open>
  The strings are copied into the heap one by one. \<open>pointers\<close> is the array that the \<open>finally\<close> block frees, so
  it is returned on every filePath. Empty names are skipped.
\<close>

fun alloc_names :: "'e wasm \<Rightarrow> string list \<Rightarrow> nat list \<Rightarrow> 'e bindings \<Rightarrow> (unit res \<times> nat list) \<times> 'e bindings" where
  "alloc_names W [] pointers b = ((Inr (), pointers), b)"
| "alloc_names W (str # names) pointers b =
     (if length str > 0
      then (case bd_malloc W (length (text_encode str) + 1) b of
              (Inl e, b1) \<Rightarrow> ((Inl e, pointers), b1)
            | (Inr ret, b1) \<Rightarrow>
                if ret = 0 then ((Inl (Error (''Failed to allocate memory for string: '' @ str)), pointers), b1)
                else alloc_names W names (pointers @ [ret])
                       (b1\<lparr>bd_wasm := w_setHEAPU8 W ret (text_encode str @ [0]) (bd_wasm b1)\<rparr>))
      else alloc_names W names pointers b)"

fun store_pointers :: "'e wasm \<Rightarrow> nat \<Rightarrow> nat list \<Rightarrow> 'e \<Rightarrow> 'e" where
  "store_pointers W cell [] e = e"
| "store_pointers W cell (p # ps) e = store_pointers W (cell + 1) ps (w_setHEAP32 W cell (int p) e)"

definition drop_allocated :: "'e wasm \<Rightarrow> nat list \<Rightarrow> nat \<Rightarrow> ('e bindings, unit) jsm" where
  "drop_allocated W pointers pointerOfArray =
     js_bind (on_wasm (js_modify (store_pointers W (drop_bit 2 pointerOfArray) pointers))) (\<lambda>_.
     js_bind (call_checked W ''duckdb_web_fs_drop_files'' [A_num (int pointerOfArray), A_num (int (length pointers))])
       (\<lambda>_. drop_response W))"

fun free_all :: "'e wasm \<Rightarrow> nat list \<Rightarrow> 'e bindings \<Rightarrow> 'e bindings" where
  "free_all W [] b = b"
| "free_all W (p # ps) b = free_all W ps (snd (bd_free W p b))"

definition bindings_dropFiles :: "'e wasm \<Rightarrow> string list option \<Rightarrow> ('e bindings, unit) jsm" where
  "bindings_dropFiles W names b =
     (case alloc_names W (case names of None \<Rightarrow> [] | Some ns \<Rightarrow> ns) [] b of
        ((Inl e, pointers), b1) \<Rightarrow> (Inl e, free_all W pointers b1)
      | ((Inr _, pointers), b1) \<Rightarrow>
          (case bd_malloc W (length pointers * 4) b1 of
             (Inl e, b2) \<Rightarrow> (Inl e, free_all W pointers b2)
           | (Inr pointerOfArray, b2) \<Rightarrow>
               if pointerOfArray = 0
               then (Inl (Error ''Failed to allocate memory for pointers array''), free_all W pointers b2)
               else (case drop_allocated W pointers pointerOfArray b2 of
                       (r, b3) \<Rightarrow> (r, free_all W (pointers @ [pointerOfArray]) b3))))"

definition bindings_flushFiles :: "'e wasm \<Rightarrow> ('e bindings, unit) jsm" where
  "bindings_flushFiles W = js_bind (ccall_number W ''duckdb_web_flush_files'' []) (\<lambda>_. js_ret ())"

definition bindings_copyFileToPath :: "'e wasm \<Rightarrow> string \<Rightarrow> string \<Rightarrow> ('e bindings, unit) jsm" where
  "bindings_copyFileToPath W name filePath =
     js_bind (call_checked W ''duckdb_web_copy_file_to_path'' [A_str name, A_str filePath]) (\<lambda>_. drop_response W)"

definition bindings_copyFileToBuffer :: "'e wasm \<Rightarrow> string \<Rightarrow> ('e bindings, byte list) jsm" where
  "bindings_copyFileToBuffer W name =
     js_bind (call_checked W ''duckdb_web_copy_file_to_buffer'' [A_str name]) (result_buffer W)"

definition bindings_registerOPFSFileName :: "'e wasm \<Rightarrow> 'e host \<Rightarrow> string \<Rightarrow> ('e bindings, unit) jsm" where
  "bindings_registerOPFSFileName W H file =
     (if starts_with ''opfs://'' file then bindings_prepareFileHandle W H file BROWSER_FSACCESS
      else js_throw (Error (''Not an OPFS file name: '' @ file)))"

definition bindings_collectFileStatistics :: "'e wasm \<Rightarrow> string \<Rightarrow> bool \<Rightarrow> ('e bindings, unit) jsm" where
  "bindings_collectFileStatistics W file enable =
     js_bind (call_checked W ''duckdb_web_collect_file_stats'' [A_str file, A_bool enable]) (\<lambda>_. js_ret ())"

text \<open>\<open>doubles\<close> stands for the view of the bytes as \<open>Float64Array\<close>.\<close>

definition bindings_exportFileStatistics ::
  "'e wasm \<Rightarrow> (byte list \<Rightarrow> nat list) \<Rightarrow> string \<Rightarrow> ('e bindings, FileStatistics) jsm" where
  "bindings_exportFileStatistics W doubles file =
     js_bind (call_checked W ''duckdb_web_export_file_stats'' [A_str file]) (\<lambda>(d, n).
     js_bind (on_wasm (copyBuffer W d n)) (\<lambda>bytes. js_ret (FileStatistics (doubles bytes) bytes)))"

section \<open>The class as the bindings of a dispatcher\<close>

definition bindings_of ::
  "'e wasm \<Rightarrow> 'e host \<Rightarrow> (byte list \<Rightarrow> nat option res) \<Rightarrow> (byte list \<Rightarrow> nat list) \<Rightarrow> 'e bindings DuckDBBindings" where
  "bindings_of W H threads_of_result doubles = \<lparr>
     b_open = bindings_open W, b_reset = bindings_reset W, b_getVersion = getVersion W,
     b_getExtensionUrl = getExtensionUrl W, b_getFeatureFlags = getFeatureFlags W, b_tokenize = bindings_tokenize W,
     b_connect = bindings_connect W, b_disconnect = bindings_disconnect W,
     b_runQuery = bindings_runQuery W threads_of_result,
     b_startPendingQuery = bindings_startPendingQuery W threads_of_result,
     b_pollPendingQuery = bindings_pollPendingQuery W, b_cancelPendingQuery = bindings_cancelPendingQuery W,
     b_getInterruptHandle = bindings_getInterruptHandle W H,
     b_fetchQueryResults = bindings_fetchQueryResults W, b_getTableNames = bindings_getTableNames W,
     b_createPrepared = bindings_createPrepared W, b_closePrepared = bindings_closePrepared W,
     b_runPrepared = bindings_runPrepared W, b_sendPrepared = bindings_sendPrepared W,
     b_insertArrowFromIPCStream = bindings_insertArrowFromIPCStream W,
     b_insertCSVFromPath = bindings_insertCSVFromPath W, b_insertJSONFromPath = bindings_insertJSONFromPath W,
     b_registerFileURL = bindings_registerFileURL W, b_registerFileBuffer = bindings_registerFileBuffer W,
     b_registerFileHandleAsync = bindings_registerFileHandleAsync W H,
     b_prepareDBFileHandle = bindings_prepareDBFileHandle W H,
     b_globFiles = bindings_globFiles W, b_dropFile = bindings_dropFile W, b_dropFiles = bindings_dropFiles W,
     b_flushFiles = bindings_flushFiles W, b_copyFileToPath = bindings_copyFileToPath W,
     b_copyFileToBuffer = bindings_copyFileToBuffer W,
     b_registerOPFSFileName = bindings_registerOPFSFileName W H,
     b_collectFileStatistics = bindings_collectFileStatistics W,
     b_exportFileStatistics = bindings_exportFileStatistics W doubles\<rparr>"

end
