(* ===== verification/Hb_Bindings_Props.thy ===== *)
theory Hb_Bindings_Props
  imports Hb_BindingsOps "HOL-Library.Multiset"
begin

text \<open>
  What the methods of \<open>DuckDBBindingsBase\<close> guarantee whatever the module does: which fields they leave alone, that
  they give back the heap blocks they allocate, that the user's thread count survives extension loads, that function
  ids are fresh and known to every worker.
\<close>

section \<open>Frame: what a call of the module leaves alone\<close>

text \<open>The fields that only a few methods write, as one observation.\<close>

definition bd_frame :: "'e bindings \<Rightarrow> 'e bindings" where
  "bd_frame b = b\<lparr>bd_wasm := undefined, bd_blocks := []\<rparr>"

definition frames :: "('e bindings, 'a) jsm \<Rightarrow> bool" where
  "frames m \<longleftrightarrow> (\<forall>b. bd_frame (snd (m b)) = bd_frame b)"

lemma framesD: "frames m \<Longrightarrow> m b = (r, b') \<Longrightarrow> bd_frame b' = bd_frame b"
  unfolding frames_def by (metis snd_conv)

lemma frames_keeps: "frames m \<longleftrightarrow> (\<forall>f. js_keeps (\<lambda>b. bd_frame b = f) m)"
  by (auto simp: frames_def js_keeps_def)

named_theorems hb_frames \<open>operations that only touch the module and its heap\<close>

lemma frames_ret [hb_frames]: "frames (js_ret x)"
  by (simp add: frames_keeps)

lemma frames_throw [hb_frames]: "frames (js_throw e)"
  by (simp add: frames_keeps)

lemma frames_bind [hb_frames]: "frames m \<Longrightarrow> (\<And>x. frames (f x)) \<Longrightarrow> frames (js_bind m f)"
  by (simp add: frames_keeps js_keeps_bind)

lemma frames_try [hb_frames]: "frames m \<Longrightarrow> (\<And>e. frames (h e)) \<Longrightarrow> frames (js_try m h)"
  by (simp add: frames_keeps js_keeps_try)

lemma frames_ensure [hb_frames]: "frames m \<Longrightarrow> frames f \<Longrightarrow> frames (js_ensure m f)"
  by (simp add: frames_keeps js_keeps_ensure)

lemma frames_pure [hb_frames]: "frames (\<lambda>b. (g, b))"
  by (simp add: frames_def)

lemma frames_if [hb_frames]: "frames m \<Longrightarrow> frames n \<Longrightarrow> frames (if c then m else n)"
  by simp

lemma frames_on_wasm [hb_frames]: "frames (on_wasm m)"
  by (auto simp: frames_def on_wasm_def bd_frame_def split: prod.splits)

lemma frames_malloc [hb_frames]: "frames (bd_malloc W n)"
  by (auto simp: frames_def bd_malloc_def bd_frame_def split: prod.splits)

lemma frames_free [hb_frames]: "frames (bd_free W p)"
  by (auto simp: frames_def bd_free_def bd_frame_def)

lemma frames_checked [hb_frames]: "frames (checked W r)"
  by (auto simp: checked_def split: prod.splits intro!: hb_frames)

lemma frames_call_checked [hb_frames]: "frames (call_checked W f args)"
  unfolding call_checked_def by (intro hb_frames)

lemma frames_call_with_buffer [hb_frames]: "frames (call_with_buffer W buf f args)"
  unfolding call_with_buffer_def by (intro hb_frames)

lemma frames_result_buffer [hb_frames]: "frames (result_buffer W dn)"
  unfolding result_buffer_def drop_response_def by (intro hb_frames)

lemma frames_ccall_number [hb_frames]: "frames (ccall_number W f args)"
  unfolding ccall_number_def by (intro hb_frames)

lemma frames_runQueryImpl [hb_frames]: "frames (runQueryImpl W conn txt)"
  unfolding runQueryImpl_def by (intro hb_frames)

lemma frames_private [hb_frames]: "(\<And>c. frames (work c)) \<Longrightarrow> frames (withPrivateConnection W work)"
  unfolding withPrivateConnection_def by (intro hb_frames)

lemma frames_set_threads [hb_frames]: "frames (set_threads W n)"
  unfolding set_threads_def by (intro hb_frames)

lemma frames_readThreads [hb_frames]: "frames (readThreadsSetting W thr)"
  unfolding readThreadsSetting_def by (intro hb_frames)

lemma frame_fields:
  assumes "bd_frame b' = bd_frame b"
  shows "bd_deferredThreads b' = bd_deferredThreads b" "bd_config b' = bd_config b" "bd_nextUDFId b' = bd_nextUDFId b"
    "bd_udfFunctions b' = bd_udfFunctions b" "bd_files b' = bd_files b" "bd_posted b' = bd_posted b"
    "bd_preparedHandles b' = bd_preparedHandles b"
  using arg_cong [OF assms, of bd_deferredThreads] arg_cong [OF assms, of bd_config]
    arg_cong [OF assms, of bd_nextUDFId] arg_cong [OF assms, of bd_udfFunctions] arg_cong [OF assms, of bd_files]
    arg_cong [OF assms, of bd_posted] arg_cong [OF assms, of bd_preparedHandles]
  by (simp_all add: bd_frame_def)

section \<open>Heap blocks\<close>

text \<open>The blocks held, as a multiset; a null pointer is never among them.\<close>

definition holds :: "nat multiset \<Rightarrow> 'e bindings \<Rightarrow> bool" where
  "holds M b \<longleftrightarrow> mset (bd_blocks b) = M \<and> 0 \<notin># M"

lemma holds_wasm [simp]: "holds M (b\<lparr>bd_wasm := e\<rparr>) = holds M b"
  by (simp add: holds_def)

lemma holds_on_wasm: "js_keeps (holds M) (on_wasm m)"
  by (auto simp: js_keeps_def on_wasm_def holds_def split: prod.splits)

lemma holds_checked: "js_keeps (holds M) (checked W r)"
  by (auto simp: checked_def split: prod.splits intro!: js_keeps_rules holds_on_wasm)

lemma holds_call_checked: "js_keeps (holds M) (call_checked W f args)"
  unfolding call_checked_def by (intro js_keeps_rules holds_on_wasm holds_checked)

lemma holds_result_buffer: "js_keeps (holds M) (result_buffer W dn)"
  unfolding result_buffer_def drop_response_def by (intro js_keeps_rules holds_on_wasm)

lemma holds_result_string: "js_keeps (holds M) (result_string W dn)"
  unfolding result_string_def drop_response_def by (intro js_keeps_rules holds_on_wasm)

lemma holds_drop_response: "js_keeps (holds M) (drop_response W)"
  unfolding drop_response_def by (intro holds_on_wasm)

lemma holds_malloc:
  "holds M b \<Longrightarrow> bd_malloc W n b = (Inr p, b') \<Longrightarrow> holds (if p = 0 then M else add_mset p M) b'"
  by (auto simp: bd_malloc_def holds_def split: prod.splits if_splits)

lemma bd_malloc_Inl: "bd_malloc W n b \<noteq> (Inl e, b')"
  by (auto simp: bd_malloc_def split: prod.splits)

lemma holds_free: "holds M b \<Longrightarrow> holds (M - {#p#}) (snd (bd_free W p b))"
  by (auto simp: bd_free_def holds_def dest: in_diffD)

lemma holds_free_all: "holds M b \<Longrightarrow> holds (M - mset ps) (free_all W ps b)"
proof (induction ps arbitrary: M b)
  case (Cons p ps)
  from Cons.IH [OF holds_free [OF Cons.prems]] show ?case by (simp add: add_mset_commute)
qed simp

lemma holds_alloc_names:
  "holds (M + mset ps) b \<Longrightarrow> alloc_names W names ps b = ((r, qs), b') \<Longrightarrow> holds (M + mset qs) b'"
proof (induction names arbitrary: ps b)
  case (Cons str names)
  show ?case
  proof (cases "length str > 0")
    case False
    with Cons show ?thesis by simp
  next
    case True
    obtain ret b1 where m: "bd_malloc W (length (text_encode str) + 1) b = (Inr ret, b1)"
      by (metis bd_malloc_Inl obj_sumE surj_pair)
    from holds_malloc [OF Cons.prems(1) m] have h: "holds (if ret = 0 then M + mset ps else add_mset ret (M + mset ps)) b1" .
    show ?thesis
    proof (cases "ret = 0")
      case True
      with h m \<open>length str > 0\<close> Cons.prems(2) show ?thesis by auto
    next
      case False
      with h m \<open>length str > 0\<close> Cons.prems(2) show ?thesis by (intro Cons.IH [of "ps @ [ret]"]) simp_all
    qed
  qed
qed simp

text \<open>C23: Dropping a list of files gives back every heap block it allocated, on every path: an allocation that
  fails half way, a call that throws, an error status, and success.\<close>

theorem dropFiles_frees_everything:
  assumes "0 \<notin> set (bd_blocks b)"
  shows "mset (bd_blocks (snd (bindings_dropFiles W names b))) = mset (bd_blocks b)"
proof -
  define M where "M = mset (bd_blocks b)"
  have b: "holds (M + mset []) b" using assms by (simp add: holds_def M_def)
  obtain r ps b1 where a: "alloc_names W (case names of None \<Rightarrow> [] | Some ns \<Rightarrow> ns) [] b = ((r, ps), b1)"
    by (metis surj_pair)
  from holds_alloc_names [OF b a] have b1: "holds (M + mset ps) b1" .
  have "holds M (snd (bindings_dropFiles W names b))"
  proof (cases r)
    case (Inl e)
    with a holds_free_all [OF b1, of ps W] show ?thesis by (simp add: bindings_dropFiles_def)
  next
    case (Inr u)
    obtain q b2 where m: "bd_malloc W (length ps * 4) b1 = (Inr q, b2)" by (metis bd_malloc_Inl obj_sumE surj_pair)
    from holds_malloc [OF b1 m] have b2: "holds (if q = 0 then M + mset ps else add_mset q (M + mset ps)) b2" .
    show ?thesis
    proof (cases "q = 0")
      case True
      with a m Inr b2 holds_free_all [of "M + mset ps" b2 ps W] show ?thesis by (simp add: bindings_dropFiles_def)
    next
      case False
      obtain r3 b3 where d: "drop_allocated W ps q b2 = (r3, b3)" by (metis surj_pair)
      have "js_keeps (holds (add_mset q (M + mset ps))) (drop_allocated W ps q)"
        unfolding drop_allocated_def by (intro js_keeps_rules holds_on_wasm holds_call_checked holds_drop_response)
      from js_keepsD [OF this _ d] b2 False have b3: "holds (add_mset q (M + mset ps)) b3" by simp
      have "add_mset q (M + mset ps) - mset (ps @ [q]) = M" by simp
      with holds_free_all [OF b3, of "ps @ [q]" W] a m Inr False d show ?thesis
        by (simp add: bindings_dropFiles_def)
    qed
  qed
  then show ?thesis by (simp add: holds_def M_def)
qed

section \<open>The user's thread count\<close>

abbreviation run_buffer_args :: "nat \<Rightarrow> nat \<Rightarrow> nat \<Rightarrow> ccall_arg list" where
  "run_buffer_args conn p n \<equiv> [A_num (int conn), A_num (int p), A_num (int n)]"

definition set_threads_text :: "nat \<Rightarrow> string" where
  "set_threads_text k = ''SET threads='' @ show_nat k"

definition read_threads_text :: string where
  "read_threads_text = ''SELECT current_setting('' @ quote # ''threads'' @ quote # '')''"

text \<open>
  What the engine documents of its \<open>threads\<close> setting \<open>T\<close>: connecting, disconnecting, dropping a response and the
  heap leave it alone and do not fail; a block that was just allocated holds what is stored in it; \<open>SET threads=k\<close>
  that succeeds makes it \<open>k\<close> and otherwise leaves it; and reading it leaves it and, when that succeeds, gives its
  value.
\<close>

definition threads_engine :: "'e wasm \<Rightarrow> (byte list \<Rightarrow> nat option res) \<Rightarrow> ('e \<Rightarrow> nat) \<Rightarrow> bool" where
  "threads_engine W thr T \<longleftrightarrow>
     (\<forall>f args e. f \<in> {''duckdb_web_connect'', ''duckdb_web_disconnect'', ''duckdb_web_clear_response''} \<longrightarrow>
        (\<exists>v e'. w_ccall W f args e = (Inr v, e') \<and> T e' = T e))
     \<and> (\<forall>n e. T (snd (w_malloc W n e)) = T e) \<and> (\<forall>p e. T (w_free W p e) = T e)
     \<and> (\<forall>p bs e. T (w_setHEAPU8 W p bs e) = T e)
     \<and> (\<forall>n e p e1 bs. w_malloc W n e = (p, e1) \<longrightarrow> length bs = n \<longrightarrow> length (heap_view W p n e1) = n \<longrightarrow>
          heap_view W p n (w_setHEAPU8 W p bs e1) = bs)
     \<and> (\<forall>c p n e k. heap_view W p n e = text_encode (set_threads_text k) \<longrightarrow>
          (case callSRet W ''duckdb_web_query_run_buffer'' (run_buffer_args c p n) e of
             (Inl err, e') \<Rightarrow> T e' = T e
           | (Inr (s, d, m), e') \<Rightarrow> T e' = (if s = SUCCESS then k else T e)))
     \<and> (\<forall>c p n e. heap_view W p n e = text_encode read_threads_text \<longrightarrow>
          (case callSRet W ''duckdb_web_query_run_buffer'' (run_buffer_args c p n) e of
             (Inl err, e') \<Rightarrow> T e' = T e
           | (Inr (s, d, m), e') \<Rightarrow> T e' = T e \<and> (s = SUCCESS \<longrightarrow>
               thr (heap_view W d m (w_free W p e')) \<in> {Inr None, Inr (Some (T e))})))"

lemma threads_engineD:
  assumes "threads_engine W thr T"
  shows "\<And>f args e. f \<in> {''duckdb_web_connect'', ''duckdb_web_disconnect'', ''duckdb_web_clear_response''} \<Longrightarrow>
        \<exists>v e'. w_ccall W f args e = (Inr v, e') \<and> T e' = T e"
    "\<And>n e. T (snd (w_malloc W n e)) = T e" "\<And>p e. T (w_free W p e) = T e" "\<And>p bs e. T (w_setHEAPU8 W p bs e) = T e"
    "\<And>n e p e1 bs. w_malloc W n e = (p, e1) \<Longrightarrow> length bs = n \<Longrightarrow> length (heap_view W p n e1) = n \<Longrightarrow>
        heap_view W p n (w_setHEAPU8 W p bs e1) = bs"
    "\<And>c p n e k. heap_view W p n e = text_encode (set_threads_text k) \<Longrightarrow>
        (case callSRet W ''duckdb_web_query_run_buffer'' (run_buffer_args c p n) e of
           (Inl err, e') \<Rightarrow> T e' = T e
         | (Inr (s, d, m), e') \<Rightarrow> T e' = (if s = SUCCESS then k else T e))"
    "\<And>c p n e. heap_view W p n e = text_encode read_threads_text \<Longrightarrow>
        (case callSRet W ''duckdb_web_query_run_buffer'' (run_buffer_args c p n) e of
           (Inl err, e') \<Rightarrow> T e' = T e
         | (Inr (s, d, m), e') \<Rightarrow> T e' = T e \<and> (s = SUCCESS \<longrightarrow>
             thr (heap_view W d m (w_free W p e')) \<in> {Inr None, Inr (Some (T e))}))"
proof -
  note c = assms [unfolded threads_engine_def]
  note c2 = conjunct2 [OF c] note c3 = conjunct2 [OF c2] note c4 = conjunct2 [OF c3] note c5 = conjunct2 [OF c4]
  note c6 = conjunct2 [OF c5]
  show "f \<in> {''duckdb_web_connect'', ''duckdb_web_disconnect'', ''duckdb_web_clear_response''} \<Longrightarrow>
      \<exists>v e'. w_ccall W f args e = (Inr v, e') \<and> T e' = T e" for f args e
    by (rule conjunct1 [OF c, rule_format])
  show "T (snd (w_malloc W n e)) = T e" for n e by (rule conjunct1 [OF c2, rule_format])
  show "T (w_free W p e) = T e" for p e by (rule conjunct1 [OF c3, rule_format])
  show "T (w_setHEAPU8 W p bs e) = T e" for p bs e by (rule conjunct1 [OF c4, rule_format])
  show "w_malloc W n e = (p, e1) \<Longrightarrow> length bs = n \<Longrightarrow> length (heap_view W p n e1) = n \<Longrightarrow>
      heap_view W p n (w_setHEAPU8 W p bs e1) = bs" for n e p e1 bs
    by (rule conjunct1 [OF c5, rule_format])
qed (use assms [unfolded threads_engine_def] in \<open>simp_all only: simp_thms\<close>)

text \<open>A script run on the engine: it is in the heap when the engine is called, and nothing else touches the setting.\<close>

lemma runQueryImpl_calls:
  assumes "threads_engine W thr T"
  shows "(\<exists>err b'. runQueryImpl W conn txt b = (Inl err, b') \<and> T (bd_wasm b') = T (bd_wasm b))
    \<or> (\<exists>p e2 r e3 b'. heap_view W p (length txt) e2 = text_encode txt \<and> T e2 = T (bd_wasm b)
        \<and> callSRet W ''duckdb_web_query_run_buffer'' (run_buffer_args conn p (length txt)) e2 = (r, e3)
        \<and> T (bd_wasm b') = T e3
        \<and> (case r of
             Inl err \<Rightarrow> runQueryImpl W conn txt b = (Inl err, b')
           | Inr (s, d, m) \<Rightarrow>
               if s = SUCCESS then runQueryImpl W conn txt b = (Inr (heap_view W d m (w_free W p e3)), b')
               else (\<exists>err. runQueryImpl W conn txt b = (Inl err, b'))))"
proof -
  note E = threads_engineD [OF assms]
  obtain p e1 where m: "w_malloc W (length txt) (bd_wasm b) = (p, e1)" by force
  have T1: "T e1 = T (bd_wasm b)" using E(2) [of "length txt" "bd_wasm b"] m by simp
  show ?thesis
  proof (cases "length (heap_view W p (length txt) e1) < length txt")
    case True
    then show ?thesis using m T1
      by (intro disjI1) (simp add: runQueryImpl_def call_with_buffer_def js_bind_def bd_malloc_def on_wasm_def store_bytes_def)
  next
    case False
    then have len: "length (heap_view W p (length txt) e1) = length txt" by (simp add: heap_view_def)
    define e2 where "e2 = w_setHEAPU8 W p (text_encode txt) e1"
    have e2: "heap_view W p (length txt) e2 = text_encode txt" "T e2 = T (bd_wasm b)"
      using E(5) [OF m _ len, of "text_encode txt"] E(4) T1 by (simp_all add: e2_def)
    obtain r e3 where c: "callSRet W ''duckdb_web_query_run_buffer'' (run_buffer_args conn p (length txt)) e2 = (r, e3)"
      by force
    obtain v e4 where d: "w_ccall W ''duckdb_web_clear_response'' [] (w_free W p e3) = (Inr v, e4)" "T e4 = T e3"
      using E(1) [of "''duckdb_web_clear_response''" "[]" "w_free W p e3"] E(3) by auto
    note defs = runQueryImpl_def call_with_buffer_def js_bind_def bd_malloc_def on_wasm_def store_bytes_def bd_free_def
      checked_def result_buffer_def drop_response_def dropResponseBuffers_def copyBuffer_def readString_def js_throw_def
      js_ret_def
    have "\<exists>b'. T (bd_wasm b') = T e3 \<and> (case r of
             Inl err \<Rightarrow> runQueryImpl W conn txt b = (Inl err, b')
           | Inr (s, d, m) \<Rightarrow>
               if s = SUCCESS then runQueryImpl W conn txt b = (Inr (heap_view W d m (w_free W p e3)), b')
               else (\<exists>err. runQueryImpl W conn txt b = (Inl err, b')))"
      using m False c d E(3) by (cases r) (auto simp: defs e2_def [symmetric] split: prod.splits)
    with e2 c show ?thesis by (intro disjI2) blast
  qed
qed

lemma withPrivateConnection_calls:
  assumes "threads_engine W thr T" "withPrivateConnection W work b = (r, b')"
  shows "\<exists>c b1 b2. T (bd_wasm b1) = T (bd_wasm b) \<and> bd_frame b1 = bd_frame b \<and> work c b1 = (r, b2)
    \<and> T (bd_wasm b') = T (bd_wasm b2) \<and> bd_frame b' = bd_frame b2"
proof -
  note E = threads_engineD [OF assms(1)]
  obtain v e1 where c: "w_ccall W ''duckdb_web_connect'' [] (bd_wasm b) = (Inr v, e1)" "T e1 = T (bd_wasm b)"
    using E(1) by blast
  obtain r2 b2 where w: "work (nat v) (b\<lparr>bd_wasm := e1\<rparr>) = (r2, b2)" by force
  obtain v3 e3 where d: "w_ccall W ''duckdb_web_disconnect'' [A_num (int (nat v))] (bd_wasm b2) = (Inr v3, e3)"
    "T e3 = T (bd_wasm b2)"
    using E(1) by blast
  have "r = r2" "b' = b2\<lparr>bd_wasm := e3\<rparr>"
    using assms(2) c w d
    by (simp_all add: withPrivateConnection_def js_bind_def js_ensure_def ccall_number_def on_wasm_def js_ret_def)
  with c w d show ?thesis
    by (intro exI [of _ "nat v"] exI [of _ "b\<lparr>bd_wasm := e1\<rparr>"] exI [of _ b2]) (simp add: bd_frame_def)
qed

lemma set_threads_outcome:
  assumes "threads_engine W thr T" "set_threads W n b = (r, b')"
  shows "T (bd_wasm b') = (case r of Inl _ \<Rightarrow> T (bd_wasm b) | Inr _ \<Rightarrow> n)" "bd_frame b' = bd_frame b"
proof -
  show "bd_frame b' = bd_frame b" using framesD [OF frames_set_threads assms(2)] .
  obtain r1 where p: "withPrivateConnection W (\<lambda>conn. runQueryImpl W conn (set_threads_text n)) b = (r1, b')"
    "r = map_sum id (\<lambda>_. ()) r1"
    using assms(2) by (auto simp: set_threads_def set_threads_text_def js_bind_def js_ret_def split: prod.splits sum.splits)
  from withPrivateConnection_calls [OF assms(1) p(1)] obtain c b1 b2 where
    b: "T (bd_wasm b1) = T (bd_wasm b)" "runQueryImpl W c (set_threads_text n) b1 = (r1, b2)" "T (bd_wasm b') = T (bd_wasm b2)"
    by blast
  from runQueryImpl_calls [OF assms(1), of c "set_threads_text n" b1]
  have "T (bd_wasm b2) = (case r1 of Inl _ \<Rightarrow> T (bd_wasm b1) | Inr _ \<Rightarrow> n)"
  proof (elim disjE exE conjE)
    fix p e2 q e3 b3
    assume h: "heap_view W p (length (set_threads_text n)) e2 = text_encode (set_threads_text n)" "T e2 = T (bd_wasm b1)"
      "callSRet W ''duckdb_web_query_run_buffer'' (run_buffer_args c p (length (set_threads_text n))) e2 = (q, e3)"
      "T (bd_wasm b3) = T e3"
      "case q of Inl err \<Rightarrow> runQueryImpl W c (set_threads_text n) b1 = (Inl err, b3)
        | Inr (s, d, m) \<Rightarrow> if s = SUCCESS
            then runQueryImpl W c (set_threads_text n) b1 = (Inr (heap_view W d m (w_free W p e3)), b3)
            else \<exists>err. runQueryImpl W c (set_threads_text n) b1 = (Inl err, b3)"
    from threads_engineD(6) [OF assms(1) h(1), of c] h(2-5) b(2) show ?thesis
      by (cases q) (auto split: if_splits)
  qed (use b(2) in auto)
  with b p(2) show "T (bd_wasm b') = (case r of Inl _ \<Rightarrow> T (bd_wasm b) | Inr _ \<Rightarrow> n)" by (cases r1) auto
qed

lemma readThreadsSetting_outcome:
  assumes "threads_engine W thr T" "readThreadsSetting W thr b = (r, b')"
  shows "r = Inr None \<or> r = Inr (Some (T (bd_wasm b)))" "T (bd_wasm b') = T (bd_wasm b)" "bd_frame b' = bd_frame b"
proof -
  show "bd_frame b' = bd_frame b" using framesD [OF frames_readThreads assms(2)] .
  obtain r1 b3 where p: "withPrivateConnection W (\<lambda>conn. runQueryImpl W conn read_threads_text) b = (r1, b3)" by force
  have r: "b' = b3" "r = (case r1 of Inl _ \<Rightarrow> Inr None | Inr bytes \<Rightarrow> (case thr bytes of Inl _ \<Rightarrow> Inr None | Inr x \<Rightarrow> Inr x))"
    using assms(2) p by (auto simp: readThreadsSetting_def read_threads_text_def js_bind_def js_try_def js_ret_def split: sum.splits)
  from withPrivateConnection_calls [OF assms(1) p] obtain c b1 b2 where
    b: "T (bd_wasm b1) = T (bd_wasm b)" "runQueryImpl W c read_threads_text b1 = (r1, b2)" "T (bd_wasm b3) = T (bd_wasm b2)"
    by blast
  from runQueryImpl_calls [OF assms(1), of c read_threads_text b1]
  have "T (bd_wasm b2) = T (bd_wasm b1) \<and> (\<forall>bytes. r1 = Inr bytes \<longrightarrow> thr bytes \<in> {Inr None, Inr (Some (T (bd_wasm b1)))})"
  proof (elim disjE exE conjE)
    fix p e2 q e3 b3
    assume h: "heap_view W p (length read_threads_text) e2 = text_encode read_threads_text" "T e2 = T (bd_wasm b1)"
      "callSRet W ''duckdb_web_query_run_buffer'' (run_buffer_args c p (length read_threads_text)) e2 = (q, e3)"
      "T (bd_wasm b3) = T e3"
      "case q of Inl err \<Rightarrow> runQueryImpl W c read_threads_text b1 = (Inl err, b3)
        | Inr (s, d, m) \<Rightarrow> if s = SUCCESS
            then runQueryImpl W c read_threads_text b1 = (Inr (heap_view W d m (w_free W p e3)), b3)
            else \<exists>err. runQueryImpl W c read_threads_text b1 = (Inl err, b3)"
    from threads_engineD(7) [OF assms(1) h(1), of c] h(2-5) b(2) show ?thesis
      by (cases q) (auto split: if_splits)
  qed (use b(2) in auto)
  with b r show "r = Inr None \<or> r = Inr (Some (T (bd_wasm b)))" "T (bd_wasm b') = T (bd_wasm b)"
    by (auto split: sum.splits)
qed

definition user_threads :: "('e \<Rightarrow> nat) \<Rightarrow> 'e bindings \<Rightarrow> nat" where
  "user_threads T b = (case bd_deferredThreads b of Some n \<Rightarrow> n | None \<Rightarrow> T (bd_wasm b))"

definition single_threaded_loads :: "'e bindings \<Rightarrow> bool" where
  "single_threaded_loads b \<longleftrightarrow> (case bd_config b of None \<Rightarrow> True | Some c \<Rightarrow> singleThreadedExtensionLoad c \<noteq> Some False)"

text \<open>A statement that is not an extension load runs with the thread count the user has set: when earlier loads
  left the engine at one thread the count is restored first. Should the restore fail, nothing changes and it stays
  due.\<close>

theorem other_statements_run_with_the_users_threads:
  assumes "threads_engine W thr T" "single_threaded_loads b" "\<not> extension_load txt"
  shows "\<exists>b'. withSingleThreadedExtensionLoad W thr txt work b = work b'
    \<and> (bd_deferredThreads b' = None \<and> T (bd_wasm b') = user_threads T b
       \<or> bd_deferredThreads b' = bd_deferredThreads b \<and> T (bd_wasm b') = T (bd_wasm b))"
proof -
  have w: "withSingleThreadedExtensionLoad W thr txt work b = js_bind (restoreDeferredThreads W) (\<lambda>_. work) b"
    using assms(2,3) by (auto simp: withSingleThreadedExtensionLoad_def single_threaded_loads_def split: option.splits)
  show ?thesis
  proof (cases "bd_deferredThreads b")
    case None
    then show ?thesis unfolding w by (intro exI [of _ b]) (simp add: restoreDeferredThreads_def js_bind_def)
  next
    case (Some n)
    obtain r b1 where st: "set_threads W n b = (r, b1)" by force
    note o = set_threads_outcome [OF assms(1) st]
    show ?thesis
    proof (cases r)
      case (Inl e)
      with st Some have "withSingleThreadedExtensionLoad W thr txt work b = work b1"
        unfolding w by (simp add: restoreDeferredThreads_def js_bind_def js_try_def js_ret_def)
      with o Inl frame_fields(1) [OF o(2)] show ?thesis by auto
    next
      case (Inr u)
      with st Some have "withSingleThreadedExtensionLoad W thr txt work b = work (b1\<lparr>bd_deferredThreads := None\<rparr>)"
        unfolding w by (simp add: restoreDeferredThreads_def js_bind_def js_try_def js_modify_def)
      with o Inr Some show ?thesis by (intro exI [of _ "b1\<lparr>bd_deferredThreads := None\<rparr>"]) (simp add: user_threads_def)
    qed
  qed
qed

text \<open>While a thread count is due to be restored the engine runs on one thread. A statement that leaves the setting alone.\<close>

definition lowered :: "('e \<Rightarrow> nat) \<Rightarrow> 'e bindings \<Rightarrow> bool" where
  "lowered T b \<longleftrightarrow> bd_deferredThreads b = None \<or> T (bd_wasm b) \<le> 1"

definition keeps_threads :: "('e \<Rightarrow> nat) \<Rightarrow> ('e bindings, 'a) jsm \<Rightarrow> bool" where
  "keeps_threads T work \<longleftrightarrow> (\<forall>b. T (bd_wasm (snd (work b))) = T (bd_wasm b)
     \<and> bd_deferredThreads (snd (work b)) = bd_deferredThreads b \<and> bd_config (snd (work b)) = bd_config b)"

text \<open>Statements one after the other.\<close>

fun run_statements :: "'e wasm \<Rightarrow> (byte list \<Rightarrow> nat option res) \<Rightarrow> (string \<times> ('e bindings, 'a) jsm) list \<Rightarrow> 'e bindings \<Rightarrow> 'e bindings" where
  "run_statements W thr [] b = b"
| "run_statements W thr ((txt, work) # rest) b = run_statements W thr rest (snd (withSingleThreadedExtensionLoad W thr txt work b))"

text \<open>How a load starts.\<close>

lemma load_starts:
  assumes "threads_engine W thr T" "single_threaded_loads b" "extension_load txt" "lowered T b"
  shows "\<exists>b'. user_threads T b' = user_threads T b \<and> lowered T b' \<and> bd_config b' = bd_config b
    \<and> (bd_deferredThreads b \<noteq> None \<longrightarrow> b' = b)
    \<and> (withSingleThreadedExtensionLoad W thr txt work b = work b'
         \<and> (T (bd_wasm b') \<le> 1 \<or> bd_deferredThreads b = None \<and> fst (readThreadsSetting W thr b) = Inr None)
       \<or> (\<exists>e. withSingleThreadedExtensionLoad W thr txt work b = (Inl e, b')))"
proof (cases "bd_deferredThreads b")
  case (Some n)
  then have "withSingleThreadedExtensionLoad W thr txt work b = work b"
    using assms(2,3) by (auto simp: withSingleThreadedExtensionLoad_def single_threaded_loads_def split: option.splits)
  with assms(4) Some show ?thesis by (intro exI [of _ b]) (simp add: lowered_def)
next
  case none: None
  obtain r b1 where rd: "readThreadsSetting W thr b = (r, b1)" by force
  note o = readThreadsSetting_outcome [OF assms(1) rd]
  note fr = frame_fields(1,2) [OF o(3)]
  have d1: "bd_deferredThreads b1 = None" using fr none by simp
  then have u1: "user_threads T b1 = user_threads T b" using o(2) none by (simp add: user_threads_def)
  have w: "withSingleThreadedExtensionLoad W thr txt work b
      = js_bind (readThreadsSetting W thr) (\<lambda>previousThreads.
          case previousThreads of None \<Rightarrow> work
          | Some n \<Rightarrow> if n \<le> 1 then work
              else js_bind (set_threads W 1) (\<lambda>_. js_bind (js_modify (\<lambda>b. b\<lparr>bd_deferredThreads := Some n\<rparr>)) (\<lambda>_. work))) b"
    using assms(2,3) none by (auto simp: withSingleThreadedExtensionLoad_def single_threaded_loads_def split: option.splits)
  from o(1) consider "r = Inr None" | "r = Inr (Some (T (bd_wasm b)))" "T (bd_wasm b) \<le> 1"
    | "r = Inr (Some (T (bd_wasm b)))" "T (bd_wasm b) > 1" by force
  then show ?thesis
  proof cases
    case 1
    with rd u1 d1 none fr show ?thesis unfolding w by (intro exI [of _ b1]) (simp add: js_bind_def lowered_def)
  next
    case 2
    with rd u1 o(2) none fr show ?thesis unfolding w by (intro exI [of _ b1]) (simp add: js_bind_def lowered_def)
  next
    case 3
    obtain q b2 where st: "set_threads W 1 b1 = (q, b2)" by force
    note p = set_threads_outcome [OF assms(1) st]
    note fr2 = frame_fields(1,2) [OF p(2)]
    have d2: "bd_deferredThreads b2 = None" using fr2 d1 by simp
    show ?thesis
    proof (cases q)
      case (Inl e)
      with 3 rd st p d2 u1 o(2) d1 fr fr2 none show ?thesis unfolding w
        by (intro exI [of _ b2]) (simp add: js_bind_def user_threads_def lowered_def)
    next
      case (Inr u)
      with 3 rd st p u1 o(2) d1 fr fr2 none show ?thesis unfolding w
        by (intro exI [of _ "b2\<lparr>bd_deferredThreads := Some (T (bd_wasm b))\<rparr>"])
          (simp add: js_bind_def js_modify_def user_threads_def lowered_def)
    qed
  qed
qed

lemma keeps_threads_facts:
  assumes "keeps_threads T work"
  shows "user_threads T (snd (work b)) = user_threads T b" "lowered T (snd (work b)) \<longleftrightarrow> lowered T b"
    "single_threaded_loads (snd (work b)) \<longleftrightarrow> single_threaded_loads b" "T (bd_wasm (snd (work b))) = T (bd_wasm b)"
  using assms by (simp_all add: keeps_threads_def user_threads_def lowered_def single_threaded_loads_def split: option.split)

lemma load_keeps:
  assumes "threads_engine W thr T" "single_threaded_loads b" "extension_load txt" "lowered T b" "keeps_threads T work"
  defines "b1 \<equiv> snd (withSingleThreadedExtensionLoad W thr txt work b)"
  shows "single_threaded_loads b1" "lowered T b1" "user_threads T b1 = user_threads T b"
proof -
  obtain b' where b': "user_threads T b' = user_threads T b" "lowered T b'" "bd_config b' = bd_config b" "b1 = snd (work b') \<or> b1 = b'"
    using load_starts [OF assms(1-4), of work] by (auto simp: b1_def)
  then have "single_threaded_loads b'" using assms(2) by (simp add: single_threaded_loads_def)
  with b' keeps_threads_facts [OF assms(5), of b'] show "single_threaded_loads b1" "lowered T b1" "user_threads T b1 = user_threads T b"
    by auto
qed

lemma loads_keep:
  assumes "threads_engine W thr T"
  shows "single_threaded_loads b \<Longrightarrow> lowered T b \<Longrightarrow> \<forall>(txt, work) \<in> set loads. extension_load txt \<and> keeps_threads T work \<Longrightarrow>
    single_threaded_loads (run_statements W thr loads b) \<and> lowered T (run_statements W thr loads b)
    \<and> user_threads T (run_statements W thr loads b) = user_threads T b"
proof (induction loads arbitrary: b)
  case (Cons l loads)
  obtain x work where l: "l = (x, work)" by force
  with Cons.prems(3) have "extension_load x" "keeps_threads T work" by simp_all
  note k = load_keeps [OF assms Cons.prems(1) this(1) Cons.prems(2) this(2)]
  show ?case using Cons.IH [OF k(1,2)] Cons.prems(3) k(3) by (simp add: l)
qed simp

text \<open>C22: In a run of extension loads, whose statements leave the setting alone, every load starts on a single thread, whatever the engine
  answers, and ends with it: it runs with more threads only where the setting cannot be read, and not at all where it cannot be lowered.
  Once it has been lowered, a load starts at once, without any call that would touch the setting. The thread count the user has set is never
  lost: it is the engine's or kept for the next other statement.\<close>

theorem loads_run_on_one_thread:
  assumes "threads_engine W thr T" "single_threaded_loads b" "bd_deferredThreads b = None"
    and "\<forall>(t, w) \<in> set (before @ [(txt, work)]). extension_load t \<and> keeps_threads T w"
  defines "b0 \<equiv> run_statements W thr before b" and "b1 \<equiv> run_statements W thr (before @ [(txt, work)]) b"
  shows "\<exists>b'. user_threads T b' = user_threads T b \<and> user_threads T b1 = user_threads T b
    \<and> (bd_deferredThreads b0 \<noteq> None \<longrightarrow> b' = b0)
    \<and> (withSingleThreadedExtensionLoad W thr txt work b0 = work b'
         \<and> (T (bd_wasm b') \<le> 1 \<and> T (bd_wasm b1) \<le> 1
            \<or> bd_deferredThreads b0 = None \<and> fst (readThreadsSetting W thr b0) = Inr None)
       \<or> (\<exists>e. withSingleThreadedExtensionLoad W thr txt work b0 = (Inl e, b')))"
proof -
  have x: "extension_load txt" "keeps_threads T work" "\<forall>(t, w) \<in> set before. extension_load t \<and> keeps_threads T w" using assms(4) by auto
  have "lowered T b" using assms(3) by (simp add: lowered_def)
  from loads_keep [OF assms(1,2) this x(3)]
  have i: "single_threaded_loads b0" "lowered T b0" "user_threads T b0 = user_threads T b" by (simp_all add: b0_def)
  have app: "run_statements W thr (xs @ ys) c = run_statements W thr ys (run_statements W thr xs c)" for xs ys c
    by (induction xs arbitrary: c) auto
  have b1: "b1 = snd (withSingleThreadedExtensionLoad W thr txt work b0)" by (simp add: b1_def b0_def app)
  obtain b' where b': "user_threads T b' = user_threads T b0" "bd_deferredThreads b0 \<noteq> None \<longrightarrow> b' = b0"
    "withSingleThreadedExtensionLoad W thr txt work b0 = work b'
         \<and> (T (bd_wasm b') \<le> 1 \<or> bd_deferredThreads b0 = None \<and> fst (readThreadsSetting W thr b0) = Inr None)
       \<or> (\<exists>e. withSingleThreadedExtensionLoad W thr txt work b0 = (Inl e, b'))"
    using load_starts [OF assms(1) i(1) x(1) i(2), of work] by blast
  have "T (bd_wasm b1) = T (bd_wasm b')" if "withSingleThreadedExtensionLoad W thr txt work b0 = work b'"
    using keeps_threads_facts(4) [OF x(2), of b'] by (simp add: b1 that)
  moreover have "user_threads T b1 = user_threads T b" using load_keeps(3) [OF assms(1) i(1) x(1) i(2) x(2)] i(3) by (simp add: b1)
  ultimately show ?thesis using b' i(3) by (intro exI [of _ b']) auto
qed

section \<open>An engine that keeps its promises\<close>

text \<open>A module with one heap block at address 8, a \<open>threads\<close> setting whose decimal text follows the block, and the
  three numbers of the last response.\<close>

record engine =
  en_block :: "byte list"
  en_threads :: nat
  en_response :: "int list"

definition engine_heap :: "engine \<Rightarrow> byte list" where
  "engine_heap e = replicate 8 0 @ en_block e @ text_encode (show_nat (en_threads e))"

definition engine_ccall :: "string \<Rightarrow> ccall_arg list \<Rightarrow> (engine, int) jsm" where
  "engine_ccall f args e =
     (if f = ''duckdb_web_query_run_buffer''
      then (let txt = (case args of
                 [_, _, A_num p, A_num n] \<Rightarrow> text_decode (subarray (nat p) (nat p + nat n) (engine_heap e)) | _ \<Rightarrow> []) in
        if starts_with ''SET threads='' txt
        then (Inr 0, e\<lparr>en_threads := digits_value (drop 12 txt), en_response := [0, 0, 0]\<rparr>)
        else (Inr 0, e\<lparr>en_response := [0, int (8 + length (en_block e)), int (length (show_nat (en_threads e)))]\<rparr>))
      else (Inr 1, e\<lparr>en_response := [0, 0, 0]\<rparr>))"

definition engine_wasm :: "engine wasm" where
  "engine_wasm = \<lparr>w_HEAPU8 = engine_heap,
     w_setHEAPU8 = (\<lambda>p bs e. if p = 8 \<and> length bs = length (en_block e) then e\<lparr>en_block := bs\<rparr> else e),
     w_HEAPF64 = (\<lambda>e i. en_response e ! i), w_setHEAPF64 = (\<lambda>_ _ e. e), w_setHEAP32 = (\<lambda>_ _ e. e),
     w_stackSave = (\<lambda>_. 0), w_stackAlloc = (\<lambda>_ e. (0, e)), w_stackRestore = (\<lambda>_ e. e),
     w_malloc = (\<lambda>n e. (8, e\<lparr>en_block := replicate n 0\<rparr>)), w_free = (\<lambda>_ e. e), w_ccall = engine_ccall,
     w_memory = (\<lambda>_. 0), w_sharedMemory = (\<lambda>_. False), w_pthread = (\<lambda>_. None)\<rparr>"

definition engine_thr :: "byte list \<Rightarrow> nat option res" where
  "engine_thr bytes = Inr (Some (digits_value (text_decode bytes)))"

lemma engine_sel [simp]:
  "w_HEAPU8 engine_wasm = engine_heap" "w_ccall engine_wasm = engine_ccall" "w_stackSave engine_wasm e = 0"
  "w_stackAlloc engine_wasm n e = (0, e)" "w_stackRestore engine_wasm q e = e" "w_HEAPF64 engine_wasm e i = en_response e ! i"
  "w_malloc engine_wasm n e = (8, e\<lparr>en_block := replicate n 0\<rparr>)" "w_free engine_wasm p e = e"
  "w_setHEAPU8 engine_wasm p bs e = (if p = 8 \<and> length bs = length (en_block e) then e\<lparr>en_block := bs\<rparr> else e)"
  "w_pthread engine_wasm e = None"
  by (simp_all add: engine_wasm_def)

lemma engine_view_block: "heap_view engine_wasm 8 n e = take n (en_block e @ text_encode (show_nat (en_threads e)))"
  by (simp add: heap_view_def engine_heap_def subarray_def)

lemma engine_keeps_promises: "threads_engine engine_wasm engine_thr en_threads"
  unfolding threads_engine_def
proof (intro conjI allI impI)
  fix f args e
  assume "f \<in> {''duckdb_web_connect'', ''duckdb_web_disconnect'', ''duckdb_web_clear_response''}"
  then show "\<exists>v e'. w_ccall engine_wasm f args e = (Inr v, e') \<and> en_threads e' = en_threads e"
    by (auto simp: engine_ccall_def)
next
  fix c p n e k
  assume h: "heap_view engine_wasm p n e = text_encode (set_threads_text k)"
  have "text_decode (subarray p (p + n) (engine_heap e)) = set_threads_text k"
    using h by (metis engine_sel(1) heap_view_def text_decode_encode)
  moreover have "starts_with ''SET threads='' (set_threads_text k)" "drop 12 (set_threads_text k) = show_nat k"
    by (simp_all add: set_threads_text_def)
  ultimately show "case callSRet engine_wasm ''duckdb_web_query_run_buffer'' (run_buffer_args c p n) e of
      (Inl err, e') \<Rightarrow> en_threads e' = en_threads e
    | (Inr (s, d, m), e') \<Rightarrow> en_threads e' = (if s = SUCCESS then k else en_threads e)"
    by (simp add: callSRet_def engine_ccall_def show_nat_value SUCCESS_def)
next
  fix c p n e
  assume h: "heap_view engine_wasm p n e = text_encode read_threads_text"
  have "text_decode (subarray p (p + n) (engine_heap e)) = read_threads_text"
    using h by (metis engine_sel(1) heap_view_def text_decode_encode)
  moreover have "\<not> starts_with ''SET threads='' read_threads_text"
    by (simp add: read_threads_text_def)
  ultimately show "case callSRet engine_wasm ''duckdb_web_query_run_buffer'' (run_buffer_args c p n) e of
      (Inl err, e') \<Rightarrow> en_threads e' = en_threads e
    | (Inr (s, d, m), e') \<Rightarrow> en_threads e' = en_threads e \<and> (s = SUCCESS \<longrightarrow>
        engine_thr (heap_view engine_wasm d m (w_free engine_wasm p e')) \<in> {Inr None, Inr (Some (en_threads e))})"
    by (simp add: callSRet_def engine_ccall_def engine_thr_def heap_view_def engine_heap_def subarray_def show_nat_value)
qed (auto simp: engine_view_block heap_view_def engine_heap_def subarray_def)

definition engine_db :: "nat \<Rightarrow> nat option \<Rightarrow> engine bindings" where
  "engine_db threads deferred =
     (DuckDBBindingsBase \<lparr>en_block = [], en_threads = threads, en_response = []\<rparr>)\<lparr>bd_deferredThreads := deferred\<rparr>"

theorem other_statements_run_with_the_users_threads_witness:
  "\<exists>b'. withSingleThreadedExtensionLoad engine_wasm engine_thr ''SELECT 1'' (js_ret ()) (engine_db 1 (Some 4)) = js_ret () b'
    \<and> (bd_deferredThreads b' = None \<and> en_threads (bd_wasm b') = 4
       \<or> bd_deferredThreads b' = bd_deferredThreads (engine_db 1 (Some 4))
         \<and> en_threads (bd_wasm b') = en_threads (bd_wasm (engine_db 1 (Some 4))))"
proof -
  have "\<not> extension_load ''SELECT 1''" by code_simp
  from other_statements_run_with_the_users_threads [OF engine_keeps_promises _ this, of "engine_db 1 (Some 4)" "js_ret ()"]
  show ?thesis by (simp add: single_threaded_loads_def engine_db_def DuckDBBindingsBase_def user_threads_def)
qed

theorem loads_run_on_one_thread_witness:
  "\<exists>b'. user_threads en_threads b' = 4
    \<and> (withSingleThreadedExtensionLoad engine_wasm engine_thr ''LOAD json'' (js_ret ())
           (run_statements engine_wasm engine_thr [(''LOAD icu'', js_ret ())] (engine_db 4 None)) = js_ret () b'
       \<or> (\<exists>e. withSingleThreadedExtensionLoad engine_wasm engine_thr ''LOAD json'' (js_ret ())
           (run_statements engine_wasm engine_thr [(''LOAD icu'', js_ret ())] (engine_db 4 None)) = (Inl e, b')))"
proof -
  have x: "extension_load ''LOAD icu''" "extension_load ''LOAD json''" by code_simp+
  have "keeps_threads en_threads (js_ret () :: (engine bindings, unit) jsm)" by (simp add: keeps_threads_def js_ret_def)
  with x have l: "\<forall>(t, w) \<in> set ([(''LOAD icu'', js_ret ())] @ [(''LOAD json'', js_ret () :: (engine bindings, unit) jsm)]).
    extension_load t \<and> keeps_threads en_threads w" by simp
  from loads_run_on_one_thread [OF engine_keeps_promises _ _ l, of "engine_db 4 None"]
  show ?thesis by (simp add: single_threaded_loads_def engine_db_def DuckDBBindingsBase_def user_threads_def del: run_statements.simps) blast
qed

theorem dropFiles_frees_everything_witness:
  "mset (bd_blocks (snd (bindings_dropFiles engine_wasm (Some [''a.csv'', [], ''b.csv'']) (engine_db 1 None)))) = {#}"
  using dropFiles_frees_everything [of "engine_db 1 None" engine_wasm "Some [''a.csv'', [], ''b.csv'']"]
  by (simp add: engine_db_def DuckDBBindingsBase_def)

section \<open>Statements give their heap block back\<close>

text \<open>No call traps and every block lies in the heap.\<close>

definition no_trap :: "'e wasm \<Rightarrow> bool" where
  "no_trap W \<longleftrightarrow> (\<forall>f args e. \<exists>v e'. w_ccall W f args e = (Inr v, e'))
     \<and> (\<forall>n e p e1. w_malloc W n e = (p, e1) \<longrightarrow> length (heap_view W p n e1) = n)"

lemma no_trap_callSRet: "no_trap W \<Longrightarrow> \<exists>x e'. callSRet W f args e = (Inr x, e')"
proof -
  assume n: "no_trap W"
  obtain p e1 where s: "w_stackAlloc W (3 * 8) e = (p, e1)" by force
  obtain v e2 where "w_ccall W f (A_num (int p) # args) e1 = (Inr v, e2)" using n unfolding no_trap_def by blast
  with s show ?thesis by (simp add: callSRet_def)
qed

lemma holds_call_with_buffer:
  assumes "no_trap W"
  shows "js_keeps (holds M) (call_with_buffer W buf f args)"
  unfolding js_keeps_def
proof (intro allI impI)
  fix b :: "'a bindings"
  assume b: "holds M b"
  obtain p b1 where m: "bd_malloc W (length buf) b = (Inr p, b1)" by (metis bd_malloc_Inl obj_sumE surj_pair)
  have b1: "holds (if p = 0 then M else add_mset p M) b1" using holds_malloc [OF b m] .
  have "length (heap_view W p (length buf) (bd_wasm b1)) = length buf"
    using assms m by (auto simp: no_trap_def bd_malloc_def split: prod.splits)
  then have st: "on_wasm (store_bytes W p buf) b1 = (Inr (), b1\<lparr>bd_wasm := w_setHEAPU8 W p buf (bd_wasm b1)\<rparr>)"
    by (simp add: on_wasm_def store_bytes_def)
  define b2 where "b2 = b1\<lparr>bd_wasm := w_setHEAPU8 W p buf (bd_wasm b1)\<rparr>"
  obtain x e3 where c: "callSRet W f (args (int p) (int (length buf))) (bd_wasm b2) = (Inr x, e3)"
    using no_trap_callSRet [OF assms] by blast
  define b3 where "b3 = b2\<lparr>bd_wasm := e3\<rparr>"
  have "holds (if p = 0 then M else add_mset p M) b3" using b1 by (simp add: b2_def b3_def)
  then have "holds ((if p = 0 then M else add_mset p M) - {#p#}) (snd (bd_free W p b3))" by (rule holds_free)
  moreover have "(if p = 0 then M else add_mset p M) - {#p#} = M" using b by (auto simp: holds_def)
  ultimately have "holds M (snd (bd_free W p b3))" by simp
  then have "holds M (snd (checked W x (snd (bd_free W p b3))))"
    using holds_checked [of M W x] by (simp add: js_keeps_def)
  then show "holds M (snd (call_with_buffer W buf f args b))"
    using m st c by (simp add: call_with_buffer_def js_bind_def on_wasm_def b2_def b3_def bd_free_def)
qed

lemma holds_ccall_number: "js_keeps (holds M) (ccall_number W f args)"
  unfolding ccall_number_def by (rule holds_on_wasm)

lemma holds_pure: "js_keeps (holds M) (\<lambda>b. (g, b))"
  by (simp add: js_keeps_def)

lemma holds_deferred: "js_keeps (holds M) (js_modify (\<lambda>b. b\<lparr>bd_deferredThreads := x\<rparr>))"
  by (rule js_keeps_modify) (simp add: holds_def)

lemmas holds_rules = js_keeps_rules js_keeps_ensure holds_on_wasm holds_checked holds_call_checked holds_result_buffer
  holds_result_string holds_drop_response holds_ccall_number holds_pure holds_deferred holds_call_with_buffer

lemma holds_blocks: "js_keeps (holds M) m \<Longrightarrow> holds M b \<Longrightarrow> mset (bd_blocks (snd (m b))) = M"
  by (simp add: js_keeps_def holds_def)

lemma holds_json_result: "js_keeps (holds M) (json_result W f dn)"
  unfolding json_result_def by (intro holds_rules)

lemma holds_header_or_null: "js_keeps (holds M) (header_or_null W dn)"
  unfolding header_or_null_def by (simp add: holds_rules)

lemma holds_runQueryImpl: "no_trap W \<Longrightarrow> js_keeps (holds M) (runQueryImpl W conn txt)"
  unfolding runQueryImpl_def by (intro holds_rules)

lemma holds_private: "(\<And>c. js_keeps (holds M) (work c)) \<Longrightarrow> js_keeps (holds M) (withPrivateConnection W work)"
  unfolding withPrivateConnection_def by (intro holds_rules)

lemma holds_set_threads: "no_trap W \<Longrightarrow> js_keeps (holds M) (set_threads W n)"
  unfolding set_threads_def by (intro holds_rules holds_private holds_runQueryImpl)

lemma holds_restore:
  assumes "no_trap W"
  shows "js_keeps (holds M) (restoreDeferredThreads W)"
proof -
  have r: "restoreDeferredThreads W = (\<lambda>b. (case bd_deferredThreads b of
      None \<Rightarrow> js_ret () | Some threads \<Rightarrow>
        js_try (js_bind (set_threads W threads) (\<lambda>_. js_modify (\<lambda>b. b\<lparr>bd_deferredThreads := None\<rparr>))) (\<lambda>_. js_ret ())) b)"
    by (auto simp: restoreDeferredThreads_def js_ret_def split: option.splits)
  have "js_keeps (holds M) (js_try (js_bind (set_threads W threads) (\<lambda>_. js_modify (\<lambda>b. b\<lparr>bd_deferredThreads := None\<rparr>))) (\<lambda>_. js_ret ()))"
    for threads by (intro holds_rules holds_set_threads assms)
  then show ?thesis unfolding r js_keeps_def by (simp add: js_ret_def split: option.splits)
qed

lemma holds_withSingle:
  assumes "no_trap W" "js_keeps (holds M) work"
  shows "js_keeps (holds M) (withSingleThreadedExtensionLoad W thr txt work)"
proof -
  have l: "js_keeps (holds M) (js_bind (readThreadsSetting W thr) (\<lambda>previousThreads.
             (case previousThreads of None \<Rightarrow> work
              | Some n \<Rightarrow> if n \<le> 1 then work
                  else js_bind (set_threads W 1) (\<lambda>_. js_bind (js_modify (\<lambda>b. b\<lparr>bd_deferredThreads := Some n\<rparr>)) (\<lambda>_. work)))))"
    unfolding readThreadsSetting_def
    by (auto split: option.splits intro!: holds_rules holds_private holds_runQueryImpl holds_set_threads assms)
  have "js_keeps (holds M) (js_bind (restoreDeferredThreads W) (\<lambda>_. work))" by (intro holds_rules holds_restore assms)
  with l assms show ?thesis unfolding js_keeps_def withSingleThreadedExtensionLoad_def by simp
qed

text \<open>As long as the module's calls return, the methods that copy a script or a buffer into the heap hold the same
  blocks afterwards as before, whether they succeed or throw, with extension loads and the restoring of the thread
  count included.\<close>

theorem statements_free_their_block:
  assumes "no_trap W" "0 \<notin> set (bd_blocks b)"
  shows "mset (bd_blocks (snd (bindings_runQuery W thr conn txt b))) = mset (bd_blocks b)
    \<and> mset (bd_blocks (snd (bindings_startPendingQuery W thr conn txt stream b))) = mset (bd_blocks b)
    \<and> mset (bd_blocks (snd (bindings_tokenize W txt b))) = mset (bd_blocks b)
    \<and> mset (bd_blocks (snd (bindings_getTableNames W conn txt b))) = mset (bd_blocks b)
    \<and> mset (bd_blocks (snd (bindings_createPrepared W conn txt b))) = mset (bd_blocks b)
    \<and> mset (bd_blocks (snd (bindings_insertArrowFromIPCStream W conn buf opts b))) = mset (bd_blocks b)"
proof -
  define M where "M = mset (bd_blocks b)"
  have b: "holds M b" using assms(2) by (simp add: holds_def M_def)
  have 1: "js_keeps (holds M) (bindings_runQuery W thr conn txt)"
    unfolding bindings_runQuery_def by (intro holds_withSingle holds_runQueryImpl assms(1))
  have 2: "js_keeps (holds M) (bindings_startPendingQuery W thr conn txt stream)"
    unfolding bindings_startPendingQuery_def startPendingQueryImpl_def
    by (intro holds_withSingle holds_rules holds_header_or_null assms(1))
  have 3: "js_keeps (holds M) (bindings_tokenize W txt)" "js_keeps (holds M) (bindings_getTableNames W conn txt)"
    unfolding bindings_tokenize_def bindings_getTableNames_def by (intro holds_rules holds_json_result assms(1))+
  have 4: "js_keeps (holds M) (bindings_createPrepared W conn txt)"
    unfolding bindings_createPrepared_def by (auto intro!: holds_rules holds_restore assms(1))
  have 5: "js_keeps (holds M) (bindings_insertArrowFromIPCStream W conn buf opts)"
    unfolding bindings_insertArrowFromIPCStream_def by (auto intro!: holds_rules holds_restore assms(1))
  show ?thesis
    unfolding M_def [symmetric] by (intro conjI holds_blocks [OF _ b] 1 2 3 4 5)
qed

lemma engine_no_trap: "no_trap engine_wasm"
  by (auto simp: no_trap_def engine_ccall_def engine_view_block Let_def)

theorem statements_free_their_block_witness:
  "mset (bd_blocks (snd (bindings_runQuery engine_wasm engine_thr 1 ''SELECT 1'' (engine_db 2 None)))) = {#}"
  using conjunct1 [OF statements_free_their_block [OF engine_no_trap, of "engine_db 2 None" engine_thr 1 "''SELECT 1''"]]
  by (simp add: engine_db_def DuckDBBindingsBase_def)

section \<open>Columns, function ids, fetched results\<close>

text \<open>Inserting through the worker is inserting directly: the page flattens the columns of the options and the
  bindings in the worker then send the engine the very text they would have sent for the options as given. Where a
  column type has no SQL name both stop with the same error.\<close>

theorem insert_through_the_worker_is_direct_insert:
  "(case csv_flatten options of
      Inr sent \<Rightarrow> bindings_insertCSVFromPath W conn file sent = bindings_insertCSVFromPath W conn file options
    | Inl e \<Rightarrow> csv_columnsFlat_set options = Inl e)
   \<and> (case json_flatten opts of
      Inr sent \<Rightarrow> bindings_insertJSONFromPath W conn file sent = bindings_insertJSONFromPath W conn file opts
    | Inl e \<Rightarrow> json_columnsFlat_set opts = Inl e)"
  by (auto simp: csv_flatten_def json_flatten_def csv_columnsFlat_set_def json_columnsFlat_set_def
      bindings_insertCSVFromPath_def bindings_insertJSONFromPath_def csv_options_json_def json_options_json_def
      split: option.splits sum.splits)

definition udf_inv :: "'e bindings \<Rightarrow> bool" where
  "udf_inv b \<longleftrightarrow> jm_wf (bd_udfFunctions b) \<and> (\<forall>(i, f) \<in> set (bd_udfFunctions b). udf_functionId f = i \<and> i < bd_nextUDFId b)"

lemma udf_fresh: "udf_inv b \<Longrightarrow> jm_get (bd_udfFunctions b) (bd_nextUDFId b) = None"
  by (auto simp: udf_inv_def map_of_eq_None_iff)

lemma udf_inv_frame: "bd_frame b' = bd_frame b \<Longrightarrow> udf_inv b' = udf_inv b"
  using frame_fields [of b' b] by (simp add: udf_inv_def)

lemma frames_drop_response [hb_frames]: "frames (drop_response W)"
  unfolding drop_response_def by (intro hb_frames)

text \<open>Creating a scalar function gives it an id that no function has had, also after a creation that failed. When the engine
  accepts it exactly this function is added to the runtime's table. Thread workers are never told of it: as soon as there is one,
  running or waiting, the creation throws after the engine and the table have the function.\<close>

theorem createScalarFunction_registers_fresh_id:
  assumes "udf_inv b" "createScalarFunction W conn name returns func b = (r, b')"
  shows "udf_inv b' \<and> bd_posted b' = bd_posted b
    \<and> (bd_udfFunctions b' = bd_udfFunctions b \<and> (\<exists>e. r = Inl e)
       \<or> (\<exists>f. udf_functionId f = bd_nextUDFId b \<and> jm_get (bd_udfFunctions b) (bd_nextUDFId b) = None
          \<and> bd_udfFunctions b' = bd_udfFunctions b @ [(bd_nextUDFId b, f)] \<and> bd_nextUDFId b' = bd_nextUDFId b + 1
          \<and> (r = Inr () \<longleftrightarrow> runningWorkers W (bd_wasm b') = [] \<and> unusedWorkers W (bd_wasm b') = [])))"
proof (cases "arrowToSQLType returns")
  case (Inl e)
  with assms show ?thesis by (auto simp: createScalarFunction_def)
next
  case (Inr t)
  define i where "i = bd_nextUDFId b"
  define f where "f = \<lparr>udf_functionId = i, udf_connectionId = conn, udf_name = name, udf_returnType = returns, udf_func = func\<rparr>"
  define args where "args = [A_num (int conn), A_str (stringify (declaration_json
     \<lparr>ud_functionId = i, ud_name = name, ud_returnType = t\<rparr>))]"
  define b1 where "b1 = b\<lparr>bd_nextUDFId := i + 1\<rparr>"
  have inv1: "udf_inv b1" using assms(1) by (auto simp: udf_inv_def b1_def i_def)
  define m where "m = js_bind (call_checked W ''duckdb_web_udf_scalar_create'' args) (\<lambda>_. drop_response W)"
  obtain q b2 where m: "m b1 = (q, b2)" by force
  have "frames m" unfolding m_def by (intro hb_frames)
  from framesD [OF this m] have fr: "bd_frame b2 = bd_frame b1" .
  note ff = frame_fields [OF fr]
  have run: "createScalarFunction W conn name returns func b
      = js_bind m (\<lambda>_. js_bind (js_modify (\<lambda>b. b\<lparr>bd_udfFunctions := jm_set i f (bd_udfFunctions b)\<rparr>)) (\<lambda>_. post_function W f)) b1"
    using Inr by (simp add: createScalarFunction_def Let_def js_bind_def js_modify_def b1_def i_def m_def args_def f_def
        split: prod.splits sum.splits)
  show ?thesis
  proof (cases q)
    case (Inl e)
    with assms(2) run m ff inv1 udf_inv_frame [OF fr] show ?thesis
      by (auto simp: js_bind_def b1_def)
  next
    case (Inr u)
    with assms(2) run m have r: "post_function W f (b2\<lparr>bd_udfFunctions := jm_set i f (bd_udfFunctions b2)\<rparr>) = (r, b')"
      by (simp add: js_bind_def js_modify_def)
    then have b': "b' = b2\<lparr>bd_udfFunctions := jm_set i f (bd_udfFunctions b2)\<rparr>"
      and ok: "r = Inr () \<longleftrightarrow> runningWorkers W (bd_wasm b') = [] \<and> unusedWorkers W (bd_wasm b') = []"
      by (auto simp: post_function_def split: if_splits)
    have fresh: "jm_get (bd_udfFunctions b2) i = None" using ff(4) udf_fresh [OF assms(1)] by (simp add: b1_def i_def)
    have "bd_udfFunctions b' = bd_udfFunctions b @ [(i, f)]" "bd_nextUDFId b' = i + 1" "bd_posted b' = bd_posted b"
      using b' ff jm_set_fresh [OF fresh] by (simp_all add: b1_def)
    moreover have "udf_inv b'"
      using b' inv1 udf_inv_frame [OF fr] ff fresh jm_wf_set [of "bd_udfFunctions b2" i f]
      by (auto simp: udf_inv_def jm_set_fresh b1_def f_def)
    ultimately show ?thesis using ok udf_fresh [OF assms(1)] by (auto simp: i_def f_def)
  qed
qed

theorem createScalarFunction_registers_fresh_id_witness:
  "udf_inv (snd (createScalarFunction engine_wasm 1 ''f'' AT_Bool 0 (engine_db 1 None)))"
proof -
  obtain r b' where c: "createScalarFunction engine_wasm 1 ''f'' AT_Bool 0 (engine_db 1 None) = (r, b')" by force
  have "udf_inv (engine_db 1 None)" by (simp add: udf_inv_def engine_db_def DuckDBBindingsBase_def)
  from conjunct1 [OF createScalarFunction_registers_fresh_id [OF this c]] c show ?thesis by simp
qed

end
