(* ===== verification/Hb_SabRing.thy ===== *)
theory Hb_SabRing
  imports Hb_Prelude
begin

text \<open>
  The duplex ring of the VGI worker transport: \<open>lib/vgi-sab-ring.js\<close>, and the stubs of \<open>lib/js-stubs.js\<close> that run
  the same protocol on the engine's threads.

  A channel is a header and slots of a control block and two rings, laid out in one shared buffer; the layout keeps
  them apart (\<open>channel_layout\<close>), so the memory is held here as records. Lanes are 32-bit words; a load gives the
  signed number and JavaScript computes on it without bounds. \<open>Atomics.notify\<close> and the time-outs of \<open>Atomics.wait\<close>
  change no memory and are left out: a wait is a return to the head of its loop.
\<close>

unbundle bit_operations_syntax

type_synonym lane = "32 word"

definition load :: "lane \<Rightarrow> int" where "load x = sint x"
definition store :: "int \<Rightarrow> lane" where "store i = word_of_int i"

lemma load_store: "- (2 ^ 31) \<le> i \<Longrightarrow> i < 2 ^ 31 \<Longrightarrow> load (store i) = i"
  unfolding load_def store_def by (simp add: signed_of_int signed_take_bit_int_eq_self)

lemma load_zero [simp]: "load 0 = 0"
  by (simp add: load_def)

lemma load_eq_iff [simp]: "load x = load y \<longleftrightarrow> x = y"
  unfolding load_def by (metis signed_word_eqI)

lemma load_eq_zero [simp]: "load x = 0 \<longleftrightarrow> x = 0"
  using load_eq_iff [of x 0] by simp

section \<open>Layout\<close>

definition MAGIC :: nat where "MAGIC = 0x42534756"
definition HEADER_BYTES :: nat where "HEADER_BYTES = 64"
definition SLOT_CONTROL_BYTES :: nat where "SLOT_CONTROL_BYTES = 64"
definition FEATURE_TERMINAL_ERROR :: lane where "FEATURE_TERMINAL_ERROR = push_bit 0 1"
definition SAB_TERMINAL_ERROR :: int where "SAB_TERMINAL_ERROR = - 3"

text \<open>The number of the slot control lanes that lie in the 64 bytes of a control block.\<close>

definition SLOT_RESERVATION :: nat where "SLOT_RESERVATION = 10"

definition alignUp :: "lane \<Rightarrow> lane \<Rightarrow> lane" where
  "alignUp n a = (n + (a - 1)) AND NOT (a - 1)"

definition slotStride :: "nat \<Rightarrow> nat" where
  "slotStride ringCap = unat (alignUp (of_nat (SLOT_CONTROL_BYTES + 2 * ringCap)) 64)"

definition channelBytes :: "nat \<Rightarrow> nat \<Rightarrow> nat" where
  "channelBytes nSlots ringCap = HEADER_BYTES + nSlots * slotStride ringCap"

record channel_header =
  hd_nSlots :: nat
  hd_ringCap :: nat
  hd_slotStride :: nat
  hd_slotsOff :: nat

definition initHeader :: "nat \<Rightarrow> nat \<Rightarrow> channel_header" where
  "initHeader nSlots ringCap = \<lparr>hd_nSlots = nSlots, hd_ringCap = ringCap, hd_slotStride = slotStride ringCap,
     hd_slotsOff = HEADER_BYTES\<rparr>"

definition slotBase :: "nat \<Rightarrow> channel_header \<Rightarrow> nat \<Rightarrow> nat" where
  "slotBase base hdr slot = base + hd_slotsOff hdr + slot * hd_slotStride hdr"

text \<open>The byte ranges of a slot: its control block, the ring to the worker, the ring to the client.\<close>

definition slot_ranges :: "nat \<Rightarrow> channel_header \<Rightarrow> nat \<Rightarrow> (nat \<times> nat) list" where
  "slot_ranges base hdr slot = (let sb = slotBase base hdr slot in
     [(sb, sb + SLOT_CONTROL_BYTES),
      (sb + SLOT_CONTROL_BYTES, sb + SLOT_CONTROL_BYTES + hd_ringCap hdr),
      (sb + SLOT_CONTROL_BYTES + hd_ringCap hdr, sb + SLOT_CONTROL_BYTES + hd_ringCap hdr + hd_ringCap hdr)])"

lemma unat_align64: "n < 2 ^ 31 \<Longrightarrow> unat (alignUp (of_nat n) 64) = 64 * ((n + 63) div 64)"
proof -
  assume n: "n < 2 ^ 31"
  have m: "(63 :: lane) = mask 6" by (simp add: mask_eq_exp_minus_1)
  have u: "unat (of_nat n + 63 :: lane) = n + 63"
    using n by (simp add: unat_word_ariths unat_of_nat)
  have t: "take_bit 32 (n + 63) = n + 63" using n by (simp add: take_bit_nat_eq_self)
  have "(of_nat n + 63 :: lane) AND NOT (mask 6) = push_bit 6 (drop_bit 6 (of_nat n + 63))"
    by (rule bit_word_eqI) (auto simp: bit_simps)
  then have "unat (alignUp (of_nat n) 64) = unat (push_bit 6 (drop_bit 6 (of_nat n + 63 :: lane)))"
    by (simp add: alignUp_def m)
  also have "\<dots> = take_bit 32 (push_bit 6 (drop_bit 6 (n + 63)))"
    by (simp add: unsigned_push_bit_eq unsigned_drop_bit_eq u t)
  also have "\<dots> = (n + 63) div 64 * 64 mod 2 ^ 32"
    by (simp add: push_bit_eq_mult drop_bit_eq_div take_bit_eq_mod)
  also have "\<dots> = 64 * ((n + 63) div 64)"
    using n by (simp add: mult.commute)
  finally show ?thesis .
qed

lemma slotStride_bounds:
  assumes "2 * ringCap + 64 < 2 ^ 31"
  shows "SLOT_CONTROL_BYTES + 2 * ringCap \<le> slotStride ringCap" "64 dvd slotStride ringCap"
    "slotStride ringCap < SLOT_CONTROL_BYTES + 2 * ringCap + 64"
proof -
  have "slotStride ringCap = 64 * ((64 + 2 * ringCap + 63) div 64)"
    using assms unat_align64 [of "64 + 2 * ringCap"] by (simp add: slotStride_def SLOT_CONTROL_BYTES_def add.commute)
  then show "SLOT_CONTROL_BYTES + 2 * ringCap \<le> slotStride ringCap" "64 dvd slotStride ringCap"
    "slotStride ringCap < SLOT_CONTROL_BYTES + 2 * ringCap + 64"
    by (simp_all add: SLOT_CONTROL_BYTES_def)
qed


lemma slotBase_init: "slotBase base (initHeader nSlots ringCap) slot = base + 64 + slot * slotStride ringCap"
  by (simp add: slotBase_def initHeader_def HEADER_BYTES_def)

lemma slot_range_between:
  assumes "r \<in> set (slot_ranges base (initHeader nSlots ringCap) s)" "2 * ringCap + 64 < 2 ^ 31"
  shows "base + 64 + s * slotStride ringCap \<le> fst r" "fst r \<le> snd r"
    "snd r \<le> base + 64 + Suc s * slotStride ringCap"
  using assms slotStride_bounds(1) [OF assms(2)]
  by (auto simp: slot_ranges_def slotBase_init SLOT_CONTROL_BYTES_def) (auto simp: initHeader_def)

lemma slot_ranges_ordered:
  "i < j \<Longrightarrow> j < 3 \<Longrightarrow> snd (slot_ranges base hdr s ! i) \<le> fst (slot_ranges base hdr s ! j)"
proof -
  assume "i < j" "j < 3"
  then consider "i = 0" "j = 1" | "i = 0" "j = 2" | "i = 1" "j = 2" by arith
  then show ?thesis by cases (simp_all add: slot_ranges_def Let_def numeral_2_eq_2)
qed

text \<open>The layout keeps everything apart. In a channel whose ring capacity is below 1 GiB, with a base that is a
  multiple of 64, the control block of every slot is 64-byte aligned; the control blocks and rings of all slots lie
  after the header and inside the channel's bytes; and two different ones have no byte in common.\<close>

theorem channel_layout:
  assumes "2 * ringCap + 64 < 2 ^ 31" "64 dvd base" "s < nSlots" "t < nSlots" "i < 3" "j < 3"
    and "(s, i) \<noteq> (t, j)"
  defines "ranges \<equiv> slot_ranges base (initHeader nSlots ringCap)"
  shows "64 dvd fst (ranges s ! 0)
    \<and> base + HEADER_BYTES \<le> fst (ranges s ! i) \<and> snd (ranges s ! i) \<le> base + channelBytes nSlots ringCap
    \<and> {fst (ranges s ! i)..<snd (ranges s ! i)} \<inter> {fst (ranges t ! j)..<snd (ranges t ! j)} = {}"
proof (intro conjI)
  have len: "length (slot_ranges base (initHeader nSlots ringCap) u) = 3" for u
    by (simp add: slot_ranges_def Let_def)
  have mem: "ranges s ! i \<in> set (slot_ranges base (initHeader nSlots ringCap) s)"
    "ranges t ! j \<in> set (slot_ranges base (initHeader nSlots ringCap) t)"
    using assms(5,6) len by (simp_all add: ranges_def)
  note bs = slot_range_between [OF mem(1) assms(1)] and bt = slot_range_between [OF mem(2) assms(1)]
  show "64 dvd fst (ranges s ! 0)"
    using assms(2) slotStride_bounds(2) [OF assms(1)] by (simp add: ranges_def slot_ranges_def slotBase_init Let_def)
  show "base + HEADER_BYTES \<le> fst (ranges s ! i)" using bs(1) by (simp add: HEADER_BYTES_def)
  have "Suc s * slotStride ringCap \<le> nSlots * slotStride ringCap" using assms(3) by (intro mult_le_mono1) simp
  then show "snd (ranges s ! i) \<le> base + channelBytes nSlots ringCap"
    using bs(3) by (simp add: channelBytes_def HEADER_BYTES_def)
  consider "s < t" | "t < s" | "s = t" "i \<noteq> j" using assms(7) by force
  then show "{fst (ranges s ! i)..<snd (ranges s ! i)} \<inter> {fst (ranges t ! j)..<snd (ranges t ! j)} = {}"
  proof cases
    case 1
    then have "Suc s * slotStride ringCap \<le> t * slotStride ringCap" by (intro mult_le_mono1) simp
    with bs(3) bt(1) show ?thesis by auto
  next
    case 2
    then have "Suc t * slotStride ringCap \<le> s * slotStride ringCap" by (intro mult_le_mono1) simp
    with bt(3) bs(1) show ?thesis by auto
  next
    case 3
    with slot_ranges_ordered [of i j base "initHeader nSlots ringCap" s]
      slot_ranges_ordered [of j i base "initHeader nSlots ringCap" s] assms(5,6)
    show ?thesis by (cases "i < j") (auto simp: ranges_def)
  qed
qed

theorem channel_layout_witness:
  "{fst (slot_ranges 128 (initHeader 4 256) 0 ! 2)..<snd (slot_ranges 128 (initHeader 4 256) 0 ! 2)}
     \<inter> {fst (slot_ranges 128 (initHeader 4 256) 1 ! 0)..<snd (slot_ranges 128 (initHeader 4 256) 1 ! 0)} = {}"
  using channel_layout [of 256 128 0 4 1 2 0] by simp

section \<open>Slots and claims\<close>

record ring =
  rg_write :: lane
  rg_read :: lane
  rg_closed :: lane
  rg_data :: "byte list"

record slot =
  sl_state :: lane
  sl_reservation :: lane
  sl_c2w :: ring
  sl_w2c :: ring
  sl_term_claim :: lane
  sl_term_code :: lane
  sl_term_detail :: lane

record channel =
  ch_features :: lane
  ch_claimSeq :: lane
  ch_slots :: "slot list"

definition initChannel :: "channel \<Rightarrow> channel" where
  "initChannel ch = ch\<lparr>ch_features := FEATURE_TERMINAL_ERROR,
     ch_slots := map (\<lambda>sl. sl\<lparr>sl_state := 0\<rparr>) (ch_slots ch)\<rparr>"

definition reset_ring :: "ring \<Rightarrow> ring" where
  "reset_ring r = r\<lparr>rg_write := 0, rg_read := 0, rg_closed := 0\<rparr>"

definition reset_slot :: "slot \<Rightarrow> slot" where
  "reset_slot sl = sl\<lparr>sl_c2w := reset_ring (sl_c2w sl), sl_w2c := reset_ring (sl_w2c sl),
     sl_term_claim := 0, sl_term_code := 0, sl_term_detail := 0\<rparr>"

text \<open>The loop over the slots. A slot that is reserved is skipped; one that turns out to be claimed is given back.\<close>

fun open_scan :: "lane \<Rightarrow> nat \<Rightarrow> slot list \<Rightarrow> nat option \<times> slot list" where
  "open_scan claim s [] = (None, [])"
| "open_scan claim s (sl # sls) =
     (if sl_reservation sl = 0
      then (let sl1 = sl\<lparr>sl_reservation := claim\<rparr> in
            if sl_state sl1 \<noteq> 0
            then (case open_scan claim (Suc s) sls of (r, sls') \<Rightarrow> (r, sl1\<lparr>sl_reservation := 0\<rparr> # sls'))
            else (Some s, (reset_slot sl1)\<lparr>sl_state := claim, sl_reservation := 0\<rparr> # sls))
      else (case open_scan claim (Suc s) sls of (r, sls') \<Rightarrow> (r, sl # sls')))"

definition next_claim :: "lane \<Rightarrow> lane" where
  "next_claim seq = (if seq + 1 = 0 then 1 else seq + 1)"

definition slotOpen :: "channel \<Rightarrow> int \<times> channel" where
  "slotOpen ch =
     (case open_scan (next_claim (ch_claimSeq ch)) 0 (ch_slots ch) of
        (r, sls) \<Rightarrow> (case r of Some s \<Rightarrow> int s | None \<Rightarrow> -1, ch\<lparr>ch_claimSeq := ch_claimSeq ch + 1, ch_slots := sls\<rparr>))"

definition slotRelease :: "nat \<Rightarrow> channel \<Rightarrow> channel" where
  "slotRelease slot ch = ch\<lparr>ch_slots := (ch_slots ch)[slot := (ch_slots ch ! slot)\<lparr>sl_state := 0\<rparr>]\<rparr>"

definition openable :: "slot \<Rightarrow> bool" where
  "openable sl \<longleftrightarrow> sl_reservation sl = 0 \<and> sl_state sl = 0"

lemma slot_reserve_undo: "sl_reservation sl = 0 \<Longrightarrow> sl\<lparr>sl_reservation := claim, sl_reservation := 0\<rparr> = sl"
  by (cases sl) simp

definition opened :: "lane \<Rightarrow> slot \<Rightarrow> slot" where
  "opened claim sl = (reset_slot sl)\<lparr>sl_state := claim, sl_reservation := 0\<rparr>"

lemma open_scan_spec:
  "open_scan claim s sls = (r, sls') \<Longrightarrow>
     (case r of
        None \<Rightarrow> sls' = sls \<and> (\<forall>sl \<in> set sls. \<not> openable sl)
      | Some n \<Rightarrow> \<exists>pre sl post. sls = pre @ sl # post \<and> n = s + length pre \<and> openable sl
          \<and> (\<forall>x \<in> set pre. \<not> openable x) \<and> sls' = pre @ opened claim sl # post)"
proof (induction sls arbitrary: s r sls')
  case (Cons sl sls)
  show ?case
  proof (cases "openable sl")
    case True
    with Cons.prems have "r = Some s" "sls' = opened claim sl # sls"
      by (auto simp: openable_def Let_def reset_slot_def opened_def)
    with True show ?thesis by (auto intro!: exI [of _ "[]"])
  next
    case False
    obtain r1 sls1 where rec: "open_scan claim (Suc s) sls = (r1, sls1)" by force
    from False Cons.prems rec have r: "r = r1" "sls' = sl # sls1"
      by (auto simp: openable_def Let_def slot_reserve_undo split: if_splits)
    show ?thesis
    proof (cases r1)
      case None
      with Cons.IH [OF rec] False r show ?thesis by simp
    next
      case (Some n)
      with Cons.IH [OF rec] obtain pre sl' post where "sls = pre @ sl' # post" "n = Suc s + length pre" "openable sl'"
        "\<forall>x \<in> set pre. \<not> openable x" "sls1 = pre @ opened claim sl' # post" by auto
      with False r Some show ?thesis by (auto intro!: exI [of _ "sl # pre"])
    qed
  qed
qed simp

lemma opened_lanes:
  "sl_state (opened claim sl) = claim" "sl_reservation (opened claim sl) = 0"
  "rg_write (sl_c2w (opened claim sl)) = 0" "rg_read (sl_c2w (opened claim sl)) = 0" "rg_closed (sl_c2w (opened claim sl)) = 0"
  "rg_write (sl_w2c (opened claim sl)) = 0" "rg_read (sl_w2c (opened claim sl)) = 0" "rg_closed (sl_w2c (opened claim sl)) = 0"
  "sl_term_claim (opened claim sl) = 0"
  by (simp_all add: opened_def reset_slot_def reset_ring_def)

text \<open>Opening a slot takes the first slot that is neither reserved nor claimed, gives it a claim id that is not
  the number of a free slot, leaves its two rings empty and open and its terminal error unset, and changes no other
  slot; it answers \<open>-1\<close>, changing no slot, exactly when there is none.\<close>

theorem slotOpen_takes_first_free:
  "(case slotOpen ch of (n, ch') \<Rightarrow>
     if n = -1 then ch_slots ch' = ch_slots ch \<and> \<not> list_ex openable (ch_slots ch)
     else n = int (length (takeWhile (\<lambda>x. \<not> openable x) (ch_slots ch))) \<and> list_ex openable (ch_slots ch)
        \<and> next_claim (ch_claimSeq ch) \<noteq> 0
        \<and> ch_slots ch' = (ch_slots ch)[nat n := opened (next_claim (ch_claimSeq ch)) (ch_slots ch ! nat n)])"
proof -
  obtain r sls where o: "open_scan (next_claim (ch_claimSeq ch)) 0 (ch_slots ch) = (r, sls)" by force
  show ?thesis
  proof (cases r)
    case None
    with open_scan_spec [OF o] o show ?thesis by (simp add: slotOpen_def list_ex_iff)
  next
    case (Some n)
    with open_scan_spec [OF o] obtain pre sl post where p: "ch_slots ch = pre @ sl # post" "n = length pre" "openable sl"
      "\<forall>x \<in> set pre. \<not> openable x" "sls = pre @ opened (next_claim (ch_claimSeq ch)) sl # post" by auto
    have "takeWhile (\<lambda>x. \<not> openable x) (ch_slots ch) = pre" using p by (simp add: takeWhile_append2)
    with p o Some show ?thesis by (simp add: slotOpen_def next_claim_def)
  qed
qed

lemma slotOpen_example:
  "fst (slotOpen \<lparr>ch_features = 1, ch_claimSeq = 7, ch_slots =
      map (\<lambda>c. \<lparr>sl_state = c, sl_reservation = 0, sl_c2w = \<lparr>rg_write = 9, rg_read = 9, rg_closed = 1, rg_data = []\<rparr>,
        sl_w2c = \<lparr>rg_write = 9, rg_read = 9, rg_closed = 1, rg_data = []\<rparr>, sl_term_claim = 0, sl_term_code = 0,
        sl_term_detail = 0\<rparr>) [5, 0, 0]\<rparr>) = 1"
  by (simp add: slotOpen_def next_claim_def)

section \<open>Ends and errors\<close>

definition stubWriteEos :: "slot \<Rightarrow> slot" where
  "stubWriteEos sl = sl\<lparr>sl_c2w := (sl_c2w sl)\<lparr>rg_closed := 1\<rparr>\<rparr>"

text \<open>One pass of the loop of \<open>acquireWorkerOperation\<close>; \<^term>\<open>None\<close> is a wait for another holder.\<close>

definition acquireWorkerOperation :: "lane \<Rightarrow> slot \<Rightarrow> bool option \<times> slot" where
  "acquireWorkerOperation servedClaim sl =
     (if servedClaim = 0 then (Some False, sl)
      else if sl_state sl \<noteq> servedClaim then (Some False, sl)
      else if sl_reservation sl = 0
      then (let sl1 = sl\<lparr>sl_reservation := servedClaim\<rparr> in
            if sl_state sl1 = servedClaim then (Some True, sl1) else (Some False, sl1\<lparr>sl_reservation := 0\<rparr>))
      else (None, sl))"

definition releaseWorkerOperation :: "lane \<Rightarrow> slot \<Rightarrow> slot" where
  "releaseWorkerOperation servedClaim sl =
     (if sl_reservation sl = servedClaim then sl\<lparr>sl_reservation := 0\<rparr> else sl)"

definition workerCloseW2c :: "lane \<Rightarrow> slot \<Rightarrow> bool option \<times> slot" where
  "workerCloseW2c claim sl = (case acquireWorkerOperation claim sl of
     (Some True, sl1) \<Rightarrow> (Some True, releaseWorkerOperation claim (sl1\<lparr>sl_w2c := (sl_w2c sl1)\<lparr>rg_closed := claim\<rparr>\<rparr>))
   | (r, sl1) \<Rightarrow> (r, sl1))"

text \<open>The four stores of \<open>workerCloseError\<close>, which does not take the reservation.\<close>

definition workerCloseError :: "lane \<Rightarrow> lane \<Rightarrow> lane \<Rightarrow> slot \<Rightarrow> slot" where
  "workerCloseError code detail claim sl =
     (let sl = sl\<lparr>sl_term_code := code\<rparr>; sl = sl\<lparr>sl_term_detail := detail\<rparr>; sl = sl\<lparr>sl_term_claim := claim\<rparr>
      in sl\<lparr>sl_w2c := (sl_w2c sl)\<lparr>rg_closed := claim\<rparr>\<rparr>)"

definition stubTerminalError :: "lane \<Rightarrow> slot \<Rightarrow> (lane \<times> lane) option" where
  "stubTerminalError features sl =
     (if features AND FEATURE_TERMINAL_ERROR = 0 then None
      else let claim = sl_state sl in
        if claim = 0 \<or> sl_term_claim sl \<noteq> claim then None
        else let code = sl_term_code sl; detail = sl_term_detail sl in
          if sl_state sl \<noteq> claim \<or> sl_term_claim sl \<noteq> claim then None else Some (code, detail))"

text \<open>Whether a client that has drained its ring sees the end of the stream.\<close>

definition client_at_eos :: "slot \<Rightarrow> bool" where
  "client_at_eos sl \<longleftrightarrow> rg_closed (sl_w2c sl) \<noteq> 0 \<and> rg_closed (sl_w2c sl) = sl_state sl"

text \<open>A terminal error is visible to the claim that produced it and to no other. But a worker whose claim is over
  still stores into the slot: its error hides the end of the stream and the error that the current claim's worker had
  published, after which the client sees neither.\<close>

theorem terminal_error_visibility:
  "stubTerminalError FEATURE_TERMINAL_ERROR (workerCloseError code detail claim sl)
     = (if claim \<noteq> 0 \<and> claim = sl_state sl then Some (code, detail) else None)
   \<and> client_at_eos (workerCloseError code detail claim sl) = (claim \<noteq> 0 \<and> claim = sl_state sl)"
  by (auto simp: stubTerminalError_def workerCloseError_def FEATURE_TERMINAL_ERROR_def client_at_eos_def)

lemma stale_error_hides_the_end:
  assumes "stale \<noteq> sl_state sl"
  shows "\<not> client_at_eos (workerCloseError c2 d2 stale (workerCloseError c1 d1 (sl_state sl) sl))
    \<and> stubTerminalError FEATURE_TERMINAL_ERROR (workerCloseError c2 d2 stale (workerCloseError c1 d1 (sl_state sl) sl)) = None"
  using assms by (auto simp: stubTerminalError_def workerCloseError_def client_at_eos_def)

text \<open>A worker's close takes effect exactly for the claim that holds the slot and never moves the reservation.\<close>

lemma workerCloseW2c_guarded:
  "sl_reservation sl = 0 \<Longrightarrow>
     workerCloseW2c claim sl =
       (if claim \<noteq> 0 \<and> claim = sl_state sl
        then (Some True, sl\<lparr>sl_w2c := (sl_w2c sl)\<lparr>rg_closed := claim\<rparr>\<rparr>) else (Some False, sl))"
  by (cases sl) (auto simp: workerCloseW2c_def acquireWorkerOperation_def releaseWorkerOperation_def Let_def)

end
