(* ===== verification/Hb_SabClaims.thy ===== *)
theory Hb_SabClaims
  imports Hb_SabRing
begin

text \<open>
  One slot of the VGI channel under any interleaving of the threads that use it: clients that open and release it,
  workers that serve a claim, among them stale ones whose claim has been released and whose slot has been opened
  again. Each actor runs \<open>slotOpen\<close> or a worker operation of \<open>lib/vgi-sab-ring.js\<close> one atomic access at a time.

  \<open>cl_epoch\<close> is the claim whose opener last began to reset the rings; \<open>cl_log\<close> records, for every ring position or
  close that a worker published, the claim the worker serves and the epoch the slot was in.
\<close>

section \<open>Actors\<close>

datatype actor =
    A_idle
  | O_reserve lane
  | O_check lane
  | O_unreserve lane
  | O_reset lane nat
  | O_publish lane
  | O_unlock lane
  | W_load lane
  | W_cas lane
  | W_recheck lane
  | W_abort lane
  | W_hold lane
  | W_unlock lane

record claims =
  cl_slot :: slot
  cl_actor :: "nat \<Rightarrow> actor"
  cl_epoch :: lane
  cl_log :: "(lane \<times> lane) list"

definition claims_init :: "slot \<Rightarrow> claims" where
  "claims_init sl = \<lparr>cl_slot = sl\<lparr>sl_state := 0, sl_reservation := 0\<rparr>, cl_actor = (\<lambda>_. A_idle), cl_epoch = 0, cl_log = []\<rparr>"

text \<open>The nine lanes that an opener resets, in its order.\<close>

definition reset_lane :: "nat \<Rightarrow> slot \<Rightarrow> slot" where
  "reset_lane k sl =
     (if k = 0 then sl\<lparr>sl_c2w := (sl_c2w sl)\<lparr>rg_write := 0\<rparr>\<rparr>
      else if k = 1 then sl\<lparr>sl_c2w := (sl_c2w sl)\<lparr>rg_read := 0\<rparr>\<rparr>
      else if k = 2 then sl\<lparr>sl_c2w := (sl_c2w sl)\<lparr>rg_closed := 0\<rparr>\<rparr>
      else if k = 3 then sl\<lparr>sl_w2c := (sl_w2c sl)\<lparr>rg_write := 0\<rparr>\<rparr>
      else if k = 4 then sl\<lparr>sl_w2c := (sl_w2c sl)\<lparr>rg_read := 0\<rparr>\<rparr>
      else if k = 5 then sl\<lparr>sl_w2c := (sl_w2c sl)\<lparr>rg_closed := 0\<rparr>\<rparr>
      else if k = 6 then sl\<lparr>sl_term_claim := 0\<rparr>
      else if k = 7 then sl\<lparr>sl_term_code := 0\<rparr>
      else sl\<lparr>sl_term_detail := 0\<rparr>)"

text \<open>One atomic access of an actor: the slot after it, and where the actor goes on.\<close>

fun access :: "actor \<Rightarrow> slot \<Rightarrow> slot \<times> actor" where
  "access A_idle sl = (sl, A_idle)"
| "access (O_reserve claim) sl =
     (if sl_reservation sl = 0 then (sl\<lparr>sl_reservation := claim\<rparr>, O_check claim) else (sl, A_idle))"
| "access (O_check claim) sl = (sl, if sl_state sl \<noteq> 0 then O_unreserve claim else O_reset claim 0)"
| "access (O_unreserve claim) sl = (sl\<lparr>sl_reservation := 0\<rparr>, A_idle)"
| "access (O_reset claim k) sl = (reset_lane k sl, if k < 8 then O_reset claim (Suc k) else O_publish claim)"
| "access (O_publish claim) sl = (sl\<lparr>sl_state := claim\<rparr>, O_unlock claim)"
| "access (O_unlock claim) sl = (sl\<lparr>sl_reservation := 0\<rparr>, A_idle)"
| "access (W_load claim) sl = (sl, if sl_state sl \<noteq> claim then A_idle else W_cas claim)"
| "access (W_cas claim) sl =
     (if sl_reservation sl = 0 then (sl\<lparr>sl_reservation := claim\<rparr>, W_recheck claim) else (sl, W_load claim))"
| "access (W_recheck claim) sl = (sl, if sl_state sl = claim then W_hold claim else W_abort claim)"
| "access (W_abort claim) sl =
     ((if sl_reservation sl = claim then sl\<lparr>sl_reservation := 0\<rparr> else sl), A_idle)"
| "access (W_hold claim) sl = (sl, W_unlock claim)"
| "access (W_unlock claim) sl =
     ((if sl_reservation sl = claim then sl\<lparr>sl_reservation := 0\<rparr> else sl), A_idle)"

definition begins_reset :: "actor \<Rightarrow> lane option" where
  "begins_reset p = (case p of O_reset claim k \<Rightarrow> if k = 0 then Some claim else None | _ \<Rightarrow> None)"

datatype claims_event = CL_open nat lane | CL_work nat lane | CL_access nat | CL_publish nat ring ring | CL_release
  | CL_client ring ring

inductive claims_step :: "claims \<Rightarrow> claims_event \<Rightarrow> claims \<Rightarrow> bool" where
  cl_open: "cl_actor s a = A_idle \<Longrightarrow> claim \<noteq> 0 \<Longrightarrow>
     claims_step s (CL_open a claim) (s\<lparr>cl_actor := (cl_actor s)(a := O_reserve claim)\<rparr>)"
| cl_work: "cl_actor s a = A_idle \<Longrightarrow> claim \<noteq> 0 \<Longrightarrow>
     claims_step s (CL_work a claim) (s\<lparr>cl_actor := (cl_actor s)(a := W_load claim)\<rparr>)"
| cl_access: "access (cl_actor s a) (cl_slot s) = (sl, p) \<Longrightarrow>
     claims_step s (CL_access a) (s\<lparr>cl_slot := sl, cl_actor := (cl_actor s)(a := p),
       cl_epoch := (case begins_reset (cl_actor s a) of Some claim \<Rightarrow> claim | None \<Rightarrow> cl_epoch s)\<rparr>)"
| cl_publish: "cl_actor s a = W_hold claim \<Longrightarrow>
     claims_step s (CL_publish a r1 r2) (s\<lparr>cl_slot := (cl_slot s)\<lparr>sl_c2w := r1, sl_w2c := r2\<rparr>,
       cl_log := (claim, cl_epoch s) # cl_log s\<rparr>)"
| cl_release: "claims_step s CL_release (s\<lparr>cl_slot := (cl_slot s)\<lparr>sl_state := 0\<rparr>\<rparr>)"
| cl_client: "sl_state (cl_slot s) \<noteq> 0 \<Longrightarrow>
     claims_step s (CL_client r1 r2) (s\<lparr>cl_slot := (cl_slot s)\<lparr>sl_c2w := r1, sl_w2c := r2\<rparr>\<rparr>)"

section \<open>The reservation is a lock\<close>

text \<open>The claim under which an actor holds the reservation.\<close>

fun holding :: "actor \<Rightarrow> lane option" where
  "holding (O_check c) = Some c"
| "holding (O_unreserve c) = Some c"
| "holding (O_reset c k) = Some c"
| "holding (O_publish c) = Some c"
| "holding (O_unlock c) = Some c"
| "holding (W_recheck c) = Some c"
| "holding (W_abort c) = Some c"
| "holding (W_hold c) = Some c"
| "holding (W_unlock c) = Some c"
| "holding _ = None"

fun waiting :: "actor \<Rightarrow> lane" where
  "waiting (O_reserve c) = c"
| "waiting (W_load c) = c"
| "waiting (W_cas c) = c"
| "waiting _ = 1"

definition lock_inv :: "claims \<Rightarrow> bool" where
  "lock_inv s \<longleftrightarrow> (\<forall>a. waiting (cl_actor s a) \<noteq> 0)
     \<and> (\<forall>a c. holding (cl_actor s a) = Some c \<longrightarrow> c \<noteq> 0 \<and> sl_reservation (cl_slot s) = c)
     \<and> (\<forall>a b. holding (cl_actor s a) \<noteq> None \<and> holding (cl_actor s b) \<noteq> None \<longrightarrow> a = b)
     \<and> (sl_reservation (cl_slot s) \<noteq> 0 \<longrightarrow> (\<exists>a. holding (cl_actor s a) \<noteq> None))"

text \<open>What each access does to the reservation.\<close>

lemma reset_lane_lanes [simp]:
  "sl_reservation (reset_lane k sl) = sl_reservation sl" "sl_state (reset_lane k sl) = sl_state sl"
  by (simp_all add: reset_lane_def)

lemma access_not_holding:
  assumes "access p sl = (sl', p')" "holding p = None" "waiting p \<noteq> 0"
  shows "sl' = sl \<and> holding p' = None \<and> waiting p' \<noteq> 0
    \<or> sl_reservation sl = 0 \<and> sl' = sl\<lparr>sl_reservation := waiting p\<rparr> \<and> holding p' = Some (waiting p) \<and> waiting p' \<noteq> 0"
  using assms by (cases p) (auto split: if_splits)

lemma access_holding:
  assumes "access p sl = (sl', p')" "holding p = Some c" "sl_reservation sl = c"
  shows "holding p' = Some c \<and> sl_reservation sl' = c \<and> waiting p' \<noteq> 0
    \<or> holding p' = None \<and> sl_reservation sl' = 0 \<and> waiting p' \<noteq> 0"
  using assms by (cases p) (auto split: if_splits)

lemma lock_unique:
  "lock_inv s \<Longrightarrow> holding (cl_actor s a) = Some c \<Longrightarrow> b \<noteq> a \<Longrightarrow> holding (cl_actor s b) = None"
  unfolding lock_inv_def by (metis option.distinct(1))

lemma lock_held:
  "lock_inv s \<Longrightarrow> holding (cl_actor s a) = Some c \<Longrightarrow> c \<noteq> 0 \<and> sl_reservation (cl_slot s) = c"
  by (simp add: lock_inv_def)

lemma lock_inv_quiet:
  "lock_inv s \<Longrightarrow> holding (cl_actor s a) = None \<Longrightarrow> holding p = None \<Longrightarrow> waiting p \<noteq> 0 \<Longrightarrow>
     lock_inv (s\<lparr>cl_actor := (cl_actor s)(a := p)\<rparr>)"
  by (auto simp: lock_inv_def) (metis option.distinct(1))

lemma lock_inv_step:
  assumes "lock_inv s" "claims_step s e t"
  shows "lock_inv t"
  using assms(2)
proof cases
  case (cl_access a sl p)
  show ?thesis
  proof (cases "holding (cl_actor s a)")
    case None
    from assms(1) have "waiting (cl_actor s a) \<noteq> 0" by (simp add: lock_inv_def)
    from access_not_holding [OF cl_access(3) None this] show ?thesis
    proof
      assume "sl = cl_slot s \<and> holding p = None \<and> waiting p \<noteq> 0"
      with assms(1) None cl_access(2) show ?thesis by (auto simp: lock_inv_def) (metis option.distinct(1))
    next
      assume h: "sl_reservation (cl_slot s) = 0 \<and> sl = (cl_slot s)\<lparr>sl_reservation := waiting (cl_actor s a)\<rparr>
        \<and> holding p = Some (waiting (cl_actor s a)) \<and> waiting p \<noteq> 0"
      with assms(1) have "\<forall>b. holding (cl_actor s b) = None" by (fastforce simp: lock_inv_def)
      with assms(1) h cl_access(2) show ?thesis by (auto simp: lock_inv_def)
    qed
  next
    case (Some c)
    have r: "sl_reservation (cl_slot s) = c" "c \<noteq> 0" and u: "\<forall>b. b \<noteq> a \<longrightarrow> holding (cl_actor s b) = None"
      using lock_held [OF assms(1) Some] lock_unique [OF assms(1) Some] by auto
    from access_holding [OF cl_access(3) Some r(1)] show ?thesis
      using assms(1) r u cl_access(2) by (auto simp: lock_inv_def)
  qed
next
  case cl_open
  then show ?thesis using lock_inv_quiet [OF assms(1)] by simp
next
  case cl_work
  then show ?thesis using lock_inv_quiet [OF assms(1)] by simp
qed (use assms(1) in \<open>auto simp: lock_inv_def\<close>)

section \<open>Claims\<close>

definition lane_value :: "nat \<Rightarrow> slot \<Rightarrow> lane" where
  "lane_value k sl = [rg_write (sl_c2w sl), rg_read (sl_c2w sl), rg_closed (sl_c2w sl), rg_write (sl_w2c sl),
     rg_read (sl_w2c sl), rg_closed (sl_w2c sl), sl_term_claim sl, sl_term_code sl, sl_term_detail sl] ! k"

definition cleared :: "nat \<Rightarrow> slot \<Rightarrow> bool" where
  "cleared n sl \<longleftrightarrow> (\<forall>k < n. lane_value k sl = 0)"

lemma less_nine: "k < 9 \<longleftrightarrow> k \<in> {0, 1, 2, 3, 4, 5, 6, 7, 8 :: nat}"
  by auto

lemma cleared_reset_lane: "cleared k sl \<Longrightarrow> k < 9 \<Longrightarrow> cleared (Suc k) (reset_lane k sl)"
proof -
  assume h: "cleared k sl" "k < 9"
  have "lane_value j (reset_lane k sl) = (if j = k then 0 else lane_value j sl)" if "j < 9" for j
    using that h(2) by (auto simp: less_nine lane_value_def reset_lane_def)
  with h show ?thesis by (auto simp: cleared_def less_Suc_eq)
qed

lemma cleared_fields [simp]:
  "cleared n (sl\<lparr>sl_state := x\<rparr>) = cleared n sl" "cleared n (sl\<lparr>sl_reservation := x\<rparr>) = cleared n sl"
  by (simp_all add: cleared_def lane_value_def)

text \<open>What each actor knows of the slot between its accesses.\<close>

fun knows :: "actor \<Rightarrow> slot \<Rightarrow> lane \<Rightarrow> bool" where
  "knows (O_reset c k) sl epoch = (sl_state sl = 0 \<and> k < 9 \<and> cleared k sl \<and> (k > 0 \<longrightarrow> epoch = c))"
| "knows (O_publish c) sl epoch = (sl_state sl = 0 \<and> cleared 9 sl \<and> epoch = c)"
| "knows (W_hold c) sl epoch = (epoch = c)"
| "knows (W_unlock c) sl epoch = (epoch = c)"
| "knows _ sl epoch = True"

definition claims_inv :: "claims \<Rightarrow> bool" where
  "claims_inv s \<longleftrightarrow> lock_inv s \<and> (sl_state (cl_slot s) \<noteq> 0 \<longrightarrow> cl_epoch s = sl_state (cl_slot s))
     \<and> (\<forall>a. knows (cl_actor s a) (cl_slot s) (cl_epoch s)) \<and> (\<forall>(c, e) \<in> set (cl_log s). c = e)"

lemma knows_not_holding: "holding p = None \<Longrightarrow> knows p sl epoch"
  by (cases p) auto

lemma access_knows:
  assumes "access p sl = (sl', p')" "knows p sl epoch" "sl_state sl \<noteq> 0 \<longrightarrow> epoch = sl_state sl" "holding p = Some c" "c \<noteq> 0"
    and "epoch' = (case begins_reset p of Some claim \<Rightarrow> claim | None \<Rightarrow> epoch)"
  shows "knows p' sl' epoch' \<and> (sl_state sl' \<noteq> 0 \<longrightarrow> epoch' = sl_state sl')"
proof (cases p)
  case (O_reset claim k)
  then show ?thesis
    using assms cleared_reset_lane [of k sl] by (auto simp: begins_reset_def eval_nat_numeral less_Suc_eq split: if_splits)
qed (use assms in \<open>auto simp: begins_reset_def cleared_def split: if_splits\<close>)

lemma access_quiet:
  "access p sl = (sl', p') \<Longrightarrow> holding p = None \<Longrightarrow> sl_state sl' = sl_state sl \<and> knows p' sl' epoch \<and> begins_reset p = None
     \<and> cleared n sl' = cleared n sl"
  by (cases p) (auto simp: begins_reset_def split: if_splits)

lemma claims_inv_step:
  assumes "claims_inv s" "claims_step s e t"
  shows "claims_inv t"
proof -
  have lock: "lock_inv t" using assms by (auto simp: claims_inv_def intro: lock_inv_step)
  from assms(2) show ?thesis
  proof cases
    case (cl_access a sl p)
    have lock0: "lock_inv s" using assms(1) by (simp add: claims_inv_def)
    show ?thesis
    proof (cases "holding (cl_actor s a)")
      case None
      with access_quiet [OF cl_access(3)] assms(1) have q: "sl_state sl = sl_state (cl_slot s)" "begins_reset (cl_actor s a) = None"
        "\<And>n. cleared n sl = cleared n (cl_slot s)" "knows p sl (cl_epoch s)" by blast+
      have "knows q sl (cl_epoch s) = knows q (cl_slot s) (cl_epoch s)" for q using q by (cases q) auto
      with q assms(1) lock cl_access(2) show ?thesis by (auto simp: claims_inv_def)
    next
      case (Some c)
      from assms(1) have "knows (cl_actor s a) (cl_slot s) (cl_epoch s)"
        "sl_state (cl_slot s) \<noteq> 0 \<longrightarrow> cl_epoch s = sl_state (cl_slot s)" by (simp_all add: claims_inv_def)
      note k = access_knows [OF cl_access(3) this Some conjunct1 [OF lock_held [OF lock0 Some]] refl]
      have "knows (cl_actor s b) sl' e'" if "b \<noteq> a" for b sl' e'
        using lock_unique [OF lock0 Some that] by (rule knows_not_holding)
      with k assms(1) lock cl_access(2) show ?thesis by (auto simp: claims_inv_def)
    qed
  next
    case (cl_publish a claim r1 r2)
    have lock0: "lock_inv s" and epoch: "cl_epoch s = claim"
      using assms(1) cl_publish(3) by (simp_all add: claims_inv_def) (metis knows.simps(3))
    have "knows (cl_actor s b) sl claim" for b sl
      using lock_unique [OF lock0, of a claim b] cl_publish(3) by (cases "b = a") (auto intro: knows_not_holding)
    then show ?thesis using assms(1) lock epoch cl_publish(2) by (auto simp: claims_inv_def)
  next
    case cl_release
    have "knows q (sl\<lparr>sl_state := 0\<rparr>) e'" if "knows q sl e'" for q sl e' using that by (cases q) auto
    with assms(1) lock cl_release(2) show ?thesis by (auto simp: claims_inv_def)
  next
    case (cl_client r1 r2)
    have "knows q (sl\<lparr>sl_c2w := r1, sl_w2c := r2\<rparr>) e'" if "knows q sl e'" "sl_state sl \<noteq> 0" for q sl e'
      using that by (cases q) auto
    with assms(1) lock cl_client show ?thesis by (auto simp: claims_inv_def)
  qed (use assms(1) lock in \<open>auto simp: claims_inv_def\<close>)
qed

interpretation claims: invariant_machine claims_step claims_inv
  by unfold_locales (rule claims_inv_step)

lemma claims_inv_init: "claims_inv (claims_init sl)"
  by (simp add: claims_inv_def claims_init_def lock_inv_def)

section \<open>Running a list of events\<close>

fun claims_next :: "claims \<Rightarrow> claims_event \<Rightarrow> claims option" where
  "claims_next s (CL_open a claim) =
     (if cl_actor s a = A_idle \<and> claim \<noteq> 0 then Some (s\<lparr>cl_actor := (cl_actor s)(a := O_reserve claim)\<rparr>) else None)"
| "claims_next s (CL_work a claim) =
     (if cl_actor s a = A_idle \<and> claim \<noteq> 0 then Some (s\<lparr>cl_actor := (cl_actor s)(a := W_load claim)\<rparr>) else None)"
| "claims_next s (CL_access a) =
     (case access (cl_actor s a) (cl_slot s) of (sl, p) \<Rightarrow>
        Some (s\<lparr>cl_slot := sl, cl_actor := (cl_actor s)(a := p),
          cl_epoch := (case begins_reset (cl_actor s a) of Some claim \<Rightarrow> claim | None \<Rightarrow> cl_epoch s)\<rparr>))"
| "claims_next s (CL_publish a r1 r2) =
     (case cl_actor s a of
        W_hold claim \<Rightarrow> Some (s\<lparr>cl_slot := (cl_slot s)\<lparr>sl_c2w := r1, sl_w2c := r2\<rparr>,
          cl_log := (claim, cl_epoch s) # cl_log s\<rparr>)
      | _ \<Rightarrow> None)"
| "claims_next s CL_release = Some (s\<lparr>cl_slot := (cl_slot s)\<lparr>sl_state := 0\<rparr>\<rparr>)"
| "claims_next s (CL_client r1 r2) =
     (if sl_state (cl_slot s) \<noteq> 0 then Some (s\<lparr>cl_slot := (cl_slot s)\<lparr>sl_c2w := r1, sl_w2c := r2\<rparr>\<rparr>) else None)"

lemma claims_next_sound: "claims_next s e = Some t \<Longrightarrow> claims_step s e t"
proof (cases e)
  case (CL_access a)
  assume n: "claims_next s e = Some t"
  obtain sl p where "access (cl_actor s a) (cl_slot s) = (sl, p)" by force
  with n CL_access claims_step.cl_access [OF this] show ?thesis by auto
qed (auto split: if_splits actor.splits intro: claims_step.intros)

fun claims_run :: "claims \<Rightarrow> claims_event list \<Rightarrow> claims option" where
  "claims_run s [] = Some s"
| "claims_run s (e # es) = (case claims_next s e of None \<Rightarrow> None | Some t \<Rightarrow> claims_run t es)"

lemma claims_run_exec: "claims_run s es = Some t \<Longrightarrow> exec claims_step s es t"
  by (induction es arbitrary: s) (auto split: option.splits intro: exec.intros claims_next_sound)

section \<open>Properties\<close>


definition used_ring :: "ring" where
  "used_ring = \<lparr>rg_write = 3, rg_read = 1, rg_closed = 1, rg_data = []\<rparr>"

definition used_slot :: "slot" where
  "used_slot = \<lparr>sl_state = 0, sl_reservation = 0, sl_c2w = used_ring, sl_w2c = used_ring, sl_term_claim = 4,
     sl_term_code = 4, sl_term_detail = 4\<rparr>"

text \<open>Actor 0 opens claim 5, worker 1 serves it and publishes; the slot is released and opened for claim 6 while
  worker 2, which still serves claim 5, tries to write.\<close>

definition contended :: "claims_event list" where
  "contended = CL_open 0 5 # replicate 13 (CL_access 0) @ [CL_work 1 5] @ replicate 3 (CL_access 1)
     @ [CL_publish 1 used_ring used_ring, CL_access 1, CL_access 1, CL_work 2 5, CL_access 2, CL_release, CL_open 0 6]
     @ replicate 13 (CL_access 0) @ replicate 3 (CL_access 2)"

lemma contended_runs:
  "map_option (\<lambda>s. (cl_log s, sl_state (cl_slot s), cl_actor s 2)) (claims_run (claims_init used_slot) contended)
     = Some ([(5, 5)], 6, A_idle)"
  by code_simp


end
