(* ===== verification/Hb_SabFifo.thy ===== *)
theory Hb_SabFifo
  imports Hb_SabRing
begin

text \<open>
  One direction of a slot: \<open>ringWrite\<close> and \<open>ringRead\<close> of \<open>lib/vgi-sab-ring.js\<close> running on two threads, one access to
  shared memory at a time. Both ends of the ring are positions that only grow; the bytes between them are in the ring.

  \<open>ff_handed\<close> are the bytes given to calls of \<open>ringWrite\<close>, \<open>ff_sent\<close> those published by moving the write position,
  \<open>ff_returned\<close> what the calls of \<open>ringRead\<close> have returned; the empty list is the return value 0. \<open>eos\<close> is the test on
  the close lane, which depends on the direction and on the claim.
\<close>

section \<open>The two loops\<close>

datatype ring_writer =
    FW_idle
  | FW_top "byte list" nat
  | FW_write "byte list" nat int
  | FW_both "byte list" nat int int
  | FW_copy "byte list" nat int nat nat

datatype ring_reader =
    FR_idle
  | FR_top nat
  | FR_write nat int
  | FR_both nat int int
  | FR_empty nat
  | FR_copy int nat "byte list"

record fifo =
  ff_ring :: ring
  ff_writer :: ring_writer
  ff_reader :: ring_reader
  ff_handed :: "byte list"
  ff_sent :: "byte list"
  ff_returned :: "byte list list"

definition fifo_init :: "byte list \<Rightarrow> fifo" where
  "fifo_init buf = \<lparr>ff_ring = \<lparr>rg_write = 0, rg_read = 0, rg_closed = 0, rg_data = buf\<rparr>, ff_writer = FW_idle,
     ff_reader = FR_idle, ff_handed = [], ff_sent = [], ff_returned = []\<rparr>"

abbreviation ring_cap :: "ring \<Rightarrow> nat" where
  "ring_cap r \<equiv> length (rg_data r)"

text \<open>The remainder of JavaScript has the sign of the dividend.\<close>

definition js_rem :: "int \<Rightarrow> int \<Rightarrow> int" where
  "js_rem a b = (if a < 0 then - ((- a) mod b) else a mod b)"

text \<open>The place of the \<open>j\<close>-th of \<open>k\<close> bytes at a position: up to the end of the ring, then from its start.\<close>

definition ring_index :: "nat \<Rightarrow> int \<Rightarrow> nat \<Rightarrow> nat \<Rightarrow> nat" where
  "ring_index cap position k j =
     (let pos = nat (js_rem position (int cap)); first = min k (cap - pos)
      in if j < first then pos + j else j - first)"

fun writer_access :: "ring_writer \<Rightarrow> ring \<Rightarrow> ring \<times> ring_writer" where
  "writer_access FW_idle r = (r, FW_idle)"
| "writer_access (FW_top src off) r =
     (r, if off < length src then FW_write src off (load (rg_write r)) else FW_idle)"
| "writer_access (FW_write src off w) r = (r, FW_both src off w (load (rg_read r)))"
| "writer_access (FW_both src off w rd) r =
     (let free = int (ring_cap r) - (w - rd) in
      (r, if free = 0 then FW_top src off else FW_copy src off w (min (nat free) (length src - off)) 0))"
| "writer_access (FW_copy src off w k j) r =
     (if j < k
      then (r\<lparr>rg_data := (rg_data r)[ring_index (ring_cap r) w k j := src ! (off + j)]\<rparr>, FW_copy src off w k (Suc j))
      else (r\<lparr>rg_write := store (w + int k)\<rparr>, FW_top src (off + k)))"

text \<open>The bytes that an access publishes.\<close>

fun published :: "ring_writer \<Rightarrow> byte list" where
  "published (FW_copy src off w k j) = (if j < k then [] else take k (drop off src))"
| "published _ = []"

fun reader_access :: "(lane \<Rightarrow> bool) \<Rightarrow> ring_reader \<Rightarrow> ring \<Rightarrow> ring \<times> ring_reader \<times> byte list list" where
  "reader_access eos FR_idle r = (r, FR_idle, [])"
| "reader_access eos (FR_top n) r = (r, FR_write n (load (rg_write r)), [])"
| "reader_access eos (FR_write n w) r = (r, FR_both n w (load (rg_read r)), [])"
| "reader_access eos (FR_both n w rd) r =
     (r, if w - rd = 0 then FR_empty n else FR_copy rd (min (nat (w - rd)) n) [], [])"
| "reader_access eos (FR_empty n) r = (if eos (rg_closed r) then (r, FR_idle, [[]]) else (r, FR_top n, []))"
| "reader_access eos (FR_copy rd k dst) r =
     (if length dst < k then (r, FR_copy rd k (dst @ [rg_data r ! ring_index (ring_cap r) rd k (length dst)]), [])
      else (r\<lparr>rg_read := store (rd + int k)\<rparr>, FR_idle, [dst]))"

datatype fifo_event = FF_write "byte list" | FF_writer | FF_read nat | FF_reader | FF_close lane

inductive fifo_step :: "(lane \<Rightarrow> bool) \<Rightarrow> fifo \<Rightarrow> fifo_event \<Rightarrow> fifo \<Rightarrow> bool" for eos where
  ff_write: "ff_writer s = FW_idle \<Longrightarrow>
     fifo_step eos s (FF_write src) (s\<lparr>ff_writer := FW_top src 0, ff_handed := ff_handed s @ src\<rparr>)"
| ff_writer: "writer_access (ff_writer s) (ff_ring s) = (r, p) \<Longrightarrow>
     fifo_step eos s FF_writer (s\<lparr>ff_ring := r, ff_writer := p, ff_sent := ff_sent s @ published (ff_writer s)\<rparr>)"
| ff_read: "ff_reader s = FR_idle \<Longrightarrow> fifo_step eos s (FF_read n) (s\<lparr>ff_reader := FR_top n\<rparr>)"
| ff_reader: "reader_access eos (ff_reader s) (ff_ring s) = (r, p, out) \<Longrightarrow>
     fifo_step eos s FF_reader (s\<lparr>ff_ring := r, ff_reader := p, ff_returned := ff_returned s @ out\<rparr>)"
| ff_close: "ff_writer s = FW_idle \<Longrightarrow>
     fifo_step eos s (FF_close v) (s\<lparr>ff_ring := (ff_ring s)\<lparr>rg_closed := v\<rparr>\<rparr>)"

section \<open>Places in the ring\<close>

lemma ring_index_mod:
  assumes "j < k" "k \<le> cap"
  shows "ring_index cap (int p) k j = (p + j) mod cap"
proof -
  have cap: "0 < cap" using assms by simp
  have pos: "nat (js_rem (int p) (int cap)) = p mod cap" by (simp add: js_rem_def nat_mod_as_int)
  show ?thesis
  proof (cases "j < min k (cap - p mod cap)")
    case True
    then have "p mod cap + j < cap" by auto
    then have "(p + j) mod cap = p mod cap + j" by (metis mod_add_left_eq mod_less)
    with True show ?thesis by (simp add: ring_index_def pos)
  next
    case False
    with assms have f: "cap - p mod cap \<le> j" "min k (cap - p mod cap) = cap - p mod cap" by auto
    have lt: "p mod cap < cap" using cap by simp
    have "(p + j) mod cap = (p mod cap + j) mod cap" by (simp add: mod_simps)
    also have "p mod cap + j = cap + (j - (cap - p mod cap))" using f(1) lt by simp
    also have "\<dots> mod cap = (j - (cap - p mod cap)) mod cap" by (rule mod_add_self1)
    also have "\<dots> = j - (cap - p mod cap)" using assms lt by (intro mod_less) arith
    finally show ?thesis using False f(2) by (simp add: ring_index_def pos)
  qed
qed

text \<open>Two positions less than a capacity apart have different places.\<close>

lemma place_inj: "a \<le> b \<Longrightarrow> b < a + cap \<Longrightarrow> a mod cap = b mod cap \<Longrightarrow> a = (b :: nat)"
  by (metis add_diff_cancel_left' le_Suc_ex less_add_same_cancel1 mod_eq_dvd_iff_nat dvd_imp_le
      not_le zero_less_iff_neq_zero add_left_cancel diff_is_0_eq' nat_add_left_cancel_less)

section \<open>The invariant\<close>

abbreviation got :: "fifo \<Rightarrow> byte list" where
  "got s \<equiv> concat (ff_returned s)"

fun writer_ok :: "byte list \<Rightarrow> byte list \<Rightarrow> nat \<Rightarrow> byte list \<Rightarrow> ring_writer \<Rightarrow> bool" where
  "writer_ok handed sent g buf FW_idle = (handed = sent)"
| "writer_ok handed sent g buf (FW_top src off) = (off \<le> length src \<and> handed = sent @ drop off src)"
| "writer_ok handed sent g buf (FW_write src off w) =
     (off < length src \<and> handed = sent @ drop off src \<and> w = int (length sent))"
| "writer_ok handed sent g buf (FW_both src off w r) =
     (off < length src \<and> handed = sent @ drop off src \<and> w = int (length sent)
      \<and> 0 \<le> r \<and> r \<le> int g \<and> w \<le> r + int (length buf))"
| "writer_ok handed sent g buf (FW_copy src off w k j) =
     (off + k \<le> length src \<and> handed = sent @ drop off src \<and> w = int (length sent)
      \<and> length sent + k \<le> g + length buf \<and> j \<le> k
      \<and> (\<forall>i < j. buf ! ((length sent + i) mod length buf) = src ! (off + i)))"

fun reader_ok :: "byte list \<Rightarrow> nat \<Rightarrow> ring_reader \<Rightarrow> bool" where
  "reader_ok sent g (FR_write n w) = (int g \<le> w \<and> w \<le> int (length sent))"
| "reader_ok sent g (FR_both n w r) = (int g \<le> w \<and> w \<le> int (length sent) \<and> r = int g)"
| "reader_ok sent g (FR_copy r k dst) =
     (r = int g \<and> g + k \<le> length sent \<and> length dst \<le> k \<and> dst = take (length dst) (drop g sent))"
| "reader_ok sent g p = True"

definition fifo_ok :: "nat \<Rightarrow> fifo \<Rightarrow> bool" where
  "fifo_ok cap s \<longleftrightarrow>
     (let r = ff_ring s; S = length (ff_sent s); G = length (got s) in
      ring_cap r = cap \<and> rg_write r = store (int S) \<and> rg_read r = store (int G) \<and> G \<le> S \<and> S \<le> G + cap
      \<and> got s = take G (ff_sent s) \<and> (\<forall>i. G \<le> i \<and> i < S \<longrightarrow> rg_data r ! (i mod cap) = ff_sent s ! i)
      \<and> writer_ok (ff_handed s) (ff_sent s) G (rg_data r) (ff_writer s)
      \<and> reader_ok (ff_sent s) G (ff_reader s))"

definition fifo_inv :: "nat \<Rightarrow> fifo \<Rightarrow> bool" where
  "fifo_inv cap s \<longleftrightarrow> 0 < cap \<and> (length (ff_sent s) < 2 ^ 31 \<longrightarrow> fifo_ok cap s)"

lemma fifo_okD:
  assumes "fifo_ok cap s"
  shows "ring_cap (ff_ring s) = cap" "rg_write (ff_ring s) = store (int (length (ff_sent s)))"
    "rg_read (ff_ring s) = store (int (length (got s)))" "length (got s) \<le> length (ff_sent s)"
    "length (ff_sent s) \<le> length (got s) + cap" "got s = take (length (got s)) (ff_sent s)"
    "\<And>i. length (got s) \<le> i \<Longrightarrow> i < length (ff_sent s) \<Longrightarrow> rg_data (ff_ring s) ! (i mod cap) = ff_sent s ! i"
    "writer_ok (ff_handed s) (ff_sent s) (length (got s)) (rg_data (ff_ring s)) (ff_writer s)"
    "reader_ok (ff_sent s) (length (got s)) (ff_reader s)"
  using assms by (simp_all add: fifo_ok_def Let_def)

text \<open>The reader keeps what it knows when bytes are published, the writer when bytes are taken.\<close>

lemma reader_ok_publish: "reader_ok sent g p \<Longrightarrow> reader_ok (sent @ xs) g p"
  by (cases p) auto

lemma writer_ok_take: "writer_ok handed sent g buf p \<Longrightarrow> g \<le> g' \<Longrightarrow> writer_ok handed sent g' buf p"
  by (cases p) auto

lemma fifo_ok_write:
  "fifo_ok cap s \<Longrightarrow> ff_writer s = FW_idle \<Longrightarrow> fifo_ok cap (s\<lparr>ff_writer := FW_top src 0, ff_handed := ff_handed s @ src\<rparr>)"
  by (simp add: fifo_ok_def Let_def)

lemma fifo_ok_writer:
  assumes "fifo_ok cap s" "0 < cap" "writer_access (ff_writer s) (ff_ring s) = (r, p)" "length (ff_sent s) < 2 ^ 31"
  shows "fifo_ok cap (s\<lparr>ff_ring := r, ff_writer := p, ff_sent := ff_sent s @ published (ff_writer s)\<rparr>)"
proof (cases "ff_writer s")
  case FW_idle
  then show ?thesis using assms by (simp add: fifo_ok_def Let_def)
next
  case (FW_top src off)
  then show ?thesis using assms
    by (auto simp: fifo_ok_def Let_def load_store split: if_splits)
next
  case (FW_write src off w)
  have "load (rg_read (ff_ring s)) = int (length (got s))"
    using fifo_okD [OF assms(1)] assms(4) by (simp add: load_store)
  then show ?thesis using assms FW_write by (auto simp: fifo_ok_def Let_def)
next
  case (FW_both src off w rd)
  then show ?thesis using assms by (auto simp: fifo_ok_def Let_def split: if_splits)
next
  case (FW_copy src off w k j)
  note ok = fifo_okD [OF assms(1)]
  define S where "S = length (ff_sent s)"
  define G where "G = length (got s)"
  define buf where "buf = rg_data (ff_ring s)"
  have w: "off + k \<le> length src" "ff_handed s = ff_sent s @ drop off src" "w = int S" "S + k \<le> G + cap" "j \<le> k"
    "\<And>i. i < j \<Longrightarrow> buf ! ((S + i) mod cap) = src ! (off + i)" and len: "length buf = cap"
    using ok(1,8) FW_copy by (auto simp: S_def G_def buf_def)
  have GS: "G \<le> S" "S \<le> G + cap" using ok(4,5) by (simp_all add: G_def S_def)
  show ?thesis
  proof (cases "j < k")
    case True
    have kc: "k \<le> cap" using w(4) GS by simp
    have at: "ring_index cap w k j = (S + j) mod cap" using ring_index_mod [OF True kc, of S] w(3) by simp
    have r: "r = (ff_ring s)\<lparr>rg_data := buf[(S + j) mod cap := src ! (off + j)]\<rparr>" "p = FW_copy src off w k (Suc j)"
      using assms(3) FW_copy True at len by (auto simp: buf_def)
    have other: "i mod cap \<noteq> (S + j) mod cap" if "G \<le> i" "i < S + j" for i
      using place_inj [of i "S + j" cap] that w(4) True by auto
    have inr: "buf[(S + j) mod cap := src ! (off + j)] ! (i mod cap) = ff_sent s ! i" if "G \<le> i" "i < S" for i
      using ok(7) [of i] that other [of i] by (simp add: S_def G_def buf_def [symmetric] nth_list_update_neq)
    have new: "buf[(S + j) mod cap := src ! (off + j)] ! ((S + i) mod cap) = src ! (off + i)" if "i < Suc j" for i
    proof (cases "i = j")
      case True
      then show ?thesis using len assms(2) by simp
    next
      case False
      with that w(6) [of i] other [of "S + i"] GS show ?thesis by (simp add: nth_list_update_neq)
    qed
    show ?thesis using assms(1) True r FW_copy inr new w len
      by (simp add: fifo_ok_def Let_def S_def G_def buf_def)
  next
    case False
    with w(5) have jk: "j = k" by simp
    have r: "r = (ff_ring s)\<lparr>rg_write := store (w + int k)\<rparr>" "p = FW_top src (off + k)"
      using assms(3) FW_copy False by auto
    have pub: "published (ff_writer s) = take k (drop off src)" "length (take k (drop off src)) = k"
      using FW_copy False w(1) by auto
    have dr: "drop off src = take k (drop off src) @ drop (off + k) src"
      by (metis add.commute append_take_drop_id drop_drop)
    have inr: "buf ! (i mod cap) = (ff_sent s @ take k (drop off src)) ! i" if "G \<le> i" "i < S + k" for i
    proof (cases "i < S")
      case True
      with that ok(7) [of i] show ?thesis by (simp add: nth_append S_def G_def buf_def)
    next
      case False
      with that have "i = S + (i - S)" "i - S < k" by auto
      then obtain m where m: "i = S + m" "m < k" by metis
      with w(6) [of m] jk w(1) show ?thesis by (simp add: nth_append S_def)
    qed
    show ?thesis using assms(1) r pub w GS inr dr reader_ok_publish
      by (simp add: fifo_ok_def Let_def S_def G_def buf_def)
  qed
qed

lemma fifo_ok_reader:
  assumes "fifo_ok cap s" "0 < cap" "reader_access eos (ff_reader s) (ff_ring s) = (r, p, out)" "length (ff_sent s) < 2 ^ 31"
  shows "fifo_ok cap (s\<lparr>ff_ring := r, ff_reader := p, ff_returned := ff_returned s @ out\<rparr>)"
proof (cases "ff_reader s")
  case FR_idle
  then show ?thesis using assms by (simp add: fifo_ok_def Let_def)
next
  case (FR_top n)
  then show ?thesis using assms by (auto simp: fifo_ok_def Let_def load_store)
next
  case (FR_write n w)
  have "load (rg_read (ff_ring s)) = int (length (got s))"
    using fifo_okD [OF assms(1)] assms(4) by (simp add: load_store)
  then show ?thesis using assms FR_write by (auto simp: fifo_ok_def Let_def)
next
  case (FR_both n w rd)
  then show ?thesis using assms by (auto simp: fifo_ok_def Let_def split: if_splits)
next
  case (FR_empty n)
  then show ?thesis using assms by (auto simp: fifo_ok_def Let_def split: if_splits)
next
  case (FR_copy rd k dst)
  note ok = fifo_okD [OF assms(1)]
  define S where "S = length (ff_sent s)"
  define G where "G = length (got s)"
  have rk: "rd = int G" "G + k \<le> S" "length dst \<le> k" "dst = take (length dst) (drop G (ff_sent s))"
    using ok(9) FR_copy by (simp_all add: S_def G_def)
  show ?thesis
  proof (cases "length dst < k")
    case True
    have kc: "k \<le> cap" using rk(2) ok(5) by (simp add: S_def G_def)
    have "ring_index cap rd k (length dst) = (G + length dst) mod cap"
      using ring_index_mod [OF True kc, of G] rk(1) by simp
    then have "rg_data (ff_ring s) ! ring_index cap rd k (length dst) = ff_sent s ! (G + length dst)"
      using ok(7) [of "G + length dst"] True rk(2) by (simp add: G_def S_def)
    then have "dst @ [rg_data (ff_ring s) ! ring_index cap rd k (length dst)]
        = take (Suc (length dst)) (drop G (ff_sent s))"
      using rk True by (simp add: take_Suc_conv_app_nth S_def)
    then have r: "r = ff_ring s" "p = FR_copy rd k (take (Suc (length dst)) (drop G (ff_sent s)))" "out = []"
      using assms(3) FR_copy True ok(1) by auto
    have "reader_ok (ff_sent s) G p" using r rk True by (simp add: S_def)
    then show ?thesis using assms(1) r
      by (simp add: fifo_ok_def Let_def G_def)
  next
    case False
    with rk(3) have k: "length dst = k" by simp
    have r: "r = (ff_ring s)\<lparr>rg_read := store (rd + int k)\<rparr>" "p = FR_idle" "out = [dst]"
      using assms(3) FR_copy False by auto
    have "got s @ dst = take G (ff_sent s) @ take k (drop G (ff_sent s))" using ok(6) rk(4) k by (simp add: G_def)
    then have g: "got s @ dst = take (G + k) (ff_sent s)" by (simp add: take_add)
    have "writer_ok (ff_handed s) (ff_sent s) (G + k) (rg_data (ff_ring s)) (ff_writer s)"
      using writer_ok_take [OF ok(8)] by (simp add: G_def)
    then show ?thesis using assms(1) r g k rk ok(5)
      by (simp add: fifo_ok_def Let_def S_def G_def)
  qed
qed

lemma fifo_inv_step:
  assumes "fifo_inv cap s" "fifo_step eos s e t"
  shows "fifo_inv cap t"
  using assms(2)
proof cases
  case (ff_writer r p)
  with assms(1) fifo_ok_writer [of cap s r p] show ?thesis by (auto simp: fifo_inv_def)
next
  case (ff_reader r p out)
  with assms(1) fifo_ok_reader [of cap s eos r p out] show ?thesis by (auto simp: fifo_inv_def)
qed (use assms(1) in \<open>auto simp: fifo_inv_def fifo_ok_write fifo_ok_def Let_def\<close>)

interpretation fifo: invariant_machine "fifo_step eos" "fifo_inv cap" for eos cap
  by unfold_locales (rule fifo_inv_step)

lemma fifo_inv_init: "buf \<noteq> [] \<Longrightarrow> fifo_inv (length buf) (fifo_init buf)"
  by (simp add: fifo_inv_def fifo_ok_def fifo_init_def store_def)

section \<open>Running a list of events\<close>

fun fifo_next :: "(lane \<Rightarrow> bool) \<Rightarrow> fifo \<Rightarrow> fifo_event \<Rightarrow> fifo option" where
  "fifo_next eos s (FF_write src) =
     (if ff_writer s = FW_idle then Some (s\<lparr>ff_writer := FW_top src 0, ff_handed := ff_handed s @ src\<rparr>) else None)"
| "fifo_next eos s FF_writer =
     (case writer_access (ff_writer s) (ff_ring s) of (r, p) \<Rightarrow>
        Some (s\<lparr>ff_ring := r, ff_writer := p, ff_sent := ff_sent s @ published (ff_writer s)\<rparr>))"
| "fifo_next eos s (FF_read n) = (if ff_reader s = FR_idle then Some (s\<lparr>ff_reader := FR_top n\<rparr>) else None)"
| "fifo_next eos s FF_reader =
     (case reader_access eos (ff_reader s) (ff_ring s) of (r, p, out) \<Rightarrow>
        Some (s\<lparr>ff_ring := r, ff_reader := p, ff_returned := ff_returned s @ out\<rparr>))"
| "fifo_next eos s (FF_close v) =
     (if ff_writer s = FW_idle then Some (s\<lparr>ff_ring := (ff_ring s)\<lparr>rg_closed := v\<rparr>\<rparr>) else None)"

lemma fifo_next_sound: "fifo_next eos s e = Some t \<Longrightarrow> fifo_step eos s e t"
  by (cases e) (auto split: if_splits prod.splits intro: fifo_step.intros)

fun fifo_run :: "(lane \<Rightarrow> bool) \<Rightarrow> fifo \<Rightarrow> fifo_event list \<Rightarrow> fifo option" where
  "fifo_run eos s [] = Some s"
| "fifo_run eos s (e # es) = (case fifo_next eos s e of None \<Rightarrow> None | Some t \<Rightarrow> fifo_run eos t es)"

lemma fifo_run_exec: "fifo_run eos s es = Some t \<Longrightarrow> exec (fifo_step eos) s es t"
  by (induction es arbitrary: s) (auto split: option.splits intro: exec.intros fifo_next_sound)

section \<open>Properties\<close>

text \<open>C12: Under every interleaving of a writing and a reading thread, access by access, what the reads have returned
  is exactly the first bytes of what the writes were given, in order, nothing lost, repeated or torn by the wrap of
  the ring; the ring never holds more than its capacity; and once the writer has returned and the positions have
  met, all of it has been returned. This holds while less than 2 GiB have gone through the ring.\<close>

theorem ring_is_a_fifo:
  assumes "buf \<noteq> []" "exec (fifo_step eos) (fifo_init buf) es s" "length (ff_sent s) < 2 ^ 31"
  shows "concat (ff_returned s) = take (length (concat (ff_returned s))) (ff_handed s)
    \<and> length (ff_sent s) \<le> length (concat (ff_returned s)) + length buf
    \<and> (ff_writer s = FW_idle \<and> rg_write (ff_ring s) = rg_read (ff_ring s) \<longrightarrow> concat (ff_returned s) = ff_handed s)"
proof -
  have ok: "fifo_ok (length buf) s"
    using fifo.inv_exec [OF assms(2) fifo_inv_init [OF assms(1)]] assms(3) by (simp add: fifo_inv_def)
  note d = fifo_okD [OF ok]
  have pre: "\<exists>rest. ff_handed s = ff_sent s @ rest" using d(8) by (cases "ff_writer s") auto
  have first: "got s = take (length (got s)) (ff_handed s)" using pre d(4,6) by auto
  have "got s = ff_handed s" if "ff_writer s = FW_idle" "rg_write (ff_ring s) = rg_read (ff_ring s)"
  proof -
    have w: "load (store (int (length (ff_sent s)))) = int (length (ff_sent s))"
      and r: "load (store (int (length (got s)))) = int (length (got s))"
      using d(4) assms(3) by (simp_all add: load_store)
    have "store (int (length (ff_sent s))) = store (int (length (got s)))" using d(2,3) that(2) by simp
    then have "length (ff_sent s) = length (got s)" using w r by (metis of_nat_eq_iff)
    then have "got s = ff_sent s" using d(6) by (metis order_refl take_all)
    moreover have "ff_handed s = ff_sent s" using d(8) that(1) by simp
    ultimately show ?thesis by simp
  qed
  with first d(5) show ?thesis by blast
qed

text \<open>Five bytes through a ring of three.\<close>

definition wrapping :: "fifo_event list" where
  "wrapping = FF_write [10, 11, 12, 13, 14] # replicate 7 FF_writer @ FF_read 2 # replicate 6 FF_reader
     @ replicate 7 FF_writer @ FF_read 9 # replicate 7 FF_reader"

lemma wrapping_runs:
  "map_option (\<lambda>s. (ff_returned s, length (ff_sent s))) (fifo_run (\<lambda>c. c \<noteq> 0) (fifo_init [0, 0, 0]) wrapping)
     = Some ([[10, 11], [12, 13, 14]], 5)"
  by code_simp

theorem ring_is_a_fifo_witness:
  "\<exists>s. exec (fifo_step (\<lambda>c. c \<noteq> 0)) (fifo_init [0, 0, 0]) wrapping s \<and> ff_returned s = [[10, 11], [12, 13, 14]]
     \<and> concat (ff_returned s) = take (length (concat (ff_returned s))) (ff_handed s)"
proof -
  obtain s where s: "fifo_run (\<lambda>c. c \<noteq> 0) (fifo_init [0, 0, 0]) wrapping = Some s"
    "ff_returned s = [[10, 11], [12, 13, 14]]" "length (ff_sent s) = 5"
    using wrapping_runs by auto
  note e = fifo_run_exec [OF s(1)]
  have "concat (ff_returned s) = take (length (concat (ff_returned s))) (ff_handed s)"
    using ring_is_a_fifo [OF _ e] s(3) by simp
  with e s(2) show ?thesis by blast
qed

text \<open>A read that nothing disturbs, from the head of its loop.\<close>

definition reads :: "fifo \<Rightarrow> nat \<Rightarrow> fifo \<Rightarrow> bool" where
  "reads s0 n t \<longleftrightarrow> (let S = int (length (ff_sent s0)); G = int (length (got s0)) in
     rg_write (ff_ring t) = store S \<and> rg_closed (ff_ring t) = rg_closed (ff_ring s0)
     \<and> (ff_returned t = ff_returned s0 \<and> rg_read (ff_ring t) = store G
          \<and> (case ff_reader t of FR_idle \<Rightarrow> False | FR_top m \<Rightarrow> m = n | FR_write m w \<Rightarrow> m = n \<and> w = S
             | FR_both m w r \<Rightarrow> m = n \<and> w = S \<and> r = G | FR_empty m \<Rightarrow> S = G
             | FR_copy r k dst \<Rightarrow> S \<noteq> G \<and> 0 < k \<and> length dst \<le> k)
        \<or> (\<exists>out. ff_returned t = ff_returned s0 @ [out] \<and> (out = [] \<longleftrightarrow> S = G) \<and> ff_reader t = FR_idle)))"

lemma reads_step:
  assumes "reads s0 n t" "fifo_step eos t FF_reader u" "eos (rg_closed (ff_ring s0))" "0 < n"
    and "length (got s0) \<le> length (ff_sent s0)" "length (ff_sent s0) < 2 ^ 31"
  shows "reads s0 n u"
  using assms by (cases "ff_reader t") (auto simp: reads_def Let_def load_store elim!: fifo_step.cases split: if_splits)

lemma reads_run:
  assumes "exec (fifo_step eos) t (replicate m FF_reader) u" "reads s0 n t" "eos (rg_closed (ff_ring s0))" "0 < n"
    and "length (got s0) \<le> length (ff_sent s0)" "length (ff_sent s0) < 2 ^ 31"
  shows "reads s0 n u"
  using assms(1,2)
proof (induction m arbitrary: t)
  case (Suc m)
  then obtain v where v: "fifo_step eos t FF_reader v" "exec (fifo_step eos) v (replicate m FF_reader) u"
    by (auto simp: exec_Cons_iff)
  show ?case by (rule Suc.IH [OF v(2) reads_step [OF Suc.prems(2) v(1) assms(3-6)]])
qed simp

text \<open>A read that starts when the ring is closed and nobody writes any more returns 0 exactly when everything that
  was sent has been returned: it neither misses the end nor cuts the stream short.\<close>

theorem read_after_close_sees_the_end:
  assumes "buf \<noteq> []" "exec (fifo_step eos) (fifo_init buf) es s" "length (ff_sent s) < 2 ^ 31"
    and "ff_reader s = FR_top n" "0 < n" "eos (rg_closed (ff_ring s))"
    and "exec (fifo_step eos) s (replicate m FF_reader) t" "ff_returned t = ff_returned s @ [out]"
  shows "out = [] \<longleftrightarrow> concat (ff_returned s) = ff_sent s"
proof -
  have ok: "fifo_ok (length buf) s"
    using fifo.inv_exec [OF assms(2) fifo_inv_init [OF assms(1)]] assms(3) by (simp add: fifo_inv_def)
  note d = fifo_okD [OF ok]
  have "reads s n s" using d(2,3) assms(4) by (simp add: reads_def)
  from reads_run [OF assms(7) this assms(6,5) d(4) assms(3)]
  have "out = [] \<longleftrightarrow> length (ff_sent s) = length (got s)" using assms(8) by (auto simp: reads_def Let_def)
  with d(4,6) show ?thesis by (metis order_refl take_all)
qed

lemma closed_run:
  "map_option (\<lambda>s. (ff_returned s, ff_sent s, ff_reader s, rg_closed (ff_ring s)))
     (fifo_run (\<lambda>c. c \<noteq> 0) (fifo_init [0]) (FF_write [7] # replicate 6 FF_writer @ [FF_close 1, FF_read 4]))
   = Some ([], [7], FR_top 4, 1)"
  "(case fifo_run (\<lambda>c. c \<noteq> 0) (fifo_init [0]) (FF_write [7] # replicate 6 FF_writer @ [FF_close 1, FF_read 4]) of
      None \<Rightarrow> None | Some s \<Rightarrow> map_option ff_returned (fifo_run (\<lambda>c. c \<noteq> 0) s (replicate 5 FF_reader))) = Some [[7]]"
  by code_simp+

theorem read_after_close_sees_the_end_witness:
  "\<exists>s. exec (fifo_step (\<lambda>c. c \<noteq> 0)) (fifo_init [0]) (FF_write [7] # replicate 6 FF_writer @ [FF_close 1, FF_read 4]) s
     \<and> (([7] :: byte list) = [] \<longleftrightarrow> concat (ff_returned s) = ff_sent s)"
proof -
  obtain s where s: "fifo_run (\<lambda>c. c \<noteq> 0) (fifo_init [0]) (FF_write [7] # replicate 6 FF_writer @ [FF_close 1, FF_read 4]) = Some s"
    "ff_returned s = []" "ff_sent s = [7]" "ff_reader s = FR_top 4" "rg_closed (ff_ring s) = 1"
    using closed_run(1) by auto
  then obtain t where t: "fifo_run (\<lambda>c. c \<noteq> 0) s (replicate 5 FF_reader) = Some t" "ff_returned t = [[7]]"
    using closed_run(2) by auto
  have "([7] :: byte list) = [] \<longleftrightarrow> concat (ff_returned s) = ff_sent s"
    by (rule read_after_close_sees_the_end [OF _ fifo_run_exec [OF s(1)] _ s(4) _ _ fifo_run_exec [OF t(1)]])
      (use s t in simp_all)
  with fifo_run_exec [OF s(1)] show ?thesis by blast
qed

text \<open>A read that is under way when the writer publishes its last bytes and closes can report the end of the
  stream with those bytes still in the ring: it looks at the write position before it looks at the close lane and does
  not look again.\<close>

theorem end_of_stream_can_lose_bytes:
  "\<exists>es s. exec (fifo_step (\<lambda>c. c \<noteq> 0)) (fifo_init [0]) es s \<and> ff_writer s = FW_idle \<and> ff_reader s = FR_idle
     \<and> ff_sent s = [7] \<and> ff_returned s = [[]]"
proof -
  define es where "es = FF_read 1 # FF_reader # FF_write [7] # replicate 6 FF_writer @ FF_close 1 # replicate 3 FF_reader"
  have "map_option (\<lambda>s. (ff_writer s, ff_reader s, ff_sent s, ff_returned s))
      (fifo_run (\<lambda>c. c \<noteq> 0) (fifo_init [0]) (FF_read 1 # FF_reader # FF_write [7] # replicate 6 FF_writer @ FF_close 1 # replicate 3 FF_reader))
      = Some (FW_idle, FR_idle, [7], [[]])"
    by code_simp
  then obtain s where s: "fifo_run (\<lambda>c. c \<noteq> 0) (fifo_init [0]) es = Some s" "ff_writer s = FW_idle" "ff_reader s = FR_idle"
    "ff_sent s = [7]" "ff_returned s = [[]]"
    by (auto simp: es_def)
  with fifo_run_exec [OF s(1)] show ?thesis by blast
qed

text \<open>When the write position passes 2 GiB its lane turns negative. A writer that then finds unread bytes computes
  more free space than the ring has, and goes on to overwrite them.\<close>

theorem position_wrap_breaks_flow_control:
  assumes "G < 2 ^ 31" "2 ^ 31 \<le> S" "S \<le> G + cap" "S < 2 ^ 32" "ring_cap r = cap"
    and "rg_write r = store (int S)" "rg_read r = store (int G)"
  shows "snd (writer_access (FW_both src off (load (rg_write r)) (load (rg_read r))) r)
    = FW_copy src off (int S - 2 ^ 32) (min (2 ^ 32 + cap - (S - G)) (length src - off)) 0
    \<and> cap < 2 ^ 32 + cap - (S - G)"
proof -
  have g: "load (store (int G)) = int G" using assms(1) by (simp add: load_store)
  have "store (int S) = store (int S - 2 ^ 32)" by (simp add: store_def)
  then have s: "load (store (int S)) = int S - 2 ^ 32" using assms(2,4) by (simp add: load_store)
  define free where "free = 2 ^ 32 + cap - (S - G)"
  have f: "int cap - (int S - 2 ^ 32 - int G) = int free" "cap < free" "free \<noteq> 0"
    using assms(1-4) by (simp_all add: free_def)
  have "snd (writer_access (FW_both src off (int S - 2 ^ 32) (int G)) r) = FW_copy src off (int S - 2 ^ 32) (min free (length src - off)) 0"
    unfolding writer_access.simps Let_def assms(5) f(1) using f(3) by simp
  with f(2) assms(6,7) g s show ?thesis by (simp add: free_def)
qed

theorem position_wrap_breaks_flow_control_witness:
  "snd (writer_access (FW_both [1, 2, 3, 4, 5] 0 (load (store (2 ^ 31 + 1))) (load (store (2 ^ 31 - 2))))
      \<lparr>rg_write = store (2 ^ 31 + 1), rg_read = store (2 ^ 31 - 2), rg_closed = 0, rg_data = [0, 0, 0, 0]\<rparr>)
    = FW_copy [1, 2, 3, 4, 5] 0 (1 - 2 ^ 31) 5 0"
  using position_wrap_breaks_flow_control [of "2 ^ 31 - 2" "2 ^ 31 + 1" 4
      "\<lparr>rg_write = store (2 ^ 31 + 1), rg_read = store (2 ^ 31 - 2), rg_closed = 0, rg_data = [0, 0, 0, 0]\<rparr>"
      "[1, 2, 3, 4, 5]" 0]
  by simp

end
