(* ===== verification/Hb_S3.thy ===== *)
theory Hb_S3
  imports Hb_Types
begin

text \<open>
  \<open>utils/s3_helper.ts\<close>: URLs of S3 objects and the signature (AWS Signature Version 4) of the requests for them.

  The package \<open>js-sha256\<close> is the record \<open>sha\<close> and the parsing of an endpoint by \<open>URL\<close> is the record \<open>url_parser\<close>,
  both parameters. \<open>now\<close> and \<open>now'\<close> are what the two calls of \<open>new Date().toISOString()\<close> return.
\<close>

record sha =
  sha256 :: "string \<Rightarrow> string"
  sha256_hex :: "byte list \<Rightarrow> string"
  hmac_bytes :: "byte list \<Rightarrow> string \<Rightarrow> byte list"
  hmac_hex :: "byte list \<Rightarrow> string \<Rightarrow> string"

record url_parser =
  url_host :: "string \<Rightarrow> string res"
  url_pathname :: "string \<Rightarrow> string res"

record S3Params =
  s3_url :: string
  s3_query :: string
  s3_host :: string
  s3_region :: string
  s3_service :: string
  s3_method :: string
  s3_accessKeyId :: string
  s3_secretAccessKey :: string
  s3_sessionToken :: string
  s3_dateNow :: string
  s3_datetimeNow :: string

section \<open>URLs\<close>

abbreviation slash :: char where "slash \<equiv> CHR ''/''"

text \<open>\<open>url.indexOf('/', 5)\<close> splits the rest of the URL at its first slash, which stays with the key.\<close>

definition parseS3Url :: "string \<Rightarrow> (string \<times> string) res" where
  "parseS3Url url =
     (if \<not> starts_with ''s3://'' url then Inl (Error ''URL needs to start with s3://'')
      else let rest = drop 5 url in
        if slash \<notin> set rest then Inl (Error (''URL needs to contain a '' @ [CHR 0x27, slash, CHR 0x27] @ '' after the host''))
        else let bucket = takeWhile (\<lambda>c. c \<noteq> slash) rest; key = dropWhile (\<lambda>c. c \<noteq> slash) rest in
          if bucket = [] then Inl (Error ''URL needs to contain a bucket name'')
          else if key = [] then Inl (Error ''URL needs to contain key'')
          else Inr (bucket, key))"

definition isPathStyleAccess :: "S3Config option \<Rightarrow> bool" where
  "isPathStyleAccess config = (case config of None \<Rightarrow> False | Some c \<Rightarrow>
     (case endpoint c of None \<Rightarrow> False | Some ep \<Rightarrow> starts_with ''http'' ep))"

definition endpoint_of :: "S3Config option \<Rightarrow> string option" where
  "endpoint_of config = (case config of None \<Rightarrow> None | Some c \<Rightarrow> endpoint c)"

definition getHTTPHost :: "url_parser \<Rightarrow> S3Config option \<Rightarrow> string \<Rightarrow> string res" where
  "getHTTPHost U config bucket =
     (if isPathStyleAccess config then url_host U (the (endpoint_of config))
      else (case endpoint_of config of
              Some ep \<Rightarrow> if ep \<noteq> [] then Inr (bucket @ ''.'' @ ep) else Inr (bucket @ ''.s3.amazonaws.com'')
            | None \<Rightarrow> Inr (bucket @ ''.s3.amazonaws.com'')))"

definition getHTTPUrl :: "url_parser \<Rightarrow> S3Config option \<Rightarrow> string \<Rightarrow> string res" where
  "getHTTPUrl U config url = (case parseS3Url url of
     Inl e \<Rightarrow> Inl e
   | Inr (bucket, key) \<Rightarrow>
       if isPathStyleAccess config then Inr (the (endpoint_of config) @ ''/'' @ bucket @ key)
       else map_sum id (\<lambda>host. ''https://'' @ host @ key) (getHTTPHost U config bucket))"

section \<open>Dates\<close>

definition without :: "char \<Rightarrow> string \<Rightarrow> string" where
  "without c s = filter (\<lambda>x. x \<noteq> c) s"

definition dateNow_of :: "string \<Rightarrow> string" where
  "dateNow_of now = hd (split_on (CHR ''T'') (without (CHR ''-'') now))"

definition datetimeNow_of :: "string \<Rightarrow> string" where
  "datetimeNow_of now = hd (split_on (CHR ''.'') (without (CHR '':'') (without (CHR ''-'') now))) @ ''Z''"

section \<open>Parameters of a request\<close>

definition or_empty :: "(S3Config \<Rightarrow> string option) \<Rightarrow> S3Config option \<Rightarrow> string" where
  "or_empty f config = (case config of None \<Rightarrow> [] | Some c \<Rightarrow> (case f c of None \<Rightarrow> [] | Some s \<Rightarrow> s))"

definition endpoint_path :: "url_parser \<Rightarrow> S3Config option \<Rightarrow> string res" where
  "endpoint_path U config = (case endpoint_of config of
     None \<Rightarrow> Inr []
   | Some ep \<Rightarrow> if ep = [] then Inr [] else map_sum id (\<lambda>p. if p \<noteq> ''/'' then p else []) (url_pathname U ep))"

definition getS3Params :: "url_parser \<Rightarrow> string \<Rightarrow> string \<Rightarrow> S3Config option \<Rightarrow> string \<Rightarrow> string \<Rightarrow> S3Params res" where
  "getS3Params U now now' config url method = (case parseS3Url url of
     Inl e \<Rightarrow> Inl e
   | Inr (bucket, urlPath) \<Rightarrow>
       (case (if isPathStyleAccess config
              then map_sum id (\<lambda>endpointPath. endpointPath @ ''/'' @ bucket @ urlPath) (endpoint_path U config)
              else Inr urlPath) of
          Inl e \<Rightarrow> Inl e
        | Inr key \<Rightarrow>
            map_sum id (\<lambda>host. \<lparr>s3_url = key, s3_query = [], s3_host = host, s3_region = or_empty region config,
              s3_service = ''s3'', s3_method = method, s3_accessKeyId = or_empty accessKeyId config,
              s3_secretAccessKey = or_empty secretAccessKey config, s3_sessionToken = or_empty sessionToken config,
              s3_dateNow = dateNow_of now, s3_datetimeNow = datetimeNow_of now'\<rparr>)
              (getHTTPHost U config bucket)))"

section \<open>Percent encoding\<close>

text \<open>The code units of a string, which is held as its UTF-8 bytes.\<close>

fun code_units :: "nat list \<Rightarrow> nat list" where
  "code_units [] = []"
| "code_units (a # bs) =
     (if a < 0x80 then a # code_units bs
      else if a < 0xE0
      then (case bs of b # r \<Rightarrow> ((a mod 32) * 64 + b mod 64) # code_units r | _ \<Rightarrow> [])
      else if a < 0xF0
      then (case bs of b # c # r \<Rightarrow> ((a mod 16) * 4096 + (b mod 64) * 64 + c mod 64) # code_units r | _ \<Rightarrow> [])
      else (case bs of
          b # c # d # r \<Rightarrow>
            (let u = (a mod 8) * 262144 + (b mod 64) * 4096 + (c mod 64) * 64 + d mod 64 - 65536
             in (0xD800 + u div 1024) # (0xDC00 + u mod 1024) # code_units r)
        | _ \<Rightarrow> []))"

definition unreserved :: "nat \<Rightarrow> bool" where
  "unreserved ch \<longleftrightarrow> (65 \<le> ch \<and> ch \<le> 90) \<or> (97 \<le> ch \<and> ch \<le> 122) \<or> (48 \<le> ch \<and> ch \<le> 57)
     \<or> ch = 95 \<or> ch = 45 \<or> ch = 126 \<or> ch = 46"

text \<open>\<open>hexDigit[i]\<close>; past the end it is \<open>undefined\<close>, which \<open>+=\<close> appends as a word.\<close>

definition hexDigit :: "nat \<Rightarrow> string" where
  "hexDigit i = (if i < 16 then [''0123456789ABCDEF'' ! i] else ''undefined'')"

definition encode_unit :: "bool \<Rightarrow> nat \<Rightarrow> string" where
  "encode_unit encode_slash ch =
     (if unreserved ch then [char_of ch]
      else if ch = 47 then (if encode_slash then ''%2F'' else ''/'')
      else ''%'' @ hexDigit (ch div 16) @ hexDigit (ch mod 16))"

definition uriEncode_units :: "bool \<Rightarrow> nat list \<Rightarrow> string" where
  "uriEncode_units encode_slash input = concat (map (encode_unit encode_slash) input)"

definition uriEncode :: "string \<Rightarrow> string" where
  "uriEncode s = uriEncode_units False (code_units (map of_char s))"

section \<open>The signature\<close>

definition EMPTY_SHA256 :: string where
  "EMPTY_SHA256 = ''e3b0c44298fc1c149afbf4c8996fb92427ae41e4649b934ca495991b7852b855''"

abbreviation nl :: string where "nl \<equiv> [CHR 0x0A]"

definition signed_headers :: "string option \<Rightarrow> string \<Rightarrow> string" where
  "signed_headers contentType token =
     (case contentType of None \<Rightarrow> [] | Some c \<Rightarrow> if c \<noteq> [] then ''content-type;'' else [])
     @ ''host;x-amz-content-sha256;x-amz-date'' @ (if token \<noteq> [] then '';x-amz-security-token'' else [])"

definition canonical_request :: "S3Params \<Rightarrow> string option \<Rightarrow> string \<Rightarrow> string" where
  "canonical_request ps contentType payloadHash =
     s3_method ps @ nl @ uriEncode (s3_url ps) @ nl @ s3_query ps
     @ (case contentType of None \<Rightarrow> [] | Some c \<Rightarrow> if c \<noteq> [] then nl @ ''content-type:'' @ c else [])
     @ nl @ ''host:'' @ s3_host ps @ nl @ ''x-amz-content-sha256:'' @ payloadHash @ nl @ ''x-amz-date:'' @ s3_datetimeNow ps
     @ (if s3_sessionToken ps \<noteq> [] then nl @ ''x-amz-security-token:'' @ s3_sessionToken ps else [])
     @ nl @ nl @ signed_headers contentType (s3_sessionToken ps) @ nl @ payloadHash"

definition credential_scope :: "S3Params \<Rightarrow> string" where
  "credential_scope ps = s3_dateNow ps @ ''/'' @ s3_region ps @ ''/'' @ s3_service ps @ ''/aws4_request''"

definition string_to_sign :: "sha \<Rightarrow> S3Params \<Rightarrow> string \<Rightarrow> string" where
  "string_to_sign H ps request =
     ''AWS4-HMAC-SHA256'' @ nl @ s3_datetimeNow ps @ nl @ credential_scope ps @ nl @ sha256 H request"

definition signing_key :: "sha \<Rightarrow> S3Params \<Rightarrow> byte list" where
  "signing_key H ps =
     (let kDate = hmac_bytes H (text_encode (''AWS4'' @ s3_secretAccessKey ps)) (s3_dateNow ps);
          kRegion = hmac_bytes H kDate (s3_region ps); kService = hmac_bytes H kRegion (s3_service ps)
      in hmac_bytes H kService ''aws4_request'')"

definition createS3Headers :: "sha \<Rightarrow> S3Params \<Rightarrow> string option \<Rightarrow> string option \<Rightarrow> (string, string) jsmap" where
  "createS3Headers H ps contentType contentHash =
     (let payloadHash = (case contentHash of None \<Rightarrow> EMPTY_SHA256 | Some h \<Rightarrow> h);
          res = jm_set ''x-amz-date'' (s3_datetimeNow ps) [];
          res = jm_set ''x-amz-content-sha256'' payloadHash res;
          res = (if s3_sessionToken ps \<noteq> [] then jm_set ''x-amz-security-token'' (s3_sessionToken ps) res else res);
          signature = hmac_hex H (signing_key H ps) (string_to_sign H ps (canonical_request ps contentType payloadHash))
      in jm_set ''Authorization''
           (''AWS4-HMAC-SHA256 Credential='' @ s3_accessKeyId ps @ ''/'' @ credential_scope ps @ '', SignedHeaders=''
            @ signed_headers contentType (s3_sessionToken ps) @ '', Signature='' @ signature) res)"

definition createS3HeadersFromS3Config ::
  "sha \<Rightarrow> url_parser \<Rightarrow> string \<Rightarrow> string \<Rightarrow> S3Config option \<Rightarrow> string \<Rightarrow> string \<Rightarrow> string option \<Rightarrow> byte list option
     \<Rightarrow> (string, string) jsmap res" where
  "createS3HeadersFromS3Config H U now now' config url method contentType payload =
     map_sum id (\<lambda>ps. createS3Headers H ps contentType (map_option (sha256_hex H) payload)) (getS3Params U now now' config url method)"

text \<open>The headers that \<open>addS3Headers\<close> sets on a request: none without credentials.\<close>

definition addS3Headers ::
  "sha \<Rightarrow> url_parser \<Rightarrow> string \<Rightarrow> string \<Rightarrow> S3Config option \<Rightarrow> string \<Rightarrow> string \<Rightarrow> string option \<Rightarrow> byte list option
     \<Rightarrow> (string \<times> string) list res" where
  "addS3Headers H U now now' config url method contentType payload =
     (if or_empty accessKeyId config \<noteq> [] \<or> or_empty sessionToken config \<noteq> []
      then map_sum id (\<lambda>headers. headers
             @ (case contentType of None \<Rightarrow> [] | Some c \<Rightarrow> if c \<noteq> [] then [(''content-type'', c)] else []))
             (createS3HeadersFromS3Config H U now now' config url method contentType payload)
      else Inr [])"

section \<open>Properties\<close>

text \<open>An S3 URL is taken apart into a bucket and a key exactly when it is \<open>s3://\<close>, a non-empty bucket without a
  slash, and a key that begins with one; and the parts put together are the URL.\<close>

theorem parseS3Url_iff:
  "parseS3Url url = Inr (bucket, key) \<longleftrightarrow>
     url = ''s3://'' @ bucket @ key \<and> bucket \<noteq> [] \<and> slash \<notin> set bucket \<and> key \<noteq> [] \<and> hd key = slash"
proof
  assume p: "parseS3Url url = Inr (bucket, key)"
  then have s: "starts_with ''s3://'' url" by (auto simp: parseS3Url_def split: if_splits)
  then obtain rest where r: "url = ''s3://'' @ rest" by (auto simp: starts_with_iff)
  with p have k: "slash \<in> set rest" "bucket = takeWhile (\<lambda>c. c \<noteq> slash) rest" "key = dropWhile (\<lambda>c. c \<noteq> slash) rest"
    "bucket \<noteq> []" "key \<noteq> []"
    by (auto simp: parseS3Url_def Let_def split: if_splits)
  have "slash \<notin> set bucket" unfolding k(2) using set_takeWhileD by fastforce
  moreover have "hd key = slash" using k(5) hd_dropWhile [of "\<lambda>c. c \<noteq> slash" rest] by (simp add: k(3))
  moreover have "rest = bucket @ key" by (simp add: k(2,3))
  ultimately show "url = ''s3://'' @ bucket @ key \<and> bucket \<noteq> [] \<and> slash \<notin> set bucket \<and> key \<noteq> [] \<and> hd key = slash"
    using r k(4,5) by simp
next
  assume h: "url = ''s3://'' @ bucket @ key \<and> bucket \<noteq> [] \<and> slash \<notin> set bucket \<and> key \<noteq> [] \<and> hd key = slash"
  then obtain k where k: "key = slash # k" by (cases key) auto
  have b: "\<And>c. c \<in> set bucket \<Longrightarrow> c \<noteq> slash" using h by auto
  have "takeWhile (\<lambda>c. c \<noteq> slash) (bucket @ slash # k) = bucket @ takeWhile (\<lambda>c. c \<noteq> slash) (slash # k)"
    by (rule takeWhile_append2) (simp add: b)
  moreover have "dropWhile (\<lambda>c. c \<noteq> slash) (bucket @ slash # k) = dropWhile (\<lambda>c. c \<noteq> slash) (slash # k)"
    by (rule dropWhile_append2) (simp add: b)
  ultimately have "takeWhile (\<lambda>c. c \<noteq> slash) (bucket @ slash # k) = bucket" "dropWhile (\<lambda>c. c \<noteq> slash) (bucket @ slash # k) = slash # k"
    by simp_all
  with h k show "parseS3Url url = Inr (bucket, key)" by (simp add: parseS3Url_def Let_def)
qed

text \<open>The decoder that a server applies.\<close>

definition hex_digit_value :: "char \<Rightarrow> nat" where
  "hex_digit_value c = (let n = of_char c in if n \<le> (57 :: nat) then n - 48 else n - 55)"

fun percent_decode :: "string \<Rightarrow> nat list" where
  "percent_decode [] = []"
| "percent_decode (c # s) =
     (if c = CHR ''%''
      then (case s of a # b # r \<Rightarrow> (hex_digit_value a * 16 + hex_digit_value b) # percent_decode r | _ \<Rightarrow> [])
      else of_char c # percent_decode s)"

lemma hexDigit_value: "i < 16 \<Longrightarrow> \<exists>c. hexDigit i = [c] \<and> hex_digit_value c = i"
proof -
  have "\<forall>i \<in> set [0..<16]. \<exists>c. hexDigit i = [c] \<and> hex_digit_value c = i"
    by (simp add: upt_rec hexDigit_def hex_digit_value_def)
  then show "i < 16 \<Longrightarrow> \<exists>c. hexDigit i = [c] \<and> hex_digit_value c = i" by simp
qed

lemma percent_decode_unit:
  "u < 256 \<Longrightarrow> percent_decode (encode_unit encode_slash u @ s) = u # percent_decode s"
proof -
  assume u: "u < 256"
  show ?thesis
  proof (cases "unreserved u \<or> u = 47")
    case True
    have c: "of_char (char_of u :: char) = u" using u by simp
    have "char_of u \<noteq> CHR ''%''" if "unreserved u"
    proof
      assume "char_of u = CHR ''%''"
      then have "of_char (char_of u :: char) = (37 :: nat)" by simp
      with c that show False by (simp add: unreserved_def)
    qed
    with True c show ?thesis by (auto simp: encode_unit_def hex_digit_value_def unreserved_def)
  next
    case False
    have "u div 16 < 16" using u by simp
    then obtain a where a: "hexDigit (u div 16) = [a]" "hex_digit_value a = u div 16" using hexDigit_value by blast
    obtain b where b: "hexDigit (u mod 16) = [b]" "hex_digit_value b = u mod 16" using hexDigit_value [of "u mod 16"] mod_less_divisor [of 16 u] by auto
    have "encode_unit encode_slash u = [CHR ''%'', a, b]" using False a(1) b(1) by (simp add: encode_unit_def)
    with a(2) b(2) show ?thesis by simp
  qed
qed

lemma percent_decode_wide_unit:
  assumes "256 \<le> u"
  shows "length (percent_decode (encode_unit encode_slash u @ s)) = 9 + length (percent_decode s)"
proof -
  have "\<not> unreserved u" "u \<noteq> 47" "\<not> u div 16 < 16" using assms by (auto simp: unreserved_def)
  moreover obtain b where b: "hexDigit (u mod 16) = [b]" "hex_digit_value b = u mod 16"
    using hexDigit_value [of "u mod 16"] mod_less_divisor [of 16 u] by auto
  moreover have "b \<noteq> CHR ''%''"
  proof
    assume "b = CHR ''%''"
    moreover have "\<forall>i \<in> set [0..<16]. hexDigit i \<noteq> ''%''" by (simp add: upt_rec hexDigit_def)
    ultimately show False using b(1) mod_less_divisor [of 16 u] by auto
  qed
  ultimately show ?thesis by (simp add: encode_unit_def hexDigit_def [of "u div 16"])
qed

lemma percent_decode_length: "length us \<le> length (percent_decode (uriEncode_units encode_slash us))"
proof (induction us)
  case (Cons u us)
  then show ?case
    by (cases "u < 256") (simp_all add: uriEncode_units_def percent_decode_unit percent_decode_wide_unit)
qed (simp add: uriEncode_units_def)

text \<open>A server that decodes the percent encoding gets the text back exactly when every code unit of it fits a byte,
  whether slashes are encoded or not: the encoder works on UTF-16 code units, and a unit beyond Latin-1 indexes the
  digits out of range.\<close>

theorem uriEncode_roundtrip:
  "percent_decode (uriEncode_units encode_slash us) = us \<longleftrightarrow> list_all (\<lambda>u. u < 256) us"
proof (induction us)
  case (Cons u us)
  show ?case
  proof (cases "u < 256")
    case True
    with Cons show ?thesis by (simp add: uriEncode_units_def percent_decode_unit)
  next
    case False
    then have "length (u # us) < length (percent_decode (uriEncode_units encode_slash (u # us)))"
      using percent_decode_length [of us encode_slash] by (simp add: uriEncode_units_def percent_decode_wide_unit)
    then have "percent_decode (uriEncode_units encode_slash (u # us)) \<noteq> u # us" by (metis less_irrefl)
    with False show ?thesis by simp
  qed
qed (simp add: uriEncode_units_def)


text \<open>An endpoint with a path, and a parser that knows it.\<close>

definition minio :: S3Config where
  "minio = \<lparr>region = Some ''eu'', endpoint = Some ''http://h:9000/s'', accessKeyId = Some ''AK'',
     secretAccessKey = Some ''SK'', sessionToken = None\<rparr>"

definition minio_urls :: url_parser where
  "minio_urls = \<lparr>url_host = (\<lambda>u. if starts_with ''http://h:9000'' u then Inr ''h:9000'' else Inl (TypeError ''Invalid URL'')),
     url_pathname = (\<lambda>u. if starts_with ''http://h:9000'' u then Inr (if length u = 13 then ''/'' else drop 13 u)
                         else Inl (TypeError ''Invalid URL''))\<rparr>"

lemma minio_params:
  "getS3Params minio_urls ''2024-05-06T07:08:09.123Z'' ''2024-05-06T07:08:09.123Z'' (Some minio) ''s3://b/k'' ''GET'' =
     Inr \<lparr>s3_url = ''/s/b/k'', s3_query = [], s3_host = ''h:9000'', s3_region = ''eu'', s3_service = ''s3'', s3_method = ''GET'',
       s3_accessKeyId = ''AK'', s3_secretAccessKey = ''SK'', s3_sessionToken = [], s3_dateNow = ''20240506'',
       s3_datetimeNow = ''20240506T070809Z''\<rparr>"
  by code_simp


text \<open>The names of the headers that are sent are those the signature covers, in the order the canonical request needs.\<close>

lemma signed_headers_sorted:
  "map fst (createS3Headers H ps contentType contentHash) =
     [''x-amz-date'', ''x-amz-content-sha256''] @ (if s3_sessionToken ps \<noteq> [] then [''x-amz-security-token''] else [])
     @ [''Authorization'']"
  by (simp add: createS3Headers_def Let_def)

lemma no_credentials_no_headers:
  assumes "or_empty accessKeyId config = []" "or_empty sessionToken config = []"
  shows "addS3Headers H U now now' config url method contentType payload = Inr []"
  using assms by (simp add: addS3Headers_def)

end
