(* ===== verification/Hb_Web.thy ===== *)
theory Hb_Web
  imports Hb_Bindings Hb_S3
begin

text \<open>
  What the browser's file access uses of the web platform: synchronous HTTP requests (\<open>XMLHttpRequest\<close>), blobs, and the
  origin private file system with its synchronous access handles.

  The network with its servers and the clock is the state \<open>'h\<close> of the record \<open>web\<close>, a parameter. The origin private
  file system is a tree of directories and files, addressed by the names on the way from the root; a file has at most
  one open access handle.
\<close>

section \<open>HTTP\<close>

record xhr_request =
  xr_method :: string
  xr_url :: string
  xr_headers :: "(string \<times> string) list"
  xr_body :: "byte list option"

record xhr_response =
  xr_status :: nat
  xr_statusText :: string
  xr_response :: "byte list"
  xr_contentLength :: "string option"
  xr_lastModified :: "string option"

text \<open>
  \<open>web_clock\<close> are two successive readings of \<open>new Date().toISOString()\<close>, \<open>web_seconds\<close> is \<open>new Date().getTime() / 1000\<close>,
  \<open>web_date s\<close> is \<open>new Date(s).getTime() / 1000\<close> with \<^term>\<open>None\<close> for \<open>NaN\<close>, \<open>web_nan\<close> the content of a cell of
  the heap that holds \<open>NaN\<close>, \<open>web_name\<close> the global \<open>name\<close> of the worker, and \<open>web_blob\<close> the bytes of a blob.
\<close>

record 'h web =
  web_send :: "xhr_request \<Rightarrow> ('h, xhr_response) jsm"
  web_clock :: "'h \<Rightarrow> string \<times> string"
  web_seconds :: "'h \<Rightarrow> int"
  web_date :: "string \<Rightarrow> int option"
  web_nan :: int
  web_name :: string
  web_blob :: "nat \<Rightarrow> byte list"
  web_storage :: "unit res"
  web_sha :: sha
  web_urls :: url_parser

text \<open>Unary plus on the text of a header: a \<open>Content-Length\<close> is a sequence of digits.\<close>

definition to_number :: "string \<Rightarrow> int option" where
  "to_number s = (if s = [] then Some 0 else if list_all is_digit s then Some (int (digits_value s)) else None)"

definition cell :: "'h web \<Rightarrow> int option \<Rightarrow> int" where
  "cell X n = (case n of Some i \<Rightarrow> i | None \<Rightarrow> web_nan X)"

definition num_eq :: "int option \<Rightarrow> int option \<Rightarrow> bool" where
  "num_eq a b \<longleftrightarrow> a \<noteq> None \<and> a = b"

definition num_gt :: "int option \<Rightarrow> int \<Rightarrow> bool" where
  "num_gt a n \<longleftrightarrow> (case a of None \<Rightarrow> False | Some i \<Rightarrow> i > n)"

text \<open>\<open>e.toString()\<close>.\<close>

definition error_text :: "js_error \<Rightarrow> string" where
  "error_text e = (if err_message e = [] then err_name e else err_name e @ '': '' @ err_message e)"

lemma to_number_show [simp]: "to_number (show_nat n) = Some (int n)"
  using show_nat_digits [of _ n] show_nat_value [of n] by (auto simp: to_number_def list_all_iff)

section \<open>The origin private file system\<close>

datatype opfs_node = OP_dir | OP_file "byte list"

record opfs =
  op_nodes :: "(string list, opfs_node) jsmap"
  op_open :: "(nat, string list) jsmap"
  op_next :: nat

definition empty_opfs :: opfs where
  "empty_opfs = \<lparr>op_nodes = [], op_open = [], op_next = 0\<rparr>"

definition valid_name :: "string \<Rightarrow> bool" where
  "valid_name n \<longleftrightarrow> n \<noteq> [] \<and> n \<noteq> ''.'' \<and> n \<noteq> ''..'' \<and> CHR ''/'' \<notin> set n \<and> CHR 0x5C \<notin> set n"

abbreviation invalid_name :: js_error where
  "invalid_name \<equiv> TypeError ''Name is not allowed.''"

definition getDirectoryHandle :: "string list \<Rightarrow> string \<Rightarrow> bool \<Rightarrow> (opfs, string list) jsm" where
  "getDirectoryHandle dir name create fs =
     (if \<not> valid_name name then (Inl invalid_name, fs)
      else (case jm_get (op_nodes fs) (dir @ [name]) of
        Some OP_dir \<Rightarrow> (Inr (dir @ [name]), fs)
      | Some (OP_file _) \<Rightarrow> (Inl (JsError ''TypeMismatchError'' ''Not a directory.''), fs)
      | None \<Rightarrow>
          if create then (Inr (dir @ [name]), fs\<lparr>op_nodes := jm_set (dir @ [name]) OP_dir (op_nodes fs)\<rparr>)
          else (Inl (JsError ''NotFoundError'' ''No such directory.''), fs)))"

definition getFileHandle :: "string list \<Rightarrow> string \<Rightarrow> bool \<Rightarrow> (opfs, string list) jsm" where
  "getFileHandle dir name create fs =
     (if \<not> valid_name name then (Inl invalid_name, fs)
      else (case jm_get (op_nodes fs) (dir @ [name]) of
        Some (OP_file _) \<Rightarrow> (Inr (dir @ [name]), fs)
      | Some OP_dir \<Rightarrow> (Inl (JsError ''TypeMismatchError'' ''Not a file.''), fs)
      | None \<Rightarrow>
          if create then (Inr (dir @ [name]), fs\<lparr>op_nodes := jm_set (dir @ [name]) (OP_file []) (op_nodes fs)\<rparr>)
          else (Inl (JsError ''NotFoundError'' ''No such file.''), fs)))"

text \<open>An access handle locks its file.\<close>

definition createSyncAccessHandle :: "string list \<Rightarrow> (opfs, nat) jsm" where
  "createSyncAccessHandle p fs = (case jm_get (op_nodes fs) p of
     Some (OP_file _) \<Rightarrow>
       if p \<in> set (jm_values (op_open fs))
       then (Inl (JsError ''NoModificationAllowedError'' ''Access Handles cannot be created.''), fs)
       else (Inr (op_next fs), fs\<lparr>op_open := jm_set (op_next fs) p (op_open fs), op_next := Suc (op_next fs)\<rparr>)
   | _ \<Rightarrow> (Inl (JsError ''NotFoundError'' ''No such file.''), fs))"

definition sah_path :: "opfs \<Rightarrow> nat \<Rightarrow> string list option" where
  "sah_path fs h = jm_get (op_open fs) h"

definition file_bytes :: "opfs \<Rightarrow> string list \<Rightarrow> byte list" where
  "file_bytes fs p = (case jm_get (op_nodes fs) p of Some (OP_file bs) \<Rightarrow> bs | _ \<Rightarrow> [])"

text \<open>Every operation but \<open>close\<close> of a closed access handle throws.\<close>

definition with_open :: "nat \<Rightarrow> (string list \<Rightarrow> (opfs, 'a) jsm) \<Rightarrow> (opfs, 'a) jsm" where
  "with_open h f fs = (case sah_path fs h of
     None \<Rightarrow> (Inl (JsError ''InvalidStateError'' ''The access handle was already closed.''), fs)
   | Some p \<Rightarrow> f p fs)"

text \<open>The bytes of a file with the gap up to a length filled with zeros, or cut at it.\<close>

definition resize :: "nat \<Rightarrow> byte list \<Rightarrow> byte list" where
  "resize n bs = take n (bs @ replicate (n - length bs) 0)"

definition sah_read :: "nat \<Rightarrow> nat \<Rightarrow> nat \<Rightarrow> (opfs, byte list) jsm" where
  "sah_read h len at = with_open h (\<lambda>p fs. (Inr (take len (drop at (file_bytes fs p))), fs))"

definition sah_write :: "nat \<Rightarrow> byte list \<Rightarrow> nat \<Rightarrow> (opfs, nat) jsm" where
  "sah_write h bytes at = with_open h (\<lambda>p fs.
     (Inr (length bytes),
      fs\<lparr>op_nodes := jm_set p (OP_file (resize at (file_bytes fs p) @ bytes @ drop (at + length bytes) (file_bytes fs p)))
           (op_nodes fs)\<rparr>))"

definition sah_truncate :: "nat \<Rightarrow> nat \<Rightarrow> (opfs, unit) jsm" where
  "sah_truncate h n = with_open h (\<lambda>p fs. (Inr (), fs\<lparr>op_nodes := jm_set p (OP_file (resize n (file_bytes fs p))) (op_nodes fs)\<rparr>))"

definition sah_getSize :: "nat \<Rightarrow> (opfs, nat) jsm" where
  "sah_getSize h = with_open h (\<lambda>p fs. (Inr (length (file_bytes fs p)), fs))"

definition sah_flush :: "nat \<Rightarrow> (opfs, unit) jsm" where
  "sah_flush h = with_open h (\<lambda>p fs. (Inr (), fs))"

definition sah_close :: "nat \<Rightarrow> (opfs, unit) jsm" where
  "sah_close h fs = (Inr (), fs\<lparr>op_open := jm_delete h (op_open fs)\<rparr>)"

lemmas sah_defs = sah_read_def sah_write_def sah_truncate_def sah_getSize_def sah_flush_def sah_close_def with_open_def

lemma length_resize [simp]: "length (resize n bs) = n"
  by (simp add: resize_def)

lemma file_bytes_set [simp]:
  "file_bytes (fs\<lparr>op_nodes := jm_set p (OP_file bs) (op_nodes fs)\<rparr>) q = (if q = p then bs else file_bytes fs q)"
  by (simp add: file_bytes_def)

text \<open>What was written is read; what lies before and after is as it was.\<close>

lemma sah_read_written:
  assumes "sah_write h bytes at fs = (Inr n, fs')" "sah_path fs h = Some p"
  shows "n = length bytes \<and> sah_path fs' h = Some p
    \<and> sah_read h len at fs' = (Inr (take len (bytes @ drop (at + length bytes) (file_bytes fs p))), fs')"
  using assms by (auto simp: sah_defs sah_path_def)

text \<open>A file system in which every open handle names a file, no two the same, and handles are never given out twice.\<close>

definition opfs_ok :: "opfs \<Rightarrow> bool" where
  "opfs_ok fs \<longleftrightarrow> jm_wf (op_open fs) \<and> (\<forall>h \<in> set (jm_keys (op_open fs)). h < op_next fs)
     \<and> distinct (jm_values (op_open fs))
     \<and> (\<forall>p \<in> set (jm_values (op_open fs)). \<exists>bs. jm_get (op_nodes fs) p = Some (OP_file bs))"

end
