(* ===== verification/Hb_Runtime_Browser.thy ===== *)
theory Hb_Runtime_Browser
  imports Hb_Web
begin

text \<open>
  \<open>bindings/runtime_browser.ts\<close>: the file operations the engine calls in a browser, on blobs, on the origin private
  file system and over HTTP.

  The state is that of \<open>BROWSER_RUNTIME\<close> with the module, the network and the file system behind it. \<open>W\<close> is the module
  and \<open>X\<close> the web platform. Of a registered value, \<open>SyncAccessHandle h\<close> is an access handle and \<open>BlobHandle b\<close> a blob;
  any other has none of the methods used here. Warnings on the console are left out, and what an \<open>await\<close> waits for
  happens at once.
\<close>

section \<open>State\<close>

record ('e, 'h) browser =
  br_wasm :: 'e
  br_net :: 'h
  br_opfs :: opfs
  br_files :: "(string, file_handle) jsmap"
  br_fileInfoCache :: "(nat, DuckDBFileInfo) jsmap"
  br_globalFileInfo :: "DuckDBGlobalFileInfo option"
  br_preparedHandles :: "(string, file_handle) jsmap"
  br_opfsRoot :: bool
  br_posted :: "(nat \<times> bool \<times> int \<times> int) list"

definition BROWSER_RUNTIME :: "'e \<Rightarrow> 'h \<Rightarrow> opfs \<Rightarrow> ('e, 'h) browser" where
  "BROWSER_RUNTIME e h fs = \<lparr>br_wasm = e, br_net = h, br_opfs = fs, br_files = [], br_fileInfoCache = [],
     br_globalFileInfo = None, br_preparedHandles = [], br_opfsRoot = False, br_posted = []\<rparr>"

type_synonym ('e, 'h, 'a) br = "(('e, 'h) browser, 'a) jsm"

definition in_wasm :: "('e, 'a) jsm \<Rightarrow> ('e, 'h, 'a) br" where
  "in_wasm m s = (case m (br_wasm s) of (r, e) \<Rightarrow> (r, s\<lparr>br_wasm := e\<rparr>))"

definition in_net :: "('h, 'a) jsm \<Rightarrow> ('e, 'h, 'a) br" where
  "in_net m s = (case m (br_net s) of (r, h) \<Rightarrow> (r, s\<lparr>br_net := h\<rparr>))"

definition in_opfs :: "(opfs, 'a) jsm \<Rightarrow> ('e, 'h, 'a) br" where
  "in_opfs m s = (case m (br_opfs s) of (r, fs) \<Rightarrow> (r, s\<lparr>br_opfs := fs\<rparr>))"

definition fail_with :: "'e wasm \<Rightarrow> string \<Rightarrow> ('e, 'h, unit) br" where
  "fail_with W msg = in_wasm (failWith W msg)"

definition br_malloc :: "'e wasm \<Rightarrow> nat \<Rightarrow> ('e, 'h, nat) br" where
  "br_malloc W n = in_wasm (\<lambda>e. case w_malloc W n e of (p, e') \<Rightarrow> (Inr p, e'))"

text \<open>\<open>HEAPU8.set(src, ptr)\<close>.\<close>

definition heap_write :: "'e wasm \<Rightarrow> byte list \<Rightarrow> nat \<Rightarrow> ('e, 'h, unit) br" where
  "heap_write W src ptr = in_wasm (\<lambda>e.
     if ptr + length src \<le> length (w_HEAPU8 W e) then (Inr (), w_setHEAPU8 W ptr src e)
     else (Inl (RangeError ''offset is out of bounds''), e))"

section \<open>File infos\<close>

definition s3_config_of_json :: "json \<Rightarrow> S3Config option" where
  "s3_config_of_json j = (case j of JObj _ \<Rightarrow> Some \<lparr>region = json_string_opt (json_field ''region'' j),
       endpoint = json_string_opt (json_field ''endpoint'' j), accessKeyId = json_string_opt (json_field ''accessKeyId'' j),
       secretAccessKey = json_string_opt (json_field ''secretAccessKey'' j),
       sessionToken = json_string_opt (json_field ''sessionToken'' j)\<rparr>
     | _ \<Rightarrow> None)"

definition json_nat :: "json \<Rightarrow> nat" where
  "json_nat j = (case json_nat_opt j of Some n \<Rightarrow> n | None \<Rightarrow> 0)"

definition json_true :: "json \<Rightarrow> bool" where
  "json_true j \<longleftrightarrow> json_bool_opt j = Some True"

definition file_info_of_json :: "json \<Rightarrow> DuckDBFileInfo" where
  "file_info_of_json j = \<lparr>cacheEpoch = json_nat (json_field ''cacheEpoch'' j), fileId = json_nat (json_field ''fileId'' j),
     fileName = (case json_string_opt (json_field ''fileName'' j) of Some n \<Rightarrow> n | None \<Rightarrow> []),
     dataProtocol = protocol_of_number (json_nat (json_field ''dataProtocol'' j)),
     dataUrl = json_string_opt (json_field ''dataUrl'' j),
     reliableHeadRequests = json_true (json_field ''reliableHeadRequests'' j),
     allowFullHttpReads = json_true (json_field ''allowFullHttpReads'' j),
     forceFullHttpReads = json_true (json_field ''forceFullHttpReads'' j),
     s3Config = s3_config_of_json (json_field ''s3Config'' j)\<rparr>"

definition global_info_of_json :: "json \<Rightarrow> DuckDBGlobalFileInfo" where
  "global_info_of_json j = \<lparr>g_cacheEpoch = json_nat (json_field ''cacheEpoch'' j),
     g_reliableHeadRequests = json_true (json_field ''reliableHeadRequests'' j),
     g_allowFullHttpReads = json_true (json_field ''allowFullHttpReads'' j),
     g_forceFullHttpReads = json_true (json_field ''forceFullHttpReads'' j),
     g_s3Config = s3_config_of_json (json_field ''s3Config'' j)\<rparr>"

text \<open>A handle that was prepared becomes the handle of a file when the file is first asked for.\<close>

definition adopt_handle :: "string \<Rightarrow> ('e, 'h) browser \<Rightarrow> ('e, 'h) browser" where
  "adopt_handle name s = (case jm_get (br_preparedHandles s) name of
     Some h \<Rightarrow>
       if jm_has (br_files s) name then s
       else s\<lparr>br_files := jm_set name h (br_files s), br_preparedHandles := jm_delete name (br_preparedHandles s)\<rparr>
   | None \<Rightarrow> s)"

definition remember_file :: "nat \<Rightarrow> DuckDBFileInfo \<Rightarrow> ('e, 'h) browser \<Rightarrow> ('e, 'h) browser" where
  "remember_file fid file s = adopt_handle (fileName file) (s\<lparr>br_fileInfoCache := jm_set fid file (br_fileInfoCache s)\<rparr>)"

text \<open>The call and what follows, for the info that is cached.\<close>

definition ask_file_info :: "'e wasm \<Rightarrow> nat \<Rightarrow> DuckDBFileInfo option \<Rightarrow> ('e, 'h, DuckDBFileInfo option) br" where
  "ask_file_info W fid cached =
     js_bind (in_wasm (callSRet W ''duckdb_web_fs_get_file_info_by_id''
       [A_num (int fid), A_num (int (case cached of Some f \<Rightarrow> cacheEpoch f | None \<Rightarrow> 0))])) (\<lambda>(st, d, n).
     if st \<noteq> SUCCESS then js_ret None
     else if n = 0 then js_ret cached
     else js_bind (in_wasm (readString W d n)) (\<lambda>infoStr.
       js_bind (in_wasm (dropResponseBuffers W)) (\<lambda>_.
         case JSON_parse infoStr of
           Inl err \<Rightarrow> js_ret None
         | Inr info \<Rightarrow>
             if info = JNull then js_ret None
             else js_bind (js_modify (remember_file fid (file_info_of_json info)))
                    (\<lambda>_. js_ret (Some (file_info_of_json info))))))"

definition getFileInfo :: "'e wasm \<Rightarrow> nat \<Rightarrow> ('e, 'h, DuckDBFileInfo option) br" where
  "getFileInfo W fid = js_try (\<lambda>s. ask_file_info W fid (jm_get (br_fileInfoCache s) fid) s) (\<lambda>_. js_ret None)"

definition ask_global_info :: "'e wasm \<Rightarrow> DuckDBGlobalFileInfo option \<Rightarrow> ('e, 'h, DuckDBGlobalFileInfo option) br" where
  "ask_global_info W cached =
     js_bind (in_wasm (callSRet W ''duckdb_web_get_global_file_info''
       [A_num (int (case cached of Some g \<Rightarrow> g_cacheEpoch g | None \<Rightarrow> 0))])) (\<lambda>(st, d, n).
     if st \<noteq> SUCCESS then js_ret None
     else if n = 0 then js_ret cached
     else js_bind (in_wasm (readString W d n)) (\<lambda>infoStr.
       js_bind (in_wasm (dropResponseBuffers W)) (\<lambda>_.
         case JSON_parse infoStr of
           Inl err \<Rightarrow> js_throw err
         | Inr info \<Rightarrow>
             if info = JNull then js_ret None
             else js_bind (js_modify (\<lambda>s. s\<lparr>br_globalFileInfo := Some (global_info_of_json info)\<rparr>))
                    (\<lambda>_. js_ret (Some (global_info_of_json info))))))"

definition getGlobalFileInfo :: "'e wasm \<Rightarrow> ('e, 'h, DuckDBGlobalFileInfo option) br" where
  "getGlobalFileInfo W = js_try (\<lambda>s. ask_global_info W (br_globalFileInfo s) s) (\<lambda>_. js_ret None)"

section \<open>Preparing access handles\<close>

definition OPFS_PREFIX_LEN :: nat where "OPFS_PREFIX_LEN = length ''opfs://''"

definition is_path_sep :: "char \<Rightarrow> bool" where
  "is_path_sep c \<longleftrightarrow> c = CHR ''/'' \<or> c = CHR 0x5C"

fun split_path :: "string \<Rightarrow> string list" where
  "split_path [] = [[]]"
| "split_path (c # s) = (if is_path_sep c then [] # split_path s
     else (case split_path s of [] \<Rightarrow> [[c]] | p # ps \<Rightarrow> (c # p) # ps))"

definition assignOPFSRoot :: "'h web \<Rightarrow> ('e, 'h, unit) br" where
  "assignOPFSRoot X s = (if br_opfsRoot s then (Inr (), s)
     else (case web_storage X of Inl e \<Rightarrow> (Inl e, s) | Inr _ \<Rightarrow> (Inr (), s\<lparr>br_opfsRoot := True\<rparr>)))"

fun make_directories :: "string list \<Rightarrow> string list \<Rightarrow> ('e, 'h, string list) br" where
  "make_directories dir [] = js_ret dir"
| "make_directories dir (folder # folders) =
     js_bind (in_opfs (getDirectoryHandle dir folder True)) (\<lambda>dir. make_directories dir folders)"

definition file_of_path :: "string \<Rightarrow> ('e, 'h, string list \<times> string) br" where
  "file_of_path p =
     (let opfsPath = drop OPFS_PREFIX_LEN p in
      if list_ex is_path_sep opfsPath
      then let folders = split_path opfsPath; name = last folders in
        if name = [] then js_throw (Error (''Invalid path '' @ opfsPath @ ''. File Not Found.''))
        else js_bind (make_directories [] (butlast folders)) (\<lambda>dir. js_ret (dir, name))
      else js_ret ([], opfsPath))"

definition get_or_create_file :: "string list \<Rightarrow> string \<Rightarrow> ('e, 'h, string list) br" where
  "get_or_create_file dir name = js_try (in_opfs (getFileHandle dir name False))
     (\<lambda>e. if err_name e = ''NotFoundError'' then in_opfs (getFileHandle dir name True) else js_throw e)"

definition prepare :: "'h web \<Rightarrow> string \<Rightarrow> ('e, 'h, PreparedDBFileHandle) br" where
  "prepare X p s = (case jm_get (br_files s) p of
     Some h \<Rightarrow> (Inr \<lparr>ph_path = p, ph_handle = h, ph_fromCached = True\<rparr>, s)
   | None \<Rightarrow>
       js_bind (file_of_path p) (\<lambda>(dir, name).
       js_bind (get_or_create_file dir name) (\<lambda>file.
       js_try
         (js_bind (in_opfs (createSyncAccessHandle file)) (\<lambda>h.
          js_bind (js_modify (\<lambda>s. s\<lparr>br_preparedHandles := jm_set p (SyncAccessHandle h) (br_preparedHandles s)\<rparr>)) (\<lambda>_.
          js_ret \<lparr>ph_path = p, ph_handle = SyncAccessHandle h, ph_fromCached = False\<rparr>)))
         (\<lambda>e. js_throw (Error (err_message e @ '':'' @ web_name X))))) s)"

fun prepare_all :: "'h web \<Rightarrow> string list \<Rightarrow> ('e, 'h, PreparedDBFileHandle list) br" where
  "prepare_all X [] = js_ret []"
| "prepare_all X (p # ps) =
     js_bind (prepare X p) (\<lambda>r. js_bind (prepare_all X ps) (\<lambda>rs. js_ret (r # rs)))"

definition unsupported_protocol :: "string \<Rightarrow> DuckDBDataProtocol \<Rightarrow> string \<Rightarrow> js_error" where
  "unsupported_protocol what protocol names = Error (''Unsupported protocol '' @ show_nat (protocol_number protocol) @ '' for ''
     @ what @ '' '' @ names @ '' with protocol '' @ show_nat (protocol_number protocol))"

definition prepareFileHandles :: "'h web \<Rightarrow> string list \<Rightarrow> DuckDBDataProtocol \<Rightarrow> ('e, 'h, PreparedDBFileHandle list) br" where
  "prepareFileHandles X filePaths protocol =
     (if protocol = BROWSER_FSACCESS then js_bind (assignOPFSRoot X) (\<lambda>_. prepare_all X filePaths)
      else js_throw (unsupported_protocol ''paths'' protocol (join '','' filePaths)))"

definition prepareDBFileHandle :: "'h web \<Rightarrow> string \<Rightarrow> DuckDBDataProtocol \<Rightarrow> ('e, 'h, PreparedDBFileHandle list) br" where
  "prepareDBFileHandle X dbPath protocol =
     (if protocol = BROWSER_FSACCESS then prepareFileHandles X [dbPath, dbPath @ ''.wal''] protocol
      else js_throw (unsupported_protocol ''path'' protocol dbPath))"

section \<open>Platform\<close>

definition testPlatformFeature :: "bool \<Rightarrow> nat \<Rightarrow> bool" where
  "testPlatformFeature bigInt64Array feature = (if feature = 1 then bigInt64Array else False)"

definition getDefaultDataProtocol :: nat where
  "getDefaultDataProtocol = protocol_number BROWSER_FILEREADER"

section \<open>Requests\<close>

text \<open>
  A request for a URL: an \<open>s3://\<close> URL is translated and the request signed, \<open>signedAs\<close> being the method that the
  signature names.
\<close>

definition url_request ::
  "'h web \<Rightarrow> 'h \<Rightarrow> string \<Rightarrow> string \<Rightarrow> bool \<Rightarrow> S3Config option \<Rightarrow> string \<Rightarrow> string option \<Rightarrow> byte list option
     \<Rightarrow> (string \<times> string) list \<Rightarrow> xhr_request res" where
  "url_request X h meth signedAs s3 config url contentType payload extra =
     (if s3
      then (case getHTTPUrl (web_urls X) config url of
          Inl e \<Rightarrow> Inl e
        | Inr target \<Rightarrow> map_sum id (\<lambda>hs. \<lparr>xr_method = meth, xr_url = target, xr_headers = hs @ extra, xr_body = payload\<rparr>)
            (addS3Headers (web_sha X) (web_urls X) (fst (web_clock X h)) (snd (web_clock X h)) config url signedAs
              contentType payload))
      else Inr \<lparr>xr_method = meth, xr_url = url, xr_headers = extra, xr_body = payload\<rparr>)"

definition send_request :: "'h web \<Rightarrow> ('h \<Rightarrow> xhr_request res) \<Rightarrow> ('e, 'h, xhr_response) br" where
  "send_request X req s = (case req (br_net s) of Inl e \<Rightarrow> (Inl e, s) | Inr r \<Rightarrow> in_net (web_send X r) s)"

text \<open>A file without a URL has the property undefined: HTTP asks for that word, S3 throws.\<close>

definition file_request ::
  "'h web \<Rightarrow> string \<Rightarrow> DuckDBFileInfo \<Rightarrow> string option \<Rightarrow> byte list option \<Rightarrow> (string \<times> string) list
     \<Rightarrow> ('e, 'h, xhr_response) br" where
  "file_request X meth file contentType payload extra =
     (case dataUrl file of
        Some u \<Rightarrow> send_request X (\<lambda>h. url_request X h meth meth (dataProtocol file = S3) (s3Config file) u contentType payload extra)
      | None \<Rightarrow>
          if dataProtocol file = S3
          then js_throw (TypeError ''Cannot read properties of undefined (reading 'indexOf')'')
          else send_request X (\<lambda>h. url_request X h meth meth False None ''undefined'' contentType payload extra))"

definition range_header :: "string \<Rightarrow> (string \<times> string) list" where
  "range_header r = [(''Range'', ''bytes='' @ r)]"

section \<open>Opening a file\<close>

text \<open>The answer: size, address of a buffer, time of modification.\<close>

definition write_result :: "'e wasm \<Rightarrow> nat \<Rightarrow> int \<Rightarrow> int \<Rightarrow> int \<Rightarrow> ('e, 'h, nat) br" where
  "write_result W result bytes buffer mtime = in_wasm (\<lambda>e. (Inr result,
     w_setHEAPF64 W (drop_bit 3 result + 2) mtime
       (w_setHEAPF64 W (drop_bit 3 result + 1) buffer (w_setHEAPF64 W (drop_bit 3 result + 0) bytes e))))"

definition open_result :: "'e wasm \<Rightarrow> int \<Rightarrow> int \<Rightarrow> int \<Rightarrow> ('e, 'h, nat) br" where
  "open_result W bytes buffer mtime = js_bind (br_malloc W (3 * 8)) (\<lambda>result. write_result W result bytes buffer mtime)"

definition modification_time :: "'h web \<Rightarrow> xhr_response \<Rightarrow> int" where
  "modification_time X r = cell X (web_date X (case xr_lastModified r of Some t \<Rightarrow> t | None \<Rightarrow> []))"

definition full_buffer :: "'h web \<Rightarrow> 'e wasm \<Rightarrow> xhr_response \<Rightarrow> ('e, 'h, nat) br" where
  "full_buffer X W r = js_bind (br_malloc W (length (xr_response r))) (\<lambda>buffer.
     js_bind (heap_write W (xr_response r) buffer) (\<lambda>_.
     open_result W (int (length (xr_response r))) (int buffer) (modification_time X r)))"

definition opening_failed :: "DuckDBFileInfo \<Rightarrow> string \<Rightarrow> js_error" where
  "opening_failed file why = Error (''Opening file '' @ fileName file @ '' failed: '' @ why)"

definition open_http_write :: "'h web \<Rightarrow> 'e wasm \<Rightarrow> DuckDBFileInfo \<Rightarrow> flags \<Rightarrow> ('e, 'h, nat) br" where
  "open_http_write X W file fs = js_bind (file_request X ''HEAD'' file None None []) (\<lambda>xhr.
     if xr_status xhr \<noteq> 200 \<and> xr_status xhr \<noteq> 404
     then js_throw (opening_failed file (''Unexpected return status from server ('' @ show_nat (xr_status xhr) @ '')''))
     else if xr_status xhr = 404 \<and> \<not> (has_flag fs FILE_FLAGS_FILE_CREATE \<or> has_flag fs FILE_FLAGS_FILE_CREATE_NEW)
     then js_throw (opening_failed file
       ''Cannot write to non-existent file without FILE_FLAGS_FILE_CREATE or FILE_FLAGS_FILE_CREATE_NEW flag.'')
     else js_bind (br_malloc W 1) (\<lambda>buffer.
       js_bind (heap_write W [] buffer) (\<lambda>_ s. open_result W 1 (int buffer) (web_seconds X (br_net s)) s)))"

text \<open>What the first probe found: the file is open, or there is a content length and an error to report later.\<close>

datatype probe = Opened nat | Probed "string option" "js_error option"

definition probe_head :: "'h web \<Rightarrow> 'e wasm \<Rightarrow> DuckDBFileInfo \<Rightarrow> ('e, 'h, probe) br" where
  "probe_head X W file =
     (if \<not> forceFullHttpReads file \<and> (reliableHeadRequests file \<or> \<not> allowFullHttpReads file)
      then js_try
        (js_bind (file_request X ''HEAD'' file None None (range_header ''0-'')) (\<lambda>xhr.
          case xr_contentLength xhr of
            Some len \<Rightarrow>
              if xr_status xhr = 206
              then js_bind (open_result W (cell X (to_number len)) 0 (modification_time X xhr)) (\<lambda>p. js_ret (Opened p))
              else js_ret (Probed (Some len) None)
          | None \<Rightarrow> js_ret (Probed None None)))
        (\<lambda>e. js_ret (Probed None (Some e)))
      else js_ret (Probed None None))"

text \<open>\<open>contentLength?.split('/')[1]\<close>.\<close>

definition content_range :: "string option \<Rightarrow> string option" where
  "content_range len = (case len of None \<Rightarrow> None | Some s \<Rightarrow>
     (let parts = split_on (CHR ''/'') s in if 1 < length parts then Some (parts ! 1) else None))"

text \<open>The length by another \<open>HEAD\<close> request: the content length and what is presumed to be the length.\<close>

definition presumed_length ::
  "'h web \<Rightarrow> DuckDBFileInfo \<Rightarrow> string option \<Rightarrow> xhr_response \<Rightarrow> ('e, 'h, string option \<times> string option) br" where
  "presumed_length X file contentLength xhr =
     (if content_range (xr_contentLength xhr) \<noteq> None then js_ret (contentLength, content_range (xr_contentLength xhr))
      else if \<not> reliableHeadRequests file
      then js_bind (file_request X ''HEAD'' file None None (range_header ''0-'')) (\<lambda>head.
        js_ret (xr_contentLength head,
          case xr_contentLength head of Some len \<Rightarrow> if num_gt (to_number len) 1 then Some len else None | None \<Rightarrow> None))
      else js_ret (contentLength, None))"

definition probe_get :: "'h web \<Rightarrow> 'e wasm \<Rightarrow> DuckDBFileInfo \<Rightarrow> string option \<Rightarrow> ('e, 'h, nat option) br" where
  "probe_get X W file contentLength = js_bind (file_request X ''GET'' file None None (range_header ''0-0'')) (\<lambda>xhr.
     js_bind (presumed_length X file contentLength xhr) (\<lambda>(contentLength, presumedLength).
     let contentLength2 = xr_contentLength xhr in
     if xr_status xhr = 206 \<and> contentLength2 \<noteq> None \<and> to_number (the contentLength2) = Some 1 \<and> presumedLength \<noteq> None
     then js_bind (open_result W (cell X (to_number (the presumedLength))) 0 (modification_time X xhr)) (\<lambda>p. js_ret (Some p))
     else if xr_status xhr = 200 \<and> contentLength2 \<noteq> None \<and> contentLength \<noteq> None
       \<and> num_eq (to_number (the contentLength2)) (to_number (the contentLength))
     then js_bind (full_buffer X W xhr) (\<lambda>p. js_ret (Some p))
     else js_ret None))"

definition full_read :: "'h web \<Rightarrow> 'e wasm \<Rightarrow> DuckDBFileInfo \<Rightarrow> ('e, 'h, nat option) br" where
  "full_read X W file = js_bind (file_request X ''GET'' file None None []) (\<lambda>xhr.
     if xr_status xhr = 200 then js_bind (full_buffer X W xhr) (\<lambda>p. js_ret (Some p)) else js_ret None)"

definition open_http_read :: "'h web \<Rightarrow> 'e wasm \<Rightarrow> DuckDBFileInfo \<Rightarrow> ('e, 'h, nat) br" where
  "open_http_read X W file = js_bind (probe_head X W file) (\<lambda>found. case found of
     Opened p \<Rightarrow> js_ret p
   | Probed contentLength err \<Rightarrow>
       js_bind (if \<not> allowFullHttpReads file then js_ret None
                else js_bind (if \<not> forceFullHttpReads file then probe_get X W file contentLength else js_ret None) (\<lambda>got.
                  case got of Some p \<Rightarrow> js_ret (Some p) | None \<Rightarrow> full_read X W file)) (\<lambda>got.
       case got of
         Some p \<Rightarrow> js_ret p
       | None \<Rightarrow> (case err of
           Some e \<Rightarrow> js_throw (Error (''Reading file '' @ fileName file @ '' failed with error: '' @ error_text e))
         | None \<Rightarrow> js_ret 0)))"

definition open_http :: "'h web \<Rightarrow> 'e wasm \<Rightarrow> DuckDBFileInfo \<Rightarrow> flags \<Rightarrow> ('e, 'h, nat) br" where
  "open_http X W file fs =
     (if has_flag fs FILE_FLAGS_READ \<and> has_flag fs FILE_FLAGS_WRITE
      then js_throw (opening_failed file ''cannot open file with both read and write flags set'')
      else if has_flag fs FILE_FLAGS_APPEND
      then js_throw (opening_failed file ''appending to HTTP/S3 files is not supported'')
      else if has_flag fs FILE_FLAGS_WRITE then open_http_write X W file fs
      else if \<not> has_flag fs FILE_FLAGS_READ
      then js_throw (opening_failed file (''unsupported file flags: '' @ show_nat (unat fs)))
      else open_http_read X W file)"

text \<open>\<open>handle.size\<close> of a blob; other handles do not have the property and the cell gets \<open>NaN\<close>.\<close>

definition handle_size :: "'h web \<Rightarrow> file_handle \<Rightarrow> int" where
  "handle_size X h = (case h of BlobHandle b \<Rightarrow> int (length (web_blob X b)) | _ \<Rightarrow> web_nan X)"

definition open_filereader :: "'h web \<Rightarrow> 'e wasm \<Rightarrow> DuckDBFileInfo \<Rightarrow> flags \<Rightarrow> ('e, 'h, nat) br" where
  "open_filereader X W file fs s = (case jm_get (br_files s) (fileName file) of
     Some h \<Rightarrow> open_result W (handle_size X h) 0 0 s
   | None \<Rightarrow>
       if has_flag fs FILE_FLAGS_NULL_IF_NOT_EXISTS then (Inr 0, s)
       else js_bind (br_malloc W (3 * 8)) (\<lambda>result.
         js_bind (br_malloc W 1) (\<lambda>buffer.
         write_result W result 1 (int buffer) 0)) s)"

definition no_access_handle :: "DuckDBFileInfo \<Rightarrow> js_error" where
  "no_access_handle file = Error (''No OPFS access handle registered with name: '' @ fileName file)"

text \<open>A method of a registered access handle; other values do not have it.\<close>

definition on_access_handle :: "DuckDBFileInfo \<Rightarrow> string \<Rightarrow> (nat \<Rightarrow> (opfs, 'a) jsm) \<Rightarrow> ('e, 'h, 'a) br" where
  "on_access_handle file method f s = (case jm_get (br_files s) (fileName file) of
     None \<Rightarrow> (Inl (no_access_handle file), s)
   | Some (SyncAccessHandle h) \<Rightarrow> in_opfs (f h) s
   | Some _ \<Rightarrow> (Inl (TypeError (''handle.'' @ method @ '' is not a function'')), s))"

definition registered :: "DuckDBFileInfo \<Rightarrow> ('e, 'h, unit) br" where
  "registered file s = (if jm_has (br_files s) (fileName file) then (Inr (), s) else (Inl (no_access_handle file), s))"

definition open_fsaccess :: "'e wasm \<Rightarrow> DuckDBFileInfo \<Rightarrow> flags \<Rightarrow> ('e, 'h, nat) br" where
  "open_fsaccess W file fs =
     js_bind (registered file) (\<lambda>_.
     js_bind (if has_flag fs FILE_FLAGS_FILE_CREATE_NEW then on_access_handle file ''truncate'' (\<lambda>h. sah_truncate h 0)
              else js_ret ()) (\<lambda>_.
     js_bind (br_malloc W (3 * 8)) (\<lambda>result.
     js_bind (on_access_handle file ''getSize'' sah_getSize) (\<lambda>fileSize.
     write_result W result (int fileSize) 0 0))))"

definition openFile :: "'h web \<Rightarrow> 'e wasm \<Rightarrow> nat \<Rightarrow> flags \<Rightarrow> ('e, 'h, nat) br" where
  "openFile X W fid fs = js_try
     (js_bind (js_modify (\<lambda>s. s\<lparr>br_fileInfoCache := jm_delete fid (br_fileInfoCache s)\<rparr>)) (\<lambda>_.
      js_bind (getFileInfo W fid) (\<lambda>info. case info of
        None \<Rightarrow> js_ret 0
      | Some file \<Rightarrow> (case dataProtocol file of
          HTTP \<Rightarrow> open_http X W file fs
        | S3 \<Rightarrow> open_http X W file fs
        | BROWSER_FILEREADER \<Rightarrow> open_filereader X W file fs
        | BROWSER_FSACCESS \<Rightarrow> open_fsaccess W file fs
        | BUFFER \<Rightarrow> js_ret 0
        | NODE_FS \<Rightarrow> js_ret 0))))
     (\<lambda>e. js_bind (fail_with W (error_text e)) (\<lambda>_. js_ret 0))"

section \<open>Names: glob, checkFile, moveFile, dropFile\<close>

definition in_heap :: "'e wasm \<Rightarrow> nat \<Rightarrow> nat \<Rightarrow> ('e, 'h, string) br" where
  "in_heap W ptr len = in_wasm (readString W ptr len)"

definition glob_add_path :: "'e wasm \<Rightarrow> string \<Rightarrow> ('e, 'h, unit) br" where
  "glob_add_path W p = js_bind (in_wasm (w_ccall W ''duckdb_web_fs_glob_add_path'' [A_str p])) (\<lambda>_. js_ret ())"

fun glob_add_paths :: "'e wasm \<Rightarrow> string \<Rightarrow> string list \<Rightarrow> ('e, 'h, unit) br" where
  "glob_add_paths W p [] = js_ret ()"
| "glob_add_paths W p (filePath # rest) =
     js_bind (if starts_with p filePath then glob_add_path W filePath else js_ret ()) (\<lambda>_. glob_add_paths W p rest)"

definition is_s3 :: "string \<Rightarrow> bool" where "is_s3 p = starts_with ''s3://'' p"
definition is_remote :: "string \<Rightarrow> bool" where "is_remote p \<longleftrightarrow> starts_with ''http'' p \<or> is_s3 p"

text \<open>A request for a path; the global configuration is asked for when the path is one of S3.\<close>

definition path_request ::
  "'h web \<Rightarrow> 'e wasm \<Rightarrow> string \<Rightarrow> string \<Rightarrow> string \<Rightarrow> (string \<times> string) list \<Rightarrow> ('e, 'h, xhr_response) br" where
  "path_request X W meth signedAs p extra =
     js_bind (if is_s3 p then js_bind (getGlobalFileInfo W) (\<lambda>g. js_ret (case g of Some g \<Rightarrow> g_s3Config g | None \<Rightarrow> None))
              else js_ret None) (\<lambda>config.
     send_request X (\<lambda>h. url_request X h meth signedAs (is_s3 p) config p None None extra))"

definition good_status :: "xhr_response \<Rightarrow> bool" where
  "good_status xhr \<longleftrightarrow> xr_status xhr = 200 \<or> xr_status xhr = 206"

definition glob_remote :: "'h web \<Rightarrow> 'e wasm \<Rightarrow> string \<Rightarrow> ('e, 'h, unit) br" where
  "glob_remote X W p = js_bind (path_request X W ''HEAD'' ''HEAD'' p []) (\<lambda>xhr.
     if good_status xhr then glob_add_path W p
     else js_bind (getGlobalFileInfo W) (\<lambda>g.
       if \<not> (case g of Some g \<Rightarrow> g_allowFullHttpReads g | None \<Rightarrow> False) then js_ret ()
       else js_bind (path_request X W ''GET'' ''HEAD'' p (range_header ''0-0'')) (\<lambda>xhr2.
         if good_status xhr2 then glob_add_path W p else js_ret ())))"

definition glob :: "'h web \<Rightarrow> 'e wasm \<Rightarrow> nat \<Rightarrow> nat \<Rightarrow> ('e, 'h, unit) br" where
  "glob X W pathPtr pathLen = js_try
     (js_bind (in_heap W pathPtr pathLen) (\<lambda>p.
      if is_remote p then glob_remote X W p
      else (\<lambda>s. glob_add_paths W p (jm_keys (br_files s)) s)))
     (\<lambda>e. fail_with W (error_text e))"

definition checkFile :: "'h web \<Rightarrow> 'e wasm \<Rightarrow> nat \<Rightarrow> nat \<Rightarrow> ('e, 'h, bool) br" where
  "checkFile X W pathPtr pathLen = js_try
     (js_bind (in_heap W pathPtr pathLen) (\<lambda>p.
      if is_remote p then js_bind (path_request X W ''HEAD'' ''HEAD'' p []) (\<lambda>xhr. js_ret (good_status xhr))
      else (\<lambda>s. (Inr (jm_has (br_files s) p), s))))
     (\<lambda>_. js_ret False)"

definition syncFile :: "('e, 'h, unit) br" where
  "syncFile = js_ret ()"

definition closeFile :: "'e wasm \<Rightarrow> nat \<Rightarrow> ('e, 'h, unit) br" where
  "closeFile W fid = js_bind (getFileInfo W fid) (\<lambda>info.
     js_bind (js_modify (\<lambda>s. s\<lparr>br_fileInfoCache := jm_delete fid (br_fileInfoCache s)\<rparr>)) (\<lambda>_.
     js_try
       (case info of
          Some file \<Rightarrow> if dataProtocol file = BROWSER_FSACCESS then on_access_handle file ''flush'' sah_flush else js_ret ()
        | None \<Rightarrow> js_ret ())
       (\<lambda>e. fail_with W (error_text e))))"

definition dropFile :: "'e wasm \<Rightarrow> nat \<Rightarrow> nat \<Rightarrow> ('e, 'h, unit) br" where
  "dropFile W fileNamePtr fileNameLen = js_bind (in_heap W fileNamePtr fileNameLen) (\<lambda>name s.
     case jm_get (br_files s) name of
       None \<Rightarrow> (Inr (), s)
     | Some h \<Rightarrow>
         js_bind (js_modify (\<lambda>s. s\<lparr>br_files := jm_delete name (br_files s)\<rparr>)) (\<lambda>_.
         case h of
           SyncAccessHandle a \<Rightarrow>
             js_try (js_bind (in_opfs (sah_flush a)) (\<lambda>_. in_opfs (sah_close a)))
               (\<lambda>_. js_throw (Error (''Cannot drop file with name: '' @ name)))
         | _ \<Rightarrow> js_ret ()) s)"

text \<open>The first cached info whose URL is the old name is forgotten. \<open>_files.delete(handle)\<close> deletes nothing: the keys of
  the map are names.\<close>

fun forget_url :: "string \<Rightarrow> (nat, DuckDBFileInfo) jsmap \<Rightarrow> (nat, DuckDBFileInfo) jsmap" where
  "forget_url from [] = []"
| "forget_url from ((k, v) # m) = (if dataUrl v = Some from then m else (k, v) # forget_url from m)"

definition moveFile :: "'e wasm \<Rightarrow> nat \<Rightarrow> nat \<Rightarrow> nat \<Rightarrow> nat \<Rightarrow> ('e, 'h, bool) br" where
  "moveFile W fromPtr fromLen toPtr toLen =
     js_bind (in_heap W fromPtr fromLen) (\<lambda>from.
     js_bind (in_heap W toPtr toLen) (\<lambda>to.
     js_bind (js_modify (\<lambda>s. case jm_get (br_files s) from of
        Some h \<Rightarrow> s\<lparr>br_files := jm_set to h (br_files s)\<rparr> | None \<Rightarrow> s)) (\<lambda>_.
     js_bind (js_modify (\<lambda>s. s\<lparr>br_fileInfoCache := forget_url from (br_fileInfoCache s)\<rparr>)) (\<lambda>_.
     js_ret True))))"

definition removeFile :: "('e, 'h, unit) br" where
  "removeFile = js_ret ()"

text \<open>Directories: each operation reads its path and only reports it.\<close>

definition checkDirectory :: "'e wasm \<Rightarrow> nat \<Rightarrow> nat \<Rightarrow> ('e, 'h, bool) br" where
  "checkDirectory W ptr len = js_bind (in_heap W ptr len) (\<lambda>_. js_ret False)"

definition createDirectory :: "'e wasm \<Rightarrow> nat \<Rightarrow> nat \<Rightarrow> ('e, 'h, unit) br" where
  "createDirectory W ptr len = js_bind (in_heap W ptr len) (\<lambda>_. js_ret ())"

definition removeDirectory :: "'e wasm \<Rightarrow> nat \<Rightarrow> nat \<Rightarrow> ('e, 'h, unit) br" where
  "removeDirectory W ptr len = js_bind (in_heap W ptr len) (\<lambda>_. js_ret ())"

definition listDirectoryEntries :: "'e wasm \<Rightarrow> nat \<Rightarrow> nat \<Rightarrow> ('e, 'h, bool) br" where
  "listDirectoryEntries W ptr len = js_bind (in_heap W ptr len) (\<lambda>_. js_ret False)"

section \<open>Reading and writing\<close>

text \<open>\<open>new Uint8Array(response, start, length)\<close> throws when the view does not fit.\<close>

definition response_view :: "byte list \<Rightarrow> nat \<Rightarrow> nat \<Rightarrow> byte list res" where
  "response_view response start bytes =
     (if start > length response then Inl (RangeError ''Start offset is outside the bounds of the buffer'')
      else Inr (take (min (length response - start) bytes) (drop start response)))"

definition put_bytes :: "'e wasm \<Rightarrow> nat \<Rightarrow> byte list \<Rightarrow> ('e, 'h, nat) br" where
  "put_bytes W buf src = js_bind (heap_write W src buf) (\<lambda>_. js_ret (length src))"

definition read_http_body :: "'e wasm \<Rightarrow> DuckDBFileInfo \<Rightarrow> nat \<Rightarrow> nat \<Rightarrow> nat \<Rightarrow> xhr_response \<Rightarrow> ('e, 'h, nat) br" where
  "read_http_body W file buf bytes location xhr =
     (if xr_status xhr = 206 \<or> xr_status xhr = 200 \<and> bytes = length (xr_response xhr) \<and> location = 0
      then put_bytes W buf (take (min (length (xr_response xhr)) bytes) (xr_response xhr))
      else if xr_status xhr = 200
      then (case response_view (xr_response xhr) location bytes of
          Inl e \<Rightarrow> js_throw e | Inr src \<Rightarrow> put_bytes W buf src)
      else js_throw (Error (''Range request for '' @ the (dataUrl file) @ '' did returned non-success status: ''
        @ show_nat (xr_status xhr) @ '' '' @ [CHR 0x22] @ xr_statusText xhr @ [CHR 0x22])))"

definition read_http :: "'h web \<Rightarrow> 'e wasm \<Rightarrow> nat \<Rightarrow> DuckDBFileInfo \<Rightarrow> nat \<Rightarrow> nat \<Rightarrow> nat \<Rightarrow> ('e, 'h, nat) br" where
  "read_http X W fid file buf bytes location =
     (if dataUrl file = None \<or> dataUrl file = Some [] then js_throw (Error (''Missing data URL for file '' @ show_nat fid))
      else js_try
        (js_bind (file_request X ''GET'' file None None
            (range_header (show_nat location @ ''-'' @ show_nat (location + bytes - 1))))
          (read_http_body W file buf bytes location))
        (\<lambda>e. js_throw (Error (''Range request for '' @ the (dataUrl file) @ '' failed with error: '' @ error_text e @ [CHR 0x22]))))"

definition read_filereader :: "'h web \<Rightarrow> 'e wasm \<Rightarrow> DuckDBFileInfo \<Rightarrow> nat \<Rightarrow> nat \<Rightarrow> nat \<Rightarrow> ('e, 'h, nat) br" where
  "read_filereader X W file buf bytes location s = (case jm_get (br_files s) (fileName file) of
     None \<Rightarrow> (Inl (Error (''No HTML5 file registered with name: '' @ fileName file)), s)
   | Some (BlobHandle b) \<Rightarrow> put_bytes W buf (subarray location (location + bytes) (web_blob X b)) s
   | Some _ \<Rightarrow> (Inl (TypeError ''handle.slice is not a function''), s))"

text \<open>\<open>handle.read(HEAPU8.subarray(buf, buf + bytes), {at})\<close> writes into the heap itself.\<close>

definition read_fsaccess :: "'e wasm \<Rightarrow> DuckDBFileInfo \<Rightarrow> nat \<Rightarrow> nat \<Rightarrow> nat \<Rightarrow> ('e, 'h, nat) br" where
  "read_fsaccess W file buf bytes location s =
     (let room = length (heap_view W buf bytes (br_wasm s)) in
      js_bind (on_access_handle file ''read'' (\<lambda>h. sah_read h room location)) (\<lambda>src.
        in_wasm (\<lambda>e. (Inr (length src), w_setHEAPU8 W buf src e))) s)"

definition readFile :: "'h web \<Rightarrow> 'e wasm \<Rightarrow> nat \<Rightarrow> nat \<Rightarrow> nat \<Rightarrow> nat \<Rightarrow> ('e, 'h, nat) br" where
  "readFile X W fid buf bytes location =
     (if bytes = 0 then js_ret 0
      else js_try
        (js_bind (getFileInfo W fid) (\<lambda>info. case info of
           None \<Rightarrow> js_ret 0
         | Some file \<Rightarrow> (case dataProtocol file of
             HTTP \<Rightarrow> read_http X W fid file buf bytes location
           | S3 \<Rightarrow> read_http X W fid file buf bytes location
           | BROWSER_FILEREADER \<Rightarrow> read_filereader X W file buf bytes location
           | BROWSER_FSACCESS \<Rightarrow> read_fsaccess W file buf bytes location
           | BUFFER \<Rightarrow> js_ret 0
           | NODE_FS \<Rightarrow> js_ret 0)))
        (\<lambda>e. js_bind (fail_with W (error_text e)) (\<lambda>_. js_ret 0)))"

definition fail_returning :: "'e wasm \<Rightarrow> string \<Rightarrow> 'a \<Rightarrow> ('e, 'h, 'a) br" where
  "fail_returning W msg x = js_bind (fail_with W msg) (\<lambda>_. js_ret x)"

definition write_s3 :: "'h web \<Rightarrow> 'e wasm \<Rightarrow> DuckDBFileInfo \<Rightarrow> nat \<Rightarrow> nat \<Rightarrow> ('e, 'h, nat) br" where
  "write_s3 X W file buf bytes s =
     js_bind (file_request X ''PUT'' file (Some []) (Some (heap_view W buf bytes (br_wasm s))) []) (\<lambda>xhr.
       if xr_status xhr \<noteq> 200 then fail_returning W (''Failed writing file: HTTP '' @ show_nat (xr_status xhr)) 0
       else js_ret bytes) s"

definition write_fsaccess :: "'e wasm \<Rightarrow> DuckDBFileInfo \<Rightarrow> nat \<Rightarrow> nat \<Rightarrow> nat \<Rightarrow> ('e, 'h, nat) br" where
  "write_fsaccess W file buf bytes location s =
     on_access_handle file ''write'' (\<lambda>h. sah_write h (heap_view W buf bytes (br_wasm s)) location) s"

definition writeFile :: "'h web \<Rightarrow> 'e wasm \<Rightarrow> nat \<Rightarrow> nat \<Rightarrow> nat \<Rightarrow> nat \<Rightarrow> ('e, 'h, nat) br" where
  "writeFile X W fid buf bytes location = js_bind (getFileInfo W fid) (\<lambda>info. case info of
     None \<Rightarrow> js_ret 0
   | Some file \<Rightarrow> (case dataProtocol file of
       HTTP \<Rightarrow> fail_returning W ''Cannot write to HTTP file'' 0
     | S3 \<Rightarrow> write_s3 X W file buf bytes
     | BROWSER_FILEREADER \<Rightarrow> fail_returning W ''cannot write using the html5 file reader api'' 0
     | BROWSER_FSACCESS \<Rightarrow> write_fsaccess W file buf bytes location
     | BUFFER \<Rightarrow> js_ret 0
     | NODE_FS \<Rightarrow> js_ret 0))"

definition truncateFile :: "'e wasm \<Rightarrow> nat \<Rightarrow> nat \<Rightarrow> ('e, 'h, unit) br" where
  "truncateFile W fid newSize = js_bind (getFileInfo W fid) (\<lambda>info. case info of
     None \<Rightarrow> js_ret ()
   | Some file \<Rightarrow> (case dataProtocol file of
       HTTP \<Rightarrow> fail_with W ''Cannot truncate a http file''
     | S3 \<Rightarrow> fail_with W ''Cannot truncate an s3 file''
     | BROWSER_FSACCESS \<Rightarrow> on_access_handle file ''truncate'' (\<lambda>h. sah_truncate h newSize)
     | _ \<Rightarrow> fail_with W ''truncateFile not implemented''))"

definition getLastFileModificationTime :: "'h web \<Rightarrow> 'e wasm \<Rightarrow> nat \<Rightarrow> ('e, 'h, int) br" where
  "getLastFileModificationTime X W fid = js_bind (getFileInfo W fid) (\<lambda>info s. case info of
     None \<Rightarrow> (Inr 0, s)
   | Some file \<Rightarrow> (case dataProtocol file of
       BROWSER_FILEREADER \<Rightarrow>
         if jm_has (br_files s) (fileName file) then (Inr 0, s)
         else (Inl (Error (''No handle available for file: '' @ fileName file)), s)
     | HTTP \<Rightarrow> (Inr (web_seconds X (br_net s)), s)
     | S3 \<Rightarrow> (Inr (web_seconds X (br_net s)), s)
     | _ \<Rightarrow> (Inr 0, s)))"

text \<open>The update is posted with request id 0: whether it is final, the percentage and the repetitions.\<close>

definition progressUpdate :: "nat \<Rightarrow> int \<Rightarrow> int \<Rightarrow> ('e, 'h, unit) br" where
  "progressUpdate final percentage repeat =
     js_modify (\<lambda>s. s\<lparr>br_posted := br_posted s @ [(0, final \<noteq> 0, percentage, repeat)]\<rparr>)"

end
