(* ===== verification/Hb_Runtime_Browser_Props.thy ===== *)
theory Hb_Runtime_Browser_Props
  imports Hb_Runtime_Browser
begin

text \<open>
  Properties of the browser's file access: what is written to a file of the origin private file system is what is
  read, a read over HTTP is the slice that was asked for, opening a file over HTTP reports its length, and no access
  handle is lost or left closed under a name, unless a file is moved.
\<close>

section \<open>What is assumed of the module\<close>

text \<open>
  The heap is memory: what is written is read. And the engine answers a request for a file whose epoch the caller
  already has with nothing. \<open>I\<close> is a set of states of the module that its operations do not leave.
\<close>

definition overwrite :: "nat \<Rightarrow> byte list \<Rightarrow> byte list \<Rightarrow> byte list" where
  "overwrite p bs heap = take p heap @ bs @ drop (p + length bs) heap"

definition heap_is_memory :: "'e wasm \<Rightarrow> ('e \<Rightarrow> bool) \<Rightarrow> bool" where
  "heap_is_memory W I \<longleftrightarrow> (\<forall>e p bs. I e \<longrightarrow> p + length bs \<le> length (w_HEAPU8 W e) \<longrightarrow>
     I (w_setHEAPU8 W p bs e) \<and> w_HEAPU8 W (w_setHEAPU8 W p bs e) = overwrite p bs (w_HEAPU8 W e))"

definition epoch_is_current :: "'e wasm \<Rightarrow> ('e \<Rightarrow> bool) \<Rightarrow> nat \<Rightarrow> nat \<Rightarrow> bool" where
  "epoch_is_current W I fid epoch \<longleftrightarrow> (\<forall>e. I e \<longrightarrow> (\<exists>d e'.
     callSRet W ''duckdb_web_fs_get_file_info_by_id'' [A_num (int fid), A_num (int epoch)] e = (Inr (SUCCESS, d, 0), e')
     \<and> I e' \<and> w_HEAPU8 W e' = w_HEAPU8 W e))"

lemma subarray_overwrite:
  "p + length bs \<le> length heap \<Longrightarrow> subarray p (p + length bs) (overwrite p bs heap) = bs"
  by (simp add: overwrite_def subarray_def)

lemma length_overwrite [simp]: "p + length bs \<le> length heap \<Longrightarrow> length (overwrite p bs heap) = length heap"
  by (simp add: overwrite_def)

lemma heap_is_memoryD:
  assumes "heap_is_memory W I" "I e" "p + length bs \<le> length (w_HEAPU8 W e)"
  shows "I (w_setHEAPU8 W p bs e)" "w_HEAPU8 W (w_setHEAPU8 W p bs e) = overwrite p bs (w_HEAPU8 W e)"
  using assms by (simp_all add: heap_is_memory_def)

lemma getFileInfo_cached:
  assumes "epoch_is_current W I fid (cacheEpoch file)" "I (br_wasm s)" "jm_get (br_fileInfoCache s) fid = Some file"
  obtains e where "getFileInfo W fid s = (Inr (Some file), s\<lparr>br_wasm := e\<rparr>)" "I e" "w_HEAPU8 W e = w_HEAPU8 W (br_wasm s)"
proof -
  obtain d e where e: "callSRet W ''duckdb_web_fs_get_file_info_by_id'' [A_num (int fid), A_num (int (cacheEpoch file))] (br_wasm s)
      = (Inr (SUCCESS, d, 0), e)" "I e" "w_HEAPU8 W e = w_HEAPU8 W (br_wasm s)"
    using assms(1,2) unfolding epoch_is_current_def by blast
  have "getFileInfo W fid s = (Inr (Some file), s\<lparr>br_wasm := e\<rparr>)"
    using e(1) assms(3) by (simp add: getFileInfo_def ask_file_info_def js_defs in_wasm_def)
  with e(2,3) that show ?thesis by blast
qed

section \<open>The origin private file system\<close>

text \<open>An open file: its info is cached and its access handle is registered and open.\<close>

definition opfs_file :: "('e, 'h) browser \<Rightarrow> nat \<Rightarrow> DuckDBFileInfo \<Rightarrow> nat \<Rightarrow> string list \<Rightarrow> bool" where
  "opfs_file s fid file h p \<longleftrightarrow> jm_get (br_fileInfoCache s) fid = Some file \<and> dataProtocol file = BROWSER_FSACCESS
     \<and> jm_get (br_files s) (fileName file) = Some (SyncAccessHandle h) \<and> sah_path (br_opfs s) h = Some p"

definition written :: "nat \<Rightarrow> byte list \<Rightarrow> byte list \<Rightarrow> byte list" where
  "written at bytes old = resize at old @ bytes @ drop (at + length bytes) old"

lemma writeFile_opfs:
  assumes eng: "epoch_is_current W I fid (cacheEpoch file)" "I (br_wasm s)"
    and f: "opfs_file s fid file h p"
    and room: "buf + n \<le> length (w_HEAPU8 W (br_wasm s))"
  obtains e where "writeFile X W fid buf n at s =
      (Inr n, s\<lparr>br_wasm := e, br_opfs := (br_opfs s)\<lparr>op_nodes := jm_set p (OP_file
        (written at (subarray buf (buf + n) (w_HEAPU8 W (br_wasm s))) (file_bytes (br_opfs s) p))) (op_nodes (br_opfs s))\<rparr>\<rparr>)"
    "I e" "w_HEAPU8 W e = w_HEAPU8 W (br_wasm s)"
proof -
  from f have c: "jm_get (br_fileInfoCache s) fid = Some file" by (simp add: opfs_file_def)
  from getFileInfo_cached [OF eng c] obtain e where e: "getFileInfo W fid s = (Inr (Some file), s\<lparr>br_wasm := e\<rparr>)"
    "I e" "w_HEAPU8 W e = w_HEAPU8 W (br_wasm s)" by blast
  have "writeFile X W fid buf n at s =
      (Inr n, s\<lparr>br_wasm := e, br_opfs := (br_opfs s)\<lparr>op_nodes := jm_set p (OP_file
        (written at (subarray buf (buf + n) (w_HEAPU8 W (br_wasm s))) (file_bytes (br_opfs s) p))) (op_nodes (br_opfs s))\<rparr>\<rparr>)"
    using f room by (simp add: writeFile_def js_bind_def e(1) opfs_file_def write_fsaccess_def on_access_handle_def in_opfs_def
        sah_write_def with_open_def heap_view_def e(3) written_def)
  with e(2,3) that show ?thesis by blast
qed

lemma readFile_opfs:
  assumes eng: "epoch_is_current W I fid (cacheEpoch file)" "heap_is_memory W I" "I (br_wasm s)"
    and f: "opfs_file s fid file h p"
    and room: "buf + n \<le> length (w_HEAPU8 W (br_wasm s))" and n: "n > 0"
  obtains e where "readFile X W fid buf n at s =
      (Inr (length (take n (drop at (file_bytes (br_opfs s) p)))), s\<lparr>br_wasm := e\<rparr>)"
    "I e" "w_HEAPU8 W e = overwrite buf (take n (drop at (file_bytes (br_opfs s) p))) (w_HEAPU8 W (br_wasm s))"
proof -
  let ?src = "take n (drop at (file_bytes (br_opfs s) p))"
  from f have c: "jm_get (br_fileInfoCache s) fid = Some file" by (simp add: opfs_file_def)
  from getFileInfo_cached [OF eng(1,3) c] obtain e where e: "getFileInfo W fid s = (Inr (Some file), s\<lparr>br_wasm := e\<rparr>)"
    "I e" "w_HEAPU8 W e = w_HEAPU8 W (br_wasm s)" by blast
  have "buf + length ?src \<le> length (w_HEAPU8 W e)" using room e(3) by simp
  note mem = heap_is_memoryD [OF eng(2) e(2) this]
  have view: "length (heap_view W buf n e) = n" using room e(3) by (simp add: heap_view_def)
  have "readFile X W fid buf n at s = (Inr (length ?src), s\<lparr>br_wasm := w_setHEAPU8 W buf ?src e\<rparr>)"
    using f n view by (simp add: readFile_def js_bind_def js_try_def e(1) opfs_file_def read_fsaccess_def on_access_handle_def
        in_opfs_def sah_read_def with_open_def in_wasm_def Let_def)
  with mem e(3) that show ?thesis by simp
qed

text \<open>What the engine writes to a file of the origin private file system is what it reads there: the write takes all
  the bytes, a read of the same range gives them back, and the rest of the file is as it was, with zeros in a gap.\<close>

theorem opfs_write_read:
  assumes eng: "epoch_is_current W I fid (cacheEpoch file)" "heap_is_memory W I" "I (br_wasm s)"
    and f: "opfs_file s fid file h p"
    and room: "buf + n \<le> length (w_HEAPU8 W (br_wasm s))" "buf' + n \<le> length (w_HEAPU8 W (br_wasm s))" and n: "n > 0"
  shows "\<exists>s1 s2. writeFile X W fid buf n at s = (Inr n, s1) \<and> readFile X W fid buf' n at s1 = (Inr n, s2)
    \<and> subarray buf' (buf' + n) (w_HEAPU8 W (br_wasm s2)) = subarray buf (buf + n) (w_HEAPU8 W (br_wasm s))
    \<and> (\<forall>i. i < at \<or> at + n \<le> i \<longrightarrow> i < length (file_bytes (br_opfs s2) p) \<longrightarrow> file_bytes (br_opfs s2) p ! i =
         (if i < length (file_bytes (br_opfs s) p) then file_bytes (br_opfs s) p ! i else 0))
    \<and> length (file_bytes (br_opfs s2) p) = max (length (file_bytes (br_opfs s) p)) (at + n)"
proof -
  let ?bytes = "subarray buf (buf + n) (w_HEAPU8 W (br_wasm s))" and ?old = "file_bytes (br_opfs s) p"
  have len: "length ?bytes = n" using room(1) by simp
  obtain e where w: "writeFile X W fid buf n at s = (Inr n, s\<lparr>br_wasm := e, br_opfs := (br_opfs s)\<lparr>op_nodes :=
      jm_set p (OP_file (written at ?bytes ?old)) (op_nodes (br_opfs s))\<rparr>\<rparr>)" "I e" "w_HEAPU8 W e = w_HEAPU8 W (br_wasm s)"
    using writeFile_opfs [OF eng(1,3) f room(1)] by blast
  define s1 where "s1 = s\<lparr>br_wasm := e, br_opfs := (br_opfs s)\<lparr>op_nodes :=
      jm_set p (OP_file (written at ?bytes ?old)) (op_nodes (br_opfs s))\<rparr>\<rparr>"
  have f1: "opfs_file s1 fid file h p" using f by (simp add: opfs_file_def s1_def sah_path_def)
  have b1: "file_bytes (br_opfs s1) p = written at ?bytes ?old" by (simp add: s1_def)
  have slice: "take n (drop at (written at ?bytes ?old)) = ?bytes" using len by (simp add: written_def)
  have i1: "I (br_wasm s1)" and r1: "buf' + n \<le> length (w_HEAPU8 W (br_wasm s1))"
    using w(2,3) room(2) by (simp_all add: s1_def)
  obtain e' where "readFile X W fid buf' n at s1 = (Inr (length (take n (drop at (file_bytes (br_opfs s1) p)))), s1\<lparr>br_wasm := e'\<rparr>)"
    "w_HEAPU8 W e' = overwrite buf' (take n (drop at (file_bytes (br_opfs s1) p))) (w_HEAPU8 W (br_wasm s1))"
    using readFile_opfs [OF eng(1,2) i1 f1 r1 n] by blast
  then have r: "readFile X W fid buf' n at s1 = (Inr n, s1\<lparr>br_wasm := e'\<rparr>)"
    "w_HEAPU8 W e' = overwrite buf' ?bytes (w_HEAPU8 W (br_wasm s))"
    unfolding b1 slice len using w(3) by (simp_all add: s1_def)
  have "\<forall>i. i < at \<or> at + n \<le> i \<longrightarrow> i < length (written at ?bytes ?old) \<longrightarrow>
      written at ?bytes ?old ! i = (if i < length ?old then ?old ! i else 0)"
    using len by (auto simp: written_def resize_def nth_append)
  moreover have "length (written at ?bytes ?old) = max (length ?old) (at + n)" using len by (simp add: written_def)
  moreover have "subarray buf' (buf' + n) (w_HEAPU8 W e') = ?bytes"
    using subarray_overwrite [of buf' ?bytes] len room(2) r(2) by simp
  ultimately show ?thesis using w(1) r(1) b1 by (simp add: s1_def)
qed

section \<open>Reading is slicing\<close>

text \<open>
  What becomes of a request without a body for a file of a server: over HTTP it goes to the URL of the file, over S3 to
  the translated URL, with the headers that sign it at the time it is sent.
\<close>

definition answered ::
  "'h web \<Rightarrow> DuckDBFileInfo \<Rightarrow> string \<Rightarrow> (string \<times> string) list \<Rightarrow> 'h \<Rightarrow> xhr_response res \<times> 'h" where
  "answered X file meth hs h =
     (case url_request X h meth meth (dataProtocol file = S3) (s3Config file) (the (dataUrl file)) None None hs of
        Inl e \<Rightarrow> (Inl e, h)
      | Inr q \<Rightarrow> web_send X q h)"

lemma file_request_answered:
  "dataUrl file = Some u \<Longrightarrow> file_request X meth file None None hs s = in_net (answered X file meth hs) s"
  by (simp add: file_request_def send_request_def in_net_def answered_def split: sum.split)

lemma answered_http:
  "dataProtocol file = HTTP \<Longrightarrow> dataUrl file = Some u \<Longrightarrow>
     answered X file meth hs = web_send X \<lparr>xr_method = meth, xr_url = u, xr_headers = hs, xr_body = None\<rparr>"
  by (simp add: answered_def url_request_def fun_eq_iff)

text \<open>
  A server that holds the bytes \<open>c\<close> of a file answers a request for a range that begins in them with that range (206)
  or, when it does not know ranges, with all the bytes (200).
\<close>

definition serves :: "'h web \<Rightarrow> ('h \<Rightarrow> bool) \<Rightarrow> DuckDBFileInfo \<Rightarrow> byte list \<Rightarrow> bool" where
  "serves X J file c \<longleftrightarrow> (\<forall>h a b. J h \<longrightarrow> a \<le> b \<longrightarrow> a < length c \<longrightarrow> (\<exists>r h'.
     answered X file ''GET'' (range_header (show_nat a @ ''-'' @ show_nat b)) h = (Inr r, h') \<and> J h'
     \<and> (xr_status r = 206 \<and> xr_response r = subarray a (b + 1) c \<or> xr_status r = 200 \<and> xr_response r = c)))"

abbreviation remote :: "DuckDBFileInfo \<Rightarrow> bool" where
  "remote file \<equiv> dataProtocol file \<in> {HTTP, S3}"

text \<open>The bytes of an open file, wherever they are.\<close>

definition content_of :: "'h web \<Rightarrow> ('h \<Rightarrow> bool) \<Rightarrow> ('e, 'h) browser \<Rightarrow> nat \<Rightarrow> DuckDBFileInfo \<Rightarrow> byte list \<Rightarrow> bool" where
  "content_of X J s fid file c \<longleftrightarrow> jm_get (br_fileInfoCache s) fid = Some file \<and> (case dataProtocol file of
     HTTP \<Rightarrow> (\<exists>u. dataUrl file = Some u \<and> u \<noteq> [] \<and> J (br_net s) \<and> serves X J file c)
   | S3 \<Rightarrow> (\<exists>u. dataUrl file = Some u \<and> u \<noteq> [] \<and> J (br_net s) \<and> serves X J file c)
   | BROWSER_FILEREADER \<Rightarrow> (\<exists>b. jm_get (br_files s) (fileName file) = Some (BlobHandle b) \<and> web_blob X b = c)
   | BROWSER_FSACCESS \<Rightarrow> (\<exists>h p. opfs_file s fid file h p \<and> file_bytes (br_opfs s) p = c)
   | _ \<Rightarrow> False)"

lemma put_bytes_result:
  assumes "heap_is_memory W I" "I (br_wasm s)" "buf + length src \<le> length (w_HEAPU8 W (br_wasm s))"
  obtains e where "put_bytes W buf src s = (Inr (length src), s\<lparr>br_wasm := e\<rparr>)" "I e"
    "w_HEAPU8 W e = overwrite buf src (w_HEAPU8 W (br_wasm s))"
  using heap_is_memoryD [OF assms] assms(3) that [of "w_setHEAPU8 W buf src (br_wasm s)"]
  by (simp add: put_bytes_def heap_write_def in_wasm_def js_bind_def js_ret_def)

lemma read_http_body_slice:
  assumes "a < length c" "n > 0"
    and r: "xr_status r = 206 \<and> xr_response r = subarray a (a + n - 1 + 1) c \<or> xr_status r = 200 \<and> xr_response r = c"
  shows "read_http_body W file buf n a r = put_bytes W buf (subarray a (a + n) c)"
  using r
proof
  assume r: "xr_status r = 206 \<and> xr_response r = subarray a (a + n - 1 + 1) c"
  then have v: "xr_response r = subarray a (a + n) c" using assms(2) by simp
  from r have "xr_status r = 206" ..
  then show ?thesis by (simp add: read_http_body_def v)
next
  assume r: "xr_status r = 200 \<and> xr_response r = c"
  have "take (min (length c - a) n) (drop a c) = subarray a (a + n) c"
    by (cases "n \<le> length c - a") (simp_all add: subarray_def min_def)
  with r assms show ?thesis by (auto simp: read_http_body_def response_view_def subarray_def)
qed

lemma read_http_slice:
  assumes "serves X J file c" "J (br_net s)" "dataUrl file = Some u" "u \<noteq> []" "a < length c" "n > 0"
    and mem: "heap_is_memory W I" "I (br_wasm s)" "buf + n \<le> length (w_HEAPU8 W (br_wasm s))"
  obtains e h where "read_http X W fid file buf n a s = (Inr (length (subarray a (a + n) c)), s\<lparr>br_wasm := e, br_net := h\<rparr>)"
    "I e" "J h" "w_HEAPU8 W e = overwrite buf (subarray a (a + n) c) (w_HEAPU8 W (br_wasm s))"
proof -
  let ?range = "range_header (show_nat a @ ''-'' @ show_nat (a + n - 1))"
  have "a \<le> a + n - 1" using assms(6) by simp
  then obtain r h where r: "answered X file ''GET'' ?range (br_net s) = (Inr r, h)" "J h"
    "xr_status r = 206 \<and> xr_response r = subarray a (a + n - 1 + 1) c \<or> xr_status r = 200 \<and> xr_response r = c"
    using assms(1,2,5) unfolding serves_def by blast
  have "I (br_wasm (s\<lparr>br_net := h\<rparr>))" "buf + length (subarray a (a + n) c) \<le> length (w_HEAPU8 W (br_wasm (s\<lparr>br_net := h\<rparr>)))"
    using mem by simp_all
  from put_bytes_result [OF mem(1) this] obtain e where e:
    "put_bytes W buf (subarray a (a + n) c) (s\<lparr>br_net := h\<rparr>) = (Inr (length (subarray a (a + n) c)), s\<lparr>br_net := h\<rparr>\<lparr>br_wasm := e\<rparr>)"
    "I e" "w_HEAPU8 W e = overwrite buf (subarray a (a + n) c) (w_HEAPU8 W (br_wasm s))" by auto
  have "file_request X ''GET'' file None None ?range s = (Inr r, s\<lparr>br_net := h\<rparr>)"
    using r(1) by (simp add: file_request_answered [OF assms(3)] in_net_def)
  then have "read_http X W fid file buf n a s = (Inr (length (subarray a (a + n) c)), s\<lparr>br_net := h\<rparr>\<lparr>br_wasm := e\<rparr>)"
    using assms(3,4) e(1) by (simp add: read_http_def js_try_def js_bind_def read_http_body_slice [OF assms(5,6) r(3)])
  with e(2,3) r(2) that [where e = e and h = h] show ?thesis by simp
qed

text \<open>C25: Whatever holds a file that is open in the browser, a blob, the origin private file system, or an HTTP or S3 server
  that may or may not know ranges, a read of a range gives the engine's buffer exactly the bytes of the file in that range,
  touches nothing else of the heap and returns their number; and the file is as it was, so that reading goes on. A range
  that is asked of a server has to begin in the file: past its end a server may refuse, and the read fails.\<close>

theorem readFile_is_slice:
  assumes eng: "epoch_is_current W I fid (cacheEpoch file)" "heap_is_memory W I" "I (br_wasm s)"
    and c: "content_of X J s fid file c" "remote file \<Longrightarrow> a < length c"
    and room: "buf + n \<le> length (w_HEAPU8 W (br_wasm s))" and n: "n > 0"
  shows "\<exists>s'. readFile X W fid buf n a s = (Inr (length (subarray a (a + n) c)), s')
    \<and> w_HEAPU8 W (br_wasm s') = overwrite buf (subarray a (a + n) c) (w_HEAPU8 W (br_wasm s))
    \<and> content_of X J s' fid file c \<and> I (br_wasm s')"
proof -
  from c(1) have cached: "jm_get (br_fileInfoCache s) fid = Some file" by (simp add: content_of_def)
  from getFileInfo_cached [OF eng(1,3) this] obtain e where e: "getFileInfo W fid s = (Inr (Some file), s\<lparr>br_wasm := e\<rparr>)"
    "I e" "w_HEAPU8 W e = w_HEAPU8 W (br_wasm s)" by blast
  let ?s = "s\<lparr>br_wasm := e\<rparr>"
  have i: "I (br_wasm ?s)" and r: "buf + n \<le> length (w_HEAPU8 W (br_wasm ?s))" using e room by simp_all
  show ?thesis
  proof (cases "dataProtocol file")
    case HTTP
    with c obtain u where u: "dataUrl file = Some u" "u \<noteq> []" "J (br_net ?s)" "serves X J file c" by (auto simp: content_of_def)
    have "a < length c" using c(2) HTTP by simp
    from read_http_slice [where fid = fid, OF u(4,3,1,2) this n eng(2) i r] obtain e' h where
      "read_http X W fid file buf n a ?s = (Inr (length (subarray a (a + n) c)), ?s\<lparr>br_wasm := e', br_net := h\<rparr>)"
      "I e'" "J h" "w_HEAPU8 W e' = overwrite buf (subarray a (a + n) c) (w_HEAPU8 W (br_wasm ?s))" by blast
    with e(1,3) n HTTP u cached show ?thesis by (auto simp: readFile_def js_bind_def js_try_def content_of_def)
  next
    case S3
    with c obtain u where u: "dataUrl file = Some u" "u \<noteq> []" "J (br_net ?s)" "serves X J file c" by (auto simp: content_of_def)
    have "a < length c" using c(2) S3 by simp
    from read_http_slice [where fid = fid, OF u(4,3,1,2) this n eng(2) i r] obtain e' h where
      "read_http X W fid file buf n a ?s = (Inr (length (subarray a (a + n) c)), ?s\<lparr>br_wasm := e', br_net := h\<rparr>)"
      "I e'" "J h" "w_HEAPU8 W e' = overwrite buf (subarray a (a + n) c) (w_HEAPU8 W (br_wasm ?s))" by blast
    with e(1,3) n S3 u cached show ?thesis by (auto simp: readFile_def js_bind_def js_try_def content_of_def)
  next
    case BROWSER_FILEREADER
    with c(1) obtain b where b: "jm_get (br_files s) (fileName file) = Some (BlobHandle b)" "web_blob X b = c"
      by (auto simp: content_of_def)
    have "buf + length (subarray a (a + n) c) \<le> length (w_HEAPU8 W (br_wasm ?s))" using r by simp
    from put_bytes_result [OF eng(2) i this] obtain e' where
      "put_bytes W buf (subarray a (a + n) c) ?s = (Inr (length (subarray a (a + n) c)), ?s\<lparr>br_wasm := e'\<rparr>)" "I e'"
      "w_HEAPU8 W e' = overwrite buf (subarray a (a + n) c) (w_HEAPU8 W (br_wasm s))" using e(3) by auto
    with e(1) n BROWSER_FILEREADER b cached show ?thesis
      by (auto simp: readFile_def js_bind_def js_try_def read_filereader_def content_of_def)
  next
    case BROWSER_FSACCESS
    with c(1) obtain h p where f: "opfs_file s fid file h p" "file_bytes (br_opfs s) p = c" by (auto simp: content_of_def)
    have "take n (drop a c) = subarray a (a + n) c" by (simp add: subarray_def)
    with readFile_opfs [OF eng f(1) room n] f(2) obtain e' where
      "readFile X W fid buf n a s = (Inr (length (subarray a (a + n) c)), s\<lparr>br_wasm := e'\<rparr>)" "I e'"
      "w_HEAPU8 W e' = overwrite buf (subarray a (a + n) c) (w_HEAPU8 W (br_wasm s))" by metis
    moreover have "opfs_file (s\<lparr>br_wasm := e'\<rparr>) fid file h p" using f(1) by (simp add: opfs_file_def)
    ultimately show ?thesis using BROWSER_FSACCESS cached f(2) by (auto simp: content_of_def)
  qed (use c(1) in \<open>auto simp: content_of_def\<close>)
qed

section \<open>Opening a file over HTTP\<close>

text \<open>
  \<open>L e\<close> are the blocks of the heap that are in use, as address and size: \<open>malloc\<close> gives an aligned block apart from
  them and leaves them as they are, and the three cells of a block are where the numbers of a result go.
\<close>

definition apart :: "nat \<Rightarrow> nat \<Rightarrow> nat \<Rightarrow> nat \<Rightarrow> bool" where
  "apart p n q m \<longleftrightarrow> q + m \<le> p \<or> p + n \<le> q"

definition malloc_ok :: "'e wasm \<Rightarrow> ('e \<Rightarrow> bool) \<Rightarrow> ('e \<Rightarrow> (nat \<times> nat) list) \<Rightarrow> bool" where
  "malloc_ok W I L \<longleftrightarrow> (\<forall>e n. I e \<longrightarrow> (case w_malloc W n e of (p, e') \<Rightarrow> I e' \<and> 8 dvd p \<and> p + n \<le> length (w_HEAPU8 W e')
     \<and> L e' = (p, n) # L e \<and> (\<forall>(q, m) \<in> set (L e). apart p n q m
       \<and> subarray q (q + m) (w_HEAPU8 W e') = subarray q (q + m) (w_HEAPU8 W e))))
   \<and> (\<forall>e p bs. I e \<longrightarrow> L (w_setHEAPU8 W p bs e) = L e)"

definition cells_ok :: "'e wasm \<Rightarrow> ('e \<Rightarrow> bool) \<Rightarrow> bool" where
  "cells_ok W I \<longleftrightarrow> (\<forall>e i v. I e \<longrightarrow> 8 * i + 8 \<le> length (w_HEAPU8 W e) \<longrightarrow>
     (let e' = w_setHEAPF64 W i v e in I e' \<and> w_HEAPF64 W e' = (w_HEAPF64 W e)(i := v)
       \<and> length (w_HEAPU8 W e') = length (w_HEAPU8 W e)
       \<and> (\<forall>q m. apart (8 * i) 8 q m \<longrightarrow> subarray q (q + m) (w_HEAPU8 W e') = subarray q (q + m) (w_HEAPU8 W e))))"

lemma mallocD:
  assumes "malloc_ok W I L" "I e" "w_malloc W n e = (p, e')"
  shows "I e'" "8 dvd p" "p + n \<le> length (w_HEAPU8 W e')" "L e' = (p, n) # L e"
    "(q, m) \<in> set (L e) \<Longrightarrow> apart p n q m \<and> subarray q (q + m) (w_HEAPU8 W e') = subarray q (q + m) (w_HEAPU8 W e)"
  using malloc_ok_def [THEN iffD1, OF assms(1), THEN conjunct1, rule_format, OF assms(2), of n] assms(3) by auto

lemma cellD:
  assumes "cells_ok W I" "I e" "8 * i + 8 \<le> length (w_HEAPU8 W e)"
  shows "I (w_setHEAPF64 W i v e)" "w_HEAPF64 W (w_setHEAPF64 W i v e) = (w_HEAPF64 W e)(i := v)"
    "length (w_HEAPU8 W (w_setHEAPF64 W i v e)) = length (w_HEAPU8 W e)"
    "apart (8 * i) 8 q m \<Longrightarrow> subarray q (q + m) (w_HEAPU8 W (w_setHEAPF64 W i v e)) = subarray q (q + m) (w_HEAPU8 W e)"
  using assms by (auto simp: cells_ok_def Let_def)

lemma write_result_cells:
  assumes c: "cells_ok W I" and s: "I (br_wasm s)" and p: "8 dvd p" "p + 24 \<le> length (w_HEAPU8 W (br_wasm s))"
  obtains e where "write_result W p a b m s = (Inr p, s\<lparr>br_wasm := e\<rparr>)" "I e"
    "w_HEAPF64 W e (p div 8) = a" "w_HEAPF64 W e (p div 8 + 1) = b"
    "\<And>q n. apart p 24 q n \<Longrightarrow> subarray q (q + n) (w_HEAPU8 W e) = subarray q (q + n) (w_HEAPU8 W (br_wasm s))"
proof -
  define i where "i = p div 8"
  have i: "p = 8 * i" using p(1) by (simp add: i_def)
  let ?e0 = "br_wasm s" let ?e1 = "w_setHEAPF64 W i a ?e0" let ?e2 = "w_setHEAPF64 W (i + 1) b ?e1"
  let ?e3 = "w_setHEAPF64 W (i + 2) m ?e2"
  have "8 * i + 8 \<le> length (w_HEAPU8 W ?e0)" using p(2) i by simp
  note e1 = cellD [OF c s this, where v = a]
  have "8 * (i + 1) + 8 \<le> length (w_HEAPU8 W ?e1)" using p(2) i e1(3) by simp
  note e2 = cellD [OF c e1(1) this, where v = b]
  have "8 * (i + 2) + 8 \<le> length (w_HEAPU8 W ?e2)" using p(2) i e1(3) e2(3) by simp
  note e3 = cellD [OF c e2(1) this, where v = m]
  have bytes: "subarray q (q + n) (w_HEAPU8 W ?e3) = subarray q (q + n) (w_HEAPU8 W ?e0)" if "apart p 24 q n" for q n
  proof -
    have "apart (8 * i) 8 q n" "apart (8 * (i + 1)) 8 q n" "apart (8 * (i + 2)) 8 q n" using that i by (auto simp: apart_def)
    with e1(4) e2(4) e3(4) show ?thesis by simp
  qed
  have "write_result W p a b m s = (Inr p, s\<lparr>br_wasm := ?e3\<rparr>)"
    by (simp add: write_result_def in_wasm_def i_def drop_bit_eq_div)
  with bytes e3(1,2) e2(2) e1(2) that [of ?e3] show ?thesis by (simp add: i_def)
qed

text \<open>A result that reports the bytes \<open>c\<close>: their number, and where they are unless they are to be read by ranges.\<close>

definition reports :: "'e wasm \<Rightarrow> byte list \<Rightarrow> nat \<Rightarrow> 'e \<Rightarrow> bool" where
  "reports W c p e \<longleftrightarrow> w_HEAPF64 W e (p div 8) = int (length c)
     \<and> (w_HEAPF64 W e (p div 8 + 1) = 0
        \<or> (\<exists>b. w_HEAPF64 W e (p div 8 + 1) = int b \<and> subarray b (b + length c) (w_HEAPU8 W e) = c))"

lemma open_result_cells:
  assumes m: "malloc_ok W I L" and c: "cells_ok W I" and s: "I (br_wasm s)"
  obtains p e where "open_result W a b m s = (Inr p, s\<lparr>br_wasm := e\<rparr>)" "I e"
    "w_HEAPF64 W e (p div 8) = a" "w_HEAPF64 W e (p div 8 + 1) = b"
    "\<And>q n. (q, n) \<in> set (L (br_wasm s)) \<Longrightarrow> subarray q (q + n) (w_HEAPU8 W e) = subarray q (q + n) (w_HEAPU8 W (br_wasm s))"
proof -
  obtain p e1 where pe: "w_malloc W 24 (br_wasm s) = (p, e1)" by force
  note m1 = mallocD [OF m s pe]
  have i: "I (br_wasm (s\<lparr>br_wasm := e1\<rparr>))" and room: "p + 24 \<le> length (w_HEAPU8 W (br_wasm (s\<lparr>br_wasm := e1\<rparr>)))"
    using m1 by simp_all
  obtain e where e: "write_result W p a b m (s\<lparr>br_wasm := e1\<rparr>) = (Inr p, s\<lparr>br_wasm := e1\<rparr>\<lparr>br_wasm := e\<rparr>)" "I e"
    "w_HEAPF64 W e (p div 8) = a" "w_HEAPF64 W e (p div 8 + 1) = b"
    "\<And>q n. apart p 24 q n \<Longrightarrow> subarray q (q + n) (w_HEAPU8 W e) = subarray q (q + n) (w_HEAPU8 W (br_wasm (s\<lparr>br_wasm := e1\<rparr>)))"
    using write_result_cells [OF c i m1(2) room] by metis
  have "open_result W a b m s = (Inr p, s\<lparr>br_wasm := e\<rparr>)"
    using e(1) pe by (simp add: open_result_def br_malloc_def in_wasm_def js_bind_def)
  moreover have "subarray q (q + n) (w_HEAPU8 W e) = subarray q (q + n) (w_HEAPU8 W (br_wasm s))"
    if "(q, n) \<in> set (L (br_wasm s))" for q n
    using m1(5) [OF that] e(5) by simp
  ultimately show ?thesis using e(2-4) that by blast
qed

lemma open_result_reports:
  assumes m: "malloc_ok W I L" "cells_ok W I" "I (br_wasm s)"
  obtains p e where "open_result W (int (length c)) 0 t s = (Inr p, s\<lparr>br_wasm := e\<rparr>)" "I e" "reports W c p e"
  using open_result_cells [OF m] that unfolding reports_def by metis

lemma full_buffer_reports:
  assumes m: "heap_is_memory W I" "malloc_ok W I L" "cells_ok W I" "I (br_wasm s)"
  obtains p e where "full_buffer X W r s = (Inr p, s\<lparr>br_wasm := e\<rparr>)" "I e" "reports W (xr_response r) p e"
proof -
  let ?c = "xr_response r"
  obtain b e1 where be: "w_malloc W (length ?c) (br_wasm s) = (b, e1)" by force
  note m1 = mallocD [OF m(2,4) be]
  let ?e2 = "w_setHEAPU8 W b ?c e1"
  note h = heap_is_memoryD [OF m(1) m1(1,3)]
  have l: "L ?e2 = (b, length ?c) # L (br_wasm s)" using m(2) m1(1,4) by (simp add: malloc_ok_def)
  have i: "I (br_wasm (s\<lparr>br_wasm := ?e2\<rparr>))" using h(1) by simp
  from open_result_cells [OF m(2,3) i] obtain p e where e:
    "open_result W (int (length ?c)) (int b) (modification_time X r) (s\<lparr>br_wasm := ?e2\<rparr>) = (Inr p, s\<lparr>br_wasm := ?e2\<rparr>\<lparr>br_wasm := e\<rparr>)"
    "I e" "w_HEAPF64 W e (p div 8) = int (length ?c)" "w_HEAPF64 W e (p div 8 + 1) = int b"
    "\<And>q n. (q, n) \<in> set (L (br_wasm (s\<lparr>br_wasm := ?e2\<rparr>))) \<Longrightarrow>
       subarray q (q + n) (w_HEAPU8 W e) = subarray q (q + n) (w_HEAPU8 W (br_wasm (s\<lparr>br_wasm := ?e2\<rparr>)))"
    by metis
  have "subarray b (b + length ?c) (w_HEAPU8 W e) = ?c"
    using e(5) [of b "length ?c"] l h(2) subarray_overwrite [OF m1(3)] by simp
  moreover have "full_buffer X W r s = (Inr p, s\<lparr>br_wasm := e\<rparr>)"
    using e(1) be m1(3) by (simp add: full_buffer_def br_malloc_def heap_write_def in_wasm_def js_bind_def)
  ultimately show ?thesis using e(2-4) that by (auto simp: reports_def)
qed

text \<open>
  A server whose answers to \<open>HEAD\<close> carry no content length but that of the file, and which gives all the bytes to a
  request that it answers with 200. It may know ranges or not, refuse \<open>HEAD\<close>, and refuse whole reads.
\<close>

definition honest :: "'h web \<Rightarrow> ('h \<Rightarrow> bool) \<Rightarrow> DuckDBFileInfo \<Rightarrow> byte list \<Rightarrow> bool" where
  "honest X J file c \<longleftrightarrow> (\<forall>h. J h \<longrightarrow>
     (\<exists>r h'. answered X file ''HEAD'' (range_header ''0-'') h = (Inr r, h') \<and> J h'
        \<and> xr_contentLength r \<in> {None, Some (show_nat (length c))})
     \<and> (\<exists>r h'. answered X file ''GET'' (range_header ''0-0'') h = (Inr r, h') \<and> J h'
        \<and> (xr_status r = 200 \<longrightarrow> xr_response r = c) \<and> (\<forall>l. xr_contentLength r = Some l \<longrightarrow> list_all is_digit l))
     \<and> (\<exists>r h'. answered X file ''GET'' [] h = (Inr r, h') \<and> J h' \<and> (xr_status r = 200 \<longrightarrow> xr_response r = c)))"

text \<open>Some request for the whole file is not answered with 200.\<close>

definition refuses_whole_reads :: "'h web \<Rightarrow> ('h \<Rightarrow> bool) \<Rightarrow> DuckDBFileInfo \<Rightarrow> bool" where
  "refuses_whole_reads X J file \<longleftrightarrow> (\<exists>h r h'. J h \<and> answered X file ''GET'' [] h = (Inr r, h') \<and> xr_status r \<noteq> 200)"

text \<open>What is common to the steps below: the file, the server and the module.\<close>

definition http_file :: "'h web \<Rightarrow> ('h \<Rightarrow> bool) \<Rightarrow> DuckDBFileInfo \<Rightarrow> byte list \<Rightarrow> bool" where
  "http_file X J file c \<longleftrightarrow> remote file \<and> dataUrl file \<noteq> None \<and> honest X J file c"

definition memory_ok :: "'e wasm \<Rightarrow> ('e \<Rightarrow> bool) \<Rightarrow> ('e \<Rightarrow> (nat \<times> nat) list) \<Rightarrow> bool" where
  "memory_ok W I L \<longleftrightarrow> heap_is_memory W I \<and> malloc_ok W I L \<and> cells_ok W I"

definition goes_on :: "('e \<Rightarrow> bool) \<Rightarrow> ('h \<Rightarrow> bool) \<Rightarrow> ('e, 'h) browser \<Rightarrow> ('e, 'h) browser \<Rightarrow> bool" where
  "goes_on I J s t \<longleftrightarrow> I (br_wasm t) \<and> J (br_net t) \<and> t = s\<lparr>br_wasm := br_wasm t, br_net := br_net t\<rparr>"

lemma goes_on_refl: "I (br_wasm s) \<Longrightarrow> J (br_net s) \<Longrightarrow> goes_on I J s s"
  by (simp add: goes_on_def)

lemma goes_on_trans: "goes_on I J s t \<Longrightarrow> goes_on I J t u \<Longrightarrow> goes_on I J s u"
  unfolding goes_on_def by (cases s; cases t; cases u) simp

lemma goes_on_net: "goes_on I J s t \<Longrightarrow> J h \<Longrightarrow> goes_on I J s (t\<lparr>br_net := h\<rparr>)"
  by (rule goes_on_trans [of I J s t]) (simp_all add: goes_on_def)

lemma goes_on_wasm: "goes_on I J s t \<Longrightarrow> I e \<Longrightarrow> goes_on I J s (t\<lparr>br_wasm := e\<rparr>)"
  by (rule goes_on_trans [of I J s t]) (simp_all add: goes_on_def)

lemma goes_on_cache: "goes_on I J s t \<Longrightarrow> br_fileInfoCache t = br_fileInfoCache s"
  unfolding goes_on_def by (cases s; cases t) simp

lemma request_head:
  assumes "http_file X J file c" "goes_on I J s t"
  obtains r t' where "file_request X ''HEAD'' file None None (range_header ''0-'') t = (Inr r, t')" "goes_on I J s t'"
    "xr_contentLength r \<in> {None, Some (show_nat (length c))}"
proof -
  from assms obtain u r h where "dataUrl file = Some u" "answered X file ''HEAD'' (range_header ''0-'') (br_net t) = (Inr r, h)"
    "J h" "xr_contentLength r \<in> {None, Some (show_nat (length c))}"
    unfolding http_file_def honest_def goes_on_def by blast
  moreover have "goes_on I J s (t\<lparr>br_net := h\<rparr>)"
    by (rule goes_on_net [OF assms(2) calculation(3)])
  ultimately show ?thesis by (intro that [of r "t\<lparr>br_net := h\<rparr>"]) (simp_all add: file_request_answered in_net_def)
qed

lemma request_first:
  assumes "http_file X J file c" "goes_on I J s t"
  obtains r t' where "file_request X ''GET'' file None None (range_header ''0-0'') t = (Inr r, t')" "goes_on I J s t'"
    "xr_status r = 200 \<Longrightarrow> xr_response r = c" "\<And>l. xr_contentLength r = Some l \<Longrightarrow> list_all is_digit l"
proof -
  from assms obtain u r h where "dataUrl file = Some u" "answered X file ''GET'' (range_header ''0-0'') (br_net t) = (Inr r, h)"
    "J h" "xr_status r = 200 \<longrightarrow> xr_response r = c" "\<forall>l. xr_contentLength r = Some l \<longrightarrow> list_all is_digit l"
    unfolding http_file_def honest_def goes_on_def by blast
  moreover have "goes_on I J s (t\<lparr>br_net := h\<rparr>)"
    by (rule goes_on_net [OF assms(2) calculation(3)])
  ultimately show ?thesis by (intro that [of r "t\<lparr>br_net := h\<rparr>"]) (simp_all add: file_request_answered in_net_def)
qed

lemma request_all:
  assumes "http_file X J file c" "goes_on I J s t"
  obtains r t' where "file_request X ''GET'' file None None [] t = (Inr r, t')" "goes_on I J s t'"
    "xr_status r = 200 \<Longrightarrow> xr_response r = c" "xr_status r \<noteq> 200 \<Longrightarrow> refuses_whole_reads X J file"
proof -
  from assms obtain u r h where "dataUrl file = Some u" "answered X file ''GET'' [] (br_net t) = (Inr r, h)"
    "J h" "xr_status r = 200 \<longrightarrow> xr_response r = c" "J (br_net t)"
    unfolding http_file_def honest_def goes_on_def by blast
  moreover have "goes_on I J s (t\<lparr>br_net := h\<rparr>)"
    by (rule goes_on_net [OF assms(2) calculation(3)])
  moreover have "xr_status r \<noteq> 200 \<Longrightarrow> refuses_whole_reads X J file"
    using calculation(2,5) unfolding refuses_whole_reads_def by blast
  ultimately show ?thesis by (intro that [of r "t\<lparr>br_net := h\<rparr>"]) (simp_all add: file_request_answered in_net_def)
qed

lemma goes_on_open_result:
  assumes m: "memory_ok W I L" and g: "goes_on I J s t"
  obtains p t' where "open_result W (int (length c)) 0 x t = (Inr p, t')" "goes_on I J s t'" "reports W c p (br_wasm t')"
proof -
  have "malloc_ok W I L" "cells_ok W I" "I (br_wasm t)" using m g by (simp_all add: memory_ok_def goes_on_def)
  from open_result_reports [OF this] obtain p e where
    "open_result W (int (length c)) 0 x t = (Inr p, t\<lparr>br_wasm := e\<rparr>)" "I e" "reports W c p e" by metis
  moreover have "goes_on I J s (t\<lparr>br_wasm := e\<rparr>)"
    by (rule goes_on_wasm [OF g calculation(2)])
  ultimately show ?thesis using that by simp
qed

lemma goes_on_full_buffer:
  assumes m: "memory_ok W I L" and g: "goes_on I J s t"
  obtains p t' where "full_buffer X W r t = (Inr p, t')" "goes_on I J s t'" "reports W (xr_response r) p (br_wasm t')"
proof -
  have "heap_is_memory W I" "malloc_ok W I L" "cells_ok W I" "I (br_wasm t)" using m g by (simp_all add: memory_ok_def goes_on_def)
  from full_buffer_reports [OF this] obtain p e where
    "full_buffer X W r t = (Inr p, t\<lparr>br_wasm := e\<rparr>)" "I e" "reports W (xr_response r) p e" by metis
  moreover have "goes_on I J s (t\<lparr>br_wasm := e\<rparr>)"
    by (rule goes_on_wasm [OF g calculation(2)])
  ultimately show ?thesis using that by simp
qed

lemma split_on_absent: "c \<notin> set s \<Longrightarrow> split_on c s = [s]"
  by (induction s) auto

lemma content_range_digits: "(\<And>l. len = Some l \<Longrightarrow> list_all is_digit l) \<Longrightarrow> content_range len = None"
proof (cases len)
  case (Some l)
  assume "\<And>l. len = Some l \<Longrightarrow> list_all is_digit l"
  with Some have "CHR ''/'' \<notin> set l" by (auto simp: list_all_iff is_digit_def)
  with Some show ?thesis by (simp add: content_range_def split_on_absent)
qed (simp add: content_range_def)

abbreviation right_length :: "byte list \<Rightarrow> string option \<Rightarrow> bool" where
  "right_length c len \<equiv> len \<in> {None, Some (show_nat (length c))}"

lemma probe_head_ok:
  assumes m: "memory_ok W I L" and f: "http_file X J file c" and g: "goes_on I J s t"
  obtains r t' where "probe_head X W file t = (Inr r, t')" "goes_on I J s t'"
    "case r of Opened p \<Rightarrow> reports W c p (br_wasm t') | Probed len err \<Rightarrow> right_length c len \<and> err = None"
proof (cases "\<not> forceFullHttpReads file \<and> (reliableHeadRequests file \<or> \<not> allowFullHttpReads file)")
  case True
  obtain r t1 where r: "file_request X ''HEAD'' file None None (range_header ''0-'') t = (Inr r, t1)" "goes_on I J s t1"
    "right_length c (xr_contentLength r)"
    using request_head [OF f g] by metis
  show ?thesis
  proof (cases "xr_contentLength r = Some (show_nat (length c)) \<and> xr_status r = 206")
    case True
    obtain p t' where p: "open_result W (int (length c)) 0 (modification_time X r) t1 = (Inr p, t')" "goes_on I J s t'"
      "reports W c p (br_wasm t')" using goes_on_open_result [OF m r(2)] by metis
    show ?thesis
    proof (rule that [of "Opened p" t'])
      show "probe_head X W file t = (Inr (Opened p), t')"
        using True \<open>\<not> forceFullHttpReads file \<and> _\<close> r(1) p(1) by (simp add: probe_head_def js_try_def js_bind_def js_ret_def cell_def)
    qed (use p in simp_all)
  next
    case False
    show ?thesis
    proof (rule that [of "Probed (xr_contentLength r) None" t1])
      show "probe_head X W file t = (Inr (Probed (xr_contentLength r) None), t1)"
        using False \<open>\<not> forceFullHttpReads file \<and> _\<close> r by (auto simp: probe_head_def js_try_def js_bind_def js_ret_def)
    qed (use r in simp_all)
  qed
next
  case False
  then show ?thesis using that [of "Probed None None" t] g by (auto simp: probe_head_def js_ret_def)
qed

lemma presumed_length_ok:
  assumes f: "http_file X J file c" and g: "goes_on I J s t" and len: "right_length c len"
    and digits: "\<And>l. xr_contentLength r = Some l \<Longrightarrow> list_all is_digit l"
  obtains len' presumed t' where "presumed_length X file len r t = (Inr (len', presumed), t')" "goes_on I J s t'"
    "right_length c len'" "right_length c presumed"
proof (cases "reliableHeadRequests file")
  case True
  then show ?thesis using that [of len None t] g len content_range_digits [OF digits] by (simp add: presumed_length_def js_ret_def)
next
  case False
  obtain h t1 where h: "file_request X ''HEAD'' file None None (range_header ''0-'') t = (Inr h, t1)" "goes_on I J s t1"
    "right_length c (xr_contentLength h)"
    using request_head [OF f g] by metis
  let ?presumed = "case xr_contentLength h of Some l \<Rightarrow> if num_gt (to_number l) 1 then Some l else None | None \<Rightarrow> None"
  have "presumed_length X file len r t = (Inr (xr_contentLength h, ?presumed), t1)"
    using False h(1) content_range_digits [OF digits] by (simp add: presumed_length_def js_bind_def js_ret_def)
  moreover have "right_length c ?presumed" using h(3) by auto
  ultimately show ?thesis by (rule that [OF _ h(2,3)])
qed

lemma probe_get_ok:
  assumes m: "memory_ok W I L" and f: "http_file X J file c" and g: "goes_on I J s t" and len: "right_length c len"
  obtains r t' where "probe_get X W file len t = (Inr r, t')" "goes_on I J s t'"
    "case r of None \<Rightarrow> True | Some p \<Rightarrow> reports W c p (br_wasm t')"
proof -
  obtain r t1 where r: "file_request X ''GET'' file None None (range_header ''0-0'') t = (Inr r, t1)" "goes_on I J s t1"
    "xr_status r = 200 \<Longrightarrow> xr_response r = c" "\<And>l. xr_contentLength r = Some l \<Longrightarrow> list_all is_digit l"
    using request_first [OF f g] by metis
  obtain len' presumed t2 where l: "presumed_length X file len r t1 = (Inr (len', presumed), t2)" "goes_on I J s t2"
    "right_length c len'" "right_length c presumed"
    using presumed_length_ok [OF f r(2) len r(4)] by metis
  let ?parts = "xr_status r = 206 \<and> xr_contentLength r \<noteq> None \<and> to_number (the (xr_contentLength r)) = Some 1 \<and> presumed \<noteq> None"
  let ?whole = "xr_status r = 200 \<and> xr_contentLength r \<noteq> None \<and> len' \<noteq> None
       \<and> num_eq (to_number (the (xr_contentLength r))) (to_number (the len'))"
  consider "?parts" | "\<not> ?parts" "?whole" | "\<not> ?parts" "\<not> ?whole" by blast
  then show ?thesis
  proof cases
    case 1
    obtain p t' where p: "open_result W (int (length c)) 0 (modification_time X r) t2 = (Inr p, t')" "goes_on I J s t'"
      "reports W c p (br_wasm t')" using goes_on_open_result [OF m l(2)] by metis
    show ?thesis
    proof (rule that [of "Some p" t'])
      show "probe_get X W file len t = (Inr (Some p), t')"
        using 1 l(4) r(1) l(1) p(1) by (auto simp: probe_get_def js_bind_def js_ret_def cell_def)
    qed (use p in simp_all)
  next
    case 2
    obtain p t' where p: "full_buffer X W r t2 = (Inr p, t')" "goes_on I J s t'"
      "reports W (xr_response r) p (br_wasm t')" using goes_on_full_buffer [OF m l(2)] by metis
    show ?thesis
    proof (rule that [of "Some p" t'])
      show "probe_get X W file len t = (Inr (Some p), t')"
        using 2 r(1) l(1) p(1) by (simp add: probe_get_def js_bind_def js_ret_def)
    qed (use p 2 r(3) in simp_all)
  next
    case 3
    show ?thesis
    proof (rule that [of None t2])
      show "probe_get X W file len t = (Inr None, t2)"
        using 3 r(1) l(1) unfolding probe_get_def js_bind_def js_ret_def by (simp split del: if_split) (simp add: if_not_P)
    qed (use l in simp_all)
  qed
qed

lemma full_read_ok:
  assumes m: "memory_ok W I L" and f: "http_file X J file c" and g: "goes_on I J s t"
  obtains q t' where "full_read X W file t = (Inr q, t')" "goes_on I J s t'"
    "case q of Some p \<Rightarrow> reports W c p (br_wasm t') | None \<Rightarrow> refuses_whole_reads X J file"
proof -
  obtain r t1 where r: "file_request X ''GET'' file None None [] t = (Inr r, t1)" "goes_on I J s t1"
    "xr_status r = 200 \<Longrightarrow> xr_response r = c" "xr_status r \<noteq> 200 \<Longrightarrow> refuses_whole_reads X J file"
    using request_all [OF f g] by metis
  show ?thesis
  proof (cases "xr_status r = 200")
    case True
    obtain p t' where p: "full_buffer X W r t1 = (Inr p, t')" "goes_on I J s t'"
      "reports W (xr_response r) p (br_wasm t')" using goes_on_full_buffer [OF m r(2)] by metis
    have "full_read X W file t = (Inr (Some p), t')" using r(1) True p(1) by (simp add: full_read_def js_bind_def js_ret_def)
    with p r(3) True that [of "Some p" t'] show ?thesis by simp
  next
    case False
    have "full_read X W file t = (Inr None, t1)" using r(1) False by (simp add: full_read_def js_bind_def js_ret_def)
    with r(2,4) False that [of None t1] show ?thesis by simp
  qed
qed

lemma open_http_read_ok:
  assumes m: "memory_ok W I L" and f: "http_file X J file c" and g: "goes_on I J s t"
  obtains p t' where "open_http_read X W file t = (Inr p, t')" "goes_on I J s t'"
    "reports W c p (br_wasm t') \<or> p = 0 \<and> (\<not> allowFullHttpReads file \<or> refuses_whole_reads X J file)"
proof -
  obtain r t1 where r: "probe_head X W file t = (Inr r, t1)" "goes_on I J s t1"
    "case r of Opened p \<Rightarrow> reports W c p (br_wasm t1) | Probed len err \<Rightarrow> right_length c len \<and> err = None"
    using probe_head_ok [OF m f g] by metis
  show ?thesis
  proof (cases r)
    case (Opened p)
    with r that [of p t1] show ?thesis by (simp add: open_http_read_def js_bind_def js_ret_def)
  next
    case (Probed len err)
    with r have len: "right_length c len" and err: "err = None" by simp_all
    show ?thesis
    proof (cases "allowFullHttpReads file")
      case False
      with r Probed err that [of 0 t1] show ?thesis by (simp add: open_http_read_def js_bind_def js_ret_def)
    next
      case True
      have "\<exists>q t2. (if \<not> forceFullHttpReads file then probe_get X W file len else js_ret None) t1 = (Inr q, t2)
        \<and> goes_on I J s t2 \<and> (case q of None \<Rightarrow> True | Some p \<Rightarrow> reports W c p (br_wasm t2))"
      proof (cases "forceFullHttpReads file")
        case True
        with r(2) show ?thesis by (simp add: js_ret_def)
      next
        case False
        with probe_get_ok [OF m f r(2) len] show ?thesis by (simp del: insert_iff) metis
      qed
      then obtain q t2 where q: "(if \<not> forceFullHttpReads file then probe_get X W file len else js_ret None) t1 = (Inr q, t2)"
        "goes_on I J s t2" "case q of None \<Rightarrow> True | Some p \<Rightarrow> reports W c p (br_wasm t2)" by blast
      show ?thesis
      proof (cases q)
        case (Some p)
        with q r Probed True that [of p t2] show ?thesis by (simp add: open_http_read_def js_bind_def js_ret_def)
      next
        case None
        obtain w t' where w: "full_read X W file t2 = (Inr w, t')" "goes_on I J s t'"
          "case w of Some p \<Rightarrow> reports W c p (br_wasm t') | None \<Rightarrow> refuses_whole_reads X J file"
          using full_read_ok [OF m f q(2)] by metis
        show ?thesis
        proof (cases w)
          case (Some p)
          with w q(1) r Probed True None that [of p t'] show ?thesis by (simp add: open_http_read_def js_bind_def js_ret_def)
        next
          case no_read: None
          with w q(1) r Probed True None err that [of 0 t'] show ?thesis by (simp add: open_http_read_def js_bind_def js_ret_def)
        qed
      qed
    qed
  qed
qed

text \<open>The engine describes a file, to a caller that has no info of it, by a JSON text in its heap.\<close>

definition engine_describes :: "'e wasm \<Rightarrow> ('e \<Rightarrow> bool) \<Rightarrow> nat \<Rightarrow> DuckDBFileInfo \<Rightarrow> bool" where
  "engine_describes W I fid file \<longleftrightarrow> (\<forall>e. I e \<longrightarrow> (\<exists>d n e' e'' info.
     callSRet W ''duckdb_web_fs_get_file_info_by_id'' [A_num (int fid), A_num 0] e = (Inr (SUCCESS, d, n), e') \<and> n > 0
     \<and> JSON_parse (text_decode (heap_view W d n e')) = Inr info \<and> info \<noteq> JNull \<and> file_info_of_json info = file
     \<and> dropResponseBuffers W e' = (Inr (), e'') \<and> I e''))"

lemma adopt_handle_fields [simp]:
  "br_wasm (adopt_handle k s) = br_wasm s" "br_net (adopt_handle k s) = br_net s" "br_opfs (adopt_handle k s) = br_opfs s"
  "br_fileInfoCache (adopt_handle k s) = br_fileInfoCache s"
  by (simp_all add: adopt_handle_def split: option.splits)

lemma getFileInfo_remembers:
  assumes "engine_describes W I fid file" "I (br_wasm s)" "jm_get (br_fileInfoCache s) fid = None"
  obtains e where "getFileInfo W fid s = (Inr (Some file), remember_file fid file (s\<lparr>br_wasm := e\<rparr>))" "I e"
proof -
  obtain d n e e' info where e: "callSRet W ''duckdb_web_fs_get_file_info_by_id'' [A_num (int fid), A_num 0] (br_wasm s) =
      (Inr (SUCCESS, d, n), e)" "n > 0" "JSON_parse (text_decode (heap_view W d n e)) = Inr info" "info \<noteq> JNull"
    "file_info_of_json info = file" "dropResponseBuffers W e = (Inr (), e')" "I e'"
    using assms(1,2) unfolding engine_describes_def by blast
  have "getFileInfo W fid s = (Inr (Some file), remember_file fid file (s\<lparr>br_wasm := e'\<rparr>))"
    using e assms(3) by (simp add: getFileInfo_def ask_file_info_def js_try_def js_bind_def js_ret_def js_modify_def in_wasm_def readString_def)
  with e(7) that show ?thesis by blast
qed

lemma getFileInfo_described:
  assumes "engine_describes W I fid file" "I (br_wasm s)" "jm_get (br_fileInfoCache s) fid = None"
  obtains t where "getFileInfo W fid s = (Inr (Some file), t)" "I (br_wasm t)" "br_net t = br_net s"
    "jm_get (br_fileInfoCache t) fid = Some file"
proof -
  from getFileInfo_remembers [OF assms] obtain e where
    e: "getFileInfo W fid s = (Inr (Some file), remember_file fid file (s\<lparr>br_wasm := e\<rparr>))" "I e" by metis
  show ?thesis by (rule that [OF e(1)]) (simp_all add: remember_file_def e(2))
qed


section \<open>A module to try it on\<close>

text \<open>
  A heap that grows with every block, cells of their own, and an engine that knows the one file of a text: it answers
  the epoch 7 with nothing and any other with the text, put at the address 64.
\<close>

record toy =
  toy_heap :: "byte list"
  toy_cells :: "nat \<Rightarrow> int"
  toy_next :: nat
  toy_blocks :: "(nat \<times> nat) list"

definition toy_start :: toy where
  "toy_start = \<lparr>toy_heap = replicate 512 7, toy_cells = (\<lambda>_. 0), toy_next = 512, toy_blocks = []\<rparr>"

definition toy_ccall :: "string \<Rightarrow> string \<Rightarrow> ccall_arg list \<Rightarrow> (toy, int) jsm" where
  "toy_ccall txt f args e =
     (if f = ''duckdb_web_fs_get_file_info_by_id'' then
        (case args of
           [r, i, A_num epoch] \<Rightarrow>
             if epoch = 7 then (Inr 0, e\<lparr>toy_cells := (toy_cells e)(0 := SUCCESS, 1 := 0, 2 := 0)\<rparr>)
             else (Inr 0, e\<lparr>toy_cells := (toy_cells e)(0 := SUCCESS, 1 := 64, 2 := int (length txt)),
                            toy_heap := overwrite 64 (text_encode txt) (toy_heap e)\<rparr>)
         | _ \<Rightarrow> (Inr 0, e))
      else (Inr 0, e))"

definition toy_wasm :: "string \<Rightarrow> toy wasm" where
  "toy_wasm txt = \<lparr>w_HEAPU8 = toy_heap, w_setHEAPU8 = (\<lambda>p bs e. e\<lparr>toy_heap := overwrite p bs (toy_heap e)\<rparr>),
     w_HEAPF64 = toy_cells, w_setHEAPF64 = (\<lambda>i v e. e\<lparr>toy_cells := (toy_cells e)(i := v)\<rparr>), w_setHEAP32 = (\<lambda>_ _ e. e),
     w_stackSave = (\<lambda>_. 0), w_stackAlloc = (\<lambda>_ e. (0, e)), w_stackRestore = (\<lambda>_ e. e),
     w_malloc = (\<lambda>n e. (toy_next e, e\<lparr>toy_next := toy_next e + 8 * ((n + 7) div 8), toy_blocks := (toy_next e, n) # toy_blocks e,
        toy_heap := toy_heap e @ replicate (n + 8) 0\<rparr>)),
     w_free = (\<lambda>_ e. e), w_ccall = toy_ccall txt, w_memory = (\<lambda>_. 0), w_sharedMemory = (\<lambda>_. False), w_pthread = (\<lambda>_. None)\<rparr>"

definition toy_inv :: "toy \<Rightarrow> bool" where
  "toy_inv e \<longleftrightarrow> 512 \<le> length (toy_heap e) \<and> 8 dvd toy_next e \<and> toy_next e \<le> length (toy_heap e)
     \<and> (\<forall>(q, m) \<in> set (toy_blocks e). q + m \<le> toy_next e)"

lemma toy_start_inv: "toy_inv toy_start"
  by (simp add: toy_inv_def toy_start_def)

lemma toy_epoch: "epoch_is_current (toy_wasm txt) toy_inv fid 7"
  by (simp add: epoch_is_current_def callSRet_def toy_wasm_def toy_ccall_def toy_inv_def Let_def)

lemma toy_memory: "memory_ok (toy_wasm txt) toy_inv toy_blocks"
proof -
  have "heap_is_memory (toy_wasm txt) toy_inv" by (auto simp: heap_is_memory_def toy_wasm_def toy_inv_def)
  moreover have "cells_ok (toy_wasm txt) toy_inv" by (auto simp: cells_ok_def toy_wasm_def toy_inv_def)
  moreover have "malloc_ok (toy_wasm txt) toy_inv toy_blocks"
    by (auto simp: malloc_ok_def toy_wasm_def toy_inv_def apart_def subarray_def)
  ultimately show ?thesis by (simp add: memory_ok_def)
qed

lemma toy_describes:
  assumes "JSON_parse txt = Inr info" "info \<noteq> JNull" "0 < length txt" "length txt \<le> 256"
  shows "engine_describes (toy_wasm txt) toy_inv fid (file_info_of_json info)"
proof -
  have "subarray 64 (64 + length txt) (overwrite 64 (text_encode txt) heap) = text_encode txt" if "512 \<le> length heap" for heap
    using subarray_overwrite [of 64 "text_encode txt" heap] assms(4) that by simp
  with assms show ?thesis
    by (simp add: engine_describes_def callSRet_def dropResponseBuffers_def js_bind_def js_ret_def toy_wasm_def toy_ccall_def
        toy_inv_def Let_def heap_view_def)
qed

text \<open>A server without ranges that holds three bytes, and a worker in front of it.\<close>

definition toy_web :: "unit web" where
  "toy_web = \<lparr>web_send = (\<lambda>r h. (Inr \<lparr>xr_status = 200, xr_statusText = ''OK'',
       xr_response = (if xr_method r = ''GET'' then [1, 2, 3] else []), xr_contentLength = Some (show_nat 3), xr_lastModified = None\<rparr>, h)),
     web_clock = (\<lambda>_. ([], [])), web_seconds = (\<lambda>_. 0), web_date = (\<lambda>_. None), web_nan = -1, web_name = ''w'',
     web_blob = (\<lambda>_. []), web_storage = Inr (), web_sha = \<lparr>sha256 = (\<lambda>_. []), sha256_hex = (\<lambda>_. []), hmac_bytes = (\<lambda>_ _. []), hmac_hex = (\<lambda>_ _. [])\<rparr>,
     web_urls = \<lparr>url_host = (\<lambda>_. Inr []), url_pathname = (\<lambda>_. Inr [])\<rparr>\<rparr>"

definition toy_text :: string where
  "toy_text = stringify (JObj [(''cacheEpoch'', JNum 7), (''fileId'', JNum 1), (''fileName'', JStr ''f''), (''dataProtocol'', JNum 4),
     (''dataUrl'', JStr ''u''), (''allowFullHttpReads'', JBool True)])"

definition toy_file :: DuckDBFileInfo where
  "toy_file = \<lparr>cacheEpoch = 7, fileId = 1, fileName = ''f'', dataProtocol = HTTP, dataUrl = Some ''u'', reliableHeadRequests = False,
     allowFullHttpReads = True, forceFullHttpReads = False, s3Config = None\<rparr>"

lemma toy_file_described: "engine_describes (toy_wasm toy_text) toy_inv fid toy_file"
proof -
  let ?info = "JObj [(''cacheEpoch'', JNum 7), (''fileId'', JNum 1), (''fileName'', JStr ''f''), (''dataProtocol'', JNum 4),
     (''dataUrl'', JStr ''u''), (''allowFullHttpReads'', JBool True)]"
  have "JSON_parse toy_text = Inr ?info" by code_simp
  moreover have "0 < length toy_text \<and> length toy_text \<le> 256" by code_simp
  moreover have "file_info_of_json ?info = toy_file" by code_simp
  ultimately show ?thesis using toy_describes [of toy_text ?info] by simp
qed

lemma three_digits: "list_all is_digit (show_nat 3)" by code_simp

lemma toy_answers: "answered toy_web toy_file meth hs = web_send toy_web \<lparr>xr_method = meth, xr_url = ''u'', xr_headers = hs, xr_body = None\<rparr>"
  by (simp add: answered_http toy_file_def)

lemma toy_server: "honest toy_web (\<lambda>_. True) toy_file [1, 2, 3]" "serves toy_web (\<lambda>_. True) toy_file [1, 2, 3]"
  using three_digits by (simp_all add: honest_def serves_def toy_answers) (simp_all add: toy_web_def numeral_3_eq_3)


text \<open>The open files of the three kinds.\<close>

definition toy_opened :: "DuckDBFileInfo \<Rightarrow> (toy, unit) browser" where
  "toy_opened file = (BROWSER_RUNTIME toy_start () \<lparr>op_nodes = [([''f''], OP_file [9])], op_open = [(4, [''f''])], op_next = 5\<rparr>)
     \<lparr>br_fileInfoCache := [(1, file)], br_files := [(''f'', SyncAccessHandle 4)]\<rparr>"

definition toy_opfs_file :: DuckDBFileInfo where
  "toy_opfs_file = toy_file\<lparr>dataProtocol := BROWSER_FSACCESS\<rparr>"

theorem readFile_is_slice_witness:
  "\<exists>s'. readFile toy_web (toy_wasm toy_text) 1 16 8 1 (toy_opened toy_file) = (Inr 2, s')
    \<and> w_HEAPU8 (toy_wasm toy_text) (br_wasm s') = overwrite 16 [2, 3] (w_HEAPU8 (toy_wasm toy_text) (br_wasm (toy_opened toy_file)))"
proof -
  have m: "heap_is_memory (toy_wasm toy_text) toy_inv" using toy_memory by (simp add: memory_ok_def)
  have e: "epoch_is_current (toy_wasm toy_text) toy_inv 1 (cacheEpoch toy_file)" using toy_epoch by (simp add: toy_file_def)
  have c: "content_of toy_web (\<lambda>_. True) (toy_opened toy_file) 1 toy_file [1, 2, 3]"
    using toy_server by (simp add: content_of_def toy_opened_def toy_file_def)
  have i: "toy_inv (br_wasm (toy_opened toy_file))" "16 + 8 \<le> length (w_HEAPU8 (toy_wasm toy_text) (br_wasm (toy_opened toy_file)))"
    using toy_start_inv by (simp_all add: toy_opened_def BROWSER_RUNTIME_def toy_wasm_def toy_start_def)
  have "(1 :: nat) < length [1, 2, 3 :: byte]" "(0 :: nat) < 8" by simp_all
  note r = readFile_is_slice [OF e m i(1) c this(1) i(2) this(2)]
  have "subarray 1 (1 + 8) [1, 2, 3 :: byte] = [2, 3]" by code_simp
  then show ?thesis using r by (metis length_Cons list.size(3) numeral_2_eq_2)
qed

theorem opfs_write_read_witness:
  "\<exists>s1 s2. writeFile toy_web (toy_wasm toy_text) 1 0 4 3 (toy_opened toy_opfs_file) = (Inr 4, s1)
    \<and> readFile toy_web (toy_wasm toy_text) 1 16 4 3 s1 = (Inr 4, s2)
    \<and> subarray 16 (16 + 4) (w_HEAPU8 (toy_wasm toy_text) (br_wasm s2)) = [7, 7, 7, 7]
    \<and> length (file_bytes (br_opfs s2) [''f'']) = 7"
proof -
  let ?s = "toy_opened toy_opfs_file"
  have m: "heap_is_memory (toy_wasm toy_text) toy_inv" using toy_memory by (simp add: memory_ok_def)
  have e: "epoch_is_current (toy_wasm toy_text) toy_inv 1 (cacheEpoch toy_opfs_file)"
    using toy_epoch by (simp add: toy_opfs_file_def toy_file_def)
  have f: "opfs_file ?s 1 toy_opfs_file 4 [''f'']"
    by (simp add: opfs_file_def toy_opened_def toy_opfs_file_def toy_file_def BROWSER_RUNTIME_def sah_path_def)
  have i: "toy_inv (br_wasm ?s)" using toy_start_inv by (simp add: toy_opened_def BROWSER_RUNTIME_def)
  have h: "w_HEAPU8 (toy_wasm toy_text) (br_wasm ?s) = replicate 512 7" "file_bytes (br_opfs ?s) [''f''] = [9]"
    by (simp_all add: toy_opened_def BROWSER_RUNTIME_def toy_wasm_def toy_start_def file_bytes_def)
  have "0 + 4 \<le> length (w_HEAPU8 (toy_wasm toy_text) (br_wasm ?s))" "16 + 4 \<le> length (w_HEAPU8 (toy_wasm toy_text) (br_wasm ?s))"
    "(0 :: nat) < 4" unfolding h by simp_all
  note r = opfs_write_read [OF e m i f this, where at = 3 and X = toy_web]
  have "subarray 0 (0 + 4) (replicate 512 7) = [7, 7, 7, 7 :: byte]" by (simp add: subarray_def numeral_eq_Suc)
  moreover have "max (length [9 :: byte]) (3 + 4) = 7" by simp
  ultimately show ?thesis using r unfolding h by metis
qed

text \<open>A server that forbids \<open>HEAD\<close> with an error page: the length of the page is taken for that of the file.\<close>

definition forbidding_web :: "unit web" where
  "forbidding_web = toy_web\<lparr>web_send := (\<lambda>r h. (Inr
     (if xr_method r = ''HEAD''
      then \<lparr>xr_status = 403, xr_statusText = ''Forbidden'', xr_response = [], xr_contentLength = Some ''243'', xr_lastModified = None\<rparr>
      else \<lparr>xr_status = 206, xr_statusText = ''Partial Content'', xr_response = [1], xr_contentLength = Some ''1'', xr_lastModified = None\<rparr>), h))\<rparr>"

lemma forbidding_send: "web_send forbidding_web r h = (Inr
     (if xr_method r = ''HEAD''
      then \<lparr>xr_status = 403, xr_statusText = ''Forbidden'', xr_response = [], xr_contentLength = Some ''243'', xr_lastModified = None\<rparr>
      else \<lparr>xr_status = 206, xr_statusText = ''Partial Content'', xr_response = [1], xr_contentLength = Some ''1'', xr_lastModified = None\<rparr>), h)"
  by (simp add: forbidding_web_def)

lemma error_page_gives_the_length:
  "\<exists>p s'. openFile forbidding_web (toy_wasm toy_text) 1 1 (BROWSER_RUNTIME toy_start () empty_opfs) = (Inr p, s')
     \<and> w_HEAPF64 (toy_wasm toy_text) (br_wasm s') (p div 8) = 243"
proof -
  let ?W = "toy_wasm toy_text" and ?s = "BROWSER_RUNTIME toy_start () empty_opfs"
  have i: "toy_inv (br_wasm ?s)" "jm_get (br_fileInfoCache ?s) 1 = None" using toy_start_inv by (simp_all add: BROWSER_RUNTIME_def)
  from getFileInfo_described [OF toy_file_described i] obtain t :: "(toy, unit) browser"
    where t: "getFileInfo ?W 1 ?s = (Inr (Some toy_file), t)" "toy_inv (br_wasm t)" by metis
  have f: "dataProtocol toy_file = HTTP" "dataUrl toy_file = Some ''u''" "reliableHeadRequests toy_file = False"
    "allowFullHttpReads toy_file = True" "forceFullHttpReads toy_file = False" by (simp_all add: toy_file_def)
  have n: "to_number ''243'' = Some 243" "to_number ''1'' = Some 1" "content_range (Some ''1'') = None" by code_simp+
  have mem: "malloc_ok ?W toy_inv toy_blocks" "cells_ok ?W toy_inv" using toy_memory by (simp_all add: memory_ok_def)
  let ?r = "\<lparr>xr_status = 206, xr_statusText = ''Partial Content'', xr_response = [1], xr_contentLength = Some ''1'', xr_lastModified = None\<rparr>"
  from open_result_cells [OF mem t(2), of 243 0 "modification_time forbidding_web ?r"] obtain p e where
    p: "open_result ?W 243 0 (modification_time forbidding_web ?r) t = (Inr p, t\<lparr>br_wasm := e\<rparr>)" "w_HEAPF64 ?W e (p div 8) = 243"
    by metis
  have net: "t\<lparr>br_net := ()\<rparr> = t" by (cases t) simp
  have "open_http_read forbidding_web ?W toy_file t = (Inr p, t\<lparr>br_wasm := e\<rparr>)"
    using p(1) by (simp add: open_http_read_def probe_head_def probe_get_def presumed_length_def f n js_bind_def js_ret_def
        file_request_answered [OF f(2)] answered_http [OF f(1,2)] in_net_def forbidding_send num_gt_def cell_def net)
  moreover have "has_flag 1 FILE_FLAGS_READ" "\<not> has_flag 1 FILE_FLAGS_WRITE" "\<not> has_flag 1 FILE_FLAGS_APPEND" by code_simp+
  ultimately have "openFile forbidding_web ?W 1 1 ?s = (Inr p, t\<lparr>br_wasm := e\<rparr>)"
    using t(1) f(1) by (simp add: openFile_def js_try_def js_bind_def js_modify_def open_http_def BROWSER_RUNTIME_def)
  with p(2) show ?thesis by simp
qed

end
