(* ===== verification/Hb_Runtime_Browser_Handles.thy ===== *)
theory Hb_Runtime_Browser_Handles
  imports Hb_Runtime_Browser_Props
begin

text \<open>
  The access handles of the browser's file access: what is registered or prepared under a name is open, no handle is
  known under two names, and no file of the origin private file system is opened twice. Every operation keeps this
  but \<open>moveFile\<close>, which leaves the handle under its old name as well.
\<close>

section \<open>The invariant\<close>

abbreviation file_of :: "('e, 'h) browser \<Rightarrow> string \<Rightarrow> nat \<Rightarrow> bool" where
  "file_of s k a \<equiv> jm_get (br_files s) k = Some (SyncAccessHandle a)"

abbreviation prepared_of :: "('e, 'h) browser \<Rightarrow> string \<Rightarrow> nat \<Rightarrow> bool" where
  "prepared_of s k a \<equiv> jm_get (br_preparedHandles s) k = Some (SyncAccessHandle a)"

definition locks_ok :: "opfs \<Rightarrow> bool" where
  "locks_ok fs \<longleftrightarrow> (\<forall>a p. sah_path fs a = Some p \<longrightarrow> a < op_next fs)
     \<and> (\<forall>a b p. sah_path fs a = Some p \<longrightarrow> sah_path fs b = Some p \<longrightarrow> a = b)"

definition handles_ok :: "('e, 'h) browser \<Rightarrow> bool" where
  "handles_ok s \<longleftrightarrow> locks_ok (br_opfs s)
     \<and> (\<forall>k a. file_of s k a \<or> prepared_of s k a \<longrightarrow> sah_path (br_opfs s) a \<noteq> None)
     \<and> (\<forall>k k' a. file_of s k a \<longrightarrow> file_of s k' a \<longrightarrow> k = k')
     \<and> (\<forall>k k' a. prepared_of s k a \<longrightarrow> prepared_of s k' a \<longrightarrow> k = k')
     \<and> (\<forall>k k' a. file_of s k a \<longrightarrow> \<not> prepared_of s k' a)"

lemma handles_ok_cong:
  "br_files t = br_files s \<Longrightarrow> br_preparedHandles t = br_preparedHandles s \<Longrightarrow> sah_path (br_opfs t) = sah_path (br_opfs s)
     \<Longrightarrow> op_next (br_opfs t) = op_next (br_opfs s) \<Longrightarrow> handles_ok t = handles_ok s"
  by (simp add: handles_ok_def locks_ok_def)

lemma handles_ok_updates [simp]:
  "handles_ok (s\<lparr>br_wasm := e\<rparr>) = handles_ok s" "handles_ok (s\<lparr>br_net := h\<rparr>) = handles_ok s"
  "handles_ok (s\<lparr>br_fileInfoCache := m\<rparr>) = handles_ok s" "handles_ok (s\<lparr>br_globalFileInfo := g\<rparr>) = handles_ok s"
  "handles_ok (s\<lparr>br_opfsRoot := b\<rparr>) = handles_ok s" "handles_ok (s\<lparr>br_posted := ms\<rparr>) = handles_ok s"
  by (simp_all add: handles_ok_def)

abbreviation keeps :: "('e, 'h, 'a) br \<Rightarrow> bool" where
  "keeps m \<equiv> js_keeps handles_ok m"

named_theorems keeps_intro \<open>operations that keep the handles as they should be\<close>

lemmas [keeps_intro] = js_keeps_ret js_keeps_throw js_keeps_bind js_keeps_try

lemma keeps_state: "(\<And>x. keeps (f x)) \<Longrightarrow> keeps (\<lambda>s. f s s)"
  by (simp add: js_keeps_def)

lemma keeps_in_wasm [keeps_intro]: "keeps (in_wasm m)"
  by (simp add: js_keeps_def in_wasm_def split: prod.splits)

lemma keeps_in_net [keeps_intro]: "keeps (in_net m)"
  by (simp add: js_keeps_def in_net_def split: prod.splits)

lemma keeps_modify [keeps_intro]: "(\<And>s. handles_ok (f s) = handles_ok s) \<Longrightarrow> keeps (js_modify f)"
  by (rule js_keeps_modify) simp

text \<open>Operations of the file system that neither open nor close a handle.\<close>

definition same_locks :: "(opfs, 'a) jsm \<Rightarrow> bool" where
  "same_locks m \<longleftrightarrow> (\<forall>fs. sah_path (snd (m fs)) = sah_path fs \<and> op_next (snd (m fs)) = op_next fs)"

lemma keeps_in_opfs [keeps_intro]: "same_locks m \<Longrightarrow> keeps (in_opfs m :: ('e, 'h, 'a) br)"
proof -
  assume "same_locks m"
  then have "handles_ok (s\<lparr>br_opfs := snd (m (br_opfs s))\<rparr>) = handles_ok s" for s :: "('e, 'h) browser"
    by (intro handles_ok_cong) (simp_all add: same_locks_def)
  then show ?thesis by (simp add: js_keeps_def in_opfs_def case_prod_unfold)
qed

lemma same_locks_sah [simp]:
  "same_locks (sah_read h n a)" "same_locks (sah_write h bs a)" "same_locks (sah_truncate h n)" "same_locks (sah_getSize h)"
  "same_locks (sah_flush h)" "same_locks (getDirectoryHandle d k c)" "same_locks (getFileHandle d k c)"
  by (auto simp: same_locks_def sah_defs sah_path_def fun_eq_iff getDirectoryHandle_def getFileHandle_def split: option.splits opfs_node.splits)

section \<open>Every operation keeps it\<close>

lemma handles_ok_adopt: "handles_ok s \<Longrightarrow> handles_ok (adopt_handle k s)"
  unfolding adopt_handle_def
  by (cases "jm_get (br_preparedHandles s) k") (auto simp: handles_ok_def jm_has_get)

lemma keeps_remember [keeps_intro]: "keeps (js_modify (remember_file fid f))"
  by (rule js_keeps_modify) (simp add: remember_file_def handles_ok_adopt)

lemma keeps_ask_file_info: "keeps (ask_file_info W fid cached)"
  unfolding ask_file_info_def by (auto intro!: keeps_intro split: sum.splits)

lemma keeps_ask_global_info: "keeps (ask_global_info W cached)"
  unfolding ask_global_info_def by (auto intro!: keeps_intro split: sum.splits)

lemma keeps_getFileInfo [keeps_intro]: "keeps (getFileInfo W fid)"
  unfolding getFileInfo_def 
  by (intro js_keeps_try js_keeps_ret) (simp add: js_keeps_def keeps_ask_file_info [unfolded js_keeps_def, rule_format])

lemma keeps_getGlobalFileInfo [keeps_intro]: "keeps (getGlobalFileInfo W)"
  unfolding getGlobalFileInfo_def 
  by (intro js_keeps_try js_keeps_ret) (simp add: js_keeps_def keeps_ask_global_info [unfolded js_keeps_def, rule_format])

lemma keeps_basic [keeps_intro]:
  "keeps (fail_with W msg)" "keeps (br_malloc W n)" "keeps (heap_write W bs p)" "keeps (write_result W p a b c)"
  "keeps (in_heap W p n)" "keeps (glob_add_path W k)"
  unfolding fail_with_def br_malloc_def heap_write_def write_result_def in_heap_def glob_add_path_def by (intro keeps_intro)+

lemma keeps_open_result [keeps_intro]: "keeps (open_result W a b c)"
  unfolding open_result_def by (intro keeps_intro)

lemma keeps_put_bytes [keeps_intro]: "keeps (put_bytes W buf bs)"
  unfolding put_bytes_def by (intro keeps_intro)

lemma keeps_full_buffer [keeps_intro]: "keeps (full_buffer X W r)"
  unfolding full_buffer_def by (intro keeps_intro)

lemma keeps_send_request [keeps_intro]: "keeps (send_request X req)"
  using keeps_in_net by (auto simp: js_keeps_def send_request_def split: sum.splits)

lemma keeps_file_request [keeps_intro]: "keeps (file_request X m f c p hs)"
  unfolding file_request_def by (auto intro!: keeps_intro split: option.splits)

lemma keeps_path_request [keeps_intro]: "keeps (path_request X W m sm p hs)"
  unfolding path_request_def by (auto intro!: keeps_intro)

lemma keeps_open_http_write [keeps_intro]: "keeps (open_http_write X W f fs)"
proof -
  have "keeps (\<lambda>s. open_result W 1 b (web_seconds X (br_net s)) s)" for b by (rule keeps_state) (rule keeps_intro)
  then show ?thesis unfolding open_http_write_def by (auto intro!: keeps_intro)
qed

lemma keeps_probe_head [keeps_intro]: "keeps (probe_head X W f)"
  unfolding probe_head_def by (auto intro!: keeps_intro split: option.splits)

lemma keeps_presumed_length [keeps_intro]: "keeps (presumed_length X f c r)"
  unfolding presumed_length_def by (auto intro!: keeps_intro)

lemma keeps_probe_get [keeps_intro]: "keeps (probe_get X W f c)"
  unfolding probe_get_def Let_def by (auto intro!: keeps_intro split: prod.splits)

lemma keeps_full_read [keeps_intro]: "keeps (full_read X W f)"
  unfolding full_read_def by (auto intro!: keeps_intro)

lemma keeps_open_http_read [keeps_intro]: "keeps (open_http_read X W f)"
  unfolding open_http_read_def by (auto intro!: keeps_intro split: probe.splits option.splits)

lemma keeps_open_http [keeps_intro]: "keeps (open_http X W f fs)"
  unfolding open_http_def by (auto intro!: keeps_intro)

lemma keeps_on_access_handle [keeps_intro]: "(\<And>h. same_locks (f h)) \<Longrightarrow> keeps (on_access_handle file m f)"
  using keeps_in_opfs by (auto simp: js_keeps_def on_access_handle_def split: option.splits file_handle.splits)

lemma keeps_registered [keeps_intro]: "keeps (registered f)"
  by (simp add: js_keeps_def registered_def)

lemma keeps_open_fsaccess [keeps_intro]: "keeps (open_fsaccess W f fs)"
  unfolding open_fsaccess_def by (auto intro!: keeps_intro)

lemma keeps_open_filereader [keeps_intro]: "keeps (open_filereader X W f fs)"
proof -
  have a: "keeps (open_result W x 0 0)" for x by (rule keeps_intro)
  have b: "keeps (js_bind (br_malloc W (3 * 8)) (\<lambda>r. js_bind (br_malloc W 1) (\<lambda>b. write_result W r 1 (int b) 0)))"
    by (intro keeps_intro)
  from a b show ?thesis by (auto simp: js_keeps_def open_filereader_def split: option.splits)
qed

lemma keeps_openFile: "keeps (openFile X W fid fs)"
  unfolding openFile_def by (auto intro!: keeps_intro split: option.splits DuckDBDataProtocol.splits)

lemma keeps_closeFile: "keeps (closeFile W fid)"
  unfolding closeFile_def by (auto intro!: keeps_intro split: option.splits)

lemma keeps_read_http [keeps_intro]: "keeps (read_http X W fid f buf n a)"
  unfolding read_http_def read_http_body_def by (auto intro!: keeps_intro split: sum.splits)

lemma keeps_read_filereader [keeps_intro]: "keeps (read_filereader X W f buf n a)"
  using keeps_put_bytes by (auto simp: js_keeps_def read_filereader_def split: option.splits file_handle.splits)

lemma keeps_read_fsaccess [keeps_intro]: "keeps (read_fsaccess W f buf n a)"
  unfolding read_fsaccess_def Let_def by (rule keeps_state) (auto intro!: keeps_intro)

lemma keeps_readFile: "keeps (readFile X W fid buf n a)"
  unfolding readFile_def by (auto intro!: keeps_intro split: option.splits DuckDBDataProtocol.splits)

lemma keeps_fail_returning [keeps_intro]: "keeps (fail_returning W msg x)"
  unfolding fail_returning_def by (intro keeps_intro)

lemma keeps_write_s3 [keeps_intro]: "keeps (write_s3 X W f buf n)"
  unfolding write_s3_def by (rule keeps_state) (auto intro!: keeps_intro)

lemma keeps_write_fsaccess [keeps_intro]: "keeps (write_fsaccess W f buf n a)"
  unfolding write_fsaccess_def by (rule keeps_state) (auto intro!: keeps_intro)

lemma keeps_writeFile: "keeps (writeFile X W fid buf n a)"
  unfolding writeFile_def by (auto intro!: keeps_intro split: option.splits DuckDBDataProtocol.splits)

lemma keeps_truncateFile: "keeps (truncateFile W fid n)"
  unfolding truncateFile_def by (auto intro!: keeps_intro split: option.splits DuckDBDataProtocol.splits)

lemma keeps_mtime: "keeps (getLastFileModificationTime X W fid)"
proof -
  have "keeps (\<lambda>s. (g s, s))" for g :: "('e, 'h) browser \<Rightarrow> int res" by (simp add: js_keeps_def)
  then have "keeps (\<lambda>s. case info of None \<Rightarrow> (Inr 0, s) | Some file \<Rightarrow> (case dataProtocol file of
       BROWSER_FILEREADER \<Rightarrow> if jm_has (br_files s) (fileName file) then (Inr 0, s)
         else (Inl (Error (''No handle available for file: '' @ fileName file)), s)
     | HTTP \<Rightarrow> (Inr (web_seconds X (br_net s)), s) | S3 \<Rightarrow> (Inr (web_seconds X (br_net s)), s) | _ \<Rightarrow> (Inr 0, s)))" for info
    by (auto simp: js_keeps_def split: option.splits DuckDBDataProtocol.splits)
  then show ?thesis unfolding getLastFileModificationTime_def by (intro js_keeps_bind keeps_intro)
qed

lemma keeps_glob_paths [keeps_intro]: "keeps (glob_add_paths W p ks)"
  by (induction W p ks rule: glob_add_paths.induct) (auto intro!: keeps_intro)

lemma keeps_glob_remote [keeps_intro]: "keeps (glob_remote X W p)"
  unfolding glob_remote_def by (auto intro!: keeps_intro)

lemma keeps_glob: "keeps (glob X W p n)"
proof -
  have "keeps (\<lambda>s. glob_add_paths W k (jm_keys (br_files s)) s)" for k by (rule keeps_state) (rule keeps_intro)
  then show ?thesis unfolding glob_def by (auto intro!: keeps_intro)
qed

lemma keeps_checkFile: "keeps (checkFile X W p n)"
proof -
  have "keeps (\<lambda>s. (Inr (jm_has (br_files s) k), s))" for k by (simp add: js_keeps_def)
  then show ?thesis unfolding checkFile_def by (auto intro!: keeps_intro)
qed

lemma sah_path_open: "sah_path fs a = Some p \<Longrightarrow> p \<in> set (jm_values (op_open fs))"
  by (auto simp: sah_path_def dest!: map_of_SomeD intro: rev_image_eqI)

text \<open>A new handle is under no name yet, and its file was not open.\<close>

lemma handles_ok_created:
  assumes "handles_ok s" "createSyncAccessHandle p (br_opfs s) = (Inr a, fs)"
  shows "handles_ok (s\<lparr>br_opfs := fs, br_preparedHandles := jm_set k (SyncAccessHandle a) (br_preparedHandles s)\<rparr>)"
proof -
  from assms(2) have fs: "a = op_next (br_opfs s)" "p \<notin> set (jm_values (op_open (br_opfs s)))"
    "fs = (br_opfs s)\<lparr>op_open := jm_set a p (op_open (br_opfs s)), op_next := Suc a\<rparr>"
    by (auto simp: createSyncAccessHandle_def split: option.splits opfs_node.splits if_splits)
  have new: "sah_path (br_opfs s) b \<noteq> Some p" for b using sah_path_open fs(2) by metis
  have unopened: "sah_path (br_opfs s) a = None"
    using assms(1) fs(1) by (cases "sah_path (br_opfs s) a") (auto simp: handles_ok_def locks_ok_def)
  have path: "sah_path fs b = (if b = a then Some p else sah_path (br_opfs s) b)" for b by (simp add: fs(3) sah_path_def)
  have old: "\<And>b q. sah_path (br_opfs s) b = Some q \<Longrightarrow> b < a"
    "\<And>b b' q. sah_path (br_opfs s) b = Some q \<Longrightarrow> sah_path (br_opfs s) b' = Some q \<Longrightarrow> b = b'"
    using assms(1) fs(1) unfolding handles_ok_def locks_ok_def by blast+
  have "op_next fs = Suc a" by (simp add: fs(3))
  then have "locks_ok fs" using old new unfolding locks_ok_def path by (auto split: if_splits intro: less_SucI)
  moreover have "\<not> file_of s j a" "\<not> prepared_of s j a" for j
    using assms(1) unopened unfolding handles_ok_def by metis+
  ultimately show ?thesis using assms(1) by (auto simp: handles_ok_def path)
qed

lemma handles_ok_failed_create: "createSyncAccessHandle p fs = (Inl e, fs') \<Longrightarrow> fs' = fs"
  by (auto simp: createSyncAccessHandle_def split: option.splits opfs_node.splits if_splits)

lemma keeps_create [keeps_intro]:
  "keeps (js_bind (in_opfs (createSyncAccessHandle p)) (\<lambda>a.
     js_bind (js_modify (\<lambda>s. s\<lparr>br_preparedHandles := jm_set k (SyncAccessHandle a) (br_preparedHandles s)\<rparr>)) (\<lambda>_. js_ret (r a)))
     :: ('e, 'h, 'a) br)"
  unfolding js_keeps_def
proof (intro allI impI)
  fix s :: "('e, 'h) browser"
  assume ok: "handles_ok s"
  obtain x fs where c: "createSyncAccessHandle p (br_opfs s) = (x, fs)" by force
  show "handles_ok (snd (js_bind (in_opfs (createSyncAccessHandle p)) (\<lambda>a.
     js_bind (js_modify (\<lambda>s. s\<lparr>br_preparedHandles := jm_set k (SyncAccessHandle a) (br_preparedHandles s)\<rparr>)) (\<lambda>_. js_ret (r a))) s))"
  proof (cases x)
    case (Inl e)
    with c handles_ok_failed_create have "fs = br_opfs s" by metis
    with Inl c ok show ?thesis by (simp add: js_bind_def in_opfs_def)
  next
    case (Inr a)
    with c handles_ok_created [OF ok] show ?thesis by (simp add: js_bind_def in_opfs_def js_modify_def js_ret_def)
  qed
qed

lemma keeps_make_directories [keeps_intro]: "keeps (make_directories dir ks)"
  by (induction dir ks rule: make_directories.induct) (auto intro!: keeps_intro)

lemma keeps_file_of_path [keeps_intro]: "keeps (file_of_path p)"
  unfolding file_of_path_def Let_def by (auto intro!: keeps_intro)

lemma keeps_get_or_create [keeps_intro]: "keeps (get_or_create_file dir k)"
  unfolding get_or_create_file_def by (auto intro!: keeps_intro)

lemma keeps_prepare [keeps_intro]: "keeps (prepare X p)"
proof -
  have "keeps (js_bind (file_of_path p) (\<lambda>(dir, name). js_bind (get_or_create_file dir name) (\<lambda>file. js_try
         (js_bind (in_opfs (createSyncAccessHandle file)) (\<lambda>h.
          js_bind (js_modify (\<lambda>s. s\<lparr>br_preparedHandles := jm_set p (SyncAccessHandle h) (br_preparedHandles s)\<rparr>)) (\<lambda>_.
          js_ret \<lparr>ph_path = p, ph_handle = SyncAccessHandle h, ph_fromCached = False\<rparr>)))
         (\<lambda>e. js_throw (Error (err_message e @ '':'' @ web_name X))))))"
    by (auto intro!: keeps_intro)
  then show ?thesis by (auto simp: js_keeps_def prepare_def split: option.splits)
qed

lemma keeps_prepare_all [keeps_intro]: "keeps (prepare_all X ps)"
  by (induction X ps rule: prepare_all.induct) (auto intro!: keeps_intro)

lemma keeps_assign_root [keeps_intro]: "keeps (assignOPFSRoot X)"
  by (auto simp: js_keeps_def assignOPFSRoot_def split: sum.splits)

lemma keeps_prepareFileHandles [keeps_intro]: "keeps (prepareFileHandles X ps protocol)"
  unfolding prepareFileHandles_def by (auto intro!: keeps_intro)

lemma keeps_prepareDBFileHandle: "keeps (prepareDBFileHandle X p protocol)"
  unfolding prepareDBFileHandle_def by (auto intro!: keeps_intro)

text \<open>A handle that is dropped was registered under that name only.\<close>

lemma handles_ok_dropped:
  assumes "handles_ok s" "file_of s k a"
  shows "handles_ok (s\<lparr>br_files := jm_delete k (br_files s)\<rparr>)"
    "handles_ok (s\<lparr>br_files := jm_delete k (br_files s), br_opfs := (br_opfs s)\<lparr>op_open := jm_delete a (op_open (br_opfs s))\<rparr>\<rparr>)"
proof -
  let ?fs = "(br_opfs s)\<lparr>op_open := jm_delete a (op_open (br_opfs s))\<rparr>"
  have path: "sah_path ?fs b = (if b = a then None else sah_path (br_opfs s) b)" for b by (simp add: sah_path_def)
  show "handles_ok (s\<lparr>br_files := jm_delete k (br_files s)\<rparr>)" using assms(1) by (auto simp: handles_ok_def)
  have "locks_ok ?fs" using assms(1) by (auto simp: handles_ok_def locks_ok_def path split: if_splits)
  then show "handles_ok (s\<lparr>br_files := jm_delete k (br_files s), br_opfs := ?fs\<rparr>)"
    using assms by (auto simp: handles_ok_def path)
qed

lemma keeps_dropFile: "keeps (dropFile W p n)"
proof -
  have other: "handles_ok (s\<lparr>br_files := jm_delete k (br_files s)\<rparr>)" if "handles_ok s" for s :: "('e, 'h) browser" and k
    using that by (auto simp: handles_ok_def)
  show ?thesis
    unfolding dropFile_def
    by (intro js_keeps_bind keeps_intro)
      (auto simp: js_keeps_def js_bind_def js_modify_def js_try_def js_throw_def js_ret_def in_opfs_def sah_flush_def sah_close_def
        with_open_def other handles_ok_dropped split: option.splits file_handle.splits)
qed

section \<open>Executions\<close>

text \<open>The calls of the engine and of the bindings, but for \<open>moveFile\<close>.\<close>

datatype browser_call =
    C_prepareFileHandles "string list" DuckDBDataProtocol
  | C_prepareDBFileHandle string DuckDBDataProtocol
  | C_getFileInfo nat
  | C_getGlobalFileInfo
  | C_openFile nat flags
  | C_closeFile nat
  | C_dropFile nat nat
  | C_truncateFile nat nat
  | C_readFile nat nat nat nat
  | C_writeFile nat nat nat nat
  | C_getLastFileModificationTime nat
  | C_glob nat nat
  | C_checkFile nat nat
  | C_progressUpdate nat int int

fun browser_run :: "'h web \<Rightarrow> 'e wasm \<Rightarrow> browser_call \<Rightarrow> ('e, 'h) browser \<Rightarrow> ('e, 'h) browser" where
  "browser_run X W (C_prepareFileHandles ps protocol) s = snd (prepareFileHandles X ps protocol s)"
| "browser_run X W (C_prepareDBFileHandle p protocol) s = snd (prepareDBFileHandle X p protocol s)"
| "browser_run X W (C_getFileInfo fid) s = snd (getFileInfo W fid s)"
| "browser_run X W C_getGlobalFileInfo s = snd (getGlobalFileInfo W s)"
| "browser_run X W (C_openFile fid fs) s = snd (openFile X W fid fs s)"
| "browser_run X W (C_closeFile fid) s = snd (closeFile W fid s)"
| "browser_run X W (C_dropFile p n) s = snd (dropFile W p n s)"
| "browser_run X W (C_truncateFile fid n) s = snd (truncateFile W fid n s)"
| "browser_run X W (C_readFile fid buf n a) s = snd (readFile X W fid buf n a s)"
| "browser_run X W (C_writeFile fid buf n a) s = snd (writeFile X W fid buf n a s)"
| "browser_run X W (C_getLastFileModificationTime fid) s = snd (getLastFileModificationTime X W fid s)"
| "browser_run X W (C_glob p n) s = snd (glob X W p n s)"
| "browser_run X W (C_checkFile p n) s = snd (checkFile X W p n s)"
| "browser_run X W (C_progressUpdate d p r) s = snd (progressUpdate d p r s)"

definition browser_step :: "'h web \<Rightarrow> 'e wasm \<Rightarrow> ('e, 'h) browser \<Rightarrow> browser_call \<Rightarrow> ('e, 'h) browser \<Rightarrow> bool" where
  "browser_step X W s c t \<longleftrightarrow> t = browser_run X W c s"

lemma keeps_progressUpdate: "keeps (progressUpdate d p r)"
  unfolding progressUpdate_def by (intro keeps_intro) simp

lemmas keeps_calls = keeps_prepareFileHandles keeps_prepareDBFileHandle keeps_getFileInfo keeps_getGlobalFileInfo keeps_openFile
  keeps_closeFile keeps_dropFile keeps_truncateFile keeps_readFile keeps_writeFile keeps_mtime keeps_glob keeps_checkFile
  keeps_progressUpdate

lemma handles_ok_run: "handles_ok s \<Longrightarrow> handles_ok (browser_run X W c s)"
  by (cases c) (simp_all add: keeps_calls [unfolded js_keeps_def, rule_format])

interpretation browser: invariant_machine "browser_step X W" handles_ok for X W
  by unfold_locales (simp add: browser_step_def handles_ok_run)

lemma handles_ok_start: "handles_ok (BROWSER_RUNTIME e h empty_opfs)"
  by (simp add: BROWSER_RUNTIME_def handles_ok_def locks_ok_def empty_opfs_def sah_path_def)


lemma in_heap_eq: "in_heap W p n t = (Inr (text_decode (heap_view W p n (br_wasm t))), t)"
  by (simp add: in_heap_def in_wasm_def readString_def)

lemma dropFile_access_handle:
  assumes "text_decode (heap_view W p n (br_wasm s)) = k" "file_of s k a"
  shows "dropFile W p n s = js_try (js_bind (in_opfs (sah_flush a)) (\<lambda>_. in_opfs (sah_close a)))
      (\<lambda>_. js_throw (Error (''Cannot drop file with name: '' @ k))) (s\<lparr>br_files := jm_delete k (br_files s)\<rparr>)"
  using assms by (simp add: dropFile_def in_heap_eq js_bind_def js_modify_def)

text \<open>A file that is moved stays registered under its old name with the same handle. When the new name is then dropped,
  the handle is closed and the old name still leads to it.\<close>

theorem moved_file_keeps_its_old_name:
  assumes names: "text_decode (heap_view W fp fn (br_wasm s)) = from" "text_decode (heap_view W tp tn (br_wasm s)) = to"
      "from \<noteq> to"
    and reg: "file_of s from a"
  shows "\<exists>s1. moveFile W fp fn tp tn s = (Inr True, s1) \<and> file_of s1 from a \<and> file_of s1 to a
    \<and> (let s2 = snd (dropFile W tp tn s1) in file_of s2 from a \<and> sah_path (br_opfs s2) a = None)"
proof -
  define s1 where "s1 = s\<lparr>br_files := jm_set to (SyncAccessHandle a) (br_files s), br_fileInfoCache := forget_url from (br_fileInfoCache s)\<rparr>"
  have "moveFile W fp fn tp tn s = (Inr True, s1)"
    using reg by (simp add: moveFile_def js_bind_def js_modify_def js_ret_def in_heap_eq names(1,2) s1_def)
  moreover have f: "file_of s1 from a" "file_of s1 to a" using reg names(3) by (simp_all add: s1_def)
  let ?s = "s1\<lparr>br_files := jm_delete to (br_files s1)\<rparr>"
  have dead: "sah_path (br_opfs (snd (js_try (js_bind (in_opfs (sah_flush a)) (\<lambda>_. in_opfs (sah_close a))) (\<lambda>_. js_throw e) ?s))) a = None"
    "br_files (snd (js_try (js_bind (in_opfs (sah_flush a)) (\<lambda>_. in_opfs (sah_close a))) (\<lambda>_. js_throw e) ?s)) = br_files ?s" for e
    by (auto simp: js_try_def js_bind_def js_throw_def in_opfs_def sah_flush_def sah_close_def with_open_def sah_path_def split: option.splits)
  have "text_decode (heap_view W tp tn (br_wasm s1)) = to" using names(2) by (simp add: s1_def)
  note drop = dropFile_access_handle [OF this f(2)]
  ultimately show ?thesis using dead f names(3) by (simp add: Let_def drop)
qed

lemma browser_runs: "exec (browser_step X W) s cs (fold (browser_run X W) cs s)"
  by (induction cs arbitrary: s) (auto simp: exec_Cons_iff browser_step_def)

text \<open>A file below a directory is prepared, and registered when the engine first asks for it.\<close>

definition opfs_text :: string where
  "opfs_text = stringify (JObj [(''cacheEpoch'', JNum 7), (''fileId'', JNum 1), (''fileName'', JStr ''opfs://d/f''), (''dataProtocol'', JNum 3)])"

definition opfs_calls :: "browser_call list" where
  "opfs_calls = [C_prepareFileHandles [''opfs://d/f''] BROWSER_FSACCESS, C_getFileInfo 1]"

definition opfs_info :: DuckDBFileInfo where
  "opfs_info = \<lparr>cacheEpoch = 7, fileId = 1, fileName = ''opfs://d/f'', dataProtocol = BROWSER_FSACCESS, dataUrl = None,
     reliableHeadRequests = False, allowFullHttpReads = False, forceFullHttpReads = False, s3Config = None\<rparr>"

lemma opfs_text_described: "engine_describes (toy_wasm opfs_text) toy_inv fid opfs_info"
proof -
  let ?info = "JObj [(''cacheEpoch'', JNum 7), (''fileId'', JNum 1), (''fileName'', JStr ''opfs://d/f''), (''dataProtocol'', JNum 3)]"
  have "JSON_parse opfs_text = Inr ?info" by code_simp
  moreover have "0 < length opfs_text \<and> length opfs_text \<le> 256" by code_simp
  moreover have "file_info_of_json ?info = opfs_info" by code_simp
  ultimately show ?thesis using toy_describes [of opfs_text ?info] by simp
qed

lemma opfs_file_prepared:
  "prepareFileHandles toy_web [''opfs://d/f''] BROWSER_FSACCESS (BROWSER_RUNTIME e () empty_opfs) =
     (Inr [\<lparr>ph_path = ''opfs://d/f'', ph_handle = SyncAccessHandle 0, ph_fromCached = False\<rparr>],
      (BROWSER_RUNTIME e () \<lparr>op_nodes = [([''d''], OP_dir), ([''d'', ''f''], OP_file [])], op_open = [(0, [''d'', ''f''])], op_next = 1\<rparr>)
        \<lparr>br_opfsRoot := True, br_preparedHandles := [(''opfs://d/f'', SyncAccessHandle 0)]\<rparr>)"
  by (simp add: prepareFileHandles_def assignOPFSRoot_def toy_web_def BROWSER_RUNTIME_def prepare_def file_of_path_def
      OPFS_PREFIX_LEN_def is_path_sep_def get_or_create_file_def js_bind_def js_try_def js_ret_def js_modify_def js_throw_def
      in_opfs_def getDirectoryHandle_def getFileHandle_def createSyncAccessHandle_def valid_name_def empty_opfs_def Let_def)

lemma opfs_calls_register:
  "file_of (fold (browser_run toy_web (toy_wasm opfs_text)) opfs_calls (BROWSER_RUNTIME toy_start () empty_opfs)) ''opfs://d/f'' 0"
proof -
  let ?s = "snd (prepareFileHandles toy_web [''opfs://d/f''] BROWSER_FSACCESS (BROWSER_RUNTIME toy_start () empty_opfs))"
  have "toy_inv (br_wasm ?s)" "jm_get (br_fileInfoCache ?s) 1 = None"
    using toy_start_inv by (simp_all add: opfs_file_prepared) (simp_all add: BROWSER_RUNTIME_def)
  from getFileInfo_remembers [OF opfs_text_described this] obtain e where
    "getFileInfo (toy_wasm opfs_text) 1 ?s = (Inr (Some opfs_info), remember_file 1 opfs_info (?s\<lparr>br_wasm := e\<rparr>))" by metis
  then show ?thesis
    by (simp add: opfs_calls_def opfs_file_prepared remember_file_def adopt_handle_def opfs_info_def jm_has_def)
      (simp add: BROWSER_RUNTIME_def)
qed


definition two_names :: "(toy, unit) browser" where
  "two_names = (toy_opened toy_opfs_file)\<lparr>br_wasm := toy_start\<lparr>toy_heap := text_encode ''fg''\<rparr>\<rparr>"

theorem moved_file_keeps_its_old_name_witness:
  "\<exists>s1. moveFile (toy_wasm []) 0 1 1 1 two_names = (Inr True, s1) \<and> file_of s1 ''f'' 4 \<and> file_of s1 ''g'' 4"
proof -
  have "text_decode (heap_view (toy_wasm []) 0 1 (br_wasm two_names)) = ''f''"
    "text_decode (heap_view (toy_wasm []) 1 1 (br_wasm two_names)) = ''g''" by code_simp+
  moreover have "file_of two_names ''f'' 4" by code_simp
  ultimately show ?thesis using moved_file_keeps_its_old_name [of "toy_wasm []" 0 1 two_names "''f''" 1 1 "''g''" 4] by auto
qed

end
