(* ===== verification/Hb_HttpFetch.thy ===== *)
theory Hb_HttpFetch
  imports Hb_Wasm
begin

text \<open>
  \<open>bindings/http_fetch_helper.ts\<close>: the worker that performs the engine's HTTP requests, the start of it, the wire format
  of its responses, and the mailbox between it and the threads that wait, one atomic access at a time.

  The helper's source is the text \<open>HELPER_SOURCE\<close> in that file. The other side of the mailbox is \<open>FetchViaHelper\<close> of
  \<open>lib/src/http_fetch.cc\<close>, modelled here as the helper's environment.
\<close>

section \<open>Starting the helper\<close>

text \<open>
  The page: the engine, the object URLs that are not revoked, the workers that run, each with the mailbox of the message
  it was sent, and the worker the module holds. What the platform does is a parameter: whether the globals are there,
  whether \<open>new Worker\<close> throws, and the events of the worker that come before the timer.
\<close>

datatype helper_event = Ready_message | Other_message | Worker_error

record fetch_platform =
  fp_globals :: bool
  fp_worker_throws :: bool
  fp_events :: "helper_event list"

record 'e fetch_page =
  fg_engine :: 'e
  fg_urls :: "nat list"
  fg_fresh :: nat
  fg_workers :: "(nat \<times> int) list"
  fg_helper :: "nat option"

definition in_engine :: "('e, 'a) jsm \<Rightarrow> ('e fetch_page, 'a) jsm" where
  "in_engine m s = (case m (fg_engine s) of (r, e) \<Rightarrow> (r, s\<lparr>fg_engine := e\<rparr>))"

definition createObjectURL :: "('e fetch_page, nat) jsm" where
  "createObjectURL s = (Inr (fg_fresh s), s\<lparr>fg_urls := fg_fresh s # fg_urls s, fg_fresh := Suc (fg_fresh s)\<rparr>)"

definition revokeObjectURL :: "nat \<Rightarrow> ('e fetch_page, unit) jsm" where
  "revokeObjectURL url = js_modify (\<lambda>s. s\<lparr>fg_urls := removeAll url (fg_urls s)\<rparr>)"

text \<open>The promise settles with the first message of type \<open>ready\<close>, the first error, or the timer.\<close>

fun helper_ready :: "helper_event list \<Rightarrow> bool" where
  "helper_ready [] = False"
| "helper_ready (Ready_message # _) = True"
| "helper_ready (Other_message # es) = helper_ready es"
| "helper_ready (Worker_error # _) = False"

definition startHttpFetchHelper :: "'e wasm \<Rightarrow> fetch_platform \<Rightarrow> ('e fetch_page, bool) jsm" where
  "startHttpFetchHelper W P s =
     (if \<not> fp_globals P \<or> \<not> w_sharedMemory W (fg_engine s) then (Inr False, s)
      else js_bind (in_engine (w_ccall W ''duckdb_web_http_fetch_mailbox'' [])) (\<lambda>mailbox.
        js_bind createObjectURL (\<lambda>url.
        if fp_worker_throws P then js_bind (revokeObjectURL url) (\<lambda>_. js_ret False)
        else js_bind (js_modify (\<lambda>s. s\<lparr>fg_workers := (url, mailbox mod 2 ^ 32) # fg_workers s\<rparr>)) (\<lambda>_.
          js_bind (revokeObjectURL url) (\<lambda>_.
          if \<not> helper_ready (fp_events P)
          then js_bind (js_modify (\<lambda>s. s\<lparr>fg_workers := filter (\<lambda>(w, _). w \<noteq> url) (fg_workers s)\<rparr>)) (\<lambda>_. js_ret False)
          else js_bind (js_modify (\<lambda>s. s\<lparr>fg_helper := Some url\<rparr>)) (\<lambda>_.
            js_bind (in_engine (w_ccall W ''duckdb_web_http_fetch_ready'' [])) (\<lambda>_. js_ret True)))))) s)"

text \<open>A worker is named by its script's URL, which no earlier worker has.\<close>

definition urls_old :: "'e fetch_page \<Rightarrow> bool" where
  "urls_old s \<longleftrightarrow> (\<forall>u \<in> set (fg_urls s). u < fg_fresh s) \<and> (\<forall>(w, m) \<in> set (fg_workers s). w < fg_fresh s)"

text \<open>The start leaves no URL behind, whatever happens; when it reports failure it leaves no worker, and when it reports
  success the one worker it has started runs, was sent the address of the mailbox and is held by the module.\<close>

lemma startHttpFetchHelper_result:
  assumes run: "startHttpFetchHelper W P s = (Inr ok, t)" and old: "urls_old s"
  shows "fg_urls t = fg_urls s \<and> (if ok then \<exists>w m. fg_workers t = (w, m mod 2 ^ 32) # fg_workers s \<and> fg_helper t = Some w
      \<and> (\<exists>e. w_ccall W ''duckdb_web_http_fetch_mailbox'' [] (fg_engine s) = (Inr m, e))
    else fg_workers t = fg_workers s \<and> fg_helper t = fg_helper s)"
proof -
  have u: "removeAll (fg_fresh s) (fg_urls s) = fg_urls s" using old by (intro removeAll_id) (auto simp: urls_old_def)
  have w: "filter (\<lambda>(w, _). w \<noteq> fg_fresh s) (fg_workers s) = fg_workers s"
    using old by (intro filter_True) (auto simp: urls_old_def)
  show ?thesis using run u w
    by (auto simp: startHttpFetchHelper_def js_defs in_engine_def createObjectURL_def revokeObjectURL_def
        split: if_splits prod.splits sum.splits)
qed

section \<open>Reading a request\<close>

text \<open>
  \<open>bytes\<close>, \<open>text\<close> and \<open>cstring\<close> of the helper, on the shared memory. A C string that is not terminated makes the loop of
  \<open>cstring\<close> run for ever, which is \<open>None\<close>.
\<close>

definition read_bytes :: "byte list \<Rightarrow> nat \<Rightarrow> int \<Rightarrow> byte list res" where
  "read_bytes mem ptr len =
     (if len < 0 then Inl (RangeError ''Invalid typed array length'')
      else let xs = subarray ptr (ptr + nat len) mem in Inr (xs @ replicate (nat len - length xs) 0))"

definition read_text :: "byte list \<Rightarrow> nat \<Rightarrow> int \<Rightarrow> string res" where
  "read_text mem ptr len = map_sum id text_decode (read_bytes mem ptr len)"

definition cstring :: "byte list \<Rightarrow> nat \<Rightarrow> string option" where
  "cstring mem ptr = (if 0 \<in> set (drop ptr mem) then Some (text_decode (takeWhile (\<lambda>b. b \<noteq> 0) (drop ptr mem))) else None)"

definition le_value :: "byte list \<Rightarrow> nat" where
  "le_value bs = foldr (\<lambda>b v. unat b + 256 * v) bs 0"

definition load_i32 :: "byte list \<Rightarrow> nat \<Rightarrow> nat res" where
  "load_i32 mem i = (if length mem < 4 * i + 4 then Inl (RangeError ''Invalid atomic access index'')
     else Inr (le_value (subarray (4 * i) (4 * i + 4) mem)))"

text \<open>The lanes of a slot that describe a request; pointers are read unsigned, lengths and counts signed.\<close>

record request_lanes =
  rl_url :: nat
  rl_url_len :: int
  rl_method :: nat
  rl_method_len :: int
  rl_headers :: nat
  rl_header_count :: int
  rl_body :: nat
  rl_body_len :: int

text \<open>The loop over the headers, from header \<open>i\<close> on with \<open>n\<close> to go. \<open>valid\<close> says which pairs \<open>Headers.append\<close> takes.\<close>

fun read_headers :: "(string \<Rightarrow> string \<Rightarrow> bool) \<Rightarrow> byte list \<Rightarrow> nat \<Rightarrow> nat \<Rightarrow> (string \<times> string) list res option" where
  "read_headers valid mem i 0 = Some (Inr [])"
| "read_headers valid mem i (Suc n) = (case load_i32 mem i of
     Inl e \<Rightarrow> Some (Inl e)
   | Inr p \<Rightarrow> (case cstring mem p of
       None \<Rightarrow> None
     | Some name \<Rightarrow>
         if name = ''User-Agent'' then read_headers valid mem (i + 2) n
         else let name = (if name = ''Host'' then ''X-Host-Override'' else name)
           in case load_i32 mem (i + 1) of
             Inl e \<Rightarrow> read_headers valid mem (i + 2) n
           | Inr q \<Rightarrow> (case cstring mem q of
               None \<Rightarrow> None
             | Some value \<Rightarrow> map_option (map_sum id (\<lambda>hs. if valid name value then (name, value) # hs else hs))
                 (read_headers valid mem (i + 2) n))))"

definition read_request :: "(string \<Rightarrow> string \<Rightarrow> bool) \<Rightarrow> byte list \<Rightarrow> request_lanes
    \<Rightarrow> (string \<times> string \<times> (string \<times> string) list \<times> byte list option) res option" where
  "read_request valid mem l = (case read_text mem (rl_url l) (rl_url_len l) of
     Inl e \<Rightarrow> Some (Inl e)
   | Inr url \<Rightarrow> (case read_text mem (rl_method l) (rl_method_len l) of
       Inl e \<Rightarrow> Some (Inl e)
     | Inr method \<Rightarrow> (case read_headers valid mem (rl_headers l div 4) (nat (rl_header_count l)) of
         None \<Rightarrow> None
       | Some (Inl e) \<Rightarrow> Some (Inl e)
       | Some (Inr headers) \<Rightarrow>
           if rl_body_len l > 0
           then Some (map_sum id (\<lambda>body. (url, method, headers, Some body)) (read_bytes mem (rl_body l) (rl_body_len l)))
           else Some (Inr (url, method, headers, None)))))"

text \<open>How a caller lays a request out in memory.\<close>

definition holds :: "byte list \<Rightarrow> nat \<Rightarrow> byte list \<Rightarrow> bool" where
  "holds mem ptr xs \<longleftrightarrow> subarray ptr (ptr + length xs) mem = xs"

definition holds_cstring :: "byte list \<Rightarrow> nat \<Rightarrow> string \<Rightarrow> bool" where
  "holds_cstring mem ptr x \<longleftrightarrow> holds mem ptr (text_encode x @ [0]) \<and> 0 \<notin> set (text_encode x)"

fun holds_headers :: "byte list \<Rightarrow> nat \<Rightarrow> (string \<times> string) list \<Rightarrow> bool" where
  "holds_headers mem i [] = True"
| "holds_headers mem i ((name, value) # hs) = ((\<exists>p q. load_i32 mem i = Inr p \<and> holds_cstring mem p name
     \<and> load_i32 mem (i + 1) = Inr q \<and> holds_cstring mem q value) \<and> holds_headers mem (i + 2) hs)"

definition sent_headers :: "(string \<Rightarrow> string \<Rightarrow> bool) \<Rightarrow> (string \<times> string) list \<Rightarrow> (string \<times> string) list" where
  "sent_headers valid hs = filter (\<lambda>(name, value). valid name value)
     (map (\<lambda>(name, value). (if name = ''Host'' then ''X-Host-Override'' else name, value))
       (filter (\<lambda>(name, value). name \<noteq> ''User-Agent'') hs))"

lemma cstring_holds: "holds_cstring mem ptr x \<Longrightarrow> cstring mem ptr = Some x"
proof -
  assume h: "holds_cstring mem ptr x"
  then have t: "take (length x + 1) (drop ptr mem) = text_encode x @ [0]" by (simp add: holds_cstring_def holds_def subarray_def)
  then have d: "drop ptr mem = text_encode x @ [0] @ drop (length x + 1) (drop ptr mem)"
    by (metis append_assoc append_take_drop_id)
  have "takeWhile (\<lambda>b. b \<noteq> 0) (drop ptr mem) = text_encode x" using h
    by (subst d, subst takeWhile_append2) (auto simp: holds_cstring_def)
  moreover have "0 \<in> set (drop ptr mem)" by (subst d) simp
  ultimately show ?thesis by (simp add: cstring_def)
qed

lemma read_headers_holds:
  "holds_headers mem i hs \<Longrightarrow> read_headers valid mem i (length hs) = Some (Inr (sent_headers valid hs))"
  by (induction mem i hs rule: holds_headers.induct) (auto simp: sent_headers_def Let_def dest!: cstring_holds)

lemma read_text_holds: "holds mem ptr (text_encode x) \<Longrightarrow> read_text mem ptr (int (length x)) = Inr x"
  by (simp add: read_text_def read_bytes_def holds_def Let_def)

text \<open>The helper sends the request the caller has laid out, less its \<open>User-Agent\<close> and the headers the browser refuses, and with
  \<open>Host\<close> renamed.\<close>

lemma read_request_holds:
  assumes "holds mem (rl_url l) (text_encode url)" "rl_url_len l = int (length url)"
    and "holds mem (rl_method l) (text_encode method)" "rl_method_len l = int (length method)"
    and "holds_headers mem (rl_headers l div 4) hs" "rl_header_count l = int (length hs)"
    and "holds mem (rl_body l) body" "rl_body_len l = int (length body)"
  shows "read_request valid mem l = Some (Inr (url, method, sent_headers valid hs, if body = [] then None else Some body))"
  using assms read_headers_holds [OF assms(5), of valid]
  by (simp add: read_request_def read_text_holds read_bytes_def holds_def Let_def)

section \<open>The wire format\<close>

text \<open>\<open>out.set(xs, at)\<close> and \<open>DataView.setUint16/32(at, v, true)\<close>.\<close>

definition put :: "nat \<Rightarrow> byte list \<Rightarrow> byte list \<Rightarrow> byte list" where
  "put at xs out = take at out @ xs @ drop (at + length xs) out"

definition le_bytes :: "nat \<Rightarrow> nat \<Rightarrow> byte list" where
  "le_bytes n v = map (\<lambda>i. of_nat (v div 256 ^ i)) [0..<n]"

definition encode :: "nat \<Rightarrow> string \<Rightarrow> byte list \<Rightarrow> byte list" where
  "encode status headers body =
     (let head = text_encode headers;
          out = replicate (2 + 4 + length head + 4 + length body) 0;
          out = put 0 (le_bytes 2 status) out;
          out = put 2 (le_bytes 4 (length head)) out;
          out = put 6 head out;
          out = put (6 + length head) (le_bytes 4 (length body)) out
      in put (10 + length head) body out)"

text \<open>The response of a \<open>fetch\<close>: the chunks of its body back to back, unless it has none or the method is \<open>HEAD\<close>, and its
  headers a line each.\<close>

definition header_lines :: "(string \<times> string) list \<Rightarrow> string" where
  "header_lines headers = concat (case map (\<lambda>(key, value). key @ '': '' @ value) headers of
     [] \<Rightarrow> [] | l # ls \<Rightarrow> l # map (\<lambda>x. [CHR 0x0D, CHR 0x0A] @ x) ls)"

definition response_bytes :: "string \<Rightarrow> nat \<Rightarrow> (string \<times> string) list \<Rightarrow> byte list list option \<Rightarrow> byte list" where
  "response_bytes method status headers body = encode status (header_lines headers)
     (case body of Some chunks \<Rightarrow> if method \<noteq> ''HEAD'' then concat chunks else [] | None \<Rightarrow> [])"

text \<open>The reader, \<open>ParseWasmResponse\<close> of \<open>lib/src/http_wasm.cc\<close>.\<close>

definition parse_wasm_response :: "byte list \<Rightarrow> nat \<times> string \<times> byte list" where
  "parse_wasm_response buf =
     (let headers_len = le_value (subarray 2 6 buf);
          body_len = le_value (subarray (6 + headers_len) (10 + headers_len) buf)
      in (le_value (subarray 0 2 buf), text_decode (subarray 6 (6 + headers_len) buf),
          subarray (10 + headers_len) (10 + headers_len + body_len) buf))"

lemma length_le_bytes [simp]: "length (le_bytes n v) = n"
  by (simp add: le_bytes_def)

lemma le_bytes_Suc: "le_bytes (Suc n) v = of_nat v # le_bytes n (v div 256)"
  by (simp add: le_bytes_def upt_conv_Cons map_Suc_upt [symmetric] div_mult2_eq del: upt_Suc)

lemma le_value_bytes: "v < 256 ^ n \<Longrightarrow> le_value (le_bytes n v) = v"
proof (induction n arbitrary: v)
  case (Suc n)
  then have "v div 256 < 256 ^ n" by (simp add: less_mult_imp_div_less mult.commute)
  with Suc.IH have "le_value (le_bytes n (v div 256)) = v div 256" .
  then show ?case by (simp add: le_bytes_Suc le_value_def unat_of_nat)
qed (simp add: le_bytes_def le_value_def)

lemma encode_layout:
  "encode status headers body =
     le_bytes 2 status @ le_bytes 4 (length headers) @ text_encode headers @ le_bytes 4 (length body) @ body"
  by (simp add: encode_def put_def Let_def)

lemma parse_encode:
  assumes "status < 65536" "length headers < 4294967296" "length body < 4294967296"
  shows "parse_wasm_response (encode status headers body) = (status, headers, body)"
proof -
  have s: "le_value (le_bytes 2 status) = status" using le_value_bytes [of status 2] assms(1) by simp
  have h: "le_value (le_bytes 4 (length headers)) = length headers" using le_value_bytes [of "length headers" 4] assms(2) by simp
  have b: "le_value (le_bytes 4 (length body)) = length body" using le_value_bytes [of "length body" 4] assms(3) by simp
  have "subarray 2 6 (encode status headers body) = le_bytes 4 (length headers)"
    "subarray 0 2 (encode status headers body) = le_bytes 2 status"
    "subarray 6 (6 + length headers) (encode status headers body) = text_encode headers"
    "subarray (6 + length headers) (10 + length headers) (encode status headers body) = le_bytes 4 (length body)"
    "subarray (10 + length headers) (10 + length headers + length body) (encode status headers body) = body"
    by (simp_all add: encode_layout subarray_def)
  then show ?thesis by (simp add: parse_wasm_response_def s h b Let_def)
qed

text \<open>C15: The engine reads off the bytes of a response what the browser received: the status, the header lines and the body, all of
  its chunks, and no body for \<open>HEAD\<close>, as long as the lengths fit their fields.\<close>

theorem response_roundtrip:
  assumes "status < 65536" "length (header_lines headers) < 4294967296" "length (concat chunks) < 4294967296"
  shows "parse_wasm_response (response_bytes method status headers (Some chunks))
    = (status, header_lines headers, if method = ''HEAD'' then [] else concat chunks)"
  using assms by (simp add: response_bytes_def parse_encode)

theorem response_roundtrip_witness:
  "parse_wasm_response (response_bytes ''GET'' 206 [(''etag'', ''x'')] (Some [[1, 2], [3]])) = (206, ''etag: x'', [1, 2, 3])"
  using response_roundtrip [of 206 "[(''etag'', ''x'')]" "[[1, 2], [3]]" "''GET''"] by (simp add: header_lines_def)

end
