(* ===== verification/Hb_HttpMailbox.thy ===== *)
theory Hb_HttpMailbox
  imports Hb_HttpFetch
begin

text \<open>
  One slot of the mailbox of \<open>bindings/http_fetch_helper.ts\<close> under any interleaving of the helper, which serves it, and
  the threads that send requests through it (\<open>FetchViaHelper\<close> of \<open>lib/src/http_fetch.cc\<close>), each one atomic access at a
  time. Timers of the callers may run out at any moment.

  A caller is named by the number of its request, which is sent once; \<open>resp r\<close> are the bytes of the response to it.
  The lanes from \<open>URL_PTR\<close> to \<open>BODY_LEN\<close> point at the inputs of one request, \<open>fs_inputs\<close>. \<open>fs_memory\<close> holds the
  buffers that callers have allocated, each with the request it is for, and \<open>fs_owner\<close> and \<open>fs_leaving\<close> record who has
  claimed the slot and who is on the way out of it.
\<close>

section \<open>States\<close>

datatype mailbox_state = FREE | CLAIMED | REQUEST | IN_FLIGHT | NEEDS_BUFFER | BUFFER_PROVIDED | DONE | FAILED | CANCELLED

datatype fetch_result = R_unavailable | R_ok nat | R_failed | R_aborted

text \<open>Where a caller is, with whether it has raised abort and the buffer it has allocated (0 for none).\<close>

datatype caller_pc =
    C_out
  | C_setup
  | C_publish
  | C_top bool nat
  | C_wait bool nat
  | C_give bool
  | C_given bool nat
  | C_take nat
  | C_fail bool nat
  | C_grace nat
  | C_abandon nat
  | C_drop "mailbox_state list"
  | C_back fetch_result

text \<open>Where the helper is in \<open>serve\<close> and \<open>finish\<close>, with the request whose inputs it has copied.\<close>

datatype helper_pc =
    H_idle
  | H_read
  | H_copied nat
  | H_fetch nat
  | H_need nat
  | H_wait nat
  | H_load nat
  | H_write nat nat
  | H_finish mailbox_state
  | H_check mailbox_state
  | H_release mailbox_state

record fetch_slot =
  fs_state :: mailbox_state
  fs_abort :: bool
  fs_inputs :: nat
  fs_size :: nat
  fs_buffer :: nat
  fs_progress :: nat
  fs_copied :: bool
  fs_abandoned :: bool
  fs_helper :: helper_pc
  fs_haborted :: bool
  fs_callers :: "nat \<Rightarrow> caller_pc"
  fs_memory :: "nat \<Rightarrow> (nat \<times> byte list) option"
  fs_fresh :: nat
  fs_owner :: "nat option"
  fs_leaving :: "nat list"

definition fetch_init :: fetch_slot where
  "fetch_init = \<lparr>fs_state = FREE, fs_abort = False, fs_inputs = 0, fs_size = 0, fs_buffer = 0, fs_progress = 0, fs_copied = False,
     fs_abandoned = False, fs_helper = H_idle, fs_haborted = False, fs_callers = (\<lambda>_. C_out), fs_memory = (\<lambda>_. None), fs_fresh = 1,
     fs_owner = None, fs_leaving = []\<rparr>"

abbreviation goto :: "nat \<Rightarrow> caller_pc \<Rightarrow> fetch_slot \<Rightarrow> fetch_slot" where
  "goto r pc s \<equiv> s\<lparr>fs_callers := (fs_callers s)(r := pc)\<rparr>"

section \<open>The callers\<close>

datatype caller_choice = Go | OutOfMemory | PickupTimeout | RaiseAbort | GraceOver

text \<open>With \<open>prompt\<close> no thread claims the slot while another is between raising \<open>ABANDONED\<close> and its return.\<close>

definition caller_next :: "bool \<Rightarrow> nat \<Rightarrow> caller_choice \<Rightarrow> fetch_slot \<Rightarrow> fetch_slot option" where
  "caller_next prompt r ch s = (case fs_callers s r of
     C_out \<Rightarrow>
       if fs_state s = FREE \<and> (prompt \<longrightarrow> fs_leaving s = [])
       then Some (goto r C_setup (s\<lparr>fs_state := CLAIMED, fs_owner := Some r\<rparr>)) else None
   | C_setup \<Rightarrow> Some (goto r C_publish (s\<lparr>fs_inputs := r, fs_size := 0, fs_buffer := 0, fs_progress := 0, fs_copied := False,
       fs_abandoned := False, fs_abort := False\<rparr>))
   | C_publish \<Rightarrow> Some (goto r (C_top False 0) (s\<lparr>fs_state := REQUEST\<rparr>))
   | C_top aborted buffer \<Rightarrow> Some (goto r (case fs_state s of
         NEEDS_BUFFER \<Rightarrow> C_give aborted | DONE \<Rightarrow> C_take buffer | FAILED \<Rightarrow> C_fail aborted buffer
       | CANCELLED \<Rightarrow> C_fail aborted buffer | _ \<Rightarrow> C_wait aborted buffer) s)
   | C_give aborted \<Rightarrow>
       if aborted \<or> ch = OutOfMemory then Some (goto r (C_given aborted 0) (s\<lparr>fs_buffer := 0\<rparr>))
       else Some (goto r (C_given aborted (fs_fresh s)) (s\<lparr>fs_buffer := fs_fresh s, fs_fresh := Suc (fs_fresh s),
         fs_memory := (fs_memory s)(fs_fresh s := Some (r, replicate (fs_size s) 0))\<rparr>))
   | C_given aborted buffer \<Rightarrow> Some (goto r (C_top aborted buffer) (s\<lparr>fs_state := BUFFER_PROVIDED\<rparr>))
   | C_take buffer \<Rightarrow> Some (goto r (C_back (R_ok buffer)) (s\<lparr>fs_state := FREE, fs_owner := None\<rparr>))
   | C_fail aborted buffer \<Rightarrow> Some (goto r (C_back (if buffer \<noteq> 0 then R_failed else if aborted then R_aborted else R_failed))
       (s\<lparr>fs_state := FREE, fs_owner := None,
          fs_memory := (if buffer \<noteq> 0 then (fs_memory s)(buffer := None) else fs_memory s)\<rparr>))
   | C_wait aborted buffer \<Rightarrow> (case ch of
       PickupTimeout \<Rightarrow>
         if fs_state s = REQUEST then Some (goto r (C_back R_unavailable) (s\<lparr>fs_state := FREE, fs_owner := None\<rparr>))
         else Some (goto r (C_top aborted buffer) s)
     | RaiseAbort \<Rightarrow> if aborted then None else Some (goto r (C_top True buffer) (s\<lparr>fs_abort := True\<rparr>))
     | GraceOver \<Rightarrow>
         if \<not> aborted then None
         else if fs_state s = REQUEST then Some (goto r (C_back R_aborted) (s\<lparr>fs_state := FREE, fs_owner := None\<rparr>))
         else Some (goto r (C_grace buffer) s)
     | _ \<Rightarrow> Some (goto r (C_top aborted buffer) s))
   | C_grace buffer \<Rightarrow> Some (goto r (if fs_copied s then C_abandon buffer else C_top True buffer) s)
   | C_abandon buffer \<Rightarrow> Some (goto r (C_drop [DONE, FAILED, CANCELLED])
       (s\<lparr>fs_abandoned := True, fs_owner := None, fs_leaving := r # fs_leaving s\<rparr>))
   | C_drop [] \<Rightarrow> Some (goto r (C_back R_aborted) (s\<lparr>fs_leaving := removeAll r (fs_leaving s)\<rparr>))
   | C_drop (st # sts) \<Rightarrow> Some (goto r (C_drop sts) (if fs_state s = st then s\<lparr>fs_state := FREE\<rparr> else s))
   | C_back _ \<Rightarrow> None)"

section \<open>The helper\<close>

text \<open>
  \<open>run\<close> finds a request, and \<open>serve\<close> claims it, copies its inputs (which may fail), performs the fetch while it watches
  \<open>ABORT\<close>, publishes the size, waits for a buffer, writes the response and finishes. \<open>finish\<close> publishes the final state
  and frees the slot if it was abandoned.
\<close>

datatype helper_choice = Serve | ReadFails | Progress | WatchAbort | FetchFails

definition helper_next :: "(nat \<Rightarrow> byte list) \<Rightarrow> helper_choice \<Rightarrow> fetch_slot \<Rightarrow> fetch_slot option" where
  "helper_next resp ch s = (case fs_helper s of
     H_idle \<Rightarrow> if fs_state s = REQUEST then Some (s\<lparr>fs_state := IN_FLIGHT, fs_helper := H_read\<rparr>) else None
   | H_read \<Rightarrow>
       if ch = ReadFails then Some (s\<lparr>fs_copied := True, fs_helper := H_finish FAILED\<rparr>)
       else Some (s\<lparr>fs_helper := H_copied (fs_inputs s)\<rparr>)
   | H_copied r \<Rightarrow> Some (s\<lparr>fs_copied := True, fs_haborted := False, fs_helper := H_fetch r\<rparr>)
   | H_fetch r \<Rightarrow> (case ch of
       Progress \<Rightarrow> Some (s\<lparr>fs_progress := Suc (fs_progress s)\<rparr>)
     | WatchAbort \<Rightarrow> Some (if fs_abort s then s\<lparr>fs_haborted := True\<rparr> else s)
     | FetchFails \<Rightarrow> Some (s\<lparr>fs_helper := H_finish (if fs_haborted s then CANCELLED else FAILED)\<rparr>)
     | _ \<Rightarrow> Some (s\<lparr>fs_size := length (resp r), fs_helper := H_need r\<rparr>))
   | H_need r \<Rightarrow> Some (s\<lparr>fs_state := NEEDS_BUFFER, fs_helper := H_wait r\<rparr>)
   | H_wait r \<Rightarrow> Some (if fs_state s = NEEDS_BUFFER then s else s\<lparr>fs_helper := H_load r\<rparr>)
   | H_load r \<Rightarrow> Some (s\<lparr>fs_helper := (if fs_buffer s = 0 then H_finish CANCELLED else H_write r (fs_buffer s))\<rparr>)
   | H_write r b \<Rightarrow> Some (s\<lparr>fs_helper := H_finish DONE,
       fs_memory := (case fs_memory s b of Some (q, bs) \<Rightarrow> (fs_memory s)(b := Some (q, resp r @ drop (length (resp r)) bs)) | None \<Rightarrow> fs_memory s)\<rparr>)
   | H_finish st \<Rightarrow> Some (s\<lparr>fs_state := st, fs_helper := H_check st\<rparr>)
   | H_check st \<Rightarrow> Some (s\<lparr>fs_helper := (if fs_abandoned s then H_release st else H_idle)\<rparr>)
   | H_release st \<Rightarrow> Some (s\<lparr>fs_state := (if fs_state s = st then FREE else fs_state s), fs_helper := H_idle\<rparr>))"

datatype fetch_event = F_caller nat caller_choice | F_helper helper_choice

fun fetch_next :: "bool \<Rightarrow> (nat \<Rightarrow> byte list) \<Rightarrow> fetch_event \<Rightarrow> fetch_slot \<Rightarrow> fetch_slot option" where
  "fetch_next prompt resp (F_caller r ch) s = caller_next prompt r ch s"
| "fetch_next prompt resp (F_helper ch) s = helper_next resp ch s"

definition fetch_step :: "bool \<Rightarrow> (nat \<Rightarrow> byte list) \<Rightarrow> fetch_slot \<Rightarrow> fetch_event \<Rightarrow> fetch_slot \<Rightarrow> bool" where
  "fetch_step prompt resp s e t \<longleftrightarrow> fetch_next prompt resp e s = Some t"

section \<open>The invariant\<close>

fun holding :: "caller_pc \<Rightarrow> bool" where
  "holding C_out = False"
| "holding (C_drop _) = False"
| "holding (C_back _) = False"
| "holding _ = True"

definition owner :: "fetch_slot \<Rightarrow> nat \<Rightarrow> caller_pc \<Rightarrow> bool" where
  "owner s r pc \<longleftrightarrow> fs_owner s = Some r \<and> fs_callers s r = pc"

text \<open>The owner waits, with this buffer.\<close>

definition waits :: "fetch_slot \<Rightarrow> nat \<Rightarrow> nat \<Rightarrow> bool" where
  "waits s r b \<longleftrightarrow> fs_owner s = Some r \<and> \<not> fs_abandoned s
     \<and> ((\<exists>ab. fs_callers s r = C_top ab b \<or> fs_callers s r = C_wait ab b) \<or> fs_callers s r = C_grace b
        \<or> fs_callers s r = C_abandon b \<and> fs_copied s)"

text \<open>The owner has left.\<close>

definition left :: "fetch_slot \<Rightarrow> nat \<Rightarrow> bool" where
  "left s r \<longleftrightarrow> fs_owner s = None \<and> fs_abandoned s \<and> ((\<exists>sts. fs_callers s r = C_drop sts) \<or> fs_callers s r = C_back R_aborted)"

definition given :: "(nat \<Rightarrow> byte list) \<Rightarrow> fetch_slot \<Rightarrow> nat \<Rightarrow> nat \<Rightarrow> bool" where
  "given resp s r b \<longleftrightarrow> b = 0 \<or> (\<exists>bs. fs_memory s b = Some (r, bs) \<and> length bs = length (resp r))"

definition filled :: "(nat \<Rightarrow> byte list) \<Rightarrow> fetch_slot \<Rightarrow> nat \<Rightarrow> nat \<Rightarrow> bool" where
  "filled resp s r b \<longleftrightarrow> b \<noteq> 0 \<and> fs_memory s b = Some (r, resp r)"

definition rested :: "fetch_slot \<Rightarrow> bool" where
  "rested s \<longleftrightarrow> fs_helper s = H_idle \<or> (\<exists>st. st \<in> {DONE, FAILED, CANCELLED} \<and> (fs_helper s = H_check st \<or> fs_helper s = H_release st))"

definition fresh_lanes :: "fetch_slot \<Rightarrow> nat \<Rightarrow> bool" where
  "fresh_lanes s r \<longleftrightarrow> fs_inputs s = r \<and> fs_buffer s = 0 \<and> \<not> fs_copied s \<and> \<not> fs_abandoned s"

definition in_flight :: "(nat \<Rightarrow> byte list) \<Rightarrow> fetch_slot \<Rightarrow> bool" where
  "in_flight resp s \<longleftrightarrow> fs_buffer s = 0 \<and> (case fs_helper s of
     H_read \<Rightarrow> \<not> fs_copied s \<and> waits s (fs_inputs s) 0
   | H_copied r \<Rightarrow> \<not> fs_copied s \<and> r = fs_inputs s \<and> waits s r 0
   | H_fetch r \<Rightarrow> fs_copied s \<and> (waits s r 0 \<or> left s r)
   | H_need r \<Rightarrow> fs_copied s \<and> fs_size s = length (resp r) \<and> (waits s r 0 \<or> left s r)
   | H_finish st \<Rightarrow> fs_copied s \<and> (st = FAILED \<or> st = CANCELLED) \<and> (\<exists>r. waits s r 0 \<or> left s r)
   | _ \<Rightarrow> False)"

definition needs_buffer :: "(nat \<Rightarrow> byte list) \<Rightarrow> fetch_slot \<Rightarrow> bool" where
  "needs_buffer resp s \<longleftrightarrow> (\<exists>r. fs_helper s = H_wait r \<and> fs_copied s \<and> fs_size s = length (resp r)
     \<and> (waits s r 0 \<or> left s r \<or> \<not> fs_abandoned s \<and> ((\<exists>ab. owner s r (C_give ab))
        \<or> (\<exists>ab. owner s r (C_given ab (fs_buffer s))) \<and> given resp s r (fs_buffer s))))"

definition provided :: "(nat \<Rightarrow> byte list) \<Rightarrow> fetch_slot \<Rightarrow> bool" where
  "provided resp s \<longleftrightarrow> fs_copied s \<and> (\<exists>r. (waits s r (fs_buffer s) \<or> left s r) \<and> (case fs_helper s of
     H_wait q \<Rightarrow> q = r \<and> given resp s r (fs_buffer s)
   | H_load q \<Rightarrow> q = r \<and> given resp s r (fs_buffer s)
   | H_write q b \<Rightarrow> q = r \<and> b = fs_buffer s \<and> b \<noteq> 0 \<and> given resp s r b
   | H_finish st \<Rightarrow> st = CANCELLED \<and> fs_buffer s = 0 \<or> st = DONE \<and> filled resp s r (fs_buffer s)
   | _ \<Rightarrow> False))"

definition has_result :: "(nat \<Rightarrow> byte list) \<Rightarrow> fetch_slot \<Rightarrow> mailbox_state \<Rightarrow> nat \<Rightarrow> bool" where
  "has_result resp s st r \<longleftrightarrow> \<not> fs_abandoned s \<and> (\<exists>b. (if st = DONE then filled resp s r b else b = 0)
     \<and> (waits s r b \<or> (\<exists>ab. owner s r (if st = DONE then C_take b else C_fail ab b))))"

definition finished :: "(nat \<Rightarrow> byte list) \<Rightarrow> fetch_slot \<Rightarrow> bool" where
  "finished resp s \<longleftrightarrow> (let st = fs_state s in fs_copied s \<and> (\<exists>r.
     (fs_helper s = H_check st \<or> fs_helper s = H_idle) \<and> has_result resp s st r
     \<or> left s r \<and> (fs_helper s = H_check st \<or> fs_helper s = H_release st
         \<or> fs_helper s = H_idle \<and> (\<exists>q sts. fs_callers s q = C_drop sts \<and> st \<in> set sts))))"

definition stage_ok :: "(nat \<Rightarrow> byte list) \<Rightarrow> fetch_slot \<Rightarrow> bool" where
  "stage_ok resp s \<longleftrightarrow> (case fs_state s of
     FREE \<Rightarrow> fs_owner s = None \<and> rested s
   | CLAIMED \<Rightarrow> rested s \<and> (\<exists>r. owner s r C_setup \<or> owner s r C_publish \<and> fresh_lanes s r)
   | REQUEST \<Rightarrow> rested s \<and> (\<exists>r ab. (owner s r (C_top ab 0) \<or> owner s r (C_wait ab 0)) \<and> fresh_lanes s r)
   | IN_FLIGHT \<Rightarrow> in_flight resp s
   | NEEDS_BUFFER \<Rightarrow> needs_buffer resp s
   | BUFFER_PROVIDED \<Rightarrow> provided resp s
   | _ \<Rightarrow> finished resp s)"

definition fetch_inv :: "(nat \<Rightarrow> byte list) \<Rightarrow> fetch_slot \<Rightarrow> bool" where
  "fetch_inv resp s \<longleftrightarrow>
     (\<forall>r. holding (fs_callers s r) \<longleftrightarrow> fs_owner s = Some r)
     \<and> (\<forall>r sts. fs_callers s r = C_drop sts \<longrightarrow> fs_owner s = None \<and> r \<in> set (fs_leaving s) \<and> set sts \<subseteq> {DONE, FAILED, CANCELLED})
     \<and> (\<forall>r b. fs_callers s r = C_back (R_ok b) \<longrightarrow> fs_memory s b = Some (r, resp r))
     \<and> (\<forall>b. fs_memory s b \<noteq> None \<longrightarrow> 0 < b \<and> b < fs_fresh s) \<and> 0 < fs_fresh s
     \<and> stage_ok resp s"

lemma fetch_inv_init: "fetch_inv resp fetch_init"
  by (simp add: fetch_inv_def fetch_init_def stage_ok_def rested_def)

lemma frame_updates [simp]:
  "waits (s\<lparr>fs_state := x\<rparr>) = waits s" "waits (s\<lparr>fs_helper := h\<rparr>) = waits s" "waits (s\<lparr>fs_progress := n\<rparr>) = waits s"
  "waits (s\<lparr>fs_haborted := c\<rparr>) = waits s" "waits (s\<lparr>fs_size := n\<rparr>) = waits s" "waits (s\<lparr>fs_memory := m\<rparr>) = waits s"
  "left (s\<lparr>fs_state := x\<rparr>) = left s" "left (s\<lparr>fs_helper := h\<rparr>) = left s" "left (s\<lparr>fs_progress := n\<rparr>) = left s"
  "left (s\<lparr>fs_haborted := c\<rparr>) = left s" "left (s\<lparr>fs_size := n\<rparr>) = left s" "left (s\<lparr>fs_memory := m\<rparr>) = left s"
  "left (s\<lparr>fs_copied := c\<rparr>) = left s"
  "owner (s\<lparr>fs_state := x\<rparr>) = owner s" "owner (s\<lparr>fs_helper := h\<rparr>) = owner s"
  "given resp (s\<lparr>fs_state := x\<rparr>) = given resp s" "given resp (s\<lparr>fs_helper := h\<rparr>) = given resp s"
  "filled resp (s\<lparr>fs_state := x\<rparr>) = filled resp s" "filled resp (s\<lparr>fs_helper := h\<rparr>) = filled resp s"
  by (simp_all add: fun_eq_iff waits_def left_def owner_def given_def filled_def)

lemma waits_copied: "waits s r b \<Longrightarrow> waits (s\<lparr>fs_copied := True\<rparr>) r b"
  by (auto simp: waits_def)

lemma not_returned_ok:
  "waits s r b \<or> left s r \<Longrightarrow> fs_callers s r \<noteq> C_back (R_ok x)"
  by (auto simp: waits_def left_def)

lemma waits_present: "waits s r b \<Longrightarrow> \<not> fs_abandoned s"
  by (simp add: waits_def)

lemma has_result_helper [simp]: "has_result resp (s\<lparr>fs_helper := h\<rparr>) = has_result resp s"
  by (simp add: fun_eq_iff has_result_def)

lemma has_result_present: "has_result resp s st r \<Longrightarrow> \<not> fs_abandoned s"
  by (simp add: has_result_def)

lemma left_abandoned: "left s r \<Longrightarrow> fs_abandoned s \<and> fs_owner s = None"
  by (simp add: left_def)

lemma finishedI:
  "fs_copied t \<Longrightarrow> fs_helper t = H_check (fs_state t) \<Longrightarrow>
     waits t r b \<and> (if fs_state t = DONE then filled resp t r b else b = 0) \<or> left t r \<Longrightarrow> finished resp t"
  unfolding finished_def Let_def has_result_def using waits_present [of t r b] by blast

lemmas stage_defs = stage_ok_def rested_def in_flight_def needs_buffer_def provided_def finished_def has_result_def Let_def

text \<open>A step of the helper changes neither who owns the slot nor where the callers are.\<close>

lemma stage_ok_helper:
  assumes inv: "stage_ok resp s" and step: "helper_next resp ch s = Some t"
  shows "stage_ok resp t"
proof (cases "fs_helper s")
  case H_idle
  with step have "fs_state s = REQUEST" "t = s\<lparr>fs_state := IN_FLIGHT, fs_helper := H_read\<rparr>"
    by (simp_all add: helper_next_def split: if_splits)
  with inv show ?thesis by (auto simp: stage_ok_def in_flight_def fresh_lanes_def owner_def waits_def)
next
  case H_read
  with inv have "in_flight resp s" "fs_state s = IN_FLIGHT"
    by (auto simp: stage_defs split: mailbox_state.splits if_splits)
  moreover from this H_read have "waits (s\<lparr>fs_copied := True\<rparr>) (fs_inputs s) 0" by (simp add: in_flight_def waits_copied)
  ultimately show ?thesis using H_read step
    by (auto simp: helper_next_def stage_ok_def in_flight_def split: if_splits)
next
  case (H_copied r)
  with inv have "in_flight resp s" "fs_state s = IN_FLIGHT"
    by (auto simp: stage_defs split: mailbox_state.splits if_splits)
  with H_copied step show ?thesis
    by (auto simp: helper_next_def stage_ok_def in_flight_def intro: waits_copied)
next
  case (H_fetch r)
  with inv have "in_flight resp s" "fs_state s = IN_FLIGHT"
    by (auto simp: stage_defs split: mailbox_state.splits if_splits)
  with H_fetch step show ?thesis
    by (auto simp: helper_next_def stage_ok_def in_flight_def split: helper_choice.splits if_splits)
next
  case (H_need r)
  with inv have "in_flight resp s" "fs_state s = IN_FLIGHT"
    by (auto simp: stage_defs split: mailbox_state.splits if_splits)
  with H_need step show ?thesis
    by (auto simp: helper_next_def stage_ok_def in_flight_def needs_buffer_def)
next
  case (H_wait r)
  with inv have "needs_buffer resp s \<and> fs_state s = NEEDS_BUFFER \<or> provided resp s \<and> fs_state s = BUFFER_PROVIDED"
    by (auto simp: stage_defs split: mailbox_state.splits if_splits)
  with H_wait step show ?thesis
    by (auto simp: helper_next_def stage_ok_def provided_def)
next
  case (H_load r)
  with inv have "provided resp s" "fs_state s = BUFFER_PROVIDED"
    by (auto simp: stage_defs split: mailbox_state.splits if_splits)
  with H_load step show ?thesis
    by (auto simp: helper_next_def stage_ok_def provided_def given_def split: if_splits)
next
  case (H_write r b)
  with inv have p: "provided resp s" "fs_state s = BUFFER_PROVIDED"
    by (auto simp: stage_defs split: mailbox_state.splits if_splits)
  with H_write obtain bs where b: "b = fs_buffer s" "b \<noteq> 0" "fs_memory s b = Some (r, bs)" "length bs = length (resp r)"
    "waits s r b \<or> left s r" "fs_copied s" by (auto simp: provided_def given_def)
  with H_write step have "t = s\<lparr>fs_helper := H_finish DONE, fs_memory := (fs_memory s)(b := Some (r, resp r))\<rparr>"
    by (simp add: helper_next_def)
  with b p(2) show ?thesis by (auto simp: stage_ok_def provided_def filled_def)
next
  case (H_finish st)
  with inv have "in_flight resp s \<and> fs_state s = IN_FLIGHT \<or> provided resp s \<and> fs_state s = BUFFER_PROVIDED"
    by (auto simp: stage_defs split: mailbox_state.splits if_splits)
  then have "fs_copied s" "st \<in> {DONE, FAILED, CANCELLED}"
    "\<exists>r b. waits s r b \<and> (if st = DONE then filled resp s r b else b = 0) \<or> left s r"
  proof -
    assume h: "in_flight resp s \<and> fs_state s = IN_FLIGHT \<or> provided resp s \<and> fs_state s = BUFFER_PROVIDED"
    then show "fs_copied s" "st \<in> {DONE, FAILED, CANCELLED}" using H_finish by (auto simp: in_flight_def provided_def)
    from h show "\<exists>r b. waits s r b \<and> (if st = DONE then filled resp s r b else b = 0) \<or> left s r"
    proof
      assume "in_flight resp s \<and> fs_state s = IN_FLIGHT"
      with H_finish have "st \<noteq> DONE" "\<exists>r. waits s r 0 \<or> left s r" by (auto simp: in_flight_def)
      then show ?thesis by auto
    next
      assume "provided resp s \<and> fs_state s = BUFFER_PROVIDED"
      with H_finish obtain r where "waits s r (fs_buffer s) \<or> left s r"
        "st = CANCELLED \<and> fs_buffer s = 0 \<or> st = DONE \<and> filled resp s r (fs_buffer s)" by (auto simp: provided_def)
      then show ?thesis by auto
    qed
  qed
  then obtain r b where "waits s r b \<and> (if st = DONE then filled resp s r b else b = 0) \<or> left s r" "fs_copied s"
    "st \<in> {DONE, FAILED, CANCELLED}" by blast
  note f = this
  have t: "t = s\<lparr>fs_state := st, fs_helper := H_check st\<rparr>" using H_finish step by (simp add: helper_next_def)
  have "finished resp t" by (rule finishedI [of _ r b]) (use f t in \<open>auto split: if_splits\<close>)
  with f(3) t show ?thesis by (auto simp: stage_ok_def)
next
  case (H_check st)
  with step have t: "t = s\<lparr>fs_helper := (if fs_abandoned s then H_release st else H_idle)\<rparr>" by (simp add: helper_next_def)
  from inv H_check have "rested s \<and> fs_state s \<in> {FREE, CLAIMED, REQUEST} \<or> finished resp s \<and> fs_state s \<in> {DONE, FAILED, CANCELLED}"
    by (auto simp: stage_ok_def in_flight_def needs_buffer_def provided_def split: mailbox_state.splits)
  then show ?thesis
  proof
    assume "rested s \<and> fs_state s \<in> {FREE, CLAIMED, REQUEST}"
    with inv t H_check show ?thesis by (auto simp: stage_ok_def rested_def fresh_lanes_def)
  next
    assume "finished resp s \<and> fs_state s \<in> {DONE, FAILED, CANCELLED}"
    with t H_check show ?thesis by (auto simp: stage_ok_def finished_def Let_def dest: has_result_present left_abandoned)
  qed
next
  case (H_release st)
  with step have t: "t = s\<lparr>fs_state := (if fs_state s = st then FREE else fs_state s), fs_helper := H_idle\<rparr>" by (simp add: helper_next_def)
  from inv H_release have "rested s \<and> fs_state s \<in> {FREE, CLAIMED, REQUEST} \<or> finished resp s \<and> fs_state s \<in> {DONE, FAILED, CANCELLED}"
    by (auto simp: stage_ok_def in_flight_def needs_buffer_def provided_def split: mailbox_state.splits)
  then show ?thesis
  proof
    assume r: "rested s \<and> fs_state s \<in> {FREE, CLAIMED, REQUEST}"
    with H_release have "fs_state s \<noteq> st" by (auto simp: rested_def)
    with r inv t show ?thesis by (auto simp: stage_ok_def rested_def fresh_lanes_def)
  next
    assume "finished resp s \<and> fs_state s \<in> {DONE, FAILED, CANCELLED}"
    with t H_release show ?thesis by (auto simp: stage_ok_def finished_def Let_def rested_def dest: left_abandoned)
  qed
qed

lemma fetch_inv_helper:
  assumes inv: "fetch_inv resp s" and step: "helper_next resp ch s = Some t"
  shows "fetch_inv resp t"
proof -
  have st: "stage_ok resp t" using stage_ok_helper [OF _ step] inv by (simp add: fetch_inv_def)
  have same: "fs_callers t = fs_callers s" "fs_owner t = fs_owner s" "fs_leaving t = fs_leaving s" "fs_fresh t = fs_fresh s"
    using step by (auto simp: helper_next_def split: helper_pc.splits helper_choice.splits if_splits)
  show ?thesis
  proof (cases "\<exists>r b. fs_helper s = H_write r b")
    case False
    then have "fs_memory t = fs_memory s"
      using step by (auto simp: helper_next_def split: helper_pc.splits helper_choice.splits if_splits)
    with inv st same show ?thesis by (simp add: fetch_inv_def)
  next
    case True
    then obtain r b where h: "fs_helper s = H_write r b" by blast
    with inv have p: "provided resp s" "fs_state s = BUFFER_PROVIDED"
      by (auto simp: fetch_inv_def stage_defs split: mailbox_state.splits if_splits)
    with h obtain bs where b: "fs_memory s b = Some (r, bs)" "length bs = length (resp r)" "waits s r b \<or> left s r"
      by (auto simp: provided_def given_def)
    with h step have m: "fs_memory t = (fs_memory s)(b := Some (r, resp r))" by (auto simp: helper_next_def)
    have "fs_memory t c = Some (q, resp q)" if "fs_callers s q = C_back (R_ok c)" for q c
      using that inv b(1) not_returned_ok [OF b(3)] m by (auto simp: fetch_inv_def)
    with inv st same m b(1) show ?thesis by (auto simp: fetch_inv_def)
  qed
qed

text \<open>A step of the owner that keeps the slot, and one that gives it up.\<close>

lemma fetch_inv_keep:
  assumes inv: "fetch_inv resp s" and r: "fs_owner s = Some r" and pc: "holding pc" and st: "stage_ok resp t"
    and t: "fs_callers t = (fs_callers s)(r := pc)" "fs_owner t = fs_owner s" "fs_memory t = fs_memory s" "fs_fresh t = fs_fresh s"
  shows "fetch_inv resp t"
proof -
  from inv r have "\<forall>q sts. fs_callers s q \<noteq> C_drop sts" by (auto simp: fetch_inv_def)
  moreover from pc have "pc \<noteq> C_drop sts" "pc \<noteq> C_back x" for sts x by auto
  ultimately show ?thesis using inv r pc st t by (auto simp: fetch_inv_def)
qed

lemma fetch_inv_leave:
  assumes inv: "fetch_inv resp s" and r: "fs_owner s = Some r" and st: "stage_ok resp t"
    and t: "fs_callers t = (fs_callers s)(r := C_back x)" "fs_owner t = None" "fs_memory t = fs_memory s" "fs_fresh t = fs_fresh s"
    and x: "\<And>b. x = R_ok b \<Longrightarrow> fs_memory s b = Some (r, resp r)"
  shows "fetch_inv resp t"
proof -
  from inv r have "\<forall>q sts. fs_callers s q \<noteq> C_drop sts" by (auto simp: fetch_inv_def)
  with inv r st t x show ?thesis by (auto simp: fetch_inv_def)
qed

lemma holding_owner: "fetch_inv resp s \<Longrightarrow> holding (fs_callers s r) \<Longrightarrow> fs_owner s = Some r"
  by (simp add: fetch_inv_def)

lemma stage_owner:
  assumes "stage_ok resp s" "fs_owner s = Some r"
  shows "fs_callers s r = C_setup \<Longrightarrow> fs_state s = CLAIMED \<and> rested s"
    "fs_callers s r = C_publish \<Longrightarrow> fs_state s = CLAIMED \<and> rested s \<and> fresh_lanes s r"
    "fs_callers s r = C_give ab \<Longrightarrow> fs_state s = NEEDS_BUFFER \<and> fs_helper s = H_wait r \<and> fs_copied s
       \<and> fs_size s = length (resp r) \<and> \<not> fs_abandoned s"
    "fs_callers s r = C_given ab b \<Longrightarrow> fs_state s = NEEDS_BUFFER \<and> fs_helper s = H_wait r \<and> fs_copied s
       \<and> fs_buffer s = b \<and> \<not> fs_abandoned s \<and> given resp s r b"
    "fs_callers s r = C_take b \<Longrightarrow> fs_state s = DONE \<and> (fs_helper s = H_check DONE \<or> fs_helper s = H_idle) \<and> filled resp s r b"
    "fs_callers s r = C_fail ab b \<Longrightarrow> (fs_state s = FAILED \<or> fs_state s = CANCELLED)
       \<and> (fs_helper s = H_check (fs_state s) \<or> fs_helper s = H_idle) \<and> b = 0"
  using assms by (auto simp: stage_defs owner_def waits_def left_def split: mailbox_state.splits helper_pc.splits if_splits)

lemma fetch_inv_claim:
  assumes inv: "fetch_inv resp s" and free: "fs_callers s r = C_out" "fs_state s = FREE" "fs_leaving s = []"
  shows "fetch_inv resp (goto r C_setup (s\<lparr>fs_state := CLAIMED, fs_owner := Some r\<rparr>))"
proof -
  from inv free(2) have o: "fs_owner s = None" "rested s" by (simp_all add: fetch_inv_def stage_ok_def)
  have "\<forall>q sts. fs_callers s q \<noteq> C_drop sts" using inv free(3) by (auto simp: fetch_inv_def)
  with inv o show ?thesis by (auto simp: fetch_inv_def stage_ok_def rested_def owner_def)
qed

text \<open>When nobody owns the slot, a caller that leaves it further changes nothing.\<close>

lemma stage_ok_left:
  assumes inv: "stage_ok resp s" and o: "fs_owner s = None"
    and t: "fs_state t = fs_state s" "fs_helper t = fs_helper s" "fs_copied t = fs_copied s" "fs_size t = fs_size s"
      "fs_buffer t = fs_buffer s" "fs_abandoned t = fs_abandoned s" "fs_memory t = fs_memory s" "fs_owner t = None"
    and l: "\<And>q. left s q \<Longrightarrow> left t q"
    and d: "\<And>q sts. fs_callers s q = C_drop sts \<Longrightarrow> fs_state s \<in> set sts \<Longrightarrow>
      \<exists>q sts. fs_callers t q = C_drop sts \<and> fs_state s \<in> set sts"
  shows "stage_ok resp t"
proof -
  have w: "\<not> waits s q b" "\<not> waits t q b" "\<not> owner s q pc" "\<not> owner t q pc" for q b pc
    using o t(8) by (simp_all add: waits_def owner_def)
  have m: "given resp t = given resp s" "filled resp t = filled resp s" using t(7) by (simp_all add: fun_eq_iff given_def filled_def)
  have d': "\<exists>q sts. fs_callers t q = C_drop sts \<and> st \<in> set sts"
    if "fs_callers s q = C_drop sts" "st \<in> set sts" "fs_state s = st" for q sts st
    using d [of q sts] that by simp
  show ?thesis
    using inv by (cases "fs_state s"; cases "fs_helper s") (auto simp: stage_defs w m t o intro: l d')
qed

lemma fetch_inv_drop:
  assumes inv: "fetch_inv resp s" and pc: "fs_callers s r = C_drop sts" and step: "caller_next prompt r ch s = Some t"
  shows "fetch_inv resp t"
proof -
  from inv pc have o: "fs_owner s = None" "r \<in> set (fs_leaving s)" "set sts \<subseteq> {DONE, FAILED, CANCELLED}" "stage_ok resp s"
    by (auto simp: fetch_inv_def)
  show ?thesis
  proof (cases sts)
    case Nil
    with pc step have t: "t = goto r (C_back R_aborted) (s\<lparr>fs_leaving := removeAll r (fs_leaving s)\<rparr>)" by (simp add: caller_next_def)
    have "stage_ok resp t"
    proof (rule stage_ok_left [OF o(4,1)])
      fix q sts'
      assume "fs_callers s q = C_drop sts'" "fs_state s \<in> set sts'"
      with pc Nil t show "\<exists>q sts. fs_callers t q = C_drop sts \<and> fs_state s \<in> set sts"
        by (intro exI [of _ q] exI [of _ sts']) auto
    qed (use pc Nil o(1) in \<open>auto simp: t left_def\<close>)
    with inv o pc t show ?thesis by (auto simp: fetch_inv_def)
  next
    case (Cons st rest)
    with pc step have t: "t = goto r (C_drop rest) (if fs_state s = st then s\<lparr>fs_state := FREE\<rparr> else s)" by (simp add: caller_next_def)
    have "stage_ok resp t"
    proof (cases "fs_state s = st")
      case True
      with o(3) Cons have d: "fs_state s = DONE \<or> fs_state s = FAILED \<or> fs_state s = CANCELLED" by auto
      with o(4) have "finished resp s" by (cases "fs_state s") (auto simp: stage_ok_def)
      then have "fs_helper s = H_idle \<or> fs_helper s = H_check (fs_state s) \<or> fs_helper s = H_release (fs_state s)"
        by (auto simp: finished_def Let_def)
      with d True o(1) t show ?thesis by (auto simp: stage_ok_def rested_def)
    next
      case False
      show ?thesis
      proof (rule stage_ok_left [OF o(4,1)])
        fix q stsa
        assume q: "fs_callers s q = C_drop stsa" "fs_state s \<in> set stsa"
        show "\<exists>q sts. fs_callers t q = C_drop sts \<and> fs_state s \<in> set sts"
        proof (cases "q = r")
          case True
          with q pc Cons False t show ?thesis by (intro exI [of _ r] exI [of _ rest]) auto
        next
          case False
          with q t show ?thesis by (intro exI [of _ q] exI [of _ stsa]) auto
        qed
      qed (use pc Cons o(1) False in \<open>auto simp: t left_def\<close>)
    qed
    with inv o pc t Cons show ?thesis by (auto simp: fetch_inv_def)
  qed
qed

text \<open>The steps of the owner.\<close>

lemma stage_waits:
  assumes "stage_ok resp s" "fs_owner s = Some r" "fs_callers s r = C_top ab b \<or> fs_callers s r = C_wait ab b \<or> fs_callers s r = C_grace b
     \<or> fs_callers s r = C_abandon b"
  shows "waits s r b \<and> (fs_state s = REQUEST \<longrightarrow> b = 0 \<and> fresh_lanes s r \<and> (\<exists>ab. fs_callers s r = C_top ab b \<or> fs_callers s r = C_wait ab b))
     \<and> fs_state s \<in> {REQUEST, IN_FLIGHT, NEEDS_BUFFER, BUFFER_PROVIDED, DONE, FAILED, CANCELLED}"
  using assms by (auto simp: stage_defs owner_def waits_def left_def fresh_lanes_def split: mailbox_state.splits helper_pc.splits if_splits)

lemma stage_waits_request:
  assumes "stage_ok resp s" "waits s r b" "fs_state s = REQUEST"
  shows "rested s \<and> fresh_lanes s r \<and> b = 0"
  using assms by (auto simp: stage_ok_def owner_def waits_def)

text \<open>The owner goes from one place where it waits to another.\<close>

lemma stage_ok_waits:
  assumes inv: "stage_ok resp s" and w: "waits s r b" "waits t r b" and o: "fs_owner t = fs_owner s"
    and req: "fs_state s = REQUEST \<Longrightarrow> \<exists>ab. fs_callers t r = C_top ab b \<or> fs_callers t r = C_wait ab b"
    and t: "fs_state t = fs_state s" "fs_helper t = fs_helper s" "fs_copied t = fs_copied s" "fs_size t = fs_size s"
      "fs_buffer t = fs_buffer s" "fs_abandoned t = fs_abandoned s" "fs_memory t = fs_memory s" "fs_inputs t = fs_inputs s"
  shows "stage_ok resp t"
proof -
  have r: "fs_owner s = Some r" "\<not> left s q" "\<not> left t q" for q using w(1) o by (auto simp: waits_def left_def)
  have u: "waits s q c \<longleftrightarrow> q = r \<and> c = b" "waits t q c \<longleftrightarrow> q = r \<and> c = b" for q c
    using w by (auto simp: waits_def)
  have n: "\<not> owner s q C_setup" "\<not> owner s q C_publish" "\<not> owner s q (C_give ab)" "\<not> owner s q (C_given ab c)"
    "\<not> owner s q (C_take c)" "\<not> owner s q (C_fail ab c)" for q ab c
    using w(1) by (auto simp: waits_def owner_def)
  have m: "given resp t = given resp s" "filled resp t = filled resp s" using t(7) by (simp_all add: fun_eq_iff given_def filled_def)
  have a: "\<not> fs_abandoned s" using w(1) by (rule waits_present)
  show ?thesis
  proof (cases "fs_state s")
    case REQUEST
    with inv n have "rested s" "fresh_lanes s r" "b = 0"
      using stage_waits_request [OF inv w(1) REQUEST] by auto
    moreover from req REQUEST obtain ab where "fs_callers t r = C_top ab b \<or> fs_callers t r = C_wait ab b" by blast
    ultimately show ?thesis using REQUEST t o r(1)
      by (auto simp: stage_ok_def rested_def fresh_lanes_def owner_def)
  next
    case IN_FLIGHT
    with inv show ?thesis by (cases "fs_helper s") (auto simp: stage_ok_def in_flight_def t u r)
  next
    case NEEDS_BUFFER
    with inv show ?thesis by (auto simp: stage_ok_def needs_buffer_def t u r n)
  next
    case BUFFER_PROVIDED
    with inv show ?thesis by (cases "fs_helper s") (auto simp: stage_ok_def provided_def t u r m)
  qed (use inv a in \<open>auto simp: stage_ok_def finished_def has_result_def Let_def t u r n m split: if_splits\<close>)
qed

lemma fetch_inv_setup:
  assumes inv: "fetch_inv resp s" and pc: "fs_callers s r = C_setup \<or> fs_callers s r = C_publish"
    and step: "caller_next prompt r ch s = Some t"
  shows "fetch_inv resp t"
proof -
  from inv pc have o: "fs_owner s = Some r" "stage_ok resp s" by (auto simp: fetch_inv_def)
  with pc have c: "fs_state s = CLAIMED" "rested s" "fs_callers s r = C_publish \<Longrightarrow> fresh_lanes s r"
    using stage_owner(1,2) [OF o(2,1)] by auto
  from pc show ?thesis
  proof
    assume p: "fs_callers s r = C_setup"
    with step have t: "t = goto r C_publish (s\<lparr>fs_inputs := r, fs_size := 0, fs_buffer := 0, fs_progress := 0, fs_copied := False,
       fs_abandoned := False, fs_abort := False\<rparr>)" by (simp add: caller_next_def)
    show ?thesis
      by (rule fetch_inv_keep [OF inv o(1), of C_publish]) (use c o(1) in \<open>auto simp: t stage_ok_def rested_def owner_def fresh_lanes_def\<close>)
  next
    assume p: "fs_callers s r = C_publish"
    with step have t: "t = goto r (C_top False 0) (s\<lparr>fs_state := REQUEST\<rparr>)" by (simp add: caller_next_def)
    show ?thesis
      by (rule fetch_inv_keep [OF inv o(1), of "C_top False 0"])
        (use c p o(1) in \<open>auto simp: t stage_ok_def rested_def owner_def fresh_lanes_def\<close>)
  qed
qed

lemma fetch_inv_top:
  assumes inv: "fetch_inv resp s" and pc: "fs_callers s r = C_top ab b" and step: "caller_next prompt r ch s = Some t"
  shows "fetch_inv resp t"
proof -
  from inv pc have o: "fs_owner s = Some r" "stage_ok resp s" by (auto simp: fetch_inv_def)
  then have w: "waits s r b" "fs_state s = REQUEST \<Longrightarrow> b = 0" using stage_waits [OF o(2,1)] pc by auto
  have u: "waits s q c \<longleftrightarrow> q = r \<and> c = b" "\<not> left s q" for q c using w(1) by (auto simp: waits_def left_def)
  define pc' where "pc' = (case fs_state s of
         NEEDS_BUFFER \<Rightarrow> C_give ab | DONE \<Rightarrow> C_take b | FAILED \<Rightarrow> C_fail ab b
       | CANCELLED \<Rightarrow> C_fail ab b | _ \<Rightarrow> C_wait ab b)"
  have t: "t = goto r pc' s" using pc step by (simp add: caller_next_def pc'_def)
  have st: "stage_ok resp t"
  proof (cases "fs_state s \<in> {NEEDS_BUFFER, DONE, FAILED, CANCELLED}")
    case False
    then have "pc' = C_wait ab b" by (auto simp: pc'_def split: mailbox_state.splits)
    then show ?thesis
      by (intro stage_ok_waits [OF o(2) w(1)]) (use w(1) o(1) in \<open>auto simp: t waits_def\<close>)
  next
    case True
    have f: "\<not> fs_abandoned s" "\<And>pc. \<not> owner s q (C_take c)" "\<not> owner s q (C_fail a c)" "\<not> owner s q (C_give a)" "\<not> owner s q (C_given a c)" for q a c
      using w(1) pc o(1) by (auto simp: waits_def owner_def)
    show ?thesis
    proof (cases "fs_state s = NEEDS_BUFFER")
      case True
      with o(2) have "needs_buffer resp s" by (simp add: stage_ok_def)
      with True f u o(1) show ?thesis by (auto simp: t pc'_def stage_ok_def needs_buffer_def owner_def)
    next
      case False
      with True o(2) have "finished resp s" by (auto simp: stage_ok_def)
      then have "fs_copied s" "fs_helper s = H_check (fs_state s) \<or> fs_helper s = H_idle" "has_result resp s (fs_state s) r"
        using u f by (auto simp: finished_def has_result_def Let_def split: if_splits)
      moreover from this have "if fs_state s = DONE then filled resp s r b else b = 0"
        using u f by (auto simp: has_result_def split: if_splits)
      moreover have "owner t r (if fs_state s = DONE then C_take b else C_fail ab b)"
        using True False o(1) by (auto simp: t pc'_def owner_def)
      ultimately have "has_result resp t (fs_state s) r"
        using f(1) unfolding has_result_def by (intro conjI exI [of _ b]) (auto simp: t filled_def)
      with \<open>fs_copied s\<close> \<open>fs_helper s = H_check (fs_state s) \<or> fs_helper s = H_idle\<close> have "finished resp t"
        by (auto simp: finished_def Let_def t)
      then show ?thesis using True False by (auto simp: stage_ok_def t)
    qed
  qed
  show ?thesis
    by (rule fetch_inv_keep [OF inv o(1), of pc']) (use st t in \<open>auto simp: pc'_def split: mailbox_state.splits\<close>)
qed

lemma fetch_inv_wait:
  assumes inv: "fetch_inv resp s" and pc: "fs_callers s r = C_wait ab b" and step: "caller_next prompt r ch s = Some t"
  shows "fetch_inv resp t"
proof -
  from inv pc have o: "fs_owner s = Some r" "stage_ok resp s" by (auto simp: fetch_inv_def)
  then have w: "waits s r b" using stage_waits [OF o(2,1)] pc by auto
  have go: "fetch_inv resp u"
    if "u = goto r pc' s \<or> u = goto r pc' (s\<lparr>fs_abort := True\<rparr>)" "(\<exists>ab. pc' = C_top ab b) \<or> pc' = C_grace b \<and> fs_state s \<noteq> REQUEST" for u pc'
  proof (rule fetch_inv_keep [OF inv o(1), of pc'])
    show "stage_ok resp u"
      by (rule stage_ok_waits [OF o(2) w]) (use w o(1) that in \<open>auto simp: waits_def\<close>)
  qed (use that in auto)
  have gone: "fetch_inv resp (goto r (C_back x) (s\<lparr>fs_state := FREE, fs_owner := None\<rparr>))"
    if "fs_state s = REQUEST" "x = R_unavailable \<or> x = R_aborted" for x
  proof (rule fetch_inv_leave [OF inv o(1), of _ x])
    show "stage_ok resp (goto r (C_back x) (s\<lparr>fs_state := FREE, fs_owner := None\<rparr>))"
      using stage_waits_request [OF o(2) w that(1)] by (simp add: stage_ok_def rested_def)
  qed (use that in auto)
  have n: "caller_next prompt r ch s = Some t" by (rule step)
  show ?thesis
  proof (cases ch)
    case PickupTimeout
    show ?thesis
    proof (cases "fs_state s = REQUEST")
      case True
      with n pc PickupTimeout gone [OF True, of R_unavailable] show ?thesis by (simp add: caller_next_def)
    next
      case False
      with n pc PickupTimeout have "t = goto r (C_top ab b) s" by (simp add: caller_next_def)
      then show ?thesis by (intro go [of t "C_top ab b"]) simp_all
    qed
  next
    case RaiseAbort
    with n pc have "t = goto r (C_top True b) (s\<lparr>fs_abort := True\<rparr>)" by (simp add: caller_next_def split: if_splits)
    then show ?thesis by (intro go [of t "C_top True b"]) auto
  next
    case GraceOver
    show ?thesis
    proof (cases "fs_state s = REQUEST")
      case True
      with n pc GraceOver gone [OF True, of R_aborted] show ?thesis by (simp add: caller_next_def split: if_splits)
    next
      case False
      with n pc GraceOver have "t = goto r (C_grace b) s" by (simp add: caller_next_def split: if_splits)
      with False show ?thesis by (intro go [of t "C_grace b"]) simp_all
    qed
  qed (use n pc in \<open>(simp add: caller_next_def, intro go [of t "C_top ab b"], simp_all)\<close>)+
qed

lemma fetch_inv_give:
  assumes inv: "fetch_inv resp s" and pc: "fs_callers s r = C_give ab" and step: "caller_next prompt r ch s = Some t"
  shows "fetch_inv resp t"
proof -
  from inv pc have o: "fs_owner s = Some r" "stage_ok resp s" by (auto simp: fetch_inv_def)
  with pc have c: "fs_state s = NEEDS_BUFFER" "fs_helper s = H_wait r" "fs_copied s" "fs_size s = length (resp r)" "\<not> fs_abandoned s"
    using stage_owner(3) [OF o(2,1)] by auto
  show ?thesis
  proof (cases "ab \<or> ch = OutOfMemory")
    case True
    with pc step have t: "t = goto r (C_given ab 0) (s\<lparr>fs_buffer := 0\<rparr>)" by (simp add: caller_next_def)
    show ?thesis
      by (rule fetch_inv_keep [OF inv o(1), of "C_given ab 0"])
        (use c o(1) in \<open>auto simp: t stage_ok_def needs_buffer_def owner_def given_def\<close>)
  next
    case False
    define b where "b = fs_fresh s"
    from False pc step have t: "t = goto r (C_given ab b) (s\<lparr>fs_buffer := b, fs_fresh := Suc b,
      fs_memory := (fs_memory s)(b := Some (r, replicate (fs_size s) 0))\<rparr>)" by (auto simp: caller_next_def b_def)
    have "stage_ok resp t" using c o(1) by (auto simp: t stage_ok_def needs_buffer_def owner_def given_def)
    moreover from inv o(1) have "\<forall>q sts. fs_callers s q \<noteq> C_drop sts" by (auto simp: fetch_inv_def)
    moreover have "c \<noteq> b" if "fs_callers s q = C_back (R_ok c)" for q c
    proof -
      from inv that have "fs_memory s c \<noteq> None" by (simp add: fetch_inv_def)
      with inv show ?thesis unfolding fetch_inv_def b_def by blast
    qed
    moreover have "0 < c \<and> c < Suc b" if "fs_memory s c \<noteq> None" for c
      using inv that unfolding fetch_inv_def b_def by (meson less_SucI)
    ultimately show ?thesis using inv o(1) by (auto simp: fetch_inv_def t b_def)
  qed
qed

lemma fetch_inv_given:
  assumes inv: "fetch_inv resp s" and pc: "fs_callers s r = C_given ab b" and step: "caller_next prompt r ch s = Some t"
  shows "fetch_inv resp t"
proof -
  from inv pc have o: "fs_owner s = Some r" "stage_ok resp s" by (auto simp: fetch_inv_def)
  with pc have c: "fs_helper s = H_wait r" "fs_copied s" "fs_buffer s = b" "\<not> fs_abandoned s" "given resp s r b"
    using stage_owner(4) [OF o(2,1)] by auto
  from pc step have t: "t = goto r (C_top ab b) (s\<lparr>fs_state := BUFFER_PROVIDED\<rparr>)" by (simp add: caller_next_def)
  show ?thesis
    by (rule fetch_inv_keep [OF inv o(1), of "C_top ab b"])
      (use c o(1) in \<open>auto simp: t stage_ok_def provided_def waits_def given_def\<close>)
qed

lemma fetch_inv_result:
  assumes inv: "fetch_inv resp s" and pc: "fs_callers s r = C_take b \<or> fs_callers s r = C_fail ab b"
    and step: "caller_next prompt r ch s = Some t"
  shows "fetch_inv resp t"
proof -
  from inv pc have o: "fs_owner s = Some r" "stage_ok resp s" by (auto simp: fetch_inv_def)
  have c: "fs_helper s = H_check DONE \<or> fs_helper s = H_check FAILED \<or> fs_helper s = H_check CANCELLED \<or> fs_helper s = H_idle"
    "fs_callers s r = C_take b \<Longrightarrow> fs_memory s b = Some (r, resp r)" "fs_callers s r = C_fail ab b \<Longrightarrow> b = 0"
    using pc stage_owner(5,6) [OF o(2,1)] by (auto simp: filled_def)
  have leave: "fetch_inv resp t" if t: "t = goto r (C_back x) (s\<lparr>fs_state := FREE, fs_owner := None\<rparr>)"
    and x: "\<And>c. x = R_ok c \<Longrightarrow> fs_memory s c = Some (r, resp r)" for x
    by (rule fetch_inv_leave [OF inv o(1), of _ x]) (use c(1) x in \<open>auto simp: t stage_ok_def rested_def\<close>)
  from pc show ?thesis
  proof
    assume p: "fs_callers s r = C_take b"
    with step have "t = goto r (C_back (R_ok b)) (s\<lparr>fs_state := FREE, fs_owner := None\<rparr>)" by (simp add: caller_next_def)
    then show ?thesis by (rule leave) (use c(2) [OF p] in simp)
  next
    assume p: "fs_callers s r = C_fail ab b"
    with step c(3) have "t = goto r (C_back (if ab then R_aborted else R_failed)) (s\<lparr>fs_state := FREE, fs_owner := None\<rparr>)"
      by (simp add: caller_next_def)
    then show ?thesis by (rule leave) (simp split: if_splits)
  qed
qed

lemma fetch_inv_grace:
  assumes inv: "fetch_inv resp s" and pc: "fs_callers s r = C_grace b" and step: "caller_next prompt r ch s = Some t"
  shows "fetch_inv resp t"
proof -
  from inv pc have o: "fs_owner s = Some r" "stage_ok resp s" by (auto simp: fetch_inv_def)
  then have w: "waits s r b" "fs_state s \<noteq> REQUEST" using stage_waits [OF o(2,1)] pc by auto
  from pc step have t: "t = goto r (if fs_copied s then C_abandon b else C_top True b) s" by (simp add: caller_next_def)
  have "stage_ok resp t" by (rule stage_ok_waits [OF o(2) w(1)]) (use w o(1) in \<open>auto simp: t waits_def\<close>)
  then show ?thesis
    by (intro fetch_inv_keep [OF inv o(1), of "if fs_copied s then C_abandon b else C_top True b"]) (simp_all add: t)
qed

lemma fetch_inv_abandon:
  assumes inv: "fetch_inv resp s" and pc: "fs_callers s r = C_abandon b" and step: "caller_next prompt r ch s = Some t"
  shows "fetch_inv resp t"
proof -
  from inv pc have o: "fs_owner s = Some r" "stage_ok resp s" by (auto simp: fetch_inv_def)
  then have w: "waits s r b" "fs_state s \<in> {IN_FLIGHT, NEEDS_BUFFER, BUFFER_PROVIDED, DONE, FAILED, CANCELLED}"
    using stage_waits [OF o(2,1)] pc by auto
  from pc step have t: "t = goto r (C_drop [DONE, FAILED, CANCELLED])
    (s\<lparr>fs_abandoned := True, fs_owner := None, fs_leaving := r # fs_leaving s\<rparr>)" by (simp add: caller_next_def)
  have u: "waits s q c \<longleftrightarrow> q = r \<and> c = b" "\<not> left s q" "fs_copied s" for q c
    using w(1) pc by (auto simp: waits_def left_def)
  have l: "left t r" by (simp add: t left_def)
  have n: "\<not> owner s q C_setup" "\<not> owner s q (C_give a)" "\<not> owner s q (C_given a c)" "\<not> owner s q (C_take c)" "\<not> owner s q (C_fail a c)" for q a c
    using o(1) pc by (auto simp: owner_def)
  have f: "fs_state t = fs_state s" "fs_helper t = fs_helper s" "fs_copied t = fs_copied s" "fs_size t = fs_size s"
    "fs_buffer t = fs_buffer s" "given resp t = given resp s" "filled resp t = filled resp s"
    by (simp_all add: t given_def filled_def fun_eq_iff)
  have "stage_ok resp t"
  proof (cases "fs_state s")
    case IN_FLIGHT
    with o(2) l u show ?thesis by (cases "fs_helper s") (auto simp: stage_ok_def in_flight_def f)
  next
    case NEEDS_BUFFER
    with o(2) l u n show ?thesis by (auto simp: stage_ok_def needs_buffer_def f)
  next
    case BUFFER_PROVIDED
    with o(2) l u show ?thesis by (cases "fs_helper s") (auto simp: stage_ok_def provided_def f)
  next
    case DONE
    with o(2) u(2) have "fs_helper s = H_check DONE \<or> fs_helper s = H_idle" by (auto simp: stage_ok_def finished_def Let_def)
    moreover have "fs_callers t r = C_drop [DONE, FAILED, CANCELLED]" by (simp add: t)
    ultimately show ?thesis using DONE l u(3) by (fastforce simp: stage_ok_def finished_def Let_def f)
  next
    case FAILED
    with o(2) u(2) have "fs_helper s = H_check FAILED \<or> fs_helper s = H_idle" by (auto simp: stage_ok_def finished_def Let_def)
    moreover have "fs_callers t r = C_drop [DONE, FAILED, CANCELLED]" by (simp add: t)
    ultimately show ?thesis using FAILED l u(3) by (fastforce simp: stage_ok_def finished_def Let_def f)
  next
    case CANCELLED
    with o(2) u(2) have "fs_helper s = H_check CANCELLED \<or> fs_helper s = H_idle" by (auto simp: stage_ok_def finished_def Let_def)
    moreover have "fs_callers t r = C_drop [DONE, FAILED, CANCELLED]" by (simp add: t)
    ultimately show ?thesis using CANCELLED l u(3) by (fastforce simp: stage_ok_def finished_def Let_def f)
  qed (use w in auto)
  moreover from inv o(1) have "\<forall>q sts. fs_callers s q \<noteq> C_drop sts" by (auto simp: fetch_inv_def)
  ultimately show ?thesis using inv o(1) by (auto simp: fetch_inv_def t)
qed

lemma fetch_inv_step:
  assumes inv: "fetch_inv resp s" and step: "fetch_step True resp s e t"
  shows "fetch_inv resp t"
proof (cases e)
  case (F_helper ch)
  with step show ?thesis by (auto simp: fetch_step_def intro: fetch_inv_helper [OF inv])
next
  case (F_caller r ch)
  with step have n: "caller_next True r ch s = Some t" by (simp add: fetch_step_def)
  show ?thesis
  proof (cases "fs_callers s r")
    case C_out
    with n have "fs_state s = FREE" "fs_leaving s = []" "t = goto r C_setup (s\<lparr>fs_state := CLAIMED, fs_owner := Some r\<rparr>)"
      by (auto simp: caller_next_def split: if_splits)
    then show ?thesis using fetch_inv_claim [OF inv C_out] by simp
  next
    case (C_back x)
    with n show ?thesis by (simp add: caller_next_def)
  qed (use n inv in \<open>blast intro: fetch_inv_setup fetch_inv_top fetch_inv_wait fetch_inv_give fetch_inv_given fetch_inv_result
    fetch_inv_grace fetch_inv_abandon fetch_inv_drop\<close>)+
qed

interpretation mailbox: invariant_machine "fetch_step True resp" "fetch_inv resp" for resp
  by unfold_locales (rule fetch_inv_step)

section \<open>Properties\<close>

fun fetch_run :: "bool \<Rightarrow> (nat \<Rightarrow> byte list) \<Rightarrow> fetch_slot \<Rightarrow> fetch_event list \<Rightarrow> fetch_slot option" where
  "fetch_run prompt resp s [] = Some s"
| "fetch_run prompt resp s (e # es) = (case fetch_next prompt resp e s of None \<Rightarrow> None | Some t \<Rightarrow> fetch_run prompt resp t es)"

lemma fetch_run_exec: "fetch_run prompt resp s es = Some t \<Longrightarrow> exec (fetch_step prompt resp) s es t"
  by (induction es arbitrary: s) (auto simp: fetch_step_def split: option.splits intro: exec.intros)

lemma stage_ok_copies:
  "stage_ok resp s \<Longrightarrow> fs_helper s = H_read \<or> fs_helper s = H_copied q \<Longrightarrow>
     waits s (fs_inputs s) 0 \<and> (fs_helper s = H_copied q \<longrightarrow> q = fs_inputs s)"
  by (auto simp: stage_defs split: mailbox_state.splits if_splits)

lemma stage_ok_writes:
  "stage_ok resp s \<Longrightarrow> fs_helper s = H_write r b \<Longrightarrow> given resp s r b \<and> b \<noteq> 0"
  by (auto simp: stage_defs split: mailbox_state.splits if_splits)


text \<open>Two requests one after the other; the timer of the second runs out and it leaves while its response is being fetched.\<close>

definition two_requests :: "fetch_event list" where
  "two_requests = [F_caller 1 Go, F_caller 1 Go, F_caller 1 Go, F_caller 1 Go, F_helper Serve, F_helper Serve, F_helper Serve,
     F_helper Serve, F_helper Serve, F_caller 1 Go, F_caller 1 Go, F_caller 1 Go, F_caller 1 Go, F_helper Serve, F_helper Serve,
     F_helper Serve, F_helper Serve, F_caller 1 Go, F_caller 1 Go, F_helper Serve,
     F_caller 2 Go, F_caller 2 Go, F_caller 2 Go, F_helper Serve, F_helper Serve, F_helper Serve,
     F_caller 2 Go, F_caller 2 RaiseAbort, F_caller 2 Go, F_caller 2 GraceOver, F_caller 2 Go]"

lemma two_requests_run:
  "map_option (\<lambda>s. (fs_callers s 1, fs_callers s 2, fs_helper s)) (fetch_run True (\<lambda>r. [of_nat r, 7]) fetch_init two_requests)
     = Some (C_back (R_ok 1), C_abandon 0, H_fetch 2)"
  by code_simp


text \<open>
  The restriction to \<open>prompt\<close> executions is needed: a caller that stalls between raising \<open>ABANDONED\<close> and its last
  exchange can find the final state of a later request there and free the slot under its caller.
\<close>

definition late_leaver :: "fetch_event list" where
  "late_leaver = [F_caller 0 Go, F_caller 0 Go, F_caller 0 Go, F_helper Serve, F_helper Serve, F_helper Serve,
     F_caller 0 Go, F_caller 0 RaiseAbort, F_caller 0 Go, F_caller 0 GraceOver, F_caller 0 Go, F_caller 0 Go,
     F_helper FetchFails, F_helper Serve, F_helper Serve, F_helper Serve,
     F_caller 1 Go, F_caller 1 Go, F_caller 1 Go, F_helper Serve, F_helper Serve, F_helper Serve, F_helper FetchFails, F_helper Serve,
     F_caller 0 Go, F_caller 0 Go, F_caller 2 Go]"

lemma late_leaver_frees_a_foreign_slot:
  "\<exists>s. exec (fetch_step False resp) fetch_init late_leaver s \<and> holding (fs_callers s 1) \<and> holding (fs_callers s 2)"
proof -
  have "\<exists>s. fetch_run False resp fetch_init late_leaver = Some s \<and> holding (fs_callers s 1) \<and> holding (fs_callers s 2)"
    by (simp add: late_leaver_def caller_next_def helper_next_def fetch_init_def)
  then show ?thesis using fetch_run_exec by blast
qed

definition forsaken :: "fetch_slot \<Rightarrow> bool" where
  "forsaken s \<longleftrightarrow> fs_state s = NEEDS_BUFFER \<and> (\<exists>r. fs_helper s = H_wait r) \<and> (\<forall>r. fs_callers s r = C_out \<or> (\<exists>x. fs_callers s r = C_back x))"

lemma forsaken_step: "forsaken s \<Longrightarrow> fetch_step prompt resp s e t \<Longrightarrow> t = s"
proof (cases e)
  case (F_caller r ch)
  assume f: "forsaken s" and st: "fetch_step prompt resp s e t"
  from f have "fs_state s = NEEDS_BUFFER" "fs_callers s r = C_out \<or> (\<exists>x. fs_callers s r = C_back x)" by (auto simp: forsaken_def)
  with st F_caller show ?thesis by (auto simp: fetch_step_def caller_next_def)
qed (auto simp: forsaken_def fetch_step_def helper_next_def)

lemma forsaken_exec: "exec (fetch_step prompt resp) s es t \<Longrightarrow> forsaken s \<Longrightarrow> t = s"
  by (induction rule: exec.induct) (auto dest: forsaken_step)

definition called_off :: "fetch_event list" where
  "called_off = [F_caller 0 Go, F_caller 0 Go, F_caller 0 Go, F_helper Serve, F_helper Serve, F_helper Serve,
     F_caller 0 Go, F_caller 0 RaiseAbort, F_caller 0 Go, F_caller 0 GraceOver, F_caller 0 Go, F_caller 0 Go,
     F_caller 0 Go, F_caller 0 Go, F_caller 0 Go, F_caller 0 Go, F_helper Serve, F_helper Serve]"

lemma called_off_run:
  "\<exists>s. fetch_run True resp fetch_init called_off = Some s \<and> forsaken s \<and> fs_callers s 0 = C_back R_aborted"
  by (simp add: called_off_def caller_next_def helper_next_def fetch_init_def forsaken_def)

text \<open>A request whose caller is called off while the response is fetched can take its slot out of service for good: once the
  caller has left, the helper asks for a buffer nobody will provide, and whatever runs afterwards the slot stays in
  \<open>NEEDS_BUFFER\<close> with no one in it.\<close>

theorem abandoned_slot_can_leak:
  "\<exists>es s. exec (fetch_step True resp) fetch_init es s \<and> fs_callers s 0 = C_back R_aborted
     \<and> (\<forall>es' t. exec (fetch_step True resp) s es' t \<longrightarrow> fs_state t = NEEDS_BUFFER \<and> (\<forall>r. \<not> holding (fs_callers t r)))"
proof -
  obtain s where s: "fetch_run True resp fetch_init called_off = Some s" "forsaken s" "fs_callers s 0 = C_back R_aborted"
    using called_off_run by blast
  have "fs_state s = NEEDS_BUFFER" "\<not> holding (fs_callers s r)" for r
    using s(2) unfolding forsaken_def by (simp, metis holding.simps(1,3))
  with forsaken_exec [OF _ s(2)] fetch_run_exec [OF s(1)] s(3) show ?thesis by blast
qed

theorem abandoned_slot_can_leak_witness:
  "\<exists>es s. exec (fetch_step True (\<lambda>_. [7])) fetch_init es s \<and> fs_callers s 0 = C_back R_aborted
     \<and> exec (fetch_step True (\<lambda>_. [7])) s [] s \<and> fs_state s = NEEDS_BUFFER"
proof -
  obtain es s where s: "exec (fetch_step True (\<lambda>_. [7])) fetch_init es s" "fs_callers s 0 = C_back R_aborted"
    "\<forall>es' t. exec (fetch_step True (\<lambda>_. [7])) s es' t \<longrightarrow> fs_state t = NEEDS_BUFFER \<and> (\<forall>r. \<not> holding (fs_callers t r))"
    using abandoned_slot_can_leak [of "\<lambda>_. [7]"] by blast
  have "exec (fetch_step True (\<lambda>_. [7])) s [] s" by simp
  with s show ?thesis by blast
qed

end
