(* ===== verification/Hb_Bridge.thy ===== *)
theory Hb_Bridge
  imports Hb_Extension_Load
begin

text \<open>
  \<open>vgi/webworker-bridge.ts\<close>: the page's half of the VGI transport. The engine asks for a worker by location and blocks on a
  cell of shared memory; the bridge resolves the location, starts the worker or registers one more target region with an
  adapter worker that runs, and stores 1 or -1 in the cell.

  Promises are settled and their reactions run before the next event of the page is taken, so one event of the model is one
  event of the page with the reactions it causes. Workers, shared buffers and the cells requests wait on are numbers; the
  parser of URLs, the constructor of workers and the application's resolvers are parameters. Console output is left out.
\<close>

section \<open>Options and platform\<close>

datatype allow_origins = Origins "string list" | AnyOrigin

record adapter_target =
  at_adapterUrl :: string
  at_adapterKey :: string
  at_canonicalTarget :: string

text \<open>A resolver of the application may throw.\<close>

record bridge_options =
  bo_resolveWorkerUrl :: "(string \<Rightarrow> string option res) option"
  bo_resolveAdapterTarget :: "(string \<Rightarrow> adapter_target option res) option"
  bo_irohAdapterWorker :: "nat option"
  bo_resolveIrohTarget :: "(string \<Rightarrow> string option res) option"
  bo_maxTargetsPerAdapter :: "int option"
  bo_allowRemoteOrigins :: "allow_origins option"

text \<open>\<open>bp_URL l\<close> is \<open>new URL(l, self.location.href)\<close>, its \<open>href\<close> and \<open>origin\<close>, or \<open>None\<close> where it throws;
  \<open>bp_workerThrows u\<close> says that \<open>new Worker\<close> throws for the script at \<open>u\<close>.\<close>

record bridge_platform =
  bp_URL :: "string \<Rightarrow> (string \<times> string) option"
  bp_href :: string
  bp_origin :: string
  bp_workerThrows :: "string \<Rightarrow> bool"

definition makeResolveWorkerUrl :: "bridge_platform \<Rightarrow> allow_origins option \<Rightarrow> string \<Rightarrow> string option" where
  "makeResolveWorkerUrl P allow location = (case bp_URL P location of
     None \<Rightarrow> None
   | Some (href, origin) \<Rightarrow>
       if origin = bp_origin P then Some href
       else (case allow of
         Some AnyOrigin \<Rightarrow> Some href
       | Some (Origins os) \<Rightarrow> if origin \<in> set os then Some href else None
       | None \<Rightarrow> None))"

definition resolveWorkerUrl :: "bridge_platform \<Rightarrow> bridge_options \<Rightarrow> string \<Rightarrow> string option res" where
  "resolveWorkerUrl P opt location = (case bo_resolveWorkerUrl opt of
     Some f \<Rightarrow> f location
   | None \<Rightarrow> Inr (makeResolveWorkerUrl P (bo_allowRemoteOrigins opt) location))"

definition MAX_SAFE_INTEGER :: int where
  "MAX_SAFE_INTEGER = 2 ^ 53 - 1"

definition isSafeInteger :: "int \<Rightarrow> bool" where
  "isSafeInteger i \<longleftrightarrow> \<bar>i\<bar> \<le> MAX_SAFE_INTEGER"

definition maxTargetsPerAdapter :: "bridge_options \<Rightarrow> int" where
  "maxTargetsPerAdapter opt = (case bo_maxTargetsPerAdapter opt of None \<Rightarrow> 32 | Some n \<Rightarrow> n)"

section \<open>Names of targets\<close>

definition validName :: "string \<Rightarrow> bool" where
  "validName v \<longleftrightarrow> v \<noteq> [] \<and> length v \<le> 4096 \<and> list_all (\<lambda>c. 0x20 \<le> (of_char c :: nat) \<and> (of_char c :: nat) \<noteq> 0x7f) v"

definition lower_hex :: "char \<Rightarrow> bool" where
  "lower_hex c \<longleftrightarrow> c \<in> set ''0123456789abcdef''"

definition segment_char :: "char \<Rightarrow> bool" where
  "segment_char c \<longleftrightarrow> c \<in> set ''ABCDEFGHIJKLMNOPQRSTUVWXYZabcdefghijklmnopqrstuvwxyz0123456789._~!$&()*+,;=:@-'' \<or> of_char c = (0x27 :: nat)"

definition endpoint_id :: "string \<Rightarrow> bool" where
  "endpoint_id v \<longleftrightarrow> length v = 64 \<and> list_all lower_hex v"

definition canonicalIrohTarget :: "string \<Rightarrow> string option" where
  "canonicalIrohTarget v = (if take 7 v = ''iroh://'' \<and> endpoint_id (drop 7 v) then Some v else None)"

text \<open>\<open>seg(/seg)*\<close>, from the start of a segment or in the middle of one.\<close>

fun segments :: "bool \<Rightarrow> string \<Rightarrow> bool" where
  "segments started [] = started"
| "segments started (c # cs) = (if c = CHR ''/'' then started \<and> segments False cs else segment_char c \<and> segments True cs)"

definition base_path :: "string \<Rightarrow> bool" where
  "base_path v \<longleftrightarrow> v = [] \<or> hd v = CHR ''/'' \<and> segments False (tl v)"

definition canonicalHttpiTarget :: "string \<Rightarrow> string option" where
  "canonicalHttpiTarget v =
     (if take 8 v = ''httpi://'' \<and> endpoint_id (take 64 (drop 8 v)) \<and> base_path (drop 72 v) then Some v else None)"

definition canonicalBuiltInIrohTarget :: "string \<Rightarrow> string option" where
  "canonicalBuiltInIrohTarget v = (case canonicalIrohTarget v of Some x \<Rightarrow> Some x | None \<Rightarrow> canonicalHttpiTarget v)"

definition scheme_of :: "string \<Rightarrow> string" where
  "scheme_of v = takeWhile (\<lambda>c. c \<noteq> CHR '':'') v"

section \<open>State\<close>

record target_region =
  tr_target :: string
  tr_offset :: int
  tr_buffer :: nat
  tr_lastUsed :: nat

text \<open>A request for a region of an adapter, with the URL it resolved to and the cell it waits on.\<close>

record adapter_request =
  ar_url :: string
  ar_target :: string
  ar_offset :: int
  ar_buffer :: nat
  ar_ready :: nat

text \<open>The chain of promises of \<open>registrationQueue\<close>: the operations that wait their turn, and the one in its \<open>registerTarget\<close>.\<close>

record adapter_entry =
  ae_key :: string
  ae_url :: string
  ae_worker :: nat
  ae_regions :: "(string, target_region) jsmap"
  ae_queue :: "adapter_request list"
  ae_registering :: "(adapter_request \<times> nat \<times> target_region) option"

text \<open>Boots in progress, with the cells (or requests) that have joined them in order, and the worker once there is one.\<close>

record plain_boot =
  pb_buffer :: "nat option"
  pb_offset :: "int option"
  pb_ready :: "nat list"
  pb_worker :: "nat option"

record adapter_boot =
  ab_url :: string
  ab_application :: "nat option"
  ab_region :: target_region
  ab_ready :: nat
  ab_joined :: "adapter_request list"
  ab_worker :: "nat option"

datatype worker_message =
    Vgi_init "string option" "string option" "nat option" "int option" string
  | Vgi_register_target nat string nat int string
  | Vgi_unregister_target string int

text \<open>A boot is known by the URL of its plain worker or the key of its adapter.\<close>

datatype boot_id = Plain string | Adapter string

datatype listener = L_plain string | L_boot string | L_hook | L_target string nat

record bridge =
  vb_workers :: "(string, nat) jsmap"
  vb_pending :: "(string, plain_boot) jsmap"
  vb_adapters :: "(string, adapter_entry) jsmap"
  vb_pendingAdapters :: "(string, adapter_boot) jsmap"
  vb_touch :: nat
  vb_registrationSequence :: nat
  vb_listeners :: "(nat \<times> listener) list"
  vb_nextWorker :: nat
  vb_spawned :: "(nat \<times> boot_id \<times> string) list"
  vb_terminated :: "nat list"
  vb_posted :: "(nat \<times> worker_message) list"
  vb_signals :: "(nat \<times> int) list"
  vb_uncaught :: "nat list"
  vb_hooked :: "nat list"
  vb_memory :: "nat \<Rightarrow> int list"

text \<open>\<open>first\<close> is above the numbers of the workers the application has.\<close>

definition bridge_start :: "nat \<Rightarrow> (nat \<Rightarrow> int list) \<Rightarrow> bridge" where
  "bridge_start first mem = \<lparr>vb_workers = [], vb_pending = [], vb_adapters = [], vb_pendingAdapters = [], vb_touch = 0,
     vb_registrationSequence = 0, vb_listeners = [], vb_nextWorker = first, vb_spawned = [], vb_terminated = [], vb_posted = [],
     vb_signals = [], vb_uncaught = [], vb_hooked = [], vb_memory = mem\<rparr>"

definition installVgiWebWorkerBridge :: "bridge_options \<Rightarrow> nat \<Rightarrow> (nat \<Rightarrow> int list) \<Rightarrow> bridge res" where
  "installVgiWebWorkerBridge opt first mem =
     (if \<not> isSafeInteger (maxTargetsPerAdapter opt) \<or> maxTargetsPerAdapter opt \<le> 0
      then Inl (Error ''maxTargetsPerAdapter must be a positive integer'') else Inr (bridge_start first mem))"

definition signal :: "int \<Rightarrow> nat \<Rightarrow> bridge \<Rightarrow> bridge" where
  "signal v ready s = s\<lparr>vb_signals := vb_signals s @ [(ready, v)]\<rparr>"

definition signal_all :: "int \<Rightarrow> nat list \<Rightarrow> bridge \<Rightarrow> bridge" where
  "signal_all v readies s = s\<lparr>vb_signals := vb_signals s @ map (\<lambda>r. (r, v)) readies\<rparr>"

definition post :: "nat \<Rightarrow> worker_message \<Rightarrow> bridge \<Rightarrow> bridge" where
  "post w m s = s\<lparr>vb_posted := vb_posted s @ [(w, m)]\<rparr>"

definition listen :: "nat \<Rightarrow> listener \<Rightarrow> bridge \<Rightarrow> bridge" where
  "listen w l s = s\<lparr>vb_listeners := vb_listeners s @ [(w, l)]\<rparr>"

definition unlisten :: "nat \<Rightarrow> listener \<Rightarrow> bridge \<Rightarrow> bridge" where
  "unlisten w l s = s\<lparr>vb_listeners := removeAll (w, l) (vb_listeners s)\<rparr>"

definition terminate :: "nat \<Rightarrow> bridge \<Rightarrow> bridge" where
  "terminate w s = s\<lparr>vb_terminated := w # vb_terminated s\<rparr>"

definition set_adapter :: "adapter_entry \<Rightarrow> bridge \<Rightarrow> bridge" where
  "set_adapter a s = s\<lparr>vb_adapters := jm_set (ae_key a) a (vb_adapters s)\<rparr>"

section \<open>Regions of an adapter\<close>

definition to_int32 :: "int \<Rightarrow> int" where
  "to_int32 x = (x + 2 ^ 31) mod 2 ^ 32 - 2 ^ 31"

definition lane_at :: "int list \<Rightarrow> int \<Rightarrow> int option" where
  "lane_at lanes i = (if 0 \<le> i \<and> nat i < length lanes then Some (lanes ! nat i) else None)"

definition regionIsIdle :: "(nat \<Rightarrow> int list) \<Rightarrow> target_region \<Rightarrow> bool" where
  "regionIsIdle mem r =
     (if \<not> isSafeInteger (tr_offset r) \<or> tr_offset r < 0 \<or> tr_offset r mod 4 \<noteq> 0 then False
      else let i32 = mem (tr_buffer r); h = to_int32 (tr_offset r) div 4
        in case (lane_at i32 (h + 2), lane_at i32 (h + 4), lane_at i32 (h + 5)) of
          (Some nSlots, Some stride, Some slotsOff) \<Rightarrow>
            if nSlots \<le> 0 \<or> nSlots > 1024 \<or> stride < 64 \<or> slotsOff < 64 then False
            else list_all (\<lambda>slot. lane_at i32 (to_int32 (tr_offset r + slotsOff + int slot * stride) div 4) = Some 0) [0..<nat nSlots]
        | _ \<Rightarrow> False)"

text \<open>The least recently used of the idle regions; \<open>sort\<close> is stable.\<close>

definition least_used :: "target_region list \<Rightarrow> target_region option" where
  "least_used rs = (case sort_key tr_lastUsed rs of [] \<Rightarrow> None | r # _ \<Rightarrow> Some r)"

definition same_memory :: "adapter_request \<Rightarrow> target_region \<Rightarrow> bool" where
  "same_memory q r \<longleftrightarrow> tr_offset r = ar_offset q \<and> tr_buffer r = ar_buffer q"

text \<open>What an operation does when its turn comes: nothing is left to do, it throws, or it unregisters the regions in conflict
  and registers its own.\<close>

datatype region_plan = Plan_present | Plan_throws | Plan_register "target_region list"

definition plan_region :: "bridge_options \<Rightarrow> (nat \<Rightarrow> int list) \<Rightarrow> adapter_request \<Rightarrow> adapter_entry \<Rightarrow> region_plan" where
  "plan_region opt mem q a =
     (let current = jm_get (ae_regions a) (ar_target q);
          others = filter (\<lambda>r. current \<noteq> Some r \<and> same_memory q r) (jm_values (ae_regions a));
          conflicts = (case current of Some r \<Rightarrow> [r] | None \<Rightarrow> []) @ others
      in if (case current of Some r \<Rightarrow> same_memory q r | None \<Rightarrow> False) then Plan_present
         else if current = None \<and> conflicts = [] \<and> int (jm_size (ae_regions a)) \<ge> maxTargetsPerAdapter opt
         then (case least_used (filter (regionIsIdle mem) (jm_values (ae_regions a))) of
             None \<Rightarrow> Plan_throws
           | Some victim \<Rightarrow> Plan_register [victim])
         else if list_ex (\<lambda>r. \<not> regionIsIdle mem r) conflicts
         then Plan_throws
         else Plan_register conflicts)"

definition unregister :: "nat \<Rightarrow> target_region list \<Rightarrow> bridge \<Rightarrow> bridge" where
  "unregister w rs s = s\<lparr>vb_posted := vb_posted s @ map (\<lambda>r. (w, Vgi_unregister_target (tr_target r) (tr_offset r))) rs\<rparr>"

text \<open>The first part of an operation of \<open>ensureAdapterRegion\<close>, up to the \<open>await\<close>, with \<open>registerTarget\<close> begun.\<close>

definition begin_operation :: "bridge_options \<Rightarrow> adapter_request \<Rightarrow> adapter_entry \<Rightarrow> bridge \<Rightarrow> bridge" where
  "begin_operation opt q a s = (case plan_region opt (vb_memory s) q a of
     Plan_present \<Rightarrow>
       let touch = Suc (vb_touch s);
           regions = map (\<lambda>(t, r). (t, if t = ar_target q then r\<lparr>tr_lastUsed := touch\<rparr> else r)) (ae_regions a)
       in signal 1 (ar_ready q) (set_adapter (a\<lparr>ae_regions := regions\<rparr>) (s\<lparr>vb_touch := touch\<rparr>))
   | Plan_throws \<Rightarrow> signal (-1) (ar_ready q) (set_adapter a s)
   | Plan_register conflicts \<Rightarrow>
       let touch = Suc (vb_touch s); request = Suc (vb_registrationSequence s);
           region = \<lparr>tr_target = ar_target q, tr_offset = ar_offset q, tr_buffer = ar_buffer q, tr_lastUsed = touch\<rparr>;
           regions = fold (\<lambda>r m. jm_delete (tr_target r) m) conflicts (ae_regions a);
           s = unregister (ae_worker a) conflicts (s\<lparr>vb_touch := touch, vb_registrationSequence := request\<rparr>);
           s = listen (ae_worker a) (L_target (ae_key a) request) s;
           s = post (ae_worker a) (Vgi_register_target request (ar_target q) (ar_buffer q) (ar_offset q) (ae_url a)) s
       in set_adapter (a\<lparr>ae_regions := regions, ae_registering := Some (q, request, region)\<rparr>) s)"

text \<open>Operations run one after the other: each begins when the one before it is settled.\<close>

fun run_operations :: "bridge_options \<Rightarrow> string \<Rightarrow> adapter_request list \<Rightarrow> bridge \<Rightarrow> bridge" where
  "run_operations opt key [] s = s"
| "run_operations opt key (q # qs) s = (case jm_get (vb_adapters s) key of
     None \<Rightarrow> s
   | Some a \<Rightarrow>
       if ae_registering a \<noteq> None then s
       else run_operations opt key qs (begin_operation opt q (a\<lparr>ae_queue := qs\<rparr>) s))"

definition run_queue :: "bridge_options \<Rightarrow> string \<Rightarrow> bridge \<Rightarrow> bridge" where
  "run_queue opt key s = (case jm_get (vb_adapters s) key of None \<Rightarrow> s | Some a \<Rightarrow> run_operations opt key (ae_queue a) s)"

text \<open>\<open>finish\<close>: a request for an adapter that runs.\<close>

definition finish_request :: "bridge_options \<Rightarrow> string \<Rightarrow> adapter_request \<Rightarrow> bridge \<Rightarrow> bridge" where
  "finish_request opt key q s = (case jm_get (vb_adapters s) key of
     None \<Rightarrow> s
   | Some a \<Rightarrow>
       if ae_url a \<noteq> ar_url q then signal (-1) (ar_ready q) s
       else run_queue opt key (set_adapter (a\<lparr>ae_queue := ae_queue a @ [q]\<rparr>) s))"

text \<open>The rest of an operation once its \<open>registerTarget\<close> is settled, by the worker's answer or the timer.\<close>

definition end_operation :: "bridge_options \<Rightarrow> string \<Rightarrow> nat \<Rightarrow> bool \<Rightarrow> bridge \<Rightarrow> bridge" where
  "end_operation opt key request ok s = (case jm_get (vb_adapters s) key of
     None \<Rightarrow> s
   | Some a \<Rightarrow> (case ae_registering a of
       None \<Rightarrow> s
     | Some (q, req, region) \<Rightarrow>
         if req \<noteq> request then s
         else let s = unlisten (ae_worker a) (L_target key request) s;
                  regions = (if ok then jm_set (ar_target q) region (ae_regions a) else ae_regions a);
                  s = set_adapter (a\<lparr>ae_regions := regions, ae_registering := None\<rparr>) s
           in run_queue opt key (signal (if ok then 1 else -1) (ar_ready q) s)))"

section \<open>Starting workers\<close>

definition new_worker :: "boot_id \<Rightarrow> string \<Rightarrow> bridge \<Rightarrow> nat \<times> bridge" where
  "new_worker b url s = (vb_nextWorker s, s\<lparr>vb_nextWorker := Suc (vb_nextWorker s), vb_spawned := (vb_nextWorker s, b, url) # vb_spawned s\<rparr>)"

definition same_origin :: "bridge_platform \<Rightarrow> string \<Rightarrow> bool" where
  "same_origin P url \<longleftrightarrow> (case bp_URL P url of None \<Rightarrow> False | Some (_, origin) \<Rightarrow> origin = bp_origin P)"

definition fail_plain :: "string \<Rightarrow> bridge \<Rightarrow> bridge" where
  "fail_plain url s = (case jm_get (vb_pending s) url of
     None \<Rightarrow> s | Some b \<Rightarrow> signal_all (-1) (pb_ready b) (s\<lparr>vb_pending := jm_delete url (vb_pending s)\<rparr>))"

definition fail_adapter :: "string \<Rightarrow> bridge \<Rightarrow> bridge" where
  "fail_adapter key s = (case jm_get (vb_pendingAdapters s) key of
     None \<Rightarrow> s
   | Some b \<Rightarrow> signal_all (-1) (ab_ready b # map ar_ready (ab_joined b)) (s\<lparr>vb_pendingAdapters := jm_delete key (vb_pendingAdapters s)\<rparr>))"

text \<open>The worker is there: listen to it and send it \<open>vgi-init\<close>.\<close>

definition greet_plain :: "string \<Rightarrow> nat \<Rightarrow> bridge \<Rightarrow> bridge" where
  "greet_plain url w s = (case jm_get (vb_pending s) url of
     None \<Rightarrow> s
   | Some b \<Rightarrow> post w (Vgi_init None None (pb_buffer b) (pb_offset b) url)
       (listen w (L_plain url) (s\<lparr>vb_pending := jm_set url (b\<lparr>pb_worker := Some w\<rparr>) (vb_pending s)\<rparr>)))"

definition greet_adapter :: "string \<Rightarrow> nat \<Rightarrow> bridge \<Rightarrow> bridge" where
  "greet_adapter key w s = (case jm_get (vb_pendingAdapters s) key of
     None \<Rightarrow> s
   | Some b \<Rightarrow> post w (Vgi_init (Some key) (Some (tr_target (ab_region b))) (Some (tr_buffer (ab_region b))) (Some (tr_offset (ab_region b))) (ab_url b))
       (listen w (L_boot key) (s\<lparr>vb_pendingAdapters := jm_set key (b\<lparr>ab_worker := Some w\<rparr>) (vb_pendingAdapters s)\<rparr>)))"

definition fail_boot :: "boot_id \<Rightarrow> bridge \<Rightarrow> bridge" where
  "fail_boot b s = (case b of Plain url \<Rightarrow> fail_plain url s | Adapter key \<Rightarrow> fail_adapter key s)"

definition greet :: "boot_id \<Rightarrow> nat \<Rightarrow> bridge \<Rightarrow> bridge" where
  "greet b w s = (case b of Plain url \<Rightarrow> greet_plain url w s | Adapter key \<Rightarrow> greet_adapter key w s)"

text \<open>\<open>new Worker\<close> for the script at \<open>url\<close>, directly or from a blob of it.\<close>

definition construct_worker :: "bridge_platform \<Rightarrow> boot_id \<Rightarrow> string \<Rightarrow> bridge \<Rightarrow> bridge" where
  "construct_worker P b url s =
     (if bp_workerThrows P url then fail_boot b s else let (w, s) = new_worker b url s in greet b w s)"

text \<open>\<open>spawnWorker\<close>: a script of this origin is started at once; another is fetched first.\<close>

definition spawnWorker :: "bridge_platform \<Rightarrow> boot_id \<Rightarrow> string \<Rightarrow> bridge \<Rightarrow> bridge" where
  "spawnWorker P b url s = (if same_origin P url then construct_worker P b url s else s)"

definition boot_url :: "boot_id \<Rightarrow> bridge \<Rightarrow> string option" where
  "boot_url b s = (case b of
     Plain url \<Rightarrow> (case jm_get (vb_pending s) url of Some x \<Rightarrow> if pb_worker x = None then Some url else None | None \<Rightarrow> None)
   | Adapter key \<Rightarrow> (case jm_get (vb_pendingAdapters s) key of Some x \<Rightarrow>
       if ab_worker x = None \<and> ab_application x = None then Some (ab_url x) else None | None \<Rightarrow> None))"

text \<open>The answer to the fetch of a script: whether the response was \<open>ok\<close>.\<close>

definition script_fetched :: "bridge_platform \<Rightarrow> boot_id \<Rightarrow> bool \<Rightarrow> bridge \<Rightarrow> bridge" where
  "script_fetched P b ok s = (case boot_url b s of
     None \<Rightarrow> s | Some url \<Rightarrow> if ok then construct_worker P b url s else fail_boot b s)"

section \<open>Requests of the engine\<close>

record ensure_request =
  er_type :: string
  er_location :: string
  er_offset :: "int option"
  er_buffer :: "nat option"
  er_readySab :: "nat option"

definition starts_with_i :: "string \<Rightarrow> string \<Rightarrow> bool" where
  "starts_with_i w v \<longleftrightarrow> map lower (take (length w) v) = w"

definition iroh_request :: "string \<Rightarrow> bool" where
  "iroh_request location \<longleftrightarrow> starts_with_i ''iroh://'' location \<or> starts_with_i ''httpi://'' location"

text \<open>The target of an \<open>iroh:\<close> or \<open>httpi:\<close> location on the application's own worker, or \<open>None\<close> where it is rejected.\<close>

definition iroh_target :: "bridge_platform \<Rightarrow> bridge_options \<Rightarrow> string \<Rightarrow> (adapter_target \<times> nat) option" where
  "iroh_target P opt location = (case (canonicalBuiltInIrohTarget location, bo_irohAdapterWorker opt) of
     (Some canonical, Some w) \<Rightarrow>
       (case (case bo_resolveIrohTarget opt of Some f \<Rightarrow> f canonical | None \<Rightarrow> Inr (Some canonical)) of
         Inr (Some resolved) \<Rightarrow>
           (case canonicalBuiltInIrohTarget resolved of
             Some r \<Rightarrow> if scheme_of r = scheme_of canonical
               then Some (\<lparr>at_adapterUrl = bp_href P, at_adapterKey = ''__vgi_application_iroh_adapter_v1__'', at_canonicalTarget = r\<rparr>, w)
               else None
           | None \<Rightarrow> None)
       | _ \<Rightarrow> None)
   | _ \<Rightarrow> None)"

definition requested_target :: "bridge_platform \<Rightarrow> bridge_options \<Rightarrow> string \<Rightarrow> (adapter_target \<times> nat option) option res" where
  "requested_target P opt location =
     (if iroh_request location then Inr (map_option (map_prod id Some) (iroh_target P opt location))
      else case bo_resolveAdapterTarget opt of
        None \<Rightarrow> Inr None
      | Some f \<Rightarrow> map_sum id (map_option (\<lambda>t. (t, None))) (f location))"

definition adapter_url :: "bridge_platform \<Rightarrow> bridge_options \<Rightarrow> adapter_target \<Rightarrow> nat option \<Rightarrow> string option res" where
  "adapter_url P opt t application = (case application of
     Some _ \<Rightarrow> Inr (Some (at_adapterUrl t)) | None \<Rightarrow> resolveWorkerUrl P opt (at_adapterUrl t))"

definition boot_adapter :: "bridge_platform \<Rightarrow> string \<Rightarrow> nat option \<Rightarrow> adapter_request \<Rightarrow> bridge \<Rightarrow> bridge" where
  "boot_adapter P key application q s =
     (let touch = Suc (vb_touch s);
          region = \<lparr>tr_target = ar_target q, tr_offset = ar_offset q, tr_buffer = ar_buffer q, tr_lastUsed = touch\<rparr>;
          b = \<lparr>ab_url = ar_url q, ab_application = application, ab_region = region, ab_ready = ar_ready q, ab_joined = [], ab_worker = None\<rparr>;
          s = s\<lparr>vb_touch := touch, vb_pendingAdapters := jm_set key b (vb_pendingAdapters s)\<rparr>
      in case application of Some w \<Rightarrow> greet_adapter key w s | None \<Rightarrow> spawnWorker P (Adapter key) (ar_url q) s)"

definition adapter_arrives :: "bridge_platform \<Rightarrow> bridge_options \<Rightarrow> string \<Rightarrow> nat option \<Rightarrow> adapter_request \<Rightarrow> bridge \<Rightarrow> bridge" where
  "adapter_arrives P opt key application q s =
     (if jm_has (vb_adapters s) key then finish_request opt key q s
      else case jm_get (vb_pendingAdapters s) key of
        Some b \<Rightarrow> s\<lparr>vb_pendingAdapters := jm_set key (b\<lparr>ab_joined := ab_joined b @ [q]\<rparr>) (vb_pendingAdapters s)\<rparr>
      | None \<Rightarrow> boot_adapter P key application q s)"

definition ensure_adapter :: "bridge_platform \<Rightarrow> bridge_options \<Rightarrow> ensure_request \<Rightarrow> nat \<Rightarrow> bridge \<Rightarrow> bridge" where
  "ensure_adapter P opt d ready s = (case (er_buffer d, er_offset d) of
     (Some buffer, Some offset) \<Rightarrow>
       if \<not> isSafeInteger offset then signal (-1) ready s
       else (case requested_target P opt (er_location d) of
         Inl e \<Rightarrow> s\<lparr>vb_uncaught := vb_uncaught s @ [ready]\<rparr>
       | Inr None \<Rightarrow> signal (-1) ready s
       | Inr (Some (t, application)) \<Rightarrow>
           if \<not> validName (at_adapterKey t) \<or> \<not> validName (at_canonicalTarget t) then signal (-1) ready s
           else (case adapter_url P opt t application of
             Inl e \<Rightarrow> s\<lparr>vb_uncaught := vb_uncaught s @ [ready]\<rparr>
           | Inr url \<Rightarrow>
               if url = None \<or> url = Some [] then signal (-1) ready s
               else adapter_arrives P opt (at_adapterKey t) application
                 \<lparr>ar_url = the url, ar_target = at_canonicalTarget t, ar_offset = offset, ar_buffer = buffer, ar_ready = ready\<rparr> s))
   | _ \<Rightarrow> signal (-1) ready s)"

definition plain_arrives :: "bridge_platform \<Rightarrow> string \<Rightarrow> ensure_request \<Rightarrow> nat \<Rightarrow> bridge \<Rightarrow> bridge" where
  "plain_arrives P url d ready s =
     (if jm_has (vb_workers s) url then signal 1 ready s
      else case jm_get (vb_pending s) url of
        Some b \<Rightarrow> s\<lparr>vb_pending := jm_set url (b\<lparr>pb_ready := pb_ready b @ [ready]\<rparr>) (vb_pending s)\<rparr>
      | None \<Rightarrow> spawnWorker P (Plain url) url (s\<lparr>vb_pending := jm_set url
          \<lparr>pb_buffer = er_buffer d, pb_offset = er_offset d, pb_ready = [ready], pb_worker = None\<rparr> (vb_pending s)\<rparr>))"

definition on_ensure :: "bridge_platform \<Rightarrow> bridge_options \<Rightarrow> ensure_request \<Rightarrow> bridge \<Rightarrow> bridge" where
  "on_ensure P opt d s = (case er_readySab d of
     None \<Rightarrow> s
   | Some ready \<Rightarrow>
       if er_type d \<noteq> ''vgi-ensure-worker'' then s
       else if iroh_request (er_location d) \<or> bo_resolveAdapterTarget opt \<noteq> None then ensure_adapter P opt d ready s
       else (case resolveWorkerUrl P opt (er_location d) of
         Inl e \<Rightarrow> s\<lparr>vb_uncaught := vb_uncaught s @ [ready]\<rparr>
       | Inr url \<Rightarrow> if url = None \<or> url = Some [] then signal (-1) ready s else plain_arrives P (the url) d ready s))"

section \<open>Messages of the workers\<close>

datatype worker_says = Vgi_ready | Vgi_error | Vgi_target_ready nat | Vgi_target_error nat | Other_type

text \<open>The listener of a plain worker stays after the boot is settled.\<close>

definition hear_plain :: "string \<Rightarrow> nat \<Rightarrow> worker_says \<Rightarrow> bridge \<Rightarrow> bridge" where
  "hear_plain url w m s = (case m of
     Vgi_ready \<Rightarrow>
       let s = s\<lparr>vb_workers := jm_set url w (vb_workers s)\<rparr>
       in (case jm_get (vb_pending s) url of
         Some b \<Rightarrow> if pb_worker b = Some w then signal_all 1 (pb_ready b) (s\<lparr>vb_pending := jm_delete url (vb_pending s)\<rparr>) else s
       | None \<Rightarrow> s)
   | Vgi_error \<Rightarrow>
       let s = terminate w (unlisten w (L_plain url) s)
       in (case jm_get (vb_pending s) url of Some b \<Rightarrow> if pb_worker b = Some w then fail_plain url s else s | None \<Rightarrow> s)
   | _ \<Rightarrow> s\<lparr>vb_hooked := w # vb_hooked s\<rparr>)"

definition hear_boot :: "bridge_options \<Rightarrow> string \<Rightarrow> nat \<Rightarrow> worker_says \<Rightarrow> bridge \<Rightarrow> bridge" where
  "hear_boot opt key w m s = (case jm_get (vb_pendingAdapters s) key of
     None \<Rightarrow> s
   | Some b \<Rightarrow> (case m of
       Vgi_ready \<Rightarrow>
         let a = \<lparr>ae_key = key, ae_url = ab_url b, ae_worker = w, ae_regions = [(tr_target (ab_region b), ab_region b)], ae_queue = [], ae_registering = None\<rparr>;
             s = listen w L_hook (unlisten w (L_boot key) s);
             s = set_adapter a (s\<lparr>vb_pendingAdapters := jm_delete key (vb_pendingAdapters s)\<rparr>)
         in fold (finish_request opt key) (ab_joined b) (signal 1 (ab_ready b) s)
     | Vgi_error \<Rightarrow>
         let s = unlisten w (L_boot key) s
         in fail_adapter key (if ab_application b = None then terminate w s else s)
     | _ \<Rightarrow> s\<lparr>vb_hooked := w # vb_hooked s\<rparr>))"

definition hear :: "bridge_options \<Rightarrow> nat \<Rightarrow> worker_says \<Rightarrow> listener \<Rightarrow> bridge \<Rightarrow> bridge" where
  "hear opt w m l s =
     (if (w, l) \<notin> set (vb_listeners s) then s
      else case l of
        L_plain url \<Rightarrow> hear_plain url w m s
      | L_boot key \<Rightarrow> hear_boot opt key w m s
      | L_hook \<Rightarrow> (case m of Vgi_target_ready _ \<Rightarrow> s | Vgi_target_error _ \<Rightarrow> s | _ \<Rightarrow> s\<lparr>vb_hooked := w # vb_hooked s\<rparr>)
      | L_target key request \<Rightarrow> (case m of
          Vgi_target_ready r \<Rightarrow> if r = request then end_operation opt key request True s else s
        | Vgi_target_error r \<Rightarrow> if r = request then end_operation opt key request False s else s
        | _ \<Rightarrow> s))"

text \<open>A message is dispatched to the listeners that were there when it came, unless one of them has removed another.\<close>

definition on_worker_message :: "bridge_options \<Rightarrow> nat \<Rightarrow> worker_says \<Rightarrow> bridge \<Rightarrow> bridge" where
  "on_worker_message opt w m s = fold (hear opt w m) (map snd (filter (\<lambda>(v, l). v = w) (vb_listeners s))) s"

text \<open>The timer of \<open>registerTarget\<close>.\<close>

definition registration_timeout :: "bridge_options \<Rightarrow> string \<Rightarrow> nat \<Rightarrow> bridge \<Rightarrow> bridge" where
  "registration_timeout opt key request s = end_operation opt key request False s"

text \<open>Several handlers of a new worker as one: a handler that throws keeps the others from running.\<close>

fun composeWorkerBridges :: "(nat \<Rightarrow> ('s, unit) jsm) list \<Rightarrow> nat \<Rightarrow> ('s, unit) jsm" where
  "composeWorkerBridges [] w = js_ret ()"
| "composeWorkerBridges (h # hs) w = js_bind (h w) (\<lambda>_. composeWorkerBridges hs w)"

section \<open>Events\<close>

datatype bridge_event =
    B_ensure ensure_request
  | B_fetched boot_id bool
  | B_message nat worker_says
  | B_timeout string nat
  | B_memory nat "int list"

fun bridge_next :: "bridge_platform \<Rightarrow> bridge_options \<Rightarrow> bridge_event \<Rightarrow> bridge \<Rightarrow> bridge" where
  "bridge_next P opt (B_ensure d) s = on_ensure P opt d s"
| "bridge_next P opt (B_fetched b ok) s = script_fetched P b ok s"
| "bridge_next P opt (B_message w m) s = on_worker_message opt w m s"
| "bridge_next P opt (B_timeout key request) s = registration_timeout opt key request s"
| "bridge_next P opt (B_memory b lanes) s = s\<lparr>vb_memory := (vb_memory s)(b := lanes)\<rparr>"

definition bridge_step :: "bridge_platform \<Rightarrow> bridge_options \<Rightarrow> bridge \<Rightarrow> bridge_event \<Rightarrow> bridge \<Rightarrow> bool" where
  "bridge_step P opt s e t \<longleftrightarrow> t = bridge_next P opt e s"

end
