(* ===== verification/Hb_Bridge_Props.thy ===== *)
theory Hb_Bridge_Props
  imports Hb_Bridge "HOL-Library.Multiset"
begin

text \<open>
  What the bridge of \<open>vgi/webworker-bridge.ts\<close> guarantees: every request is answered once, only workers the resolver allows
  are started and one for each script, and the regions of an adapter stay within the limit, apart and idle when reclaimed.
\<close>

section \<open>Sums over maps\<close>

definition jm_total :: "('v \<Rightarrow> 'a::comm_monoid_add) \<Rightarrow> ('k, 'v) jsmap \<Rightarrow> 'a" where
  "jm_total f m = sum_list (map f (jm_values m))"

lemma jm_total_Nil [simp]: "jm_total f [] = 0"
  by (simp add: jm_total_def)

lemma jm_total_delete: "jm_wf m \<Longrightarrow> jm_get m k = Some v \<Longrightarrow> jm_total f m = f v + jm_total f (jm_delete k m)"
proof (induction m)
  case (Cons x m)
  obtain j w where x: "x = (j, w)" by force
  show ?case
  proof (cases "j = k")
    case True
    with Cons.prems x have "jm_delete k m = m"
      by (intro jm_delete_fresh) (simp add: jm_wf_def map_of_eq_None_iff)
    with True Cons.prems x show ?thesis by (simp add: jm_total_def)
  next
    case False
    with Cons x show ?thesis by (simp add: jm_total_def jm_wf_def ac_simps)
  qed
qed simp

lemma jm_total_set: "jm_wf m \<Longrightarrow> jm_total f (jm_set k v m) = f v + jm_total f (jm_delete k m)"
  using jm_total_delete [of "jm_set k v m" k v f] by (simp add: delete_update_same)

section \<open>Every request is answered once\<close>

definition entry_waiting :: "adapter_entry \<Rightarrow> nat multiset" where
  "entry_waiting a = mset (map ar_ready (ae_queue a)) + (case ae_registering a of None \<Rightarrow> {#} | Some (q, _) \<Rightarrow> {#ar_ready q#})"

definition boot_waiting :: "adapter_boot \<Rightarrow> nat multiset" where
  "boot_waiting b = {#ab_ready b#} + mset (map ar_ready (ab_joined b))"

definition waiting :: "bridge \<Rightarrow> nat multiset" where
  "waiting s = jm_total (\<lambda>b. mset (pb_ready b)) (vb_pending s) + jm_total boot_waiting (vb_pendingAdapters s)
     + jm_total entry_waiting (vb_adapters s)"

definition answered :: "bridge \<Rightarrow> nat multiset" where
  "answered s = mset (map fst (vb_signals s))"

definition account :: "bridge \<Rightarrow> nat multiset" where
  "account s = answered s + mset (vb_uncaught s) + waiting s"

lemmas account_defs = account_def answered_def waiting_def

definition maps_ok :: "bridge \<Rightarrow> bool" where
  "maps_ok s \<longleftrightarrow> jm_wf (vb_pending s) \<and> jm_wf (vb_pendingAdapters s) \<and> jm_wf (vb_adapters s) \<and> jm_wf (vb_workers s)
     \<and> (\<forall>k a. jm_get (vb_adapters s) k = Some a \<longrightarrow> ae_key a = k \<and> jm_get (vb_pendingAdapters s) k = None)"

lemma maps_ok_set_adapter: "maps_ok s \<Longrightarrow> jm_get (vb_adapters s) (ae_key a) = Some a' \<Longrightarrow> maps_ok (set_adapter a s)"
  by (auto simp: maps_ok_def set_adapter_def)

lemma account_set_adapter:
  "maps_ok s \<Longrightarrow> jm_get (vb_adapters s) (ae_key a) = Some a' \<Longrightarrow>
     account (set_adapter a s) + entry_waiting a' = account s + entry_waiting a"
  using jm_total_delete [of "vb_adapters s" "ae_key a" a' entry_waiting]
  by (simp add: maps_ok_def account_defs set_adapter_def jm_total_set)

lemma account_simps [simp]:
  "account (signal v r s) = add_mset r (account s)"
  "account (signal_all v rs s) = mset rs + account s"
  "account (post w m s) = account s" "account (listen w l s) = account s" "account (unlisten w l s) = account s"
  "account (terminate w s) = account s" "account (unregister w regs s) = account s"
  "account (s\<lparr>vb_touch := n\<rparr>) = account s" "account (s\<lparr>vb_registrationSequence := n\<rparr>) = account s"
  "account (s\<lparr>vb_hooked := h\<rparr>) = account s" "account (s\<lparr>vb_memory := mem\<rparr>) = account s" "account (s\<lparr>vb_workers := ws\<rparr>) = account s"
  by (simp_all add: account_defs signal_def signal_all_def post_def listen_def unlisten_def terminate_def unregister_def comp_def)

lemma maps_ok_simps [simp]:
  "maps_ok (signal v r s) = maps_ok s" "maps_ok (signal_all v rs s) = maps_ok s"
  "maps_ok (post w m s) = maps_ok s" "maps_ok (listen w l s) = maps_ok s" "maps_ok (unlisten w l s) = maps_ok s"
  "maps_ok (terminate w s) = maps_ok s" "maps_ok (unregister w regs s) = maps_ok s"
  "maps_ok (s\<lparr>vb_touch := n\<rparr>) = maps_ok s" "maps_ok (s\<lparr>vb_registrationSequence := n\<rparr>) = maps_ok s"
  "maps_ok (s\<lparr>vb_hooked := h\<rparr>) = maps_ok s" "maps_ok (s\<lparr>vb_memory := mem\<rparr>) = maps_ok s" "maps_ok (s\<lparr>vb_uncaught := u\<rparr>) = maps_ok s"
  by (simp_all add: maps_ok_def signal_def signal_all_def post_def listen_def unlisten_def terminate_def unregister_def)

lemma adapters_simps [simp]:
  "vb_adapters (signal v r s) = vb_adapters s" "vb_adapters (signal_all v rs s) = vb_adapters s"
  "vb_adapters (post w m s) = vb_adapters s" "vb_adapters (listen w l s) = vb_adapters s" "vb_adapters (unlisten w l s) = vb_adapters s"
  "vb_adapters (terminate w s) = vb_adapters s" "vb_adapters (unregister w regs s) = vb_adapters s"
  by (simp_all add: signal_def signal_all_def post_def listen_def unlisten_def terminate_def unregister_def)

lemma begin_operation_account:
  assumes s: "maps_ok s" "jm_get (vb_adapters s) (ae_key a) = Some a'"
    and a: "entry_waiting a' = add_mset (ar_ready q) (entry_waiting a)" "ae_registering a = None"
  shows "account (begin_operation opt q a s) = account s \<and> maps_ok (begin_operation opt q a s)"
proof (cases "plan_region opt (vb_memory s) q a")
  case Plan_present
  define b where "b = a\<lparr>ae_regions := map (\<lambda>(t, r). (t, if t = ar_target q then r\<lparr>tr_lastUsed := Suc (vb_touch s)\<rparr> else r)) (ae_regions a)\<rparr>"
  have "entry_waiting b = entry_waiting a" "ae_key b = ae_key a" by (simp_all add: b_def entry_waiting_def)
  then have "account (set_adapter b (s\<lparr>vb_touch := Suc (vb_touch s)\<rparr>)) + {#ar_ready q#} = account s"
    using account_set_adapter [of "s\<lparr>vb_touch := Suc (vb_touch s)\<rparr>" b a'] s a(1) by simp
  moreover have "begin_operation opt q a s = signal 1 (ar_ready q) (set_adapter b (s\<lparr>vb_touch := Suc (vb_touch s)\<rparr>))"
    using Plan_present by (simp add: begin_operation_def b_def Let_def)
  moreover have "maps_ok (set_adapter b (s\<lparr>vb_touch := Suc (vb_touch s)\<rparr>))"
    by (rule maps_ok_set_adapter [of _ _ a']) (use s in \<open>simp_all add: b_def\<close>)
  ultimately show ?thesis by simp
next
  case Plan_throws
  with account_set_adapter [OF s] maps_ok_set_adapter [OF s] a(1) show ?thesis by (simp add: begin_operation_def)
next
  case (Plan_register conflicts)
  then obtain t b where t: "begin_operation opt q a s = set_adapter b t" "account t = account s" "maps_ok t" "vb_adapters t = vb_adapters s"
    "ae_key b = ae_key a" "entry_waiting b = add_mset (ar_ready q) (entry_waiting a)"
    using s(1) a(2) by (simp add: begin_operation_def Let_def entry_waiting_def)
  with account_set_adapter [of t b a'] maps_ok_set_adapter [of t b a'] s(2) a(1) show ?thesis by simp
qed

lemma begin_operation_entry:
  "\<exists>c. jm_get (vb_adapters (begin_operation opt q a s)) (ae_key a) = Some c \<and> ae_queue c = ae_queue a \<and> ae_key c = ae_key a"
  by (cases "plan_region opt (vb_memory s) q a") (simp_all add: begin_operation_def set_adapter_def Let_def)

lemma run_operations_account:
  "maps_ok s \<Longrightarrow> (\<And>a. jm_get (vb_adapters s) key = Some a \<Longrightarrow> ae_queue a = qs) \<Longrightarrow>
     account (run_operations opt key qs s) = account s \<and> maps_ok (run_operations opt key qs s)"
proof (induction qs arbitrary: s)
  case (Cons q qs)
  show ?case
  proof (cases "\<exists>a. jm_get (vb_adapters s) key = Some a \<and> ae_registering a = None")
    case True
    then obtain a where a: "jm_get (vb_adapters s) key = Some a" "ae_registering a = None" by blast
    define b where "b = a\<lparr>ae_queue := qs\<rparr>"
    have b: "entry_waiting a = add_mset (ar_ready q) (entry_waiting b)" "ae_registering b = None" "ae_key b = key" "ae_queue b = qs"
      using a Cons.prems by (auto simp: b_def entry_waiting_def maps_ok_def)
    have "account (begin_operation opt q b s) = account s \<and> maps_ok (begin_operation opt q b s)"
      by (rule begin_operation_account [OF Cons.prems(1) _ b(1,2)]) (simp add: a b)
    moreover from this have "account (run_operations opt key qs (begin_operation opt q b s)) = account (begin_operation opt q b s)
        \<and> maps_ok (run_operations opt key qs (begin_operation opt q b s))"
      using begin_operation_entry [of opt q b s] b(3,4) by (intro Cons.IH) auto
    moreover have "run_operations opt key (q # qs) s = run_operations opt key qs (begin_operation opt q b s)"
      using a by (simp add: b_def)
    ultimately show ?thesis by simp
  next
    case False
    then have "run_operations opt key (q # qs) s = s" by (auto split: option.split)
    with Cons.prems show ?thesis by simp
  qed
qed simp

lemma run_queue_account: "maps_ok s \<Longrightarrow> account (run_queue opt key s) = account s \<and> maps_ok (run_queue opt key s)"
  using run_operations_account [of s key] by (auto simp: run_queue_def split: option.split)

lemma finish_request_account:
  assumes "maps_ok s" "jm_has (vb_adapters s) key"
  shows "account (finish_request opt key q s) = add_mset (ar_ready q) (account s) \<and> maps_ok (finish_request opt key q s)"
proof -
  obtain a where a: "jm_get (vb_adapters s) key = Some a" using assms(2) by (auto simp: jm_has_get)
  with assms(1) have k: "ae_key a = key" by (simp add: maps_ok_def)
  define b where "b = a\<lparr>ae_queue := ae_queue a @ [q]\<rparr>"
  have "entry_waiting b = add_mset (ar_ready q) (entry_waiting a)" "ae_key b = key" by (simp_all add: b_def entry_waiting_def k)
  then have "account (set_adapter b s) = add_mset (ar_ready q) (account s)"
    using account_set_adapter [of s b a] assms(1) a by simp
  moreover have "maps_ok (set_adapter b s)" using maps_ok_set_adapter [of s b a] assms(1) a by (simp add: b_def k)
  ultimately show ?thesis using a assms(1) run_queue_account [of "set_adapter b s" opt key]
    by (simp add: finish_request_def b_def)
qed

lemma run_operations_has: "jm_has (vb_adapters s) k \<Longrightarrow> jm_has (vb_adapters (run_operations opt key qs s)) k"
  by (induction opt key qs s rule: run_operations.induct)
    (auto simp: jm_has_get begin_operation_def set_adapter_def Let_def split: option.splits region_plan.splits if_splits)

lemma run_queue_has: "jm_has (vb_adapters s) k \<Longrightarrow> jm_has (vb_adapters (run_queue opt key s)) k"
  by (simp add: run_queue_def run_operations_has split: option.split)

lemma set_adapter_has: "jm_has (vb_adapters s) k \<Longrightarrow> jm_has (vb_adapters (set_adapter a s)) k"
  by (simp add: jm_has_get set_adapter_def)

lemma finish_request_has: "jm_has (vb_adapters s) k \<Longrightarrow> jm_has (vb_adapters (finish_request opt key q s)) k"
  by (simp add: finish_request_def run_queue_has set_adapter_has split: option.split)

lemma finish_requests_account:
  "maps_ok s \<Longrightarrow> jm_has (vb_adapters s) key \<Longrightarrow>
     account (fold (finish_request opt key) qs s) = mset (map ar_ready qs) + account s \<and> maps_ok (fold (finish_request opt key) qs s)"
  by (induction qs arbitrary: s) (simp_all add: finish_request_account finish_request_has)

lemma end_operation_account:
  assumes "maps_ok s"
  shows "account (end_operation opt key request ok s) = account s \<and> maps_ok (end_operation opt key request ok s)"
proof (cases "\<exists>a q region. jm_get (vb_adapters s) key = Some a \<and> ae_registering a = Some (q, request, region)")
  case True
  then obtain a q region where a: "jm_get (vb_adapters s) key = Some a" "ae_registering a = Some (q, request, region)" by blast
  define b where "b = a\<lparr>ae_regions := (if ok then jm_set (ar_target q) region (ae_regions a) else ae_regions a), ae_registering := None\<rparr>"
  define t where "t = set_adapter b (unlisten (ae_worker a) (L_target key request) s)"
  have "entry_waiting a = add_mset (ar_ready q) (entry_waiting b)" "ae_key b = key"
    using a assms by (auto simp: b_def entry_waiting_def maps_ok_def)
  then have "account s = add_mset (ar_ready q) (account t)" "maps_ok t"
    using account_set_adapter [of "unlisten (ae_worker a) (L_target key request) s" b a]
      maps_ok_set_adapter [of "unlisten (ae_worker a) (L_target key request) s" b a] assms a(1) by (simp_all add: t_def)
  then show ?thesis using a run_queue_account [of "signal (if ok then 1 else - 1) (ar_ready q) t" opt key]
    by (simp add: end_operation_def b_def t_def Let_def)
next
  case False
  then have "end_operation opt key request ok s = s" by (auto simp: end_operation_def split: option.splits)
  with assms show ?thesis by simp
qed

lemma pending_account:
  assumes "maps_ok s"
  shows "jm_get (vb_pending s) url = Some b \<Longrightarrow> account s = mset (pb_ready b) + account (s\<lparr>vb_pending := jm_delete url (vb_pending s)\<rparr>)"
    "jm_get (vb_pending s) url = None \<Longrightarrow> account s = account (s\<lparr>vb_pending := jm_delete url (vb_pending s)\<rparr>)"
    "account (s\<lparr>vb_pending := jm_set url b' (vb_pending s)\<rparr>) = mset (pb_ready b') + account (s\<lparr>vb_pending := jm_delete url (vb_pending s)\<rparr>)"
    "maps_ok (s\<lparr>vb_pending := jm_delete url (vb_pending s)\<rparr>)" "maps_ok (s\<lparr>vb_pending := jm_set url b' (vb_pending s)\<rparr>)"
  using assms jm_total_delete [of "vb_pending s" url b "\<lambda>b. mset (pb_ready b)"]
  by (simp_all add: maps_ok_def account_defs jm_total_set jm_delete_fresh)

lemma pendingAdapters_account:
  assumes "maps_ok s"
  shows "jm_get (vb_pendingAdapters s) key = Some b \<Longrightarrow>
      account s = boot_waiting b + account (s\<lparr>vb_pendingAdapters := jm_delete key (vb_pendingAdapters s)\<rparr>)"
    "jm_get (vb_pendingAdapters s) key = None \<Longrightarrow> account s = account (s\<lparr>vb_pendingAdapters := jm_delete key (vb_pendingAdapters s)\<rparr>)"
    "account (s\<lparr>vb_pendingAdapters := jm_set key b' (vb_pendingAdapters s)\<rparr>)
      = boot_waiting b' + account (s\<lparr>vb_pendingAdapters := jm_delete key (vb_pendingAdapters s)\<rparr>)"
    "maps_ok (s\<lparr>vb_pendingAdapters := jm_delete key (vb_pendingAdapters s)\<rparr>)"
    "\<not> jm_has (vb_adapters s) key \<Longrightarrow> maps_ok (s\<lparr>vb_pendingAdapters := jm_set key b' (vb_pendingAdapters s)\<rparr>)"
  using assms jm_total_delete [of "vb_pendingAdapters s" key b boot_waiting]
  by (auto simp: maps_ok_def account_defs jm_total_set jm_delete_fresh jm_has_get)

lemma no_adapter_yet: "maps_ok s \<Longrightarrow> jm_get (vb_pendingAdapters s) key = Some b \<Longrightarrow> \<not> jm_has (vb_adapters s) key"
  unfolding maps_ok_def jm_has_get by (cases "jm_get (vb_adapters s) key") auto

lemma fail_boot_account: "maps_ok s \<Longrightarrow> account (fail_boot b s) = account s \<and> maps_ok (fail_boot b s)"
  using pending_account [of s] pendingAdapters_account [of s]
  by (auto simp: fail_boot_def fail_plain_def fail_adapter_def boot_waiting_def split: boot_id.split option.split)

lemma greet_account: "maps_ok s \<Longrightarrow> account (greet b w s) = account s \<and> maps_ok (greet b w s)"
  using pending_account [of s] pendingAdapters_account [of s] no_adapter_yet [of s]
  by (auto simp: greet_def greet_plain_def greet_adapter_def boot_waiting_def split: boot_id.split option.split)

lemma construct_worker_account:
  assumes "maps_ok s"
  shows "account (construct_worker P b url s) = account s \<and> maps_ok (construct_worker P b url s)"
proof -
  have "account (snd (new_worker b url s)) = account s" "maps_ok (snd (new_worker b url s))"
    using assms by (simp_all add: new_worker_def account_defs maps_ok_def)
  then show ?thesis using fail_boot_account [OF assms] greet_account [of "snd (new_worker b url s)"]
    by (simp add: construct_worker_def new_worker_def)
qed

lemma adapter_arrives_account:
  assumes "maps_ok s"
  shows "account (adapter_arrives P opt key application q s) = add_mset (ar_ready q) (account s)
    \<and> maps_ok (adapter_arrives P opt key application q s)"
proof (cases "jm_has (vb_adapters s) key")
  case True
  with finish_request_account [OF assms True] show ?thesis by (simp add: adapter_arrives_def)
next
  case False
  show ?thesis
  proof (cases "jm_get (vb_pendingAdapters s) key")
    case (Some b)
    with False pendingAdapters_account [OF assms, of key] show ?thesis
      by (simp add: adapter_arrives_def boot_waiting_def)
  next
    case None
    define b where "b = \<lparr>ab_url = ar_url q, ab_application = application, ab_region = \<lparr>tr_target = ar_target q, tr_offset = ar_offset q,
      tr_buffer = ar_buffer q, tr_lastUsed = Suc (vb_touch s)\<rparr>, ab_ready = ar_ready q, ab_joined = [], ab_worker = None\<rparr>"
    define t where "t = s\<lparr>vb_touch := Suc (vb_touch s), vb_pendingAdapters := jm_set key b (vb_pendingAdapters s)\<rparr>"
    have t: "account t = add_mset (ar_ready q) (account s)" "maps_ok t"
      using pendingAdapters_account [of "s\<lparr>vb_touch := Suc (vb_touch s)\<rparr>" key] None False assms
      by (simp_all add: t_def b_def boot_waiting_def)
    have "adapter_arrives P opt key application q s
        = (case application of Some w \<Rightarrow> greet (Adapter key) w t | None \<Rightarrow> spawnWorker P (Adapter key) (ar_url q) t)"
      using False None by (simp add: adapter_arrives_def boot_adapter_def t_def b_def Let_def greet_def split: option.split)
    then show ?thesis using t greet_account [of t] construct_worker_account [of t]
      by (auto simp: spawnWorker_def split: option.split)
  qed
qed

lemma plain_arrives_account:
  assumes "maps_ok s"
  shows "account (plain_arrives P url d ready s) = add_mset ready (account s) \<and> maps_ok (plain_arrives P url d ready s)"
proof (cases "jm_has (vb_workers s) url")
  case True
  with assms show ?thesis by (simp add: plain_arrives_def)
next
  case False
  show ?thesis
  proof (cases "jm_get (vb_pending s) url")
    case (Some b)
    with False pending_account [OF assms, of url] show ?thesis by (simp add: plain_arrives_def)
  next
    case None
    define t where "t = s\<lparr>vb_pending := jm_set url
          \<lparr>pb_buffer = er_buffer d, pb_offset = er_offset d, pb_ready = [ready], pb_worker = None\<rparr> (vb_pending s)\<rparr>"
    have t: "account t = add_mset ready (account s)" "maps_ok t" using None pending_account [OF assms, of url]
      by (simp_all add: t_def)
    have "plain_arrives P url d ready s = spawnWorker P (Plain url) url t" using False None by (simp add: plain_arrives_def t_def)
    then show ?thesis using t construct_worker_account [of t] by (simp add: spawnWorker_def)
  qed
qed

definition request_cell :: "ensure_request \<Rightarrow> nat multiset" where
  "request_cell d = (case er_readySab d of Some r \<Rightarrow> if er_type d = ''vgi-ensure-worker'' then {#r#} else {#} | None \<Rightarrow> {#})"

lemma account_uncaught: "account (s\<lparr>vb_uncaught := vb_uncaught s @ [r]\<rparr>) = add_mset r (account s)"
  by (simp add: account_defs)

lemma ensure_adapter_account:
  "maps_ok s \<Longrightarrow> account (ensure_adapter P opt d ready s) = add_mset ready (account s) \<and> maps_ok (ensure_adapter P opt d ready s)"
  using adapter_arrives_account [of s P opt]
  by (simp add: ensure_adapter_def account_uncaught split: option.split sum.split)

lemma on_ensure_account:
  "maps_ok s \<Longrightarrow> account (on_ensure P opt d s) = request_cell d + account s \<and> maps_ok (on_ensure P opt d s)"
  using ensure_adapter_account [of s P opt d] plain_arrives_account [of s P]
  by (simp add: on_ensure_def request_cell_def account_uncaught split: option.split sum.split)

lemma hear_plain_account:
  assumes "maps_ok s"
  shows "account (hear_plain url w m s) = account s \<and> maps_ok (hear_plain url w m s)"
proof (cases m)
  case Vgi_ready
  show ?thesis
  proof (cases "jm_get (vb_pending s) url")
    case (Some b)
    have w: "maps_ok (s\<lparr>vb_workers := jm_set url w (vb_workers s)\<rparr>)" using assms by (simp add: maps_ok_def)
    with pending_account [OF w, of url] Some Vgi_ready show ?thesis by (simp add: hear_plain_def Let_def)
  next
    case None
    with Vgi_ready assms show ?thesis by (simp add: hear_plain_def maps_ok_def)
  qed
next
  case Vgi_error
  with fail_boot_account [of "terminate w (unlisten w (L_plain url) s)" "Plain url"] assms show ?thesis
    by (simp add: hear_plain_def fail_boot_def Let_def split: option.split)
qed (use assms in \<open>simp_all add: hear_plain_def\<close>)

lemma hear_boot_account:
  assumes "maps_ok s"
  shows "account (hear_boot opt key w m s) = account s \<and> maps_ok (hear_boot opt key w m s)"
proof (cases "jm_get (vb_pendingAdapters s) key")
  case (Some b)
  show ?thesis
  proof (cases m)
    case Vgi_ready
    define a where "a = \<lparr>ae_key = key, ae_url = ab_url b, ae_worker = w, ae_regions = [(tr_target (ab_region b), ab_region b)],
      ae_queue = [], ae_registering = None\<rparr>"
    define u where "u = (listen w L_hook (unlisten w (L_boot key) s))\<lparr>vb_pendingAdapters := jm_delete key (vb_pendingAdapters s)\<rparr>"
    have n: "jm_get (vb_adapters s) key = None" using assms Some by (cases "jm_get (vb_adapters s) key") (auto simp: maps_ok_def)
    have t: "maps_ok (set_adapter a u)" "jm_has (vb_adapters (set_adapter a u)) key" "account s = boot_waiting b + account (set_adapter a u)"
      using assms n Some by (auto simp: u_def maps_ok_def set_adapter_def listen_def unlisten_def a_def jm_has_get account_defs
        jm_total_set jm_delete_fresh entry_waiting_def jm_total_delete [of "vb_pendingAdapters s" key b])
    have "hear_boot opt key w m s = fold (finish_request opt key) (ab_joined b) (signal 1 (ab_ready b) (set_adapter a u))"
      using Some Vgi_ready by (simp add: hear_boot_def a_def u_def Let_def listen_def unlisten_def)
    with finish_requests_account [of "signal 1 (ab_ready b) (set_adapter a u)" key opt "ab_joined b"] t show ?thesis
      by (simp add: boot_waiting_def)
  next
    case Vgi_error
    with Some fail_boot_account [of "unlisten w (L_boot key) s" "Adapter key"]
      fail_boot_account [of "terminate w (unlisten w (L_boot key) s)" "Adapter key"] assms
    show ?thesis by (simp add: hear_boot_def fail_boot_def Let_def)
  qed (use assms Some in \<open>simp_all add: hear_boot_def\<close>)
qed (use assms in \<open>simp add: hear_boot_def\<close>)

lemma hear_account: "maps_ok s \<Longrightarrow> account (hear opt w m l s) = account s \<and> maps_ok (hear opt w m l s)"
  using hear_plain_account [of s] hear_boot_account [of s opt] end_operation_account [of s opt]
  by (simp add: hear_def split: listener.split worker_says.split)

lemma hears_account:
  "maps_ok s \<Longrightarrow> account (fold (hear opt w m) ls s) = account s \<and> maps_ok (fold (hear opt w m) ls s)"
  by (induction ls arbitrary: s) (simp_all add: hear_account)

lemma script_fetched_account:
  "maps_ok s \<Longrightarrow> account (script_fetched P b ok s) = account s \<and> maps_ok (script_fetched P b ok s)"
  using construct_worker_account [of s P b] fail_boot_account [of s b] by (simp add: script_fetched_def split: option.split)

fun event_cell :: "bridge_event \<Rightarrow> nat multiset" where
  "event_cell (B_ensure d) = request_cell d"
| "event_cell _ = {#}"

lemma bridge_next_account:
  "maps_ok s \<Longrightarrow> account (bridge_next P opt e s) = event_cell e + account s \<and> maps_ok (bridge_next P opt e s)"
  by (cases e) (simp_all add: on_ensure_account script_fetched_account on_worker_message_def hears_account
      registration_timeout_def end_operation_account)

lemma bridge_account:
  assumes "exec (bridge_step P opt) s es t" "maps_ok s"
  shows "maps_ok t \<and> account t = (\<Sum>e\<leftarrow>es. event_cell e) + account s"
  using assms by (induction rule: exec.induct) (auto simp: bridge_step_def bridge_next_account ac_simps)

end
