(* ===== verification/Hb_Bridge_Regions.thy ===== *)
theory Hb_Bridge_Regions
  imports Hb_Bridge_Props
begin

text \<open>
  The regions of an adapter in \<open>vgi/webworker-bridge.ts\<close>: they stay within \<open>maxTargetsPerAdapter\<close>, no two share memory, and one
  that is reclaimed was idle.
\<close>

section \<open>An entry and its regions\<close>

definition same_place :: "target_region \<Rightarrow> target_region \<Rightarrow> bool" where
  "same_place r r' \<longleftrightarrow> tr_offset r = tr_offset r' \<and> tr_buffer r = tr_buffer r'"

definition regions_ok :: "int \<Rightarrow> (string, target_region) jsmap \<Rightarrow> bool" where
  "regions_ok n m \<longleftrightarrow> jm_wf m \<and> (\<forall>t r. jm_get m t = Some r \<longrightarrow> tr_target r = t)
     \<and> (\<forall>t t' r r'. jm_get m t = Some r \<longrightarrow> jm_get m t' = Some r' \<longrightarrow> same_place r r' \<longrightarrow> t = t') \<and> int (jm_size m) \<le> n"

definition room_for :: "int \<Rightarrow> target_region \<Rightarrow> (string, target_region) jsmap \<Rightarrow> bool" where
  "room_for n r m \<longleftrightarrow> jm_get m (tr_target r) = None \<and> (\<forall>t r'. jm_get m t = Some r' \<longrightarrow> \<not> same_place r r') \<and> int (jm_size m) + 1 \<le> n"

definition entry_ok :: "bridge_options \<Rightarrow> adapter_entry \<Rightarrow> bool" where
  "entry_ok opt a \<longleftrightarrow> regions_ok (maxTargetsPerAdapter opt) (ae_regions a)
     \<and> (\<forall>q n r. ae_registering a = Some (q, n, r) \<longrightarrow> tr_target r = ar_target q \<and> room_for (maxTargetsPerAdapter opt) r (ae_regions a))"

lemma same_place_sym: "same_place r r' \<longleftrightarrow> same_place r' r"
  by (auto simp: same_place_def)

lemma regions_ok_set: "regions_ok n m \<Longrightarrow> room_for n r m \<Longrightarrow> regions_ok n (jm_set (tr_target r) r m)"
  unfolding regions_ok_def room_for_def using same_place_sym by (auto simp: jm_size_set)

lemma regions_ok_delete: "regions_ok n m \<Longrightarrow> regions_ok n (jm_delete t m)"
  by (auto simp: regions_ok_def jm_size_delete split: if_splits)

definition delete_all :: "target_region list \<Rightarrow> (string, target_region) jsmap \<Rightarrow> (string, target_region) jsmap" where
  "delete_all rs m = fold (\<lambda>r m. jm_delete (tr_target r) m) rs m"

lemma delete_all_get: "jm_get (delete_all rs m) t = (if t \<in> tr_target ` set rs then None else jm_get m t)"
  by (induction rs arbitrary: m) (auto simp: delete_all_def)

lemma delete_all_ok: "regions_ok n m \<Longrightarrow> regions_ok n (delete_all rs m)"
  by (induction rs arbitrary: m) (simp_all add: delete_all_def regions_ok_delete)

lemma delete_all_size: "regions_ok n m \<Longrightarrow> jm_size (delete_all rs m) \<le> jm_size m"
proof (induction rs arbitrary: m)
  case (Cons r rs)
  have "jm_size (delete_all rs (jm_delete (tr_target r) m)) \<le> jm_size (jm_delete (tr_target r) m)"
    by (rule Cons.IH) (rule regions_ok_delete [OF Cons.prems])
  moreover have "jm_size (jm_delete (tr_target r) m) \<le> jm_size m"
    using Cons.prems by (simp add: regions_ok_def jm_size_delete)
  ultimately show ?case by (simp add: delete_all_def)
qed (simp add: delete_all_def)

lemma delete_all_smaller:
  assumes ok: "regions_ok n m" and r: "r \<in> set rs" "jm_get m (tr_target r) \<noteq> None"
  shows "jm_size (delete_all rs m) < jm_size m"
proof -
  have wf: "distinct (jm_keys m)" "distinct (jm_keys (delete_all rs m))"
    using ok delete_all_ok [OF ok] by (simp_all add: regions_ok_def jm_wf_def)
  have "set (jm_keys (delete_all rs m)) \<subset> set (jm_keys m)"
  proof
    show "set (jm_keys (delete_all rs m)) \<subseteq> set (jm_keys m)"
    proof
      fix k
      assume "k \<in> set (jm_keys (delete_all rs m))"
      then have "jm_get (delete_all rs m) k \<noteq> None" by (simp only: jm.keys_iff not_False_eq_True)
      then show "k \<in> set (jm_keys m)" using jm.keys_iff [of k m] by (simp add: delete_all_get split: if_splits)
    qed
    have "tr_target r \<in> set (jm_keys m)" "tr_target r \<notin> set (jm_keys (delete_all rs m))"
      using r jm.keys_iff [of "tr_target r" m] jm.keys_iff [of "tr_target r" "delete_all rs m"] by (auto simp: delete_all_get)
    then show "set (jm_keys (delete_all rs m)) \<noteq> set (jm_keys m)" by blast
  qed
  then have "card (set (jm_keys (delete_all rs m))) < card (set (jm_keys m))" by (intro psubset_card_mono) auto
  then show ?thesis using distinct_card [OF wf(1)] distinct_card [OF wf(2)] by (metis length_map)
qed

section \<open>The plan of an operation\<close>

lemma least_used_in: "least_used rs = Some r \<Longrightarrow> r \<in> set rs"
  by (metis least_used_def list.case_eq_if list.set_sel(1) option.distinct(1) option.inject set_sort)

definition region_of :: "adapter_request \<Rightarrow> nat \<Rightarrow> target_region" where
  "region_of q n = \<lparr>tr_target = ar_target q, tr_offset = ar_offset q, tr_buffer = ar_buffer q, tr_lastUsed = n\<rparr>"

lemma same_memory_place: "same_memory q r \<longleftrightarrow> same_place (region_of q n) r"
  by (auto simp: same_memory_def same_place_def region_of_def)

lemma get_values: "jm_get m t = Some r \<Longrightarrow> r \<in> set (jm_values m)"
  by (metis image_eqI list.set_map map_of_SomeD snd_conv)

lemma values_get: "regions_ok n m \<Longrightarrow> r \<in> set (jm_values m) \<Longrightarrow> jm_get m (tr_target r) = Some r"
  by (auto simp: regions_ok_def jm_wf_def)

lemma plan_register:
  assumes plan: "plan_region opt mem q a = Plan_register cs" and ok: "regions_ok (maxTargetsPerAdapter opt) (ae_regions a)"
  shows "list_all (regionIsIdle mem) cs \<and> set cs \<subseteq> set (jm_values (ae_regions a))
    \<and> room_for (maxTargetsPerAdapter opt) (region_of q n) (delete_all cs (ae_regions a))"
proof -
  define m where "m = ae_regions a"
  define current where "current = jm_get m (ar_target q)"
  define others where "others = filter (\<lambda>r. current \<noteq> Some r \<and> same_memory q r) (jm_values m)"
  define conflicts where "conflicts = (case current of Some r \<Rightarrow> [r] | None \<Rightarrow> []) @ others"
  let ?max = "maxTargetsPerAdapter opt"
  have ok: "regions_ok ?max m" using ok by (simp add: m_def)
  have size: "int (jm_size m) \<le> ?max" using ok by (simp add: regions_ok_def)
  have hit: "r \<in> set conflicts" if "jm_get m t = Some r" "same_place (region_of q n) r" for t r
    using that get_values [OF that(1)] by (auto simp: conflicts_def others_def same_memory_place [of q _ n] split: option.split)
  have mine: "current = Some r \<Longrightarrow> tr_target r = ar_target q" for r using ok by (auto simp: current_def regions_ok_def)
  have room: "room_for ?max (region_of q n) (delete_all cs m)"
    if "set conflicts \<subseteq> set cs" "int (jm_size (delete_all cs m)) + 1 \<le> ?max"
    unfolding room_for_def
  proof (intro conjI allI impI)
    show "jm_get (delete_all cs m) (tr_target (region_of q n)) = None"
      using that(1) mine by (cases current) (force simp: delete_all_get region_of_def current_def [symmetric] conflicts_def)+
  next
    fix t r'
    assume "jm_get (delete_all cs m) t = Some r'"
    then have t: "jm_get m t = Some r'" "t \<notin> tr_target ` set cs" by (simp_all add: delete_all_get split: if_splits)
    with ok have "tr_target r' = t" by (simp add: regions_ok_def)
    with t that(1) hit [OF t(1)] show "\<not> same_place (region_of q n) r'" by blast
  qed (fact that(2))
  have in_m: "jm_get m (tr_target r) \<noteq> None" if "r \<in> set conflicts" for r
    using that mine values_get [OF ok, of r] by (cases current) (auto simp: conflicts_def others_def current_def [symmetric])
  have plan': "(if current = None \<and> conflicts = [] \<and> int (jm_size m) \<ge> ?max
         then (case least_used (filter (regionIsIdle mem) (jm_values m)) of None \<Rightarrow> Plan_throws | Some victim \<Rightarrow> Plan_register [victim])
         else if list_ex (\<lambda>r. \<not> regionIsIdle mem r) conflicts then Plan_throws else Plan_register conflicts) = Plan_register cs"
    using plan by (auto simp: plan_region_def Let_def m_def [symmetric] current_def [symmetric] others_def [symmetric]
        conflicts_def [symmetric] split: if_splits)
  show ?thesis
  proof (cases "current = None \<and> conflicts = [] \<and> int (jm_size m) \<ge> ?max")
    case True
    with plan' obtain v where v: "cs = [v]" "v \<in> set (filter (regionIsIdle mem) (jm_values m))"
      by (auto split: option.splits dest!: least_used_in)
    with values_get [OF ok, of v] have "jm_size (delete_all cs m) < jm_size m" by (intro delete_all_smaller [OF ok, of v]) auto
    with v size True room show ?thesis by (auto simp: m_def [symmetric])
  next
    case False
    with plan' have cs: "cs = conflicts" "list_all (regionIsIdle mem) cs" by (auto simp: list_ex_iff list_all_iff split: if_splits)
    have "int (jm_size (delete_all cs m)) + 1 \<le> ?max"
    proof (cases "conflicts = []")
      case True
      with False have "int (jm_size m) < ?max" by (auto simp: conflicts_def split: option.splits)
      then show ?thesis by (simp add: cs True delete_all_def)
    next
      case False
      then obtain r where "r \<in> set conflicts" by fastforce
      then have "jm_size (delete_all cs m) < jm_size m" using in_m cs(1) by (intro delete_all_smaller [OF ok, of r]) auto
      with size show ?thesis by simp
    qed
    moreover have "set conflicts \<subseteq> set (jm_values m)"
      using get_values [of m "ar_target q"] by (auto simp: conflicts_def others_def current_def split: option.splits)
    ultimately show ?thesis using room cs by (simp add: m_def [symmetric])
  qed
qed

section \<open>Operations on an adapter\<close>

text \<open>What the operations of an adapter keep: the workers and the boots. They add and remove listeners for targets only.\<close>

definition is_target :: "listener \<Rightarrow> bool" where
  "is_target l \<longleftrightarrow> (case l of L_target _ _ \<Rightarrow> True | _ \<Rightarrow> False)"

definition same_workers :: "bridge \<Rightarrow> bridge \<Rightarrow> bool" where
  "same_workers s t \<longleftrightarrow> vb_workers t = vb_workers s \<and> vb_pending t = vb_pending s \<and> vb_pendingAdapters t = vb_pendingAdapters s
     \<and> vb_nextWorker t = vb_nextWorker s \<and> vb_spawned t = vb_spawned s \<and> vb_terminated t = vb_terminated s \<and> vb_memory t = vb_memory s
     \<and> (\<forall>w l. \<not> is_target l \<longrightarrow> ((w, l) \<in> set (vb_listeners t) \<longleftrightarrow> (w, l) \<in> set (vb_listeners s)))
     \<and> (\<forall>k. map_option ae_worker (jm_get (vb_adapters t) k) = map_option ae_worker (jm_get (vb_adapters s) k))"

definition adapters_ok :: "bridge_options \<Rightarrow> bridge \<Rightarrow> bool" where
  "adapters_ok opt s \<longleftrightarrow> (\<forall>k a. jm_get (vb_adapters s) k = Some a \<longrightarrow> entry_ok opt a \<and> ae_key a = k)"

text \<open>A region that was there still is, or was idle.\<close>

definition kept :: "bridge \<Rightarrow> bridge \<Rightarrow> bool" where
  "kept s t \<longleftrightarrow> (\<forall>k a r. jm_get (vb_adapters s) k = Some a \<and> jm_get (ae_regions a) (tr_target r) = Some r \<longrightarrow>
     (\<exists>a' r'. jm_get (vb_adapters t) k = Some a' \<and> jm_get (ae_regions a') (tr_target r) = Some r' \<and> same_place r' r)
       \<or> regionIsIdle (vb_memory s) r)"

definition adapter_op :: "bridge_options \<Rightarrow> bridge \<Rightarrow> bridge \<Rightarrow> bool" where
  "adapter_op opt s t \<longleftrightarrow> same_workers s t \<and> (adapters_ok opt s \<longrightarrow> adapters_ok opt t \<and> kept s t)"

lemma idle_place: "same_place r r' \<Longrightarrow> regionIsIdle mem r = regionIsIdle mem r'"
  unfolding same_place_def regionIsIdle_def by (elim conjE) (simp only:)

lemma kept_refl [simp]: "kept s s"
  by (auto simp: kept_def same_place_def)

lemma kept_trans:
  assumes "kept s t" "kept t u" "vb_memory t = vb_memory s" "adapters_ok opt t"
  shows "kept s u"
  unfolding kept_def
proof (intro allI impI)
  fix k a r
  assume a: "jm_get (vb_adapters s) k = Some a \<and> jm_get (ae_regions a) (tr_target r) = Some r"
  with assms(1) consider "regionIsIdle (vb_memory s) r"
    | a' r' where "jm_get (vb_adapters t) k = Some a'" "jm_get (ae_regions a') (tr_target r) = Some r'" "same_place r' r"
    unfolding kept_def by blast
  then show "(\<exists>a' r'. jm_get (vb_adapters u) k = Some a' \<and> jm_get (ae_regions a') (tr_target r) = Some r' \<and> same_place r' r)
      \<or> regionIsIdle (vb_memory s) r"
  proof cases
    case (2 a' r')
    with assms(4) have n: "tr_target r' = tr_target r" by (simp add: adapters_ok_def entry_ok_def regions_ok_def)
    with assms(2) 2 consider "regionIsIdle (vb_memory t) r'"
      | a'' r'' where "jm_get (vb_adapters u) k = Some a''" "jm_get (ae_regions a'') (tr_target r) = Some r''" "same_place r'' r'"
      unfolding kept_def by metis
    then show ?thesis
    proof cases
      case 1
      then show ?thesis using idle_place [OF 2(3)] assms(3) by simp
    next
      case (2 a'' r'')
      then show ?thesis using \<open>same_place r' r\<close> by (auto simp: same_place_def)
    qed
  qed simp
qed

lemma adapter_op_refl [simp]: "adapter_op opt s s"
  by (simp add: adapter_op_def same_workers_def)

lemma adapter_op_trans: "adapter_op opt s t \<Longrightarrow> adapter_op opt t u \<Longrightarrow> adapter_op opt s u"
  unfolding adapter_op_def using kept_trans [of s t u opt] by (auto simp: same_workers_def)

text \<open>An operation that puts a new entry in the place of an old one.\<close>

lemma adapter_op_entry:
  assumes s: "jm_get (vb_adapters s) (ae_key b) = Some a" and b: "ae_worker b = ae_worker a"
    and t: "vb_adapters t = jm_set (ae_key b) b (vb_adapters s)" "vb_workers t = vb_workers s" "vb_pending t = vb_pending s"
      "vb_pendingAdapters t = vb_pendingAdapters s" "vb_nextWorker t = vb_nextWorker s" "vb_spawned t = vb_spawned s"
      "vb_terminated t = vb_terminated s" "vb_memory t = vb_memory s"
      "\<And>w l. \<not> is_target l \<Longrightarrow> (w, l) \<in> set (vb_listeners t) \<longleftrightarrow> (w, l) \<in> set (vb_listeners s)"
    and ok: "entry_ok opt a \<Longrightarrow> entry_ok opt b"
    and kept: "\<And>r. entry_ok opt a \<Longrightarrow> jm_get (ae_regions a) (tr_target r) = Some r \<Longrightarrow>
      (\<exists>r'. jm_get (ae_regions b) (tr_target r) = Some r' \<and> same_place r' r) \<or> regionIsIdle (vb_memory s) r"
  shows "adapter_op opt s t"
  unfolding adapter_op_def
proof (intro conjI impI)
  show "same_workers s t" using assms by (simp add: same_workers_def)
  assume "adapters_ok opt s"
  then have "entry_ok opt a" using s by (simp add: adapters_ok_def)
  with kept s show "kept s t" unfolding kept_def t(1) by (auto simp: same_place_def)
  show "adapters_ok opt t" using \<open>adapters_ok opt s\<close> ok [OF \<open>entry_ok opt a\<close>] by (auto simp: adapters_ok_def t(1))
qed

definition touched :: "string \<Rightarrow> nat \<Rightarrow> (string, target_region) jsmap \<Rightarrow> (string, target_region) jsmap" where
  "touched t n m = map (\<lambda>(u, r). (u, if u = t then r\<lparr>tr_lastUsed := n\<rparr> else r)) m"

lemma touched_get: "jm_get (touched t n m) u = (if u = t then map_option (\<lambda>r. r\<lparr>tr_lastUsed := n\<rparr>) (jm_get m u) else jm_get m u)"
  by (induction m) (auto simp: touched_def)

lemma touched_ok: "regions_ok k m \<Longrightarrow> regions_ok k (touched t n m)"
proof -
  assume ok: "regions_ok k m"
  have "jm_keys (touched t n m) = jm_keys m" by (simp add: touched_def comp_def case_prod_beta)
  moreover from this have "jm_size (touched t n m) = jm_size m" by (metis length_map)
  ultimately show ?thesis using ok by (auto simp: regions_ok_def jm_wf_def touched_get same_place_def split: if_splits)
qed

lemma begin_operation_op:
  assumes s: "jm_get (vb_adapters s) (ae_key a) = Some a'" and a: "a = a'\<lparr>ae_queue := qs\<rparr>" "ae_registering a = None"
  shows "adapter_op opt s (begin_operation opt q a s)"
proof (cases "plan_region opt (vb_memory s) q a")
  case Plan_present
  define b where "b = a\<lparr>ae_regions := touched (ar_target q) (Suc (vb_touch s)) (ae_regions a)\<rparr>"
  have "begin_operation opt q a s = signal 1 (ar_ready q) (set_adapter b (s\<lparr>vb_touch := Suc (vb_touch s)\<rparr>))"
    using Plan_present by (simp add: begin_operation_def b_def touched_def Let_def)
  then show ?thesis
    by (intro adapter_op_entry [of _ b a'])
      (use s a in \<open>auto simp: signal_def set_adapter_def b_def entry_ok_def touched_ok touched_get same_place_def\<close>)
next
  case Plan_throws
  then have "begin_operation opt q a s = signal (-1) (ar_ready q) (set_adapter a s)" by (simp add: begin_operation_def)
  then show ?thesis
    by (intro adapter_op_entry [of _ a a']) (use s a in \<open>auto simp: signal_def set_adapter_def entry_ok_def same_place_def\<close>)
next
  case (Plan_register cs)
  define n where "n = Suc (vb_touch s)"
  define request where "request = Suc (vb_registrationSequence s)"
  define b where "b = a\<lparr>ae_regions := delete_all cs (ae_regions a), ae_registering := Some (q, request, region_of q n)\<rparr>"
  have t: "begin_operation opt q a s = set_adapter b (post (ae_worker a) (Vgi_register_target request (ar_target q) (ar_buffer q) (ar_offset q) (ae_url a))
      (listen (ae_worker a) (L_target (ae_key a) request)
        (unregister (ae_worker a) cs (s\<lparr>vb_touch := n, vb_registrationSequence := request\<rparr>))))"
    using Plan_register by (simp add: begin_operation_def b_def n_def request_def region_of_def delete_all_def Let_def)
  have plan: "list_all (regionIsIdle (vb_memory s)) cs \<and> set cs \<subseteq> set (jm_values (ae_regions a)) \<and> room_for (maxTargetsPerAdapter opt) (region_of q n) (delete_all cs (ae_regions a))"
    if "entry_ok opt a'" using that a by (intro plan_register [OF Plan_register]) (simp add: entry_ok_def)
  have idle: "regionIsIdle (vb_memory s) r" if "entry_ok opt a'" "jm_get (ae_regions a) (tr_target r) = Some r" "tr_target r \<in> tr_target ` set cs" for r
  proof -
    from that(3) obtain c where c: "c \<in> set cs" "tr_target c = tr_target r" by auto
    with plan [OF that(1)] have "c \<in> set (jm_values (ae_regions a))" "regionIsIdle (vb_memory s) c" by (auto simp: list_all_iff)
    moreover from this(1) have "jm_get (ae_regions a) (tr_target c) = Some c"
      using that(1) a by (intro values_get [of "maxTargetsPerAdapter opt"]) (simp_all add: entry_ok_def)
    ultimately show ?thesis using c(2) that(2) by simp
  qed
  show ?thesis unfolding t
  proof (rule adapter_op_entry [of _ b a'])
    fix r
    assume "entry_ok opt a'" "jm_get (ae_regions a') (tr_target r) = Some r"
    then show "(\<exists>r'. jm_get (ae_regions b) (tr_target r) = Some r' \<and> same_place r' r) \<or> regionIsIdle (vb_memory s) r"
      using idle [of r] a by (auto simp: b_def delete_all_get same_place_def)
  next
    assume e: "entry_ok opt a'"
    then show "entry_ok opt b" using plan [OF e] a by (auto simp: entry_ok_def b_def delete_all_ok region_of_def)
  qed (use s a in \<open>auto simp: b_def set_adapter_def post_def listen_def unregister_def is_target_def\<close>)
qed

lemma run_operations_op:
  "(\<And>a. jm_get (vb_adapters s) key = Some a \<Longrightarrow> ae_queue a = qs \<and> ae_key a = key) \<Longrightarrow> adapter_op opt s (run_operations opt key qs s)"
proof (induction qs arbitrary: s)
  case (Cons q qs)
  show ?case
  proof (cases "\<exists>a. jm_get (vb_adapters s) key = Some a \<and> ae_registering a = None")
    case True
    then obtain a where a: "jm_get (vb_adapters s) key = Some a" "ae_registering a = None" by blast
    define b where "b = a\<lparr>ae_queue := qs\<rparr>"
    have k: "ae_key b = key" "ae_queue b = qs" using Cons.prems [OF a(1)] by (simp_all add: b_def)
    have "adapter_op opt s (begin_operation opt q b s)"
      by (rule begin_operation_op [of _ _ a qs]) (use a k in \<open>simp_all add: b_def\<close>)
    moreover have "adapter_op opt (begin_operation opt q b s) (run_operations opt key qs (begin_operation opt q b s))"
      using begin_operation_entry [of opt q b s] k by (intro Cons.IH) auto
    moreover have "run_operations opt key (q # qs) s = run_operations opt key qs (begin_operation opt q b s)"
      using a by (simp add: b_def)
    ultimately show ?thesis using adapter_op_trans by fastforce
  next
    case False
    then have "run_operations opt key (q # qs) s = s" by (auto split: option.split)
    then show ?thesis by simp
  qed
qed simp

lemma run_queue_op: "maps_ok s \<Longrightarrow> adapter_op opt s (run_queue opt key s)"
  using run_operations_op [of s key] by (auto simp: run_queue_def maps_ok_def split: option.split)

lemma finish_request_op:
  assumes "maps_ok s"
  shows "adapter_op opt s (finish_request opt key q s)"
proof (cases "jm_get (vb_adapters s) key")
  case (Some a)
  define b where "b = a\<lparr>ae_queue := ae_queue a @ [q]\<rparr>"
  have k: "ae_key b = key" using assms Some by (simp add: b_def maps_ok_def)
  have "adapter_op opt s (set_adapter b s)"
    by (rule adapter_op_entry [of _ b a]) (use Some k in \<open>auto simp: b_def set_adapter_def entry_ok_def same_place_def\<close>)
  moreover have "adapter_op opt (set_adapter b s) (run_queue opt key (set_adapter b s))"
    by (rule run_queue_op, rule maps_ok_set_adapter [OF assms, of _ a]) (simp add: k Some)
  moreover have "adapter_op opt s (signal (-1) (ar_ready q) s)"
    by (simp add: adapter_op_def same_workers_def signal_def adapters_ok_def kept_def) (auto simp: same_place_def)
  ultimately show ?thesis using Some adapter_op_trans by (auto simp: finish_request_def b_def)
qed (simp add: finish_request_def)

lemma finish_requests_op: "maps_ok s \<Longrightarrow> jm_has (vb_adapters s) key \<Longrightarrow> adapter_op opt s (fold (finish_request opt key) qs s)"
proof (induction qs arbitrary: s)
  case (Cons q qs)
  have "adapter_op opt (finish_request opt key q s) (fold (finish_request opt key) qs (finish_request opt key q s))"
    by (intro Cons.IH) (use Cons.prems in \<open>simp_all add: finish_request_account finish_request_has\<close>)
  then show ?case using adapter_op_trans [OF finish_request_op [OF Cons.prems(1)]] by simp
qed simp

lemma end_operation_op:
  assumes "maps_ok s"
  shows "adapter_op opt s (end_operation opt key request ok s)"
proof (cases "\<exists>a q region. jm_get (vb_adapters s) key = Some a \<and> ae_registering a = Some (q, request, region)")
  case True
  then obtain a q region where a: "jm_get (vb_adapters s) key = Some a" "ae_registering a = Some (q, request, region)" by blast
  define b where "b = a\<lparr>ae_regions := (if ok then jm_set (ar_target q) region (ae_regions a) else ae_regions a), ae_registering := None\<rparr>"
  have k: "ae_key b = key" using assms a(1) by (simp add: b_def maps_ok_def)
  define t where "t = signal (if ok then 1 else - 1) (ar_ready q) (set_adapter b (unlisten (ae_worker a) (L_target key request) s))"
  have "adapter_op opt s t"
  proof (rule adapter_op_entry [of _ b a])
    assume e: "entry_ok opt a"
    then have "tr_target region = ar_target q" "room_for (maxTargetsPerAdapter opt) region (ae_regions a)"
      "regions_ok (maxTargetsPerAdapter opt) (ae_regions a)" using a(2) by (simp_all add: entry_ok_def)
    then show "entry_ok opt b" using regions_ok_set [of _ "ae_regions a" region] by (simp add: b_def entry_ok_def)
    fix r
    assume "jm_get (ae_regions a) (tr_target r) = Some r"
    then show "(\<exists>r'. jm_get (ae_regions b) (tr_target r) = Some r' \<and> same_place r' r) \<or> regionIsIdle (vb_memory s) r"
      using e a(2) by (auto simp: b_def same_place_def entry_ok_def room_for_def)
  qed (use a k in \<open>auto simp: t_def b_def signal_def set_adapter_def unlisten_def is_target_def\<close>)
  moreover have "maps_ok t"
    using maps_ok_set_adapter [of "unlisten (ae_worker a) (L_target key request) s" b a] assms a(1) k by (simp add: t_def)
  moreover have "end_operation opt key request ok s = run_queue opt key t"
    using a by (simp add: end_operation_def b_def t_def Let_def)
  ultimately show ?thesis using adapter_op_trans [OF _ run_queue_op] by simp
next
  case False
  then have "end_operation opt key request ok s = s" by (auto simp: end_operation_def split: option.splits)
  then show ?thesis by simp
qed

section \<open>Events\<close>

definition regions_step :: "bridge_options \<Rightarrow> bridge \<Rightarrow> bridge \<Rightarrow> bool" where
  "regions_step opt s t \<longleftrightarrow> adapters_ok opt t \<and> kept s t \<and> vb_memory t = vb_memory s"

lemma adapter_op_step: "adapter_op opt s t \<Longrightarrow> adapters_ok opt s \<Longrightarrow> regions_step opt s t"
  by (simp add: adapter_op_def regions_step_def same_workers_def)

lemma unchanged_step: "adapters_ok opt s \<Longrightarrow> vb_adapters t = vb_adapters s \<Longrightarrow> vb_memory t = vb_memory s \<Longrightarrow> regions_step opt s t"
  by (auto simp: regions_step_def adapters_ok_def kept_def same_place_def)

lemma regions_step_trans: "regions_step opt s t \<Longrightarrow> regions_step opt t u \<Longrightarrow> regions_step opt s u"
  unfolding regions_step_def using kept_trans [of s t u opt] by auto

lemmas boot_frames = fail_boot_def fail_plain_def fail_adapter_def greet_def greet_plain_def greet_adapter_def signal_def signal_all_def
  post_def listen_def unlisten_def terminate_def new_worker_def

lemma construct_worker_adapters [simp]:
  "vb_adapters (construct_worker P b url s) = vb_adapters s" "vb_memory (construct_worker P b url s) = vb_memory s"
  by (simp_all add: construct_worker_def boot_frames split: boot_id.split option.split)

lemma plain_arrives_adapters [simp]:
  "vb_adapters (plain_arrives P url d ready s) = vb_adapters s" "vb_memory (plain_arrives P url d ready s) = vb_memory s"
  by (simp_all add: plain_arrives_def spawnWorker_def signal_def split: option.split)

lemma boot_adapter_adapters [simp]:
  "vb_adapters (boot_adapter P key application q s) = vb_adapters s" "vb_memory (boot_adapter P key application q s) = vb_memory s"
  by (simp_all add: boot_adapter_def spawnWorker_def greet_adapter_def post_def listen_def Let_def split: option.split)

lemma adapter_arrives_step:
  "maps_ok s \<Longrightarrow> adapters_ok opt s \<Longrightarrow> regions_step opt s (adapter_arrives P opt key application q s)"
  using adapter_op_step [OF finish_request_op] by (auto simp: adapter_arrives_def intro: unchanged_step split: option.split)

lemma signal_step: "adapters_ok opt s \<Longrightarrow> regions_step opt s (signal v r s)"
  "adapters_ok opt s \<Longrightarrow> regions_step opt s (s\<lparr>vb_uncaught := u\<rparr>)" "adapters_ok opt s \<Longrightarrow> regions_step opt s s"
  by (simp_all add: unchanged_step signal_def)

lemma ensure_adapter_step: "maps_ok s \<Longrightarrow> adapters_ok opt s \<Longrightarrow> regions_step opt s (ensure_adapter P opt d ready s)"
  by (simp add: ensure_adapter_def adapter_arrives_step signal_step split: option.split sum.split)

lemma on_ensure_step: "maps_ok s \<Longrightarrow> adapters_ok opt s \<Longrightarrow> regions_step opt s (on_ensure P opt d s)"
  by (simp add: on_ensure_def ensure_adapter_step signal_step unchanged_step split: option.split sum.split)

lemma hear_plain_step: "adapters_ok opt s \<Longrightarrow> regions_step opt s (hear_plain url w m s)"
  by (rule unchanged_step) (auto simp: hear_plain_def boot_frames Let_def split: worker_says.split option.split)

lemma hear_boot_step:
  assumes "maps_ok s" "adapters_ok opt s" "0 < maxTargetsPerAdapter opt"
  shows "regions_step opt s (hear_boot opt key w m s)"
proof (cases "m = Vgi_ready \<and> (\<exists>b. jm_get (vb_pendingAdapters s) key = Some b)")
  case True
  then obtain b where b: "jm_get (vb_pendingAdapters s) key = Some b" "m = Vgi_ready" by blast
  define a where "a = \<lparr>ae_key = key, ae_url = ab_url b, ae_worker = w, ae_regions = [(tr_target (ab_region b), ab_region b)],
    ae_queue = [], ae_registering = None\<rparr>"
  define t where "t = signal 1 (ab_ready b) (set_adapter a ((listen w L_hook (unlisten w (L_boot key) s))
    \<lparr>vb_pendingAdapters := jm_delete key (vb_pendingAdapters s)\<rparr>))"
  have n: "jm_get (vb_adapters s) key = None" using no_adapter_yet [OF assms(1) b(1)] by (simp add: jm_has_get)
  have "entry_ok opt a" using assms(3) by (auto simp: entry_ok_def regions_ok_def a_def jm_wf_def split: if_splits)
  then have "regions_step opt s t" using assms(2) n
    by (auto simp: regions_step_def t_def adapters_ok_def kept_def a_def boot_frames set_adapter_def same_place_def)
  moreover have "maps_ok t" "jm_has (vb_adapters t) key" using assms(1) n
    by (auto simp: t_def maps_ok_def set_adapter_def boot_frames a_def jm_has_get)
  moreover have "hear_boot opt key w m s = fold (finish_request opt key) (ab_joined b) t"
    using b by (simp add: hear_boot_def a_def t_def Let_def listen_def unlisten_def)
  ultimately show ?thesis
    using regions_step_trans adapter_op_step [OF finish_requests_op] by (metis regions_step_def)
next
  case False
  then show ?thesis using assms(2)
    by (intro unchanged_step) (auto simp: hear_boot_def boot_frames Let_def split: worker_says.split option.split)
qed

lemma hear_step:
  "maps_ok s \<Longrightarrow> adapters_ok opt s \<Longrightarrow> 0 < maxTargetsPerAdapter opt \<Longrightarrow> regions_step opt s (hear opt w m l s)"
  using hear_plain_step [of opt s] hear_boot_step [of s opt] adapter_op_step [OF end_operation_op, of s opt] unchanged_step [of opt s]
  by (simp add: hear_def split: listener.split worker_says.split)

lemma hears_step:
  "maps_ok s \<Longrightarrow> adapters_ok opt s \<Longrightarrow> 0 < maxTargetsPerAdapter opt \<Longrightarrow> regions_step opt s (fold (hear opt w m) ls s)"
proof (induction ls arbitrary: s)
  case (Cons l ls)
  have h: "regions_step opt s (hear opt w m l s)" by (rule hear_step [OF Cons.prems])
  moreover have "regions_step opt (hear opt w m l s) (fold (hear opt w m) ls (hear opt w m l s))"
    by (rule Cons.IH) (use Cons.prems h in \<open>simp_all add: hear_account regions_step_def\<close>)
  ultimately show ?case using regions_step_trans by simp
qed (simp add: unchanged_step)

lemma bridge_next_regions:
  assumes "maps_ok s" "adapters_ok opt s" "0 < maxTargetsPerAdapter opt"
  shows "adapters_ok opt (bridge_next P opt e s) \<and> kept s (bridge_next P opt e s)"
proof (cases e)
  case (B_ensure d)
  then show ?thesis using on_ensure_step [OF assms(1,2)] by (simp add: regions_step_def)
next
  case (B_fetched b ok)
  have "regions_step opt s (script_fetched P b ok s)"
    by (rule unchanged_step [OF assms(2)]) (simp_all add: script_fetched_def boot_frames split: option.split boot_id.split)
  with B_fetched show ?thesis by (simp add: regions_step_def)
next
  case (B_message w m)
  then show ?thesis using hears_step [OF assms] by (simp add: on_worker_message_def regions_step_def)
next
  case (B_timeout key n)
  then show ?thesis using adapter_op_step [OF end_operation_op [OF assms(1)] assms(2)] by (simp add: registration_timeout_def regions_step_def)
next
  case (B_memory b lanes)
  then show ?thesis using assms(2) by (auto simp: adapters_ok_def kept_def same_place_def)
qed

end
