(* ===== verification/Hb_Bridge_Workers.thy ===== *)
theory Hb_Bridge_Workers
  imports Hb_Bridge_Regions
begin

text \<open>
  Which workers \<open>vgi/webworker-bridge.ts\<close> starts: only scripts the resolver allows, one worker for each plain URL and each
  adapter key, and never one of the application's.
\<close>

section \<open>The invariant\<close>

definition allowed :: "bridge_platform \<Rightarrow> bridge_options \<Rightarrow> string \<Rightarrow> bool" where
  "allowed P opt url \<longleftrightarrow> (\<exists>location. resolveWorkerUrl P opt location = Inr (Some url))"

text \<open>The worker a URL or a key stands for, running or booting.\<close>

definition holder :: "boot_id \<Rightarrow> bridge \<Rightarrow> nat option" where
  "holder b s = (case b of
     Plain url \<Rightarrow> (case jm_get (vb_workers s) url of Some w \<Rightarrow> Some w | None \<Rightarrow> Option.bind (jm_get (vb_pending s) url) pb_worker)
   | Adapter key \<Rightarrow> (case jm_get (vb_adapters s) key of
       Some a \<Rightarrow> Some (ae_worker a) | None \<Rightarrow> Option.bind (jm_get (vb_pendingAdapters s) key) ab_worker))"

definition spawned_ok :: "bridge_platform \<Rightarrow> bridge_options \<Rightarrow> nat \<Rightarrow> bridge \<Rightarrow> bool" where
  "spawned_ok P opt first s \<longleftrightarrow> first \<le> vb_nextWorker s
     \<and> (\<forall>w b u. (w, b, u) \<in> set (vb_spawned s) \<longrightarrow> allowed P opt u \<and> first \<le> w \<and> w < vb_nextWorker s
          \<and> (w \<notin> set (vb_terminated s) \<longrightarrow> holder b s = Some w))
     \<and> (\<forall>w \<in> set (vb_terminated s). \<exists>b u. (w, b, u) \<in> set (vb_spawned s))"

definition boots_ok :: "bridge_platform \<Rightarrow> bridge_options \<Rightarrow> nat \<Rightarrow> bridge \<Rightarrow> bool" where
  "boots_ok P opt first s \<longleftrightarrow>
     (\<forall>url b. jm_get (vb_pending s) url = Some b \<longrightarrow> jm_get (vb_workers s) url = None \<and> allowed P opt url)
     \<and> (\<forall>key b. jm_get (vb_pendingAdapters s) key = Some b \<longrightarrow> jm_get (vb_adapters s) key = None
          \<and> (ab_application b = None \<longrightarrow> allowed P opt (ab_url b)
               \<and> (\<forall>w. ab_worker b = Some w \<longrightarrow> (\<exists>u. (w, Adapter key, u) \<in> set (vb_spawned s))))
          \<and> (\<forall>v. ab_application b = Some v \<longrightarrow> v < first \<and> (\<forall>w. ab_worker b = Some w \<longrightarrow> w = v)))"

definition listeners_ok :: "bridge \<Rightarrow> bool" where
  "listeners_ok s \<longleftrightarrow>
     (\<forall>w url. (w, L_plain url) \<in> set (vb_listeners s) \<longrightarrow> holder (Plain url) s = Some w \<and> (\<exists>u. (w, Plain url, u) \<in> set (vb_spawned s)))
     \<and> (\<forall>w key. (w, L_boot key) \<in> set (vb_listeners s) \<longrightarrow> (\<exists>b. jm_get (vb_pendingAdapters s) key = Some b \<and> ab_worker b = Some w))"

definition workers_ok :: "bridge_platform \<Rightarrow> bridge_options \<Rightarrow> nat \<Rightarrow> bridge \<Rightarrow> bool" where
  "workers_ok P opt first s \<longleftrightarrow> spawned_ok P opt first s \<and> boots_ok P opt first s \<and> listeners_ok s"

lemmas workers_defs = workers_ok_def spawned_ok_def boots_ok_def listeners_ok_def

lemma workers_ok_start: "workers_ok P opt first (bridge_start first mem)"
  by (simp add: workers_defs bridge_start_def)

lemma holder_same_workers: "same_workers s t \<Longrightarrow> holder b t = holder b s"
proof (cases b)
  case (Adapter key)
  assume st: "same_workers s t"
  then have "map_option ae_worker (jm_get (vb_adapters t) key) = map_option ae_worker (jm_get (vb_adapters s) key)"
    by (simp add: same_workers_def)
  then show ?thesis using st Adapter
    by (cases "jm_get (vb_adapters t) key"; cases "jm_get (vb_adapters s) key") (simp_all add: holder_def same_workers_def)
qed (simp add: holder_def same_workers_def split: option.split)

lemma workers_ok_same:
  assumes "same_workers s t" "workers_ok P opt first s"
  shows "workers_ok P opt first t"
proof -
  note h = holder_same_workers [OF assms(1)]
  have n: "jm_get (vb_adapters t) k = None \<longleftrightarrow> jm_get (vb_adapters s) k = None" for k
    using assms(1) unfolding same_workers_def by (metis option.map_disc_iff)
  from assms show ?thesis unfolding workers_defs h n by (simp add: same_workers_def is_target_def)
qed

text \<open>Changes that leave the boots, the workers and the listeners as they are.\<close>

lemma holder_frame:
  "vb_workers t = vb_workers s \<Longrightarrow> vb_pending t = vb_pending s \<Longrightarrow> vb_pendingAdapters t = vb_pendingAdapters s \<Longrightarrow>
     vb_adapters t = vb_adapters s \<Longrightarrow> holder b t = holder b s"
  unfolding holder_def by (simp only:)

lemma workers_ok_frame:
  assumes "workers_ok P opt first s" "vb_workers t = vb_workers s" "vb_pending t = vb_pending s" "vb_pendingAdapters t = vb_pendingAdapters s"
    "vb_nextWorker t = vb_nextWorker s" "vb_spawned t = vb_spawned s" "vb_terminated t = vb_terminated s" "vb_adapters t = vb_adapters s"
    "vb_listeners t = vb_listeners s"
  shows "workers_ok P opt first t"
  using assms(1) unfolding workers_defs holder_frame [OF assms(2-4,8)] assms(2-9) .

lemma workers_ok_frame_iff:
  assumes "vb_workers t = vb_workers s" "vb_pending t = vb_pending s" "vb_pendingAdapters t = vb_pendingAdapters s"
    "vb_nextWorker t = vb_nextWorker s" "vb_spawned t = vb_spawned s" "vb_terminated t = vb_terminated s" "vb_adapters t = vb_adapters s"
    "vb_listeners t = vb_listeners s"
  shows "workers_ok P opt first t = workers_ok P opt first s"
  using workers_ok_frame [of P opt first s t] workers_ok_frame [of P opt first t s] assms by auto

text \<open>A change that may start one worker, stop some, and move a boot on.\<close>

lemma spawned_ok_change:
  assumes ok: "spawned_ok P opt first s" and n: "vb_nextWorker s \<le> vb_nextWorker t"
    and sp: "set (vb_spawned s) \<subseteq> set (vb_spawned t)"
      "\<And>w b u. (w, b, u) \<in> set (vb_spawned t) \<Longrightarrow> (w, b, u) \<notin> set (vb_spawned s) \<Longrightarrow>
         allowed P opt u \<and> first \<le> w \<and> w < vb_nextWorker t \<and> holder b t = Some w"
    and tm: "set (vb_terminated s) \<subseteq> set (vb_terminated t)" "\<And>w. w \<in> set (vb_terminated t) \<Longrightarrow> \<exists>b u. (w, b, u) \<in> set (vb_spawned t)"
    and h: "\<And>w b u. (w, b, u) \<in> set (vb_spawned s) \<Longrightarrow> holder b s = Some w \<Longrightarrow> w \<notin> set (vb_terminated t) \<Longrightarrow> holder b t = Some w"
  shows "spawned_ok P opt first t"
  unfolding spawned_ok_def
proof (intro conjI allI impI ballI)
  show "first \<le> vb_nextWorker t" using ok n by (simp add: spawned_ok_def)
next
  fix w b u
  assume m: "(w, b, u) \<in> set (vb_spawned t)"
  show "allowed P opt u" "first \<le> w" "w < vb_nextWorker t"
    using sp(2) [OF m] ok n unfolding spawned_ok_def by (metis order_less_le_trans)+
  assume "w \<notin> set (vb_terminated t)"
  with sp(2) [OF m] h [of w b u] ok tm(1) show "holder b t = Some w" unfolding spawned_ok_def by blast
next
  fix w
  assume "w \<in> set (vb_terminated t)"
  then show "\<exists>b u. (w, b, u) \<in> set (vb_spawned t)" by (rule tm(2))
qed

fun boot_listener :: "boot_id \<Rightarrow> listener" where
  "boot_listener (Plain url) = L_plain url"
| "boot_listener (Adapter key) = L_boot key"

lemma fail_plain_fields:
  "fail_plain url s = (case jm_get (vb_pending s) url of None \<Rightarrow> s
     | Some b \<Rightarrow> s\<lparr>vb_pending := jm_delete url (vb_pending s), vb_signals := vb_signals s @ map (\<lambda>r. (r, -1)) (pb_ready b)\<rparr>)"
  by (simp add: fail_plain_def signal_all_def split: option.split)

lemma fail_adapter_fields:
  "fail_adapter key s = (case jm_get (vb_pendingAdapters s) key of None \<Rightarrow> s
     | Some b \<Rightarrow> s\<lparr>vb_pendingAdapters := jm_delete key (vb_pendingAdapters s),
         vb_signals := vb_signals s @ map (\<lambda>r. (r, -1)) (ab_ready b # map ar_ready (ab_joined b))\<rparr>)"
  by (simp add: fail_adapter_def signal_all_def split: option.split)

lemma workers_ok_fail:
  assumes ok: "workers_ok P opt first s"
    and dead: "\<And>w u. (w, b, u) \<in> set (vb_spawned s) \<Longrightarrow> holder b s = Some w \<Longrightarrow> w \<in> set (vb_terminated s)"
    and quiet: "\<And>w. (w, boot_listener b) \<notin> set (vb_listeners s)"
  shows "workers_ok P opt first (fail_boot b s)"
proof -
  have h: "holder c (fail_boot b s) = holder c s" if "c \<noteq> b" for c
    using that by (cases b; cases c) (auto simp: fail_boot_def fail_plain_fields fail_adapter_fields holder_def split: option.split)
  have same: "vb_spawned (fail_boot b s) = vb_spawned s" "vb_terminated (fail_boot b s) = vb_terminated s"
    "vb_nextWorker (fail_boot b s) = vb_nextWorker s" "vb_listeners (fail_boot b s) = vb_listeners s"
    by (cases b; simp add: fail_boot_def fail_plain_fields fail_adapter_fields split: option.split)+
  have "spawned_ok P opt first (fail_boot b s)"
  proof (rule spawned_ok_change)
    fix w c u
    assume "(w, c, u) \<in> set (vb_spawned s)" "holder c s = Some w" "w \<notin> set (vb_terminated (fail_boot b s))"
    with dead h same show "holder c (fail_boot b s) = Some w" by metis
  next
    fix w
    assume "w \<in> set (vb_terminated (fail_boot b s))"
    then show "\<exists>b' u. (w, b', u) \<in> set (vb_spawned (fail_boot b s))" using ok by (simp add: same workers_ok_def spawned_ok_def)
  qed (use ok in \<open>simp_all add: same workers_ok_def\<close>)
  moreover have "boots_ok P opt first (fail_boot b s)" using ok
    by (cases b) (auto simp: workers_ok_def boots_ok_def fail_boot_def fail_plain_fields fail_adapter_fields split: option.split)
  moreover have "listeners_ok (fail_boot b s)"
  proof -
    have "holder (Plain url) (fail_boot b s) = holder (Plain url) s" if "(w, L_plain url) \<in> set (vb_listeners s)" for w url
      using that quiet [of w] by (intro h) auto
    moreover have "jm_get (vb_pendingAdapters (fail_boot b s)) key = jm_get (vb_pendingAdapters s) key"
      if "(w, L_boot key) \<in> set (vb_listeners s)" for w key
      using that quiet [of w] by (cases b) (auto simp: fail_boot_def fail_plain_fields fail_adapter_fields split: option.split)
    ultimately show ?thesis using ok unfolding workers_ok_def listeners_ok_def same by metis
  qed
  ultimately show ?thesis by (simp add: workers_ok_def)
qed

section \<open>Boots\<close>

text \<open>A boot that waits for its worker.\<close>

definition booting :: "boot_id \<Rightarrow> bridge \<Rightarrow> bool" where
  "booting b s \<longleftrightarrow> (case b of
     Plain url \<Rightarrow> (\<exists>x. jm_get (vb_pending s) url = Some x \<and> pb_worker x = None) \<and> jm_get (vb_workers s) url = None
   | Adapter key \<Rightarrow> (\<exists>x. jm_get (vb_pendingAdapters s) key = Some x \<and> ab_worker x = None) \<and> jm_get (vb_adapters s) key = None)"

lemma booting_holder: "booting b s \<Longrightarrow> holder b s = None"
  by (auto simp: booting_def holder_def split: boot_id.splits)

lemma booting_quiet: "workers_ok P opt first s \<Longrightarrow> booting b s \<Longrightarrow> (w, boot_listener b) \<notin> set (vb_listeners s)"
  using booting_holder [of b s] by (cases b) (fastforce simp: workers_ok_def listeners_ok_def booting_def)+

lemma greet_holder: "booting b s \<Longrightarrow> holder c (greet b w s) = (if c = b then Some w else holder c s)"
  by (cases b; cases c) (auto simp: booting_def greet_def greet_plain_def greet_adapter_def holder_def post_def listen_def split: option.split)

lemma greet_fields [simp]:
  "vb_spawned (greet b w s) = vb_spawned s" "vb_terminated (greet b w s) = vb_terminated s" "vb_nextWorker (greet b w s) = vb_nextWorker s"
  "vb_workers (greet b w s) = vb_workers s" "vb_adapters (greet b w s) = vb_adapters s"
  by (cases b; simp add: greet_def greet_plain_def greet_adapter_def post_def listen_def split: option.split)+

lemma greet_listeners: "booting b s \<Longrightarrow> vb_listeners (greet b w s) = vb_listeners s @ [(w, boot_listener b)]"
  by (cases b) (auto simp: booting_def greet_def greet_plain_def greet_adapter_def post_def listen_def)

text \<open>Whether the worker of a boot is one of the bridge's own.\<close>

definition owned :: "boot_id \<Rightarrow> bridge \<Rightarrow> bool" where
  "owned b s \<longleftrightarrow> (case b of Plain _ \<Rightarrow> True
     | Adapter key \<Rightarrow> (\<exists>x. jm_get (vb_pendingAdapters s) key = Some x \<and> ab_application x = None))"

lemma greet_boots_ok:
  assumes "boots_ok P opt first s" "booting b s" "owned b s \<Longrightarrow> \<exists>u. (w, b, u) \<in> set (vb_spawned s)"
    "\<And>key x. b = Adapter key \<Longrightarrow> jm_get (vb_pendingAdapters s) key = Some x \<Longrightarrow> ab_application x \<in> {None, Some w}"
  shows "boots_ok P opt first (greet b w s)"
proof (cases b)
  case (Plain url)
  with assms(1,2) show ?thesis by (auto simp: boots_ok_def booting_def greet_def greet_plain_def post_def listen_def split: if_splits)
next
  case (Adapter key)
  with assms(2) obtain x where x: "jm_get (vb_pendingAdapters s) key = Some x" "ab_worker x = None" by (auto simp: booting_def)
  then have "vb_pendingAdapters (greet b w s) = jm_set key (x\<lparr>ab_worker := Some w\<rparr>) (vb_pendingAdapters s)"
    "vb_pending (greet b w s) = vb_pending s"
    using Adapter by (simp_all add: greet_def greet_adapter_def post_def listen_def)
  note p = this
  have old: "jm_get (vb_adapters s) key = None" "ab_application x = None \<Longrightarrow> allowed P opt (ab_url x) \<and> (\<exists>u. (w, Adapter key, u) \<in> set (vb_spawned s))"
    "ab_application x = Some v \<Longrightarrow> v < first \<and> w = v" for v
    using assms(1,3) assms(4) [OF Adapter x(1)] x Adapter by (auto simp: boots_ok_def owned_def)
  show ?thesis unfolding boots_ok_def p greet_fields jm_get_set
  proof (intro conjI)
    show "\<forall>url b. jm_get (vb_pending s) url = Some b \<longrightarrow> jm_get (vb_workers s) url = None \<and> allowed P opt url"
      using assms(1) by (simp add: boots_ok_def)
  qed (use assms(1) old in \<open>auto simp: boots_ok_def split: if_splits\<close>)
qed

lemma greet_listeners_ok:
  assumes "listeners_ok s" "booting b s" "\<And>url. b = Plain url \<Longrightarrow> \<exists>u. (w, b, u) \<in> set (vb_spawned s)"
    "\<And>w. (w, boot_listener b) \<notin> set (vb_listeners s)"
  shows "listeners_ok (greet b w s)"
  unfolding listeners_ok_def
proof (intro conjI allI impI)
  fix v v'
  assume v: "(v, L_plain v') \<in> set (vb_listeners (greet b w s))"
  show "holder (Plain v') (greet b w s) = Some v"
    using v assms by (cases b) (auto simp: greet_listeners greet_holder listeners_ok_def)
  show "\<exists>u. (v, Plain v', u) \<in> set (vb_spawned (greet b w s))"
    using v assms by (cases b) (auto simp: greet_listeners listeners_ok_def)
next
  fix v key
  assume v: "(v, L_boot key) \<in> set (vb_listeners (greet b w s))"
  show "\<exists>x. jm_get (vb_pendingAdapters (greet b w s)) key = Some x \<and> ab_worker x = Some v"
    using v assms
    by (cases b) (auto simp: greet_listeners listeners_ok_def booting_def greet_def greet_plain_def greet_adapter_def post_def listen_def)
qed

lemma workers_ok_construct:
  assumes ok: "workers_ok P opt first s" and b: "booting b s" "allowed P opt url"
    and own: "\<And>key x. b = Adapter key \<Longrightarrow> jm_get (vb_pendingAdapters s) key = Some x \<Longrightarrow> ab_application x = None"
  shows "workers_ok P opt first (construct_worker P b url s)"
proof (cases "bp_workerThrows P url")
  case True
  have "workers_ok P opt first (fail_boot b s)"
    by (rule workers_ok_fail [OF ok]) (use booting_holder [OF b(1)] booting_quiet [OF ok b(1)] in auto)
  with True show ?thesis by (simp add: construct_worker_def)
next
  case False
  define w where "w = vb_nextWorker s"
  define u where "u = s\<lparr>vb_nextWorker := Suc w, vb_spawned := (w, b, url) # vb_spawned s\<rparr>"
  have t: "construct_worker P b url s = greet b w u" using False by (simp add: construct_worker_def new_worker_def u_def w_def)
  have h: "holder c u = holder c s" for c by (rule holder_frame) (simp_all add: u_def)
  have same: "vb_pending u = vb_pending s" "vb_pendingAdapters u = vb_pendingAdapters s" "vb_workers u = vb_workers s"
    "vb_adapters u = vb_adapters s" "vb_listeners u = vb_listeners s" by (simp_all add: u_def)
  have "booting b u" using b(1) unfolding booting_def same .
  moreover have "boots_ok P opt first u" using ok unfolding workers_ok_def boots_ok_def same by (simp add: u_def) blast
  moreover have "listeners_ok u" using ok unfolding workers_ok_def listeners_ok_def h same by (force simp: u_def)
  moreover have "\<And>w. (w, boot_listener b) \<notin> set (vb_listeners u)" using booting_quiet [OF ok b(1)] by (simp add: same)
  ultimately have u: "booting b u" "boots_ok P opt first u" "listeners_ok u" "\<And>w. (w, boot_listener b) \<notin> set (vb_listeners u)"
    "vb_terminated u = vb_terminated s" "vb_nextWorker u = Suc w" "vb_spawned u = (w, b, url) # vb_spawned s" by (auto simp: u_def)
  have "spawned_ok P opt first (greet b w u)"
  proof (rule spawned_ok_change [of _ _ _ s])
    fix w' c u'
    assume "holder c s = Some w'"
    then show "holder c (greet b w u) = Some w'" using booting_holder [OF b(1)] by (auto simp: greet_holder [OF u(1)] h)
  next
    fix v
    assume "v \<in> set (vb_terminated (greet b w u))"
    then show "\<exists>b' u'. (v, b', u') \<in> set (vb_spawned (greet b w u))"
      using ok u(5,7) by (simp add: workers_ok_def spawned_ok_def) blast
  qed (use ok b in \<open>auto simp: workers_ok_def spawned_ok_def u w_def greet_holder [OF u(1)]\<close>)
  moreover have "boots_ok P opt first (greet b w u)" by (rule greet_boots_ok [OF u(2,1)]) (use own in \<open>auto simp: u(7) same\<close>)
  moreover have "listeners_ok (greet b w u)" by (rule greet_listeners_ok [OF u(3,1) _ u(4)]) (auto simp: u(7))
  ultimately show ?thesis by (simp add: t workers_ok_def)
qed

lemma workers_ok_application:
  assumes ok: "workers_ok P opt first s" and b: "booting b s" "\<not> owned b s" "b = Adapter key"
    and own: "\<And>x. jm_get (vb_pendingAdapters s) key = Some x \<Longrightarrow> ab_application x = Some w"
  shows "workers_ok P opt first (greet b w s)"
proof -
  have "spawned_ok P opt first (greet b w s)"
  proof (rule spawned_ok_change [of _ _ _ s])
    fix w' c u'
    assume "holder c s = Some w'"
    then show "holder c (greet b w s) = Some w'" using booting_holder [OF b(1)] by (auto simp: greet_holder [OF b(1)])
  qed (use ok in \<open>auto simp: workers_ok_def spawned_ok_def\<close>)
  moreover have "boots_ok P opt first (greet b w s)" using ok b(2,3) own by (intro greet_boots_ok [OF _ b(1)]) (auto simp: workers_ok_def)
  moreover have "listeners_ok (greet b w s)" using ok booting_quiet [OF ok b(1)] b(3)
    by (intro greet_listeners_ok [OF _ b(1)]) (simp_all add: workers_ok_def)
  ultimately show ?thesis by (simp add: workers_ok_def)
qed

text \<open>A new boot.\<close>

lemma workers_ok_new_plain:
  assumes ok: "workers_ok P opt first s" and n: "jm_get (vb_pending s) url = None" "jm_get (vb_workers s) url = None" "allowed P opt url"
    and b: "pb_worker x = None"
  shows "workers_ok P opt first (s\<lparr>vb_pending := jm_set url x (vb_pending s)\<rparr>)" (is "workers_ok P opt first ?t")
proof -
  have h: "holder c ?t = holder c s" for c
    using n b by (cases c) (auto simp: holder_def split: option.split)
  from ok n show ?thesis unfolding workers_defs h by (auto split: if_splits)
qed

lemma workers_ok_new_adapter:
  assumes ok: "workers_ok P opt first s" and n: "jm_get (vb_pendingAdapters s) key = None" "jm_get (vb_adapters s) key = None"
    and b: "ab_worker x = None" "ab_application x = None \<Longrightarrow> allowed P opt (ab_url x)" "\<And>v. ab_application x = Some v \<Longrightarrow> v < first"
  shows "workers_ok P opt first (s\<lparr>vb_touch := k, vb_pendingAdapters := jm_set key x (vb_pendingAdapters s)\<rparr>)" (is "workers_ok P opt first ?t")
proof -
  have h: "holder c ?t = holder c s" for c
    using n b by (cases c) (auto simp: holder_def split: option.split)
  have q: "(w, L_boot key) \<notin> set (vb_listeners s)" for w using ok n(1) by (fastforce simp: workers_ok_def listeners_ok_def)
  from ok n b q show ?thesis unfolding workers_defs h by (auto split: if_splits)
qed

text \<open>A request that joins a boot.\<close>

lemma workers_ok_join_plain:
  assumes ok: "workers_ok P opt first s" and x: "jm_get (vb_pending s) url = Some x" "pb_worker y = pb_worker x"
  shows "workers_ok P opt first (s\<lparr>vb_pending := jm_set url y (vb_pending s)\<rparr>)" (is "workers_ok P opt first ?t")
proof -
  have h: "holder c ?t = holder c s" for c
    using x by (cases c) (auto simp: holder_def split: option.split)
  from ok x show ?thesis unfolding workers_defs h by (auto split: if_splits)
qed

lemma workers_ok_join_adapter:
  assumes ok: "workers_ok P opt first s" and x: "jm_get (vb_pendingAdapters s) key = Some x" "ab_worker y = ab_worker x"
    "ab_application y = ab_application x" "ab_url y = ab_url x"
  shows "workers_ok P opt first (s\<lparr>vb_pendingAdapters := jm_set key y (vb_pendingAdapters s)\<rparr>)" (is "workers_ok P opt first ?t")
proof -
  have h: "holder c ?t = holder c s" for c
    using x by (cases c) (auto simp: holder_def split: option.split)
  have q: "(w, L_boot key) \<in> set (vb_listeners s) \<Longrightarrow> ab_worker x = Some w" for w using ok x(1) by (fastforce simp: workers_ok_def listeners_ok_def)
  from ok x q show ?thesis unfolding workers_defs h by (auto split: if_splits)
qed

section \<open>Requests\<close>

lemma spawn_ok:
  "workers_ok P opt first s \<Longrightarrow> booting b s \<Longrightarrow> allowed P opt url \<Longrightarrow>
     (\<And>key x. b = Adapter key \<Longrightarrow> jm_get (vb_pendingAdapters s) key = Some x \<Longrightarrow> ab_application x = None) \<Longrightarrow>
     workers_ok P opt first (spawnWorker P b url s)"
  by (simp add: spawnWorker_def workers_ok_construct)

lemma boot_url_booting:
  assumes "workers_ok P opt first s" "boot_url b s = Some url"
  shows "booting b s \<and> allowed P opt url \<and> (\<forall>key x. b = Adapter key \<longrightarrow> jm_get (vb_pendingAdapters s) key = Some x \<longrightarrow> ab_application x = None)"
  using assms by (cases b) (auto simp: boot_url_def booting_def workers_ok_def boots_ok_def split: option.splits if_splits)

lemma script_fetched_ok:
  assumes ok: "workers_ok P opt first s"
  shows "workers_ok P opt first (script_fetched P b k s)"
proof (cases "boot_url b s")
  case (Some url)
  note b = boot_url_booting [OF ok Some]
  have "workers_ok P opt first (fail_boot b s)"
    by (rule workers_ok_fail [OF ok]) (use booting_holder booting_quiet [OF ok] b in auto)
  with b Some workers_ok_construct [OF ok] show ?thesis by (simp add: script_fetched_def)
qed (use ok in \<open>simp add: script_fetched_def\<close>)

lemma signal_workers [simp]: "workers_ok P opt first (signal v r s) = workers_ok P opt first s"
  "workers_ok P opt first (signal_all v rs s) = workers_ok P opt first s" "workers_ok P opt first (s\<lparr>vb_uncaught := x\<rparr>) = workers_ok P opt first s"
  "workers_ok P opt first (s\<lparr>vb_hooked := y\<rparr>) = workers_ok P opt first s" "workers_ok P opt first (s\<lparr>vb_memory := z\<rparr>) = workers_ok P opt first s"
  by (rule workers_ok_frame_iff; simp add: signal_def signal_all_def)+

lemma plain_arrives_ok:
  assumes ok: "workers_ok P opt first s" and u: "allowed P opt url"
  shows "workers_ok P opt first (plain_arrives P url d ready s)"
proof (cases "jm_has (vb_workers s) url")
  case False
  then have w: "jm_get (vb_workers s) url = None" by (simp add: jm_has_get)
  show ?thesis
  proof (cases "jm_get (vb_pending s) url")
    case None
    let ?x = "\<lparr>pb_buffer = er_buffer d, pb_offset = er_offset d, pb_ready = [ready], pb_worker = None\<rparr>"
    have "workers_ok P opt first (spawnWorker P (Plain url) url (s\<lparr>vb_pending := jm_set url ?x (vb_pending s)\<rparr>))"
      by (rule spawn_ok [OF workers_ok_new_plain [OF ok None w u] _ u]) (simp_all add: booting_def w)
    with False None show ?thesis by (simp add: plain_arrives_def)
  next
    case (Some b)
    with False workers_ok_join_plain [OF ok Some] show ?thesis by (simp add: plain_arrives_def)
  qed
qed (use ok in \<open>simp add: plain_arrives_def\<close>)

lemma adapter_arrives_ok:
  assumes ok: "workers_ok P opt first s" and m: "maps_ok s" and u: "application = None \<Longrightarrow> allowed P opt (ar_url q)"
    "\<And>v. application = Some v \<Longrightarrow> v < first"
  shows "workers_ok P opt first (adapter_arrives P opt key application q s)"
proof (cases "jm_has (vb_adapters s) key")
  case True
  have "same_workers s (finish_request opt key q s)" using finish_request_op [OF m] by (simp add: adapter_op_def)
  then show ?thesis using True ok by (simp add: adapter_arrives_def workers_ok_same)
next
  case False
  then have a: "jm_get (vb_adapters s) key = None" by (simp add: jm_has_get)
  show ?thesis
  proof (cases "jm_get (vb_pendingAdapters s) key")
    case None
    define x where "x = \<lparr>ab_url = ar_url q, ab_application = application, ab_region = \<lparr>tr_target = ar_target q, tr_offset = ar_offset q,
      tr_buffer = ar_buffer q, tr_lastUsed = Suc (vb_touch s)\<rparr>, ab_ready = ar_ready q, ab_joined = [], ab_worker = None\<rparr>"
    define t where "t = s\<lparr>vb_touch := Suc (vb_touch s), vb_pendingAdapters := jm_set key x (vb_pendingAdapters s)\<rparr>"
    have t: "workers_ok P opt first t" unfolding t_def by (rule workers_ok_new_adapter [OF ok None a]) (use u in \<open>simp_all add: x_def\<close>)
    have b: "booting (Adapter key) t" by (simp add: booting_def t_def x_def a)
    have "adapter_arrives P opt key application q s
        = (case application of Some w \<Rightarrow> greet (Adapter key) w t | None \<Rightarrow> spawnWorker P (Adapter key) (ar_url q) t)"
      using False None by (simp add: adapter_arrives_def boot_adapter_def t_def x_def Let_def greet_def split: option.split)
    moreover have "workers_ok P opt first (greet (Adapter key) w t)" if "application = Some w" for w
      by (rule workers_ok_application [OF t b]) (use that in \<open>auto simp: owned_def t_def x_def\<close>)
    moreover have "workers_ok P opt first (spawnWorker P (Adapter key) (ar_url q) t)" if "application = None"
      by (rule spawn_ok [OF t b u(1) [OF that]]) (use that in \<open>auto simp: t_def x_def\<close>)
    ultimately show ?thesis by (cases application) simp_all
  next
    case (Some b)
    with False workers_ok_join_adapter [OF ok Some] show ?thesis by (simp add: adapter_arrives_def)
  qed
qed

lemma requested_application:
  "requested_target P opt location = Inr (Some (t, Some v)) \<Longrightarrow> bo_irohAdapterWorker opt = Some v"
  by (cases "the (bo_resolveAdapterTarget opt) location")
    (auto simp: requested_target_def iroh_target_def split: if_splits option.splits sum.splits)

lemma ensure_adapter_ok:
  "workers_ok P opt first s \<Longrightarrow> maps_ok s \<Longrightarrow> (\<And>v. bo_irohAdapterWorker opt = Some v \<Longrightarrow> v < first) \<Longrightarrow>
     workers_ok P opt first (ensure_adapter P opt d ready s)"
  by (auto simp: ensure_adapter_def adapter_url_def allowed_def dest!: requested_application intro!: adapter_arrives_ok split: option.split sum.split)

lemma on_ensure_ok:
  "workers_ok P opt first s \<Longrightarrow> maps_ok s \<Longrightarrow> (\<And>v. bo_irohAdapterWorker opt = Some v \<Longrightarrow> v < first) \<Longrightarrow>
     workers_ok P opt first (on_ensure P opt d s)"
  by (auto simp: on_ensure_def ensure_adapter_ok allowed_def intro!: plain_arrives_ok split: option.split sum.split)

section \<open>Messages\<close>

lemma hear_plain_ok:
  assumes ok: "workers_ok P opt first s" and l: "(w, L_plain url) \<in> set (vb_listeners s)"
  shows "workers_ok P opt first (hear_plain url w m s)"
proof (cases m)
  case Vgi_ready
  have hw: "holder (Plain url) s = Some w" using ok l by (simp add: workers_ok_def listeners_ok_def)
  define t where "t = s\<lparr>vb_workers := jm_set url w (vb_workers s), vb_pending := jm_delete url (vb_pending s)\<rparr>"
  have p: "jm_get (vb_pending s) url = Some b \<Longrightarrow> pb_worker b = Some w" for b
    using hw ok by (auto simp: holder_def workers_ok_def boots_ok_def)
  have h: "holder c t = holder c s" for c
    using hw by (cases c) (auto simp: t_def holder_def split: option.split)
  have "workers_ok P opt first t" using ok unfolding workers_defs h by (auto simp: t_def)
  moreover have "t = s\<lparr>vb_workers := jm_set url w (vb_workers s)\<rparr>" if "jm_get (vb_pending s) url = None"
    using jm_delete_fresh [OF that] by (simp add: t_def)
  ultimately show ?thesis using p Vgi_ready by (auto simp: hear_plain_def t_def Let_def split: option.split)
next
  case Vgi_error
  define t where "t = terminate w (unlisten w (L_plain url) s)"
  have hw: "holder (Plain url) s = Some w" "\<exists>u. (w, Plain url, u) \<in> set (vb_spawned s)"
    using ok l by (simp_all add: workers_ok_def listeners_ok_def)
  have h: "holder c t = holder c s" for c by (rule holder_frame) (simp_all add: t_def terminate_def unlisten_def)
  have t: "workers_ok P opt first t" using ok hw unfolding workers_defs h by (auto simp: t_def terminate_def unlisten_def)
  have "workers_ok P opt first (fail_boot (Plain url) t)"
  proof (rule workers_ok_fail [OF t])
    show "\<And>v. holder (Plain url) t = Some v \<Longrightarrow> v \<in> set (vb_terminated t)" using hw(1) h by (simp add: t_def terminate_def)
    show "(v, boot_listener (Plain url)) \<notin> set (vb_listeners t)" for v
      using ok hw(1) by (auto simp: t_def terminate_def unlisten_def workers_ok_def listeners_ok_def)
  qed
  with t Vgi_error show ?thesis by (simp add: hear_plain_def t_def Let_def fail_boot_def split: option.split)
qed (use ok in \<open>simp_all add: hear_plain_def\<close>)

lemma hear_boot_ok:
  assumes ok: "workers_ok P opt first s" and maps: "maps_ok s" and l: "(w, L_boot key) \<in> set (vb_listeners s)"
  shows "workers_ok P opt first (hear_boot opt key w m s)"
proof -
  obtain b where b: "jm_get (vb_pendingAdapters s) key = Some b" "ab_worker b = Some w"
    using ok l unfolding workers_ok_def listeners_ok_def by blast
  then have "jm_get (vb_adapters s) key = None" "ab_application b = None \<Longrightarrow> \<exists>u. (w, Adapter key, u) \<in> set (vb_spawned s)"
    "\<And>v. ab_application b = Some v \<Longrightarrow> v = w \<and> w < first"
    using ok unfolding workers_ok_def boots_ok_def by (blast, blast, metis)
  note b = b this
  have only: "v = w" if "(v, L_boot key) \<in> set (vb_listeners s)" for v
    using ok that b by (fastforce simp: workers_ok_def listeners_ok_def)
  show ?thesis
  proof (cases m)
    case Vgi_ready
    define a where "a = \<lparr>ae_key = key, ae_url = ab_url b, ae_worker = w, ae_regions = [(tr_target (ab_region b), ab_region b)],
      ae_queue = [], ae_registering = None\<rparr>"
    define t where "t = set_adapter a ((listen w L_hook (unlisten w (L_boot key) s))
      \<lparr>vb_pendingAdapters := jm_delete key (vb_pendingAdapters s)\<rparr>)"
    have h: "holder c t = holder c s" for c
      using b by (cases c) (auto simp: t_def holder_def set_adapter_def listen_def unlisten_def a_def split: option.split)
    have "workers_ok P opt first t" using ok only unfolding workers_defs h
      by (auto simp: t_def set_adapter_def listen_def unlisten_def a_def split: if_splits)
    moreover have "maps_ok t" "jm_has (vb_adapters t) key" using maps b(3)
      by (auto simp: t_def maps_ok_def set_adapter_def listen_def unlisten_def a_def jm_has_get)
    then have "same_workers (signal 1 (ab_ready b) t) (fold (finish_request opt key) (ab_joined b) (signal 1 (ab_ready b) t))"
      using finish_requests_op [of "signal 1 (ab_ready b) t" key opt "ab_joined b"] by (simp add: adapter_op_def)
    moreover have "hear_boot opt key w m s = fold (finish_request opt key) (ab_joined b) (signal 1 (ab_ready b) t)"
      using b(1) Vgi_ready by (simp add: hear_boot_def a_def t_def Let_def listen_def unlisten_def)
    ultimately show ?thesis using workers_ok_same by simp
  next
    case Vgi_error
    define t where "t = (if ab_application b = None then terminate w (unlisten w (L_boot key) s) else unlisten w (L_boot key) s)"
    have h: "holder c t = holder c s" for c by (rule holder_frame) (simp_all add: t_def terminate_def unlisten_def)
    have sp: "ab_application b = None \<Longrightarrow> \<exists>c u. (w, c, u) \<in> set (vb_spawned s)" using b(4) by blast
    have t: "workers_ok P opt first t" using ok b(1-3) only sp unfolding workers_defs h by (auto simp: t_def terminate_def unlisten_def)
    have "workers_ok P opt first (fail_boot (Adapter key) t)"
    proof (rule workers_ok_fail [OF t])
      fix v u
      assume v: "(v, Adapter key, u) \<in> set (vb_spawned t)" "holder (Adapter key) t = Some v"
      with b h have "v = w" by (simp add: holder_def)
      moreover have "first \<le> v" using t v(1) unfolding workers_ok_def spawned_ok_def by blast
      ultimately show "v \<in> set (vb_terminated t)" using b(5) by (cases "ab_application b") (auto simp: t_def terminate_def)
    next
      show "(v, boot_listener (Adapter key)) \<notin> set (vb_listeners t)" for v using only [of v] by (auto simp: t_def terminate_def unlisten_def)
    qed
    with b(1) Vgi_error show ?thesis by (simp add: hear_boot_def t_def Let_def fail_boot_def)
  qed (use ok b in \<open>simp_all add: hear_boot_def\<close>)
qed

lemma hear_ok:
  assumes ok: "workers_ok P opt first s" and m: "maps_ok s"
  shows "workers_ok P opt first (hear opt w msg l s)"
proof -
  have "workers_ok P opt first (end_operation opt key n k s)" for key n k
    using workers_ok_same [OF _ ok] end_operation_op [OF m] unfolding adapter_op_def by blast
  then show ?thesis using hear_plain_ok [OF ok] hear_boot_ok [OF ok m] ok
    by (auto simp: hear_def split: listener.split worker_says.split)
qed

lemma hears_ok: "workers_ok P opt first s \<Longrightarrow> maps_ok s \<Longrightarrow> workers_ok P opt first (fold (hear opt w m) ls s)"
  by (induction ls arbitrary: s) (simp_all add: hear_ok hear_account)

lemma bridge_next_workers:
  assumes ok: "workers_ok P opt first s" and m: "maps_ok s" and app: "\<And>v. bo_irohAdapterWorker opt = Some v \<Longrightarrow> v < first"
  shows "workers_ok P opt first (bridge_next P opt e s)"
proof (cases e)
  case (B_ensure d)
  then show ?thesis using on_ensure_ok [OF ok m app] by simp
next
  case (B_timeout key n)
  then show ?thesis using workers_ok_same [OF _ ok] end_operation_op [OF m, of opt key n False]
    by (simp add: registration_timeout_def adapter_op_def)
qed (use ok m in \<open>simp_all add: script_fetched_ok on_worker_message_def hears_ok\<close>)

section \<open>Executions\<close>

definition bridge_inv :: "bridge_platform \<Rightarrow> bridge_options \<Rightarrow> nat \<Rightarrow> bridge \<Rightarrow> bool" where
  "bridge_inv P opt first s \<longleftrightarrow> maps_ok s \<and> workers_ok P opt first s \<and> adapters_ok opt s
     \<and> 0 < maxTargetsPerAdapter opt \<and> (\<forall>v. bo_irohAdapterWorker opt = Some v \<longrightarrow> v < first)"

interpretation vgi: invariant_machine "bridge_step P opt" "bridge_inv P opt first" for P opt first
  by unfold_locales (auto simp: bridge_inv_def bridge_step_def bridge_next_account bridge_next_workers bridge_next_regions)

lemma bridge_inv_start:
  "installVgiWebWorkerBridge opt first mem = Inr s \<Longrightarrow> (\<forall>v. bo_irohAdapterWorker opt = Some v \<longrightarrow> v < first) \<Longrightarrow> bridge_inv P opt first s"
  by (auto simp: installVgiWebWorkerBridge_def bridge_inv_def workers_ok_start maps_ok_def adapters_ok_def split: if_splits)
    (simp_all add: bridge_start_def)

lemma makeResolveWorkerUrl_origin:
  assumes "makeResolveWorkerUrl P allow location = Some u"
  shows "\<exists>origin. bp_URL P location = Some (u, origin) \<and> (origin = bp_origin P \<or> allow = Some AnyOrigin
    \<or> (\<exists>os. allow = Some (Origins os) \<and> origin \<in> set os))"
proof (cases "bp_URL P location")
  case (Some ho)
  obtain href origin where ho: "ho = (href, origin)" by force
  show ?thesis
  proof (cases "origin = bp_origin P")
    case False
    with assms Some ho show ?thesis
      by (cases allow) (auto simp: makeResolveWorkerUrl_def split: allow_origins.splits if_splits)
  qed (use assms Some ho in \<open>simp add: makeResolveWorkerUrl_def\<close>)
qed (use assms in \<open>simp add: makeResolveWorkerUrl_def\<close>)

lemma account_start: "installVgiWebWorkerBridge opt first mem = Inr s \<Longrightarrow> account s = {#} \<and> maps_ok s"
  by (auto simp: installVgiWebWorkerBridge_def bridge_start_def account_defs maps_ok_def split: if_splits)

definition at_rest :: "bridge \<Rightarrow> bool" where
  "at_rest s \<longleftrightarrow> vb_pending s = [] \<and> vb_pendingAdapters s = [] \<and> (\<forall>(k, a) \<in> set (vb_adapters s). ae_queue a = [] \<and> ae_registering a = None)"

lemma at_rest_waiting: "at_rest s \<Longrightarrow> waiting s = {#}"
proof -
  assume r: "at_rest s"
  have "jm_total entry_waiting m = {#}" if "\<forall>(k, a) \<in> set m. ae_queue a = [] \<and> ae_registering a = None" for m :: "(string, adapter_entry) jsmap"
    using that by (induction m) (auto simp: jm_total_def entry_waiting_def)
  with r show ?thesis by (simp add: at_rest_def waiting_def)
qed

text \<open>C16: Each cell an engine thread blocks on is answered once: after any sequence of events the cells answered, those whose request is still
  waiting and those whose request was lost to an exception of the application's resolver are together the cells of the
  requests received, and when the bridge is at rest none is waiting.\<close>

theorem bridge_answers_every_request:
  assumes "installVgiWebWorkerBridge opt first mem = Inr s" "exec (bridge_step P opt) s es t"
  shows "answered t + mset (vb_uncaught t) + waiting t = (\<Sum>e\<leftarrow>es. event_cell e) \<and> (at_rest t \<longrightarrow> waiting t = {#})"
  using bridge_account [OF assms(2)] account_start [OF assms(1)] at_rest_waiting by (auto simp: account_def)

text \<open>C17: A statement of SQL cannot start a script the page has not allowed: every worker the bridge starts runs a script the resolver has
  returned, by default one of the page's own origin or of an origin listed; for each plain URL and each adapter key at most one
  worker is alive; and the application's own worker is never terminated.\<close>

theorem bridge_starts_only_allowed_workers:
  assumes inst: "installVgiWebWorkerBridge opt first mem = Inr s" and run: "exec (bridge_step P opt) s es t"
    and app: "\<forall>v. bo_irohAdapterWorker opt = Some v \<longrightarrow> v < first"
  shows "(\<forall>w b u. (w, b, u) \<in> set (vb_spawned t) \<longrightarrow> (\<exists>location. resolveWorkerUrl P opt location = Inr (Some u)))
    \<and> (\<forall>w b u. bo_resolveWorkerUrl opt = None \<and> (w, b, u) \<in> set (vb_spawned t) \<longrightarrow> (\<exists>location origin. bp_URL P location = Some (u, origin)
         \<and> (origin = bp_origin P \<or> bo_allowRemoteOrigins opt = Some AnyOrigin
            \<or> (\<exists>os. bo_allowRemoteOrigins opt = Some (Origins os) \<and> origin \<in> set os))))
    \<and> (\<forall>b w w' u u'. (w, b, u) \<in> set (vb_spawned t) \<and> (w', b, u') \<in> set (vb_spawned t)
         \<and> w \<notin> set (vb_terminated t) \<and> w' \<notin> set (vb_terminated t) \<longrightarrow> w = w')
    \<and> (\<forall>v. bo_irohAdapterWorker opt = Some v \<longrightarrow> v \<notin> set (vb_terminated t))"
proof -
  have ok: "spawned_ok P opt first t"
    using vgi.inv_exec [OF run bridge_inv_start [OF inst app]] by (simp add: bridge_inv_def workers_ok_def)
  have a: "allowed P opt u" if "(w, b, u) \<in> set (vb_spawned t)" for w b u using ok that unfolding spawned_ok_def by blast
  have "\<exists>location origin. bp_URL P location = Some (u, origin) \<and> (origin = bp_origin P \<or> bo_allowRemoteOrigins opt = Some AnyOrigin
      \<or> (\<exists>os. bo_allowRemoteOrigins opt = Some (Origins os) \<and> origin \<in> set os))"
    if "bo_resolveWorkerUrl opt = None" "(w, b, u) \<in> set (vb_spawned t)" for w b u
    using a [OF that(2)] that(1) makeResolveWorkerUrl_origin by (fastforce simp: allowed_def resolveWorkerUrl_def)
  moreover have "w = w'" if "(w, b, u) \<in> set (vb_spawned t)" "(w', b, u') \<in> set (vb_spawned t)"
    "w \<notin> set (vb_terminated t)" "w' \<notin> set (vb_terminated t)" for b w w' u u'
    using ok that unfolding spawned_ok_def by (metis option.inject)
  moreover have "v \<notin> set (vb_terminated t)" if "bo_irohAdapterWorker opt = Some v" for v
    using ok app that unfolding spawned_ok_def by (metis not_less)
  ultimately show ?thesis using a unfolding allowed_def by blast
qed

text \<open>C18: The regions an adapter serves stay within the limit, no two of them are the same memory, the one being registered is apart from
  all of them and has a place; and a region that a step takes away from an adapter was idle when it did.\<close>

theorem adapter_regions_stay_apart:
  assumes inst: "installVgiWebWorkerBridge opt first mem = Inr s" and run: "exec (bridge_step P opt) s es t"
    and a: "jm_get (vb_adapters t) key = Some a" and app: "\<forall>v. bo_irohAdapterWorker opt = Some v \<longrightarrow> v < first"
  shows "int (jm_size (ae_regions a)) \<le> maxTargetsPerAdapter opt
    \<and> (\<forall>x y r r'. jm_get (ae_regions a) x = Some r \<and> jm_get (ae_regions a) y = Some r' \<and> same_place r r' \<longrightarrow> x = y)
    \<and> (\<forall>q n r. ae_registering a = Some (q, n, r) \<longrightarrow> int (jm_size (ae_regions a)) < maxTargetsPerAdapter opt
         \<and> (\<forall>x r'. jm_get (ae_regions a) x = Some r' \<longrightarrow> \<not> same_place r r'))
    \<and> (\<forall>e x r. jm_get (ae_regions a) x = Some r \<and> \<not> regionIsIdle (vb_memory t) r \<longrightarrow>
         (\<exists>a' r'. jm_get (vb_adapters (bridge_next P opt e t)) key = Some a' \<and> jm_get (ae_regions a') x = Some r' \<and> same_place r' r))"
proof -
  have inv: "bridge_inv P opt first t" by (rule vgi.inv_exec [OF run bridge_inv_start [OF inst app]])
  then have e: "entry_ok opt a" using a by (simp add: bridge_inv_def adapters_ok_def)
  then have t: "tr_target r = x" if "jm_get (ae_regions a) x = Some r" for x r using that by (simp add: entry_ok_def regions_ok_def)
  have "kept t (bridge_next P opt ev t)" for ev using inv bridge_next_regions by (simp add: bridge_inv_def)
  then have "\<exists>a' r'. jm_get (vb_adapters (bridge_next P opt ev t)) key = Some a' \<and> jm_get (ae_regions a') x = Some r' \<and> same_place r' r"
    if "jm_get (ae_regions a) x = Some r" "\<not> regionIsIdle (vb_memory t) r" for ev x r
    using that a t [OF that(1)] unfolding kept_def by metis
  moreover have "room_for (maxTargetsPerAdapter opt) r (ae_regions a)" if "ae_registering a = Some (q, n, r)" for q n r
    using e that by (simp add: entry_ok_def)
  ultimately show ?thesis using e unfolding entry_ok_def regions_ok_def room_for_def by fastforce
qed

text \<open>The listener of a plain worker outlives its boot: a \<open>vgi-error\<close> after \<open>vgi-ready\<close> terminates the worker, but its URL stays among the
  workers that run, and every later request for it is acknowledged though nobody serves the channel.\<close>

theorem dead_worker_acknowledged:
  assumes inst: "installVgiWebWorkerBridge opt first mem = Inr s" and run: "exec (bridge_step P opt) s es t"
    and app: "\<forall>v. bo_irohAdapterWorker opt = Some v \<longrightarrow> v < first"
    and w: "jm_get (vb_workers t) url = Some w" "vb_listeners t = [(w, L_plain url)]"
    and d: "er_type d = ''vgi-ensure-worker''" "er_readySab d = Some ready" "\<not> iroh_request (er_location d)"
      "bo_resolveAdapterTarget opt = None" "resolveWorkerUrl P opt (er_location d) = Inr (Some url)" "url \<noteq> []"
  shows "\<exists>u. exec (bridge_step P opt) t [B_message w Vgi_error, B_ensure d] u \<and> w \<in> set (vb_terminated u) \<and> vb_signals u = vb_signals t @ [(ready, 1)]"
proof -
  have "boots_ok P opt first t"
    using vgi.inv_exec [OF run bridge_inv_start [OF inst app]] by (simp add: bridge_inv_def workers_ok_def)
  with w(1) have "jm_get (vb_pending t) url = None" by (cases "jm_get (vb_pending t) url") (auto simp: boots_ok_def)
  then have h: "bridge_next P opt (B_message w Vgi_error) t = terminate w (unlisten w (L_plain url) t)"
    using w(2) by (simp add: on_worker_message_def hear_def hear_plain_def Let_def terminate_def unlisten_def)
  have "bridge_next P opt (B_ensure d) (terminate w (unlisten w (L_plain url) t)) = signal 1 ready (terminate w (unlisten w (L_plain url) t))"
    using d w(1) by (simp add: on_ensure_def plain_arrives_def jm_has_get terminate_def unlisten_def)
  moreover have "exec (bridge_step P opt) t [B_message w Vgi_error, B_ensure d]
      (bridge_next P opt (B_ensure d) (bridge_next P opt (B_message w Vgi_error) t))"
    by (auto simp: exec_Cons_iff bridge_step_def simp del: bridge_next.simps)
  ultimately have "exec (bridge_step P opt) t [B_message w Vgi_error, B_ensure d] (signal 1 ready (terminate w (unlisten w (L_plain url) t)))"
    by (simp only: h)
  then show ?thesis by (intro exI conjI) (auto simp: signal_def terminate_def unlisten_def)
qed

section \<open>An example\<close>

text \<open>A page with a script of its own and one on another origin that it allows, and an adapter with room for one target.\<close>

definition example_platform :: bridge_platform where
  "example_platform = \<lparr>bp_URL = (\<lambda>l. if l = ''a.js'' then Some (''a.js'', ''page'') else if l = ''r.js'' then Some (''r.js'', ''cdn'')
       else if l = ''x.js'' then Some (''x.js'', ''evil'') else None),
     bp_href = ''page/'', bp_origin = ''page'', bp_workerThrows = (\<lambda>_. False)\<rparr>"

definition plain_options :: bridge_options where
  "plain_options = \<lparr>bo_resolveWorkerUrl = None, bo_resolveAdapterTarget = None, bo_irohAdapterWorker = Some 3, bo_resolveIrohTarget = None,
     bo_maxTargetsPerAdapter = None, bo_allowRemoteOrigins = Some (Origins [''cdn''])\<rparr>"

definition adapter_options :: bridge_options where
  "adapter_options = plain_options\<lparr>bo_resolveAdapterTarget := Some (\<lambda>l. Inr (Some \<lparr>at_adapterUrl = ''a.js'', at_adapterKey = ''k'', at_canonicalTarget = l\<rparr>)),
     bo_maxTargetsPerAdapter := Some 1\<rparr>"

definition idle_memory :: "nat \<Rightarrow> int list" where
  "idle_memory b = [0, 0, 1, 0, 64, 64] @ replicate 11 0"

definition asks :: "string \<Rightarrow> nat \<Rightarrow> nat \<Rightarrow> bridge_event" where
  "asks location buffer ready = B_ensure \<lparr>er_type = ''vgi-ensure-worker'', er_location = location, er_offset = Some 0,
     er_buffer = Some buffer, er_readySab = Some ready\<rparr>"

definition plain_events :: "bridge_event list" where
  "plain_events = [asks ''a.js'' 0 7, asks ''a.js'' 0 8, asks ''x.js'' 0 9, asks ''r.js'' 0 10, B_message 5 Vgi_ready,
     B_fetched (Plain ''r.js'') True]"

definition adapter_events :: "bridge_event list" where
  "adapter_events = [asks ''t1'' 0 7, asks ''t2'' 1 8, B_message 5 Vgi_ready, B_message 5 (Vgi_target_ready 1)]"

definition bridge_run :: "bridge_platform \<Rightarrow> bridge_options \<Rightarrow> bridge_event list \<Rightarrow> bridge \<Rightarrow> bridge" where
  "bridge_run P opt es s = fold (bridge_next P opt) es s"

lemma bridge_run_exec: "exec (bridge_step P opt) s es (bridge_run P opt es s)"
  by (induction es arbitrary: s) (auto simp: bridge_run_def bridge_step_def intro: exec.intros)

lemma example_install:
  "installVgiWebWorkerBridge plain_options 5 idle_memory = Inr (bridge_start 5 idle_memory)"
  "installVgiWebWorkerBridge adapter_options 5 idle_memory = Inr (bridge_start 5 idle_memory)"
  by (simp_all add: installVgiWebWorkerBridge_def maxTargetsPerAdapter_def plain_options_def adapter_options_def isSafeInteger_def MAX_SAFE_INTEGER_def)

lemma example_application:
  "\<forall>v. bo_irohAdapterWorker plain_options = Some v \<longrightarrow> v < 5" "\<forall>v. bo_irohAdapterWorker adapter_options = Some v \<longrightarrow> v < 5"
  by (simp_all add: plain_options_def adapter_options_def)

theorem bridge_answers_every_request_witness:
  "answered (bridge_run example_platform plain_options plain_events (bridge_start 5 idle_memory))
     + mset (vb_uncaught (bridge_run example_platform plain_options plain_events (bridge_start 5 idle_memory)))
     + waiting (bridge_run example_platform plain_options plain_events (bridge_start 5 idle_memory)) = {#7, 8, 9, 10#}"
proof -
  have "(\<Sum>e\<leftarrow>plain_events. event_cell e) = {#7, 8, 9, 10#}" by (simp add: plain_events_def asks_def request_cell_def)
  with bridge_answers_every_request [OF example_install(1) bridge_run_exec] show ?thesis by simp
qed

theorem bridge_starts_only_allowed_workers_witness:
  "\<exists>t. exec (bridge_step example_platform plain_options) (bridge_start 5 idle_memory) plain_events t
     \<and> vb_spawned t = [(6, Plain ''r.js'', ''r.js''), (5, Plain ''a.js'', ''a.js'')]
     \<and> (\<exists>location. resolveWorkerUrl example_platform plain_options location = Inr (Some ''r.js''))"
proof -
  let ?t = "bridge_run example_platform plain_options plain_events (bridge_start 5 idle_memory)"
  have t: "vb_spawned ?t = [(6, Plain ''r.js'', ''r.js''), (5, Plain ''a.js'', ''a.js'')]" by code_simp
  note e = bridge_run_exec [of example_platform plain_options "bridge_start 5 idle_memory" plain_events]
  from conjunct1 [OF bridge_starts_only_allowed_workers [OF example_install(1) e example_application(1)]] t
  have "\<exists>location. resolveWorkerUrl example_platform plain_options location = Inr (Some ''r.js'')" by simp
  with e t show ?thesis by blast
qed

theorem adapter_regions_stay_apart_witness:
  "\<exists>t a. exec (bridge_step example_platform adapter_options) (bridge_start 5 idle_memory) adapter_events t
     \<and> jm_get (vb_adapters t) ''k'' = Some a \<and> jm_keys (ae_regions a) = [''t2''] \<and> int (jm_size (ae_regions a)) \<le> 1"
proof -
  let ?t = "bridge_run example_platform adapter_options adapter_events (bridge_start 5 idle_memory)"
  have "map_option (\<lambda>a. jm_keys (ae_regions a)) (jm_get (vb_adapters ?t) ''k'') = Some [''t2'']" by code_simp
  then obtain a where a: "jm_get (vb_adapters ?t) ''k'' = Some a" "jm_keys (ae_regions a) = [''t2'']" by auto
  note e = bridge_run_exec [of example_platform adapter_options "bridge_start 5 idle_memory" adapter_events]
  have "maxTargetsPerAdapter adapter_options = 1" by (simp add: maxTargetsPerAdapter_def adapter_options_def)
  with adapter_regions_stay_apart [OF example_install(2) e a(1) example_application(2)] a e show ?thesis by auto
qed

theorem dead_worker_acknowledged_witness:
  "\<exists>t u. exec (bridge_step example_platform plain_options) (bridge_start 5 idle_memory) [asks ''a.js'' 0 7, B_message 5 Vgi_ready] t
     \<and> exec (bridge_step example_platform plain_options) t [B_message 5 Vgi_error, asks ''a.js'' 0 8] u
     \<and> 5 \<in> set (vb_terminated u) \<and> vb_signals u = [(7, 1), (8, 1)]"
proof -
  let ?t = "bridge_run example_platform plain_options [asks ''a.js'' 0 7, B_message 5 Vgi_ready] (bridge_start 5 idle_memory)"
  have t: "jm_get (vb_workers ?t) ''a.js'' = Some 5" "vb_listeners ?t = [(5, L_plain ''a.js'')]" "vb_signals ?t = [(7, 1)]"
    by code_simp+
  define d where "d = \<lparr>er_type = ''vgi-ensure-worker'', er_location = ''a.js'', er_offset = Some 0, er_buffer = Some 0, er_readySab = Some 8\<rparr>"
  have d: "er_type d = ''vgi-ensure-worker''" "er_readySab d = Some 8" "\<not> iroh_request (er_location d)"
    "bo_resolveAdapterTarget plain_options = None" "resolveWorkerUrl example_platform plain_options (er_location d) = Inr (Some ''a.js'')" "''a.js'' \<noteq> []"
    unfolding d_def by code_simp+
  note e = bridge_run_exec [of example_platform plain_options "bridge_start 5 idle_memory" "[asks ''a.js'' 0 7, B_message 5 Vgi_ready]"]
  from dead_worker_acknowledged [OF example_install(1) e example_application(1) t(1,2) d] e t(3)
  show ?thesis unfolding asks_def d_def by auto
qed

end
