(* ===== verification/Hb_OAuth.thy ===== *)
theory Hb_OAuth
  imports Hb_HttpFetch
begin

text \<open>
  The two halves of an interactive login: \<open>duckdb_wasm_open_auth_url\<close> and its neighbours in \<open>lib/js-stubs.js\<close>, which block an engine
  thread on a shared buffer, and \<open>vgi/oauth-bridge.ts\<close>, which opens a window on the page and writes the outcome into the buffer.
  The windows, the channel \<open>vgi-oauth\<close> and the timers are events. A character stands for one byte of its encoding, as in
  \<open>Hb_Wasm\<close>.
\<close>

section \<open>The shared buffer\<close>

definition SAB_BYTES :: nat where "SAB_BYTES = 8192"

definition int32_bytes :: "int \<Rightarrow> byte list" where
  "int32_bytes i = le_bytes 4 (nat (i mod 2 ^ 32))"

definition int32_value :: "byte list \<Rightarrow> int" where
  "int32_value bs = (let n = int (le_value bs) in if n < 2 ^ 31 then n else n - 2 ^ 32)"

definition sab_flag :: "byte list \<Rightarrow> int" where
  "sab_flag sab = int32_value (subarray 0 4 sab)"

definition store_flag :: "int \<Rightarrow> byte list \<Rightarrow> byte list" where
  "store_flag v sab = put 0 (int32_bytes v) sab"

text \<open>\<open>writeSab\<close>: a payload that does not fit is cut off.\<close>

definition writeSab :: "int \<Rightarrow> string \<Rightarrow> byte list \<Rightarrow> byte list" where
  "writeSab flag payload sab =
     (let encoded = text_encode payload; maxBytes = length sab - 8
      in store_flag flag
        (if length encoded > maxBytes then put 4 (int32_bytes (int maxBytes)) (put 8 (take maxBytes encoded) sab)
         else put 8 encoded (put 4 (int32_bytes (int (length encoded))) sab)))"

text \<open>What the engine's thread makes of the buffer once the flag is set: the bytes of the code, or nothing with an error.\<close>

definition read_outcome :: "string \<Rightarrow> byte list \<Rightarrow> byte list option \<times> string" where
  "read_outcome err sab =
     (let len = int32_value (subarray 4 8 sab); bytes = subarray 8 (8 + nat len) sab
      in if len \<le> 0 then (None, err)
         else if sab_flag sab = -1 then (None, map (\<lambda>b. char_of (unat b)) bytes)
         else (Some bytes, err))"

lemma length_put: "at + length xs \<le> length out \<Longrightarrow> length (put at xs out) = length out"
  by (simp add: put_def)

lemma subarray_put: "at + length xs \<le> length out \<Longrightarrow> subarray at (at + length xs) (put at xs out) = xs"
  by (simp add: put_def subarray_def)

lemma subarray_put_other:
  "b + n \<le> at \<or> at + length xs \<le> b \<Longrightarrow> at + length xs \<le> length out \<Longrightarrow> subarray b (b + n) (put at xs out) = subarray b (b + n) out"
proof (elim disjE)
  assume a: "b + n \<le> at" "at + length xs \<le> length out"
  then show ?thesis by (simp add: put_def subarray_def drop_take)
next
  assume a: "at + length xs \<le> b" "at + length xs \<le> length out"
  then have "drop b (put at xs out) = drop b out" by (simp add: put_def)
  then show ?thesis by (simp add: subarray_def)
qed

lemma int32_roundtrip: "- (2 ^ 31) \<le> i \<Longrightarrow> i < 2 ^ 31 \<Longrightarrow> int32_value (int32_bytes i) = i"
proof -
  assume i: "- (2 ^ 31) \<le> i" "i < 2 ^ 31"
  have "nat (i mod 2 ^ 32) < 256 ^ 4" by (simp add: nat_less_iff)
  then have "le_value (int32_bytes i) = nat (i mod 2 ^ 32)" unfolding int32_bytes_def by (rule le_value_bytes)
  moreover have "i mod 2 ^ 32 = (if 0 \<le> i then i else i + 2 ^ 32)"
  proof (cases "0 \<le> i")
    case False
    with i have "(i + 2 ^ 32) mod 2 ^ 32 = i + 2 ^ 32" by (intro mod_pos_pos_trivial) auto
    with False show ?thesis by simp
  qed (use i in simp)
  ultimately show ?thesis using i by (simp add: int32_value_def Let_def)
qed

lemma length_int32 [simp]: "length (int32_bytes i) = 4"
  by (simp add: int32_bytes_def)

lemma writeSab_layout:
  assumes "length sab = SAB_BYTES" "flag = 1 \<or> flag = -1"
  shows "length (writeSab flag p sab) = SAB_BYTES" "sab_flag (writeSab flag p sab) = flag"
    "int32_value (subarray 4 8 (writeSab flag p sab)) = int (min (length p) 8184)"
    "subarray 8 (8 + min (length p) 8184) (writeSab flag p sab) = take 8184 (text_encode p)"
proof -
  define xs where "xs = take 8184 (text_encode p)"
  define ys where "ys = int32_bytes (int (length xs))"
  have n: "length xs = min (length p) 8184" "length xs \<le> 8184" by (simp_all add: xs_def)
  have "put 8 xs (put 4 ys sab) = put 4 ys (put 8 xs sab)" using assms(1) n
    by (intro nth_equalityI) (auto simp: length_put ys_def SAB_BYTES_def put_def nth_append)
  then have w: "writeSab flag p sab = store_flag flag (put 8 xs (put 4 ys sab))"
    using assms(1) by (auto simp: writeSab_def Let_def SAB_BYTES_def xs_def ys_def min_def)
  let ?t = "put 8 xs (put 4 ys sab)"
  have l: "length (put 4 ys sab) = SAB_BYTES" "length ?t = SAB_BYTES" using assms(1) n(2) by (simp_all add: length_put ys_def SAB_BYTES_def)
  have four: "subarray 4 8 ?t = ys"
    using subarray_put_other [of 4 4 8 xs "put 4 ys sab"] subarray_put [of 4 ys sab] assms(1) n(2) l by (simp add: ys_def SAB_BYTES_def)
  have eight: "subarray 8 (8 + length xs) ?t = xs" using subarray_put [of 8 xs "put 4 ys sab"] n(2) l by (simp add: SAB_BYTES_def)
  have keep: "subarray b (b + k) (store_flag flag ?t) = subarray b (b + k) ?t" if "4 \<le> b" for b k
    unfolding store_flag_def by (rule subarray_put_other) (use that l in \<open>simp_all add: SAB_BYTES_def\<close>)
  show "length (writeSab flag p sab) = SAB_BYTES" using l by (simp add: w store_flag_def length_put SAB_BYTES_def)
  have "subarray 0 4 (store_flag flag ?t) = int32_bytes flag"
    using subarray_put [of 0 "int32_bytes flag" ?t] l by (simp add: store_flag_def SAB_BYTES_def)
  then show "sab_flag (writeSab flag p sab) = flag" using assms(2) int32_roundtrip [of flag] by (auto simp: w sab_flag_def)
  have "int32_value ys = int (length xs)" unfolding ys_def by (rule int32_roundtrip) (use n(2) in simp_all)
  with keep [of 4 4] four n(1) show "int32_value (subarray 4 8 (writeSab flag p sab)) = int (min (length p) 8184)" by (simp add: w)
  from keep [of 8 "length xs"] eight n(1) show "subarray 8 (8 + min (length p) 8184) (writeSab flag p sab) = take 8184 (text_encode p)"
    by (simp add: w xs_def)
qed

text \<open>What the page writes the engine reads, up to what the buffer holds; an empty payload reads as no outcome at all.\<close>

lemma oauth_roundtrip:
  assumes "length sab = SAB_BYTES"
  shows "read_outcome err (writeSab 1 code sab) = (if code = [] then None else Some (take 8184 (text_encode code)), err)"
    "read_outcome err (writeSab (-1) msg sab) = (None, if msg = [] then err else take 8184 msg)"
proof -
  note w = writeSab_layout [OF assms]
  have d: "map (\<lambda>b. char_of (unat b)) (take 8184 (text_encode msg)) = take 8184 msg"
    using text_decode_encode [of "take 8184 msg"] by (simp add: text_decode_def text_encode_def take_map)
  show "read_outcome err (writeSab 1 code sab) = (if code = [] then None else Some (take 8184 (text_encode code)), err)"
    using w [of 1 code] by (simp add: read_outcome_def Let_def)
  show "read_outcome err (writeSab (-1) msg sab) = (None, if msg = [] then err else take 8184 msg)"
    using w [of "-1" msg] d by (cases "msg = []") (auto simp: read_outcome_def Let_def min_def split: if_splits)
qed

section \<open>Engine and page\<close>

text \<open>A call that waits, with the time it has waited and its limit (0 for none); a window that was opened for a message.\<close>

record auth_call =
  ac_id :: nat
  ac_elapsed :: nat
  ac_timeout :: nat

record login =
  lg_id :: nat
  lg_settled :: bool
  lg_popup :: bool

record oauth =
  oa_sab :: "byte list"
  oa_call :: "auth_call option"
  oa_posted :: "nat list"
  oa_logins :: "login list"
  oa_error :: string
  oa_results :: "(nat \<times> byte list option) list"

definition oauth_start :: oauth where
  "oauth_start = \<lparr>oa_sab = replicate SAB_BYTES 0, oa_call = None, oa_posted = [], oa_logins = [], oa_error = [], oa_results = []\<rparr>"

text \<open>The message of the page the provider redirects to.\<close>

record callback =
  cb_code :: string
  cb_errorDescription :: string
  cb_error :: string

definition callback_error :: "callback \<Rightarrow> string" where
  "callback_error m = (if cb_errorDescription m \<noteq> [] then cb_errorDescription m else if cb_error m \<noteq> [] then cb_error m
     else ''Authentication failed'')"

definition settle_login :: "login \<Rightarrow> login" where
  "settle_login l = l\<lparr>lg_settled := True, lg_popup := False\<rparr>"

datatype oauth_event =
    O_call nat nat
  | O_page bool
  | O_callback callback
  | O_timer nat
  | O_wake
  | O_slice

text \<open>\<open>handleOpenAuthUrl\<close>: the next message of the engine, with whether the window opens.\<close>

definition handleOpenAuthUrl :: "bool \<Rightarrow> nat \<Rightarrow> oauth \<Rightarrow> oauth" where
  "handleOpenAuthUrl opens r s =
     (if \<not> opens then s\<lparr>oa_sab := writeSab (-1) ''Popup blocked by browser'' (oa_sab s)\<rparr>
      else s\<lparr>oa_logins := oa_logins s @ [\<lparr>lg_id = r, lg_settled = False, lg_popup = True\<rparr>]\<rparr>)"

text \<open>Every login that is not settled has its own \<open>BroadcastChannel\<close>, and each of them gets the message.\<close>

definition on_callback :: "callback \<Rightarrow> oauth \<Rightarrow> oauth" where
  "on_callback m s =
     (if \<forall>l \<in> set (oa_logins s). lg_settled l then s
      else s\<lparr>oa_sab := (if cb_code m \<noteq> [] then writeSab 1 (cb_code m) (oa_sab s) else writeSab (-1) (callback_error m) (oa_sab s)),
             oa_logins := map (\<lambda>l. if lg_settled l then l else settle_login l) (oa_logins s)\<rparr>)"

definition on_timer :: "nat \<Rightarrow> oauth \<Rightarrow> oauth" where
  "on_timer i s =
     (if i < length (oa_logins s) \<and> \<not> lg_settled (oa_logins s ! i)
      then s\<lparr>oa_sab := writeSab (-1) ''Authentication timed out'' (oa_sab s), oa_logins := (oa_logins s)[i := settle_login (oa_logins s ! i)]\<rparr>
      else s)"

text \<open>\<open>duckdb_wasm_open_auth_url\<close>: the call, one bounded wait that ran out, and the return once the flag is set.\<close>

definition open_auth_url :: "nat \<Rightarrow> nat \<Rightarrow> oauth \<Rightarrow> oauth" where
  "open_auth_url r timeout s = s\<lparr>oa_sab := store_flag 0 (oa_sab s), oa_posted := oa_posted s @ [r],
     oa_call := Some \<lparr>ac_id = r, ac_elapsed = 0, ac_timeout = timeout\<rparr>\<rparr>"

definition wait_slice :: "auth_call \<Rightarrow> oauth \<Rightarrow> oauth" where
  "wait_slice c s =
     (let elapsed = ac_elapsed c + 2000
      in if ac_timeout c > 0 \<and> elapsed \<ge> ac_timeout c
         then s\<lparr>oa_error := ''Authentication timed out'', oa_call := None, oa_results := oa_results s @ [(ac_id c, None)]\<rparr>
         else s\<lparr>oa_call := Some (c\<lparr>ac_elapsed := elapsed\<rparr>)\<rparr>)"

definition wake_up :: "auth_call \<Rightarrow> oauth \<Rightarrow> oauth" where
  "wake_up c s = (case read_outcome (oa_error s) (oa_sab s) of
     (bytes, err) \<Rightarrow> s\<lparr>oa_error := err, oa_call := None, oa_results := oa_results s @ [(ac_id c, bytes)]\<rparr>)"

fun oauth_next :: "oauth_event \<Rightarrow> oauth \<Rightarrow> oauth option" where
  "oauth_next (O_call r timeout) s = (if oa_call s = None then Some (open_auth_url r timeout s) else None)"
| "oauth_next (O_page opens) s = (case oa_posted s of [] \<Rightarrow> None | r # rs \<Rightarrow> Some (handleOpenAuthUrl opens r (s\<lparr>oa_posted := rs\<rparr>)))"
| "oauth_next (O_callback m) s = Some (on_callback m s)"
| "oauth_next (O_timer i) s = Some (on_timer i s)"
| "oauth_next O_wake s = (case oa_call s of None \<Rightarrow> None | Some c \<Rightarrow> if sab_flag (oa_sab s) \<noteq> 0 then Some (wake_up c s) else None)"
| "oauth_next O_slice s = (case oa_call s of None \<Rightarrow> None | Some c \<Rightarrow> if sab_flag (oa_sab s) = 0 then Some (wait_slice c s) else None)"

definition oauth_step :: "oauth \<Rightarrow> oauth_event \<Rightarrow> oauth \<Rightarrow> bool" where
  "oauth_step s e t \<longleftrightarrow> oauth_next e s = Some t"

section \<open>Properties\<close>

text \<open>The buffer holds no outcome, an error, or the code of a callback that came.\<close>

definition sab_ok :: "oauth_event set \<Rightarrow> byte list \<Rightarrow> bool" where
  "sab_ok H sab \<longleftrightarrow> length sab = SAB_BYTES \<and> (sab_flag sab = 0 \<or> (\<forall>err. fst (read_outcome err sab) = None)
     \<or> (\<exists>m. O_callback m \<in> H \<and> cb_code m \<noteq> [] \<and> (\<forall>err. fst (read_outcome err sab) = Some (take 8184 (text_encode (cb_code m))))))"

definition results_ok :: "oauth_event set \<Rightarrow> oauth \<Rightarrow> bool" where
  "results_ok H s \<longleftrightarrow> sab_ok H (oa_sab s) \<and> (\<forall>r bytes. (r, Some bytes) \<in> set (oa_results s) \<longrightarrow>
     (\<exists>m. O_callback m \<in> H \<and> cb_code m \<noteq> [] \<and> bytes = take 8184 (text_encode (cb_code m))))"

lemma sab_ok_error: "length sab = SAB_BYTES \<Longrightarrow> sab_ok H (writeSab (-1) msg sab)"
  using writeSab_layout(1) [of sab "-1" msg] oauth_roundtrip(2) [of sab] by (simp add: sab_ok_def)

lemma sab_ok_code: "length sab = SAB_BYTES \<Longrightarrow> O_callback m \<in> H \<Longrightarrow> cb_code m \<noteq> [] \<Longrightarrow> sab_ok H (writeSab 1 (cb_code m) sab)"
  using writeSab_layout(1) [of sab 1 "cb_code m"] oauth_roundtrip(1) [of sab] by (auto simp: sab_ok_def)

lemma sab_ok_reset: "length sab = SAB_BYTES \<Longrightarrow> sab_ok H (store_flag 0 sab)"
  using subarray_put [of 0 "int32_bytes 0" sab] int32_roundtrip [of 0]
  by (simp add: sab_ok_def sab_flag_def store_flag_def length_put SAB_BYTES_def)

lemma store_flag_zero: "length sab = SAB_BYTES \<Longrightarrow> sab_flag (store_flag 0 sab) = 0"
  using subarray_put [of 0 "int32_bytes 0" sab] int32_roundtrip [of 0] by (simp add: sab_flag_def store_flag_def SAB_BYTES_def)

lemma sab_ok_mono: "sab_ok H sab \<Longrightarrow> H \<subseteq> K \<Longrightarrow> sab_ok K sab"
  unfolding sab_ok_def by blast

lemma results_ok_step:
  assumes ok: "results_ok H s" and step: "oauth_next e s = Some t"
  shows "results_ok (insert e H) t"
proof -
  have s: "sab_ok (insert e H) (oa_sab s)" "length (oa_sab s) = SAB_BYTES" using ok sab_ok_mono by (auto simp: results_ok_def sab_ok_def)
  have old: "\<exists>m. O_callback m \<in> insert e H \<and> cb_code m \<noteq> [] \<and> bytes = take 8184 (text_encode (cb_code m))"
    if "(r, Some bytes) \<in> set (oa_results s)" for r bytes using ok that unfolding results_ok_def by blast
  show ?thesis
  proof (cases e)
    case (O_callback m)
    then show ?thesis using step s old sab_ok_code [OF s(2), of m "insert e H"] sab_ok_error [OF s(2)]
      by (auto simp: results_ok_def on_callback_def split: if_splits)
  next
    case O_wake
    with step obtain c where c: "oa_call s = Some c" "sab_flag (oa_sab s) \<noteq> 0" "t = wake_up c s" by (auto split: option.splits if_splits)
    obtain bytes err where r: "read_outcome (oa_error s) (oa_sab s) = (bytes, err)" by force
    have "\<exists>m. O_callback m \<in> insert e H \<and> cb_code m \<noteq> [] \<and> x = take 8184 (text_encode (cb_code m))" if "bytes = Some x" for x
      using s(1) c(2) r that unfolding sab_ok_def by (metis fst_conv option.distinct(1) option.inject)
    with old c(3) r s(1) show ?thesis by (auto simp: results_ok_def wake_up_def)
  qed (use step s old sab_ok_error [OF s(2)] sab_ok_reset [OF s(2)] in
      \<open>auto simp: results_ok_def open_auth_url_def handleOpenAuthUrl_def on_timer_def wait_slice_def Let_def split: option.splits list.splits if_splits\<close>)
qed

lemma results_ok_mono: "results_ok H s \<Longrightarrow> H \<subseteq> K \<Longrightarrow> results_ok K s"
  unfolding results_ok_def using sab_ok_mono by blast

lemma results_ok_exec: "exec oauth_step s es t \<Longrightarrow> results_ok H s \<Longrightarrow> results_ok (H \<union> set es) t"
proof (induction arbitrary: H rule: exec.induct)
  case (exec_Cons s e t es u)
  have "results_ok (insert e H) t" using exec_Cons.hyps(1) exec_Cons.prems by (simp add: oauth_step_def results_ok_step)
  then show ?case using exec_Cons.IH [of "insert e H"] by simp
qed simp

lemma no_flag: "sab_flag (replicate SAB_BYTES 0) = 0"
proof -
  have "subarray 0 4 (replicate n (0 :: byte)) = replicate 4 0" if "4 \<le> n" for n :: nat
    using that by (simp add: subarray_def min_def)
  moreover have "replicate 4 (0 :: byte) = [0, 0, 0, 0]" by (simp add: numeral_eq_Suc)
  moreover have "int32_value [0 :: byte, 0, 0, 0] = 0" by (simp add: int32_value_def le_value_def)
  moreover have "4 \<le> SAB_BYTES" by (simp add: SAB_BYTES_def)
  ultimately show ?thesis by (metis sab_flag_def)
qed

lemma results_ok_start: "results_ok {} oauth_start"
  by (simp add: results_ok_def oauth_start_def sab_ok_def no_flag)

text \<open>The buffer does not say which call an outcome is for: when a call has given up, the code of its login is returned to the next
  call, before the page has even seen that call.\<close>

lemma late_login_answers_the_next_call:
  "\<exists>es s. exec oauth_step oauth_start es s \<and> oa_results s = [(1, None), (2, Some (text_encode ''first''))] \<and> oa_posted s = [2]"
proof -
  define first where "first = \<lparr>cb_code = ''first'', cb_errorDescription = [], cb_error = []\<rparr>"
  define sab where "sab = store_flag 0 (replicate SAB_BYTES 0)"
  have l: "length sab = SAB_BYTES" "length (store_flag 0 sab) = SAB_BYTES" by (simp_all add: sab_def store_flag_def length_put SAB_BYTES_def)
  have f: "sab_flag sab = 0" "sab_flag (store_flag 0 sab) = 0" using store_flag_zero [of "replicate SAB_BYTES 0"] store_flag_zero [of sab] l
    by (simp_all add: sab_def)
  have w: "sab_flag (writeSab 1 ''first'' (store_flag 0 sab)) = 1" by (rule writeSab_layout(2)) (simp_all add: l)
  note o = oauth_roundtrip(1) [OF l(2), of _ "''first''"]
  have "\<exists>s. exec oauth_step oauth_start [O_call 1 2000, O_page True, O_slice, O_call 2 2000, O_callback first, O_wake] s
      \<and> oa_results s = [(1, None), (2, Some (text_encode ''first''))] \<and> oa_posted s = [2]"
    using f w o
    by (simp add: exec_Cons_iff oauth_step_def oauth_start_def open_auth_url_def handleOpenAuthUrl_def wait_slice_def on_callback_def
        wake_up_def first_def sab_def [symmetric] text_encode_def)
  then show ?thesis by blast
qed



end
