(* ===== verification/Hb_Runtime_Node.thy ===== *)
theory Hb_Runtime_Node
  imports Complex_Main Hb_Runtime_Browser_Props
begin

text \<open>
  \<open>bindings/runtime_node.ts\<close>: the file operations the engine calls in Node, on the files of the operating system.

  The state is that of \<open>NODE_RUNTIME\<close> with the module and the file system behind it. Of Node's \<open>fs\<close> the operations the runtime uses
  are modelled, on files as byte lists behind inodes: a path leads to an inode, a descriptor is the lowest number that is
  free and stands for an inode. Whether the operating system refuses to open a path, and what the package \<open>fast-glob\<close> finds,
  are parameters. Console output is left out.
\<close>

section \<open>The file system\<close>

record node_fs =
  nf_paths :: "(string, nat) jsmap"
  nf_dirs :: "string list"
  nf_data :: "nat \<Rightarrow> byte list"
  nf_mtime :: "nat \<Rightarrow> int"
  nf_fds :: "(nat, nat) jsmap"
  nf_inodes :: nat

record node_platform =
  np_refuses :: "string \<Rightarrow> node_fs \<Rightarrow> bool"
  np_glob :: "string \<Rightarrow> node_fs \<Rightarrow> string list res"
  np_BigInt64Array :: bool

definition fs_error :: "string \<Rightarrow> js_error" where
  "fs_error code = Error code"

definition free_fd :: "(nat, nat) jsmap \<Rightarrow> nat" where
  "free_fd fds = hd (filter (\<lambda>n. n \<notin> set (jm_keys fds)) [0..<Suc (length fds)])"

text \<open>\<open>openSync(path, O_CREAT | O_RDWR)\<close>.\<close>

definition fs_openSync :: "node_platform \<Rightarrow> string \<Rightarrow> (node_fs, nat) jsm" where
  "fs_openSync X p fs =
     (if np_refuses X p fs then (Inl (fs_error ''EACCES''), fs)
      else let fd = free_fd (nf_fds fs)
        in case jm_get (nf_paths fs) p of
          Some i \<Rightarrow> (Inr fd, fs\<lparr>nf_fds := jm_set fd i (nf_fds fs)\<rparr>)
        | None \<Rightarrow> let i = nf_inodes fs in (Inr fd, fs\<lparr>nf_fds := jm_set fd i (nf_fds fs), nf_paths := jm_set p i (nf_paths fs),
            nf_data := (nf_data fs)(i := []), nf_inodes := Suc i\<rparr>))"

definition with_fd :: "nat \<Rightarrow> (nat \<Rightarrow> (node_fs, 'a) jsm) \<Rightarrow> (node_fs, 'a) jsm" where
  "with_fd fd f fs = (case jm_get (nf_fds fs) fd of None \<Rightarrow> (Inl (fs_error ''EBADF''), fs) | Some i \<Rightarrow> f i fs)"

definition fs_size :: "nat \<Rightarrow> (node_fs, nat) jsm" where
  "fs_size fd = with_fd fd (\<lambda>i fs. (Inr (length (nf_data fs i)), fs))"

text \<open>\<open>fstatSync(fd).mtime.getTime() / 1000\<close>: the time is kept in milliseconds.\<close>

definition fs_mtime :: "nat \<Rightarrow> (node_fs, rat) jsm" where
  "fs_mtime fd = with_fd fd (\<lambda>i fs. (Inr (of_int (nf_mtime fs i) / 1000), fs))"

definition fs_closeSync :: "nat \<Rightarrow> (node_fs, unit) jsm" where
  "fs_closeSync fd = with_fd fd (\<lambda>i fs. (Inr (), fs\<lparr>nf_fds := jm_delete fd (nf_fds fs)\<rparr>))"

definition fs_truncateSync :: "string \<Rightarrow> nat \<Rightarrow> (node_fs, unit) jsm" where
  "fs_truncateSync p n fs = (case jm_get (nf_paths fs) p of
     None \<Rightarrow> (Inl (fs_error ''ENOENT''), fs) | Some i \<Rightarrow> (Inr (), fs\<lparr>nf_data := (nf_data fs)(i := resize n (nf_data fs i))\<rparr>))"

definition fs_readSync :: "nat \<Rightarrow> nat \<Rightarrow> nat \<Rightarrow> (node_fs, byte list) jsm" where
  "fs_readSync fd n pos = with_fd fd (\<lambda>i fs. (Inr (take n (drop pos (nf_data fs i))), fs))"

definition fs_writeSync :: "nat \<Rightarrow> byte list \<Rightarrow> nat \<Rightarrow> (node_fs, nat) jsm" where
  "fs_writeSync fd bytes pos = with_fd fd (\<lambda>i fs. (Inr (length bytes),
     fs\<lparr>nf_data := (nf_data fs)(i := if bytes = [] then nf_data fs i else written pos bytes (nf_data fs i))\<rparr>))"

definition fs_existsSync :: "string \<Rightarrow> node_fs \<Rightarrow> bool" where
  "fs_existsSync p fs \<longleftrightarrow> jm_has (nf_paths fs) p \<or> p \<in> set (nf_dirs fs)"

definition fs_mkdirSync :: "node_platform \<Rightarrow> string \<Rightarrow> (node_fs, unit) jsm" where
  "fs_mkdirSync X p fs =
     (if fs_existsSync p fs then (Inl (fs_error ''EEXIST''), fs)
      else if np_refuses X p fs then (Inl (fs_error ''EACCES''), fs) else (Inr (), fs\<lparr>nf_dirs := p # nf_dirs fs\<rparr>))"

definition fs_rmdirSync :: "string \<Rightarrow> (node_fs, unit) jsm" where
  "fs_rmdirSync p fs =
     (if p \<notin> set (nf_dirs fs) then (Inl (fs_error ''ENOENT''), fs)
      else if list_ex (starts_with (p @ ''/'')) (jm_keys (nf_paths fs) @ nf_dirs fs) then (Inl (fs_error ''ENOTEMPTY''), fs)
      else (Inr (), fs\<lparr>nf_dirs := removeAll p (nf_dirs fs)\<rparr>))"

definition fs_rmSync :: "string \<Rightarrow> (node_fs, unit) jsm" where
  "fs_rmSync p fs =
     (if jm_has (nf_paths fs) p then (Inr (), fs\<lparr>nf_paths := jm_delete p (nf_paths fs)\<rparr>)
      else (Inl (fs_error (if p \<in> set (nf_dirs fs) then ''ERR_FS_EISDIR'' else ''ENOENT'')), fs))"

section \<open>The runtime\<close>

record 'e node =
  nr_wasm :: 'e
  nr_fs :: node_fs
  nr_files :: "(string, nat) jsmap"
  nr_filesById :: "(nat, nat) jsmap"
  nr_fileInfoCache :: "(nat, DuckDBFileInfo) jsmap"

definition NODE_RUNTIME :: "'e \<Rightarrow> node_fs \<Rightarrow> 'e node" where
  "NODE_RUNTIME e fs = \<lparr>nr_wasm = e, nr_fs = fs, nr_files = [], nr_filesById = [], nr_fileInfoCache = []\<rparr>"

definition nr_in_wasm :: "('e, 'a) jsm \<Rightarrow> ('e node, 'a) jsm" where
  "nr_in_wasm m s = (case m (nr_wasm s) of (r, e) \<Rightarrow> (r, s\<lparr>nr_wasm := e\<rparr>))"

definition in_fs :: "(node_fs, 'a) jsm \<Rightarrow> ('e node, 'a) jsm" where
  "in_fs m s = (case m (nr_fs s) of (r, fs) \<Rightarrow> (r, s\<lparr>nr_fs := fs\<rparr>))"

definition node_fail :: "'e wasm \<Rightarrow> string \<Rightarrow> 'a \<Rightarrow> ('e node, 'a) jsm" where
  "node_fail W msg x = js_bind (nr_in_wasm (failWith W msg)) (\<lambda>_. js_ret x)"

text \<open>The frame of every operation: what is thrown is reported to the engine.\<close>

definition node_try :: "'e wasm \<Rightarrow> 'a \<Rightarrow> ('e node, 'a) jsm \<Rightarrow> ('e node, 'a) jsm" where
  "node_try W x m = js_try m (\<lambda>e. node_fail W (error_text e) x)"

definition ask_node_info :: "'e wasm \<Rightarrow> nat \<Rightarrow> DuckDBFileInfo option \<Rightarrow> ('e node, DuckDBFileInfo option) jsm" where
  "ask_node_info W fid cached =
     js_bind (nr_in_wasm (callSRet W ''duckdb_web_fs_get_file_info_by_id''
       [A_num (int fid), A_num (int (case cached of Some f \<Rightarrow> cacheEpoch f | None \<Rightarrow> 0))])) (\<lambda>(st, d, n).
     if st \<noteq> SUCCESS then js_bind (nr_in_wasm (readString W d n)) (\<lambda>msg. node_fail W msg None)
     else if n = 0 then js_bind (nr_in_wasm (dropResponseBuffers W)) (\<lambda>_. js_ret cached)
     else js_bind (nr_in_wasm (readString W d n)) (\<lambda>infoStr.
       js_bind (nr_in_wasm (dropResponseBuffers W)) (\<lambda>_.
         case JSON_parse infoStr of
           Inl err \<Rightarrow> js_throw err
         | Inr info \<Rightarrow>
             if info = JNull then js_ret None
             else js_bind (js_modify (\<lambda>s. s\<lparr>nr_fileInfoCache := jm_set fid (file_info_of_json info) (nr_fileInfoCache s)\<rparr>))
                    (\<lambda>_. js_ret (Some (file_info_of_json info))))))"

definition resolveFileInfo :: "'e wasm \<Rightarrow> nat \<Rightarrow> ('e node, DuckDBFileInfo option) jsm" where
  "resolveFileInfo W fid = node_try W None (\<lambda>s. ask_node_info W fid (jm_get (nr_fileInfoCache s) fid) s)"

definition node_testPlatformFeature :: "node_platform \<Rightarrow> nat \<Rightarrow> bool" where
  "node_testPlatformFeature X feature \<longleftrightarrow> feature = 1 \<and> np_BigInt64Array X"

definition node_getDefaultDataProtocol :: nat where
  "node_getDefaultDataProtocol = protocol_number NODE_FS"

text \<open>The cases of the protocol that every operation but \<open>closeFile\<close> shares; \<open>x\<close> is what it returns when nothing is done.\<close>

definition on_node_file :: "'e wasm \<Rightarrow> nat \<Rightarrow> 'a \<Rightarrow> (DuckDBFileInfo \<Rightarrow> ('e node, 'a) jsm) \<Rightarrow> ('e node, 'a) jsm" where
  "on_node_file W fid x f = js_bind (resolveFileInfo W fid) (\<lambda>info. case info of
     None \<Rightarrow> js_ret x
   | Some file \<Rightarrow> (case dataProtocol file of
       NODE_FS \<Rightarrow> f file | BUFFER \<Rightarrow> js_ret x | _ \<Rightarrow> node_fail W ''Unsupported data protocol'' x))"

text \<open>The descriptor a file id has; without one the operation fails.\<close>

definition with_descriptor :: "'e wasm \<Rightarrow> nat \<Rightarrow> 'a \<Rightarrow> (nat \<Rightarrow> ('e node, 'a) jsm) \<Rightarrow> ('e node, 'a) jsm" where
  "with_descriptor W fid x f s = (case jm_get (nr_filesById s) fid of
     None \<Rightarrow> node_fail W (''File '' @ show_nat fid @ '' is missing a file descriptor'') x s | Some fd \<Rightarrow> f fd s)"

definition path_of :: "DuckDBFileInfo \<Rightarrow> string res" where
  "path_of file = (case dataUrl file of Some p \<Rightarrow> Inr p | None \<Rightarrow> Inl (TypeError ''The path argument must be of type string''))"

definition with_path :: "DuckDBFileInfo \<Rightarrow> (string \<Rightarrow> ('s, 'a) jsm) \<Rightarrow> ('s, 'a) jsm" where
  "with_path file f = (case path_of file of Inl e \<Rightarrow> js_throw e | Inr p \<Rightarrow> f p)"

section \<open>Operations\<close>

definition report_size :: "'e wasm \<Rightarrow> nat \<Rightarrow> ('e node, nat) jsm" where
  "report_size W fd =
     js_bind (in_fs (fs_size fd)) (\<lambda>fileSize.
     js_bind (nr_in_wasm (\<lambda>e. case w_malloc W (2 * 8) e of (p, e') \<Rightarrow> (Inr p, e'))) (\<lambda>result.
     nr_in_wasm (\<lambda>e. (Inr result, w_setHEAPF64 W (drop_bit 3 result + 1) 0 (w_setHEAPF64 W (drop_bit 3 result + 0) (int fileSize) e)))))"

definition node_openFile :: "node_platform \<Rightarrow> 'e wasm \<Rightarrow> nat \<Rightarrow> flags \<Rightarrow> ('e node, nat) jsm" where
  "node_openFile X W fid fl = node_try W 0
     (js_bind (js_modify (\<lambda>s. s\<lparr>nr_fileInfoCache := jm_delete fid (nr_fileInfoCache s)\<rparr>)) (\<lambda>_.
      on_node_file W fid 0 (\<lambda>file s. case Option.bind (dataUrl file) (jm_get (nr_files s)) of
        Some fd \<Rightarrow> report_size W fd s
      | None \<Rightarrow>
          if has_flag fl FILE_FLAGS_NULL_IF_NOT_EXISTS then (Inr 0, s)
          else js_bind (with_path file (\<lambda>p. in_fs (fs_openSync X p))) (\<lambda>fd.
            js_bind (js_modify (\<lambda>s. s\<lparr>nr_filesById := jm_set (fileId file) fd (nr_filesById s)\<rparr>)) (\<lambda>_. report_size W fd)) s)))"

definition node_syncFile :: "('e node, unit) jsm" where
  "node_syncFile = js_ret ()"

definition node_closeFile :: "'e wasm \<Rightarrow> nat \<Rightarrow> ('e node, nat) jsm" where
  "node_closeFile W fid = node_try W 0 (\<lambda>s.
     let fileInfo = jm_get (nr_fileInfoCache s) fid; s = s\<lparr>nr_fileInfoCache := jm_delete fid (nr_fileInfoCache s)\<rparr>
     in if map_option dataProtocol fileInfo = Some NODE_FS
        then (let fd = jm_get (nr_filesById s) fid; s = s\<lparr>nr_filesById := jm_delete fid (nr_filesById s)\<rparr>
              in case fd of None \<Rightarrow> (Inr 0, s) | Some fd \<Rightarrow> js_bind (in_fs (fs_closeSync fd)) (\<lambda>_. js_ret 0) s)
        else (Inr 0, s))"

definition node_dropFile :: "('e node, unit) jsm" where
  "node_dropFile = js_ret ()"

definition node_truncateFile :: "'e wasm \<Rightarrow> nat \<Rightarrow> nat \<Rightarrow> ('e node, nat) jsm" where
  "node_truncateFile W fid newSize = node_try W 0 (on_node_file W fid 0 (\<lambda>file.
     js_bind (with_path file (\<lambda>p. in_fs (fs_truncateSync p newSize))) (\<lambda>_. js_ret 0)))"

text \<open>\<open>readSync\<close> refuses a range that does not lie in the heap; \<open>writeSync\<close> gets what \<open>subarray\<close> leaves of it.\<close>

definition node_readFile :: "'e wasm \<Rightarrow> nat \<Rightarrow> nat \<Rightarrow> nat \<Rightarrow> nat \<Rightarrow> ('e node, nat) jsm" where
  "node_readFile W fid buf bytes location = node_try W 0 (on_node_file W fid 0 (\<lambda>file.
     with_descriptor W fid 0 (\<lambda>fd s.
       if buf + bytes > length (w_HEAPU8 W (nr_wasm s)) then (Inl (RangeError ''ERR_OUT_OF_RANGE''), s)
       else js_bind (in_fs (fs_readSync fd bytes location)) (\<lambda>src.
         nr_in_wasm (\<lambda>e. (Inr (length src), w_setHEAPU8 W buf src e))) s)))"

definition node_writeFile :: "'e wasm \<Rightarrow> nat \<Rightarrow> nat \<Rightarrow> nat \<Rightarrow> nat \<Rightarrow> ('e node, nat) jsm" where
  "node_writeFile W fid buf bytes location = node_try W 0 (on_node_file W fid 0 (\<lambda>file.
     with_descriptor W fid 0 (\<lambda>fd s. in_fs (fs_writeSync fd (heap_view W buf bytes (nr_wasm s)) location) s)))"

definition node_progressUpdate :: "('e node, unit) jsm" where
  "node_progressUpdate = js_ret ()"

definition node_getLastFileModificationTime :: "'e wasm \<Rightarrow> nat \<Rightarrow> ('e node, rat) jsm" where
  "node_getLastFileModificationTime W fid = node_try W 0 (on_node_file W fid 0 (\<lambda>file.
     with_descriptor W fid 0 (\<lambda>fd. in_fs (fs_mtime fd))))"

definition node_path :: "'e wasm \<Rightarrow> nat \<Rightarrow> nat \<Rightarrow> ('e node, string) jsm" where
  "node_path W ptr len = nr_in_wasm (readString W ptr len)"

definition node_exists :: "'e wasm \<Rightarrow> nat \<Rightarrow> nat \<Rightarrow> ('e node, bool) jsm" where
  "node_exists W ptr len = node_try W False (js_bind (node_path W ptr len) (\<lambda>p s. (Inr (fs_existsSync p (nr_fs s)), s)))"

definition node_checkDirectory :: "'e wasm \<Rightarrow> nat \<Rightarrow> nat \<Rightarrow> ('e node, bool) jsm" where
  "node_checkDirectory W ptr len = node_exists W ptr len"

definition node_createDirectory :: "node_platform \<Rightarrow> 'e wasm \<Rightarrow> nat \<Rightarrow> nat \<Rightarrow> ('e node, unit) jsm" where
  "node_createDirectory X W ptr len = node_try W () (js_bind (node_path W ptr len) (\<lambda>p. in_fs (fs_mkdirSync X p)))"

definition node_removeDirectory :: "'e wasm \<Rightarrow> nat \<Rightarrow> nat \<Rightarrow> ('e node, unit) jsm" where
  "node_removeDirectory W ptr len = node_try W () (js_bind (node_path W ptr len) (\<lambda>p. in_fs (fs_rmdirSync p)))"

definition node_listDirectoryEntries :: "'e wasm \<Rightarrow> ('e node, bool) jsm" where
  "node_listDirectoryEntries W = node_fail W ''Not Implemented'' False"

fun node_add_paths :: "'e wasm \<Rightarrow> string list \<Rightarrow> ('e node, unit) jsm" where
  "node_add_paths W [] = js_ret ()"
| "node_add_paths W (p # ps) = js_bind (nr_in_wasm (w_ccall W ''duckdb_web_fs_glob_add_path'' [A_str p])) (\<lambda>_. node_add_paths W ps)"

definition node_glob :: "node_platform \<Rightarrow> 'e wasm \<Rightarrow> nat \<Rightarrow> nat \<Rightarrow> ('e node, unit) jsm" where
  "node_glob X W ptr len = node_try W () (js_bind (node_path W ptr len) (\<lambda>p s. case np_glob X p (nr_fs s) of
     Inl e \<Rightarrow> (Inl e, s) | Inr entries \<Rightarrow> node_add_paths W entries s))"

text \<open>\<open>_files.delete(handle)\<close> deletes nothing: the keys of the map are names.\<close>

definition node_moveFile :: "'e wasm \<Rightarrow> nat \<Rightarrow> nat \<Rightarrow> nat \<Rightarrow> nat \<Rightarrow> ('e node, bool) jsm" where
  "node_moveFile W fromPtr fromLen toPtr toLen =
     js_bind (node_path W fromPtr fromLen) (\<lambda>from.
     js_bind (node_path W toPtr toLen) (\<lambda>to.
     js_bind (js_modify (\<lambda>s. case jm_get (nr_files s) from of
        Some h \<Rightarrow> s\<lparr>nr_files := jm_set to h (nr_files s)\<rparr> | None \<Rightarrow> s)) (\<lambda>_.
     js_bind (js_modify (\<lambda>s. s\<lparr>nr_fileInfoCache := forget_url from (nr_fileInfoCache s)\<rparr>)) (\<lambda>_.
     js_ret True))))"

definition node_checkFile :: "'e wasm \<Rightarrow> nat \<Rightarrow> nat \<Rightarrow> ('e node, bool) jsm" where
  "node_checkFile W ptr len = node_exists W ptr len"

definition node_removeFile :: "'e wasm \<Rightarrow> nat \<Rightarrow> nat \<Rightarrow> ('e node, unit) jsm" where
  "node_removeFile W ptr len = node_try W () (js_bind (node_path W ptr len) (\<lambda>p. in_fs (fs_rmSync p)))"

end
