(* ===== verification/Hb_Runtime_Node_Props.thy ===== *)
theory Hb_Runtime_Node_Props
  imports Hb_Runtime_Node
begin

text \<open>
  Properties of the file access in Node: the descriptors the runtime holds are open, belong to one file id each and are its own,
  what is written is what is read, and a file that is opened and closed leaves no descriptor behind. Last, what happens to a file that is
  moved while it is open.
\<close>

section \<open>The machine\<close>

text \<open>The calls of the engine in any order; in between the engine runs, and a handle may be registered under a name.\<close>

datatype 'e node_op =
    N_open nat flags | N_sync | N_close nat | N_drop | N_truncate nat nat | N_read nat nat nat nat | N_write nat nat nat nat
  | N_mtime nat | N_check nat nat | N_mkdir nat nat | N_rmdir nat nat | N_list | N_glob nat nat | N_move nat nat nat nat
  | N_remove nat nat | N_engine 'e | N_register string nat

definition run_op :: "('s, 'a) jsm \<Rightarrow> 's \<Rightarrow> 's" where
  "run_op m s = snd (m s)"

fun node_call :: "node_platform \<Rightarrow> 'e wasm \<Rightarrow> 'e node_op \<Rightarrow> 'e node \<Rightarrow> 'e node" where
  "node_call X W (N_open fid fl) = run_op (node_openFile X W fid fl)"
| "node_call X W N_sync = run_op node_syncFile"
| "node_call X W (N_close fid) = run_op (node_closeFile W fid)"
| "node_call X W N_drop = run_op node_dropFile"
| "node_call X W (N_truncate fid n) = run_op (node_truncateFile W fid n)"
| "node_call X W (N_read fid buf n pos) = run_op (node_readFile W fid buf n pos)"
| "node_call X W (N_write fid buf n pos) = run_op (node_writeFile W fid buf n pos)"
| "node_call X W (N_mtime fid) = run_op (node_getLastFileModificationTime W fid)"
| "node_call X W (N_check p n) = run_op (node_exists W p n)"
| "node_call X W (N_mkdir p n) = run_op (node_createDirectory X W p n)"
| "node_call X W (N_rmdir p n) = run_op (node_removeDirectory W p n)"
| "node_call X W N_list = run_op (node_listDirectoryEntries W)"
| "node_call X W (N_glob p n) = run_op (node_glob X W p n)"
| "node_call X W (N_move p n q m) = run_op (node_moveFile W p n q m)"
| "node_call X W (N_remove p n) = run_op (node_removeFile W p n)"
| "node_call X W (N_engine e) = (\<lambda>s. s\<lparr>nr_wasm := e\<rparr>)"
| "node_call X W (N_register k fd) = (\<lambda>s. s\<lparr>nr_files := jm_set k fd (nr_files s)\<rparr>)"

definition node_step :: "node_platform \<Rightarrow> 'e wasm \<Rightarrow> 'e node \<Rightarrow> 'e node_op \<Rightarrow> 'e node \<Rightarrow> bool" where
  "node_step X W s op t \<longleftrightarrow> t = node_call X W op s"

section \<open>Descriptors\<close>

text \<open>\<open>B\<close> are the descriptors that were open before: they are never the runtime's, and stay what they are.\<close>

definition fds_ok :: "(nat, nat) jsmap \<Rightarrow> 'e node \<Rightarrow> bool" where
  "fds_ok B s \<longleftrightarrow> (\<forall>k fd. jm_get (nr_filesById s) k = Some fd \<longrightarrow> jm_get (nf_fds (nr_fs s)) fd \<noteq> None \<and> jm_get B fd = None)
     \<and> (\<forall>k k' fd. jm_get (nr_filesById s) k = Some fd \<longrightarrow> jm_get (nr_filesById s) k' = Some fd \<longrightarrow> k = k')
     \<and> (\<forall>fd i. jm_get B fd = Some i \<longrightarrow> jm_get (nf_fds (nr_fs s)) fd = Some i)"

lemma free_fd_fresh: "jm_get fds (free_fd fds) = None"
proof -
  let ?free = "filter (\<lambda>n. n \<notin> set (jm_keys fds)) [0..<Suc (length fds)]"
  have "\<not> {0..<Suc (length fds)} \<subseteq> set (jm_keys fds)"
  proof
    assume "{0..<Suc (length fds)} \<subseteq> set (jm_keys fds)"
    then have "Suc (length fds) \<le> card (set (jm_keys fds))" using card_mono [of "set (jm_keys fds)" "{0..<Suc (length fds)}"] by simp
    also have "\<dots> \<le> length fds" using card_length [of "jm_keys fds"] by simp
    finally show False by simp
  qed
  then have "?free \<noteq> []" unfolding filter_empty_conv set_upt by blast
  then have "free_fd fds \<in> set ?free" unfolding free_fd_def by (rule hd_in_set)
  then have "free_fd fds \<notin> set (jm_keys fds)" unfolding set_filter by blast
  then show ?thesis by (simp add: map_of_eq_None_iff)
qed

lemma fds_ok_cong:
  "nr_filesById t = nr_filesById s \<Longrightarrow> nf_fds (nr_fs t) = nf_fds (nr_fs s) \<Longrightarrow> fds_ok B t = fds_ok B s"
  by (simp add: fds_ok_def)

lemma fds_ok_updates [simp]:
  "fds_ok B (s\<lparr>nr_wasm := e\<rparr>) = fds_ok B s" "fds_ok B (s\<lparr>nr_fileInfoCache := m\<rparr>) = fds_ok B s"
  "fds_ok B (s\<lparr>nr_files := f\<rparr>) = fds_ok B s"
  by (simp_all add: fds_ok_def)

named_theorems node_keeps \<open>operations of the Node runtime that keep its descriptors as they should be\<close>

lemmas [node_keeps] = js_keeps_ret js_keeps_throw js_keeps_bind js_keeps_try

lemma keeps_nr_in_wasm [node_keeps]: "js_keeps (fds_ok B) (nr_in_wasm m)"
  by (simp add: js_keeps_def nr_in_wasm_def split: prod.splits)

definition same_fds :: "(node_fs, 'a) jsm \<Rightarrow> bool" where
  "same_fds m \<longleftrightarrow> (\<forall>fs. nf_fds (snd (m fs)) = nf_fds fs)"

lemma keeps_in_fs [node_keeps]: "same_fds m \<Longrightarrow> js_keeps (fds_ok B) (in_fs m)"
  by (simp add: js_keeps_def in_fs_def same_fds_def fds_ok_def split: prod.splits) (metis snd_conv)

lemma same_fds_fs [simp]:
  "same_fds (fs_size fd)" "same_fds (fs_mtime fd)" "same_fds (fs_truncateSync p n)" "same_fds (fs_readSync fd n pos)"
  "same_fds (fs_writeSync fd bs pos)" "same_fds (fs_mkdirSync X p)" "same_fds (fs_rmdirSync p)" "same_fds (fs_rmSync p)"
  by (auto simp: same_fds_def fs_size_def fs_mtime_def fs_truncateSync_def fs_readSync_def fs_writeSync_def fs_mkdirSync_def
      fs_rmdirSync_def fs_rmSync_def with_fd_def split: option.splits)

lemma keeps_modify_node [node_keeps]: "(\<And>s. fds_ok B (f s) = fds_ok B s) \<Longrightarrow> js_keeps (fds_ok B) (js_modify f)"
  by (rule js_keeps_modify) simp

lemma keeps_node_frame [node_keeps]:
  "js_keeps (fds_ok B) (node_fail W msg x)" "js_keeps (fds_ok B) m \<Longrightarrow> js_keeps (fds_ok B) (node_try W x m)"
  "js_keeps (fds_ok B) (node_path W p n)" "js_keeps (fds_ok B) (report_size W fd)" "js_keeps (fds_ok B) (node_add_paths W ps)"
  unfolding node_fail_def node_try_def node_path_def report_size_def
  by (auto intro!: node_keeps) (induction ps, auto intro!: node_keeps)

lemma keeps_ask_node_info: "js_keeps (fds_ok B) (ask_node_info W fid cached)"
  unfolding ask_node_info_def by (auto intro!: node_keeps split: sum.splits)

lemma keeps_resolve [node_keeps]: "js_keeps (fds_ok B) (resolveFileInfo W fid)"
  unfolding resolveFileInfo_def
  by (intro node_keeps) (simp add: js_keeps_def keeps_ask_node_info [unfolded js_keeps_def, rule_format])

lemma keeps_on_node_file [node_keeps]:
  "(\<And>file. js_keeps (fds_ok B) (f file)) \<Longrightarrow> js_keeps (fds_ok B) (on_node_file W fid x f)"
  unfolding on_node_file_def by (auto intro!: node_keeps split: option.splits DuckDBDataProtocol.splits)

lemma keeps_with_descriptor [node_keeps]:
  "(\<And>fd. js_keeps (fds_ok B) (f fd)) \<Longrightarrow> js_keeps (fds_ok B) (with_descriptor W fid x f)"
  by (simp add: js_keeps_def with_descriptor_def keeps_node_frame(1) [unfolded js_keeps_def, rule_format] split: option.splits)

lemma keeps_with_path [node_keeps]:
  "(\<And>p. js_keeps (fds_ok B) (f p)) \<Longrightarrow> js_keeps (fds_ok B) (with_path file f)"
  by (auto simp: with_path_def intro!: node_keeps split: sum.splits)

lemma keeps_openSync:
  assumes "fds_ok B s" "in_fs (fs_openSync X p) s = (Inr fd, t)"
  shows "fds_ok B (t\<lparr>nr_filesById := jm_set k fd (nr_filesById t)\<rparr>)"
proof -
  let ?fd = "free_fd (nf_fds (nr_fs s))"
  have n: "\<not> jm_get (nr_filesById s) j = Some ?fd" "jm_get B ?fd = None" for j
    using assms(1) free_fd_fresh [of "nf_fds (nr_fs s)"] unfolding fds_ok_def by (metis, metis option.exhaust option.distinct(1))
  obtain i where "fd = ?fd" "nf_fds (nr_fs t) = jm_set ?fd i (nf_fds (nr_fs s))" "nr_filesById t = nr_filesById s"
    using assms(2) by (auto simp: in_fs_def fs_openSync_def Let_def split: if_splits option.splits)
  with assms(1) n show ?thesis by (auto simp: fds_ok_def)
qed

lemma keeps_closeSync:
  assumes "fds_ok B s" "jm_get (nr_filesById s) k = Some fd"
  shows "fds_ok B (snd (in_fs (fs_closeSync fd) (s\<lparr>nr_filesById := jm_delete k (nr_filesById s)\<rparr>)))"
  using assms by (auto simp: fds_ok_def in_fs_def fs_closeSync_def with_fd_def split: if_splits option.splits)

lemma keeps_open_path:
  "js_keeps (fds_ok B) (js_bind (with_path file (\<lambda>p. in_fs (fs_openSync X p))) (\<lambda>fd.
     js_bind (js_modify (\<lambda>s. s\<lparr>nr_filesById := jm_set k fd (nr_filesById s)\<rparr>)) (\<lambda>_. report_size W fd)))"
proof (unfold js_keeps_def, intro allI impI)
  fix s :: "'a node" assume s: "fds_ok B s"
  let ?m = "js_bind (with_path file (\<lambda>p. in_fs (fs_openSync X p))) (\<lambda>fd.
     js_bind (js_modify (\<lambda>s. s\<lparr>nr_filesById := jm_set k fd (nr_filesById s)\<rparr>)) (\<lambda>_. report_size W fd))"
  show "fds_ok B (snd (?m s))"
  proof (cases "path_of file")
    case (Inl e)
    then show ?thesis using s by (simp add: with_path_def js_bind_def js_throw_def)
  next
    case (Inr p)
    obtain r t where t: "in_fs (fs_openSync X p) s = (r, t)" by force
    show ?thesis
    proof (cases r)
      case (Inl e)
      then have "t = s" using t by (auto simp: in_fs_def fs_openSync_def Let_def split: if_splits option.splits)
      then show ?thesis using s t Inl Inr by (simp add: with_path_def js_bind_def)
    next
      case fd: (Inr fd)
      have "fds_ok B (t\<lparr>nr_filesById := jm_set k fd (nr_filesById t)\<rparr>)" using keeps_openSync s t fd by blast
      then have "fds_ok B (snd (report_size W fd (t\<lparr>nr_filesById := jm_set k fd (nr_filesById t)\<rparr>)))"
        using keeps_node_frame(4) [of B W fd] by (simp add: js_keeps_def)
      then show ?thesis using t fd Inr by (simp add: with_path_def js_bind_def js_modify_def)
    qed
  qed
qed

lemma keeps_node_openFile: "js_keeps (fds_ok B) (node_openFile X W fid fl)"
  unfolding node_openFile_def
  by (intro node_keeps) (auto simp: js_keeps_def keeps_open_path [unfolded js_keeps_def, rule_format]
      keeps_node_frame(4) [unfolded js_keeps_def, rule_format] split: option.splits)

lemma keeps_node_closeFile: "js_keeps (fds_ok B) (node_closeFile W fid)"
  unfolding node_closeFile_def
proof (intro node_keeps, unfold js_keeps_def, intro allI impI)
  fix s :: "'e node" assume s: "fds_ok B s"
  let ?s = "s\<lparr>nr_fileInfoCache := jm_delete fid (nr_fileInfoCache s)\<rparr>"
  have gone: "fds_ok B (s\<lparr>nr_fileInfoCache := c, nr_filesById := jm_delete fid (nr_filesById s)\<rparr>)" for c
    using s by (auto simp: fds_ok_def split: if_splits)
  show "fds_ok B (snd (let fileInfo = jm_get (nr_fileInfoCache s) fid; s = s\<lparr>nr_fileInfoCache := jm_delete fid (nr_fileInfoCache s)\<rparr>
     in if map_option dataProtocol fileInfo = Some NODE_FS
        then (let fd = jm_get (nr_filesById s) fid; s = s\<lparr>nr_filesById := jm_delete fid (nr_filesById s)\<rparr>
              in case fd of None \<Rightarrow> (Inr 0, s) | Some fd \<Rightarrow> js_bind (in_fs (fs_closeSync fd)) (\<lambda>_. js_ret 0) s)
        else (Inr 0, s)))"
    using s gone keeps_closeSync [of B ?s fid]
    by (auto simp: Let_def js_bind_def js_ret_def split: option.splits prod.splits sum.splits)
qed

lemma keeps_node_readFile: "js_keeps (fds_ok B) (node_readFile W fid buf n pos)"
  unfolding node_readFile_def
  by (intro node_keeps) (simp add: js_keeps_def js_keeps_bind [OF keeps_in_fs [OF same_fds_fs(4)] keeps_nr_in_wasm, unfolded js_keeps_def, rule_format])

lemma keeps_node_writeFile: "js_keeps (fds_ok B) (node_writeFile W fid buf n pos)"
  unfolding node_writeFile_def
  by (intro node_keeps) (simp add: js_keeps_def keeps_in_fs [OF same_fds_fs(5), unfolded js_keeps_def, rule_format])

lemma keeps_node_exists: "js_keeps (fds_ok B) (node_exists W p n)"
  unfolding node_exists_def by (intro node_keeps) (simp add: js_keeps_def)

lemma keeps_node_glob: "js_keeps (fds_ok B) (node_glob X W p n)"
  unfolding node_glob_def
  by (intro node_keeps) (simp add: js_keeps_def keeps_node_frame(5) [unfolded js_keeps_def, rule_format] split: sum.splits)

lemma keeps_node_rest:
  "js_keeps (fds_ok B) node_syncFile" "js_keeps (fds_ok B) node_dropFile" "js_keeps (fds_ok B) (node_truncateFile W fid m)"
  "js_keeps (fds_ok B) (node_getLastFileModificationTime W fid)" "js_keeps (fds_ok B) (node_createDirectory X W p n)"
  "js_keeps (fds_ok B) (node_removeDirectory W p n)" "js_keeps (fds_ok B) (node_listDirectoryEntries W)"
  "js_keeps (fds_ok B) (node_removeFile W p n)" "js_keeps (fds_ok B) (node_moveFile W p n q l)"
  unfolding node_syncFile_def node_dropFile_def node_truncateFile_def node_getLastFileModificationTime_def node_createDirectory_def
    node_removeDirectory_def node_listDirectoryEntries_def node_removeFile_def node_moveFile_def
  by (intro node_keeps same_fds_fs | simp split: option.splits)+

lemmas keeps_node_ops = keeps_node_openFile keeps_node_closeFile keeps_node_readFile keeps_node_writeFile keeps_node_exists
  keeps_node_glob keeps_node_rest

lemma keeps_node_call: "fds_ok B s \<Longrightarrow> fds_ok B (node_call X W op s)"
  by (cases op) (simp_all add: run_op_def keeps_node_ops [unfolded js_keeps_def, rule_format])

interpretation nodefds: invariant_machine "node_step X W" "fds_ok B" for X and W :: "'e wasm" and B
  by unfold_locales (simp add: node_step_def keeps_node_call)

text \<open>C20: Whatever the engine calls in whatever order: a descriptor the runtime holds for a file is open and held for no other
  file, it is none of those that were open before the runtime, and those stay open on the files they are for.\<close>

theorem node_descriptors:
  assumes "exec (node_step X W) (NODE_RUNTIME e fs) ops s" "jm_get (nr_filesById s) k = Some fd"
  shows "jm_get (nf_fds (nr_fs s)) fd \<noteq> None \<and> jm_get (nf_fds fs) fd = None
    \<and> (\<forall>k'. jm_get (nr_filesById s) k' = Some fd \<longrightarrow> k' = k)
    \<and> (\<forall>fd' i. jm_get (nf_fds fs) fd' = Some i \<longrightarrow> jm_get (nf_fds (nr_fs s)) fd' = Some i)"
proof -
  have "fds_ok (nf_fds fs) (NODE_RUNTIME e fs)" by (simp add: fds_ok_def NODE_RUNTIME_def)
  from nodefds.inv_exec [OF assms(1) this] assms(2) show ?thesis unfolding fds_ok_def by blast
qed

section \<open>What is written is read\<close>

text \<open>A file that is open: its info is cached, and its descriptor is open on an inode.\<close>

definition node_file :: "'e node \<Rightarrow> nat \<Rightarrow> DuckDBFileInfo \<Rightarrow> nat \<Rightarrow> nat \<Rightarrow> bool" where
  "node_file s fid file fd i \<longleftrightarrow> jm_get (nr_fileInfoCache s) fid = Some file \<and> dataProtocol file = NODE_FS
     \<and> jm_get (nr_filesById s) fid = Some fd \<and> jm_get (nf_fds (nr_fs s)) fd = Some i"

text \<open>Clearing the engine's response leaves the heap as it is.\<close>

definition drops_quietly :: "'e wasm \<Rightarrow> ('e \<Rightarrow> bool) \<Rightarrow> bool" where
  "drops_quietly W I \<longleftrightarrow> (\<forall>e. I e \<longrightarrow> (\<exists>e'. dropResponseBuffers W e = (Inr (), e') \<and> I e' \<and> w_HEAPU8 W e' = w_HEAPU8 W e))"

lemma resolveFileInfo_cached:
  assumes "epoch_is_current W I fid (cacheEpoch file)" "drops_quietly W I" "I (nr_wasm s)" "jm_get (nr_fileInfoCache s) fid = Some file"
  obtains e where "resolveFileInfo W fid s = (Inr (Some file), s\<lparr>nr_wasm := e\<rparr>)" "I e" "w_HEAPU8 W e = w_HEAPU8 W (nr_wasm s)"
proof -
  obtain d e where e: "callSRet W ''duckdb_web_fs_get_file_info_by_id'' [A_num (int fid), A_num (int (cacheEpoch file))] (nr_wasm s)
      = (Inr (SUCCESS, d, 0), e)" "I e" "w_HEAPU8 W e = w_HEAPU8 W (nr_wasm s)"
    using assms(1,3) unfolding epoch_is_current_def by blast
  obtain e' where e': "dropResponseBuffers W e = (Inr (), e')" "I e'" "w_HEAPU8 W e' = w_HEAPU8 W e"
    using assms(2) e(2) unfolding drops_quietly_def by blast
  have "resolveFileInfo W fid s = (Inr (Some file), s\<lparr>nr_wasm := e'\<rparr>)"
    using e(1) e'(1) assms(4) by (simp add: resolveFileInfo_def node_try_def ask_node_info_def js_defs nr_in_wasm_def)
  with e(3) e'(2,3) that show ?thesis by simp
qed

lemma node_writeFile_open:
  assumes eng: "epoch_is_current W I fid (cacheEpoch file)" "drops_quietly W I" "I (nr_wasm s)"
    and f: "node_file s fid file fd i" and room: "buf + n \<le> length (w_HEAPU8 W (nr_wasm s))" and n: "n > 0"
  obtains e where "node_writeFile W fid buf n pos s = (Inr n, s\<lparr>nr_wasm := e, nr_fs := (nr_fs s)\<lparr>nf_data :=
      (nf_data (nr_fs s))(i := written pos (subarray buf (buf + n) (w_HEAPU8 W (nr_wasm s))) (nf_data (nr_fs s) i))\<rparr>\<rparr>)"
    "I e" "w_HEAPU8 W e = w_HEAPU8 W (nr_wasm s)"
proof -
  from f have c: "jm_get (nr_fileInfoCache s) fid = Some file" by (simp add: node_file_def)
  from resolveFileInfo_cached [OF eng c] obtain e where e: "resolveFileInfo W fid s = (Inr (Some file), s\<lparr>nr_wasm := e\<rparr>)"
    "I e" "w_HEAPU8 W e = w_HEAPU8 W (nr_wasm s)" by blast
  have l: "length (subarray buf (buf + n) (w_HEAPU8 W (nr_wasm s))) = n" using room by simp
  then have "subarray buf (buf + n) (w_HEAPU8 W (nr_wasm s)) \<noteq> []" using n by (metis length_0_conv less_numeral_extra(3))
  with l have "node_writeFile W fid buf n pos s = (Inr n, s\<lparr>nr_wasm := e, nr_fs := (nr_fs s)\<lparr>nf_data :=
      (nf_data (nr_fs s))(i := written pos (subarray buf (buf + n) (w_HEAPU8 W (nr_wasm s))) (nf_data (nr_fs s) i))\<rparr>\<rparr>)"
    using f by (simp add: node_writeFile_def node_try_def on_node_file_def js_try_def js_bind_def e(1) node_file_def
        with_descriptor_def in_fs_def fs_writeSync_def with_fd_def heap_view_def e(3))
  with e(2,3) that show ?thesis by blast
qed

lemma node_readFile_open:
  assumes eng: "epoch_is_current W I fid (cacheEpoch file)" "drops_quietly W I" "heap_is_memory W I" "I (nr_wasm s)"
    and f: "node_file s fid file fd i" and room: "buf + n \<le> length (w_HEAPU8 W (nr_wasm s))"
  obtains e where "node_readFile W fid buf n pos s = (Inr (length (take n (drop pos (nf_data (nr_fs s) i)))), s\<lparr>nr_wasm := e\<rparr>)"
    "I e" "w_HEAPU8 W e = overwrite buf (take n (drop pos (nf_data (nr_fs s) i))) (w_HEAPU8 W (nr_wasm s))"
proof -
  let ?src = "take n (drop pos (nf_data (nr_fs s) i))"
  from f have c: "jm_get (nr_fileInfoCache s) fid = Some file" by (simp add: node_file_def)
  from resolveFileInfo_cached [OF eng(1,2,4) c] obtain e where e: "resolveFileInfo W fid s = (Inr (Some file), s\<lparr>nr_wasm := e\<rparr>)"
    "I e" "w_HEAPU8 W e = w_HEAPU8 W (nr_wasm s)" by blast
  have "buf + length ?src \<le> length (w_HEAPU8 W e)" using room e(3) by simp
  note mem = heap_is_memoryD [OF eng(3) e(2) this]
  have "node_readFile W fid buf n pos s = (Inr (length ?src), s\<lparr>nr_wasm := w_setHEAPU8 W buf ?src e\<rparr>)"
    using f room by (simp add: node_readFile_def node_try_def on_node_file_def js_try_def js_bind_def e(1,3) node_file_def
        with_descriptor_def in_fs_def fs_readSync_def with_fd_def nr_in_wasm_def)
  with mem e(3) that show ?thesis by simp
qed

text \<open>C21: What the engine writes to an open file is what it reads there, through any descriptor of the file: the write
  takes all the bytes, a read of the same range gives them back, and the rest of the file and every other file are as they were.\<close>

theorem node_write_read:
  assumes eng: "epoch_is_current W I fid (cacheEpoch file)" "epoch_is_current W I fid' (cacheEpoch file')"
      "drops_quietly W I" "heap_is_memory W I" "I (nr_wasm s)"
    and f: "node_file s fid file fd i" "node_file s fid' file' fd' i"
    and room: "buf + n \<le> length (w_HEAPU8 W (nr_wasm s))" "buf' + n \<le> length (w_HEAPU8 W (nr_wasm s))" and n: "n > 0"
  shows "\<exists>s1 s2. node_writeFile W fid buf n pos s = (Inr n, s1) \<and> node_readFile W fid' buf' n pos s1 = (Inr n, s2)
    \<and> subarray buf' (buf' + n) (w_HEAPU8 W (nr_wasm s2)) = subarray buf (buf + n) (w_HEAPU8 W (nr_wasm s))
    \<and> (\<forall>k. k < pos \<or> pos + n \<le> k \<longrightarrow> k < length (nf_data (nr_fs s2) i) \<longrightarrow> nf_data (nr_fs s2) i ! k =
         (if k < length (nf_data (nr_fs s) i) then nf_data (nr_fs s) i ! k else 0))
    \<and> length (nf_data (nr_fs s2) i) = max (length (nf_data (nr_fs s) i)) (pos + n)
    \<and> (\<forall>j. j \<noteq> i \<longrightarrow> nf_data (nr_fs s2) j = nf_data (nr_fs s) j)"
proof -
  let ?bytes = "subarray buf (buf + n) (w_HEAPU8 W (nr_wasm s))" and ?old = "nf_data (nr_fs s) i"
  have len: "length ?bytes = n" using room(1) by simp
  obtain e where w: "node_writeFile W fid buf n pos s = (Inr n, s\<lparr>nr_wasm := e, nr_fs := (nr_fs s)\<lparr>nf_data :=
      (nf_data (nr_fs s))(i := written pos ?bytes ?old)\<rparr>\<rparr>)" "I e" "w_HEAPU8 W e = w_HEAPU8 W (nr_wasm s)"
    using node_writeFile_open [OF eng(1,3,5) f(1) room(1) n] by blast
  define s1 where "s1 = s\<lparr>nr_wasm := e, nr_fs := (nr_fs s)\<lparr>nf_data := (nf_data (nr_fs s))(i := written pos ?bytes ?old)\<rparr>\<rparr>"
  have f1: "node_file s1 fid' file' fd' i" using f(2) by (simp add: node_file_def s1_def)
  have b1: "nf_data (nr_fs s1) = (nf_data (nr_fs s))(i := written pos ?bytes ?old)" by (simp add: s1_def)
  have slice: "take n (drop pos (nf_data (nr_fs s1) i)) = ?bytes" using len by (simp add: b1 written_def)
  have i1: "I (nr_wasm s1)" and r1: "buf' + n \<le> length (w_HEAPU8 W (nr_wasm s1))" using w(2,3) room(2) by (simp_all add: s1_def)
  obtain e' where r: "node_readFile W fid' buf' n pos s1 = (Inr n, s1\<lparr>nr_wasm := e'\<rparr>)"
    "w_HEAPU8 W e' = overwrite buf' ?bytes (w_HEAPU8 W (nr_wasm s1))"
    using node_readFile_open [OF eng(2,3,4) i1 f1 r1, of pos] unfolding slice len by blast
  have "\<forall>k. k < pos \<or> pos + n \<le> k \<longrightarrow> k < length (written pos ?bytes ?old) \<longrightarrow>
      written pos ?bytes ?old ! k = (if k < length ?old then ?old ! k else 0)"
    using len by (auto simp: written_def resize_def nth_append)
  moreover have "length (written pos ?bytes ?old) = max (length ?old) (pos + n)" using len by (simp add: written_def)
  moreover have "subarray buf' (buf' + n) (w_HEAPU8 W e') = ?bytes"
    using subarray_overwrite [of buf' ?bytes] len r1 r(2) by simp
  ultimately show ?thesis using w(1) r(1) b1 unfolding s1_def [symmetric] by auto
qed

section \<open>Opening and closing\<close>

lemma resolve_described:
  assumes "engine_describes W I fid file" "I (nr_wasm s)" "jm_get (nr_fileInfoCache s) fid = None"
  obtains e where "resolveFileInfo W fid s = (Inr (Some file), s\<lparr>nr_wasm := e, nr_fileInfoCache := jm_set fid file (nr_fileInfoCache s)\<rparr>)"
    "I e"
proof -
  obtain d n e e' info where e: "callSRet W ''duckdb_web_fs_get_file_info_by_id'' [A_num (int fid), A_num 0] (nr_wasm s) = (Inr (SUCCESS, d, n), e)"
    "n > 0" "JSON_parse (text_decode (heap_view W d n e)) = Inr info" "info \<noteq> JNull" "file_info_of_json info = file"
    "dropResponseBuffers W e = (Inr (), e')" "I e'"
    using assms(1,2) unfolding engine_describes_def by blast
  have "resolveFileInfo W fid s = (Inr (Some file), s\<lparr>nr_wasm := e', nr_fileInfoCache := jm_set fid file (nr_fileInfoCache s)\<rparr>)"
    using e assms(3) by (simp add: resolveFileInfo_def node_try_def ask_node_info_def js_defs nr_in_wasm_def readString_def)
  with e(7) that show ?thesis by blast
qed

lemma report_size_reports:
  assumes m: "memory_ok W I L" and s: "I (nr_wasm s)" and fd: "jm_get (nf_fds (nr_fs s)) fd = Some i"
  obtains p e where "report_size W fd s = (Inr p, s\<lparr>nr_wasm := e\<rparr>)" "I e" "reports W (nf_data (nr_fs s) i) p e"
proof -
  have mm: "malloc_ok W I L" "cells_ok W I" using m by (simp_all add: memory_ok_def)
  obtain p e0 where pe: "w_malloc W 16 (nr_wasm s) = (p, e0)" by force
  note m1 = mallocD [OF mm(1) s pe]
  define j where "j = p div 8"
  have j: "p = 8 * j" using m1(2) by (simp add: j_def)
  let ?size = "int (length (nf_data (nr_fs s) i))"
  let ?e1 = "w_setHEAPF64 W j ?size e0" let ?e2 = "w_setHEAPF64 W (j + 1) 0 ?e1"
  have "8 * j + 8 \<le> length (w_HEAPU8 W e0)" using m1(3) j by simp
  note e1 = cellD [OF mm(2) m1(1) this, where v = "?size"]
  have "8 * (j + 1) + 8 \<le> length (w_HEAPU8 W ?e1)" using m1(3) j e1(3) by simp
  note e2 = cellD [OF mm(2) e1(1) this, where v = 0]
  have "report_size W fd s = (Inr p, s\<lparr>nr_wasm := ?e2\<rparr>)"
    using fd pe by (simp add: report_size_def js_bind_def in_fs_def fs_size_def with_fd_def nr_in_wasm_def j_def drop_bit_eq_div)
  with e2(1,2) e1(2) that [of p ?e2] show ?thesis by (simp add: reports_def j_def)
qed

text \<open>\<open>openSync\<close> leaves the content of a file that exists, makes an empty one otherwise, and opens a descriptor that was free.\<close>

lemma openSync_opens:
  assumes "\<not> np_refuses X p fs"
  obtains i fs' where "fs_openSync X p fs = (Inr (free_fd (nf_fds fs)), fs')" "jm_get (nf_paths fs') p = Some i"
    "nf_fds fs' = jm_set (free_fd (nf_fds fs)) i (nf_fds fs)"
    "nf_data fs' i = (case jm_get (nf_paths fs) p of Some j \<Rightarrow> nf_data fs j | None \<Rightarrow> [])"
    "\<And>j. jm_get (nf_paths fs) p = Some j \<Longrightarrow> i = j"
proof (cases "jm_get (nf_paths fs) p")
  case None
  with assms show ?thesis by (intro that) (auto simp: fs_openSync_def Let_def)
next
  case (Some j)
  with assms show ?thesis
    by (intro that [where i = j and fs' = "fs\<lparr>nf_fds := jm_set (free_fd (nf_fds fs)) j (nf_fds fs)\<rparr>"]) (simp_all add: fs_openSync_def Let_def)
qed

lemma node_openFile_opens:
  assumes eng: "engine_describes W I fid file" "memory_ok W I L" "I (nr_wasm s)"
    and f: "dataProtocol file = NODE_FS" "dataUrl file = Some p" "fileId file = fid"
    and new: "jm_get (nr_files s) p = None" "\<not> has_flag fl FILE_FLAGS_NULL_IF_NOT_EXISTS" "\<not> np_refuses X p (nr_fs s)"
  obtains q s1 i where "node_openFile X W fid fl s = (Inr q, s1)" "node_file s1 fid file (free_fd (nf_fds (nr_fs s))) i"
    "reports W (case jm_get (nf_paths (nr_fs s)) p of Some j \<Rightarrow> nf_data (nr_fs s) j | None \<Rightarrow> []) q (nr_wasm s1)"
    "jm_get (nf_paths (nr_fs s1)) p = Some i" "I (nr_wasm s1)"
    "nf_fds (nr_fs s1) = jm_set (free_fd (nf_fds (nr_fs s))) i (nf_fds (nr_fs s))"
    "nr_filesById s1 = jm_set fid (free_fd (nf_fds (nr_fs s))) (nr_filesById s)"
proof -
  let ?fd = "free_fd (nf_fds (nr_fs s))"
  let ?s = "s\<lparr>nr_fileInfoCache := jm_delete fid (nr_fileInfoCache s)\<rparr>"
  have "I (nr_wasm ?s)" "jm_get (nr_fileInfoCache ?s) fid = None" using eng(3) by simp_all
  from resolve_described [OF eng(1) this] obtain e where e: "resolveFileInfo W fid ?s = (Inr (Some file),
      s\<lparr>nr_wasm := e, nr_fileInfoCache := jm_set fid file (jm_delete fid (nr_fileInfoCache s))\<rparr>)" "I e" by auto
  obtain i fs' where o: "fs_openSync X p (nr_fs s) = (Inr ?fd, fs')" "jm_get (nf_paths fs') p = Some i"
    "nf_fds fs' = jm_set ?fd i (nf_fds (nr_fs s))"
    "nf_data fs' i = (case jm_get (nf_paths (nr_fs s)) p of Some j \<Rightarrow> nf_data (nr_fs s) j | None \<Rightarrow> [])"
    using openSync_opens [OF new(3)] by metis
  define t where "t = s\<lparr>nr_wasm := e, nr_fileInfoCache := jm_set fid file (jm_delete fid (nr_fileInfoCache s)), nr_fs := fs',
      nr_filesById := jm_set fid ?fd (nr_filesById s)\<rparr>"
  have t: "I (nr_wasm t)" "jm_get (nf_fds (nr_fs t)) ?fd = Some i" using e(2) o(3) by (simp_all add: t_def)
  obtain q e' where q: "report_size W ?fd t = (Inr q, t\<lparr>nr_wasm := e'\<rparr>)" "I e'" "reports W (nf_data fs' i) q e'"
    using report_size_reports [OF eng(2) t] by (auto simp: t_def)
  have "node_openFile X W fid fl s = (Inr q, t\<lparr>nr_wasm := e'\<rparr>)"
    using f new(1,2) q(1) o(1)
    by (simp add: node_openFile_def node_try_def js_try_def js_bind_def js_modify_def on_node_file_def e(1) with_path_def path_of_def
        in_fs_def t_def)
  moreover have "node_file (t\<lparr>nr_wasm := e'\<rparr>) fid file ?fd i" using t(2) f(1) by (simp add: node_file_def t_def)
  ultimately show ?thesis using that q(2,3) o(2,3,4) by (simp add: t_def)
qed

text \<open>A file that is opened is reported with its size, empty if it did not exist, and can be read and written; closing it
  gives back the descriptor, so that the table of descriptors and the runtime's are as before.\<close>

theorem node_open_close:
  assumes eng: "engine_describes W I fid file" "memory_ok W I L" "I (nr_wasm s)"
    and f: "dataProtocol file = NODE_FS" "dataUrl file = Some p" "fileId file = fid"
    and new: "jm_get (nr_files s) p = None" "\<not> has_flag fl FILE_FLAGS_NULL_IF_NOT_EXISTS" "\<not> np_refuses X p (nr_fs s)"
      "jm_get (nr_filesById s) fid = None"
  shows "\<exists>q s1 s2 fd i. node_openFile X W fid fl s = (Inr q, s1) \<and> node_file s1 fid file fd i
    \<and> reports W (case jm_get (nf_paths (nr_fs s)) p of Some j \<Rightarrow> nf_data (nr_fs s) j | None \<Rightarrow> []) q (nr_wasm s1)
    \<and> jm_get (nf_fds (nr_fs s)) fd = None \<and> jm_get (nf_paths (nr_fs s1)) p = Some i
    \<and> node_closeFile W fid s1 = (Inr 0, s2) \<and> jm_get (nf_fds (nr_fs s2)) = jm_get (nf_fds (nr_fs s))
    \<and> jm_get (nr_filesById s2) = jm_get (nr_filesById s) \<and> jm_get (nr_fileInfoCache s2) fid = None"
proof -
  let ?fd = "free_fd (nf_fds (nr_fs s))"
  note fresh = free_fd_fresh [of "nf_fds (nr_fs s)"]
  obtain q s1 i where o: "node_openFile X W fid fl s = (Inr q, s1)" "node_file s1 fid file ?fd i"
    "reports W (case jm_get (nf_paths (nr_fs s)) p of Some j \<Rightarrow> nf_data (nr_fs s) j | None \<Rightarrow> []) q (nr_wasm s1)"
    "jm_get (nf_paths (nr_fs s1)) p = Some i"
    "nf_fds (nr_fs s1) = jm_set ?fd i (nf_fds (nr_fs s))" "nr_filesById s1 = jm_set fid ?fd (nr_filesById s)"
    using node_openFile_opens [OF eng f new(1,2,3)] by metis
  define s2 where "s2 = s1\<lparr>nr_fileInfoCache := jm_delete fid (nr_fileInfoCache s1), nr_filesById := jm_delete fid (nr_filesById s1),
    nr_fs := (nr_fs s1)\<lparr>nf_fds := jm_delete ?fd (nf_fds (nr_fs s1))\<rparr>\<rparr>"
  have "node_closeFile W fid s1 = (Inr 0, s2)"
    using o(2) by (simp add: node_closeFile_def node_try_def js_defs node_file_def in_fs_def fs_closeSync_def with_fd_def s2_def Let_def)
  moreover have "jm_get (nf_fds (nr_fs s2)) = jm_get (nf_fds (nr_fs s))" "jm_get (nr_filesById s2) = jm_get (nr_filesById s)"
    using fresh new(4) by (auto simp: s2_def o(5,6))
  moreover have "jm_get (nr_fileInfoCache s2) fid = None" by (simp add: s2_def)
  ultimately show ?thesis using o(1,2,3,4) fresh by blast
qed

section \<open>A file that is moved\<close>

text \<open>The move is reported as done, but nothing is renamed.\<close>

lemma node_moveFile_state: "node_moveFile W a b c d s = (Inr True, s\<lparr>
     nr_files := (case jm_get (nr_files s) (text_decode (heap_view W a b (nr_wasm s))) of
        Some h \<Rightarrow> jm_set (text_decode (heap_view W c d (nr_wasm s))) h (nr_files s) | None \<Rightarrow> nr_files s),
     nr_fileInfoCache := forget_url (text_decode (heap_view W a b (nr_wasm s))) (nr_fileInfoCache s)\<rparr>)"
  by (simp add: node_moveFile_def node_path_def nr_in_wasm_def readString_def js_defs split: option.splits)

lemma move_does_not_rename: "\<exists>t. node_moveFile W a b c d s = (Inr True, t) \<and> nr_fs t = nr_fs s"
  by (simp add: node_moveFile_state)

lemma forget_url_forgets:
  assumes "jm_wf m" "jm_get m k = Some v" "dataUrl v = Some from" "\<forall>k' v'. (k', v') \<in> set m \<longrightarrow> dataUrl v' = Some from \<longrightarrow> k' = k"
  shows "jm_get (forget_url from m) k = None"
  using assms
proof (induction m)
  case (Cons a m)
  obtain j w where a: "a = (j, w)" by force
  have wf: "jm_wf m" "j \<notin> fst ` set m" using Cons.prems(1) by (simp_all add: jm_wf_def a)
  show ?case
  proof (cases "dataUrl w = Some from")
    case True
    then have "j = k" using Cons.prems(4) a by simp
    with True wf(2) show ?thesis by (simp add: a map_of_eq_None_iff)
  next
    case False
    then have "j \<noteq> k" using Cons.prems(2,3) a by auto
    moreover have "jm_get (forget_url from m) k = None" using Cons.prems wf(1) \<open>j \<noteq> k\<close> a by (intro Cons.IH) simp_all
    ultimately show ?thesis using False by (simp add: a)
  qed
qed simp

text \<open>A file that is open is forgotten by the move, and closing it then closes nothing.\<close>

lemma moved_file_keeps_its_descriptor:
  assumes f: "node_file s fid file fd i" and m: "node_moveFile W a b c d s = (r, t)"
    and p: "dataUrl file = Some (text_decode (heap_view W a b (nr_wasm s)))" and wf: "jm_wf (nr_fileInfoCache s)"
    and only: "\<forall>k v. (k, v) \<in> set (nr_fileInfoCache s) \<longrightarrow> dataUrl v = dataUrl file \<longrightarrow> k = fid"
  shows "\<exists>u. node_closeFile W fid t = (Inr 0, u) \<and> jm_get (nr_filesById u) fid = Some fd \<and> jm_get (nf_fds (nr_fs u)) fd = Some i"
proof -
  have g: "jm_get (nr_fileInfoCache s) fid = Some file" using f by (simp add: node_file_def)
  have t: "nr_fileInfoCache t = forget_url (text_decode (heap_view W a b (nr_wasm s))) (nr_fileInfoCache s)"
    "nr_filesById t = nr_filesById s" "nr_fs t = nr_fs s"
    using m by (simp_all add: node_moveFile_state prod_eq_iff) (auto split: option.splits)
  have "jm_get (nr_fileInfoCache t) fid = None" unfolding t(1) using forget_url_forgets [OF wf g p] only p by simp
  then show ?thesis using f t(2,3) by (simp add: node_closeFile_def node_try_def js_defs Let_def node_file_def)
qed

section \<open>A machine to try it on\<close>

text \<open>The three standard descriptors, and a file of one byte.\<close>

definition small_fs :: node_fs where
  "small_fs = \<lparr>nf_paths = [(''data.db'', 3)], nf_dirs = [], nf_data = (\<lambda>i. if i = 3 then [9] else []), nf_mtime = (\<lambda>_. 0),
     nf_fds = [(0, 0), (1, 1), (2, 2)], nf_inodes = 4\<rparr>"

definition small_node :: node_platform where
  "small_node = \<lparr>np_refuses = (\<lambda>_ _. False), np_glob = (\<lambda>p fs. Inr [p]), np_BigInt64Array = True\<rparr>"

definition node_text :: string where
  "node_text = stringify (JObj [(''cacheEpoch'', JNum 7), (''fileId'', JNum 1), (''fileName'', JStr ''data.db''), (''dataProtocol'', JNum 1),
     (''dataUrl'', JStr ''data.db'')])"

definition data_db :: DuckDBFileInfo where
  "data_db = toy_file\<lparr>fileName := ''data.db'', dataProtocol := NODE_FS, dataUrl := Some ''data.db'', allowFullHttpReads := False\<rparr>"

lemma data_db_simps [simp]:
  "dataProtocol data_db = NODE_FS" "dataUrl data_db = Some ''data.db''" "fileId data_db = 1" "cacheEpoch data_db = 7"
  by (simp_all add: data_db_def toy_file_def)

lemma data_db_described: "engine_describes (toy_wasm node_text) toy_inv fid data_db"
proof -
  let ?info = "JObj [(''cacheEpoch'', JNum 7), (''fileId'', JNum 1), (''fileName'', JStr ''data.db''), (''dataProtocol'', JNum 1),
     (''dataUrl'', JStr ''data.db'')]"
  have "JSON_parse node_text = Inr ?info" by code_simp
  moreover have "0 < length node_text \<and> length node_text \<le> 256" by code_simp
  moreover have "file_info_of_json ?info = data_db" by code_simp
  ultimately show ?thesis using toy_describes [of node_text ?info] by simp
qed

lemma small_start:
  "toy_inv (nr_wasm (NODE_RUNTIME toy_start small_fs))" "jm_get (nr_files (NODE_RUNTIME toy_start small_fs)) k = None"
  "jm_get (nr_filesById (NODE_RUNTIME toy_start small_fs)) j = None" "nr_fs (NODE_RUNTIME toy_start small_fs) = small_fs"
  using toy_start_inv by (simp_all add: NODE_RUNTIME_def)

lemma small_open: "\<not> has_flag 3 FILE_FLAGS_NULL_IF_NOT_EXISTS" "\<not> np_refuses small_node p fs" "free_fd (nf_fds small_fs) = 3"
  by (code_simp, simp_all add: small_node_def free_fd_def small_fs_def upt_rec)

theorem node_descriptors_witness:
  "\<exists>s. exec (node_step small_node (toy_wasm node_text)) (NODE_RUNTIME toy_start small_fs) [N_open 1 3] s
     \<and> jm_get (nr_filesById s) 1 = Some 3 \<and> jm_get (nf_fds (nr_fs s)) 3 \<noteq> None \<and> jm_get (nf_fds (nr_fs s)) 0 = Some 0"
proof -
  let ?W = "toy_wasm node_text" and ?s = "NODE_RUNTIME toy_start small_fs"
  obtain q s1 where o: "node_openFile small_node ?W 1 3 ?s = (Inr q, s1)" "nr_filesById s1 = jm_set 1 3 (nr_filesById ?s)"
    using node_openFile_opens [OF data_db_described toy_memory small_start(1) _ _ _ small_start(2) small_open(1,2)]
    by (metis data_db_simps(1,2,3) small_start(4) small_open(3))
  have e: "exec (node_step small_node ?W) ?s [N_open 1 3] s1" using o(1) by (simp add: exec_Cons_iff node_step_def run_op_def)
  have g: "jm_get (nr_filesById s1) 1 = Some 3" by (simp add: o(2))
  have "jm_get (nf_fds small_fs) 0 = Some 0" by (simp add: small_fs_def)
  with node_descriptors [OF e g] e g show ?thesis by blast
qed

theorem node_open_close_witness:
  "\<exists>q s1 s2. node_openFile small_node (toy_wasm node_text) 1 3 (NODE_RUNTIME toy_start small_fs) = (Inr q, s1)
    \<and> reports (toy_wasm node_text) [9] q (nr_wasm s1) \<and> node_closeFile (toy_wasm node_text) 1 s1 = (Inr 0, s2)
    \<and> jm_get (nf_fds (nr_fs s2)) = jm_get (nf_fds small_fs)"
proof -
  have "(case jm_get (nf_paths small_fs) ''data.db'' of Some j \<Rightarrow> nf_data small_fs j | None \<Rightarrow> []) = [9]" by (simp add: small_fs_def)
  with node_open_close [OF data_db_described toy_memory small_start(1) data_db_simps(1,2,3) small_start(2) small_open(1,2) small_start(3)]
  show ?thesis unfolding small_start(4) by metis
qed

definition small_open_node :: "toy node" where
  "small_open_node = (NODE_RUNTIME toy_start small_fs)\<lparr>nr_fs := small_fs\<lparr>nf_fds := [(0, 0), (1, 1), (2, 2), (3, 3), (4, 3)]\<rparr>,
     nr_filesById := [(1, 3), (2, 4)], nr_fileInfoCache := [(1, data_db), (2, data_db)]\<rparr>"

theorem node_write_read_witness:
  "\<exists>s1 s2. node_writeFile (toy_wasm node_text) 1 0 4 3 small_open_node = (Inr 4, s1)
    \<and> node_readFile (toy_wasm node_text) 2 16 4 3 s1 = (Inr 4, s2)
    \<and> subarray 16 (16 + 4) (w_HEAPU8 (toy_wasm node_text) (nr_wasm s2)) = [7, 7, 7, 7] \<and> length (nf_data (nr_fs s2) 3) = 7"
proof -
  let ?W = "toy_wasm node_text"
  have m: "heap_is_memory ?W toy_inv" "epoch_is_current ?W toy_inv 1 (cacheEpoch data_db)" "epoch_is_current ?W toy_inv 2 (cacheEpoch data_db)"
    using toy_memory toy_epoch by (simp_all add: memory_ok_def)
  have d: "drops_quietly ?W toy_inv"
    by (simp add: drops_quietly_def dropResponseBuffers_def js_bind_def js_ret_def toy_wasm_def toy_ccall_def)
  have f: "node_file small_open_node 1 data_db 3 3" "node_file small_open_node 2 data_db 4 3" "toy_inv (nr_wasm small_open_node)"
    using toy_start_inv by (simp_all add: node_file_def small_open_node_def NODE_RUNTIME_def)
  have h: "w_HEAPU8 ?W (nr_wasm small_open_node) = replicate 512 7" "nf_data (nr_fs small_open_node) 3 = [9]"
    by (simp_all add: small_open_node_def NODE_RUNTIME_def toy_wasm_def toy_start_def small_fs_def)
  have "0 + 4 \<le> length (w_HEAPU8 ?W (nr_wasm small_open_node))" "16 + 4 \<le> length (w_HEAPU8 ?W (nr_wasm small_open_node))"
    "(0 :: nat) < 4" unfolding h by simp_all
  note r = node_write_read [OF m(2,3) d m(1) f(3,1,2) this, of 3]
  have "subarray 0 (0 + 4) (replicate 512 7) = [7, 7, 7, 7 :: byte]" by (simp add: subarray_def numeral_eq_Suc)
  moreover have "max (length [9 :: byte]) (3 + 4) = 7" by simp
  ultimately show ?thesis using r unfolding h by metis
qed

end
