(* ===== verification/Hb_Udf.thy ===== *)
theory Hb_Udf
  imports Hb_HttpFetch Hb_Runtime_Browser_Props
begin

text \<open>
  \<open>bindings/udf_runtime.ts\<close>: a scalar function of JavaScript is called for the rows of a chunk. The engine passes a description
  of the arguments as JSON and an array of pointers to their buffers; the runtime calls the function row by row and leaves
  the results in buffers of its own. How the engine (\<open>lib/src/webdb.cc\<close>) reads them is modelled with it.

  A number of JavaScript is the 64 bits of its binary format. A typed array is a view of the memory as it was when the array was
  made: once the memory has another buffer and is not shared, the array is detached. The value passed for a struct is a
  snapshot; that the code passes one object for all rows shows only if the function keeps it. What a string or an object is as
  a number, and any value but a string as a string, are parameters. In the description of the engine every field that is present has
  its type: it writes no null for a buffer.
\<close>

section \<open>Numbers\<close>

type_synonym js_number = "64 word"

fun log2 :: "nat \<Rightarrow> nat" where
  "log2 n = (if n < 2 then 0 else Suc (log2 (n div 2)))"

declare log2.simps [simp del]

text \<open>The format of an integer: sign, exponent and mantissa. Integers from \<open>2 ^ 53\<close> on do not occur.\<close>

definition number_of_nat :: "nat \<Rightarrow> js_number" where
  "number_of_nat n = (if n = 0 then 0 else of_nat ((1023 + log2 n) * 2 ^ 52 + (n - 2 ^ log2 n) * 2 ^ (52 - log2 n)))"

definition number_of_int :: "int \<Rightarrow> js_number" where
  "number_of_int i = (if i < 0 then of_nat (2 ^ 63 + unat (number_of_nat (nat (- i)))) else number_of_nat (nat i))"

definition exponent :: "js_number \<Rightarrow> nat" where "exponent w = unat w div 2 ^ 52 mod 2 ^ 11"
definition mantissa :: "js_number \<Rightarrow> nat" where "mantissa w = unat w mod 2 ^ 52"
definition negative :: "js_number \<Rightarrow> bool" where "negative w \<longleftrightarrow> 2 ^ 63 \<le> unat w"

definition NaN :: js_number where "NaN = of_nat (2047 * 2 ^ 52 + 2 ^ 51)"

definition isNaN :: "js_number \<Rightarrow> bool" where "isNaN w \<longleftrightarrow> exponent w = 2047 \<and> mantissa w \<noteq> 0"

text \<open>The integer part; 0 where there is none.\<close>

definition integer_part :: "js_number \<Rightarrow> int" where
  "integer_part w =
     (let e = exponent w; q = 2 ^ 52 + mantissa w;
          n = (if e < 1023 \<or> e = 2047 then 0 else if e \<le> 1075 then q div 2 ^ (1075 - e) else q * 2 ^ (e - 1075))
      in if negative w then - int n else int n)"

definition truthy_number :: "js_number \<Rightarrow> bool" where
  "truthy_number w \<longleftrightarrow> \<not> isNaN w \<and> unat w mod 2 ^ 63 \<noteq> 0"

text \<open>The 32-bit format: read exactly, written rounded to the nearest, a tie to the even one.\<close>

definition number_of_f32 :: "nat \<Rightarrow> js_number" where
  "number_of_f32 b =
     (let s = b div 2 ^ 31 * 2 ^ 63; e = b div 2 ^ 23 mod 2 ^ 8; m = b mod 2 ^ 23
      in of_nat (s + (if e = 255 then 2047 * 2 ^ 52 + m * 2 ^ 29
           else if e > 0 then (e + 896) * 2 ^ 52 + m * 2 ^ 29
           else if m = 0 then 0 else unat (number_of_nat m) - 149 * 2 ^ 52)))"

definition round_shift :: "nat \<Rightarrow> nat \<Rightarrow> nat" where
  "round_shift q k =
     (let r = q div 2 ^ k; rest = 2 * (q mod 2 ^ k)
      in if rest > 2 ^ k \<or> rest = 2 ^ k \<and> odd r then Suc r else r)"

definition f32_of_number :: "js_number \<Rightarrow> nat" where
  "f32_of_number w =
     (let s = (if negative w then 2 ^ 31 else 0); e = exponent w; q = 2 ^ 52 + mantissa w
      in if isNaN w then 0x7FC00000
         else if e > 1150 then s + 255 * 2 ^ 23
         else if e \<ge> 897 then s + (e - 897) * 2 ^ 23 + round_shift q 29
         else if e \<ge> 872 then s + round_shift q (29 + (897 - e))
         else s)"

section \<open>Values\<close>

datatype js_value = V_undefined | V_null | V_bool bool | V_number js_number | V_string string | V_object "(string \<times> js_value) list"

record conversions =
  cv_number :: "js_value \<Rightarrow> js_number res"
  cv_string :: "js_value \<Rightarrow> string res"

fun ToNumber :: "conversions \<Rightarrow> js_value \<Rightarrow> js_number res" where
  "ToNumber C V_undefined = Inr NaN"
| "ToNumber C V_null = Inr 0"
| "ToNumber C (V_bool b) = Inr (number_of_nat (if b then 1 else 0))"
| "ToNumber C (V_number d) = Inr d"
| "ToNumber C v = cv_number C v"

fun ToString :: "conversions \<Rightarrow> js_value \<Rightarrow> string res" where
  "ToString C (V_string s) = Inr s"
| "ToString C v = cv_string C v"

fun truthy :: "js_value \<Rightarrow> bool" where
  "truthy V_undefined = False"
| "truthy V_null = False"
| "truthy (V_bool b) = b"
| "truthy (V_number d) = truthy_number d"
| "truthy (V_string s) = (s \<noteq> [])"
| "truthy (V_object m) = True"

definition nullish :: "js_value \<Rightarrow> bool" where
  "nullish v \<longleftrightarrow> v = V_undefined \<or> v = V_null"

text \<open>A value used as an address or a length.\<close>

fun as_index :: "js_value \<Rightarrow> nat" where
  "as_index (V_number d) = nat (integer_part d)"
| "as_index _ = 0"

section \<open>Typed arrays\<close>

datatype element = E_uint8 | E_int8 | E_int32 | E_float32 | E_float64

fun element_size :: "element \<Rightarrow> nat" where
  "element_size E_uint8 = 1"
| "element_size E_int8 = 1"
| "element_size E_int32 = 4"
| "element_size E_float32 = 4"
| "element_size E_float64 = 8"

definition signed_value :: "nat \<Rightarrow> nat \<Rightarrow> int" where
  "signed_value n v = (if v < 2 ^ (n - 1) then int v else int v - 2 ^ n)"

fun element_value :: "element \<Rightarrow> byte list \<Rightarrow> js_number" where
  "element_value E_uint8 bs = number_of_nat (le_value bs)"
| "element_value E_int8 bs = number_of_int (signed_value 8 (le_value bs))"
| "element_value E_int32 bs = number_of_int (signed_value 32 (le_value bs))"
| "element_value E_float32 bs = number_of_f32 (le_value bs)"
| "element_value E_float64 bs = of_nat (le_value bs)"

fun element_bytes :: "element \<Rightarrow> js_number \<Rightarrow> byte list" where
  "element_bytes E_float32 d = le_bytes 4 (f32_of_number d)"
| "element_bytes E_float64 d = le_bytes 8 (unat d)"
| "element_bytes t d = le_bytes (element_size t) (nat (integer_part d mod 256 ^ element_size t))"

record typed_array =
  ta_element :: element
  ta_memory :: nat
  ta_offset :: nat
  ta_count :: nat

definition detached :: "'e wasm \<Rightarrow> typed_array \<Rightarrow> 'e \<Rightarrow> bool" where
  "detached W a e \<longleftrightarrow> w_memory W e \<noteq> ta_memory a \<and> \<not> w_sharedMemory W e"

text \<open>\<open>new T(heap.buffer, heap.byteOffset, n)\<close> for \<open>heap = HEAPU8.subarray(ptr, ...)\<close>.\<close>

definition new_array :: "'e wasm \<Rightarrow> element \<Rightarrow> nat \<Rightarrow> nat \<Rightarrow> ('e, typed_array) jsm" where
  "new_array W t ptr n e =
     (let byteOffset = min ptr (length (w_HEAPU8 W e))
      in if byteOffset mod element_size t \<noteq> 0 \<or> length (w_HEAPU8 W e) < byteOffset + n * element_size t
         then (Inl (RangeError ''Invalid typed array length''), e)
         else (Inr \<lparr>ta_element = t, ta_memory = w_memory W e, ta_offset = byteOffset, ta_count = n\<rparr>, e))"

definition array_length :: "'e wasm \<Rightarrow> typed_array \<Rightarrow> 'e \<Rightarrow> nat" where
  "array_length W a e = (if detached W a e then 0 else ta_count a)"

definition array_at :: "typed_array \<Rightarrow> nat \<Rightarrow> nat" where
  "array_at a i = ta_offset a + i * element_size (ta_element a)"

definition array_get :: "'e wasm \<Rightarrow> typed_array \<Rightarrow> nat \<Rightarrow> 'e \<Rightarrow> js_value" where
  "array_get W a i e =
     (if array_length W a e \<le> i then V_undefined
      else V_number (element_value (ta_element a) (heap_view W (array_at a i) (element_size (ta_element a)) e)))"

definition array_set :: "'e wasm \<Rightarrow> typed_array \<Rightarrow> nat \<Rightarrow> js_number \<Rightarrow> 'e \<Rightarrow> 'e" where
  "array_set W a i d e = (if array_length W a e \<le> i then e else w_setHEAPU8 W (array_at a i) (element_bytes (ta_element a) d) e)"

section \<open>Helpers of the runtime\<close>

definition udf_malloc :: "'e wasm \<Rightarrow> nat \<Rightarrow> ('e, nat) jsm" where
  "udf_malloc W n e = (case w_malloc W n e of (p, e') \<Rightarrow> (Inr p, e'))"

definition set_response :: "'e wasm \<Rightarrow> nat \<Rightarrow> int \<Rightarrow> int \<Rightarrow> int \<Rightarrow> ('e, unit) jsm" where
  "set_response W response a b c e = (Inr (), w_setHEAPF64 W (drop_bit 3 response + 2) c
     (w_setHEAPF64 W (drop_bit 3 response + 1) b (w_setHEAPF64 W (drop_bit 3 response + 0) a e)))"

definition storeError :: "'e wasm \<Rightarrow> nat \<Rightarrow> string \<Rightarrow> ('e, unit) jsm" where
  "storeError W response message =
     (let msgBuffer = text_encode message
      in js_bind (udf_malloc W (length msgBuffer)) (\<lambda>heapAddr.
         js_bind (store_bytes W heapAddr msgBuffer) (\<lambda>_.
         set_response W response 1 (int heapAddr) (int (length msgBuffer)))))"

definition getTypeSize :: "string \<Rightarrow> nat" where
  "getTypeSize ptype =
     (if ptype \<in> {''UINT8'', ''INT8''} then 1
      else if ptype \<in> {''INT32'', ''FLOAT''} then 4
      else if ptype \<in> {''INT64'', ''UINT64'', ''DOUBLE'', ''VARCHAR''} then 8
      else 0)"

text \<open>The array type of a physical type; the others get an empty list, here \<open>None\<close>.\<close>

definition array_type :: "string \<Rightarrow> element option" where
  "array_type ptype =
     (if ptype = ''UINT8'' then Some E_uint8
      else if ptype = ''INT8'' then Some E_int8
      else if ptype = ''INT32'' then Some E_int32
      else if ptype = ''FLOAT'' then Some E_float32
      else if ptype = ''DOUBLE'' then Some E_float64
      else if ptype = ''VARCHAR'' then Some E_float64
      else None)"

definition ptrToArray :: "'e wasm \<Rightarrow> nat \<Rightarrow> string \<Rightarrow> nat \<Rightarrow> ('e, typed_array option) jsm" where
  "ptrToArray W ptr ptype n = (case array_type ptype of
     Some t \<Rightarrow> js_bind (new_array W t ptr n) (\<lambda>a. js_ret (Some a))
   | None \<Rightarrow> js_ret None)"

definition ptrToUint8Array :: "'e wasm \<Rightarrow> nat \<Rightarrow> nat \<Rightarrow> ('e, typed_array) jsm" where
  "ptrToUint8Array W = new_array W E_uint8"

definition ptrToFloat64Array :: "'e wasm \<Rightarrow> nat \<Rightarrow> nat \<Rightarrow> ('e, typed_array) jsm" where
  "ptrToFloat64Array W = new_array W E_float64"

definition get_opt :: "'e wasm \<Rightarrow> typed_array option \<Rightarrow> nat \<Rightarrow> 'e \<Rightarrow> js_value" where
  "get_opt W a i e = (case a of Some a \<Rightarrow> array_get W a i e | None \<Rightarrow> V_undefined)"

section \<open>The description\<close>

datatype ArgumentTypeDescription = Arg (arg_name: "string option") (arg_physicalType: string) (arg_validityBuffer: "nat option")
  (arg_dataBuffer: "nat option") (arg_lengthBuffer: "nat option") (arg_children: "ArgumentTypeDescription list")

record SchemaDescription =
  sd_rows :: nat
  sd_args :: "ArgumentTypeDescription list"
  sd_ret_physicalType :: string

definition string_of_json :: "json \<Rightarrow> string" where
  "string_of_json j = (case json_string_opt j of Some s \<Rightarrow> s | None \<Rightarrow> [])"

lemma size_member: "map_of kvs k = Some (JArr xs) \<Longrightarrow> x \<in> set xs \<Longrightarrow> size x < size (JObj kvs)"
proof (induction kvs)
  case (Cons kv kvs)
  have "size y \<le> size_list size ys" if "y \<in> set ys" for y :: json and ys using that by (induction ys) auto
  with Cons show ?case by (cases kv) (fastforce split: if_splits)
qed simp

function arg_of_json :: "json \<Rightarrow> ArgumentTypeDescription" where
  "arg_of_json (JObj kvs) = Arg (json_string_opt (json_field ''name'' (JObj kvs))) (string_of_json (json_field ''physicalType'' (JObj kvs)))
     (json_nat_opt (json_field ''validityBuffer'' (JObj kvs))) (json_nat_opt (json_field ''dataBuffer'' (JObj kvs)))
     (json_nat_opt (json_field ''lengthBuffer'' (JObj kvs)))
     (case map_of kvs ''children'' of Some (JArr xs) \<Rightarrow> map arg_of_json xs | _ \<Rightarrow> [])"
| "arg_of_json JNull = Arg None [] None None None []"
| "arg_of_json (JBool b) = Arg None [] None None None []"
| "arg_of_json (JNum i) = Arg None [] None None None []"
| "arg_of_json (JStr s) = Arg None [] None None None []"
| "arg_of_json (JArr xs) = Arg None [] None None None []"
  by pat_completeness auto

termination by (relation "measure size") (auto dest: size_member)

definition schema_of_json :: "json \<Rightarrow> SchemaDescription" where
  "schema_of_json j = \<lparr>sd_rows = json_nat (json_field ''rows'' j),
     sd_args = (case json_field ''args'' j of JArr xs \<Rightarrow> map arg_of_json xs | _ \<Rightarrow> []),
     sd_ret_physicalType = string_of_json (json_field ''physicalType'' (json_field ''ret'' j))\<rparr>"

section \<open>Arguments\<close>

text \<open>A resolver reads the value of a row from the memory as it is then.\<close>

type_synonym 'e resolver = "nat \<Rightarrow> 'e \<Rightarrow> js_value"

definition masked :: "'e wasm \<Rightarrow> typed_array option \<Rightarrow> 'e resolver \<Rightarrow> 'e resolver" where
  "masked W validity r row e = (case validity of
     Some v \<Rightarrow> if \<not> truthy (array_get W v row e) then V_null else r row e | None \<Rightarrow> r row e)"

definition ptr_at :: "'e wasm \<Rightarrow> typed_array \<Rightarrow> nat \<Rightarrow> 'e \<Rightarrow> nat" where
  "ptr_at W ptrs i e = as_index (array_get W ptrs i e)"

definition validity_array :: "'e wasm \<Rightarrow> typed_array \<Rightarrow> nat \<Rightarrow> nat option \<Rightarrow> ('e, typed_array option) jsm" where
  "validity_array W ptrs rows buffer e = (case buffer of
     None \<Rightarrow> (Inr None, e) | Some b \<Rightarrow> js_bind (ptrToUint8Array W (ptr_at W ptrs b e) rows) (\<lambda>a. js_ret (Some a)) e)"

text \<open>The strings are read at once.\<close>

definition read_strings :: "'e wasm \<Rightarrow> typed_array option \<Rightarrow> typed_array option \<Rightarrow> typed_array \<Rightarrow> nat \<Rightarrow> 'e \<Rightarrow> js_value list" where
  "read_strings W validity raw lengths rows e =
     map (\<lambda>j. masked W validity (\<lambda>j e. V_string (text_decode (heap_view W (as_index (get_opt W raw j e)) (as_index (array_get W lengths j e)) e))) j e)
       [0..<rows]"

definition varchar_resolver :: "'e wasm \<Rightarrow> typed_array \<Rightarrow> nat \<Rightarrow> typed_array option \<Rightarrow> string \<Rightarrow> nat option \<Rightarrow> nat option \<Rightarrow> ('e, 'e resolver) jsm" where
  "varchar_resolver W ptrs rows validity ptype data len e = (case (data, len) of
     (None, _) \<Rightarrow> (Inl (Error ''malformed data view, expected data buffer for VARCHAR argument''), e)
   | (Some d, None) \<Rightarrow> (Inl (Error ''malformed data view, expected data length buffer for VARCHAR argument''), e)
   | (Some d, Some l) \<Rightarrow>
       js_bind (ptrToArray W (ptr_at W ptrs d e) ptype rows) (\<lambda>raw.
       js_bind (\<lambda>e. ptrToFloat64Array W (ptr_at W ptrs l e) rows e) (\<lambda>stringLengths e.
         let strings = read_strings W validity raw stringLengths rows e
         in (Inr (\<lambda>row e. if row < length strings then strings ! row else V_undefined), e))) e)"

definition numeric_resolver :: "'e wasm \<Rightarrow> typed_array \<Rightarrow> nat \<Rightarrow> typed_array option \<Rightarrow> string \<Rightarrow> nat option \<Rightarrow> ('e, 'e resolver) jsm" where
  "numeric_resolver W ptrs rows validity ptype data e = (case data of
     None \<Rightarrow> (Inl (Error (''malformed data view, expected data buffer for argument of type: '' @ ptype)), e)
   | Some d \<Rightarrow> js_bind (ptrToArray W (ptr_at W ptrs d e) ptype rows) (\<lambda>a. js_ret (masked W validity (get_opt W a))) e)"

text \<open>The attributes are assigned in order: of two with one name the later one counts.\<close>

definition struct_value :: "(string \<times> 'e resolver) list \<Rightarrow> 'e resolver" where
  "struct_value children row e = V_object (foldl (\<lambda>m (k, r). jm_set k (r row e) m) [] children)"

fun buildResolver :: "'e wasm \<Rightarrow> typed_array \<Rightarrow> nat \<Rightarrow> ArgumentTypeDescription \<Rightarrow> ('e, 'e resolver) jsm"
  and build_children :: "'e wasm \<Rightarrow> typed_array \<Rightarrow> nat \<Rightarrow> ArgumentTypeDescription list \<Rightarrow> ('e, (string \<times> 'e resolver) list) jsm" where
  "buildResolver W ptrs rows (Arg name ptype validityBuffer dataBuffer lengthBuffer children) =
     js_bind (validity_array W ptrs rows validityBuffer) (\<lambda>validity.
       if ptype = ''VARCHAR'' then varchar_resolver W ptrs rows validity ptype dataBuffer lengthBuffer
       else if ptype = ''STRUCT'' then
         js_bind (build_children W ptrs rows children) (\<lambda>cs. js_ret (masked W validity (struct_value cs)))
       else numeric_resolver W ptrs rows validity ptype dataBuffer)"
| "build_children W ptrs rows [] = js_ret []"
| "build_children W ptrs rows (attr # attrs) =
     js_bind (buildResolver W ptrs rows attr) (\<lambda>child.
     js_bind (build_children W ptrs rows attrs) (\<lambda>cs.
     js_ret ((case arg_name attr of Some n \<Rightarrow> n | None \<Rightarrow> ''undefined'', child) # cs)))"

fun build_all :: "'e wasm \<Rightarrow> typed_array \<Rightarrow> nat \<Rightarrow> ArgumentTypeDescription list \<Rightarrow> ('e, 'e resolver list) jsm" where
  "build_all W ptrs rows [] = js_ret []"
| "build_all W ptrs rows (arg # args) =
     js_bind (buildResolver W ptrs rows arg) (\<lambda>r. js_bind (build_all W ptrs rows args) (\<lambda>rs. js_ret (r # rs)))"

section \<open>The call\<close>

text \<open>The module, and what else the function may read and change.\<close>

record ('e, 'u) udf_state =
  us_wasm :: 'e
  us_world :: 'u

type_synonym 'u udf = "js_value list \<Rightarrow> ('u, js_value) jsm"

definition in_mod :: "('e, 'a) jsm \<Rightarrow> (('e, 'u) udf_state, 'a) jsm" where
  "in_mod m s = (case m (us_wasm s) of (r, e) \<Rightarrow> (r, s\<lparr>us_wasm := e\<rparr>))"

definition in_world :: "('u, 'a) jsm \<Rightarrow> (('e, 'u) udf_state, 'a) jsm" where
  "in_world m s = (case m (us_world s) of (r, u) \<Rightarrow> (r, s\<lparr>us_world := u\<rparr>))"

text \<open>\<open>rawResultData[i] = res\<close>: for strings a list of its own, otherwise the array of the results.\<close>

definition keep_result :: "conversions \<Rightarrow> 'e wasm \<Rightarrow> typed_array option \<Rightarrow> nat \<Rightarrow> js_value \<Rightarrow> ('e, unit) jsm" where
  "keep_result C W rawResultData i res e = (case rawResultData of
     None \<Rightarrow> (Inr (), e)
   | Some a \<Rightarrow> (case ToNumber C res of Inl err \<Rightarrow> (Inl err, e) | Inr d \<Rightarrow> (Inr (), array_set W a i d e)))"

fun call_rows :: "conversions \<Rightarrow> 'e wasm \<Rightarrow> 'u udf \<Rightarrow> 'e resolver list \<Rightarrow> typed_array option \<Rightarrow> typed_array \<Rightarrow> nat list
    \<Rightarrow> (('e, 'u) udf_state, js_value list) jsm" where
  "call_rows C W func resolvers rawResultData resultValidity [] = js_ret []"
| "call_rows C W func resolvers rawResultData resultValidity (i # rows) = (\<lambda>s.
     js_bind (in_world (func (map (\<lambda>r. r i (us_wasm s)) resolvers))) (\<lambda>res.
     js_bind (in_mod (keep_result C W rawResultData i res)) (\<lambda>_.
     js_bind (in_mod (\<lambda>e. (Inr (), array_set W resultValidity i (number_of_nat (if nullish res then 0 else 1)) e))) (\<lambda>_.
     js_bind (call_rows C W func resolvers rawResultData resultValidity rows) (\<lambda>raw.
     js_ret (res # raw))))) s)"

fun encode_strings :: "conversions \<Rightarrow> 'e wasm \<Rightarrow> typed_array \<Rightarrow> nat \<Rightarrow> js_value list \<Rightarrow> ('e, byte list list) jsm" where
  "encode_strings C W resultLengths row [] = js_ret []"
| "encode_strings C W resultLengths row (v # vs) = (\<lambda>e. case (if truthy v then ToString C v else Inr []) of
     Inl err \<Rightarrow> (Inl err, e)
   | Inr str \<Rightarrow>
       js_bind (encode_strings C W resultLengths (Suc row) vs) (\<lambda>rest. js_ret (text_encode str # rest))
         (array_set W resultLengths row (number_of_nat (length (text_encode str))) e))"

fun copy_strings :: "'e wasm \<Rightarrow> typed_array option \<Rightarrow> nat \<Rightarrow> nat \<Rightarrow> nat \<Rightarrow> byte list list \<Rightarrow> ('e, unit) jsm" where
  "copy_strings W resultData resultStringPtr writerOffset row [] = js_ret ()"
| "copy_strings W resultData resultStringPtr writerOffset row (resultUTF8 # rest) = (\<lambda>e.
     js_bind (store_bytes W (resultStringPtr + writerOffset) resultUTF8) (\<lambda>_.
       copy_strings W resultData resultStringPtr (writerOffset + length resultUTF8) (Suc row) rest)
       (case resultData of Some a \<Rightarrow> array_set W a row (number_of_nat writerOffset) e | None \<Rightarrow> e))"

definition encode_result :: "conversions \<Rightarrow> 'e wasm \<Rightarrow> string \<Rightarrow> nat \<Rightarrow> typed_array option \<Rightarrow> js_value list \<Rightarrow> ('e, nat) jsm" where
  "encode_result C W ptype rows resultData raw =
     (if ptype \<noteq> ''VARCHAR'' then js_ret 0
      else js_bind (udf_malloc W (rows * getTypeSize ''DOUBLE'')) (\<lambda>resultLengthsPtr.
        js_bind (ptrToFloat64Array W resultLengthsPtr rows) (\<lambda>resultLengths.
        js_bind (encode_strings C W resultLengths 0 raw) (\<lambda>resultDataUTF8.
        js_bind (udf_malloc W (length (concat resultDataUTF8))) (\<lambda>resultStringPtr.
        js_bind (copy_strings W resultData resultStringPtr 0 0 resultDataUTF8) (\<lambda>_.
        js_ret resultLengthsPtr))))))"

definition pack_result :: "'e wasm \<Rightarrow> nat \<Rightarrow> nat \<Rightarrow> nat \<Rightarrow> nat \<Rightarrow> ('e, unit) jsm" where
  "pack_result W response resultDataPtr resultValidityPtr resultLengthsPtr =
     js_bind (udf_malloc W (3 * 8)) (\<lambda>retPtr.
     js_bind (ptrToFloat64Array W retPtr 3) (\<lambda>retBuffer.
     js_bind (js_modify (\<lambda>e. array_set W retBuffer 2 (number_of_nat resultLengthsPtr)
       (array_set W retBuffer 1 (number_of_nat resultValidityPtr) (array_set W retBuffer 0 (number_of_nat resultDataPtr) e)))) (\<lambda>_.
     set_response W response 0 (int retPtr) 0)))"

definition udf_body :: "conversions \<Rightarrow> 'e wasm \<Rightarrow> 'u udf \<Rightarrow> nat \<Rightarrow> SchemaDescription \<Rightarrow> typed_array \<Rightarrow> (('e, 'u) udf_state, unit) jsm" where
  "udf_body C W func response desc ptrs =
     (let rows = sd_rows desc; ptype = sd_ret_physicalType desc
      in js_bind (in_mod (build_all W ptrs rows (sd_args desc))) (\<lambda>argResolvers.
         js_bind (in_mod (udf_malloc W (rows * getTypeSize ptype))) (\<lambda>resultDataPtr.
         js_bind (in_mod (ptrToArray W resultDataPtr ptype rows)) (\<lambda>resultData.
         js_bind (in_mod (udf_malloc W rows)) (\<lambda>resultValidityPtr.
         js_bind (in_mod (ptrToUint8Array W resultValidityPtr rows)) (\<lambda>resultValidity s.
           if (case resultData of Some a \<Rightarrow> array_length W a (us_wasm s) = 0 | None \<Rightarrow> True)
             \<or> array_length W resultValidity (us_wasm s) = 0
           then in_mod (storeError W response (''Can'' @ [CHR 0x27] @ ''t create physical arrays for result'')) s
           else js_bind (call_rows C W func argResolvers (if ptype = ''VARCHAR'' then None else resultData) resultValidity [0..<rows]) (\<lambda>raw.
                js_bind (in_mod (encode_result C W ptype rows resultData raw)) (\<lambda>resultLengthsPtr.
                in_mod (pack_result W response resultDataPtr resultValidityPtr resultLengthsPtr))) s))))))"

definition callScalarUDF :: "conversions \<Rightarrow> 'e wasm \<Rightarrow> (nat, 'u udf) jsmap \<Rightarrow> nat \<Rightarrow> nat \<Rightarrow> nat \<Rightarrow> nat \<Rightarrow> nat \<Rightarrow> nat
    \<Rightarrow> (('e, 'u) udf_state, unit) jsm" where
  "callScalarUDF C W udfFunctions response funcId descPtr descSize ptrsPtr ptrsSize =
     js_try (case jm_get udfFunctions funcId of
         None \<Rightarrow> in_mod (storeError W response (''Unknown UDF with id: '' @ show_nat funcId))
       | Some func \<Rightarrow>
           js_bind (in_mod (readString W descPtr descSize)) (\<lambda>rawDesc. case JSON_parse rawDesc of
             Inl err \<Rightarrow> js_throw err
           | Inr j \<Rightarrow> js_bind (in_mod (ptrToFloat64Array W ptrsPtr (ptrsSize div 8))) (udf_body C W func response (schema_of_json j))))
       (\<lambda>err. in_mod (storeError W response (error_text err)))"

section \<open>The engine's reader\<close>

definition read_number :: "'e wasm \<Rightarrow> nat \<Rightarrow> 'e \<Rightarrow> nat" where
  "read_number W ptr e = nat (integer_part (element_value E_float64 (heap_view W ptr 8 e)))"

text \<open>\<open>CallScalarUDFFunction\<close> after the call: the bytes of each row, nothing for a NULL, or the text of an error.\<close>

definition engine_result :: "'e wasm \<Rightarrow> string \<Rightarrow> nat \<Rightarrow> nat \<Rightarrow> 'e \<Rightarrow> string + byte list option list" where
  "engine_result W ptype rows response e =
     (let cell = (\<lambda>i. w_HEAPF64 W e (response div 8 + i)); res = nat (cell 1)
      in if cell 0 \<noteq> 0 then Inl (text_decode (heap_view W (nat (cell 1)) (nat (cell 2)) e))
         else let res_arr = (\<lambda>i. read_number W (res + 8 * i) e)
           in Inr (map (\<lambda>row.
                if heap_view W (res_arr 1 + row) 1 e = [0] then None
                else if ptype = ''VARCHAR''
                then Some (heap_view W (read_number W (res_arr 0 + 8 * row) e) (read_number W (res_arr 2 + 8 * row) e) e)
                else Some (heap_view W (res_arr 0 + getTypeSize ptype * row) (getTypeSize ptype) e)) [0..<rows]))"

end
