(* ===== verification/Hb_Udf_Props.thy ===== *)
theory Hb_Udf_Props
  imports Hb_Udf
begin

text \<open>
  What the engine reads after a call of a scalar function: for a function with a number as its result exactly what the function
  returned for the arguments in the engine's memory, row by row; for one with a string as its result the bytes at the start of the
  memory, since the addresses of the strings are left as offsets.
\<close>

section \<open>Numbers\<close>

lemma log2_bounds: "n > 0 \<Longrightarrow> 2 ^ log2 n \<le> n \<and> n < 2 * 2 ^ log2 n"
proof (induction n rule: log2.induct)
  case (1 n)
  show ?case
  proof (cases "n < 2")
    case True
    with 1 show ?thesis by (simp add: log2.simps)
  next
    case False
    then have "2 ^ log2 (n div 2) \<le> n div 2 \<and> n div 2 < 2 * 2 ^ log2 (n div 2)" by (intro 1) auto
    moreover have "log2 n = Suc (log2 (n div 2))" using False by (subst log2.simps) simp
    ultimately show ?thesis by (simp only: power_Suc) arith
  qed
qed

lemma log2_less: "0 < n \<Longrightarrow> n < 2 ^ k \<Longrightarrow> log2 n < k"
  using log2_bounds [of n] by (meson le_less_trans nat_power_less_imp_less zero_less_numeral)

lemma number_of_nat_parts:
  assumes "0 < n" "n < 2 ^ 53"
  shows "unat (number_of_nat n) = (1023 + log2 n) * 2 ^ 52 + (n - 2 ^ log2 n) * 2 ^ (52 - log2 n)"
    "(n - 2 ^ log2 n) * 2 ^ (52 - log2 n) < 2 ^ 52" "log2 n \<le> 52"
proof -
  let ?k = "log2 n"
  note b = log2_bounds [OF assms(1)]
  show k: "?k \<le> 52" using log2_less [OF assms] by simp
  have "n - 2 ^ ?k < 2 ^ ?k" using b by arith
  then have "(n - 2 ^ ?k) * 2 ^ (52 - ?k) < 2 ^ ?k * 2 ^ (52 - ?k)" by simp
  also have "(2 :: nat) ^ ?k * 2 ^ (52 - ?k) = 2 ^ 52" using k by (simp flip: power_add)
  finally show m: "(n - 2 ^ ?k) * 2 ^ (52 - ?k) < 2 ^ 52" .
  have "(1023 + ?k) * 2 ^ 52 \<le> 1075 * (2 :: nat) ^ 52" using k by (intro mult_right_mono) auto
  with m have "(1023 + ?k) * 2 ^ 52 + (n - 2 ^ ?k) * 2 ^ (52 - ?k) < 1076 * (2 :: nat) ^ 52" by linarith
  also have "\<dots> < (2 :: nat) ^ 64" by simp
  finally show "unat (number_of_nat n) = (1023 + ?k) * 2 ^ 52 + (n - 2 ^ ?k) * 2 ^ (52 - ?k)"
    using assms(1) by (simp add: number_of_nat_def unsigned_of_nat take_bit_nat_eq_self del: of_nat_add of_nat_mult)
qed

lemma number_of_nat_fields:
  assumes "0 < n" "n < 2 ^ 53"
  shows "exponent (number_of_nat n) = 1023 + log2 n" "mantissa (number_of_nat n) = (n - 2 ^ log2 n) * 2 ^ (52 - log2 n)"
    "\<not> negative (number_of_nat n)"
proof -
  note p = number_of_nat_parts [OF assms]
  let ?m = "(n - 2 ^ log2 n) * 2 ^ (52 - log2 n)"
  have "((1023 + log2 n) * 2 ^ 52 + ?m) div 2 ^ 52 = 1023 + log2 n" using p(2) by (simp add: div_add1_eq)
  then show "exponent (number_of_nat n) = 1023 + log2 n" unfolding exponent_def p(1) using p(3) by simp
  show "mantissa (number_of_nat n) = ?m" unfolding mantissa_def p(1) using p(2) mod_mult_self3 [of "1023 + log2 n" "2 ^ 52" ?m] by (simp only: mod_less)
  have "(1023 + log2 n) * 2 ^ 52 \<le> 1075 * (2 :: nat) ^ 52" using p(3) by (intro mult_right_mono) auto
  then have "(1023 + log2 n) * 2 ^ 52 + ?m < 2 ^ 63" using p(2) by simp
  then show "\<not> negative (number_of_nat n)" unfolding negative_def p(1) by simp
qed

lemma integer_part_nat: "n < 2 ^ 53 \<Longrightarrow> integer_part (number_of_nat n) = int n"
proof (cases "n = 0")
  case True
  then show ?thesis by (simp add: number_of_nat_def integer_part_def exponent_def negative_def)
next
  case False
  assume n: "n < 2 ^ 53"
  from False have n0: "0 < n" by simp
  note f = number_of_nat_fields [OF n0 n] and k = number_of_nat_parts(3) [OF n0 n]
  let ?k = "log2 n"
  have "(2 :: nat) ^ 52 = 2 ^ ?k * 2 ^ (52 - ?k)" using k by (simp flip: power_add)
  then have "2 ^ 52 + (n - 2 ^ ?k) * 2 ^ (52 - ?k) = (2 ^ ?k + (n - 2 ^ ?k)) * 2 ^ (52 - ?k)" by (simp add: add_mult_distrib)
  also have "2 ^ ?k + (n - 2 ^ ?k) = n" using log2_bounds [OF n0] by simp
  finally have q: "(2 ^ 52 + (n - 2 ^ ?k) * 2 ^ (52 - ?k)) div 2 ^ (52 - ?k) = n" by simp
  show ?thesis using k q by (simp add: integer_part_def f Let_def del: power.simps)
qed

lemma truthy_nat: "n < 2 ^ 53 \<Longrightarrow> truthy_number (number_of_nat n) \<longleftrightarrow> n \<noteq> 0"
proof (cases "n = 0")
  case True
  then show ?thesis by (simp add: number_of_nat_def truthy_number_def)
next
  case False
  assume n: "n < 2 ^ 53"
  from False have n0: "0 < n" by simp
  note p = number_of_nat_parts [OF n0 n] and f = number_of_nat_fields [OF n0 n]
  have "unat (number_of_nat n) < 2 ^ 63" using f(3) by (simp add: negative_def)
  moreover have "unat (number_of_nat n) \<noteq> 0" unfolding p(1) by simp
  ultimately have "unat (number_of_nat n) mod 2 ^ 63 \<noteq> 0" by simp
  moreover have "\<not> isNaN (number_of_nat n)" using f(1) p(3) by (simp add: isNaN_def)
  ultimately show ?thesis using False by (simp add: truthy_number_def)
qed

lemma length_element_bytes [simp]: "length (element_bytes t d) = element_size t"
  by (cases t) (simp_all add: le_bytes_def)

lemma f64_roundtrip [simp]: "element_value E_float64 (element_bytes E_float64 d) = d"
proof -
  have "unat d < 2 ^ len_of TYPE(64)" by (rule unsigned_less)
  then have "unat d < 256 ^ 8" by simp
  then show ?thesis by (simp add: le_value_bytes)
qed

lemma uint8_truthy: "truthy (V_number (element_value E_uint8 [b])) \<longleftrightarrow> b \<noteq> 0"
proof -
  have "unat b < 2 ^ len_of TYPE(8)" by (rule unsigned_less)
  then have "unat b < 2 ^ 53" by simp
  then show ?thesis using truthy_nat [of "unat b"] by (simp add: le_value_def unat_eq_0)
qed

section \<open>Memory\<close>

text \<open>\<open>F\<close> is the room the allocator has in the memory as it is. An allocation that fits into it, with \<open>g\<close> bytes for the allocator
  itself, does not replace the memory's buffer and takes no more than that of the room; nothing is said of one that does not fit and makes the
  memory grow. Storing bytes changes neither.\<close>

definition memory_stays :: "'e wasm \<Rightarrow> nat \<Rightarrow> ('e \<Rightarrow> nat) \<Rightarrow> ('e \<Rightarrow> bool) \<Rightarrow> bool" where
  "memory_stays W g F I \<longleftrightarrow> (\<forall>e. I e \<longrightarrow> (\<forall>n. n + g \<le> F e \<longrightarrow> w_memory W (snd (w_malloc W n e)) = w_memory W e
       \<and> length (w_HEAPU8 W e) \<le> length (w_HEAPU8 W (snd (w_malloc W n e)))
       \<and> length (w_HEAPU8 W (snd (w_malloc W n e))) \<le> length (w_HEAPU8 W e) + n + g
       \<and> F e \<le> F (snd (w_malloc W n e)) + n + g)
     \<and> (\<forall>p bs. w_memory W (w_setHEAPU8 W p bs e) = w_memory W e \<and> F (w_setHEAPU8 W p bs e) = F e))"

definition in_block :: "'e wasm \<Rightarrow> ('e \<Rightarrow> (nat \<times> nat) list) \<Rightarrow> nat \<Rightarrow> nat \<Rightarrow> 'e \<Rightarrow> bool" where
  "in_block W L p n e \<longleftrightarrow> p + n \<le> length (w_HEAPU8 W e) \<and> (\<exists>(q, m) \<in> set (L e). q \<le> p \<and> p + n \<le> q + m)"

text \<open>From \<open>e\<close> to \<open>e'\<close> the blocks that were in use are still and hold what they held.\<close>

definition keeps_blocks :: "'e wasm \<Rightarrow> ('e \<Rightarrow> bool) \<Rightarrow> ('e \<Rightarrow> (nat \<times> nat) list) \<Rightarrow> 'e \<Rightarrow> 'e \<Rightarrow> bool" where
  "keeps_blocks W I L e e' \<longleftrightarrow> I e' \<and> w_memory W e' = w_memory W e \<and> set (L e) \<subseteq> set (L e')
     \<and> (\<forall>(q, m) \<in> set (L e). heap_view W q m e' = heap_view W q m e)"

lemma keeps_blocks_refl: "I e \<Longrightarrow> keeps_blocks W I L e e"
  by (auto simp: keeps_blocks_def)

lemma keeps_blocks_trans: "keeps_blocks W I L e e' \<Longrightarrow> keeps_blocks W I L e' e'' \<Longrightarrow> keeps_blocks W I L e e''"
  unfolding keeps_blocks_def by fastforce

lemma heap_view_inside:
  assumes "heap_view W q m e' = heap_view W q m e" "q \<le> p" "p + n \<le> q + m"
  shows "heap_view W p n e' = heap_view W p n e"
proof -
  have "heap_view W p n x = take n (drop (p - q) (heap_view W q m x))" for x
    using assms(2,3) by (simp add: heap_view_def subarray_def drop_take min_def)
  then show ?thesis using assms(1) by simp
qed

lemma keeps_block_view: "keeps_blocks W I L e e' \<Longrightarrow> in_block W L p n e \<Longrightarrow> heap_view W p n e' = heap_view W p n e"
  unfolding keeps_blocks_def in_block_def using heap_view_inside by fast

lemma keeps_malloc:
  assumes m: "memory_ok W I L" "memory_stays W g F I" and i: "I e" and p: "w_malloc W n e = (p, e')" and f: "n + g \<le> F e"
  shows "keeps_blocks W I L e e'" "8 dvd p" "p + n \<le> length (w_HEAPU8 W e')" "(p, n) \<in> set (L e')"
    "\<forall>(q, k) \<in> set (L e). apart p n q k"
    "length (w_HEAPU8 W e) \<le> length (w_HEAPU8 W e')" "length (w_HEAPU8 W e') \<le> length (w_HEAPU8 W e) + n + g" "F e \<le> F e' + n + g"
proof -
  have "malloc_ok W I L" using m(1) by (simp add: memory_ok_def)
  note a = mallocD [OF this i p]
  have "w_memory W e' = w_memory W e" using m(2) i p f unfolding memory_stays_def by (metis snd_conv)
  show "length (w_HEAPU8 W e) \<le> length (w_HEAPU8 W e')" "length (w_HEAPU8 W e') \<le> length (w_HEAPU8 W e) + n + g" "F e \<le> F e' + n + g"
    using m(2) i p f unfolding memory_stays_def by (metis snd_conv)+
  show "keeps_blocks W I L e e'" using a(1,4,5) \<open>w_memory W e' = w_memory W e\<close> by (auto simp: keeps_blocks_def heap_view_def)
  show "8 dvd p" "p + n \<le> length (w_HEAPU8 W e')" "(p, n) \<in> set (L e')" "\<forall>(q, k) \<in> set (L e). apart p n q k" using a by auto
qed

lemma view_overwrite:
  assumes "heap_is_memory W I" "I e" "p + length bs \<le> length (w_HEAPU8 W e)"
  shows "heap_view W p (length bs) (w_setHEAPU8 W p bs e) = bs"
    "apart p (length bs) q m \<Longrightarrow> heap_view W q m (w_setHEAPU8 W p bs e) = heap_view W q m e"
    "length (w_HEAPU8 W (w_setHEAPU8 W p bs e)) = length (w_HEAPU8 W e)" "I (w_setHEAPU8 W p bs e)"
proof -
  note h = heap_is_memoryD [OF assms]
  show "heap_view W p (length bs) (w_setHEAPU8 W p bs e) = bs" using subarray_overwrite [OF assms(3)] by (simp add: heap_view_def h(2))
  show "length (w_HEAPU8 W (w_setHEAPU8 W p bs e)) = length (w_HEAPU8 W e)" using assms(3) by (simp add: h(2))
  show "I (w_setHEAPU8 W p bs e)" by (rule h(1))
  assume "apart p (length bs) q m"
  then show "heap_view W q m (w_setHEAPU8 W p bs e) = heap_view W q m e"
    unfolding heap_view_def h(2) apart_def
  proof
    assume "q + m \<le> p"
    then show "subarray q (q + m) (overwrite p bs (w_HEAPU8 W e)) = subarray q (q + m) (w_HEAPU8 W e)"
      using assms(3) by (simp add: overwrite_def subarray_def drop_take)
  next
    assume a: "p + length bs \<le> q"
    then have "drop q (overwrite p bs (w_HEAPU8 W e)) = drop q (w_HEAPU8 W e)"
      using assms(3) by (simp add: overwrite_def)
    then show "subarray q (q + m) (overwrite p bs (w_HEAPU8 W e)) = subarray q (q + m) (w_HEAPU8 W e)" by (simp add: subarray_def)
  qed
qed

lemma keeps_write:
  assumes m: "memory_ok W I L" "memory_stays W g F I" and i: "I e'" and k: "keeps_blocks W I L e e'"
    and p: "p + length bs \<le> length (w_HEAPU8 W e')" "\<forall>(q, n) \<in> set (L e). apart p (length bs) q n"
  shows "keeps_blocks W I L e (w_setHEAPU8 W p bs e')"
proof -
  have h: "heap_is_memory W I" using m(1) by (simp add: memory_ok_def)
  have "L (w_setHEAPU8 W p bs e') = L e'" using m(1) i by (simp add: memory_ok_def malloc_ok_def)
  moreover have "w_memory W (w_setHEAPU8 W p bs e') = w_memory W e'" using m(2) i by (simp add: memory_stays_def)
  ultimately show ?thesis using k p(2) view_overwrite(2,4) [OF h i p(1)] by (fastforce simp: keeps_blocks_def)
qed

section \<open>Arguments\<close>

text \<open>An argument as it lies in memory.\<close>

definition attribute_name :: "ArgumentTypeDescription \<Rightarrow> string" where
  "attribute_name arg = (case arg_name arg of Some n \<Rightarrow> n | None \<Rightarrow> ''undefined'')"

fun arg_value :: "'e wasm \<Rightarrow> typed_array \<Rightarrow> nat \<Rightarrow> 'e \<Rightarrow> ArgumentTypeDescription \<Rightarrow> js_value" where
  "arg_value W ptrs row e (Arg name ptype validity data len children) =
     (let at = (\<lambda>buffer. ptr_at W ptrs (the buffer) e)
      in if validity \<noteq> None \<and> heap_view W (at validity + row) 1 e = [0] then V_null
         else if ptype = ''VARCHAR''
         then V_string (text_decode (heap_view W (read_number W (at data + 8 * row) e) (read_number W (at len + 8 * row) e) e))
         else if ptype = ''STRUCT''
         then V_object (foldl (\<lambda>m (k, v). jm_set k v m) [] (map (\<lambda>c. (attribute_name c, arg_value W ptrs row e c)) children))
         else case array_type ptype of
           None \<Rightarrow> V_undefined
         | Some t \<Rightarrow> V_number (element_value t (heap_view W (at data + element_size t * row) (element_size t) e)))"

text \<open>The buffers an argument needs are there, aligned and inside blocks that are in use.\<close>

definition buffer_ok :: "'e wasm \<Rightarrow> ('e \<Rightarrow> (nat \<times> nat) list) \<Rightarrow> typed_array \<Rightarrow> nat \<Rightarrow> element \<Rightarrow> nat option \<Rightarrow> 'e \<Rightarrow> bool" where
  "buffer_ok W L ptrs rows t buffer e \<longleftrightarrow> (case buffer of None \<Rightarrow> False | Some b \<Rightarrow>
     ptr_at W ptrs b e mod element_size t = 0 \<and> in_block W L (ptr_at W ptrs b e) (rows * element_size t) e)"

fun arg_ok :: "'e wasm \<Rightarrow> ('e \<Rightarrow> (nat \<times> nat) list) \<Rightarrow> typed_array \<Rightarrow> nat \<Rightarrow> 'e \<Rightarrow> ArgumentTypeDescription \<Rightarrow> bool" where
  "arg_ok W L ptrs rows e (Arg name ptype validity data len children) \<longleftrightarrow>
     (validity \<noteq> None \<longrightarrow> buffer_ok W L ptrs rows E_uint8 validity e)
     \<and> (if ptype = ''VARCHAR'' then buffer_ok W L ptrs rows E_float64 data e \<and> buffer_ok W L ptrs rows E_float64 len e
        else if ptype = ''STRUCT'' then list_all (arg_ok W L ptrs rows e) children
        else data \<noteq> None \<and> (case array_type ptype of None \<Rightarrow> True | Some t \<Rightarrow> buffer_ok W L ptrs rows t data e))"

lemma buffer_okE:
  assumes "buffer_ok W L ptrs rows t buffer e"
  obtains b where "buffer = Some b" "ptr_at W ptrs b e mod element_size t = 0" "in_block W L (ptr_at W ptrs b e) (rows * element_size t) e"
  using assms by (auto simp: buffer_ok_def split: option.splits)

lemma in_block_row: "in_block W L p (rows * n) e \<Longrightarrow> row < rows \<Longrightarrow> in_block W L (p + n * row) n e"
proof -
  assume b: "in_block W L p (rows * n) e" and r: "row < rows"
  have "n * row + n \<le> rows * n" using r mult_le_mono1 [of "Suc row" rows n] by (simp add: mult.commute)
  moreover obtain q m where "(q, m) \<in> set (L e)" "q \<le> p" "p + rows * n \<le> q + m" "p + rows * n \<le> length (w_HEAPU8 W e)"
    using b by (auto simp: in_block_def)
  ultimately show ?thesis unfolding in_block_def by (intro conjI bexI [of _ "(q, m)"]) auto
qed

lemma new_array_ok:
  assumes "p mod element_size t = 0" "p + rows * element_size t \<le> length (w_HEAPU8 W e)"
  shows "new_array W t p rows e = (Inr \<lparr>ta_element = t, ta_memory = w_memory W e, ta_offset = p, ta_count = rows\<rparr>, e)"
  using assms by (simp add: new_array_def min_def)

lemma array_get_kept:
  assumes k: "keeps_blocks W I L e e'" and b: "in_block W L p (rows * element_size t) e" and r: "row < rows"
  shows "array_get W \<lparr>ta_element = t, ta_memory = w_memory W e, ta_offset = p, ta_count = rows\<rparr> row e'
    = V_number (element_value t (heap_view W (p + element_size t * row) (element_size t) e))"
proof -
  have "w_memory W e' = w_memory W e" using k by (simp add: keeps_blocks_def)
  then show ?thesis using r keeps_block_view [OF k in_block_row [OF b r]]
    by (simp add: array_get_def array_length_def detached_def array_at_def mult.commute)
qed

lemma validity_ok:
  assumes v: "validity \<noteq> None \<longrightarrow> buffer_ok W L ptrs rows E_uint8 validity e"
  obtains a where "validity_array W ptrs rows validity e = (Inr a, e)"
    "\<And>r e' row. keeps_blocks W I L e e' \<Longrightarrow> row < rows \<Longrightarrow> masked W a r row e'
       = (if validity \<noteq> None \<and> heap_view W (ptr_at W ptrs (the validity) e + row) 1 e = [0] then V_null else r row e')"
proof (cases validity)
  case None
  then show ?thesis using that [of None] by (simp add: validity_array_def masked_def)
next
  case (Some b)
  let ?p = "ptr_at W ptrs b e"
  from v Some have b: "in_block W L ?p (rows * element_size E_uint8) e" by (auto simp: buffer_ok_def)
  let ?a = "\<lparr>ta_element = E_uint8, ta_memory = w_memory W e, ta_offset = ?p, ta_count = rows\<rparr>"
  have new: "new_array W E_uint8 ?p rows e = (Inr ?a, e)" using b by (intro new_array_ok) (simp_all add: in_block_def)
  have get: "truthy (array_get W ?a row e') \<longleftrightarrow> heap_view W (?p + row) 1 e \<noteq> [0]" if k: "keeps_blocks W I L e e'" "row < rows" for e' row
  proof -
    have "length (heap_view W (?p + row) 1 e) = 1" using b that(2) by (auto simp: heap_view_def in_block_def min_def)
    then obtain c where c: "heap_view W (?p + row) 1 e = [c]" by (auto simp: length_Suc_conv)
    show ?thesis using array_get_kept [OF k(1) b k(2)] c uint8_truthy [of c] by simp
  qed
  show ?thesis
  proof (rule that [of "Some ?a"])
    show "validity_array W ptrs rows validity e = (Inr (Some ?a), e)"
      using Some new by (simp add: validity_array_def ptrToUint8Array_def js_bind_def js_ret_def)
  qed (use Some get in \<open>simp add: masked_def\<close>)
qed

text \<open>A resolver that reads, from memory that is kept, the argument as it lay there.\<close>

definition resolves :: "'e wasm \<Rightarrow> ('e \<Rightarrow> bool) \<Rightarrow> ('e \<Rightarrow> (nat \<times> nat) list) \<Rightarrow> typed_array \<Rightarrow> nat \<Rightarrow> 'e \<Rightarrow> ArgumentTypeDescription
    \<Rightarrow> 'e resolver \<Rightarrow> bool" where
  "resolves W I L ptrs rows e arg r \<longleftrightarrow> (\<forall>e' row. keeps_blocks W I L e e' \<longrightarrow> row < rows \<longrightarrow> r row e' = arg_value W ptrs row e arg)"

lemma read_number_view: "element_value E_float64 (heap_view W p 8 e) = d \<Longrightarrow> read_number W p e = nat (integer_part d)"
  by (simp add: read_number_def)

lemma buildResolver_varchar:
  assumes i: "I e" and v: "\<And>r e' row. keeps_blocks W I L e e' \<Longrightarrow> row < rows \<Longrightarrow> masked W a r row e' = (if P row then V_null else r row e')"
    and d: "buffer_ok W L ptrs rows E_float64 data e" and l: "buffer_ok W L ptrs rows E_float64 len e"
  obtains r where "varchar_resolver W ptrs rows a ''VARCHAR'' data len e = (Inr r, e)"
    "\<And>row e'. row < rows \<Longrightarrow> r row e' = (if P row then V_null else
       V_string (text_decode (heap_view W (read_number W (ptr_at W ptrs (the data) e + 8 * row) e) (read_number W (ptr_at W ptrs (the len) e + 8 * row) e) e)))"
proof -
  from d obtain db where db: "data = Some db" "ptr_at W ptrs db e mod 8 = 0" "in_block W L (ptr_at W ptrs db e) (rows * element_size E_float64) e"
    by (auto elim!: buffer_okE)
  from l obtain lb where lb: "len = Some lb" "ptr_at W ptrs lb e mod 8 = 0" "in_block W L (ptr_at W ptrs lb e) (rows * element_size E_float64) e"
    by (auto elim!: buffer_okE)
  let ?d = "\<lparr>ta_element = E_float64, ta_memory = w_memory W e, ta_offset = ptr_at W ptrs db e, ta_count = rows\<rparr>"
  let ?l = "\<lparr>ta_element = E_float64, ta_memory = w_memory W e, ta_offset = ptr_at W ptrs lb e, ta_count = rows\<rparr>"
  have nd: "new_array W E_float64 (ptr_at W ptrs db e) rows e = (Inr ?d, e)" using db(2,3) by (intro new_array_ok) (simp_all add: in_block_def)
  have nl: "new_array W E_float64 (ptr_at W ptrs lb e) rows e = (Inr ?l, e)" using lb(2,3) by (intro new_array_ok) (simp_all add: in_block_def)
  note k = keeps_blocks_refl [of I e W L, OF i]
  define strings where "strings = read_strings W a (Some ?d) ?l rows e"
  have s: "strings ! row = (if P row then V_null else V_string (text_decode (heap_view W
      (read_number W (ptr_at W ptrs db e + 8 * row) e) (read_number W (ptr_at W ptrs lb e + 8 * row) e) e)))" "row < length strings"
    if r: "row < rows" for row
    using r v [OF k r] array_get_kept [OF k db(3) r] array_get_kept [OF k lb(3) r]
    by (simp_all add: strings_def read_strings_def get_opt_def read_number_def)
  have "varchar_resolver W ptrs rows a ''VARCHAR'' data len e = (Inr (\<lambda>row e. if row < length strings then strings ! row else V_undefined), e)"
    unfolding strings_def using db(1) lb(1) nd nl
    by (simp add: varchar_resolver_def ptrToArray_def array_type_def ptrToFloat64Array_def js_bind_def js_ret_def Let_def)
  then show ?thesis by (rule that) (use s db(1) lb(1) in simp)
qed

lemma buildResolver_numeric:
  assumes i: "I e" and v: "\<And>r e' row. keeps_blocks W I L e e' \<Longrightarrow> row < rows \<Longrightarrow> masked W a r row e' = (if P row then V_null else r row e')"
    and d: "data \<noteq> None" "case array_type ptype of None \<Rightarrow> True | Some t \<Rightarrow> buffer_ok W L ptrs rows t data e"
  obtains r where "numeric_resolver W ptrs rows a ptype data e = (Inr r, e)"
    "\<And>row e'. keeps_blocks W I L e e' \<Longrightarrow> row < rows \<Longrightarrow> r row e' = (if P row then V_null else case array_type ptype of
       None \<Rightarrow> V_undefined
     | Some t \<Rightarrow> V_number (element_value t (heap_view W (ptr_at W ptrs (the data) e + element_size t * row) (element_size t) e)))"
proof (cases "array_type ptype")
  case None
  then have "numeric_resolver W ptrs rows a ptype data e = (Inr (masked W a (get_opt W None)), e)"
    using d(1) by (auto simp: numeric_resolver_def ptrToArray_def js_bind_def js_ret_def)
  then show ?thesis by (rule that) (use None v in \<open>simp add: get_opt_def\<close>)
next
  case (Some t)
  with d obtain b where b: "data = Some b" "ptr_at W ptrs b e mod element_size t = 0" "in_block W L (ptr_at W ptrs b e) (rows * element_size t) e"
    by (auto elim!: buffer_okE)
  let ?a = "\<lparr>ta_element = t, ta_memory = w_memory W e, ta_offset = ptr_at W ptrs b e, ta_count = rows\<rparr>"
  have "new_array W t (ptr_at W ptrs b e) rows e = (Inr ?a, e)" using b(2,3) by (intro new_array_ok) (simp_all add: in_block_def)
  then have "numeric_resolver W ptrs rows a ptype data e = (Inr (masked W a (get_opt W (Some ?a))), e)"
    using b(1) Some by (simp add: numeric_resolver_def ptrToArray_def js_bind_def js_ret_def)
  then show ?thesis by (rule that) (use Some v b(1) array_get_kept [OF _ b(3)] in \<open>simp add: get_opt_def\<close>)
qed

lemma foldl_resolvers:
  "list_all2 (\<lambda>c (k, r). k = attribute_name c \<and> r row e' = f c) cs rs \<Longrightarrow>
     foldl (\<lambda>m (k, r). jm_set k (r row e') m) m rs = foldl (\<lambda>m (k, v). jm_set k v m) m (map (\<lambda>c. (attribute_name c, f c)) cs)"
  by (induction cs rs arbitrary: m rule: list_all2_induct) (auto split: prod.splits)

lemma buildResolver_ok:
  fixes W :: "'e wasm"
  assumes i: "I e"
  shows "arg_ok W L ptrs rows e arg \<Longrightarrow> \<exists>r. buildResolver W ptrs rows arg e = (Inr r, e) \<and> resolves W I L ptrs rows e arg r"
    and "list_all (arg_ok W L ptrs rows e) args \<Longrightarrow> \<exists>rs. build_children W ptrs rows args e = (Inr rs, e)
       \<and> list_all2 (\<lambda>c (k, r). k = attribute_name c \<and> resolves W I L ptrs rows e c r) args rs"
proof (induction W ptrs rows arg and W ptrs rows args rule: buildResolver_build_children.induct)
  case (1 W ptrs rows name ptype validity data len children)
  from 1(2) have v: "validity \<noteq> None \<longrightarrow> buffer_ok W L ptrs rows E_uint8 validity e" by simp
  obtain a where a: "validity_array W ptrs rows validity e = (Inr a, e)"
    "\<And>r e' row. keeps_blocks W I L e e' \<Longrightarrow> row < rows \<Longrightarrow> masked W a r row e'
       = (if validity \<noteq> None \<and> heap_view W (ptr_at W ptrs (the validity) e + row) 1 e = [0] then V_null else r row e')"
    using validity_ok [OF v] by metis
  define P where "P = (\<lambda>row. validity \<noteq> None \<and> heap_view W (ptr_at W ptrs (the validity) e + row) 1 e = [0])"
  have m: "keeps_blocks W I L e e' \<Longrightarrow> row < rows \<Longrightarrow> masked W a r row e' = (if P row then V_null else r row e')" for r e' row
    using a(2) by (simp add: P_def)
  consider (varchar) "ptype = ''VARCHAR''" | (struct) "ptype = ''STRUCT''" | (numeric) "ptype \<noteq> ''VARCHAR''" "ptype \<noteq> ''STRUCT''" by blast
  then show ?case
  proof cases
    case varchar
    with 1(2) have b: "buffer_ok W L ptrs rows E_float64 data e" "buffer_ok W L ptrs rows E_float64 len e" by simp_all
    obtain r where r: "varchar_resolver W ptrs rows a ''VARCHAR'' data len e = (Inr r, e)"
      "\<And>row e'. row < rows \<Longrightarrow> r row e' = (if P row then V_null else V_string (text_decode (heap_view W
         (read_number W (ptr_at W ptrs (the data) e + 8 * row) e) (read_number W (ptr_at W ptrs (the len) e + 8 * row) e) e)))"
      using buildResolver_varchar [of I e, OF i m b] by blast
    then show ?thesis using varchar a(1) by (simp add: js_bind_def resolves_def Let_def P_def)
  next
    case struct
    then have "list_all (arg_ok W L ptrs rows e) children" using 1(2) by simp
    with 1(1) struct obtain rs where rs: "build_children W ptrs rows children e = (Inr rs, e)"
      "list_all2 (\<lambda>c (k, r). k = attribute_name c \<and> resolves W I L ptrs rows e c r) children rs" by auto
    have "struct_value rs row e' = V_object (foldl (\<lambda>m (k, v). jm_set k v m) [] (map (\<lambda>c. (attribute_name c, arg_value W ptrs row e c)) children))"
      if "keeps_blocks W I L e e'" "row < rows" for e' row
      unfolding struct_value_def using that
      by (intro arg_cong [where f = V_object] foldl_resolvers list_all2_mono [OF rs(2)]) (auto simp: resolves_def)
    with a struct rs(1) show ?thesis by (auto simp: js_bind_def js_ret_def resolves_def Let_def)
  next
    case numeric
    with 1(2) have b: "data \<noteq> None" "case array_type ptype of None \<Rightarrow> True | Some t \<Rightarrow> buffer_ok W L ptrs rows t data e" by simp_all
    obtain r where r: "numeric_resolver W ptrs rows a ptype data e = (Inr r, e)"
      "\<And>row e'. keeps_blocks W I L e e' \<Longrightarrow> row < rows \<Longrightarrow> r row e' = (if P row then V_null else case array_type ptype of
         None \<Rightarrow> V_undefined
       | Some t \<Rightarrow> V_number (element_value t (heap_view W (ptr_at W ptrs (the data) e + element_size t * row) (element_size t) e)))"
      using buildResolver_numeric [of I e, OF i m b] by blast
    then show ?thesis using numeric a(1) by (simp add: js_bind_def resolves_def Let_def P_def)
  qed
next
  case (3 W ptrs rows attr attrs)
  then obtain r rs where "buildResolver W ptrs rows attr e = (Inr r, e)" "resolves W I L ptrs rows e attr r"
    "build_children W ptrs rows attrs e = (Inr rs, e)"
    "list_all2 (\<lambda>c (k, r). k = attribute_name c \<and> resolves W I L ptrs rows e c r) attrs rs" by auto
  then show ?case by (simp add: js_bind_def js_ret_def attribute_name_def)
qed (simp add: js_ret_def)

lemma build_all_ok:
  assumes "I e" "list_all (arg_ok W L ptrs rows e) args"
  shows "\<exists>rs. build_all W ptrs rows args e = (Inr rs, e) \<and> list_all2 (resolves W I L ptrs rows e) args rs"
  using assms(2)
proof (induction args)
  case (Cons arg args)
  from Cons.prems buildResolver_ok(1) [where I = I, OF assms(1)] obtain r where
    r: "buildResolver W ptrs rows arg e = (Inr r, e)" "resolves W I L ptrs rows e arg r" by fastforce
  from Cons obtain rs where "build_all W ptrs rows args e = (Inr rs, e)" "list_all2 (resolves W I L ptrs rows e) args rs" by auto
  with r show ?case by (simp add: js_bind_def js_ret_def)
qed (simp add: js_ret_def)

lemma resolve_row:
  assumes "list_all2 (resolves W I L ptrs rows e) args rs" "keeps_blocks W I L e e'" "row < rows"
  shows "map (\<lambda>r. r row e') rs = map (arg_value W ptrs row e) args"
  using assms(1) by (induction rule: list_all2_induct) (use assms(2,3) in \<open>simp_all add: resolves_def\<close>)

section \<open>Writing\<close>

text \<open>From \<open>e\<close> to \<open>e'\<close> only the regions of \<open>R\<close> are written.\<close>

definition writes :: "'e wasm \<Rightarrow> ('e \<Rightarrow> nat) \<Rightarrow> ('e \<Rightarrow> bool) \<Rightarrow> ('e \<Rightarrow> (nat \<times> nat) list) \<Rightarrow> (nat \<times> nat) set \<Rightarrow> 'e \<Rightarrow> 'e \<Rightarrow> bool" where
  "writes W F I L R e e' \<longleftrightarrow> I e' \<and> w_memory W e' = w_memory W e \<and> L e' = L e \<and> F e' = F e \<and> length (w_HEAPU8 W e') = length (w_HEAPU8 W e)
     \<and> (\<forall>q m. (\<forall>(p, n) \<in> R. apart p n q m) \<longrightarrow> heap_view W q m e' = heap_view W q m e)"

lemma writes_refl: "I e \<Longrightarrow> writes W F I L R e e"
  by (simp add: writes_def)

lemma writes_trans: "writes W F I L R e e' \<Longrightarrow> writes W F I L S e' e'' \<Longrightarrow> writes W F I L (R \<union> S) e e''"
  by (simp add: writes_def ball_Un)

lemma writes_mono: "writes W F I L R e e' \<Longrightarrow> R \<subseteq> S \<Longrightarrow> writes W F I L S e e'"
  unfolding writes_def by blast

lemma writes_view: "writes W F I L R e e' \<Longrightarrow> \<forall>(p, n) \<in> R. apart p n q m \<Longrightarrow> heap_view W q m e' = heap_view W q m e"
  by (simp add: writes_def)

lemma writes_keeps:
  assumes "keeps_blocks W I L e e'" "writes W F I L R e' e''" "\<forall>(q, m) \<in> set (L e). \<forall>(p, n) \<in> R. apart p n q m"
  shows "keeps_blocks W I L e e''"
  using assms unfolding keeps_blocks_def writes_def by fastforce

lemma array_set_writes:
  assumes m: "memory_ok W I L" "memory_stays W g F I" and i: "I e" and a: "ta_memory a = w_memory W e" "i < ta_count a"
    "array_at a i + element_size (ta_element a) \<le> length (w_HEAPU8 W e)"
  shows "writes W F I L {(array_at a i, element_size (ta_element a))} e (array_set W a i d e)"
    "heap_view W (array_at a i) (element_size (ta_element a)) (array_set W a i d e) = element_bytes (ta_element a) d"
proof -
  let ?bs = "element_bytes (ta_element a) d"
  have h: "heap_is_memory W I" "array_at a i + length ?bs \<le> length (w_HEAPU8 W e)" using m(1) a(3) by (simp_all add: memory_ok_def)
  note v = view_overwrite [OF h(1) i h(2)]
  have s: "array_set W a i d e = w_setHEAPU8 W (array_at a i) ?bs e"
    using a(1,2) by (simp add: array_set_def array_length_def detached_def)
  show "heap_view W (array_at a i) (element_size (ta_element a)) (array_set W a i d e) = ?bs" using v(1) s by simp
  have "L (array_set W a i d e) = L e" "w_memory W (array_set W a i d e) = w_memory W e" "F (array_set W a i d e) = F e"
    using m i by (simp_all add: s memory_ok_def malloc_ok_def memory_stays_def)
  then show "writes W F I L {(array_at a i, element_size (ta_element a))} e (array_set W a i d e)"
    using v(2,3,4) s by (simp add: writes_def)
qed

lemma apart_inside: "apart p n q m \<Longrightarrow> p \<le> p' \<Longrightarrow> p' + n' \<le> p + n \<Longrightarrow> apart p' n' q m"
  by (auto simp: apart_def)

lemma apart_sym: "apart p n q m \<longleftrightarrow> apart q m p n"
  by (auto simp: apart_def)

text \<open>The rows from \<open>i\<close> on of the two result arrays.\<close>

definition row_regions :: "nat \<Rightarrow> nat \<Rightarrow> nat \<Rightarrow> nat \<Rightarrow> nat \<Rightarrow> (nat \<times> nat) set" where
  "row_regions D k V i n = (\<lambda>j. (D + j * k, k)) ` {i..<n} \<union> (\<lambda>j. (V + j, 1)) ` {i..<n}"

lemma row_end: "j < n \<Longrightarrow> j * k + k \<le> n * (k :: nat)"
  using mult_le_mono1 [of "Suc j" n k] by simp

lemma row_regions_all:
  "(\<forall>(p, l) \<in> row_regions D k V i n. Q p l) \<longleftrightarrow> (\<forall>j. i \<le> j \<longrightarrow> j < n \<longrightarrow> Q (D + j * k) k \<and> Q (V + j) 1)"
  by (simp add: row_regions_def ball_Un) (meson atLeastLessThan_iff)

lemma row_regions_Suc:
  assumes "i < n"
  shows "row_regions D k V i n = {(D + i * k, k), (V + i, 1)} \<union> row_regions D k V (Suc i) n"
proof -
  have "{i..<n} = insert i {Suc i..<n}" using assms by auto
  then show ?thesis unfolding row_regions_def by (simp only: image_insert) blast
qed

lemma row_regions_apart:
  assumes "apart D (n * k) q m" "apart V n q m"
  shows "\<forall>(p, l) \<in> row_regions D k V i n. apart p l q m"
  unfolding row_regions_all using row_end [of _ n k]
  by (auto intro: apart_inside [OF assms(1)] apart_inside [OF assms(2)])

lemma row_regions_step:
  assumes "apart D (n * k) V n" "i < n"
  shows "\<forall>(p, l) \<in> row_regions D k V (Suc i) n. apart p l (D + i * k) k" "\<forall>(p, l) \<in> row_regions D k V (Suc i) n. apart p l (V + i) 1"
    "apart (V + i) 1 (D + i * k) k"
proof -
  have d: "apart (D + j * k) k (V + l) 1" if "j < n" "l < n" for j l
    using assms(1) row_end [OF that(1), of k] that(2) by (auto simp: apart_def)
  then have d': "apart (V + l) 1 (D + j * k) k" if "j < n" "l < n" for j l using that by (simp add: apart_sym)
  have e: "apart (D + j * k) k (D + i * k) k" if "i < j" for j using row_end [OF that, of k] by (simp add: apart_def)
  show "\<forall>(p, l) \<in> row_regions D k V (Suc i) n. apart p l (D + i * k) k"
    unfolding row_regions_all using d' [OF assms(2)] e by (simp add: Suc_le_eq)
  show "\<forall>(p, l) \<in> row_regions D k V (Suc i) n. apart p l (V + i) 1"
    unfolding row_regions_all using d [OF _ assms(2)] by (simp add: apart_def)
  show "apart (V + i) 1 (D + i * k) k" by (rule d' [OF assms(2,2)])
qed

section \<open>The rows\<close>

text \<open>The function called on one tuple of arguments after the other.\<close>

fun run_rows :: "'u udf \<Rightarrow> js_value list list \<Rightarrow> ('u, js_value list) jsm" where
  "run_rows func [] = js_ret []"
| "run_rows func (args # rest) = js_bind (func args) (\<lambda>v. js_bind (run_rows func rest) (\<lambda>vs. js_ret (v # vs)))"

text \<open>The arrays for the results, apart from each other and from the blocks of the engine.\<close>

definition result_arrays :: "'e wasm \<Rightarrow> ('e \<Rightarrow> (nat \<times> nat) list) \<Rightarrow> 'e \<Rightarrow> element \<Rightarrow> nat \<Rightarrow> nat \<Rightarrow> nat \<Rightarrow> 'e \<Rightarrow> bool" where
  "result_arrays W L e0 t D V n e \<longleftrightarrow> apart D (n * element_size t) V n
     \<and> D + n * element_size t \<le> length (w_HEAPU8 W e) \<and> V + n \<le> length (w_HEAPU8 W e)
     \<and> (\<forall>(q, m) \<in> set (L e0). apart D (n * element_size t) q m \<and> apart V n q m)"

abbreviation result_array :: "'e wasm \<Rightarrow> element \<Rightarrow> nat \<Rightarrow> nat \<Rightarrow> 'e \<Rightarrow> typed_array" where
  "result_array W t p n e \<equiv> \<lparr>ta_element = t, ta_memory = w_memory W e, ta_offset = p, ta_count = n\<rparr>"

definition flag :: "js_value \<Rightarrow> byte list" where
  "flag v = [if nullish v then 0 else 1]"

lemma flag_bytes: "element_bytes E_uint8 (number_of_nat (if nullish v then 0 else 1)) = flag v"
  using integer_part_nat [of 1] integer_part_nat [of 0] by (cases "nullish v") (simp_all add: le_bytes_def flag_def)

lemma result_arrays_kept: "result_arrays W L e0 t D V n e \<Longrightarrow> writes W F I L R e e' \<Longrightarrow> result_arrays W L e0 t D V n e'"
  by (simp add: result_arrays_def writes_def)

lemma result_arrays_regions:
  assumes "result_arrays W L e0 t D V n e"
  shows "\<forall>(q, l) \<in> set (L e0). \<forall>(p, k) \<in> row_regions D (element_size t) V i n. apart p k q l"
proof (intro ballI, unfold split_paired_all prod.case)
  fix q l assume "(q, l) \<in> set (L e0)"
  then have "apart D (n * element_size t) q l" "apart V n q l" using assms by (auto simp: result_arrays_def)
  then show "\<forall>(p, k) \<in> row_regions D (element_size t) V i n. apart p k q l" by (rule row_regions_apart)
qed

text \<open>One row: the result, unless it is kept aside, and the flag.\<close>

lemma row_written:
  assumes m: "memory_ok W I L" "memory_stays W g F I" and i: "I e" "i < n" and r: "result_arrays W L e0 t D V n e"
    and d: "raw = None \<or> raw = Some (result_array W t D n e) \<and> ToNumber C v = Inr d"
  obtains e1 e2 where "keep_result C W raw i v e = (Inr (), e1)"
    "e2 = array_set W (result_array W E_uint8 V n e) i (number_of_nat (if nullish v then 0 else 1)) e1"
    "writes W F I L {(D + i * element_size t, element_size t), (V + i, 1)} e e2"
    "raw \<noteq> None \<Longrightarrow> heap_view W (D + i * element_size t) (element_size t) e2 = element_bytes t d"
    "heap_view W (V + i) 1 e2 = flag v"
proof -
  let ?D = "result_array W t D n e" and ?V = "result_array W E_uint8 V n e"
  let ?f = "number_of_nat (if nullish v then 0 else 1)"
  define e1 where "e1 = (if raw = None then e else array_set W ?D i d e)"
  have aD: "array_at ?D i = D + i * element_size t" "array_at ?V i = V + i" by (simp_all add: array_at_def)
  have roomD: "array_at ?D i + element_size (ta_element ?D) \<le> length (w_HEAPU8 W e)"
    using r row_end [OF i(2), of "element_size t"] by (simp add: result_arrays_def aD)
  note w = array_set_writes [OF m i(1) _ _ roomD, of d]
  have k: "keep_result C W raw i v e = (Inr (), e1)" using d by (auto simp: keep_result_def e1_def)
  have w1: "writes W F I L {(D + i * element_size t, element_size t)} e e1"
    "raw \<noteq> None \<Longrightarrow> heap_view W (D + i * element_size t) (element_size t) e1 = element_bytes t d"
    using w i aD writes_refl [of I e W F L] by (auto simp: e1_def)
  have i1: "I e1" "ta_memory ?V = w_memory W e1" "i < ta_count ?V" "array_at ?V i + element_size (ta_element ?V) \<le> length (w_HEAPU8 W e1)"
    using w1(1) i(2) r by (auto simp: writes_def result_arrays_def aD)
  note w2 = array_set_writes [OF m i1, of ?f]
  have "writes W F I L {(V + i, 1)} e1 (array_set W ?V i ?f e1)" using w2(1) by (simp add: aD)
  from writes_trans [OF w1(1) this]
  have w3: "writes W F I L {(D + i * element_size t, element_size t), (V + i, 1)} e (array_set W ?V i ?f e1)" by (simp only: insert_is_Un [symmetric])
  have "apart (V + i) 1 (D + i * element_size t) (element_size t)"
    using row_regions_step(3) [of D n "element_size t" V i] r i(2) by (simp add: result_arrays_def)
  then have v: "heap_view W (D + i * element_size t) (element_size t) (array_set W ?V i ?f e1) = heap_view W (D + i * element_size t) (element_size t) e1"
    using writes_view [OF w2(1)] by (simp add: aD)
  have "heap_view W (V + i) 1 (array_set W ?V i ?f e1) = flag v"
    using w2(2) by (simp only: aD typed_array.simps element_size.simps flag_bytes)
  with k w1(2) w3 v that [of e1] show ?thesis by simp
qed

lemma rows_written:
  assumes m: "memory_ok W I L" "memory_stays W g F I" and k: "keeps_blocks W I L e0 e" and r: "result_arrays W L e0 t D V n e"
    and rs: "list_all2 (resolves W I L ptrs n e0) args rs"
    and raw: "raw = None \<or> raw = Some (result_array W t D n e) \<and> (\<forall>v \<in> set vs. \<exists>d. ToNumber C v = Inr d)"
    and run: "run_rows func (map (\<lambda>row. map (arg_value W ptrs row e0) args) [i..<n]) u = (Inr vs, u')"
  shows "\<exists>e'. call_rows C W func rs raw (result_array W E_uint8 V n e) [i..<n] \<lparr>us_wasm = e, us_world = u\<rparr>
      = (Inr vs, \<lparr>us_wasm = e', us_world = u'\<rparr>)
    \<and> writes W F I L (row_regions D (element_size t) V i n) e e' \<and> length vs = n - i
    \<and> (\<forall>j < n - i. heap_view W (V + (i + j)) 1 e' = flag (vs ! j)
        \<and> (raw \<noteq> None \<longrightarrow> (\<exists>d. ToNumber C (vs ! j) = Inr d \<and> heap_view W (D + (i + j) * element_size t) (element_size t) e' = element_bytes t d)))"
  using k r raw run
proof (induction "n - i" arbitrary: i e u vs)
  case 0
  then show ?case using writes_refl [of I e W F L] by (auto simp: js_ret_def keeps_blocks_def)
next
  case (Suc x)
  from Suc.hyps(2) have i: "i < n" "[i..<n] = i # [Suc i..<n]" by (simp_all add: upt_conv_Cons)
  from Suc.prems(4) i(2) obtain v vs' u1 where v: "func (map (arg_value W ptrs i e0) args) u = (Inr v, u1)" "vs = v # vs'"
    "run_rows func (map (\<lambda>row. map (arg_value W ptrs row e0) args) [Suc i..<n]) u1 = (Inr vs', u')"
    by (auto simp: js_bind_def js_ret_def split: prod.splits sum.splits)
  have Ie: "I e" using Suc.prems(1) by (simp add: keeps_blocks_def)
  obtain d where d: "raw = None \<or> raw = Some (result_array W t D n e) \<and> ToNumber C v = Inr d" using Suc.prems(3) v(2) by auto
  obtain e1 e2 where e: "keep_result C W raw i v e = (Inr (), e1)"
    "e2 = array_set W (result_array W E_uint8 V n e) i (number_of_nat (if nullish v then 0 else 1)) e1"
    "writes W F I L {(D + i * element_size t, element_size t), (V + i, 1)} e e2"
    "raw \<noteq> None \<Longrightarrow> heap_view W (D + i * element_size t) (element_size t) e2 = element_bytes t d" "heap_view W (V + i) 1 e2 = flag v"
    using row_written [OF m Ie i(1) Suc.prems(2) d] by metis
  have sub: "{(D + i * element_size t, element_size t), (V + i, 1)} \<subseteq> row_regions D (element_size t) V i n"
    using row_regions_Suc [OF i(1)] by blast
  have k2: "keeps_blocks W I L e0 e2"
    using writes_keeps [OF Suc.prems(1) writes_mono [OF e(3) sub] result_arrays_regions [OF Suc.prems(2)]] .
  have same: "w_memory W e2 = w_memory W e" using e(3) by (simp add: writes_def)
  have raw2: "raw = None \<or> raw = Some (result_array W t D n e2) \<and> (\<forall>v \<in> set vs'. \<exists>d. ToNumber C v = Inr d)"
    using Suc.prems(3) v(2) same by auto
  have x: "x = n - Suc i" using Suc.hyps(2) by simp
  from Suc.hyps(1) [OF x k2 result_arrays_kept [OF Suc.prems(2) e(3)] raw2 v(3)] obtain e' where
    c: "call_rows C W func rs raw (result_array W E_uint8 V n e2) [Suc i..<n] \<lparr>us_wasm = e2, us_world = u1\<rparr>
      = (Inr vs', \<lparr>us_wasm = e', us_world = u'\<rparr>)"
    "writes W F I L (row_regions D (element_size t) V (Suc i) n) e2 e'" "length vs' = n - Suc i"
    and j: "\<And>j. j < n - Suc i \<Longrightarrow> heap_view W (V + (Suc i + j)) 1 e' = flag (vs' ! j)
        \<and> (raw \<noteq> None \<longrightarrow> (\<exists>d. ToNumber C (vs' ! j) = Inr d \<and> heap_view W (D + (Suc i + j) * element_size t) (element_size t) e' = element_bytes t d))"
    by blast
  have call: "call_rows C W func rs raw (result_array W E_uint8 V n e) [i..<n] \<lparr>us_wasm = e, us_world = u\<rparr> = (Inr vs, \<lparr>us_wasm = e', us_world = u'\<rparr>)"
    using resolve_row [OF rs Suc.prems(1) i(1)] v(1,2) e(1,2) c(1) same
    by (simp add: i(2) js_bind_def js_ret_def in_world_def in_mod_def)
  have a: "apart D (n * element_size t) V n" using Suc.prems(2) by (simp add: result_arrays_def)
  note st = row_regions_step [OF a i(1)]
  have "heap_view W (V + i) 1 e' = flag v" using writes_view [OF c(2) st(2)] e(5) by simp
  moreover have "raw \<noteq> None \<longrightarrow> ToNumber C v = Inr d \<and> heap_view W (D + i * element_size t) (element_size t) e' = element_bytes t d"
    using writes_view [OF c(2) st(1)] e(4) d by auto
  moreover have "writes W F I L (row_regions D (element_size t) V i n) e e'"
    using writes_trans [OF e(3) c(2)] by (simp only: row_regions_Suc [OF i(1)])
  moreover have "heap_view W (V + (i + l)) 1 e' = flag (vs ! l)
        \<and> (raw \<noteq> None \<longrightarrow> (\<exists>d. ToNumber C (vs ! l) = Inr d \<and> heap_view W (D + (i + l) * element_size t) (element_size t) e' = element_bytes t d))"
    if "l < n - i" for l
    using that calculation(1,2) j [of "l - 1"] v(2) by (cases l) auto
  ultimately show ?case using call v(2) c(3) i(1) by auto
qed

section \<open>Allocating and handing over\<close>

lemma type_size: "array_type ptype = Some t \<Longrightarrow> getTypeSize ptype = element_size t"
  by (auto simp: array_type_def getTypeSize_def split: if_splits)

lemma element_size_dvd: "8 dvd p \<Longrightarrow> p mod element_size t = 0"
  by (cases t) (auto elim!: dvdE)

lemma allocated:
  assumes m: "memory_ok W I L" "memory_stays W g F I" and i: "I e" and t: "array_type ptype = Some t" "n > 0"
    and f: "n * element_size t + n + 2 * g \<le> F e"
  obtains D e1 V e2 where "udf_malloc W (n * getTypeSize ptype) e = (Inr D, e1)" "ptrToArray W D ptype n e1 = (Inr (Some (result_array W t D n e2)), e1)"
    "udf_malloc W n e1 = (Inr V, e2)" "ptrToUint8Array W V n e2 = (Inr (result_array W E_uint8 V n e2), e2)"
    "keeps_blocks W I L e e2" "result_arrays W L e t D V n e2" "(D, n * element_size t) \<in> set (L e2)" "(V, n) \<in> set (L e2)"
    "length (w_HEAPU8 W e2) \<le> length (w_HEAPU8 W e) + n * element_size t + n + 2 * g" "F e \<le> F e2 + n * element_size t + n + 2 * g"
proof -
  let ?k = "n * element_size t"
  obtain D e1 where D: "w_malloc W ?k e = (D, e1)" by force
  have "?k + g \<le> F e" using f by simp
  note d = keeps_malloc [OF m i D this]
  have i1: "I e1" using d(1) by (simp add: keeps_blocks_def)
  obtain V e2 where V: "w_malloc W n e1 = (V, e2)" by force
  have "n + g \<le> F e1" using f d(8) by simp
  note v = keeps_malloc [OF m i1 V this]
  have mem: "w_memory W e2 = w_memory W e1" using v(1) by (simp add: keeps_blocks_def)
  have in2: "(D, ?k) \<in> set (L e2)" "set (L e) \<subseteq> set (L e1)" using v(1) d(1,4) by (auto simp: keeps_blocks_def)
  have a: "apart D ?k V n" using v(5) d(4) by (auto simp: apart_sym)
  have "length (heap_view W D ?k e1) = ?k" using d(3) by (simp add: heap_view_def)
  moreover have "heap_view W D ?k e2 = heap_view W D ?k e1" using v(1) d(4) by (auto simp: keeps_blocks_def)
  ultimately have "length (heap_view W D ?k e2) = ?k" by simp
  then have room: "D + ?k \<le> length (w_HEAPU8 W e2)"
    using t(2) by (cases t) (auto simp: heap_view_def min_def split: if_splits)
  show ?thesis
  proof (rule that)
    show "udf_malloc W (n * getTypeSize ptype) e = (Inr D, e1)" "udf_malloc W n e1 = (Inr V, e2)"
      using D V type_size [OF t(1)] by (simp_all add: udf_malloc_def)
    show "ptrToArray W D ptype n e1 = (Inr (Some (result_array W t D n e2)), e1)"
      using new_array_ok [OF element_size_dvd [OF d(2)] d(3)] mem by (simp add: ptrToArray_def t(1) js_bind_def js_ret_def)
    show "ptrToUint8Array W V n e2 = (Inr (result_array W E_uint8 V n e2), e2)"
      using new_array_ok [of V E_uint8 n W e2] v(3) by (simp add: ptrToUint8Array_def)
    show "keeps_blocks W I L e e2" by (rule keeps_blocks_trans [OF d(1) v(1)])
    show "(D, ?k) \<in> set (L e2)" "(V, n) \<in> set (L e2)" using in2 v(4) by auto
    show "length (w_HEAPU8 W e2) \<le> length (w_HEAPU8 W e) + ?k + n + 2 * g" "F e \<le> F e2 + ?k + n + 2 * g" using d(7,8) v(7,8) by simp_all
    show "result_arrays W L e t D V n e2" using a room v(3,5) d(5) in2(2) by (auto simp: result_arrays_def)
  qed
qed

text \<open>The three cells of a response.\<close>

lemma set_response_cells:
  assumes m: "memory_ok W I L" and i: "I e" and r: "8 dvd response" "response + 24 \<le> length (w_HEAPU8 W e)"
  obtains e' where "set_response W response a b c e = (Inr (), e')" "I e'"
    "w_HEAPF64 W e' (response div 8) = a" "w_HEAPF64 W e' (response div 8 + 1) = b" "w_HEAPF64 W e' (response div 8 + 2) = c"
    "\<And>q n. apart response 24 q n \<Longrightarrow> heap_view W q n e' = heap_view W q n e"
proof -
  have cells: "cells_ok W I" using m by (simp add: memory_ok_def)
  define j where "j = response div 8"
  have j: "response = 8 * j" using r(1) by (simp add: j_def)
  let ?e1 = "w_setHEAPF64 W j a e" let ?e2 = "w_setHEAPF64 W (j + 1) b ?e1" let ?e3 = "w_setHEAPF64 W (j + 2) c ?e2"
  have "8 * j + 8 \<le> length (w_HEAPU8 W e)" using r(2) j by simp
  note e1 = cellD [OF cells i this, where v = a]
  have "8 * (j + 1) + 8 \<le> length (w_HEAPU8 W ?e1)" using r(2) j e1(3) by simp
  note e2 = cellD [OF cells e1(1) this, where v = b]
  have "8 * (j + 2) + 8 \<le> length (w_HEAPU8 W ?e2)" using r(2) j e1(3) e2(3) by simp
  note e3 = cellD [OF cells e2(1) this, where v = c]
  have bytes: "heap_view W q n ?e3 = heap_view W q n e" if "apart response 24 q n" for q n
  proof -
    have "apart (8 * j) 8 q n" "apart (8 * (j + 1)) 8 q n" "apart (8 * (j + 2)) 8 q n" using that j by (auto simp: apart_def)
    with e1(4) e2(4) e3(4) show ?thesis by (simp add: heap_view_def)
  qed
  have "set_response W response a b c e = (Inr (), ?e3)" by (simp add: set_response_def j_def drop_bit_eq_div)
  with bytes e3(1,2) e2(2) e1(2) that [of ?e3] show ?thesis by (simp add: j_def)
qed

lemma pack_result_ok:
  assumes m: "memory_ok W I L" "memory_stays W g F I" and i: "I e" and r: "8 dvd response" "response + 24 \<le> length (w_HEAPU8 W e)"
    "(response, 24) \<in> set (L e)" and small: "D < 2 ^ 53" "V < 2 ^ 53" "N < 2 ^ 53" and f: "24 + g \<le> F e"
  obtains ret e' where "pack_result W response D V N e = (Inr (), e')" "I e'"
    "w_HEAPF64 W e' (response div 8) = 0" "w_HEAPF64 W e' (response div 8 + 1) = int ret"
    "read_number W ret e' = D" "read_number W (ret + 8) e' = V" "read_number W (ret + 16) e' = N"
    "\<And>q n. in_block W L q n e \<Longrightarrow> apart response 24 q n \<Longrightarrow> heap_view W q n e' = heap_view W q n e"
proof -
  obtain ret e1 where ret: "w_malloc W 24 e = (ret, e1)" by force
  note a = keeps_malloc [OF m i ret f]
  let ?a = "result_array W E_float64 ret 3 e1"
  let ?e2 = "array_set W ?a 0 (number_of_nat D) e1" let ?e3 = "array_set W ?a 1 (number_of_nat V) ?e2"
  let ?e4 = "array_set W ?a 2 (number_of_nat N) ?e3"
  have i1: "I e1" using a(1) by (simp add: keeps_blocks_def)
  have new: "ptrToFloat64Array W ret 3 e1 = (Inr ?a, e1)"
    using new_array_ok [of ret E_float64 3 W e1] a(2,3) by (simp add: ptrToFloat64Array_def)
  have at: "array_at ?a 0 = ret" "array_at ?a 1 = ret + 8" "array_at ?a 2 = ret + 16" by (simp_all add: array_at_def)
  have w2: "writes W F I L {(ret, 8)} e1 ?e2" "heap_view W ret 8 ?e2 = element_bytes E_float64 (number_of_nat D)"
    using array_set_writes [OF m i1, of ?a 0 "number_of_nat D"] a(3) by (simp_all add: at)
  have i2: "I ?e2" "w_memory W ?e2 = w_memory W e1" "length (w_HEAPU8 W ?e2) = length (w_HEAPU8 W e1)" using w2(1) by (simp_all add: writes_def)
  have w3: "writes W F I L {(ret + 8, 8)} ?e2 ?e3" "heap_view W (ret + 8) 8 ?e3 = element_bytes E_float64 (number_of_nat V)"
    using array_set_writes [OF m i2(1), of ?a 1 "number_of_nat V"] a(3) i2(2,3) by (simp_all add: at at(2) [unfolded One_nat_def])
  have i3: "I ?e3" "w_memory W ?e3 = w_memory W e1" "length (w_HEAPU8 W ?e3) = length (w_HEAPU8 W e1)"
    using w3(1) i2(2,3) by (simp_all add: writes_def)
  have w4: "writes W F I L {(ret + 16, 8)} ?e3 ?e4" "heap_view W (ret + 16) 8 ?e4 = element_bytes E_float64 (number_of_nat N)"
    using array_set_writes [OF m i3(1), of ?a 2 "number_of_nat N"] a(3) i3(2,3) by (simp_all add: at)
  have v: "heap_view W ret 8 ?e4 = element_bytes E_float64 (number_of_nat D)" "heap_view W (ret + 8) 8 ?e4 = element_bytes E_float64 (number_of_nat V)"
    using w2(2) w3(2) writes_view [OF w3(1), of ret 8] writes_view [OF w4(1), of ret 8] writes_view [OF w4(1), of "ret + 8" 8]
    by (simp_all add: apart_def)
  have i4: "I ?e4" "length (w_HEAPU8 W ?e4) = length (w_HEAPU8 W e1)" using w4(1) i3(3) by (simp_all add: writes_def)
  have r4: "response + 24 \<le> length (w_HEAPU8 W ?e4)" using r(2) a(6) i4(2) by simp
  obtain e' where e': "set_response W response 0 (int ret) 0 ?e4 = (Inr (), e')" "I e'"
    "w_HEAPF64 W e' (response div 8) = 0" "w_HEAPF64 W e' (response div 8 + 1) = int ret"
    "\<And>q n. apart response 24 q n \<Longrightarrow> heap_view W q n e' = heap_view W q n ?e4"
    using set_response_cells [OF m(1) i4(1) r(1) r4, of 0 "int ret" 0] by metis
  have ra: "apart ret 24 response 24" using a(5) r(3) by auto
  have "apart response 24 ret 8" "apart response 24 (ret + 8) 8" "apart response 24 (ret + 16) 8" using ra by (auto simp: apart_def)
  then have n: "read_number W ret e' = D" "read_number W (ret + 8) e' = V" "read_number W (ret + 16) e' = N"
    using e'(5) v w4(2) small by (simp_all add: read_number_def integer_part_nat del: element_value.simps element_bytes.simps)
  have kept: "heap_view W q k e' = heap_view W q k e" if b: "in_block W L q k e" and q: "apart response 24 q k" for q k
  proof -
    have "apart ret 24 q k"
    proof -
      obtain q' m' where q': "(q', m') \<in> set (L e)" "q' \<le> q" "q + k \<le> q' + m'" using b by (auto simp: in_block_def)
      with a(5) have "apart ret 24 q' m'" by auto
      with q' show ?thesis by (auto simp: apart_def)
    qed
    then have "apart ret 8 q k" "apart (ret + 8) 8 q k" "apart (ret + 16) 8 q k" by (auto simp: apart_def)
    then have "heap_view W q k ?e4 = heap_view W q k e1"
      using writes_view [OF w2(1), of q k] writes_view [OF w3(1), of q k] writes_view [OF w4(1), of q k] by simp
    with e'(5) [OF q] keeps_block_view [OF a(1) b] show ?thesis by simp
  qed
  have "pack_result W response D V N e = (Inr (), e')"
    using ret new e'(1) by (simp add: pack_result_def udf_malloc_def js_bind_def js_modify_def)
  then show ?thesis by (rule that [OF _ e'(2,3,4) n kept])
qed

section \<open>A number as the result\<close>

definition module_ok :: "'e wasm \<Rightarrow> nat \<Rightarrow> ('e \<Rightarrow> nat) \<Rightarrow> ('e \<Rightarrow> bool) \<Rightarrow> ('e \<Rightarrow> (nat \<times> nat) list) \<Rightarrow> bool" where
  "module_ok W g F I L \<longleftrightarrow> memory_ok W I L \<and> memory_stays W g F I"

text \<open>A call of the engine: the response is a block of its own, the description can be parsed, and the buffers of the arguments
  are there.\<close>

definition call_ok :: "'e wasm \<Rightarrow> ('e \<Rightarrow> bool) \<Rightarrow> ('e \<Rightarrow> (nat \<times> nat) list) \<Rightarrow> nat \<Rightarrow> nat \<Rightarrow> nat \<Rightarrow> nat \<Rightarrow> nat \<Rightarrow> SchemaDescription
    \<Rightarrow> typed_array \<Rightarrow> 'e \<Rightarrow> bool" where
  "call_ok W I L response descPtr descSize ptrsPtr ptrsSize desc ptrs e \<longleftrightarrow>
     I e \<and> 8 dvd response \<and> response + 24 \<le> length (w_HEAPU8 W e) \<and> (response, 24) \<in> set (L e)
     \<and> (\<exists>j. JSON_parse (text_decode (heap_view W descPtr descSize e)) = Inr j \<and> schema_of_json j = desc)
     \<and> ptrToFloat64Array W ptrsPtr (ptrsSize div 8) e = (Inr ptrs, e)
     \<and> sd_rows desc > 0 \<and> list_all (arg_ok W L ptrs (sd_rows desc) e) (sd_args desc)"

text \<open>The call up to the rows, for a result type that has arrays.\<close>

lemma call_prologue:
  assumes m: "module_ok W g F I L" and c: "call_ok W I L response descPtr descSize ptrsPtr ptrsSize desc ptrs e"
    and f: "jm_get funcs funcId = Some func" and t: "array_type (sd_ret_physicalType desc) = Some t"
    and space: "sd_rows desc * element_size t + sd_rows desc + 2 * g \<le> F e"
  obtains rs D V e2 where "list_all2 (resolves W I L ptrs (sd_rows desc) e) (sd_args desc) rs"
    "keeps_blocks W I L e e2" "result_arrays W L e t D V (sd_rows desc) e2"
    "(D, sd_rows desc * element_size t) \<in> set (L e2)" "(V, sd_rows desc) \<in> set (L e2)"
    "length (w_HEAPU8 W e2) \<le> length (w_HEAPU8 W e) + sd_rows desc * element_size t + sd_rows desc + 2 * g"
    "F e \<le> F e2 + sd_rows desc * element_size t + sd_rows desc + 2 * g"
    "\<And>vs e3 u' N e4 e5. call_rows C W func rs (if sd_ret_physicalType desc = ''VARCHAR'' then None else Some (result_array W t D (sd_rows desc) e2))
        (result_array W E_uint8 V (sd_rows desc) e2) [0..<sd_rows desc] \<lparr>us_wasm = e2, us_world = u\<rparr> = (Inr vs, \<lparr>us_wasm = e3, us_world = u'\<rparr>) \<Longrightarrow>
      encode_result C W (sd_ret_physicalType desc) (sd_rows desc) (Some (result_array W t D (sd_rows desc) e2)) vs e3 = (Inr N, e4) \<Longrightarrow>
      pack_result W response D V N e4 = (Inr (), e5) \<Longrightarrow>
      callScalarUDF C W funcs response funcId descPtr descSize ptrsPtr ptrsSize \<lparr>us_wasm = e, us_world = u\<rparr>
        = (Inr (), \<lparr>us_wasm = e5, us_world = u'\<rparr>)"
proof -
  have mm: "memory_ok W I L" "memory_stays W g F I" and i: "I e" and n: "sd_rows desc > 0" using m c by (simp_all add: module_ok_def call_ok_def)
  obtain j where j: "JSON_parse (text_decode (heap_view W descPtr descSize e)) = Inr j" "schema_of_json j = desc" using c by (auto simp: call_ok_def)
  have ptrs: "ptrToFloat64Array W ptrsPtr (ptrsSize div 8) e = (Inr ptrs, e)" using c by (simp add: call_ok_def)
  obtain rs where rs: "build_all W ptrs (sd_rows desc) (sd_args desc) e = (Inr rs, e)" "list_all2 (resolves W I L ptrs (sd_rows desc) e) (sd_args desc) rs"
    using build_all_ok [of I e, OF i] c unfolding call_ok_def by blast
  obtain D e1 V e2 where a: "udf_malloc W (sd_rows desc * getTypeSize (sd_ret_physicalType desc)) e = (Inr D, e1)"
    "ptrToArray W D (sd_ret_physicalType desc) (sd_rows desc) e1 = (Inr (Some (result_array W t D (sd_rows desc) e2)), e1)"
    "udf_malloc W (sd_rows desc) e1 = (Inr V, e2)" "ptrToUint8Array W V (sd_rows desc) e2 = (Inr (result_array W E_uint8 V (sd_rows desc) e2), e2)"
    "keeps_blocks W I L e e2" "result_arrays W L e t D V (sd_rows desc) e2"
    "(D, sd_rows desc * element_size t) \<in> set (L e2)" "(V, sd_rows desc) \<in> set (L e2)"
    "length (w_HEAPU8 W e2) \<le> length (w_HEAPU8 W e) + sd_rows desc * element_size t + sd_rows desc + 2 * g"
    "F e \<le> F e2 + sd_rows desc * element_size t + sd_rows desc + 2 * g"
    using allocated [OF mm i t n space] by metis
  show ?thesis
  proof (rule that [OF rs(2) a(5,6,7,8,9,10)])
    fix vs e3 u' N e4 e5
    assume "call_rows C W func rs (if sd_ret_physicalType desc = ''VARCHAR'' then None else Some (result_array W t D (sd_rows desc) e2))
        (result_array W E_uint8 V (sd_rows desc) e2) [0..<sd_rows desc] \<lparr>us_wasm = e2, us_world = u\<rparr> = (Inr vs, \<lparr>us_wasm = e3, us_world = u'\<rparr>)"
      "encode_result C W (sd_ret_physicalType desc) (sd_rows desc) (Some (result_array W t D (sd_rows desc) e2)) vs e3 = (Inr N, e4)"
      "pack_result W response D V N e4 = (Inr (), e5)"
    then have "udf_body C W func response desc ptrs \<lparr>us_wasm = e, us_world = u\<rparr> = (Inr (), \<lparr>us_wasm = e5, us_world = u'\<rparr>)"
      using n by (simp add: udf_body_def Let_def js_bind_def in_mod_def rs(1) a(1-4) array_length_def detached_def)
    then show "callScalarUDF C W funcs response funcId descPtr descSize ptrsPtr ptrsSize \<lparr>us_wasm = e, us_world = u\<rparr>
        = (Inr (), \<lparr>us_wasm = e5, us_world = u'\<rparr>)"
      using j ptrs by (simp add: callScalarUDF_def f js_try_def js_bind_def in_mod_def readString_def)
  qed
qed

lemma keeps_block_room:
  assumes "keeps_blocks W I L e e'" "(q, m) \<in> set (L e)" "q + m \<le> length (w_HEAPU8 W e)" "m > 0"
  shows "q + m \<le> length (w_HEAPU8 W e')" "(q, m) \<in> set (L e')"
proof -
  have "heap_view W q m e' = heap_view W q m e" using assms(1,2) by (auto simp: keeps_blocks_def)
  then have "length (heap_view W q m e') = m" using assms(3) by (simp add: heap_view_def)
  then show "q + m \<le> length (w_HEAPU8 W e')" using assms(4) by (auto simp: heap_view_def min_def split: if_splits)
  show "(q, m) \<in> set (L e')" using assms(1,2) by (auto simp: keeps_blocks_def)
qed

lemma keeps_in_block:
  assumes "keeps_blocks W I L e e'" "in_block W L p n e" "n > 0"
  shows "in_block W L p n e'"
proof -
  have "length (heap_view W p n e') = n" using keeps_block_view [OF assms(1,2)] assms(2) by (auto simp: heap_view_def in_block_def min_def)
  then have "p + n \<le> length (w_HEAPU8 W e')" using assms(3) by (auto simp: heap_view_def min_def split: if_splits)
  then show ?thesis using assms(1,2) by (force simp: in_block_def keeps_blocks_def)
qed

lemma in_block_self: "(p, n) \<in> set (L e) \<Longrightarrow> p + n \<le> length (w_HEAPU8 W e) \<Longrightarrow> p \<le> q \<Longrightarrow> q + k \<le> p + n \<Longrightarrow> in_block W L q k e"
  by (force simp: in_block_def)

text \<open>What the engine reads after the answer has been packed: for each row the bytes of its element.\<close>

lemma number_answer_read:
  assumes m: "memory_ok W I L" "memory_stays W g F I" "I e3" "8 dvd response" "response + 24 \<le> length (w_HEAPU8 W e3)" "(response, 24) \<in> set (L e3)"
    and t: "array_type ty = Some t" "ty \<noteq> ''VARCHAR''"
    and blocks: "(D, n * element_size t) \<in> set (L e3)" "(V, n) \<in> set (L e3)"
    and room: "D + n * element_size t \<le> length (w_HEAPU8 W e3)" "V + n \<le> length (w_HEAPU8 W e3)"
    and ap: "apart D (n * element_size t) response 24" "apart V n response 24"
    and row: "\<And>j. j < n \<Longrightarrow> heap_view W (V + j) 1 e3 = flag (vs ! j)"
      "\<And>j. j < n \<Longrightarrow> heap_view W (D + j * element_size t) (element_size t) e3 = bytes j"
    and small: "D < 2 ^ 53" "V < 2 ^ 53" "0 < (2 :: nat) ^ 53" and f: "24 + g \<le> F e3"
  obtains e5 where "pack_result W response D V 0 e3 = (Inr (), e5)"
    "engine_result W ty n response e5 = Inr (map (\<lambda>j. if nullish (vs ! j) then None else Some (bytes j)) [0..<n])"
proof -
  let ?k = "element_size t"
  obtain ret e5 where e5: "pack_result W response D V 0 e3 = (Inr (), e5)"
    "w_HEAPF64 W e5 (response div 8) = 0" "w_HEAPF64 W e5 (response div 8 + 1) = int ret"
    "read_number W ret e5 = D" "read_number W (ret + 8) e5 = V"
    and kept: "\<And>q n. in_block W L q n e3 \<Longrightarrow> apart response 24 q n \<Longrightarrow> heap_view W q n e5 = heap_view W q n e3"
    using pack_result_ok [OF m small f] by metis
  have V: "heap_view W (V + j) 1 e5 = flag (vs ! j)" if "j < n" for j
  proof -
    have "in_block W L (V + j) 1 e3" using blocks(2) room(2) that by (intro in_block_self [of V n]) simp_all
    moreover have "apart response 24 (V + j) 1" using ap(2) that by (auto simp: apart_def)
    ultimately show ?thesis using kept row(1) that by simp
  qed
  have D: "heap_view W (D + ?k * j) ?k e5 = bytes j" if "j < n" for j
  proof -
    have "j * ?k + ?k \<le> n * ?k" by (rule row_end [OF that])
    then have "in_block W L (D + j * ?k) ?k e3" "apart response 24 (D + j * ?k) ?k"
      using blocks(1) room(1) ap(1) by (auto intro!: in_block_self [of D "n * ?k"] simp: apart_def)
    then show ?thesis using kept row(2) [OF that] by (auto simp: mult.commute)
  qed
  have "engine_result W ty n response e5 = Inr (map (\<lambda>j. if nullish (vs ! j) then None else Some (bytes j)) [0..<n])"
    using e5(2-5) V D t(2) type_size [OF t(1)] by (auto simp: engine_result_def Let_def flag_def)
  with e5(1) show ?thesis by (rule that)
qed

text \<open>C30: A scalar function whose result is a number of a type that has an array (not INT64, UINT64 or BOOL, for which the call always fails):
  when the memory has room for the answer without growing, the engine finds in each row exactly what the function returns for the arguments
  that lie in the engine's memory, as bytes of the type of the result, and NULL where it returns null or undefined.\<close>

theorem udf_numbers_arrive:
  assumes m: "module_ok W g F I L" and c: "call_ok W I L response descPtr descSize ptrsPtr ptrsSize desc ptrs e"
    and f: "jm_get funcs funcId = Some func" and t: "array_type (sd_ret_physicalType desc) = Some t" "sd_ret_physicalType desc \<noteq> ''VARCHAR''"
    and run: "run_rows func (map (\<lambda>row. map (arg_value W ptrs row e) (sd_args desc)) [0..<sd_rows desc]) u = (Inr vs, u')"
    and nums: "\<forall>v \<in> set vs. \<exists>d. ToNumber C v = Inr d"
    and small: "length (w_HEAPU8 W e) + 9 * sd_rows desc + 2 * g < 2 ^ 53" and space: "9 * sd_rows desc + 24 + 3 * g \<le> F e"
  shows "\<exists>e'. callScalarUDF C W funcs response funcId descPtr descSize ptrsPtr ptrsSize \<lparr>us_wasm = e, us_world = u\<rparr>
      = (Inr (), \<lparr>us_wasm = e', us_world = u'\<rparr>)
    \<and> engine_result W (sd_ret_physicalType desc) (sd_rows desc) response e'
      = Inr (map (\<lambda>v. if nullish v then None else Some (element_bytes t (projr (ToNumber C v)))) vs)"
proof -
  let ?n = "sd_rows desc" and ?k = "element_size t"
  have mm: "memory_ok W I L" "memory_stays W g F I" using m by (simp_all add: module_ok_def)
  have resp: "8 dvd response" "response + 24 \<le> length (w_HEAPU8 W e)" "(response, 24) \<in> set (L e)" using c by (simp_all add: call_ok_def)
  have k8: "?n * ?k \<le> 8 * ?n" by (cases t) simp_all
  then have sp: "?n * ?k + ?n + 2 * g \<le> F e" using space by linarith
  obtain rs D V e2 where p: "list_all2 (resolves W I L ptrs ?n e) (sd_args desc) rs" "keeps_blocks W I L e e2" "result_arrays W L e t D V ?n e2"
    "(D, ?n * ?k) \<in> set (L e2)" "(V, ?n) \<in> set (L e2)" "length (w_HEAPU8 W e2) \<le> length (w_HEAPU8 W e) + ?n * ?k + ?n + 2 * g"
    "F e \<le> F e2 + ?n * ?k + ?n + 2 * g"
    and call: "\<And>vs e3 u' N e4 e5. call_rows C W func rs (Some (result_array W t D ?n e2)) (result_array W E_uint8 V ?n e2) [0..<?n]
        \<lparr>us_wasm = e2, us_world = u\<rparr> = (Inr vs, \<lparr>us_wasm = e3, us_world = u'\<rparr>) \<Longrightarrow>
      encode_result C W (sd_ret_physicalType desc) ?n (Some (result_array W t D ?n e2)) vs e3 = (Inr N, e4) \<Longrightarrow>
      pack_result W response D V N e4 = (Inr (), e5) \<Longrightarrow>
      callScalarUDF C W funcs response funcId descPtr descSize ptrsPtr ptrsSize \<lparr>us_wasm = e, us_world = u\<rparr>
        = (Inr (), \<lparr>us_wasm = e5, us_world = u'\<rparr>)"
    using call_prologue [OF m c f t(1) sp, where C = C and u = u] t(2) by (simp only: if_False) metis
  obtain e3 where r: "call_rows C W func rs (Some (result_array W t D ?n e2)) (result_array W E_uint8 V ?n e2) [0..<?n]
        \<lparr>us_wasm = e2, us_world = u\<rparr> = (Inr vs, \<lparr>us_wasm = e3, us_world = u'\<rparr>)"
    "writes W F I L (row_regions D ?k V 0 ?n) e2 e3" "length vs = ?n"
    and row: "\<And>j. j < ?n \<Longrightarrow> heap_view W (V + j) 1 e3 = flag (vs ! j)"
      "\<And>j. j < ?n \<Longrightarrow> \<exists>d. ToNumber C (vs ! j) = Inr d \<and> heap_view W (D + j * ?k) ?k e3 = element_bytes t d"
    using rows_written [OF mm(1,2) p(2,3,1) _ run, of "Some (result_array W t D ?n e2)" C] nums by auto
  have enc: "encode_result C W (sd_ret_physicalType desc) ?n (Some (result_array W t D ?n e2)) vs e3 = (Inr 0, e3)"
    using t(2) by (simp add: encode_result_def js_ret_def)
  have r3: "result_arrays W L e t D V ?n e3" by (rule result_arrays_kept [OF p(3) r(2)])
  have w: "I e3" "L e3 = L e2" "length (w_HEAPU8 W e3) = length (w_HEAPU8 W e2)" "F e3 = F e2" using r(2) by (simp_all add: writes_def)
  have f3: "24 + g \<le> F e3" using p(7) w(4) k8 space by linarith
  have k3: "keeps_blocks W I L e e3" by (rule writes_keeps [OF p(2) r(2) result_arrays_regions [OF p(3)]])
  have resp3: "response + 24 \<le> length (w_HEAPU8 W e3)" "(response, 24) \<in> set (L e3)"
    using keeps_block_room [OF k3 resp(3,2)] by simp_all
  have room: "D + ?n * ?k \<le> length (w_HEAPU8 W e3)" "V + ?n \<le> length (w_HEAPU8 W e3)" "apart D (?n * ?k) response 24" "apart V ?n response 24"
    using r3 resp(3) by (auto simp: result_arrays_def)
  have "length (w_HEAPU8 W e3) < 2 ^ 53" using p(6) w(3) small k8 by linarith
  then have small: "D < 2 ^ 53" "V < 2 ^ 53" "0 < (2 :: nat) ^ 53" using room(1,2) by simp_all
  have bytes: "heap_view W (D + j * ?k) ?k e3 = element_bytes t (projr (ToNumber C (vs ! j)))" if "j < ?n" for j
    using row(2) [OF that] by auto
  have D: "(D, ?n * ?k) \<in> set (L e3)" "(V, ?n) \<in> set (L e3)" using p(4,5) w(2) by simp_all
  obtain e5 where e5: "pack_result W response D V 0 e3 = (Inr (), e5)"
    "engine_result W (sd_ret_physicalType desc) ?n response e5
      = Inr (map (\<lambda>j. if nullish (vs ! j) then None else Some (element_bytes t (projr (ToNumber C (vs ! j))))) [0..<?n])"
    using number_answer_read [OF mm w(1) resp(1) resp3 t D room row(1) bytes small f3] by blast
  have "map (\<lambda>j. if nullish (vs ! j) then None else Some (element_bytes t (projr (ToNumber C (vs ! j))))) [0..<?n]
      = map (\<lambda>v. if nullish v then None else Some (element_bytes t (projr (ToNumber C v)))) vs"
    using r(3) by (simp add: list_eq_iff_nth_eq)
  then show ?thesis using call [OF r(1) enc e5(1)] e5(2) by simp
qed

section \<open>A string as the result\<close>

lemma writes_coarse:
  assumes "writes W F I L R e e'" "\<forall>(p, n) \<in> R. \<exists>(p', n') \<in> S. p' \<le> p \<and> p + n \<le> p' + n'"
  shows "writes W F I L S e e'"
proof -
  have "heap_view W q m e' = heap_view W q m e" if s: "\<forall>(p, n) \<in> S. apart p n q m" for q m
  proof (rule writes_view [OF assms(1)], clarify)
    fix p n assume "(p, n) \<in> R"
    with assms(2) obtain p' n' where "(p', n') \<in> S" "p' \<le> p" "p + n \<le> p' + n'" by blast
    with s show "apart p n q m" by (auto intro: apart_inside)
  qed
  then show ?thesis using assms(1) by (simp add: writes_def)
qed

definition string_result :: "conversions \<Rightarrow> js_value \<Rightarrow> string res" where
  "string_result C v = (if truthy v then ToString C v else Inr [])"

lemma f64_set:
  assumes m: "memory_ok W I L" "memory_stays W g F I" and i: "I e" "mem = w_memory W e" "i < n" "p + n * 8 \<le> length (w_HEAPU8 W e)"
  shows "writes W F I L {(p + i * 8, 8)} e (array_set W \<lparr>ta_element = E_float64, ta_memory = mem, ta_offset = p, ta_count = n\<rparr> i d e)"
    "heap_view W (p + i * 8) 8 (array_set W \<lparr>ta_element = E_float64, ta_memory = mem, ta_offset = p, ta_count = n\<rparr> i d e) = element_bytes E_float64 d"
proof -
  let ?a = "\<lparr>ta_element = E_float64, ta_memory = mem, ta_offset = p, ta_count = n\<rparr>"
  have at: "array_at ?a i = p + i * 8" by (simp add: array_at_def)
  have "ta_memory ?a = w_memory W e" "i < ta_count ?a" "array_at ?a i + element_size (ta_element ?a) \<le> length (w_HEAPU8 W e)"
    using i(2,3,4) row_end [OF i(3), of 8] by (simp_all add: array_at_def)
  note w = array_set_writes [OF m i(1) this, of d]
  show "writes W F I L {(p + i * 8, 8)} e (array_set W ?a i d e)" "heap_view W (p + i * 8) 8 (array_set W ?a i d e) = element_bytes E_float64 d"
    using w by (simp_all only: at typed_array.simps element_size.simps)
qed

lemma lengths_written:
  assumes m: "memory_ok W I L" "memory_stays W g F I" and i: "I e" "mem = w_memory W e" and r: "N + n * 8 \<le> length (w_HEAPU8 W e)"
    "i + length vs = n" and s: "map (string_result C) vs = map Inr strs"
  shows "\<exists>e'. encode_strings C W \<lparr>ta_element = E_float64, ta_memory = mem, ta_offset = N, ta_count = n\<rparr> i vs e = (Inr (map text_encode strs), e')
    \<and> writes W F I L {(N + i * 8, length vs * 8)} e e'
    \<and> (\<forall>j < length vs. heap_view W (N + (i + j) * 8) 8 e' = element_bytes E_float64 (number_of_nat (length (strs ! j))))"
  using i r s
proof (induction vs arbitrary: e i strs)
  case Nil
  then show ?case using writes_refl [of I e W F L] by (simp add: js_ret_def)
next
  case (Cons v vs)
  let ?a = "\<lparr>ta_element = E_float64, ta_memory = mem, ta_offset = N, ta_count = n\<rparr>"
  obtain str strs' where s: "strs = str # strs'" "string_result C v = Inr str" "map (string_result C) vs = map Inr strs'"
    using Cons.prems(5) by (cases strs) auto
  let ?e = "array_set W ?a i (number_of_nat (length str)) e"
  have w: "writes W F I L {(N + i * 8, 8)} e ?e" "heap_view W (N + i * 8) 8 ?e = element_bytes E_float64 (number_of_nat (length str))"
    using f64_set [OF m Cons.prems(1,2) _ Cons.prems(3), of i] Cons.prems(4) by simp_all
  have p: "I ?e" "mem = w_memory W ?e" "N + n * 8 \<le> length (w_HEAPU8 W ?e)" "Suc i + length vs = n"
    using w(1) Cons.prems(2,3,4) by (simp_all add: writes_def)
  obtain e' where e': "encode_strings C W ?a (Suc i) vs ?e = (Inr (map text_encode strs'), e')"
    "writes W F I L {(N + Suc i * 8, length vs * 8)} ?e e'"
    "\<And>j. j < length vs \<Longrightarrow> heap_view W (N + (Suc i + j) * 8) 8 e' = element_bytes E_float64 (number_of_nat (length (strs' ! j)))"
    using Cons.IH [OF p s(3)] by blast
  have "writes W F I L {(N + i * 8, length (v # vs) * 8)} e e'"
    by (rule writes_coarse [OF writes_trans [OF w(1) e'(2)]]) auto
  moreover have "heap_view W (N + i * 8) 8 e' = element_bytes E_float64 (number_of_nat (length str))"
    using w(2) writes_view [OF e'(2), of "N + i * 8" 8] by (simp add: apart_def)
  then have "heap_view W (N + (i + j) * 8) 8 e' = element_bytes E_float64 (number_of_nat (length (strs ! j)))" if "j < length (v # vs)" for j
    using that e'(3) [of "j - 1"] s(1) by (cases j) auto
  moreover have "encode_strings C W ?a i (v # vs) e = (Inr (map text_encode strs), e')"
    using s(1,2) e'(1) by (simp add: string_result_def js_bind_def js_ret_def)
  ultimately show ?case by blast
qed

lemma strings_copied:
  assumes m: "memory_ok W I L" "memory_stays W g F I" and i: "I e" "mem = w_memory W e" and r: "D + n * 8 \<le> length (w_HEAPU8 W e)"
    "i + length bs = n" "S + off + length (concat bs) \<le> length (w_HEAPU8 W e)"
    "apart (D + i * 8) (length bs * 8) (S + off) (length (concat bs))"
  shows "\<exists>e'. copy_strings W (Some \<lparr>ta_element = E_float64, ta_memory = mem, ta_offset = D, ta_count = n\<rparr>) S off i bs e = (Inr (), e')
    \<and> writes W F I L {(D + i * 8, length bs * 8), (S + off, length (concat bs))} e e'
    \<and> (\<forall>j < length bs. heap_view W (D + (i + j) * 8) 8 e' = element_bytes E_float64 (number_of_nat (off + length (concat (take j bs)))))"
  using i r
proof (induction bs arbitrary: e i off)
  case Nil
  then show ?case using writes_refl [of I e W F L] by (simp add: js_ret_def)
next
  case (Cons b bs)
  let ?a = "\<lparr>ta_element = E_float64, ta_memory = mem, ta_offset = D, ta_count = n\<rparr>"
  let ?e1 = "array_set W ?a i (number_of_nat off) e" and ?rest = "length (concat bs)"
  let ?e2 = "w_setHEAPU8 W (S + off) b ?e1"
  have w1: "writes W F I L {(D + i * 8, 8)} e ?e1" "heap_view W (D + i * 8) 8 ?e1 = element_bytes E_float64 (number_of_nat off)"
    using f64_set [OF m Cons.prems(1,2) _ Cons.prems(3), of i] Cons.prems(4) by simp_all
  have i1: "I ?e1" "w_memory W ?e1 = mem" "length (w_HEAPU8 W ?e1) = length (w_HEAPU8 W e)" using w1(1) Cons.prems(2) by (simp_all add: writes_def)
  have h: "heap_is_memory W I" "S + off + length b \<le> length (w_HEAPU8 W ?e1)" using m(1) Cons.prems(5) i1(3) by (simp_all add: memory_ok_def)
  note v = view_overwrite [OF h(1) i1(1) h(2)]
  have w2: "writes W F I L {(S + off, length b)} ?e1 ?e2"
    using v(2,3,4) m i1(1) by (simp add: writes_def memory_ok_def malloc_ok_def memory_stays_def)
  have st: "store_bytes W (S + off) b ?e1 = (Inr (), ?e2)" using h(2) by (simp add: store_bytes_def heap_view_def)
  have p: "I ?e2" "mem = w_memory W ?e2" "D + n * 8 \<le> length (w_HEAPU8 W ?e2)" "Suc i + length bs = n"
    "S + (off + length b) + ?rest \<le> length (w_HEAPU8 W ?e2)" "apart (D + Suc i * 8) (length bs * 8) (S + (off + length b)) ?rest"
    using w2 i1 Cons.prems by (auto simp: writes_def apart_def)
  obtain e' where e': "copy_strings W (Some ?a) S (off + length b) (Suc i) bs ?e2 = (Inr (), e')"
    "writes W F I L {(D + Suc i * 8, length bs * 8), (S + (off + length b), ?rest)} ?e2 e'"
    "\<And>j. j < length bs \<Longrightarrow> heap_view W (D + (Suc i + j) * 8) 8 e' = element_bytes E_float64 (number_of_nat (off + length b + length (concat (take j bs))))"
    using Cons.IH [OF p] by blast
  have "writes W F I L {(D + i * 8, length (b # bs) * 8), (S + off, length (concat (b # bs)))} e e'"
    by (rule writes_coarse [OF writes_trans [OF writes_trans [OF w1(1) w2] e'(2)]]) auto
  moreover have "heap_view W (D + i * 8) 8 e' = heap_view W (D + i * 8) 8 ?e2"
    using Cons.prems(6) by (intro writes_view [OF e'(2)]) (auto simp: apart_def)
  moreover have "heap_view W (D + i * 8) 8 ?e2 = heap_view W (D + i * 8) 8 ?e1"
    using Cons.prems(6) by (intro writes_view [OF w2]) (auto simp: apart_def)
  ultimately have v0: "heap_view W (D + i * 8) 8 e' = element_bytes E_float64 (number_of_nat off)"
    and wr: "writes W F I L {(D + i * 8, length (b # bs) * 8), (S + off, length (concat (b # bs)))} e e'" using w1(2) by simp_all
  have "heap_view W (D + (i + j) * 8) 8 e' = element_bytes E_float64 (number_of_nat (off + length (concat (take j (b # bs)))))" if "j < length (b # bs)" for j
    using that e'(3) [of "j - 1"] v0 by (cases j) (auto simp: add.assoc)
  moreover have "copy_strings W (Some ?a) S off i (b # bs) e = (Inr (), e')" using st e'(1) by (simp add: js_bind_def)
  ultimately show ?case using wr by blast
qed

lemma concat_part: "j < length xss \<Longrightarrow> length (concat (take j xss)) + length (xss ! j) \<le> length (concat xss)"
proof -
  assume "j < length xss"
  then have "concat (take j xss @ xss ! j # drop (Suc j) xss) = concat xss" by (simp only: id_take_nth_drop [symmetric])
  from arg_cong [OF this, of length] show ?thesis by simp
qed

lemma strings_encoded:
  assumes m: "module_ok W g F I L" and i: "I e" and r: "result_arrays W L e0 E_float64 D V n e" "(D, n * 8) \<in> set (L e)" "(V, n) \<in> set (L e)"
    and k: "keeps_blocks W I L e0 e" and s: "map (string_result C) vs = map Inr strs" "length vs = n" and small: "length (concat strs) < 2 ^ 53"
    and f: "n * 8 + length (concat strs) + 2 * g \<le> F e"
  obtains N e' where "encode_result C W ''VARCHAR'' n (Some (result_array W E_float64 D n e)) vs e = (Inr N, e')"
    "keeps_blocks W I L e0 e'" "set (L e) \<subseteq> set (L e')" "(N, n * 8) \<in> set (L e')" "N + n * 8 \<le> length (w_HEAPU8 W e')" "N \<le> length (w_HEAPU8 W e) + g"
    "F e \<le> F e' + n * 8 + length (concat strs) + 2 * g"
    "result_arrays W L e0 E_float64 D V n e'" "\<forall>(q, l) \<in> set (L e0). apart N (n * 8) q l"
    "\<And>j. j < n \<Longrightarrow> heap_view W (V + j) 1 e' = heap_view W (V + j) 1 e"
    "\<And>j. j < n \<Longrightarrow> read_number W (N + j * 8) e' = length (strs ! j)"
    "\<And>j. j < n \<Longrightarrow> read_number W (D + j * 8) e' = length (concat (take j strs))"
proof -
  have mm: "memory_ok W I L" "memory_stays W g F I" using m by (simp_all add: module_ok_def)
  obtain N e1 where N: "w_malloc W (n * 8) e = (N, e1)" by force
  have "n * 8 + g \<le> F e" using f by simp
  note a = keeps_malloc [OF mm(1,2) i N this]
  have i1: "I e1" "w_memory W e1 = w_memory W e" "set (L e) \<subseteq> set (L e1)" using a(1) by (simp_all add: keeps_blocks_def)
  have len: "length vs = n" "0 + length vs = n" "length strs = n" using s(2) map_eq_imp_length_eq [OF s(1)] by simp_all
  obtain e2 where e2: "encode_strings C W \<lparr>ta_element = E_float64, ta_memory = w_memory W e1, ta_offset = N, ta_count = n\<rparr> 0 vs e1 = (Inr (map text_encode strs), e2)"
    "writes W F I L {(N + 0 * 8, length vs * 8)} e1 e2"
    "\<And>j. j < n \<Longrightarrow> heap_view W (N + (0 + j) * 8) 8 e2 = element_bytes E_float64 (number_of_nat (length (strs ! j)))"
    using lengths_written [OF mm(1,2) i1(1) refl a(3) len(2) s(1)] len(1) by blast
  let ?bs = "map text_encode strs" and ?total = "length (concat strs)"
  have total: "length (concat ?bs) = ?total" by (simp add: length_concat comp_def)
  have i2: "I e2" "w_memory W e2 = w_memory W e1" "L e2 = L e1" "F e2 = F e1" using e2(2) by (simp_all add: writes_def)
  obtain S e3 where S: "w_malloc W ?total e2 = (S, e3)" by force
  have "?total + g \<le> F e2" using f a(8) i2(4) by simp
  note b = keeps_malloc [OF mm(1,2) i2(1) S this]
  have i3: "I e3" "w_memory W e3 = w_memory W e" "set (L e2) \<subseteq> set (L e3)" using b(1) i1(2) i2(2) by (simp_all add: keeps_blocks_def)
  have grow: "length (w_HEAPU8 W e) \<le> length (w_HEAPU8 W e1)" "length (w_HEAPU8 W e1) = length (w_HEAPU8 W e2)"
    "length (w_HEAPU8 W e2) \<le> length (w_HEAPU8 W e3)"
    using a(6) b(6) e2(2) by (simp_all add: writes_def)
  have ra: "apart D (n * 8) V n" "D + n * 8 \<le> length (w_HEAPU8 W e3)" "V + n \<le> length (w_HEAPU8 W e)" "\<forall>(q, l) \<in> set (L e0). apart D (n * 8) q l"
    using r(1) grow by (auto simp: result_arrays_def)
  have L0: "set (L e0) \<subseteq> set (L e)" using k by (simp add: keeps_blocks_def)
  have Nap: "apart N (n * 8) D (n * 8)" "apart N (n * 8) V n" "\<forall>(q, l) \<in> set (L e0). apart N (n * 8) q l" using a(5) r(2,3) L0 by auto
  have Sap: "apart S ?total D (n * 8)" "apart S ?total V n" "apart S ?total N (n * 8)" "\<forall>(q, l) \<in> set (L e0). apart S ?total q l"
    using b(5) r(2,3) a(4) i1(3) L0 unfolding i2(3) by auto
  have p: "I e3" "w_memory W e = w_memory W e3" "D + n * 8 \<le> length (w_HEAPU8 W e3)" "0 + length ?bs = n"
    "S + 0 + length (concat ?bs) \<le> length (w_HEAPU8 W e3)" "apart (D + 0 * 8) (length ?bs * 8) (S + 0) (length (concat ?bs))"
    using i3 ra(2) len(3) b(3) Sap(1) by (simp_all add: total apart_sym)
  obtain e4 where e4: "copy_strings W (Some (result_array W E_float64 D n e)) S 0 0 ?bs e3 = (Inr (), e4)"
    "writes W F I L {(D + 0 * 8, length ?bs * 8), (S + 0, length (concat ?bs))} e3 e4"
    "\<And>j. j < length ?bs \<Longrightarrow> heap_view W (D + (0 + j) * 8) 8 e4 = element_bytes E_float64 (number_of_nat (0 + length (concat (take j ?bs))))"
    using strings_copied [OF mm(1,2) p] by blast
  have w2: "writes W F I L {(N, n * 8)} e1 e2" using e2(2) len(1) by simp
  have w4: "writes W F I L {(D, n * 8), (S, ?total)} e3 e4" using e4(2) len(3) by (simp only: length_map total) simp
  have i4: "L e4 = L e3" "length (w_HEAPU8 W e4) = length (w_HEAPU8 W e3)" "F e4 = F e3" using w4 by (simp_all add: writes_def)
  have part: "length (concat (take j strs)) \<le> ?total" for j
    by (metis append_take_drop_id concat_append le_add1 length_append)
  have elem: "length (strs ! j) \<le> ?total" if "j < n" for j
    using that len(3) member_le_sum_list [of "length (strs ! j)" "map length strs"] by (simp add: length_concat)
  show ?thesis
  proof (rule that)
    show "encode_result C W ''VARCHAR'' n (Some (result_array W E_float64 D n e)) vs e = (Inr N, e4)"
      using N S e2(1) e4(1) new_array_ok [of N E_float64 n W e1] a(2,3) total
      by (simp add: encode_result_def udf_malloc_def getTypeSize_def js_bind_def js_ret_def ptrToFloat64Array_def)
    have k1: "keeps_blocks W I L e0 e2" by (rule writes_keeps [OF keeps_blocks_trans [OF k a(1)] w2]) (use Nap(3) in auto)
    show "keeps_blocks W I L e0 e4"
      by (rule writes_keeps [OF keeps_blocks_trans [OF k1 b(1)] w4]) (use ra(4) Sap(4) in auto)
    show "set (L e) \<subseteq> set (L e4)" "(N, n * 8) \<in> set (L e4)" using i4(1) i3(3) i2(3) i1(3) a(4) by auto
    show "N + n * 8 \<le> length (w_HEAPU8 W e4)" "N \<le> length (w_HEAPU8 W e) + g" using a(3,7) grow i4(2) by simp_all
    show "F e \<le> F e4 + n * 8 + ?total + 2 * g" using a(8) b(8) i2(4) i4(3) by simp
    show "result_arrays W L e0 E_float64 D V n e4" using r(1) grow i4(2) by (auto simp: result_arrays_def)
    show "\<forall>(q, l) \<in> set (L e0). apart N (n * 8) q l" by (rule Nap(3))
    show "heap_view W (V + j) 1 e4 = heap_view W (V + j) 1 e" if "j < n" for j
    proof -
      have in0: "in_block W L (V + j) 1 e" using r(3) ra(3) that by (intro in_block_self [of V n]) simp_all
      have in2: "in_block W L (V + j) 1 e2" using r(3) ra(3) that i1(3) grow unfolding i2(3) [symmetric] by (intro in_block_self [of V n]) auto
      have "apart N (n * 8) (V + j) 1" "apart D (n * 8) (V + j) 1" "apart S ?total (V + j) 1" using Nap(2) ra(1) Sap(2) that by (auto simp: apart_def)
      then have "heap_view W (V + j) 1 e2 = heap_view W (V + j) 1 e1" "heap_view W (V + j) 1 e4 = heap_view W (V + j) 1 e3"
        using writes_view [OF w2, of "V + j" 1] writes_view [OF w4, of "V + j" 1] by simp_all
      with keeps_block_view [OF a(1) in0] keeps_block_view [OF b(1) in2] show ?thesis by simp
    qed
    show "read_number W (N + j * 8) e4 = length (strs ! j)" if "j < n" for j
    proof -
      have j: "j * 8 + 8 \<le> n * 8" using row_end [OF that] .
      have in2: "in_block W L (N + j * 8) 8 e2" using a(3,4) j grow(2) unfolding i2(3) [symmetric] by (intro in_block_self [of N "n * 8"]) auto
      have "apart D (n * 8) (N + j * 8) 8" "apart S ?total (N + j * 8) 8" using Nap(1) Sap(3) j by (auto simp: apart_def)
      then have "heap_view W (N + j * 8) 8 e4 = heap_view W (N + j * 8) 8 e2"
        using writes_view [OF w4, of "N + j * 8" 8] keeps_block_view [OF b(1) in2] by simp
      then show ?thesis using e2(3) [OF that] elem [OF that] small
        by (simp add: read_number_def integer_part_nat del: element_value.simps element_bytes.simps)
    qed
    show "read_number W (D + j * 8) e4 = length (concat (take j strs))" if "j < n" for j
    proof -
      have "length (concat (take j ?bs)) = length (concat (take j strs))" by (simp add: length_concat take_map comp_def)
      then show ?thesis using e4(3) [of j] that len(3) part [of j] small
        by (simp add: read_number_def integer_part_nat del: element_value.simps element_bytes.simps)
    qed
  qed
qed

text \<open>What the engine reads after the answer has been packed: for each row the bytes at the offset of its string.\<close>

lemma string_answer_read:
  fixes strs :: "string list"
  assumes m: "memory_ok W I L" "memory_stays W g F I" "I e4" "8 dvd response" "response + 24 \<le> length (w_HEAPU8 W e4)" "(response, 24) \<in> set (L e4)"
    and blocks: "(D, n * 8) \<in> set (L e4)" "(V, n) \<in> set (L e4)" "(N, n * 8) \<in> set (L e4)"
    and room: "D + n * 8 \<le> length (w_HEAPU8 W e4)" "V + n \<le> length (w_HEAPU8 W e4)" "N + n * 8 \<le> length (w_HEAPU8 W e4)"
    and ap: "apart D (n * 8) response 24" "apart V n response 24" "apart N (n * 8) response 24"
    and v: "\<And>j. j < n \<Longrightarrow> heap_view W (V + j) 1 e4 = flag (vs ! j)"
      "\<And>j. j < n \<Longrightarrow> read_number W (N + j * 8) e4 = length (strs ! j)"
      "\<And>j. j < n \<Longrightarrow> read_number W (D + j * 8) e4 = length (concat (take j strs))"
    and low: "0 < length (concat strs) \<Longrightarrow> in_block W L 0 (length (concat strs)) e4" "apart response 24 0 (length (concat strs))" "length strs = n"
    and small: "D < 2 ^ 53" "V < 2 ^ 53" "N < 2 ^ 53" and f: "24 + g \<le> F e4"
  obtains e5 where "pack_result W response D V N e4 = (Inr (), e5)"
    "engine_result W ''VARCHAR'' n response e5 = Inr (map (\<lambda>j. if nullish (vs ! j) then None
        else Some (heap_view W (length (concat (take j strs))) (length (strs ! j)) e4)) [0..<n])"
proof -
  obtain ret e5 where e5: "pack_result W response D V N e4 = (Inr (), e5)"
    "w_HEAPF64 W e5 (response div 8) = 0" "w_HEAPF64 W e5 (response div 8 + 1) = int ret"
    "read_number W ret e5 = D" "read_number W (ret + 8) e5 = V" "read_number W (ret + 16) e5 = N"
    and kept: "\<And>q n. in_block W L q n e4 \<Longrightarrow> apart response 24 q n \<Longrightarrow> heap_view W q n e5 = heap_view W q n e4"
    using pack_result_ok [OF m small f] by metis
  have number: "read_number W (q + j * 8) e5 = read_number W (q + j * 8) e4"
    if b: "(q, n * 8) \<in> set (L e4)" "q + n * 8 \<le> length (w_HEAPU8 W e4)" "apart q (n * 8) response 24" and j: "j < n" for q j
  proof -
    have "j * 8 + 8 \<le> n * 8" by (rule row_end [OF j])
    then have "in_block W L (q + j * 8) 8 e4" "apart response 24 (q + j * 8) 8"
      using b by (auto intro!: in_block_self [of q "n * 8"] simp: apart_def)
    then show ?thesis using kept by (simp add: read_number_def)
  qed
  have V: "heap_view W (V + j) 1 e5 = flag (vs ! j)" if "j < n" for j
  proof -
    have "in_block W L (V + j) 1 e4" using blocks(2) room(2) that by (intro in_block_self [of V n]) simp_all
    moreover have "apart response 24 (V + j) 1" using ap(2) that by (auto simp: apart_def)
    ultimately show ?thesis using kept v(1) that by simp
  qed
  have low5: "heap_view W 0 (length (concat strs)) e5 = heap_view W 0 (length (concat strs)) e4"
  proof (cases "0 < length (concat strs)")
    case False
    then have "length (concat strs) = 0" by blast
    then show ?thesis by (simp only: heap_view_def subarray_def) simp
  qed (simp add: kept low(1,2))
  have "length (concat (take j strs)) + length (strs ! j) \<le> length (concat strs)" if "j < n" for j
    using that low(3) concat_part [of j strs] by simp
  then have "heap_view W (length (concat (take j strs))) (length (strs ! j)) e5 = heap_view W (length (concat (take j strs))) (length (strs ! j)) e4"
    if "j < n" for j using that heap_view_inside [OF low5] by simp
  then have "engine_result W ''VARCHAR'' n response e5 = Inr (map (\<lambda>j. if nullish (vs ! j) then None
        else Some (heap_view W (length (concat (take j strs))) (length (strs ! j)) e4)) [0..<n])"
    using e5(2-6) V number [OF blocks(1) room(1) ap(1)] number [OF blocks(3) room(3) ap(3)] v(2,3)
    by (auto simp: engine_result_def Let_def flag_def mult.commute)
  with e5(1) show ?thesis by (rule that)
qed

text \<open>C31: A scalar function whose result is a string: the engine takes the offset of each string among the strings returned for an address, and
  so it reads from the start of the memory. What is there was there before the call, whatever the function returns. As above, for a call
  whose answer fits into the memory as it is.\<close>

theorem udf_strings_are_read_at_address_zero:
  assumes m: "module_ok W g F I L" and c: "call_ok W I L response descPtr descSize ptrsPtr ptrsSize desc ptrs e"
    and f: "jm_get funcs funcId = Some func" and t: "sd_ret_physicalType desc = ''VARCHAR''"
    and run: "run_rows func (map (\<lambda>row. map (arg_value W ptrs row e) (sd_args desc)) [0..<sd_rows desc]) u = (Inr vs, u')"
    and strs: "map (string_result C) vs = map Inr strs"
    and low: "in_block W L 0 (length (concat strs)) e" "apart response 24 0 (length (concat strs))"
    and small: "length (w_HEAPU8 W e) + 9 * sd_rows desc + 3 * g < 2 ^ 53"
    and space: "17 * sd_rows desc + length (concat strs) + 24 + 5 * g \<le> F e"
  shows "\<exists>e'. callScalarUDF C W funcs response funcId descPtr descSize ptrsPtr ptrsSize \<lparr>us_wasm = e, us_world = u\<rparr>
      = (Inr (), \<lparr>us_wasm = e', us_world = u'\<rparr>)
    \<and> engine_result W ''VARCHAR'' (sd_rows desc) response e' = Inr (map (\<lambda>j. if nullish (vs ! j) then None
        else Some (heap_view W (length (concat (take j strs))) (length (strs ! j)) e)) [0..<sd_rows desc])"
proof -
  let ?n = "sd_rows desc" and ?t = "E_float64"
  have mm: "memory_ok W I L" "memory_stays W g F I" using m by (simp_all add: module_ok_def)
  have resp: "8 dvd response" "response + 24 \<le> length (w_HEAPU8 W e)" "(response, 24) \<in> set (L e)" using c by (simp_all add: call_ok_def)
  have at: "array_type (sd_ret_physicalType desc) = Some ?t" by (simp add: t array_type_def)
  have sp: "?n * element_size ?t + ?n + 2 * g \<le> F e" using space by simp
  obtain rs D V e2 where p: "list_all2 (resolves W I L ptrs ?n e) (sd_args desc) rs" "keeps_blocks W I L e e2" "result_arrays W L e ?t D V ?n e2"
    "(D, ?n * element_size ?t) \<in> set (L e2)" "(V, ?n) \<in> set (L e2)"
    "length (w_HEAPU8 W e2) \<le> length (w_HEAPU8 W e) + ?n * element_size ?t + ?n + 2 * g" "F e \<le> F e2 + ?n * element_size ?t + ?n + 2 * g"
    and call: "\<And>vs e3 u' N e4 e5. call_rows C W func rs None (result_array W E_uint8 V ?n e2) [0..<?n]
        \<lparr>us_wasm = e2, us_world = u\<rparr> = (Inr vs, \<lparr>us_wasm = e3, us_world = u'\<rparr>) \<Longrightarrow>
      encode_result C W ''VARCHAR'' ?n (Some (result_array W ?t D ?n e2)) vs e3 = (Inr N, e4) \<Longrightarrow>
      pack_result W response D V N e4 = (Inr (), e5) \<Longrightarrow>
      callScalarUDF C W funcs response funcId descPtr descSize ptrsPtr ptrsSize \<lparr>us_wasm = e, us_world = u\<rparr>
        = (Inr (), \<lparr>us_wasm = e5, us_world = u'\<rparr>)"
    using call_prologue [OF m c f at sp, where C = C and u = u] unfolding t by (simp only: if_True refl) metis
  obtain e3 where r: "call_rows C W func rs None (result_array W E_uint8 V ?n e2) [0..<?n]
        \<lparr>us_wasm = e2, us_world = u\<rparr> = (Inr vs, \<lparr>us_wasm = e3, us_world = u'\<rparr>)"
    "writes W F I L (row_regions D (element_size ?t) V 0 ?n) e2 e3" "length vs = ?n" and flags: "\<And>j. j < ?n \<Longrightarrow> heap_view W (V + j) 1 e3 = flag (vs ! j)"
    using rows_written [OF mm(1,2) p(2,3,1) _ run, of None C] by auto
  have w: "I e3" "L e3 = L e2" "w_memory W e3 = w_memory W e2" "length (w_HEAPU8 W e3) = length (w_HEAPU8 W e2)" "F e3 = F e2" using r(2) by (simp_all add: writes_def)
  have k3: "keeps_blocks W I L e e3" by (rule writes_keeps [OF p(2) r(2) result_arrays_regions [OF p(3)]])
  have f3: "?n * 8 + length (concat strs) + 2 * g \<le> F e3" using p(7) w(5) space by simp
  have "(D, ?n * 8) \<in> set (L e3)" "(V, ?n) \<in> set (L e3)" using p(4,5) w(2) by simp_all
  moreover have "length (concat strs) < 2 ^ 53" using low(1) small by (simp add: in_block_def)
  ultimately obtain N e4 where
    enc: "encode_result C W ''VARCHAR'' ?n (Some (result_array W ?t D ?n e3)) vs e3 = (Inr N, e4)"
    and k4: "keeps_blocks W I L e e4" "set (L e3) \<subseteq> set (L e4)" "(N, ?n * 8) \<in> set (L e4)" "N + ?n * 8 \<le> length (w_HEAPU8 W e4)"
      "result_arrays W L e ?t D V ?n e4" "\<forall>(q, l) \<in> set (L e). apart N (?n * 8) q l" "N \<le> length (w_HEAPU8 W e3) + g" "F e3 \<le> F e4 + ?n * 8 + length (concat strs) + 2 * g"
    and v: "\<And>j. j < ?n \<Longrightarrow> heap_view W (V + j) 1 e4 = heap_view W (V + j) 1 e3"
      "\<And>j. j < ?n \<Longrightarrow> read_number W (N + j * 8) e4 = length (strs ! j)"
      "\<And>j. j < ?n \<Longrightarrow> read_number W (D + j * 8) e4 = length (concat (take j strs))"
    using strings_encoded [OF m w(1) result_arrays_kept [OF p(3) r(2)] _ _ k3 strs r(3) _ f3] by metis
  have i4: "I e4" using k4(1) by (simp add: keeps_blocks_def)
  have resp4: "response + 24 \<le> length (w_HEAPU8 W e4)" "(response, 24) \<in> set (L e4)" using keeps_block_room [OF k4(1) resp(3,2)] by simp_all
  have D8: "(D, ?n * 8) \<in> set (L e4)" "(V, ?n) \<in> set (L e4)" using p(4,5) w(2) k4(2) by auto
  have room: "D + ?n * 8 \<le> length (w_HEAPU8 W e4)" "V + ?n \<le> length (w_HEAPU8 W e4)" and ap: "apart D (?n * 8) response 24" "apart V ?n response 24"
    "apart N (?n * 8) response 24" using k4(5,6) resp(3) by (auto simp: result_arrays_def)
  have "D + ?n * 8 \<le> length (w_HEAPU8 W e3)" "V + ?n \<le> length (w_HEAPU8 W e3)" "length (w_HEAPU8 W e3) \<le> length (w_HEAPU8 W e) + 9 * ?n + 2 * g"
    using result_arrays_kept [OF p(3) r(2)] p(6) w(4) by (simp_all add: result_arrays_def)
  then have small: "D < 2 ^ 53" "V < 2 ^ 53" "N < 2 ^ 53" using k4(7) small by simp_all
  have len: "length strs = ?n" using map_eq_imp_length_eq [OF strs] r(3) by simp
  have f4: "24 + g \<le> F e4" using k4(8) p(7) w(5) space by simp
  have flags4: "heap_view W (V + j) 1 e4 = flag (vs ! j)" if "j < ?n" for j using v(1) flags that by simp
  have same: "heap_view W (length (concat (take j strs))) (length (strs ! j)) e4 = heap_view W (length (concat (take j strs))) (length (strs ! j)) e"
    if "j < ?n" for j
    using heap_view_inside [OF keeps_block_view [OF k4(1) low(1)]] concat_part [of j strs] that len by simp
  obtain e5 where e5: "pack_result W response D V N e4 = (Inr (), e5)"
    "engine_result W ''VARCHAR'' ?n response e5 = Inr (map (\<lambda>j. if nullish (vs ! j) then None
        else Some (heap_view W (length (concat (take j strs))) (length (strs ! j)) e4)) [0..<?n])"
    using string_answer_read [OF mm i4 resp(1) resp4 D8 k4(3) room k4(4) ap flags4 v(2,3) keeps_in_block [OF k4(1) low(1)] low(2) len small f4] by blast
  have "encode_result C W ''VARCHAR'' ?n (Some (result_array W ?t D ?n e2)) vs e3 = (Inr N, e4)" using enc w(3) by simp
  then have "callScalarUDF C W funcs response funcId descPtr descSize ptrsPtr ptrsSize \<lparr>us_wasm = e, us_world = u\<rparr>
      = (Inr (), \<lparr>us_wasm = e5, us_world = u'\<rparr>)" by (rule call [OF r(1) _ e5(1)])
  with e5(2) same show ?thesis by simp
qed

section \<open>A call to try it on\<close>

text \<open>Two rows of one argument, the number 5 and NULL, for a function that returns its argument, and for one that returns a string. The memory: 64
  bytes of the engine, the description, the response at 256, the numbers at 288, the flags at 296 and the two addresses at 304.\<close>

definition udf_text :: "string \<Rightarrow> string" where
  "udf_text ret = stringify (JObj [(''rows'', JNum 2),
     (''args'', JArr [JObj [(''physicalType'', JStr ''INT32''), (''validityBuffer'', JNum 1), (''dataBuffer'', JNum 0)]]),
     (''ret'', JObj [(''physicalType'', JStr ret)])])"

definition udf_desc :: "string \<Rightarrow> SchemaDescription" where
  "udf_desc ret = \<lparr>sd_rows = 2, sd_args = [Arg None ''INT32'' (Some 1) (Some 0) None []], sd_ret_physicalType = ret\<rparr>"

definition udf_heap :: "string \<Rightarrow> byte list" where
  "udf_heap ret = (let txt = text_encode (udf_text ret)
     in replicate 64 7 @ txt @ replicate (192 - length txt) 7 @ replicate 32 0 @ [5, 0, 0, 0, 6, 0, 0, 0] @ [1, 0, 0, 0, 0, 0, 0, 0]
       @ element_bytes E_float64 (number_of_nat 288) @ element_bytes E_float64 (number_of_nat 296) @ replicate 192 7)"

definition udf_toy :: "string \<Rightarrow> toy" where
  "udf_toy ret = \<lparr>toy_heap = udf_heap ret, toy_cells = (\<lambda>_. 0), toy_next = 512, toy_blocks = [(256, 24), (288, 8), (296, 2), (0, 64)]\<rparr>"

abbreviation toy_module :: "toy wasm" where
  "toy_module \<equiv> toy_wasm []"

definition no_conversions :: conversions where
  "no_conversions = \<lparr>cv_number = (\<lambda>_. Inl (TypeError ''not a number'')), cv_string = (\<lambda>_. Inl (TypeError ''not a string''))\<rparr>"

lemma toy_module_ok: "module_ok toy_module 8 (\<lambda>_. 1000) toy_inv toy_blocks"
  using toy_memory by (auto simp: module_ok_def memory_stays_def toy_wasm_def)

lemma subarray_after: "length xs \<le> a \<Longrightarrow> subarray a b (xs @ ys) = subarray (a - length xs) (b - length xs) ys"
  by (simp add: subarray_def)

lemma subarray_before: "b \<le> length xs \<Longrightarrow> subarray a b (xs @ ys) = subarray a b xs"
  by (cases "a \<le> b") (simp_all add: subarray_def)

lemma udf_text_length: "length (udf_text ''INT32'') = 109" "length (udf_text ''VARCHAR'') = 111"
  by code_simp+

lemma udf_heap_views:
  assumes "length (udf_text ret) \<le> 192"
  shows "length (udf_heap ret) = 512" "subarray 304 312 (udf_heap ret) = element_bytes E_float64 (number_of_nat 288)"
    "subarray 312 320 (udf_heap ret) = element_bytes E_float64 (number_of_nat 296)" "subarray 288 292 (udf_heap ret) = [5, 0, 0, 0]"
    "subarray 296 297 (udf_heap ret) = [1]" "subarray 297 298 (udf_heap ret) = [0]"
    "subarray 64 (64 + length (udf_text ret)) (udf_heap ret) = text_encode (udf_text ret)" "subarray 0 2 (udf_heap ret) = [7, 7]"
  using assms
  by (simp_all add: udf_heap_def Let_def subarray_after subarray_before del: element_bytes.simps)
    (simp_all add: subarray_def numeral_eq_Suc)

definition udf_ptrs :: typed_array where
  "udf_ptrs = \<lparr>ta_element = E_float64, ta_memory = 0, ta_offset = 304, ta_count = 2\<rparr>"

definition udf_json :: "string \<Rightarrow> json" where
  "udf_json ret = JObj [(''rows'', JNum 2),
     (''args'', JArr [JObj [(''physicalType'', JStr ''INT32''), (''validityBuffer'', JNum 1), (''dataBuffer'', JNum 0)]]),
     (''ret'', JObj [(''physicalType'', JStr ret)])]"

lemma udf_parsed: "JSON_parse (udf_text ''INT32'') = Inr (udf_json ''INT32'')" "JSON_parse (udf_text ''VARCHAR'') = Inr (udf_json ''VARCHAR'')"
  by code_simp+

lemma udf_described:
  assumes "ret \<in> {''INT32'', ''VARCHAR''}"
  shows "\<exists>j. JSON_parse (udf_text ret) = Inr j \<and> schema_of_json j = udf_desc ret"
proof -
  have "JSON_parse (udf_text ret) = Inr (udf_json ret)" using assms udf_parsed by fastforce
  moreover have "schema_of_json (udf_json ret) = udf_desc ret"
    by (simp add: schema_of_json_def udf_json_def udf_desc_def string_of_json_def json_nat_def)
  ultimately show ?thesis by blast
qed

lemma udf_small: "ret \<in> {''INT32'', ''VARCHAR''} \<Longrightarrow> length (udf_text ret) \<le> 192"
  using udf_text_length by auto

lemma udf_addresses:
  assumes "ret \<in> {''INT32'', ''VARCHAR''}"
  shows "ptr_at toy_module udf_ptrs 0 (udf_toy ret) = 288" "ptr_at toy_module udf_ptrs 1 (udf_toy ret) = 296"
  using udf_heap_views [OF udf_small [OF assms]] integer_part_nat [of 288] integer_part_nat [of 296]
  by (simp_all add: ptr_at_def array_get_def array_length_def detached_def array_at_def udf_ptrs_def toy_wasm_def udf_toy_def heap_view_def
      del: element_value.simps element_bytes.simps)

lemma udf_call:
  assumes "ret \<in> {''INT32'', ''VARCHAR''}"
  shows "call_ok toy_module toy_inv toy_blocks 256 64 (length (udf_text ret)) 304 16 (udf_desc ret) udf_ptrs (udf_toy ret)"
proof -
  note v = udf_heap_views [OF udf_small [OF assms]]
  have W: "w_HEAPU8 toy_module = toy_heap" "toy_heap (udf_toy ret) = udf_heap ret" by (simp_all add: toy_wasm_def udf_toy_def)
  have "ptrToFloat64Array toy_module 304 (16 div 8) (udf_toy ret) = (Inr udf_ptrs, udf_toy ret)"
    using v(1) new_array_ok [of 304 E_float64 2 toy_module "udf_toy ret"] by (simp add: ptrToFloat64Array_def W udf_ptrs_def toy_wasm_def)
  moreover have "heap_view toy_module 64 (length (udf_text ret)) (udf_toy ret) = text_encode (udf_text ret)"
    using v(7) by (simp add: heap_view_def W)
  moreover have "toy_inv (udf_toy ret)" using v(1) by (auto simp: toy_inv_def udf_toy_def)
  moreover have "list_all (arg_ok toy_module toy_blocks udf_ptrs 2 (udf_toy ret)) (sd_args (udf_desc ret))"
    using udf_addresses [OF assms] v(1)
    by (simp add: udf_desc_def buffer_ok_def in_block_def W array_type_def) (simp add: udf_toy_def)
  ultimately show ?thesis using udf_described [OF assms] v(1)
    by (simp add: call_ok_def W) (simp add: udf_desc_def udf_toy_def)
qed

lemma udf_arguments:
  assumes "ret \<in> {''INT32'', ''VARCHAR''}"
  shows "map (\<lambda>row. map (arg_value toy_module udf_ptrs row (udf_toy ret)) (sd_args (udf_desc ret))) [0..<2] = [[V_number (number_of_nat 5)], [V_null]]"
proof -
  note v = udf_heap_views [OF udf_small [OF assms]] and a = udf_addresses [OF assms]
  have "heap_view toy_module 296 1 (udf_toy ret) = [1]" "heap_view toy_module 297 1 (udf_toy ret) = [0]" "heap_view toy_module 288 4 (udf_toy ret) = [5, 0, 0, 0]"
    using v by (simp_all add: heap_view_def toy_wasm_def udf_toy_def)
  moreover have "element_value E_int32 [5, 0, 0, 0] = number_of_nat 5" by (simp add: le_value_def signed_value_def number_of_int_def)
  moreover have "[0..<2] = [0, Suc 0]" by (simp add: upt_rec)
  ultimately show ?thesis using a by (simp add: udf_desc_def array_type_def del: element_value.simps)
qed

theorem udf_numbers_arrive_witness:
  "\<exists>e'. callScalarUDF no_conversions toy_module [(1, \<lambda>args u. (Inr (hd args), Suc u))] 256 1 64 (length (udf_text ''INT32'')) 304 16
      \<lparr>us_wasm = udf_toy ''INT32'', us_world = 0\<rparr> = (Inr (), \<lparr>us_wasm = e', us_world = 2\<rparr>)
    \<and> engine_result toy_module ''INT32'' 2 256 e' = Inr [Some [5, 0, 0, 0], None]"
proof -
  have ret: "''INT32'' \<in> {''INT32'', ''VARCHAR''}" by simp
  let ?f = "\<lambda>args u. (Inr (hd args), Suc u)"
  have r: "sd_rows (udf_desc ''INT32'') = 2" by (simp add: udf_desc_def)
  have run: "run_rows ?f (map (\<lambda>row. map (arg_value toy_module udf_ptrs row (udf_toy ''INT32'')) (sd_args (udf_desc ''INT32''))) [0..<sd_rows (udf_desc ''INT32'')]) 0
      = (Inr [V_number (number_of_nat 5), V_null], 2)"
    unfolding r udf_arguments [OF ret] by (simp add: js_bind_def js_ret_def)
  have bytes: "element_bytes E_int32 (number_of_nat 5) = [5, 0, 0, 0]" by (simp add: integer_part_nat le_bytes_def upt_rec)
  have small: "length (w_HEAPU8 toy_module (udf_toy ''INT32'')) + 9 * sd_rows (udf_desc ''INT32'') + 2 * 8 < 2 ^ 53"
    using udf_heap_views(1) [OF udf_small [OF ret]] by (simp add: toy_wasm_def udf_toy_def udf_desc_def)
  have space: "9 * sd_rows (udf_desc ''INT32'') + 24 + 3 * 8 \<le> 1000" by (simp add: udf_desc_def)
  show ?thesis
    using udf_numbers_arrive [OF toy_module_ok udf_call [OF ret] _ _ _ run _ small space, of "[(1, ?f)]" 1 E_int32 no_conversions] bytes
    by (simp add: udf_desc_def array_type_def nullish_def del: element_bytes.simps)
qed

theorem udf_strings_are_read_at_address_zero_witness:
  "\<exists>e'. callScalarUDF no_conversions toy_module [(1, \<lambda>args u. (Inr (if nullish (hd args) then V_null else V_string ''a''), Suc u))] 256 1
      64 (length (udf_text ''VARCHAR'')) 304 16 \<lparr>us_wasm = udf_toy ''VARCHAR'', us_world = 0\<rparr> = (Inr (), \<lparr>us_wasm = e', us_world = 2\<rparr>)
    \<and> engine_result toy_module ''VARCHAR'' 2 256 e' = Inr [Some [7], None]"
proof -
  have ret: "''VARCHAR'' \<in> {''INT32'', ''VARCHAR''}" by simp
  let ?f = "\<lambda>args u. (Inr (if nullish (hd args) then V_null else V_string ''a''), Suc u)"
  have r: "sd_rows (udf_desc ''VARCHAR'') = 2" by (simp add: udf_desc_def)
  have run: "run_rows ?f (map (\<lambda>row. map (arg_value toy_module udf_ptrs row (udf_toy ''VARCHAR'')) (sd_args (udf_desc ''VARCHAR''))) [0..<sd_rows (udf_desc ''VARCHAR'')]) 0
      = (Inr [V_string ''a'', V_null], 2)"
    unfolding r udf_arguments [OF ret] by (simp add: js_bind_def js_ret_def nullish_def)
  note v = udf_heap_views [OF udf_small [OF ret]]
  have low: "in_block toy_module toy_blocks 0 (length (concat [''a'', []])) (udf_toy ''VARCHAR'')"
    using v(1) by (simp add: in_block_def toy_wasm_def udf_toy_def)
  have small: "length (w_HEAPU8 toy_module (udf_toy ''VARCHAR'')) + 9 * sd_rows (udf_desc ''VARCHAR'') + 3 * 8 < 2 ^ 53"
    using v(1) by (simp add: toy_wasm_def udf_toy_def udf_desc_def)
  have space: "17 * sd_rows (udf_desc ''VARCHAR'') + length (concat [''a'', []]) + 24 + 5 * 8 \<le> 1000" by (simp add: udf_desc_def)
  have "heap_view toy_module 0 1 (udf_toy ''VARCHAR'') = take 1 (subarray 0 2 (udf_heap ''VARCHAR''))"
    by (simp add: heap_view_def toy_wasm_def udf_toy_def subarray_def min_def)
  then have "heap_view toy_module 0 1 (udf_toy ''VARCHAR'') = [7]" using v(8) by simp
  then show ?thesis
    using udf_strings_are_read_at_address_zero [OF toy_module_ok udf_call [OF ret] _ _ run _ low _ small space, of "[(1, ?f)]" 1 no_conversions]
    by (simp add: r nullish_def string_result_def apart_def upt_rec) (simp add: udf_desc_def)
qed

end
