(* ===== verification/Hb_Pthread.thy ===== *)
theory Hb_Pthread
  imports Hb_Bindings_Props Hb_Udf
begin

text \<open>
  \<open>targets/duckdb-browser-coi.pthread.worker.ts\<close>: the script of a thread worker. It copies the runtime, lets Emscripten install its
  handler of messages and wraps it: four commands of the bindings change the worker's own tables of file handles and scalar
  functions, every other message goes on to Emscripten. The keys of the table of functions are values of JavaScript, names here and ids
  where the table is read. The theorems put the bindings (\<open>Hb_BindingsOps\<close>) and the scalar functions (\<open>Hb_Udf\<close>) together
  with it.
\<close>

section \<open>The worker\<close>

datatype map_key = K_number nat | K_string string

datatype 'm worker_event = EV_command pthread_message | EV_other 'm

record 'm thread =
  th_files :: "(string, file_handle) jsmap"
  th_udfFunctions :: "(map_key, UDFFunction) jsmap"
  th_handler :: bool
  th_forwarded :: "'m list"

text \<open>The tables are those of the runtime that is copied, both empty at the start; the handler is there unless Emscripten's part of the
  script does not run.\<close>

definition thread_start :: "bool \<Rightarrow> 'm thread" where
  "thread_start handler = \<lparr>th_files = [], th_udfFunctions = [], th_handler = handler, th_forwarded = []\<rparr>"

text \<open>\<open>udf.connection_id\<close>: a function has a \<open>connectionId\<close>, and no property of this name.\<close>

definition connection_id :: "UDFFunction \<Rightarrow> nat option" where
  "connection_id udf = None"

definition drop_functions :: "nat \<Rightarrow> (map_key, UDFFunction) jsmap \<Rightarrow> (map_key, UDFFunction) jsmap" where
  "drop_functions conn m =
     foldl (\<lambda>m key. case jm_get m key of Some udf \<Rightarrow> if connection_id udf = Some conn then jm_delete key m else m | None \<Rightarrow> m)
       m (jm_keys m)"

fun on_thread_message :: "'m worker_event \<Rightarrow> 'm thread \<Rightarrow> 'm thread" where
  "on_thread_message (EV_command (PM_registerFileHandle fname handle)) t = t\<lparr>th_files := jm_set fname handle (th_files t)\<rparr>"
| "on_thread_message (EV_command (PM_dropFileHandle fname)) t = t\<lparr>th_files := jm_delete fname (th_files t)\<rparr>"
| "on_thread_message (EV_command (PM_registerUDFFunction udf)) t
     = t\<lparr>th_udfFunctions := jm_set (K_string (udf_name udf)) udf (th_udfFunctions t)\<rparr>"
| "on_thread_message (EV_command (PM_dropUDFFunctions connectionId)) t = t\<lparr>th_udfFunctions := drop_functions connectionId (th_udfFunctions t)\<rparr>"
| "on_thread_message (EV_other m) t = (if th_handler t then t\<lparr>th_forwarded := th_forwarded t @ [m]\<rparr> else t)"

definition run_thread :: "'m worker_event list \<Rightarrow> 'm thread \<Rightarrow> 'm thread" where
  "run_thread evs t = foldl (\<lambda>t ev. on_thread_message ev t) t evs"

text \<open>The table as the scalar functions read it: by number. \<open>F\<close> stands for the functions of JavaScript.\<close>

definition functions_by_id :: "(nat \<Rightarrow> 'u udf) \<Rightarrow> 'm thread \<Rightarrow> (nat, 'u udf) jsmap" where
  "functions_by_id F t = List.map_filter (\<lambda>(k, udf). case k of K_number i \<Rightarrow> Some (i, F (udf_func udf)) | K_string _ \<Rightarrow> None) (th_udfFunctions t)"

definition posted_to :: "nat \<Rightarrow> 'e bindings \<Rightarrow> 'm worker_event list" where
  "posted_to w b = map (EV_command \<circ> snd) (filter (\<lambda>(v, m). v = w) (bd_posted b))"

text \<open>The handles a worker knows after all that the bindings have posted to it.\<close>

definition thread_files :: "nat \<Rightarrow> 'e bindings \<Rightarrow> (string, file_handle) jsmap" where
  "thread_files w b = th_files (run_thread (posted_to w b) (thread_start True :: unit thread))"

section \<open>What a worker knows\<close>

lemma run_thread_simps [simp]:
  "run_thread [] t = t" "run_thread (ev # evs) t = run_thread evs (on_thread_message ev t)"
  "run_thread (evs @ evs') t = run_thread evs' (run_thread evs t)"
  by (simp_all add: run_thread_def)

lemma drop_functions_nothing [simp]: "drop_functions conn m = m"
proof -
  have "foldl (\<lambda>m key. case jm_get m key of Some udf \<Rightarrow> if connection_id udf = Some conn then jm_delete key m else m | None \<Rightarrow> m) m ks = m" for ks
    by (induction ks) (auto simp: connection_id_def split: option.split)
  then show ?thesis by (simp add: drop_functions_def)
qed

definition named_only :: "'m thread \<Rightarrow> bool" where
  "named_only t \<longleftrightarrow> (\<forall>k \<in> set (jm_keys (th_udfFunctions t)). \<exists>s. k = K_string s)"

lemma named_only_start: "named_only (thread_start h)"
  by (simp add: named_only_def thread_start_def)

lemma named_only_message: "named_only t \<Longrightarrow> named_only (on_thread_message ev t)"
  by (induction ev t rule: on_thread_message.induct) (auto simp: named_only_def dom_update)

lemma named_only_run: "named_only t \<Longrightarrow> named_only (run_thread evs t)"
  by (induction evs arbitrary: t) (simp_all add: named_only_message)

lemma no_function_by_id: "named_only t \<Longrightarrow> functions_by_id F t = []"
  by (auto simp: functions_by_id_def named_only_def map_filter_def filter_empty_conv split: map_key.splits)

text \<open>Whatever messages a thread worker has received, it finds no scalar function: a function is entered under its name and looked up by
  its id. Every call of one on that thread gives the engine the error of an unknown function, and none of them is ever dropped.\<close>

theorem thread_finds_no_function:
  "callScalarUDF C W (functions_by_id F (run_thread evs (thread_start h))) response funcId descPtr descSize ptrsPtr ptrsSize
     = js_try (in_mod (storeError W response (''Unknown UDF with id: '' @ show_nat funcId))) (\<lambda>err. in_mod (storeError W response (error_text err)))
   \<and> th_udfFunctions (run_thread evs (thread_start h))
     = foldl (\<lambda>m udf. jm_set (K_string (udf_name udf)) udf m) [] (List.map_filter (\<lambda>ev. case ev of EV_command (PM_registerUDFFunction udf) \<Rightarrow> Some udf | _ \<Rightarrow> None) evs)"
proof
  show "callScalarUDF C W (functions_by_id F (run_thread evs (thread_start h))) response funcId descPtr descSize ptrsPtr ptrsSize
     = js_try (in_mod (storeError W response (''Unknown UDF with id: '' @ show_nat funcId))) (\<lambda>err. in_mod (storeError W response (error_text err)))"
    by (simp add: callScalarUDF_def no_function_by_id [OF named_only_run [OF named_only_start]])
  have "th_udfFunctions (run_thread evs t) = foldl (\<lambda>m udf. jm_set (K_string (udf_name udf)) udf m) (th_udfFunctions t)
      (List.map_filter (\<lambda>ev. case ev of EV_command (PM_registerUDFFunction udf) \<Rightarrow> Some udf | _ \<Rightarrow> None) evs)" for t
  proof (induction evs arbitrary: t)
    case (Cons ev evs)
    then show ?case by (cases "(ev, t)" rule: on_thread_message.cases) (simp_all add: map_filter_simps)
  qed (simp add: map_filter_simps)
  from this [of "thread_start h"] show "th_udfFunctions (run_thread evs (thread_start h))
     = foldl (\<lambda>m udf. jm_set (K_string (udf_name udf)) udf m) [] (List.map_filter (\<lambda>ev. case ev of EV_command (PM_registerUDFFunction udf) \<Rightarrow> Some udf | _ \<Rightarrow> None) evs)"
    by (simp add: thread_start_def)
qed

section \<open>File handles on the threads\<close>

lemma posted_once: "distinct ws \<Longrightarrow> filter (\<lambda>(v, m). v = w) (map (\<lambda>v. (v, c)) ws) = (if w \<in> set ws then [(w, c)] else [])"
  by (induction ws) auto

lemma registerFileHandle_posts:
  assumes "bindings_registerFileHandle W name handle protocol directIO b = (Inr (), b')"
  shows "bd_posted b' = bd_posted b @ map (\<lambda>w. (w, PM_registerFileHandle name handle)) (runningWorkers W (bd_wasm b'))
      @ map (\<lambda>w. (w, PM_dropFileHandle name)) (unusedWorkers W (bd_wasm b'))"
    "jm_get (bd_files b') name = Some handle"
    "(\<forall>h. handle \<noteq> SyncAccessHandle h) \<or> runningWorkers W (bd_wasm b') = []"
proof -
  let ?m = "js_bind (call_checked W ''duckdb_web_fs_register_file_url''
     [A_str name, A_str name, A_num (int (protocol_number protocol)), A_bool directIO]) (\<lambda>_. drop_response W)"
  obtain q b1 where m: "?m b = (q, b1)" by force
  have "frames ?m" by (intro hb_frames)
  note ff = frame_fields [OF framesD [OF this m]]
  let ?b2 = "b1\<lparr>bd_files := jm_set name handle (bd_files b1), bd_preparedHandles := jm_delete name (bd_preparedHandles b1)\<rparr>"
  have "bindings_registerFileHandle W name handle protocol directIO b = (case q of Inl e \<Rightarrow> (Inl e, b1) | Inr _ \<Rightarrow> post_handle W name handle ?b2)"
    using m by (auto simp: bindings_registerFileHandle_def js_bind_def js_modify_def split: prod.splits sum.splits)
  with assms have p: "post_handle W name handle ?b2 = (Inr (), b')" by (simp split: sum.splits)
  then have b': "b' = post_to (unusedWorkers W (bd_wasm b1)) (PM_dropFileHandle name) (post_to (runningWorkers W (bd_wasm b1)) (PM_registerFileHandle name handle) ?b2)"
    by (auto simp: post_handle_def split: if_splits)
  then show "bd_posted b' = bd_posted b @ map (\<lambda>w. (w, PM_registerFileHandle name handle)) (runningWorkers W (bd_wasm b'))
      @ map (\<lambda>w. (w, PM_dropFileHandle name)) (unusedWorkers W (bd_wasm b'))" "jm_get (bd_files b') name = Some handle"
    using ff by (simp_all add: post_to_def)
  show "(\<forall>h. handle \<noteq> SyncAccessHandle h) \<or> runningWorkers W (bd_wasm b') = []"
    using p b' by (auto simp: post_handle_def post_to_def split: if_splits)
qed

text \<open>A file handle that is registered reaches exactly the threads that run at that moment, and only if it is not a synchronous access
  handle. A worker that waits for a thread drops the file instead: a thread that starts later does not have it, while the table of the
  main thread does. What a worker knows of other files stays as it is.\<close>

theorem handles_reach_running_threads_only:
  assumes reg: "bindings_registerFileHandle W name handle protocol directIO b = (Inr (), b')"
    and w: "distinct (runningWorkers W (bd_wasm b') @ unusedWorkers W (bd_wasm b'))"
  shows "jm_get (bd_files b') name = Some handle
    \<and> (\<forall>w \<in> set (runningWorkers W (bd_wasm b')). jm_get (thread_files w b') name = Some handle
         \<and> (\<forall>i. handle \<noteq> SyncAccessHandle i))
    \<and> (\<forall>w \<in> set (unusedWorkers W (bd_wasm b')). jm_get (thread_files w b') name = None)
    \<and> (\<forall>w f. f \<noteq> name \<longrightarrow> jm_get (thread_files w b') f
         = jm_get (thread_files w b) f)"
proof -
  let ?R = "runningWorkers W (bd_wasm b')" and ?U = "unusedWorkers W (bd_wasm b')"
  have d: "distinct ?R" "distinct ?U" "set ?R \<inter> set ?U = {}" using w by auto
  have p: "posted_to w b' = posted_to w b @ (if w \<in> set ?R then [EV_command (PM_registerFileHandle name handle)] else [])
      @ (if w \<in> set ?U then [EV_command (PM_dropFileHandle name)] else [])" for w
    using registerFileHandle_posts(1) [OF reg] by (simp add: posted_to_def posted_once [OF d(1)] posted_once [OF d(2)])
  show ?thesis using registerFileHandle_posts(2,3) [OF reg] d(3) by (auto simp: thread_files_def p)
qed

text \<open>The engine of \<open>Hb_Bindings_Props\<close> with one thread that runs and one that waits.\<close>

definition threaded_wasm :: "engine wasm" where
  "threaded_wasm = engine_wasm\<lparr>w_pthread := \<lambda>_. Some ([1], [2])\<rparr>"

theorem handles_reach_running_threads_only_witness:
  "\<exists>b'. bindings_registerFileHandle threaded_wasm ''f'' (BlobHandle 7) BROWSER_FILEREADER False (engine_db 1 None) = (Inr (), b')
    \<and> jm_get (bd_files b') ''f'' = Some (BlobHandle 7)
    \<and> jm_get (thread_files 1 b') ''f'' = Some (BlobHandle 7)
    \<and> jm_get (thread_files 2 b') ''f'' = None"
proof -
  obtain r b' where r: "bindings_registerFileHandle threaded_wasm ''f'' (BlobHandle 7) BROWSER_FILEREADER False (engine_db 1 None) = (r, b')" by force
  have "fst (bindings_registerFileHandle threaded_wasm ''f'' (BlobHandle 7) BROWSER_FILEREADER False (engine_db 1 None)) = Inr ()"
    by code_simp
  with r have ok: "r = Inr ()" by simp
  have "runningWorkers threaded_wasm (bd_wasm b') = [1]" "unusedWorkers threaded_wasm (bd_wasm b') = [2]"
    by (simp_all add: threaded_wasm_def runningWorkers_def unusedWorkers_def)
  with handles_reach_running_threads_only [OF r [unfolded ok]] r ok show ?thesis by auto
qed

end
