(* ===== verification/Hb_Platform.thy ===== *)
theory Hb_Platform
  imports Hb_Json Hb_Extension_Load
begin

text \<open>
  \<open>platform.ts\<close>: what the platform can do, asked once and remembered, and the choice of a bundle by it; the two
  \<open>createDuckDB\<close> of the blocking targets; where the module's loader looks for files, and the reports on the download of the module
  (\<open>bindings_browser_base.ts\<close>, \<open>bindings_node_base.ts\<close>).

  The feature checks of \<open>wasm-feature-detect\<close>, the globals of the platform, the package's name and version and the handlers of reports
  are parameters.
\<close>

section \<open>The platform\<close>

record environment =
  env_userAgent :: "string option"
  env_BigInt64Array :: bool
  env_crossOriginIsolated :: "bool option"
  env_exceptions :: bool
  env_threads :: bool
  env_simd :: bool
  env_bulkMemory :: bool

definition isNode :: "environment \<Rightarrow> bool" where
  "isNode env \<longleftrightarrow> env_userAgent env = None"

definition userAgent :: "environment \<Rightarrow> string" where
  "userAgent env = (case env_userAgent env of None \<Rightarrow> ''node'' | Some ua \<Rightarrow> ua)"

definition isFirefox :: "environment \<Rightarrow> bool" where
  "isFirefox env \<longleftrightarrow> contains ''Firefox'' (userAgent env)"

definition line_end :: "char \<Rightarrow> bool" where
  "line_end c \<longleftrightarrow> c = char_of (10 :: nat) \<or> c = char_of (13 :: nat)"

text \<open>The expression \<open>^((?!chrome|android).)*safari\<close>, without regard to case.\<close>

fun safari_match :: "string \<Rightarrow> bool" where
  "safari_match [] = False"
| "safari_match (c # s) = (starts_with ''safari'' (c # s)
     \<or> (\<not> starts_with ''chrome'' (c # s) \<and> \<not> starts_with ''android'' (c # s) \<and> \<not> line_end c \<and> safari_match s))"

definition isSafari :: "environment \<Rightarrow> bool" where
  "isSafari env \<longleftrightarrow> safari_match (map lower (userAgent env))"

lemma ex_list: "(\<exists>u. P u) \<longleftrightarrow> P [] \<or> (\<exists>d u. P (d # u))"
  by (metis list.exhaust)

lemma safari_match_iff:
  "safari_match s \<longleftrightarrow> (\<exists>u v. s = u @ ''safari'' @ v \<and> list_all (\<lambda>c. \<not> line_end c) u
     \<and> (\<forall>x y. u = x @ y \<and> y \<noteq> [] \<longrightarrow> \<not> starts_with ''chrome'' (y @ ''safari'' @ v) \<and> \<not> starts_with ''android'' (y @ ''safari'' @ v)))"
  (is "_ \<longleftrightarrow> (\<exists>u v. ?P s u v)")
proof (induction s)
  case (Cons c s)
  let ?ok = "\<not> starts_with ''chrome'' (c # s) \<and> \<not> starts_with ''android'' (c # s) \<and> \<not> line_end c"
  have "(\<exists>v. ?P (c # s) [] v) \<longleftrightarrow> starts_with ''safari'' (c # s)" by (simp only: starts_with_iff) auto
  moreover have "?P (c # s) (d # u) v \<longleftrightarrow> c = d \<and> ?ok \<and> ?P s u v" for d u v
  proof
    assume a: "?P (c # s) (d # u) v"
    then have s: "c = d" "s = u @ ''safari'' @ v" by simp_all
    have "\<not> starts_with ''chrome'' ((d # u) @ ''safari'' @ v) \<and> \<not> starts_with ''android'' ((d # u) @ ''safari'' @ v)"
      using a by (metis append_Nil list.distinct(1))
    moreover have "\<not> starts_with ''chrome'' (y @ ''safari'' @ v) \<and> \<not> starts_with ''android'' (y @ ''safari'' @ v)" if "u = x @ y" "y \<noteq> []" for x y
      using a that by (metis append_Cons)
    ultimately show "c = d \<and> ?ok \<and> ?P s u v" using a s by simp
  next
    assume b: "c = d \<and> ?ok \<and> ?P s u v"
    have "\<not> starts_with ''chrome'' (y @ ''safari'' @ v) \<and> \<not> starts_with ''android'' (y @ ''safari'' @ v)" if "d # u = x @ y" "y \<noteq> []" for x y
      using b that by (cases x) (auto simp del: starts_with.simps)
    moreover have "c # s = (d # u) @ ''safari'' @ v" "list_all (\<lambda>c. \<not> line_end c) (d # u)" using b by auto
    ultimately show "?P (c # s) (d # u) v" by blast
  qed
  ultimately have "(\<exists>u v. ?P (c # s) u v) \<longleftrightarrow> starts_with ''safari'' (c # s) \<or> (\<exists>d u v. c = d \<and> ?ok \<and> ?P s u v)"
    by (subst ex_list [of "\<lambda>u. \<exists>v. ?P (c # s) u v"]) (simp only:)
  then show ?case unfolding safari_match.simps Cons.IH by blast
qed simp

section \<open>Features\<close>

record PlatformFeatures =
  pf_bigInt64Array :: bool
  pf_crossOriginIsolated :: bool
  pf_wasmExceptions :: bool
  pf_wasmSIMD :: bool
  pf_wasmBulkMemory :: bool
  pf_wasmThreads :: bool

text \<open>The variables of the module.\<close>

record feature_cache =
  fc_bigInt64Array :: "bool option"
  fc_wasmExceptions :: "bool option"
  fc_wasmThreads :: "bool option"
  fc_wasmSIMD :: "bool option"
  fc_wasmBulkMemory :: "bool option"

definition no_features :: feature_cache where
  "no_features = \<lparr>fc_bigInt64Array = None, fc_wasmExceptions = None, fc_wasmThreads = None, fc_wasmSIMD = None, fc_wasmBulkMemory = None\<rparr>"

definition remembered :: "bool option \<Rightarrow> bool \<Rightarrow> bool" where
  "remembered known check = (case known of None \<Rightarrow> check | Some b \<Rightarrow> b)"

definition getPlatformFeatures :: "environment \<Rightarrow> feature_cache \<Rightarrow> PlatformFeatures \<times> feature_cache" where
  "getPlatformFeatures env c =
     (let bigInt64Array = remembered (fc_bigInt64Array c) (env_BigInt64Array env);
          wasmExceptions = remembered (fc_wasmExceptions c) (env_exceptions env);
          wasmThreads = remembered (fc_wasmThreads c) (env_threads env);
          wasmSIMD = remembered (fc_wasmSIMD c) (env_simd env);
          wasmBulkMemory = remembered (fc_wasmBulkMemory c) (env_bulkMemory env)
      in (\<lparr>pf_bigInt64Array = bigInt64Array, pf_crossOriginIsolated = isNode env \<or> env_crossOriginIsolated env = Some True,
           pf_wasmExceptions = wasmExceptions, pf_wasmSIMD = wasmSIMD, pf_wasmBulkMemory = wasmBulkMemory, pf_wasmThreads = wasmThreads\<rparr>,
          \<lparr>fc_bigInt64Array = Some bigInt64Array, fc_wasmExceptions = Some wasmExceptions, fc_wasmThreads = Some wasmThreads,
           fc_wasmSIMD = Some wasmSIMD, fc_wasmBulkMemory = Some wasmBulkMemory\<rparr>))"

section \<open>Bundles\<close>

record bundle_files =
  bf_mainModule :: string
  bf_mainWorker :: string

record DuckDBBundles =
  bu_mvp :: bundle_files
  bu_eh :: "bundle_files option"
  bu_coi :: "(bundle_files \<times> string) option"

record DuckDBBundle =
  db_mainModule :: string
  db_mainWorker :: "string option"
  db_pthreadWorker :: "string option"

definition getJsDelivrBundles :: "string \<Rightarrow> string \<Rightarrow> DuckDBBundles" where
  "getJsDelivrBundles PACKAGE_NAME PACKAGE_VERSION =
     (let jsdelivr_dist_url = ''https://cdn.jsdelivr.net/npm/'' @ PACKAGE_NAME @ ''@'' @ PACKAGE_VERSION @ ''/dist/''
      in \<lparr>bu_mvp = \<lparr>bf_mainModule = jsdelivr_dist_url @ ''duckdb-mvp.wasm'', bf_mainWorker = jsdelivr_dist_url @ ''duckdb-browser-mvp.worker.js''\<rparr>,
          bu_eh = Some \<lparr>bf_mainModule = jsdelivr_dist_url @ ''duckdb-eh.wasm'', bf_mainWorker = jsdelivr_dist_url @ ''duckdb-browser-eh.worker.js''\<rparr>,
          bu_coi = None\<rparr>)"

definition mvp_bundle :: "DuckDBBundles \<Rightarrow> DuckDBBundle" where
  "mvp_bundle bundles = \<lparr>db_mainModule = bf_mainModule (bu_mvp bundles), db_mainWorker = Some (bf_mainWorker (bu_mvp bundles)), db_pthreadWorker = None\<rparr>"

definition selectBundle :: "environment \<Rightarrow> DuckDBBundles \<Rightarrow> feature_cache \<Rightarrow> DuckDBBundle \<times> feature_cache" where
  "selectBundle env bundles c =
     (case getPlatformFeatures env c of (platform, c) \<Rightarrow>
       (if pf_wasmExceptions platform
        then case (if pf_wasmSIMD platform \<and> pf_wasmThreads platform \<and> pf_crossOriginIsolated platform then bu_coi bundles else None) of
            Some (coi, pthreadWorker) \<Rightarrow>
              \<lparr>db_mainModule = bf_mainModule coi, db_mainWorker = Some (bf_mainWorker coi), db_pthreadWorker = Some pthreadWorker\<rparr>
          | None \<Rightarrow> (case bu_eh bundles of
              Some eh \<Rightarrow> \<lparr>db_mainModule = bf_mainModule eh, db_mainWorker = Some (bf_mainWorker eh), db_pthreadWorker = None\<rparr>
            | None \<Rightarrow> mvp_bundle bundles)
        else mvp_bundle bundles, c))"

text \<open>\<open>createDuckDB\<close> of the blocking targets, the same for the browser and for Node: the class of the bindings and its module.\<close>

datatype blocking_variant = DuckDBMVP | DuckDBNext

definition createDuckDB :: "environment \<Rightarrow> DuckDBBundles \<Rightarrow> feature_cache \<Rightarrow> (blocking_variant \<times> string) \<times> feature_cache" where
  "createDuckDB env bundles c = (case getPlatformFeatures env c of (platform, c) \<Rightarrow>
     (case (if pf_wasmExceptions platform then bu_eh bundles else None) of
        Some eh \<Rightarrow> (DuckDBNext, bf_mainModule eh)
      | None \<Rightarrow> (DuckDBMVP, bf_mainModule (bu_mvp bundles)), c))"

section \<open>What a bundle needs\<close>

datatype bundle_kind = MVP | EH | COI

fun bundle_of :: "DuckDBBundles \<Rightarrow> bundle_kind \<Rightarrow> DuckDBBundle option" where
  "bundle_of bundles MVP = Some (mvp_bundle bundles)"
| "bundle_of bundles EH = map_option (\<lambda>f. \<lparr>db_mainModule = bf_mainModule f, db_mainWorker = Some (bf_mainWorker f), db_pthreadWorker = None\<rparr>) (bu_eh bundles)"
| "bundle_of bundles COI = map_option (\<lambda>(f, p). \<lparr>db_mainModule = bf_mainModule f, db_mainWorker = Some (bf_mainWorker f), db_pthreadWorker = Some p\<rparr>) (bu_coi bundles)"

text \<open>Exceptions; and, to run on several threads, vectors, threads and shared memory.\<close>

fun runs_on :: "PlatformFeatures \<Rightarrow> bundle_kind \<Rightarrow> bool" where
  "runs_on p MVP = True"
| "runs_on p EH = pf_wasmExceptions p"
| "runs_on p COI = (pf_wasmExceptions p \<and> pf_wasmSIMD p \<and> pf_wasmThreads p \<and> pf_crossOriginIsolated p)"

fun rank :: "bundle_kind \<Rightarrow> nat" where
  "rank MVP = 0"
| "rank EH = 1"
| "rank COI = 2"

text \<open>The bundle selected is given, the platform supports it, and no better one that is given is supported. The platform is that of the
  first call: later calls see what the first has found, whatever has changed, except for the isolation of the page.\<close>

theorem selectBundle_best:
  assumes "selectBundle env bundles c = (b, c')"
  shows "\<exists>k. bundle_of bundles k = Some b \<and> runs_on (fst (getPlatformFeatures env c)) k
      \<and> (\<forall>k'. rank k < rank k' \<and> runs_on (fst (getPlatformFeatures env c)) k' \<longrightarrow> bundle_of bundles k' = None)
    \<and> (\<forall>later. fst (getPlatformFeatures later c') = (fst (getPlatformFeatures env c))
        \<lparr>pf_crossOriginIsolated := pf_crossOriginIsolated (fst (getPlatformFeatures later c'))\<rparr>)"
proof -
  obtain p c1 where p: "getPlatformFeatures env c = (p, c1)" by force
  have c': "c' = c1" using assms by (simp add: selectBundle_def p)
  have later: "fst (getPlatformFeatures later c1) = p\<lparr>pf_crossOriginIsolated := pf_crossOriginIsolated (fst (getPlatformFeatures later c1))\<rparr>" for later
    using p by (auto simp: getPlatformFeatures_def Let_def remembered_def)
  have b: "b = fst (selectBundle env bundles c)" using assms by simp
  let ?k = "if runs_on p COI \<and> bu_coi bundles \<noteq> None then COI else if runs_on p EH \<and> bu_eh bundles \<noteq> None then EH else MVP"
  have "bundle_of bundles ?k = Some b" unfolding b by (auto simp: selectBundle_def p split: option.splits)
  moreover have "runs_on p ?k" by simp
  moreover have "bundle_of bundles k' = None" if "rank ?k < rank k'" "runs_on p k'" for k' using that by (cases k'; cases "bu_coi bundles") (auto split: if_splits)
  ultimately show ?thesis using later unfolding p c' fst_conv by blast
qed

definition modern :: environment where
  "modern = \<lparr>env_userAgent = Some ''Mozilla/5.0'', env_BigInt64Array = True, env_crossOriginIsolated = None, env_exceptions = True, env_threads = True,
     env_simd = True, env_bulkMemory = True\<rparr>"

theorem selectBundle_best_witness:
  "bundle_of (getJsDelivrBundles ''d'' ''1'') EH = Some (fst (selectBundle modern (getJsDelivrBundles ''d'' ''1'') no_features))"
proof -
  obtain b c' where r: "selectBundle modern (getJsDelivrBundles ''d'' ''1'') no_features = (b, c')" by force
  obtain k where k: "bundle_of (getJsDelivrBundles ''d'' ''1'') k = Some b" "runs_on (fst (getPlatformFeatures modern no_features)) k"
    "\<forall>k'. rank k < rank k' \<and> runs_on (fst (getPlatformFeatures modern no_features)) k' \<longrightarrow> bundle_of (getJsDelivrBundles ''d'' ''1'') k' = None"
    using selectBundle_best [OF r] by blast
  have eh: "runs_on (fst (getPlatformFeatures modern no_features)) EH" "bundle_of (getJsDelivrBundles ''d'' ''1'') EH \<noteq> None"
    "bundle_of (getJsDelivrBundles ''d'' ''1'') COI = None"
    by (simp_all add: getPlatformFeatures_def modern_def no_features_def remembered_def Let_def getJsDelivrBundles_def)
  then have "k = EH" using k(1) k(3) [rule_format, of EH] by (cases k) auto
  with k(1) r show ?thesis by simp
qed

section \<open>Files of the module\<close>

text \<open>\<open>locateFile\<close> of the browser and of Node, which differ in one word of a message. A pthread worker of \<open>null\<close> or of no characters
  is missing.\<close>

definition locateFile :: "string \<Rightarrow> string \<Rightarrow> string option \<Rightarrow> string \<Rightarrow> string \<Rightarrow> string res" where
  "locateFile word mainModuleURL pthreadWorkerURL file prefix =
     (if ends_with ''.wasm'' file then Inr mainModuleURL
      else if ends_with ''.worker.js'' file
      then (if pthreadWorkerURL \<in> {None, Some []} then Inl (Error (''Missing DuckDB worker '' @ word @ ''!'')) else Inr (the pthreadWorkerURL))
      else Inl (Error (''WASM instantiation requested unexpected file: prefix='' @ prefix @ '' path='' @ file)))"

definition browser_locateFile :: "string \<Rightarrow> string option \<Rightarrow> string \<Rightarrow> string \<Rightarrow> string res" where
  "browser_locateFile = locateFile ''URL''"

definition node_locateFile :: "string \<Rightarrow> string option \<Rightarrow> string \<Rightarrow> string \<Rightarrow> string res" where
  "node_locateFile = locateFile ''path''"

section \<open>Reports on the download\<close>

text \<open>A handler may throw. Those before it have been called, those after it are not.\<close>

type_synonym report_handler = "InstantiationProgress \<Rightarrow> bool"

fun call_handlers :: "report_handler list \<Rightarrow> InstantiationProgress \<Rightarrow> bool" where
  "call_handlers [] p = True"
| "call_handlers (h # hs) p = (h p \<and> call_handlers hs p)"

text \<open>\<open>parseInt(text, 10) || 0\<close>, for the values of Content-Length that a browser passes on.\<close>

definition content_length :: "string \<Rightarrow> nat" where
  "content_length text = digits_value (takeWhile is_digit (dropWhile (\<lambda>c. c = CHR '' '') text))"

text \<open>What the reader of the clone gives: the size of a chunk and the time; then the time of the end, or a failure.\<close>

definition count_chunk :: "nat \<Rightarrow> InstantiationProgress \<Rightarrow> InstantiationProgress" where
  "count_chunk n p = (let p = p\<lparr>bytesLoaded := bytesLoaded p + n\<rparr> in if bytesLoaded p > bytesTotal p then p\<lparr>bytesTotal := 0\<rparr> else p)"

fun track_read :: "report_handler list \<Rightarrow> InstantiationProgress \<Rightarrow> (nat \<times> nat) list \<Rightarrow> nat option \<Rightarrow> InstantiationProgress list" where
  "track_read hs p [] None = []"
| "track_read hs p [] (Some now) = [p\<lparr>updatedAt := now\<rparr>]"
| "track_read hs p ((n, now) # chunks) fin =
     (let p = count_chunk n p
      in if now - updatedAt p < 20 then track_read hs p chunks fin
         else let p = p\<lparr>updatedAt := now\<rparr> in p # (if call_handlers hs p then track_read hs p chunks fin else []))"

text \<open>The reports, in order; every handler gets each of them, unless one before it throws.\<close>

definition trackProgress :: "report_handler list \<Rightarrow> string option \<Rightarrow> bool \<Rightarrow> nat \<Rightarrow> ((nat \<times> nat) list \<times> nat option) option \<Rightarrow> InstantiationProgress list" where
  "trackProgress handlers contentLengthHdr encoded start body = (case body of
     None \<Rightarrow> []
   | Some (chunks, fin) \<Rightarrow> track_read handlers
       \<lparr>startedAt = start, updatedAt = start, bytesTotal = (case contentLengthHdr of Some t \<Rightarrow> if encoded then 0 else content_length t | None \<Rightarrow> 0),
        bytesLoaded = 0\<rparr> chunks fin)"

text \<open>Without a handler nothing is counted.\<close>

definition track_if_heard :: "report_handler list \<Rightarrow> string option \<Rightarrow> bool \<Rightarrow> nat \<Rightarrow> ((nat \<times> nat) list \<times> nat option) option \<Rightarrow> InstantiationProgress list" where
  "track_if_heard handlers contentLengthHdr encoded start body =
     (if handlers = [] then [] else trackProgress handlers contentLengthHdr encoded start body)"

text \<open>\<open>xhr.onprogress\<close>, for an event with the total and the loaded bytes, at a time.\<close>

definition xhr_progress :: "nat \<Rightarrow> nat \<Rightarrow> nat \<Rightarrow> InstantiationProgress \<Rightarrow> InstantiationProgress \<times> InstantiationProgress list" where
  "xhr_progress all loaded now p =
     (let p = p\<lparr>bytesTotal := all, bytesLoaded := loaded\<rparr>
      in if now - updatedAt p < 20 then (p, []) else (let p = p\<lparr>updatedAt := now\<rparr> in (p, [p])))"

lemma count_chunk [simp]:
  "bytesTotal (count_chunk n p) = 0 \<or> bytesLoaded (count_chunk n p) \<le> bytesTotal (count_chunk n p)"
  "bytesLoaded (count_chunk n p) = bytesLoaded p + n"
  "bytesLoaded p + n \<le> bytesTotal p \<Longrightarrow> bytesTotal (count_chunk n p) = bytesTotal p"
  by (auto simp: count_chunk_def Let_def)

lemma track_read_sound:
  assumes "bytesTotal p = 0 \<or> bytesLoaded p \<le> bytesTotal p" "q \<in> set (track_read hs p chunks fin)"
  shows "bytesTotal q = 0 \<or> bytesLoaded q \<le> bytesTotal q"
  using assms
proof (induction chunks arbitrary: p)
  case Nil
  then show ?case by (cases fin) auto
next
  case (Cons c chunks)
  obtain n now where c: "c = (n, now)" by force
  show ?case using Cons.prems(2) Cons.IH [of "count_chunk n p"] Cons.IH [of "count_chunk n p\<lparr>updatedAt := now\<rparr>"] count_chunk(1) [of n p]
    by (auto simp: c Let_def split: if_splits)
qed

text \<open>No handler throws.\<close>

definition quiet :: "report_handler list \<Rightarrow> bool" where
  "quiet hs \<longleftrightarrow> (\<forall>h \<in> set hs. \<forall>p. h p)"

lemma call_quiet: "quiet hs \<Longrightarrow> call_handlers hs p"
  unfolding quiet_def by (induction hs) auto

lemma track_read_last:
  assumes "quiet hs"
  shows "track_read hs p chunks (Some now) \<noteq> [] \<and> bytesLoaded (last (track_read hs p chunks (Some now))) = bytesLoaded p + sum_list (map fst chunks)"
  using assms
proof (induction chunks arbitrary: p)
  case (Cons c chunks)
  then show ?case by (cases c) (simp add: Let_def call_quiet)
qed simp

lemma track_read_total:
  assumes "bytesLoaded p + sum_list (map fst chunks) \<le> bytesTotal p" "q \<in> set (track_read hs p chunks fin)"
  shows "bytesTotal q = bytesTotal p"
  using assms
proof (induction chunks arbitrary: p)
  case Nil
  then show ?case by (cases fin) auto
next
  case (Cons c chunks)
  obtain n now where c: "c = (n, now)" by force
  let ?p = "count_chunk n p"
  have "bytesTotal ?p = bytesTotal p" "bytesLoaded ?p + sum_list (map fst chunks) \<le> bytesTotal ?p" using Cons.prems(1) by (simp_all add: c)
  then show ?case using Cons.prems(2) Cons.IH [of ?p] Cons.IH [of "?p\<lparr>updatedAt := now\<rparr>"] by (auto simp: c Let_def split: if_splits)
qed

text \<open>The reports on a download that is read to its end: none says that more has come than there is, a total of 0 meaning that it is not
  known; the last one has all bytes; and when the length is that of the module and not of a compressed form, every one has it.\<close>

theorem progress_reports:
  assumes "quiet handlers" "handlers \<noteq> []"
  shows "let reports = track_if_heard handlers hdr encoded start (Some (chunks, Some now)); size = sum_list (map fst chunks)
    in reports \<noteq> [] \<and> bytesLoaded (last reports) = size \<and> (\<forall>q \<in> set reports. bytesTotal q = 0 \<or> bytesLoaded q \<le> bytesTotal q)
      \<and> (\<not> encoded \<and> map_option content_length hdr = Some size \<longrightarrow> (\<forall>q \<in> set reports. bytesTotal q = size))"
proof -
  let ?p = "\<lparr>startedAt = start, updatedAt = start, bytesTotal = (case hdr of Some t \<Rightarrow> if encoded then 0 else content_length t | None \<Rightarrow> 0), bytesLoaded = 0\<rparr>"
  have r: "track_if_heard handlers hdr encoded start (Some (chunks, Some now)) = track_read handlers ?p chunks (Some now)"
    using assms(2) by (simp add: track_if_heard_def trackProgress_def)
  have "bytesTotal q = sum_list (map fst chunks)"
    if "\<not> encoded" "map_option content_length hdr = Some (sum_list (map fst chunks))" "q \<in> set (track_read handlers ?p chunks (Some now))" for q
    using that track_read_total [of ?p chunks q] by (auto split: option.splits)
  then show ?thesis unfolding r Let_def using track_read_last [OF assms(1), of ?p chunks now] track_read_sound [of ?p] by auto
qed

theorem progress_reports_witness:
  "map bytesTotal (track_if_heard [\<lambda>_. True] (Some ''7'') False 0 (Some ([(3, 30), (4, 40)], Some 45))) = [7, 7]"
proof -
  have q: "quiet [\<lambda>_. True]" by (simp add: quiet_def)
  have l: "content_length ''7'' = 7" by code_simp
  let ?r = "track_if_heard [\<lambda>_. True] (Some ''7'') False 0 (Some ([(3, 30), (4, 40)], Some 45))"
  have "\<forall>q \<in> set ?r. bytesTotal q = 7" using progress_reports [OF q, of "Some ''7''" False 0 "[(3, 30), (4, 40)]" 45] l by (simp add: Let_def)
  moreover have "length ?r = 2" by (simp add: track_if_heard_def trackProgress_def l Let_def count_chunk_def)
  ultimately show ?thesis by (auto simp: length_Suc_conv numeral_2_eq_2)
qed

end
