(* ===== verification/Hb_Instantiate.thy ===== *)
theory Hb_Instantiate
  imports Hb_Platform "HOL-Library.Multiset"
begin

text \<open>
  \<open>instantiate\<close> of the bindings (\<open>bindings_base.ts\<close>), with \<open>instantiateWasm\<close> of the browser
  (\<open>bindings_browser_base.ts\<close>) and of Node (\<open>bindings_node_base.ts\<close>): several calls of the asynchronous method may be
  under way, each at one of its awaits.

  The \<open>n\<close>-th promise and the \<open>n\<close>-th module are made together, and the initialisation of the module resolves the promise. Emscripten's
  factory is a parameter: it resolves when the runtime of its module is initialised, and rejects only if \<open>instantiateWasm\<close> throws. The start
  of the fetch helper (\<open>Hb_HttpFetch\<close>) never fails an instantiation. A call is known by its number, a handler of reports by an identity.
\<close>

section \<open>State\<close>

datatype phase =
    Awaits_other nat
  | Awaits_module nat
  | Awaits_init "nat option"
  | Awaits_helper
  | Returned
  | Threw

record inst_call =
  ic_onProgress :: "nat option"
  ic_phase :: phase

record inst_state =
  in_instance :: "nat option"
  in_initPromise :: "nat option"
  in_handlers :: "nat list"
  in_calls :: "inst_call list"
  in_modules :: nat
  in_initialized :: "nat list"
  in_rejected :: "nat list"
  in_log :: nat
  in_current_views :: "nat list"
  in_bindings :: bool

definition not_instantiated :: inst_state where
  "not_instantiated = \<lparr>in_instance = None, in_initPromise = None, in_handlers = [], in_calls = [], in_modules = 0, in_initialized = [],
     in_rejected = [], in_log = 0, in_current_views = [], in_bindings = False\<rparr>"

definition set_phase :: "nat \<Rightarrow> phase \<Rightarrow> inst_state \<Rightarrow> inst_state" where
  "set_phase i ph s = s\<lparr>in_calls := (in_calls s)[i := (in_calls s ! i)\<lparr>ic_phase := ph\<rparr>]\<rparr>"

section \<open>The method\<close>

text \<open>From the creation of the promise to the await of the module.\<close>

definition create_module :: "nat \<Rightarrow> inst_state \<Rightarrow> inst_state" where
  "create_module i s =
     (let q = in_modules s; onProgress = ic_onProgress (in_calls s ! i)
      in set_phase i (Awaits_module q) (s\<lparr>in_initPromise := Some q, in_handlers := (case onProgress of Some h \<Rightarrow> [h] | None \<Rightarrow> []),
           in_modules := Suc q\<rparr>))"

definition add_call :: "nat option \<Rightarrow> phase \<Rightarrow> inst_state \<Rightarrow> inst_state" where
  "add_call onProgress ph s = s\<lparr>in_calls := in_calls s @ [\<lparr>ic_onProgress = onProgress, ic_phase = ph\<rparr>]\<rparr>"

definition instantiate_call :: "nat option \<Rightarrow> inst_state \<Rightarrow> inst_state" where
  "instantiate_call onProgress s =
     (if in_instance s \<noteq> None then add_call onProgress Returned s
      else case in_initPromise s of
        Some q \<Rightarrow> add_call onProgress (Awaits_other q) (case onProgress of Some h \<Rightarrow> s\<lparr>in_handlers := in_handlers s @ [h]\<rparr> | None \<Rightarrow> s)
      | None \<Rightarrow> create_module (length (in_calls s)) (add_call onProgress (Awaits_module (in_modules s)) s))"

definition after_init :: "nat \<Rightarrow> inst_state \<Rightarrow> inst_state" where
  "after_init i s = set_phase i Awaits_helper (s\<lparr>in_initPromise := None, in_current_views := the (in_instance s) # in_current_views s\<rparr>)"

definition finish_call :: "nat \<Rightarrow> inst_state \<Rightarrow> inst_state" where
  "finish_call i s = set_phase i Returned (s\<lparr>in_handlers := filter (\<lambda>x. Some x \<noteq> ic_onProgress (in_calls s ! i)) (in_handlers s), in_bindings := True\<rparr>)"

text \<open>A call goes on where its await allows it.\<close>

definition continue_call :: "nat \<Rightarrow> inst_state \<Rightarrow> inst_state option" where
  "continue_call i s =
     (if length (in_calls s) \<le> i then None
      else case ic_phase (in_calls s ! i) of
        Awaits_other q \<Rightarrow> if q \<in> set (in_initialized s) then Some (create_module i s) else None
      | Awaits_module q \<Rightarrow>
          if q \<in> set (in_initialized s) then Some (set_phase i (Awaits_init (in_initPromise s)) (s\<lparr>in_instance := Some q\<rparr>))
          else if q \<in> set (in_rejected s) then Some (set_phase i Threw s) else None
      | Awaits_init p \<Rightarrow> (case p of Some q \<Rightarrow> if q \<in> set (in_initialized s) then Some (after_init i s) else None | None \<Rightarrow> Some (after_init i s))
      | Awaits_helper \<Rightarrow> Some (finish_call i s)
      | Returned \<Rightarrow> None
      | Threw \<Rightarrow> None)"

section \<open>Loading the module\<close>

datatype load_path = Streaming | XHR | Manual | Node_file

definition instantiateWasm :: "bool \<Rightarrow> bool \<Rightarrow> load_path" where
  "instantiateWasm instantiateStreaming hasXMLHttpRequest = (if instantiateStreaming then Streaming else if hasXMLHttpRequest then XHR else Manual)"

text \<open>What the loading of a module comes to: the module runs, its download or its compilation fails, or \<open>instantiateWasm\<close> itself
  throws: on Node the file cannot be read, and a request of the old kind cannot open its URL. A failure is told to nobody, but for a log entry where the module is loaded by a request
  of the old kind.\<close>

datatype load_outcome = Module_runs | Load_failed | Unreadable

definition load_module :: "nat \<Rightarrow> load_path \<Rightarrow> load_outcome \<Rightarrow> inst_state \<Rightarrow> inst_state option" where
  "load_module q pth outcome s =
     (if in_modules s \<le> q \<or> q \<in> set (in_initialized s) \<or> q \<in> set (in_rejected s) then None
      else case outcome of
        Module_runs \<Rightarrow> Some (s\<lparr>in_initialized := q # in_initialized s\<rparr>)
      | Load_failed \<Rightarrow> Some (if pth = XHR then s\<lparr>in_log := Suc (in_log s)\<rparr> else s)
      | Unreadable \<Rightarrow> if pth = Node_file \<or> pth = XHR then Some (s\<lparr>in_rejected := q # in_rejected s\<rparr>) else None)"

datatype inst_event = I_call "nat option" | I_load nat load_path load_outcome | I_continue nat

fun inst_step :: "inst_event \<Rightarrow> inst_state \<Rightarrow> inst_state option" where
  "inst_step (I_call onProgress) s = Some (instantiate_call onProgress s)"
| "inst_step (I_load q pth outcome) s = load_module q pth outcome s"
| "inst_step (I_continue i) s = continue_call i s"

fun inst_run :: "inst_event list \<Rightarrow> inst_state \<Rightarrow> inst_state option" where
  "inst_run [] s = Some s"
| "inst_run (ev # evs) s = (case inst_step ev s of None \<Rightarrow> None | Some t \<Rightarrow> inst_run evs t)"

lemma inst_run_append: "inst_run (evs @ evs') s = (case inst_run evs s of None \<Rightarrow> None | Some t \<Rightarrow> inst_run evs' t)"
  by (induction evs arbitrary: s) (auto split: option.splits)

lemma inst_run_invariant:
  assumes "\<And>ev s t. ev \<in> set evs \<Longrightarrow> P s \<Longrightarrow> inst_step ev s = Some t \<Longrightarrow> P t" "P s" "inst_run evs s = Some t"
  shows "P t"
  using assms by (induction evs arbitrary: s) (auto split: option.splits)

lemmas inst_defs = instantiate_call_def add_call_def create_module_def set_phase_def after_init_def finish_call_def load_module_def

section \<open>Phases\<close>

definition phases :: "inst_state \<Rightarrow> phase list" where
  "phases s = map ic_phase (in_calls s)"

lemma phases_simps [simp]:
  "phases (set_phase i ph s) = (phases s)[i := ph]" "phases (add_call h ph s) = phases s @ [ph]"
  "phases (create_module i s) = (phases s)[i := Awaits_module (in_modules s)]"
  "phases (after_init i s) = (phases s)[i := Awaits_helper]" "phases (finish_call i s) = (phases s)[i := Returned]"
proof -
  have f: "phases (set_phase i ph s) = (phases s)[i := ph]" for i ph s
    by (cases "i < length (in_calls s)") (simp_all add: phases_def set_phase_def map_update)
  have "phases (s\<lparr>in_initPromise := p, in_handlers := hs, in_modules := n\<rparr>) = phases s" "phases (s\<lparr>in_initPromise := p, in_current_views := hs\<rparr>) = phases s"
    "phases (s\<lparr>in_handlers := hs, in_bindings := b\<rparr>) = phases s" for s p hs n b by (simp_all add: phases_def)
  with f show "phases (set_phase i ph s) = (phases s)[i := ph]" "phases (create_module i s) = (phases s)[i := Awaits_module (in_modules s)]"
    "phases (after_init i s) = (phases s)[i := Awaits_helper]" "phases (finish_call i s) = (phases s)[i := Returned]"
    by (simp_all add: create_module_def Let_def after_init_def finish_call_def)
qed (simp add: phases_def add_call_def)

lemma phases_update [simp]:
  "phases (s\<lparr>in_instance := p\<rparr>) = phases s" "phases (s\<lparr>in_handlers := hs\<rparr>) = phases s"
  "phases (s\<lparr>in_initialized := ms\<rparr>) = phases s" "phases (s\<lparr>in_rejected := ms\<rparr>) = phases s" "phases (s\<lparr>in_log := n\<rparr>) = phases s"
  by (simp_all add: phases_def)

lemma fields [simp]:
  "in_instance (set_phase i ph s) = in_instance s" "in_instance (create_module i s) = in_instance s" "in_instance (add_call h ph s) = in_instance s"
  "in_instance (after_init i s) = in_instance s" "in_instance (finish_call i s) = in_instance s"
  "in_modules (set_phase i ph s) = in_modules s" "in_modules (create_module i s) = Suc (in_modules s)" "in_modules (add_call h ph s) = in_modules s"
  "in_modules (after_init i s) = in_modules s" "in_modules (finish_call i s) = in_modules s"
  "in_initialized (set_phase i ph s) = in_initialized s" "in_initialized (create_module i s) = in_initialized s"
  "in_initialized (add_call h ph s) = in_initialized s" "in_initialized (after_init i s) = in_initialized s" "in_initialized (finish_call i s) = in_initialized s"
  "in_initPromise (create_module i s) = Some (in_modules s)" "in_initPromise (add_call h ph s) = in_initPromise s"
  "in_initPromise (set_phase i ph s) = in_initPromise s"
  "in_rejected (set_phase i ph s) = in_rejected s" "in_rejected (create_module i s) = in_rejected s" "in_rejected (add_call h ph s) = in_rejected s"
  "in_rejected (after_init i s) = in_rejected s" "in_rejected (finish_call i s) = in_rejected s"
  by (simp_all add: set_phase_def create_module_def add_call_def after_init_def finish_call_def Let_def)

text \<open>How a call may go on.\<close>

lemma continue_cases:
  assumes "continue_call i s = Some t"
  obtains (other) q where "i < length (phases s)" "phases s ! i = Awaits_other q" "q \<in> set (in_initialized s)" "t = create_module i s"
  | (runs) q where "i < length (phases s)" "phases s ! i = Awaits_module q" "q \<in> set (in_initialized s)"
      "t = set_phase i (Awaits_init (in_initPromise s)) (s\<lparr>in_instance := Some q\<rparr>)"
  | (rejected) q where "i < length (phases s)" "phases s ! i = Awaits_module q" "q \<in> set (in_rejected s)" "t = set_phase i Threw s"
  | (init) p where "i < length (phases s)" "phases s ! i = Awaits_init p" "t = after_init i s"
  | (helper) "i < length (phases s)" "phases s ! i = Awaits_helper" "t = finish_call i s"
  using assms unfolding continue_call_def phases_def by (auto split: if_splits phase.splits option.splits)

lemma call_cases:
  obtains (early) "in_instance s \<noteq> None" "instantiate_call h s = add_call h Returned s"
  | (waits) q s' where "in_instance s = None" "in_initPromise s = Some q" "instantiate_call h s = add_call h (Awaits_other q) s'"
      "s' = s \<or> (\<exists>hs. s' = s\<lparr>in_handlers := hs\<rparr>)"
  | (creates) "in_instance s = None" "in_initPromise s = None"
      "instantiate_call h s = create_module (length (phases s)) (add_call h (Awaits_module (in_modules s)) s)"
proof (cases "in_instance s")
  case None
  show thesis
  proof (cases "in_initPromise s")
    case (Some q)
    let ?s = "case h of Some h \<Rightarrow> s\<lparr>in_handlers := in_handlers s @ [h]\<rparr> | None \<Rightarrow> s"
    have "?s = s \<or> (\<exists>hs. ?s = s\<lparr>in_handlers := hs\<rparr>)" by (cases h) auto
    then show thesis using waits [of q ?s] None Some by (simp add: instantiate_call_def)
  qed (use None creates in \<open>simp add: instantiate_call_def phases_def\<close>)
qed (use early in \<open>simp add: instantiate_call_def\<close>)

lemma load_cases:
  assumes "load_module q pth outcome s = Some t"
  obtains (runs) "outcome = Module_runs" "q < in_modules s" "t = s\<lparr>in_initialized := q # in_initialized s\<rparr>"
  | (fails) n where "outcome = Load_failed" "t = s\<lparr>in_log := n\<rparr>"
  | (unreadable) "t = s\<lparr>in_rejected := q # in_rejected s\<rparr>"
proof (cases outcome)
  case Load_failed
  show thesis
  proof (rule fails [of "in_log t"])
    show "t = s\<lparr>in_log := in_log t\<rparr>" using assms Load_failed unfolding load_module_def by (auto split: if_splits)
  qed (rule Load_failed)
qed (use assms runs unreadable in \<open>auto simp: load_module_def split: if_splits\<close>)

section \<open>One call after the other\<close>

text \<open>A call that has returned, or is about to, finds an instance whose runtime runs.\<close>

definition instance_ok :: "inst_state \<Rightarrow> bool" where
  "instance_ok s \<longleftrightarrow> (\<forall>q. in_instance s = Some q \<longrightarrow> q \<in> set (in_initialized s)) \<and> (\<forall>q \<in> set (in_initialized s). q < in_modules s)
     \<and> (\<forall>ph \<in> set (phases s). (ph = Returned \<or> ph = Awaits_helper \<or> (\<exists>p. ph = Awaits_init p)) \<longrightarrow> in_instance s \<noteq> None)"

lemma set_update_elim: "x \<in> set (xs[i := y]) \<Longrightarrow> x = y \<or> x \<in> set xs"
  using set_update_subset_insert by fastforce

lemma instance_ok_step:
  assumes ok: "instance_ok s" and step: "inst_step ev s = Some t"
  shows "instance_ok t"
proof (cases ev)
  case (I_call h)
  with step have t: "t = instantiate_call h s" by simp
  show ?thesis using ok unfolding t
    by (rule_tac s = s and h = h in call_cases) (auto simp: instance_ok_def nth_append less_Suc_eq dest!: set_update_elim)
next
  case (I_load q pth outcome)
  with step have "load_module q pth outcome s = Some t" by simp
  then show ?thesis using ok by (cases rule: load_cases) (auto simp: instance_ok_def)
next
  case (I_continue i)
  with step have "continue_call i s = Some t" by simp
  then show ?thesis
  proof (cases rule: continue_cases)
    case (init p)
    then have "Awaits_init p \<in> set (phases s)" by (metis nth_mem)
    with init ok show ?thesis by (auto simp: instance_ok_def dest!: set_update_elim)
  next
    case helper
    then have "Awaits_helper \<in> set (phases s)" by (metis nth_mem)
    with helper ok show ?thesis by (auto simp: instance_ok_def dest!: set_update_elim)
  qed (use ok in \<open>auto simp: instance_ok_def less_Suc_eq dest!: set_update_elim\<close>)
qed

text \<open>Whoever calls does so when all calls before it have returned.\<close>

fun one_at_a_time :: "inst_event list \<Rightarrow> inst_state \<Rightarrow> bool" where
  "one_at_a_time [] s = True"
| "one_at_a_time (ev # evs) s = ((case ev of I_call h \<Rightarrow> set (phases s) \<subseteq> {Returned} | _ \<Rightarrow> True)
     \<and> (case inst_step ev s of None \<Rightarrow> True | Some t \<Rightarrow> one_at_a_time evs t))"

definition one_module :: "inst_state \<Rightarrow> bool" where
  "one_module s \<longleftrightarrow> instance_ok s \<and> (\<forall>q. Awaits_other q \<notin> set (phases s)) \<and> in_modules s = (if phases s = [] then 0 else 1)
     \<and> (phases s = [] \<longrightarrow> in_initPromise s = None)"

lemma one_module_step:
  assumes one: "one_module s" and step: "inst_step ev s = Some t" and alone: "\<And>h. ev = I_call h \<Longrightarrow> set (phases s) \<subseteq> {Returned}"
  shows "one_module t"
proof -
  have ok: "instance_ok t" using instance_ok_step step one by (auto simp: one_module_def)
  show ?thesis
  proof (cases ev)
    case (I_call h)
    show ?thesis
    proof (cases "phases s = []")
      case True
      with one have "in_instance s = None" "in_initPromise s = None" by (auto simp: one_module_def instance_ok_def)
      moreover have "length (in_calls s) = 0" using True by (simp add: phases_def)
      ultimately show ?thesis using one step ok I_call True by (auto simp: one_module_def instantiate_call_def)
    next
      case False
      with alone [OF I_call] have "Returned \<in> set (phases s)" by (metis list.set_intros(1) neq_Nil_conv singletonD subsetD)
      with one have "in_instance s \<noteq> None" by (auto simp: one_module_def instance_ok_def)
      with one step ok I_call False show ?thesis by (auto simp: one_module_def instantiate_call_def)
    qed
  next
    case (I_load q pth outcome)
    with step have "load_module q pth outcome s = Some t" by simp
    then show ?thesis using one ok by (cases rule: load_cases) (auto simp: one_module_def)
  next
    case (I_continue i)
    with step have "continue_call i s = Some t" by simp
    then show ?thesis
    proof (cases rule: continue_cases)
      case (other q)
      then have "Awaits_other q \<in> set (phases s)" by (metis nth_mem)
      with one show ?thesis by (auto simp: one_module_def)
    qed (use one ok in \<open>auto simp: one_module_def dest!: set_update_elim\<close>)
  qed
qed

text \<open>When each call begins after those before it have returned, at most one module is ever made, and every call that returns gives the
  bindings with this module, its runtime running.\<close>

theorem sequential_calls_share_one_module:
  assumes "inst_run evs not_instantiated = Some s" "one_at_a_time evs not_instantiated"
  shows "in_modules s \<le> 1 \<and> (Returned \<in> set (phases s) \<longrightarrow> in_instance s = Some 0 \<and> 0 \<in> set (in_initialized s))"
proof -
  have "one_module t" if "inst_run evs s = Some t" "one_at_a_time evs s" "one_module s" for evs s t
    using that
  proof (induction evs arbitrary: s)
    case (Cons ev evs)
    then obtain u where u: "inst_step ev s = Some u" "inst_run evs u = Some t" by (auto split: option.splits)
    have "set (phases s) \<subseteq> {Returned}" if "ev = I_call h" for h using Cons.prems(2) that by simp
    then have "one_module u" using one_module_step [OF Cons.prems(3) u(1)] by blast
    with Cons u show ?case by simp
  qed simp
  moreover have "one_module not_instantiated" by (simp add: one_module_def instance_ok_def not_instantiated_def phases_def)
  ultimately have one: "one_module s" using assms by blast
  have "in_instance s = Some 0 \<and> 0 \<in> set (in_initialized s)" if "Returned \<in> set (phases s)"
  proof -
    obtain q where q: "in_instance s = Some q" using one \<open>Returned \<in> set (phases s)\<close> by (auto simp: one_module_def instance_ok_def)
    have in_q: "q \<in> set (in_initialized s)" using q one by (auto simp: one_module_def instance_ok_def)
    have "q < in_modules s" using in_q one unfolding one_module_def instance_ok_def by blast
    moreover have "in_modules s \<le> 1" using one by (simp add: one_module_def)
    ultimately have "q = 0" by linarith
    with q in_q show ?thesis by simp
  qed
  with one show ?thesis by (auto simp: one_module_def)
qed

theorem sequential_calls_share_one_module_witness:
  "\<exists>s. inst_run [I_call None, I_load 0 Streaming Module_runs, I_continue 0, I_continue 0, I_continue 0, I_call None] not_instantiated = Some s
     \<and> phases s = [Returned, Returned] \<and> in_modules s \<le> 1"
proof -
  let ?evs = "[I_call None, I_load 0 Streaming Module_runs, I_continue 0, I_continue 0, I_continue 0, I_call None]"
  obtain s where s: "inst_run ?evs not_instantiated = Some s" "phases s = [Returned, Returned]"
    by (simp add: not_instantiated_def inst_defs continue_call_def phases_def)
  have "one_at_a_time ?evs not_instantiated" by (simp add: not_instantiated_def inst_defs continue_call_def phases_def)
  with sequential_calls_share_one_module [OF s(1)] s show ?thesis by blast
qed

section \<open>Calls that overlap\<close>

text \<open>Of a run: how many calls began while there was no instance, and the modules that became the instance of the bindings, in this order.\<close>

fun overlapping :: "inst_event list \<Rightarrow> inst_state \<Rightarrow> nat" where
  "overlapping [] s = 0"
| "overlapping (ev # evs) s = (case inst_step ev s of None \<Rightarrow> 0
     | Some t \<Rightarrow> (case ev of I_call h \<Rightarrow> if in_instance s = None then 1 else 0 | _ \<Rightarrow> 0) + overlapping evs t)"

definition assigns :: "inst_event \<Rightarrow> inst_state \<Rightarrow> nat list" where
  "assigns ev s = (case ev of
     I_continue i \<Rightarrow> (case phases s ! i of Awaits_module q \<Rightarrow> if q \<in> set (in_initialized s) then [q] else [] | _ \<Rightarrow> [])
   | _ \<Rightarrow> [])"

fun assigned :: "inst_event list \<Rightarrow> inst_state \<Rightarrow> nat list" where
  "assigned [] s = []"
| "assigned (ev # evs) s = (case inst_step ev s of None \<Rightarrow> [] | Some t \<Rightarrow> assigns ev s @ assigned evs t)"

text \<open>The calls that have made a module or did not need one, and the modules that calls are waiting for.\<close>

definition made :: "phase \<Rightarrow> nat" where
  "made ph = (case ph of Awaits_other q \<Rightarrow> 0 | _ \<Rightarrow> 1)"

definition awaits :: "phase \<Rightarrow> nat multiset" where
  "awaits ph = (case ph of Awaits_module q \<Rightarrow> {#q#} | _ \<Rightarrow> {#})"

abbreviation total :: "(phase \<Rightarrow> 'b :: comm_monoid_add) \<Rightarrow> inst_state \<Rightarrow> 'b" where
  "total f s \<equiv> sum_list (map f (phases s))"

lemma total_update:
  fixes f :: "'a \<Rightarrow> 'b :: comm_monoid_add"
  shows "i < length xs \<Longrightarrow> sum_list (map f (xs[i := x])) + f (xs ! i) = sum_list (map f xs) + f x"
proof (induction xs arbitrary: i)
  case (Cons y ys)
  show ?case
  proof (cases i)
    case (Suc j)
    with Cons have "sum_list (map f (ys[j := x])) + f (ys ! j) = sum_list (map f ys) + f x" by simp
    then show ?thesis by (simp add: Suc add.assoc)
  qed (simp add: ac_simps)
qed simp

lemma total_set:
  assumes "i < length xs" "f (xs ! i) = f x + d"
  shows "sum_list (map f (xs[i := x])) + d = sum_list (map f xs :: 'b :: cancel_comm_monoid_add list)"
  using total_update [OF assms(1), of f x] unfolding assms(2) by (metis (no_types) add.assoc add.commute add_right_cancel)

lemma step_made:
  assumes "inst_step ev s = Some t"
  shows "in_modules t + total made s + (case ev of I_call h \<Rightarrow> if in_instance s = None then 0 else 1 | _ \<Rightarrow> 0) = in_modules s + total made t"
    "length (phases t) = length (phases s) + (case ev of I_call h \<Rightarrow> 1 | _ \<Rightarrow> 0)"
proof -
  have "in_modules t + total made s + (case ev of I_call h \<Rightarrow> if in_instance s = None then 0 else 1 | _ \<Rightarrow> 0) = in_modules s + total made t
    \<and> length (phases t) = length (phases s) + (case ev of I_call h \<Rightarrow> 1 | _ \<Rightarrow> 0)"
  proof (cases ev)
    case (I_call h)
    with assms have t: "t = instantiate_call h s" by simp
    show ?thesis unfolding t I_call by (rule_tac s = s and h = h in call_cases) (auto simp: made_def)
  next
    case (I_load q pth outcome)
    with assms have "load_module q pth outcome s = Some t" by simp
    then show ?thesis using I_load by (cases rule: load_cases) auto
  next
    case (I_continue i)
    with assms have "continue_call i s = Some t" by simp
    then show ?thesis
    proof (cases rule: continue_cases)
      case (other q)
      with I_continue total_update [of i "phases s" made "Awaits_module (in_modules s)"] show ?thesis by (simp add: made_def)
    next
      case (runs q)
      with I_continue total_update [of i "phases s" made "Awaits_init (in_initPromise s)"] show ?thesis by (simp add: made_def)
    next
      case (rejected q)
      with I_continue total_update [of i "phases s" made Threw] show ?thesis by (simp add: made_def)
    next
      case (init p)
      with I_continue total_update [of i "phases s" made Awaits_helper] show ?thesis by (simp add: made_def)
    next
      case helper
      with I_continue total_update [of i "phases s" made Returned] show ?thesis by (simp add: made_def)
    qed
  qed
  then show "in_modules t + total made s + (case ev of I_call h \<Rightarrow> if in_instance s = None then 0 else 1 | _ \<Rightarrow> 0) = in_modules s + total made t"
    "length (phases t) = length (phases s) + (case ev of I_call h \<Rightarrow> 1 | _ \<Rightarrow> 0)" by blast+
qed

lemma run_made:
  "inst_run evs s = Some t \<Longrightarrow>
    in_modules t + total made s + length (phases t) = in_modules s + total made t + length (phases s) + overlapping evs s"
proof (induction evs arbitrary: s)
  case (Cons ev evs)
  then obtain u where u: "inst_step ev s = Some u" "inst_run evs u = Some t" by (auto split: option.splits)
  with Cons.IH [OF u(2)] step_made [OF u(1)] show ?case by (cases ev) (auto split: if_splits)
qed simp

lemma threw_stays:
  assumes "inst_step ev s = Some t" "Threw \<notin> set (phases t)"
  shows "Threw \<notin> set (phases s)"
proof
  assume "Threw \<in> set (phases s)"
  then obtain k where k: "k < length (phases s)" "phases s ! k = Threw" by (auto simp: in_set_conv_nth)
  have "k < length (phases t) \<and> phases t ! k = Threw"
  proof (cases ev)
    case (I_call h)
    with assms(1) have t: "t = instantiate_call h s" by simp
    show ?thesis using k unfolding t by (rule_tac s = s and h = h in call_cases) (auto simp: nth_append nth_list_update)
  next
    case (I_load q pth outcome)
    with assms(1) have "load_module q pth outcome s = Some t" by simp
    then show ?thesis using k by (cases rule: load_cases) auto
  next
    case (I_continue i)
    with assms(1) have "continue_call i s = Some t" by simp
    then show ?thesis using k by (cases rule: continue_cases; cases "i = k") auto
  qed
  with assms(2) show False by (metis nth_mem)
qed

lemma step_assigns:
  assumes step: "inst_step ev s = Some t" and no: "Threw \<notin> set (phases t)"
  shows "mset (assigns ev s) + total awaits t + mset [0..<in_modules s] = total awaits s + mset [0..<in_modules t]"
    "in_instance t = (if assigns ev s = [] then in_instance s else Some (last (assigns ev s)))"
proof -
  have "mset (assigns ev s) + total awaits t + mset [0..<in_modules s] = total awaits s + mset [0..<in_modules t]
    \<and> in_instance t = (if assigns ev s = [] then in_instance s else Some (last (assigns ev s)))"
  proof (cases ev)
    case (I_call h)
    with step have t: "t = instantiate_call h s" by simp
    show ?thesis unfolding t I_call by (rule_tac s = s and h = h in call_cases) (auto simp: awaits_def assigns_def)
  next
    case (I_load q pth outcome)
    with step have "load_module q pth outcome s = Some t" by simp
    then show ?thesis using I_load by (cases rule: load_cases) (auto simp: assigns_def)
  next
    case (I_continue i)
    with step have "continue_call i s = Some t" by simp
    then show ?thesis
    proof (cases rule: continue_cases)
      case (other q)
      with I_continue total_update [of i "phases s" awaits "Awaits_module (in_modules s)"] show ?thesis by (simp add: awaits_def assigns_def)
    next
      case (runs q)
      with I_continue total_update [of i "phases s" awaits "Awaits_init (in_initPromise s)"] show ?thesis by (simp add: awaits_def assigns_def)
    next
      case (rejected q)
      then have "Threw \<in> set (phases t)" by (simp add: set_update_memI)
      with no show ?thesis by simp
    next
      case (init p)
      with I_continue total_update [of i "phases s" awaits Awaits_helper] show ?thesis by (simp add: awaits_def assigns_def)
    next
      case helper
      with I_continue total_update [of i "phases s" awaits Returned] show ?thesis by (simp add: awaits_def assigns_def)
    qed
  qed
  then show "mset (assigns ev s) + total awaits t + mset [0..<in_modules s] = total awaits s + mset [0..<in_modules t]"
    "in_instance t = (if assigns ev s = [] then in_instance s else Some (last (assigns ev s)))" by blast+
qed

lemma run_threw: "inst_run evs s = Some t \<Longrightarrow> Threw \<notin> set (phases t) \<Longrightarrow> Threw \<notin> set (phases s)"
proof (induction evs arbitrary: s)
  case (Cons ev evs)
  then obtain u where u: "inst_step ev s = Some u" "inst_run evs u = Some t" by (auto split: option.splits)
  with Cons.IH [OF u(2) Cons.prems(2)] threw_stays [OF u(1)] show ?case by blast
qed simp

lemma run_assigned:
  "inst_run evs s = Some t \<Longrightarrow> Threw \<notin> set (phases t) \<Longrightarrow>
    mset (assigned evs s) + total awaits t + mset [0..<in_modules s] = total awaits s + mset [0..<in_modules t]
    \<and> in_instance t = (if assigned evs s = [] then in_instance s else Some (last (assigned evs s)))"
proof (induction evs arbitrary: s)
  case (Cons ev evs)
  then obtain u where u: "inst_step ev s = Some u" "inst_run evs u = Some t" by (auto split: option.splits)
  note IH = Cons.IH [OF u(2) Cons.prems(2)]
  note st = step_assigns [OF u(1) run_threw [OF u(2) Cons.prems(2)]]
  have "mset (assigns ev s) + mset (assigned evs u) + total awaits t + mset [0..<in_modules s] + (total awaits u + mset [0..<in_modules u])
      = (mset (assigns ev s) + total awaits u + mset [0..<in_modules s]) + (mset (assigned evs u) + total awaits t + mset [0..<in_modules u])"
    by (simp only: ac_simps)
  also have "\<dots> = total awaits s + mset [0..<in_modules t] + (total awaits u + mset [0..<in_modules u])"
    using IH st(1) by (simp only: ac_simps)
  finally have "mset (assigns ev s) + mset (assigned evs u) + total awaits t + mset [0..<in_modules s] = total awaits s + mset [0..<in_modules t]"
    by (simp only: add_right_cancel)
  with u IH st(2) show ?case by auto
qed simp

text \<open>C32: Calls that begin before the first instance is there do not share one. When all calls have returned, there are as many modules as calls that
  began before it; each of these modules has been the instance of the bindings in its turn, each replacing the one before it, and the last of
  them is the instance now. The others are lost, with the databases in them. A call that begins later makes none.\<close>

theorem overlapping_calls_make_a_module_each:
  assumes run: "inst_run evs not_instantiated = Some s" and all: "set (phases s) \<subseteq> {Returned}"
  defines "instances \<equiv> assigned evs not_instantiated"
  shows "in_modules s = overlapping evs not_instantiated \<and> mset instances = mset [0..<in_modules s]
    \<and> in_instance s = (if instances = [] then None else Some (last instances))"
proof -
  have start: "phases not_instantiated = []" "in_modules not_instantiated = 0" "in_instance not_instantiated = None"
    by (simp_all add: not_instantiated_def phases_def)
  have "phases s = replicate (length (phases s)) Returned" using all by (metis singletonD subsetD replicate_eqI)
  then obtain n where n: "phases s = replicate n Returned" by blast
  have sums: "total made s = n" "total awaits s = {#}"
    unfolding n by (induction n) (simp_all add: made_def awaits_def)
  have "Threw \<notin> set (phases s)" using all by auto
  note a = run_assigned [OF run this]
  have "in_modules s + n = n + overlapping evs not_instantiated"
    using run_made [OF run] unfolding sums by (simp add: start n)
  then show ?thesis using a by (simp add: sums start instances_def)
qed

theorem overlapping_calls_make_a_module_each_witness:
  "\<exists>s. inst_run ([I_call None, I_call None] @ [I_load 0 Streaming Module_runs, I_continue 0, I_continue 0, I_continue 0]
        @ [I_continue 1, I_load 1 Streaming Module_runs, I_continue 1, I_continue 1, I_continue 1] @ [I_call None]) not_instantiated = Some s
     \<and> phases s = [Returned, Returned, Returned] \<and> in_modules s = 2 \<and> in_instance s = Some 1"
proof -
  let ?evs = "[I_call None, I_call None] @ [I_load 0 Streaming Module_runs, I_continue 0, I_continue 0, I_continue 0]
    @ [I_continue 1, I_load 1 Streaming Module_runs, I_continue 1, I_continue 1, I_continue 1] @ [I_call None]"
  obtain s where s: "inst_run ?evs not_instantiated = Some s" "phases s = [Returned, Returned, Returned]"
    by (simp add: not_instantiated_def inst_defs continue_call_def phases_def)
  have "overlapping ?evs not_instantiated = 2" "assigned ?evs not_instantiated = [0, 1]"
    by (simp_all add: not_instantiated_def inst_defs continue_call_def phases_def assigns_def)
  note o = this
  have "set (phases s) \<subseteq> {Returned}" by (simp add: s(2))
  from overlapping_calls_make_a_module_each [OF s(1) this] have "in_modules s = 2" "in_instance s = Some 1" unfolding o by simp_all
  with s show ?thesis by blast
qed

section \<open>When the module does not load\<close>

definition stranded :: "inst_state \<Rightarrow> bool" where
  "stranded s \<longleftrightarrow> in_initialized s = [] \<and> in_instance s = None \<and> in_modules s = (if phases s = [] then 0 else 1)
     \<and> in_initPromise s = (if phases s = [] then None else Some 0)
     \<and> (\<forall>ph \<in> set (phases s). (\<exists>q. ph = Awaits_other q) \<or> (\<exists>q. ph = Awaits_module q) \<or> ph = Threw)"

lemma stranded_step:
  assumes s: "stranded s" and step: "inst_step ev s = Some t" and no: "\<And>q pth. ev \<noteq> I_load q pth Module_runs"
  shows "stranded t"
proof (cases ev)
  case (I_call h)
  with step have t: "t = instantiate_call h s" by simp
  show ?thesis using s unfolding t
    by (rule_tac s = s and h = h in call_cases) (auto simp: stranded_def nth_append split: if_splits dest!: set_update_elim)
next
  case (I_load q pth outcome)
  with step have "load_module q pth outcome s = Some t" by simp
  then show ?thesis using s no [of q pth] I_load by (cases rule: load_cases) (auto simp: stranded_def)
next
  case (I_continue i)
  with step have "continue_call i s = Some t" by simp
  then show ?thesis
  proof (cases rule: continue_cases)
    case (init p)
    then have "Awaits_init p \<in> set (phases s)" by (metis nth_mem)
    with s show ?thesis by (auto simp: stranded_def)
  next
    case helper
    then have "Awaits_helper \<in> set (phases s)" by (metis nth_mem)
    with s show ?thesis by (auto simp: stranded_def)
  qed (use s in \<open>auto simp: stranded_def dest!: set_update_elim\<close>)
qed

text \<open>C33: As long as the first module does not load no call returns, and no other attempt is ever made: a call after the failure waits for the
  promise of the first, even where that call has thrown. A failure of the download or of the compilation reaches no caller
  at all.\<close>

theorem failed_load_strands_every_call:
  assumes "inst_run evs not_instantiated = Some s" "\<forall>q pth. I_load q pth Module_runs \<notin> set evs"
  shows "Returned \<notin> set (phases s) \<and> in_instance s = None \<and> in_modules s \<le> 1
    \<and> ((\<forall>q pth. I_load q pth Unreadable \<notin> set evs) \<longrightarrow> Threw \<notin> set (phases s))"
proof -
  have "stranded s"
  proof (rule inst_run_invariant [OF _ _ assms(1)])
    show "stranded not_instantiated" by (simp add: stranded_def not_instantiated_def phases_def)
    show "stranded v" if "ev \<in> set evs" "stranded u" "inst_step ev u = Some v" for ev u v
      using stranded_step [OF that(2,3)] that(1) assms(2) by blast
  qed
  moreover have "Threw \<notin> set (phases s)" if no: "\<forall>q pth. I_load q pth Unreadable \<notin> set evs"
  proof -
    have "in_rejected s = [] \<and> Threw \<notin> set (phases s)"
    proof (rule inst_run_invariant [OF _ _ assms(1)])
      show "in_rejected not_instantiated = [] \<and> Threw \<notin> set (phases not_instantiated)" by (simp add: not_instantiated_def phases_def)
      fix ev u v
      assume ev: "ev \<in> set evs" and u: "in_rejected u = [] \<and> Threw \<notin> set (phases u)" and step: "inst_step ev u = Some v"
      show "in_rejected v = [] \<and> Threw \<notin> set (phases v)"
      proof (cases ev)
        case (I_call h)
        with step have v: "v = instantiate_call h u" by simp
        show ?thesis using u unfolding v by (rule_tac s = u and h = h in call_cases) (auto dest!: set_update_elim)
      next
        case (I_load q pth outcome)
        with step ev no u show ?thesis by (auto simp: load_module_def split: if_splits load_outcome.splits)
      next
        case (I_continue i)
        with step have "continue_call i u = Some v" by simp
        then show ?thesis using u by (cases rule: continue_cases) (auto dest!: set_update_elim)
      qed
    qed
    then show ?thesis by simp
  qed
  ultimately show ?thesis by (auto simp: stranded_def)
qed

theorem failed_load_strands_every_call_witness:
  "\<exists>s. inst_run [I_call None, I_load 0 Node_file Unreadable, I_continue 0, I_call None] not_instantiated = Some s
     \<and> phases s = [Threw, Awaits_other 0] \<and> in_modules s \<le> 1"
proof -
  obtain s where s: "inst_run [I_call None, I_load 0 Node_file Unreadable, I_continue 0, I_call None] not_instantiated = Some s"
    "phases s = [Threw, Awaits_other 0]" by (simp add: not_instantiated_def inst_defs continue_call_def phases_def)
  from failed_load_strands_every_call [OF s(1)] s show ?thesis by simp
qed

end
