(* ===== verification/Hb_Stubs.thy ===== *)
theory Hb_Stubs
  imports Hb_SabClaims Hb_SabFifo Hb_OAuth
begin

text \<open>
  \<open>lib/js-stubs.js\<close>: the functions of JavaScript that the engine is linked with, apart from the login (\<open>Hb_OAuth\<close>) and those
  that only hand a call to the runtime. The client's side of a channel works on the linear memory itself, here a list of bytes with 32-bit
  lanes; the theorems relate it to the records of \<open>Hb_SabRing\<close>, the model of \<open>lib/vgi-sab-ring.js\<close>, by \<open>channel_at\<close>, which
  reads a channel off the memory. A pointer of the engine arrives as a signed 32-bit integer, as it does in the source, so the theorems
  about the channel are for places below 2 GiB; the lemmas after them say what the stubs do with a place above. Each stub runs here without
  interruption; the interleavings are those of \<open>Hb_SabClaims\<close> and \<open>Hb_SabFifo\<close>.
\<close>

section \<open>Lanes of the memory\<close>

definition mem_lane :: "byte list \<Rightarrow> nat \<Rightarrow> lane" where
  "mem_lane m a = of_nat (le_value (subarray a (a + 4) m))"

definition store_lane :: "nat \<Rightarrow> lane \<Rightarrow> byte list \<Rightarrow> byte list" where
  "store_lane a w m = put a (le_bytes 4 (unat w)) m"

text \<open>Numbers of the stubs: \<^term>\<open>None\<close> is \<open>undefined\<close> or NaN, which is what an element outside a typed array gives and what
  arithmetic makes of it. The shift takes the low 32 bits, with their sign.\<close>

type_synonym jsnum = "int option"

definition num2 :: "(int \<Rightarrow> int \<Rightarrow> int) \<Rightarrow> jsnum \<Rightarrow> jsnum \<Rightarrow> jsnum" where
  "num2 f a b = (case a of None \<Rightarrow> None | Some x \<Rightarrow> map_option (f x) b)"

definition js_mod :: "jsnum \<Rightarrow> jsnum \<Rightarrow> jsnum" where
  "js_mod a b = (if b = Some 0 then None else num2 (\<lambda>x y. js_rem x (abs y)) a b)"

definition less_num :: "jsnum \<Rightarrow> jsnum \<Rightarrow> bool" where
  "less_num a b = (case a of None \<Rightarrow> False | Some x \<Rightarrow> (case b of None \<Rightarrow> False | Some y \<Rightarrow> x < y))"

definition shr2 :: "jsnum \<Rightarrow> int" where
  "shr2 a = (case a of None \<Rightarrow> 0 | Some i \<Rightarrow> load (store i) div 4)"

definition store_num :: "jsnum \<Rightarrow> lane" where
  "store_num a = (case a of None \<Rightarrow> 0 | Some i \<Rightarrow> store i)"

text \<open>The lanes as a typed array has them: a plain element, and \<open>Atomics.load\<close> and \<open>Atomics.store\<close>, which throw outside of it.\<close>

definition lane_inside :: "byte list \<Rightarrow> int \<Rightarrow> bool" where
  "lane_inside m i \<longleftrightarrow> 0 \<le> i \<and> 4 * nat i + 4 \<le> length m"

definition lane_elem :: "byte list \<Rightarrow> int \<Rightarrow> jsnum" where
  "lane_elem m i = (if lane_inside m i then Some (load (mem_lane m (4 * nat i))) else None)"

definition bad_index :: js_error where
  "bad_index = RangeError ''Invalid atomic access index''"

definition atomics_load :: "int \<Rightarrow> (byte list, lane) jsm" where
  "atomics_load i m = (if lane_inside m i then (Inr (mem_lane m (4 * nat i)), m) else (Inl bad_index, m))"

definition atomics_store :: "int \<Rightarrow> lane \<Rightarrow> (byte list, unit) jsm" where
  "atomics_store i w m = (if lane_inside m i then (Inr (), store_lane (4 * nat i) w m) else (Inl bad_index, m))"

fun atomics_stores :: "(int \<times> lane) list \<Rightarrow> (byte list, unit) jsm" where
  "atomics_stores [] = js_ret ()"
| "atomics_stores ((i, w) # rest) = js_bind (atomics_store i w) (\<lambda>_. atomics_stores rest)"

text \<open>A place below 2 GiB is not changed by its shift.\<close>

lemma shr2_below: "a < 2 ^ 31 \<Longrightarrow> shr2 (Some (int a)) = int (a div 4)"
  by (simp add: shr2_def load_store)

lemma atomics_at:
  assumes "0 \<le> l" "4 * (k + nat l) + 4 \<le> length m"
  shows "atomics_load (int k + l) m = (Inr (mem_lane m (4 * (k + nat l))), m)"
    "atomics_store (int k + l) w m = (Inr (), store_lane (4 * (k + nat l)) w m)"
    "lane_elem m (int k + l) = Some (load (mem_lane m (4 * (k + nat l))))"
  using assms by (simp_all add: atomics_load_def atomics_store_def lane_elem_def lane_inside_def nat_add_distrib)

lemma len_le_bytes [simp]: "length (le_bytes n v) = n"
  by (simp add: le_bytes_def)

lemma length_store_lane [simp]: "a + 4 \<le> length m \<Longrightarrow> length (store_lane a w m) = length m"
  by (simp add: store_lane_def length_put)

lemma lane_stored [simp]: "a + 4 \<le> length m \<Longrightarrow> mem_lane (store_lane a w m) a = w"
proof -
  assume a: "a + 4 \<le> length m"
  have "unat w < 2 ^ len_of TYPE(32)" by (rule unsigned_less)
  then have "unat w < 256 ^ 4" by simp
  then show ?thesis using a subarray_put [of a "le_bytes 4 (unat w)" m] by (simp add: mem_lane_def store_lane_def le_value_bytes)
qed

lemma subarray_store_lane:
  assumes "c \<le> a \<or> a + 4 \<le> b" "a + 4 \<le> length m"
  shows "subarray b c (store_lane a w m) = subarray b c m"
proof (cases "b \<le> c")
  case True
  then show ?thesis using assms subarray_put_other [of b "c - b" a "le_bytes 4 (unat w)" m] by (simp add: store_lane_def)
qed (simp add: subarray_def)

lemma lane_other [simp]: "b + 4 \<le> a \<or> a + 4 \<le> b \<Longrightarrow> a + 4 \<le> length m \<Longrightarrow> mem_lane (store_lane a w m) b = mem_lane m b"
  by (simp add: mem_lane_def subarray_store_lane)

section \<open>The client's side of a channel\<close>

record vgi_header =
  hw_nSlots :: jsnum
  hw_ringCap :: jsnum
  hw_slotStride :: jsnum
  hw_slotsOff :: jsnum

definition vgi_hdr :: "byte list \<Rightarrow> int \<Rightarrow> vgi_header" where
  "vgi_hdr m base = (let h = shr2 (Some base)
     in \<lparr>hw_nSlots = lane_elem m (h + 2), hw_ringCap = lane_elem m (h + 3), hw_slotStride = lane_elem m (h + 4), hw_slotsOff = lane_elem m (h + 5)\<rparr>)"

definition vgi_slotByte :: "int \<Rightarrow> vgi_header \<Rightarrow> int \<Rightarrow> jsnum" where
  "vgi_slotByte base hdr slot = num2 (+) (num2 (+) (Some base) (hw_slotsOff hdr)) (num2 (\<lambda>x y. x * y) (Some slot) (hw_slotStride hdr))"

text \<open>The reset of a slot, lane after lane, and the publication of the claim.\<close>

definition vgi_publish :: "int \<Rightarrow> lane \<Rightarrow> (byte list, unit) jsm" where
  "vgi_publish sb claim = atomics_stores
     [(sb + 1, 0), (sb + 2, 0), (sb + 3, 0), (sb + 4, 0), (sb + 5, 0), (sb + 6, 0), (sb + 7, 0), (sb + 8, 0), (sb + 9, 0), (sb + 0, claim), (sb + 10, 0)]"

fun vgi_open_scan :: "int \<Rightarrow> vgi_header \<Rightarrow> lane \<Rightarrow> nat list \<Rightarrow> (byte list, int) jsm" where
  "vgi_open_scan base hdr claim [] = js_ret (-1)"
| "vgi_open_scan base hdr claim (s # ss) =
     (let sb = shr2 (vgi_slotByte base hdr (int s))
      in js_bind (atomics_load (sb + 10)) (\<lambda>reservation.
         if reservation = 0
         then js_bind (atomics_store (sb + 10) claim) (\<lambda>_.
              js_bind (atomics_load (sb + 0)) (\<lambda>state.
              if state \<noteq> 0 then js_bind (atomics_store (sb + 10) 0) (\<lambda>_. vgi_open_scan base hdr claim ss)
              else js_bind (vgi_publish sb claim) (\<lambda>_. js_ret (int s))))
         else vgi_open_scan base hdr claim ss))"

text \<open>A number of slots that is undefined or negative ends the loop at once.\<close>

definition slot_numbers :: "vgi_header \<Rightarrow> nat list" where
  "slot_numbers hdr = (case hw_nSlots hdr of None \<Rightarrow> [] | Some n \<Rightarrow> [0..<nat n])"

definition vgi_wasm_slot_open :: "int \<Rightarrow> (byte list, int) jsm" where
  "vgi_wasm_slot_open regionOffset m =
     (let hdr = vgi_hdr m regionOffset; claimSeqLane = shr2 (Some regionOffset) + 8
      in js_bind (atomics_load claimSeqLane) (\<lambda>seq.
         js_bind (atomics_store claimSeqLane (seq + 1)) (\<lambda>_.
         let claim = (if seq + 1 = 0 then 1 else seq + 1) in vgi_open_scan regionOffset hdr claim (slot_numbers hdr)))) m"

definition vgi_wasm_slot_write_eos :: "int \<Rightarrow> int \<Rightarrow> (byte list, unit) jsm" where
  "vgi_wasm_slot_write_eos regionOffset slot m =
     (let hdr = vgi_hdr m regionOffset; sb = shr2 (vgi_slotByte regionOffset hdr slot) in atomics_store (sb + 3) 1) m"

definition vgi_wasm_slot_release :: "int \<Rightarrow> int \<Rightarrow> (byte list, unit) jsm" where
  "vgi_wasm_slot_release regionOffset slot m =
     (let hdr = vgi_hdr m regionOffset; sb = shr2 (vgi_slotByte regionOffset hdr slot) in atomics_store (sb + 0) 0) m"

definition vgi_wasm_slot_terminal_error :: "int \<Rightarrow> int \<Rightarrow> int \<Rightarrow> int \<Rightarrow> (byte list, int) jsm" where
  "vgi_wasm_slot_terminal_error regionOffset slot codePtr detailPtr m =
     (let hdr = vgi_hdr m regionOffset; sb = shr2 (vgi_slotByte regionOffset hdr slot)
      in js_bind (atomics_load (shr2 (Some regionOffset) + 6)) (\<lambda>features.
         if features AND FEATURE_TERMINAL_ERROR = 0 then js_ret 0
         else js_bind (atomics_load (sb + 0)) (\<lambda>claim.
           if claim = 0 then js_ret 0
           else js_bind (atomics_load (sb + 7)) (\<lambda>token.
             if token \<noteq> claim then js_ret 0
             else js_bind (atomics_load (sb + 8)) (\<lambda>code.
               js_bind (atomics_load (sb + 9)) (\<lambda>detail.
               js_bind (atomics_load (sb + 0)) (\<lambda>claim2.
               if claim2 \<noteq> claim then js_ret 0
               else js_bind (atomics_load (sb + 7)) (\<lambda>token2.
                 if token2 \<noteq> claim then js_ret 0
                 else js_bind (if codePtr \<noteq> 0 then atomics_store (shr2 (Some codePtr)) code else js_ret ()) (\<lambda>_.
                   js_bind (if detailPtr \<noteq> 0 then atomics_store (shr2 (Some detailPtr)) detail else js_ret ()) (\<lambda>_.
                   js_ret 1)))))))))) m"

section \<open>The channel in the memory\<close>

definition slot_at :: "byte list \<Rightarrow> nat \<Rightarrow> nat \<Rightarrow> slot" where
  "slot_at m sb cap = \<lparr>sl_state = mem_lane m sb, sl_reservation = mem_lane m (sb + 40),
     sl_c2w = \<lparr>rg_write = mem_lane m (sb + 4), rg_read = mem_lane m (sb + 8), rg_closed = mem_lane m (sb + 12), rg_data = subarray (sb + 64) (sb + 64 + cap) m\<rparr>,
     sl_w2c = \<lparr>rg_write = mem_lane m (sb + 16), rg_read = mem_lane m (sb + 20), rg_closed = mem_lane m (sb + 24),
       rg_data = subarray (sb + 64 + cap) (sb + 64 + cap + cap) m\<rparr>,
     sl_term_claim = mem_lane m (sb + 28), sl_term_code = mem_lane m (sb + 32), sl_term_detail = mem_lane m (sb + 36)\<rparr>"

definition channel_at :: "byte list \<Rightarrow> nat \<Rightarrow> nat \<Rightarrow> nat \<Rightarrow> channel" where
  "channel_at m base nSlots ringCap = \<lparr>ch_features = mem_lane m (base + 24), ch_claimSeq = mem_lane m (base + 32),
     ch_slots = map (\<lambda>s. slot_at m (slotBase base (initHeader nSlots ringCap) s) ringCap) [0..<nSlots]\<rparr>"

text \<open>A channel that \<open>initChannel\<close> has laid out in the memory, below 2 GiB.\<close>

definition header_numbers :: "channel_header \<Rightarrow> vgi_header" where
  "header_numbers hdr = \<lparr>hw_nSlots = Some (int (hd_nSlots hdr)), hw_ringCap = Some (int (hd_ringCap hdr)),
     hw_slotStride = Some (int (hd_slotStride hdr)), hw_slotsOff = Some (int (hd_slotsOff hdr))\<rparr>"

definition channel_in :: "byte list \<Rightarrow> nat \<Rightarrow> nat \<Rightarrow> nat \<Rightarrow> bool" where
  "channel_in m base nSlots ringCap \<longleftrightarrow> 64 dvd base \<and> 2 * ringCap + 64 < 2 ^ 31 \<and> base + channelBytes nSlots ringCap \<le> length m
     \<and> base + channelBytes nSlots ringCap < 2 ^ 31 \<and> vgi_hdr m (int base) = header_numbers (initHeader nSlots ringCap)"

lemma base_lanes: "64 dvd base \<Longrightarrow> 4 * (base div 4 + l) = base + 4 * (l :: nat)"
proof -
  assume "64 dvd base"
  then have "4 dvd base" by (rule dvd_trans [rotated]) simp
  then show ?thesis by (simp add: distrib_left)
qed

lemma hdr_lanes:
  assumes "64 dvd base" "base + 64 \<le> length m" "base < 2 ^ 31"
  shows "vgi_hdr m (int base) = \<lparr>hw_nSlots = Some (load (mem_lane m (base + 8))), hw_ringCap = Some (load (mem_lane m (base + 12))),
     hw_slotStride = Some (load (mem_lane m (base + 16))), hw_slotsOff = Some (load (mem_lane m (base + 20)))\<rparr>"
  using assms(2) base_lanes [OF assms(1)] shr2_below [OF assms(3)] by (simp add: vgi_hdr_def Let_def atomics_at(3) add.commute [of _ base])

text \<open>The lanes of the header itself.\<close>

lemma base_access:
  assumes "64 dvd base" "base + 64 \<le> length m" "base < 2 ^ 31" "0 \<le> l" "l < 16"
  shows "atomics_load (shr2 (Some (int base)) + l) m = (Inr (mem_lane m (base + 4 * nat l)), m)"
    "atomics_store (shr2 (Some (int base)) + l) w m = (Inr (), store_lane (base + 4 * nat l) w m)"
proof -
  have "4 * (base div 4 + nat l) + 4 \<le> length m" using base_lanes [OF assms(1), of "nat l"] assms(2,4,5) by linarith
  then show "atomics_load (shr2 (Some (int base)) + l) m = (Inr (mem_lane m (base + 4 * nat l)), m)"
    "atomics_store (shr2 (Some (int base)) + l) w m = (Inr (), store_lane (base + 4 * nat l) w m)"
    using assms(4) base_lanes [OF assms(1), of "nat l"] by (simp_all add: shr2_below [OF assms(3)] atomics_at)
qed

lemma slot_at_stores:
  assumes "sb + 64 + cap + cap \<le> length m"
  shows "slot_at (store_lane sb w m) sb cap = (slot_at m sb cap)\<lparr>sl_state := w\<rparr>"
    "slot_at (store_lane (sb + 40) w m) sb cap = (slot_at m sb cap)\<lparr>sl_reservation := w\<rparr>"
    "slot_at (store_lane (sb + 4) w m) sb cap = (slot_at m sb cap)\<lparr>sl_c2w := (sl_c2w (slot_at m sb cap))\<lparr>rg_write := w\<rparr>\<rparr>"
    "slot_at (store_lane (sb + 8) w m) sb cap = (slot_at m sb cap)\<lparr>sl_c2w := (sl_c2w (slot_at m sb cap))\<lparr>rg_read := w\<rparr>\<rparr>"
    "slot_at (store_lane (sb + 12) w m) sb cap = (slot_at m sb cap)\<lparr>sl_c2w := (sl_c2w (slot_at m sb cap))\<lparr>rg_closed := w\<rparr>\<rparr>"
    "slot_at (store_lane (sb + 16) w m) sb cap = (slot_at m sb cap)\<lparr>sl_w2c := (sl_w2c (slot_at m sb cap))\<lparr>rg_write := w\<rparr>\<rparr>"
    "slot_at (store_lane (sb + 20) w m) sb cap = (slot_at m sb cap)\<lparr>sl_w2c := (sl_w2c (slot_at m sb cap))\<lparr>rg_read := w\<rparr>\<rparr>"
    "slot_at (store_lane (sb + 24) w m) sb cap = (slot_at m sb cap)\<lparr>sl_w2c := (sl_w2c (slot_at m sb cap))\<lparr>rg_closed := w\<rparr>\<rparr>"
    "slot_at (store_lane (sb + 28) w m) sb cap = (slot_at m sb cap)\<lparr>sl_term_claim := w\<rparr>"
    "slot_at (store_lane (sb + 32) w m) sb cap = (slot_at m sb cap)\<lparr>sl_term_code := w\<rparr>"
    "slot_at (store_lane (sb + 36) w m) sb cap = (slot_at m sb cap)\<lparr>sl_term_detail := w\<rparr>"
  using assms by (simp_all add: slot_at_def subarray_store_lane)

lemma slot_at_other:
  assumes "a + 4 \<le> sb \<or> sb + 64 + cap + cap \<le> a" "a + 4 \<le> length m"
  shows "slot_at (store_lane a w m) sb cap = slot_at m sb cap"
  using assms by (elim disjE) (simp_all add: slot_at_def subarray_store_lane)

section \<open>The stubs against the reference\<close>

definition slot_byte :: "nat \<Rightarrow> nat \<Rightarrow> nat \<Rightarrow> nat" where
  "slot_byte base ringCap s = base + 64 + s * slotStride ringCap"

text \<open>From \<open>m\<close> to \<open>m'\<close> only bytes of the channel have changed.\<close>

definition outside_same :: "nat \<Rightarrow> nat \<Rightarrow> nat \<Rightarrow> byte list \<Rightarrow> byte list \<Rightarrow> bool" where
  "outside_same base nSlots ringCap m m' \<longleftrightarrow> length m' = length m
     \<and> (\<forall>b c. c \<le> base \<or> base + channelBytes nSlots ringCap \<le> b \<longrightarrow> subarray b c m' = subarray b c m)"

lemma outside_same_refl [simp]: "outside_same base n cap m m"
  by (simp add: outside_same_def)

lemma outside_same_trans: "outside_same base n cap m m' \<Longrightarrow> outside_same base n cap m' m'' \<Longrightarrow> outside_same base n cap m m''"
  by (simp add: outside_same_def)

lemma slot_places:
  assumes c: "channel_in m base n cap" and s: "s < n"
  shows "vgi_slotByte (int base) (vgi_hdr m (int base)) (int s) = Some (int (slot_byte base cap s))"
    "4 * (slot_byte base cap s div 4 + l) = slot_byte base cap s + 4 * l"
    "base + 64 \<le> slot_byte base cap s" "slot_byte base cap s + 64 + cap + cap \<le> base + channelBytes n cap" "base + channelBytes n cap \<le> length m"
    "t < n \<Longrightarrow> t \<noteq> s \<Longrightarrow> slot_byte base cap s + 64 \<le> slot_byte base cap t \<or> slot_byte base cap t + 64 + cap + cap \<le> slot_byte base cap s"
    "shr2 (Some (int (slot_byte base cap s))) = int (slot_byte base cap s div 4)"
proof -
  from c have b: "64 dvd base" "2 * cap + 64 < 2 ^ 31" "base + channelBytes n cap \<le> length m"
    "vgi_hdr m (int base) = header_numbers (initHeader n cap)" "base + channelBytes n cap < 2 ^ 31"
    by (simp_all add: channel_in_def)
  note st = slotStride_bounds [OF b(2)]
  show "vgi_slotByte (int base) (vgi_hdr m (int base)) (int s) = Some (int (slot_byte base cap s))"
    unfolding b(4) by (simp add: vgi_slotByte_def slot_byte_def initHeader_def header_numbers_def num2_def HEADER_BYTES_def)
  have "64 dvd slot_byte base cap s" using b(1) st(2) by (simp add: slot_byte_def)
  then have "4 dvd slot_byte base cap s" by (rule dvd_trans [rotated]) simp
  then show "4 * (slot_byte base cap s div 4 + l) = slot_byte base cap s + 4 * l" by (simp add: distrib_left)
  show "base + 64 \<le> slot_byte base cap s" "base + channelBytes n cap \<le> length m" using b by (simp_all add: slot_byte_def)
  have "Suc s * slotStride cap \<le> n * slotStride cap" using s by (intro mult_le_mono1) simp
  then show inside: "slot_byte base cap s + 64 + cap + cap \<le> base + channelBytes n cap"
    using st(1) by (simp add: slot_byte_def channelBytes_def HEADER_BYTES_def SLOT_CONTROL_BYTES_def)
  with b(5) show "shr2 (Some (int (slot_byte base cap s))) = int (slot_byte base cap s div 4)" by (intro shr2_below) linarith
  assume t: "t < n" "t \<noteq> s"
  then consider "s < t" | "t < s" by linarith
  then show "slot_byte base cap s + 64 \<le> slot_byte base cap t \<or> slot_byte base cap t + 64 + cap + cap \<le> slot_byte base cap s"
  proof cases
    case 1
    then have "Suc s * slotStride cap \<le> t * slotStride cap" by (intro mult_le_mono1) simp
    then show ?thesis using st(1) by (simp add: slot_byte_def SLOT_CONTROL_BYTES_def)
  next
    case 2
    then have "Suc t * slotStride cap \<le> s * slotStride cap" by (intro mult_le_mono1) simp
    then show ?thesis using st(1) by (simp add: slot_byte_def SLOT_CONTROL_BYTES_def)
  qed
qed

text \<open>The lanes of a slot.\<close>

lemma slot_access:
  assumes c: "channel_in m base n cap" and s: "s < n" and l: "0 \<le> l" "l < 11"
  shows "atomics_load (int (slot_byte base cap s div 4) + l) m = (Inr (mem_lane m (slot_byte base cap s + 4 * nat l)), m)"
    "atomics_store (int (slot_byte base cap s div 4) + l) w m = (Inr (), store_lane (slot_byte base cap s + 4 * nat l) w m)"
proof -
  note p = slot_places [OF c s]
  have "4 * (slot_byte base cap s div 4 + nat l) + 4 \<le> length m" using p(2) [of "nat l"] p(4,5) l by linarith
  then show "atomics_load (int (slot_byte base cap s div 4) + l) m = (Inr (mem_lane m (slot_byte base cap s + 4 * nat l)), m)"
    "atomics_store (int (slot_byte base cap s div 4) + l) w m = (Inr (), store_lane (slot_byte base cap s + 4 * nat l) w m)"
    using l(1) p(2) [of "nat l"] by (simp_all add: atomics_at)
qed

lemma channel_at_slots: "ch_slots (channel_at m base n cap) = map (\<lambda>s. slot_at m (slot_byte base cap s) cap) [0..<n]"
  by (simp add: channel_at_def slotBase_init slot_byte_def)

definition set_lane :: "nat \<Rightarrow> lane \<Rightarrow> slot \<Rightarrow> slot" where
  "set_lane l w x =
     (if l = 0 then x\<lparr>sl_state := w\<rparr> else if l = 1 then x\<lparr>sl_c2w := (sl_c2w x)\<lparr>rg_write := w\<rparr>\<rparr>
      else if l = 2 then x\<lparr>sl_c2w := (sl_c2w x)\<lparr>rg_read := w\<rparr>\<rparr> else if l = 3 then x\<lparr>sl_c2w := (sl_c2w x)\<lparr>rg_closed := w\<rparr>\<rparr>
      else if l = 4 then x\<lparr>sl_w2c := (sl_w2c x)\<lparr>rg_write := w\<rparr>\<rparr> else if l = 5 then x\<lparr>sl_w2c := (sl_w2c x)\<lparr>rg_read := w\<rparr>\<rparr>
      else if l = 6 then x\<lparr>sl_w2c := (sl_w2c x)\<lparr>rg_closed := w\<rparr>\<rparr> else if l = 7 then x\<lparr>sl_term_claim := w\<rparr>
      else if l = 8 then x\<lparr>sl_term_code := w\<rparr> else if l = 9 then x\<lparr>sl_term_detail := w\<rparr> else x\<lparr>sl_reservation := w\<rparr>)"

lemma slot_at_set_lane:
  assumes "sb + 64 + cap + cap \<le> length m" "l < 11"
  shows "slot_at (store_lane (sb + 4 * l) w m) sb cap = set_lane l w (slot_at m sb cap)"
proof -
  have "l = 0 \<or> l = 1 \<or> l = 2 \<or> l = 3 \<or> l = 4 \<or> l = 5 \<or> l = 6 \<or> l = 7 \<or> l = 8 \<or> l = 9 \<or> l = 10" using assms(2) by arith
  then show ?thesis by (elim disjE) (simp_all add: set_lane_def slot_at_stores [OF assms(1)])
qed

text \<open>A store to a lane of a slot is that store to the slot of the channel, and to nothing else.\<close>

lemma store_in_slot:
  fixes w :: lane
  assumes c: "channel_in m base n cap" and s: "s < n" and l: "l < 11"
  defines "m' \<equiv> store_lane (slot_byte base cap s + 4 * l) w m"
  shows "channel_in m' base n cap"
    "channel_at m' base n cap = (channel_at m base n cap)\<lparr>ch_slots := (ch_slots (channel_at m base n cap))[s := set_lane l w (ch_slots (channel_at m base n cap) ! s)]\<rparr>"
    "outside_same base n cap m m'"
proof -
  note p = slot_places [OF c s]
  let ?a = "slot_byte base cap s + 4 * l"
  note m' = m'_def
  have a: "base + 64 \<le> ?a" "?a + 4 \<le> slot_byte base cap s + 64" "?a + 4 \<le> length m" using p(3-5) l by simp_all
  have b: "64 dvd base" "base < 2 ^ 31" "base + 64 \<le> length m" using c p(3-5) by (simp_all add: channel_in_def)
  have low: "mem_lane m' (base + k) = mem_lane m (base + k)" if "k \<le> 60" for k
    unfolding m' using a that by (intro lane_other) simp_all
  have len: "length m' = length m" using a by (simp add: m')
  have h: "vgi_hdr m' (int base) = vgi_hdr m (int base)" using b len low by (simp add: hdr_lanes)
  show "channel_in m' base n cap" using c h len by (simp add: channel_in_def)
  have "slot_at m' (slot_byte base cap t) cap = slot_at m (slot_byte base cap t) cap" if "t < n" "t \<noteq> s" for t
    unfolding m' using p(6) [OF that] a l by (intro slot_at_other) auto
  moreover have "slot_at m' (slot_byte base cap s) cap = set_lane l w (slot_at m (slot_byte base cap s) cap)"
    unfolding m' using p(4,5) l by (intro slot_at_set_lane) simp_all
  ultimately have slots: "ch_slots (channel_at m' base n cap) = (ch_slots (channel_at m base n cap))[s := set_lane l w (ch_slots (channel_at m base n cap) ! s)]"
    using s by (intro nth_equalityI) (auto simp: channel_at_slots nth_list_update)
  have head: "ch_features (channel_at m' base n cap) = ch_features (channel_at m base n cap)" "ch_claimSeq (channel_at m' base n cap) = ch_claimSeq (channel_at m base n cap)"
    using low [of 24] low [of 32] by (simp_all add: channel_at_def)
  show "channel_at m' base n cap = (channel_at m base n cap)\<lparr>ch_slots := (ch_slots (channel_at m base n cap))[s := set_lane l w (ch_slots (channel_at m base n cap) ! s)]\<rparr>"
    using slots head by (intro channel.equality) simp_all
  show "outside_same base n cap m m'" unfolding outside_same_def m' using a p(4) by (auto intro!: subarray_store_lane)
qed

text \<open>One slot is worked on: the channel is the one at the start with \<open>x\<close> for this slot.\<close>

definition working :: "nat \<Rightarrow> nat \<Rightarrow> nat \<Rightarrow> byte list \<Rightarrow> nat \<Rightarrow> slot \<Rightarrow> byte list \<Rightarrow> bool" where
  "working base n cap m0 s x m \<longleftrightarrow> channel_in m base n cap \<and> outside_same base n cap m0 m
     \<and> channel_at m base n cap = (channel_at m0 base n cap)\<lparr>ch_slots := (ch_slots (channel_at m0 base n cap))[s := x]\<rparr>"

lemma working_start: "channel_in m base n cap \<Longrightarrow> s < n \<Longrightarrow> working base n cap m s (ch_slots (channel_at m base n cap) ! s) m"
  by (simp add: working_def)

lemma working_store:
  assumes "working base n cap m0 s x m" "s < n" "l < 11"
  shows "working base n cap m0 s (set_lane l w x) (store_lane (slot_byte base cap s + 4 * l) w m)"
proof -
  have c: "channel_in m base n cap" using assms(1) by (simp add: working_def)
  have "length (ch_slots (channel_at m0 base n cap)) = n" by (simp add: channel_at_slots)
  then show ?thesis using store_in_slot [OF c assms(2,3), of w] assms(1,2) outside_same_trans by (simp add: working_def) blast
qed

lemma working_access:
  assumes "working base n cap m0 s x m" "s < n" "0 \<le> l" "l < 11"
  shows "\<exists>m'. atomics_store (int (slot_byte base cap s div 4) + l) w m = (Inr (), m') \<and> working base n cap m0 s (set_lane (nat l) w x) m'"
proof -
  have c: "channel_in m base n cap" using assms(1) by (simp add: working_def)
  show ?thesis using slot_access(2) [OF c assms(2-4)] working_store [OF assms(1,2), of "nat l"] assms(3,4) by auto
qed

lemma working_lane:
  assumes "working base n cap m0 s x m" "s < n"
  defines "sb \<equiv> int (slot_byte base cap s div 4)"
  shows "atomics_load (sb + 0) m = (Inr (sl_state x), m)" "atomics_load (sb + 10) m = (Inr (sl_reservation x), m)"
    "atomics_load (sb + 7) m = (Inr (sl_term_claim x), m)" "atomics_load (sb + 8) m = (Inr (sl_term_code x), m)"
    "atomics_load (sb + 9) m = (Inr (sl_term_detail x), m)"
proof -
  have c: "channel_in m base n cap" using assms(1) by (simp add: working_def)
  have "ch_slots (channel_at m base n cap) ! s = x" using assms by (simp add: working_def) (simp add: channel_at_slots)
  then have x: "slot_at m (slot_byte base cap s) cap = x" using assms(2) by (simp add: channel_at_slots)
  note a = slot_access(1) [OF c assms(2)]
  show "atomics_load (sb + 0) m = (Inr (sl_state x), m)" "atomics_load (sb + 10) m = (Inr (sl_reservation x), m)"
    "atomics_load (sb + 7) m = (Inr (sl_term_claim x), m)" "atomics_load (sb + 8) m = (Inr (sl_term_code x), m)"
    "atomics_load (sb + 9) m = (Inr (sl_term_detail x), m)"
    unfolding sb_def using a [of 0] a [of 10] a [of 7] a [of 8] a [of 9] by (simp_all add: x [symmetric] slot_at_def)
qed

lemma working_stores:
  assumes "working base n cap m0 s x m" "s < n" "\<forall>(l, w) \<in> set ls. 0 \<le> l \<and> l < 11"
  shows "\<exists>m'. atomics_stores (map (\<lambda>(l, w). (int (slot_byte base cap s div 4) + l, w)) ls) m = (Inr (), m')
    \<and> working base n cap m0 s (fold (\<lambda>(l, w). set_lane (nat l) w) ls x) m'"
  using assms(1,3)
proof (induction ls arbitrary: x m)
  case (Cons lw ls)
  obtain l w where lw: "lw = (l, w)" by force
  with Cons.prems(2) have l: "0 \<le> l" "l < 11" by simp_all
  obtain m' where m': "atomics_store (int (slot_byte base cap s div 4) + l) w m = (Inr (), m')" "working base n cap m0 s (set_lane (nat l) w x) m'"
    using working_access [OF Cons.prems(1) assms(2) l] by blast
  with Cons.IH [OF m'(2)] Cons.prems(2) show ?case by (simp add: lw js_bind_def m'(1))
qed (simp add: js_ret_def)

lemma vgi_publish_opens:
  assumes w: "working base n cap m0 s x m" and s: "s < n"
  shows "\<exists>m'. vgi_publish (int (slot_byte base cap s div 4)) claim m = (Inr (), m') \<and> working base n cap m0 s (opened claim x) m'"
proof -
  let ?ls = "[(1, 0), (2, 0), (3, 0), (4, 0), (5, 0), (6, 0), (7, 0), (8, 0), (9, 0), (0, claim), (10, 0)]"
  have "opened claim x = fold (\<lambda>(l, w). set_lane (nat l) w) ?ls x"
    by (cases x) (simp add: set_lane_def opened_def reset_slot_def reset_ring_def)
  then show ?thesis using working_stores [OF w s, of ?ls] by (simp add: vgi_publish_def)
qed

lemma vgi_open_scan_refines:
  assumes "channel_in m base n cap" "s \<le> n" "vgi_open_scan (int base) (header_numbers (initHeader n cap)) claim [s..<n] m = (r, m')"
    "open_scan claim s (drop s (ch_slots (channel_at m base n cap))) = (r0, sls)"
  shows "r = Inr (case r0 of Some k \<Rightarrow> int k | None \<Rightarrow> -1) \<and> channel_in m' base n cap \<and> outside_same base n cap m m'
    \<and> channel_at m' base n cap = (channel_at m base n cap)\<lparr>ch_slots := take s (ch_slots (channel_at m base n cap)) @ sls\<rparr>"
  using assms
proof (induction "n - s" arbitrary: s m r m' r0 sls)
  case 0
  then have "length (ch_slots (channel_at m base n cap)) = s" by (simp add: channel_at_slots)
  with 0 show ?case by (simp add: js_ret_def)
next
  case (Suc d)
  from Suc.hyps(2) have s: "s < n" by simp
  let ?xs = "ch_slots (channel_at m base n cap)" and ?sb = "int (slot_byte base cap s div 4)" and ?hdr = "header_numbers (initHeader n cap)"
  define x where "x = ?xs ! s"
  have len: "length ?xs = n" by (simp add: channel_at_slots)
  have d: "drop s ?xs = x # drop (Suc s) ?xs" using s len by (simp add: Cons_nth_drop_Suc x_def)
  have u: "[s..<n] = s # [Suc s..<n]" using s by (simp add: upt_conv_Cons)
  have h: "vgi_hdr m (int base) = ?hdr" using Suc.prems(1) by (simp add: channel_in_def)
  have sb: "shr2 (vgi_slotByte (int base) ?hdr (int s)) = ?sb" using slot_places(1,7) [OF Suc.prems(1) s] unfolding h by (simp only:)
  have w: "working base n cap m s x m" using working_start [OF Suc.prems(1) s] by (simp add: x_def)
  note l0 = working_lane(2) [OF w s] js_bind_def
  obtain r1 sls1 where o: "open_scan claim (Suc s) (drop (Suc s) ?xs) = (r1, sls1)" by force
  have skip: "take (Suc s) ?xs @ sls1 = take s ?xs @ x # sls1" using s len by (simp add: take_Suc_conv_app_nth x_def)
  show ?case
  proof (cases "sl_reservation x = 0")
    case False
    then have v: "vgi_open_scan (int base) ?hdr claim [Suc s..<n] m = (r, m')" using Suc.prems(3) by (simp add: u sb Let_def l0)
    have "r0 = r1" "sls = x # sls1" using Suc.prems(4) False o by (simp_all add: d)
    with Suc.hyps(1) [OF _ Suc.prems(1) _ v o] Suc.hyps(2) s skip show ?thesis by simp
  next
    case True
    let ?x1 = "x\<lparr>sl_reservation := claim\<rparr>"
    obtain m1 where m1: "atomics_store (?sb + 10) claim m = (Inr (), m1)" "working base n cap m s ?x1 m1"
      using working_access [OF w s, of 10 claim] by (auto simp: set_lane_def)
    note l1 = working_lane(1) [OF m1(2) s] m1(1)
    show ?thesis
    proof (cases "sl_state x = 0")
      case False
      obtain m2 where m2: "atomics_store (?sb + 10) 0 m1 = (Inr (), m2)" "working base n cap m s x m2"
        using working_access [OF m1(2) s, of 10 0] True by (auto simp: set_lane_def slot_reserve_undo)
      then have k: "channel_in m2 base n cap" "outside_same base n cap m m2" "channel_at m2 base n cap = channel_at m base n cap"
        using s len by (simp_all add: working_def x_def)
      have v: "vgi_open_scan (int base) ?hdr claim [Suc s..<n] m2 = (r, m')"
        using Suc.prems(3) True False by (simp add: u sb Let_def l0 l1 [simplified] m2(1))
      have o2: "open_scan claim (Suc s) (drop (Suc s) (ch_slots (channel_at m2 base n cap))) = (r1, sls1)" using o k(3) by simp
      have "r0 = r1" "sls = x # sls1" using Suc.prems(4) True False o by (simp_all add: d slot_reserve_undo)
      with Suc.hyps(1) [OF _ k(1) _ v o2] Suc.hyps(2) s skip k(2,3) outside_same_trans show ?thesis by (simp del: vgi_open_scan.simps)
    next
      case free: True
      obtain m2 where m2: "vgi_publish ?sb claim m1 = (Inr (), m2)" "working base n cap m s (opened claim ?x1) m2"
        using vgi_publish_opens [OF m1(2) s] by blast
      have "r = Inr (int s)" "m' = m2"
        using Suc.prems(3) True free by (simp_all add: u sb Let_def l0 l1 [simplified] m2(1) js_ret_def)
      moreover have "r0 = Some s" "sls = opened claim ?x1 # drop (Suc s) ?xs"
        using Suc.prems(4) True free by (simp_all add: d opened_def reset_slot_def)
      moreover have "?xs[s := opened claim ?x1] = take s ?xs @ opened claim ?x1 # drop (Suc s) ?xs" using s len by (simp add: upd_conv_take_nth_drop)
      ultimately show ?thesis using m2(2) by (simp add: working_def)
    qed
  qed
qed

lemma store_claimSeq:
  fixes w :: lane
  assumes c: "channel_in m base n cap"
  defines "m' \<equiv> store_lane (base + 32) w m"
  shows "channel_in m' base n cap" "channel_at m' base n cap = (channel_at m base n cap)\<lparr>ch_claimSeq := w\<rparr>" "outside_same base n cap m m'"
proof -
  have b: "64 dvd base" "base + channelBytes n cap \<le> length m" "64 \<le> channelBytes n cap" using c by (simp_all add: channel_in_def channelBytes_def HEADER_BYTES_def)
  note m' = m'_def
  have low: "mem_lane m' (base + k) = (if k = 32 then w else mem_lane m (base + k))" if "k \<in> {8, 12, 16, 20, 24, 32}" for k
    using that b unfolding m' by auto
  have "base < 2 ^ 31" "base + 64 \<le> length m" using c b by (simp_all add: channel_in_def)
  then have "vgi_hdr m' (int base) = vgi_hdr m (int base)" using b(1) low by (simp add: hdr_lanes m')
  then show "channel_in m' base n cap" using c b by (simp add: channel_in_def m')
  have "slot_at m' (slot_byte base cap s) cap = slot_at m (slot_byte base cap s) cap" if "s < n" for s
    unfolding m' using b by (intro slot_at_other) (simp_all add: slot_byte_def)
  then have "ch_slots (channel_at m' base n cap) = ch_slots (channel_at m base n cap)" by (simp add: channel_at_slots)
  moreover have "ch_features (channel_at m' base n cap) = ch_features (channel_at m base n cap)" "ch_claimSeq (channel_at m' base n cap) = w"
    using low [of 24] low [of 32] by (simp_all add: channel_at_def)
  ultimately show "channel_at m' base n cap = (channel_at m base n cap)\<lparr>ch_claimSeq := w\<rparr>" by (intro channel.equality) simp_all
  show "outside_same base n cap m m'" unfolding outside_same_def m' using b by (auto intro!: subarray_store_lane)
qed

text \<open>A pointer that the engine passes for one lane: none, or an aligned place in the memory below 2 GiB.\<close>

definition lane_pointer :: "byte list \<Rightarrow> int \<Rightarrow> bool" where
  "lane_pointer m p \<longleftrightarrow> p = 0 \<or> 0 < p \<and> 4 dvd p \<and> p + 4 \<le> int (length m) \<and> p < 2 ^ 31"

definition store_pointer :: "int \<Rightarrow> lane \<Rightarrow> byte list \<Rightarrow> byte list" where
  "store_pointer p w m = (if p \<noteq> 0 then store_lane (nat p) w m else m)"

lemma pointer_store:
  assumes "lane_pointer m p"
  shows "(if p \<noteq> 0 then atomics_store (shr2 (Some p)) w else js_ret ()) m = (Inr (), store_pointer p w m)"
    "length (store_pointer p w m) = length m"
proof -
  have "atomics_store (shr2 (Some p)) w m = (Inr (), store_lane (nat p) w m) \<and> nat p + 4 \<le> length m" if "p \<noteq> 0"
  proof -
    obtain k where k: "p = int k" using assms \<open>p \<noteq> 0\<close> by (auto simp: lane_pointer_def intro: that [of "nat p"])
    with assms that have "k < 2 ^ 31" "4 dvd int k" "k + 4 \<le> length m" by (auto simp: lane_pointer_def)
    moreover from this have "4 * (k div 4) = k" by presburger
    ultimately have b: "k < 2 ^ 31" "4 * (k div 4) = k" "k + 4 \<le> length m" by simp_all
    then show ?thesis using atomics_at(2) [of 0 "k div 4" m w] by (simp add: k shr2_below)
  qed
  then show "(if p \<noteq> 0 then atomics_store (shr2 (Some p)) w else js_ret ()) m = (Inr (), store_pointer p w m)"
    "length (store_pointer p w m) = length m" by (simp_all add: store_pointer_def js_ret_def)
qed

text \<open>C34: On the memory itself the engine's stubs do exactly what the reference does on its records, for a channel that lies below 2 GiB:
  opening a slot, ending the stream, giving the slot back. None of them throws, they change nothing outside the channel, and the terminal
  error they report, where the pointers they are given say, is that of the reference. The bound is needed: a place from 2 GiB on arrives as
  a negative number and its shift is a lane that does not exist (\<open>no_slot_above_2GiB\<close>).\<close>

theorem stubs_implement_the_reference:
  assumes c: "channel_in m base n cap" and s: "s < n" and pq: "lane_pointer m p" "lane_pointer m q"
  shows "(\<exists>r m'. vgi_wasm_slot_open (int base) m = (Inr r, m') \<and> slotOpen (channel_at m base n cap) = (r, channel_at m' base n cap)
        \<and> channel_in m' base n cap \<and> outside_same base n cap m m')
    \<and> (\<exists>m'. vgi_wasm_slot_release (int base) (int s) m = (Inr (), m')
        \<and> channel_at m' base n cap = slotRelease s (channel_at m base n cap) \<and> outside_same base n cap m m')
    \<and> (\<exists>m'. vgi_wasm_slot_write_eos (int base) (int s) m = (Inr (), m')
        \<and> channel_at m' base n cap = (channel_at m base n cap)\<lparr>ch_slots := (ch_slots (channel_at m base n cap))
              [s := stubWriteEos (ch_slots (channel_at m base n cap) ! s)]\<rparr> \<and> outside_same base n cap m m')
    \<and> vgi_wasm_slot_terminal_error (int base) (int s) p q m
      = (case stubTerminalError (ch_features (channel_at m base n cap)) (ch_slots (channel_at m base n cap) ! s) of
           None \<Rightarrow> (Inr 0, m)
         | Some (code, detail) \<Rightarrow> (Inr 1, store_pointer q detail (store_pointer p code m)))"
    (is "?open \<and> ?release \<and> ?eos \<and> ?error")
proof (intro conjI)
  have h: "vgi_hdr m (int base) = header_numbers (initHeader n cap)" using c by (simp add: channel_in_def)
  have b: "64 dvd base" "base + 64 \<le> length m" "base < 2 ^ 31" using c by (simp_all add: channel_in_def channelBytes_def HEADER_BYTES_def)
  let ?xs = "ch_slots (channel_at m base n cap)" and ?sb = "int (slot_byte base cap s div 4)"
  have w: "working base n cap m s (?xs ! s) m" by (rule working_start [OF c s])
  have sb: "shr2 (vgi_slotByte (int base) (vgi_hdr m (int base)) (int s)) = ?sb" using slot_places(1,7) [OF c s] by (simp only:)
  show ?release using working_access [OF w s, of 0 0]
    by (auto simp: vgi_wasm_slot_release_def Let_def sb slotRelease_def working_def set_lane_def)
  show ?eos using working_access [OF w s, of 3 1] by (auto simp: vgi_wasm_slot_write_eos_def Let_def sb stubWriteEos_def working_def set_lane_def)
  have f: "atomics_load (shr2 (Some (int base)) + 6) m = (Inr (ch_features (channel_at m base n cap)), m)"
    using base_access(1) [OF b, of 6] by (simp add: channel_at_def)
  note st = pointer_store(1) [OF pq(1)] pointer_store(1) [of _ q]
  have q: "lane_pointer (store_pointer p w m) q" for w using pq pointer_store(2) [OF pq(1)] by (simp add: lane_pointer_def)
  show ?error unfolding vgi_wasm_slot_terminal_error_def stubTerminalError_def sb Let_def
    using working_lane [OF w s] f st(1) st(2) [OF q] by (simp add: js_bind_def js_ret_def)
  obtain seq where seq: "seq = ch_claimSeq (channel_at m base n cap)" by simp
  have q8: "atomics_load (shr2 (Some (int base)) + 8) m = (Inr seq, m)"
    "atomics_store (shr2 (Some (int base)) + 8) (seq + 1) m = (Inr (), store_lane (base + 32) (seq + 1) m)"
    using base_access [OF b, of 8] by (simp_all add: channel_at_def seq)
  let ?m1 = "store_lane (base + 32) (seq + 1) m"
  note m1 = store_claimSeq [OF c, of "seq + 1"]
  obtain r m' where v: "vgi_open_scan (int base) (header_numbers (initHeader n cap)) (next_claim seq) [0..<n] ?m1 = (r, m')" by force
  obtain r0 sls where o: "open_scan (next_claim seq) 0 (drop 0 (ch_slots (channel_at ?m1 base n cap))) = (r0, sls)" by force
  have "slot_numbers (header_numbers (initHeader n cap)) = [0..<n]" by (simp add: slot_numbers_def header_numbers_def initHeader_def)
  then have "vgi_wasm_slot_open (int base) m = (r, m')"
    unfolding vgi_wasm_slot_open_def h Let_def using v q8 by (simp add: js_bind_def next_claim_def)
  moreover have "open_scan (next_claim (ch_claimSeq (channel_at m base n cap))) 0 ?xs = (r0, sls)" using o m1(2) seq by simp
  ultimately show ?open using vgi_open_scan_refines [OF m1(1) _ v o] m1(2,3) seq outside_same_trans by (auto simp: slotOpen_def)
qed

text \<open>A channel from 2 GiB on: its place arrives as a negative number, and opening a slot throws, as does asking for its worker.\<close>

lemma no_lane_above_2GiB:
  assumes "64 dvd base" "2 ^ 31 \<le> base" "base < 2 ^ 32" "0 \<le> l" "l < 16"
  shows "\<not> lane_inside m (shr2 (Some (int base - 2 ^ 32)) + l)"
proof -
  obtain k where k: "base = 64 * k" using assms(1) by (elim dvdE)
  have "load (store (int base - 2 ^ 32)) = int base - 2 ^ 32" using assms(2,3) by (intro load_store) simp_all
  moreover have "(int base - 2 ^ 32) div 4 = 16 * (int k - 2 ^ 26)" by (simp add: k)
  moreover have "int k + 1 \<le> 2 ^ 26" using assms(3) k by simp
  ultimately show ?thesis using assms(5) by (simp add: lane_inside_def shr2_def)
qed

lemma no_slot_above_2GiB:
  assumes "64 dvd base" "2 ^ 31 \<le> base" "base < 2 ^ 32"
  shows "vgi_wasm_slot_open (int base - 2 ^ 32) m = (Inl bad_index, m)"
  using no_lane_above_2GiB [OF assms, of 8 m] by (simp add: vgi_wasm_slot_open_def Let_def js_bind_def atomics_load_def)

text \<open>One slot with rings of eight bytes at the start of a memory.\<close>

definition stub_memory :: "byte list" where
  "stub_memory = [0, 0, 0, 0, 0, 0, 0, 0, 1, 0, 0, 0, 8, 0, 0, 0, 128, 0, 0, 0, 64, 0, 0, 0, 1, 0, 0, 0, 0, 0, 0, 0, 41, 0, 0, 0] @ replicate 156 0"

lemma stub_memory_lanes:
  "mem_lane stub_memory 8 = 1" "mem_lane stub_memory 12 = 8" "mem_lane stub_memory 16 = 128" "mem_lane stub_memory 20 = 64"
  "36 \<le> a \<Longrightarrow> mem_lane stub_memory a = 0"
proof -
  have z: "le_value (replicate k 0) = 0" for k by (induction k) (simp_all add: le_value_def)
  have "\<exists>xs. stub_memory = xs @ replicate 156 0 \<and> length xs = 36" unfolding stub_memory_def by (rule exI, rule conjI, rule refl, simp)
  then obtain xs where xs: "stub_memory = xs @ replicate 156 0" "length xs = 36" by blast
  have "drop a stub_memory = replicate (192 - a) 0" if "36 \<le> a" unfolding xs(1) using that xs(2) by simp
  then show "36 \<le> a \<Longrightarrow> mem_lane stub_memory a = 0" by (simp add: mem_lane_def subarray_def z)
qed (simp_all add: mem_lane_def stub_memory_def subarray_def le_value_def)

lemma stub_memory_channel: "channel_in stub_memory 0 1 8"
proof -
  have st: "slotStride 8 = 128" by (simp add: slotStride_def alignUp_def SLOT_CONTROL_BYTES_def)
  have n: "length stub_memory = 192" by (simp add: stub_memory_def)
  have "vgi_hdr stub_memory (int 0) = header_numbers (initHeader 1 8)"
    using hdr_lanes [of 0 stub_memory] n
    by (simp add: header_numbers_def initHeader_def stub_memory_lanes load_def st HEADER_BYTES_def)
  moreover have "channelBytes 1 8 = 192" by (simp add: channelBytes_def st HEADER_BYTES_def)
  ultimately show ?thesis using n by (simp add: channel_in_def)
qed

theorem stubs_implement_the_reference_witness:
  "\<exists>m'. vgi_wasm_slot_open 0 stub_memory = (Inr 0, m') \<and> slotOpen (channel_at stub_memory 0 1 8) = (0, channel_at m' 0 1 8)"
proof -
  have "sl_state (slot_at stub_memory 64 8) = 0" "sl_reservation (slot_at stub_memory 64 8) = 0" by (simp_all add: slot_at_def stub_memory_lanes)
  then have "fst (slotOpen (channel_at stub_memory 0 1 8)) = 0" by (simp add: slotOpen_def channel_at_def slotBase_init)
  with stubs_implement_the_reference [OF stub_memory_channel, of 0 0 0] show ?thesis by (auto simp: lane_pointer_def)
qed

section \<open>Reading from the ring\<close>

text \<open>\<open>copyWithin\<close> of a typed array: a negative place counts from the end, and the copy stops at the end of the array.\<close>

definition rel_index :: "nat \<Rightarrow> jsnum \<Rightarrow> nat" where
  "rel_index len a = (case a of None \<Rightarrow> 0 | Some i \<Rightarrow> nat (if i < 0 then max (int len + i) 0 else min i (int len)))"

definition copyWithin :: "jsnum \<Rightarrow> jsnum \<Rightarrow> jsnum \<Rightarrow> byte list \<Rightarrow> byte list" where
  "copyWithin target start fin m =
     (let to = rel_index (length m) target; from = rel_index (length m) start;
          count = min (rel_index (length m) fin - from) (length m - to)
      in put to (subarray from (from + count) m) m)"

definition vgi_isEos :: "int \<Rightarrow> int \<Rightarrow> (byte list, bool) jsm" where
  "vgi_isEos ctl closedLane = js_bind (atomics_load (ctl + closedLane)) (\<lambda>cl.
     if cl = 0 then js_ret False else js_bind (atomics_load ctl) (\<lambda>claim. js_ret (cl = claim)))"

definition vgi_take :: "int \<Rightarrow> int \<Rightarrow> jsnum \<Rightarrow> jsnum \<Rightarrow> int \<Rightarrow> int \<Rightarrow> int \<Rightarrow> int \<Rightarrow> (byte list, int) jsm" where
  "vgi_take ctl readLane dataByte ringCap r avail dstPtr n =
     (let k = min avail n; pos = js_mod (Some r) ringCap; first = num2 min (Some k) (num2 (-) ringCap pos); from = num2 (+) dataByte pos
      in js_bind (js_modify (copyWithin (Some dstPtr) from (num2 (+) from first))) (\<lambda>_.
         js_bind (js_modify (if less_num first (Some k)
           then copyWithin (num2 (+) (Some dstPtr) first) dataByte (num2 (-) (num2 (+) dataByte (Some k)) first) else id)) (\<lambda>_.
         js_bind (atomics_store (ctl + readLane) (store (r + k))) (\<lambda>_. js_ret k))))"

text \<open>\<open>other\<close> is what other threads do to the memory during the bounded wait.\<close>

definition vgi_ringRead :: "int \<Rightarrow> int \<Rightarrow> int \<Rightarrow> int \<Rightarrow> jsnum \<Rightarrow> jsnum \<Rightarrow> int \<Rightarrow> int \<Rightarrow> (byte list \<Rightarrow> byte list) \<Rightarrow> (byte list, int) jsm" where
  "vgi_ringRead ctl writeLane readLane closedLane dataByte ringCap dstPtr n other =
     js_bind (atomics_load (ctl + writeLane)) (\<lambda>w. js_bind (atomics_load (ctl + readLane)) (\<lambda>r.
     let avail = load w - load r
     in if avail = 0
        then js_bind (vgi_isEos ctl closedLane) (\<lambda>eos. if eos then js_ret 0
          else js_bind (js_modify other) (\<lambda>_. js_bind (atomics_load (ctl + writeLane)) (\<lambda>w.
            let avail = load w - load r
            in if avail = 0 then js_bind (vgi_isEos ctl closedLane) (\<lambda>eos. js_ret (if eos then 0 else -2))
               else vgi_take ctl readLane dataByte ringCap (load r) avail dstPtr n)))
        else vgi_take ctl readLane dataByte ringCap (load r) avail dstPtr n))"

definition vgi_wasm_slot_read :: "int \<Rightarrow> int \<Rightarrow> int \<Rightarrow> int \<Rightarrow> (byte list \<Rightarrow> byte list) \<Rightarrow> (byte list, int) jsm" where
  "vgi_wasm_slot_read regionOffset slot dataPtr n other m =
     (let hdr = vgi_hdr m regionOffset; sb = vgi_slotByte regionOffset hdr slot; ctl = shr2 sb
      in js_bind (vgi_ringRead ctl 4 5 6 (num2 (+) (num2 (+) sb (Some 64)) (hw_ringCap hdr)) (hw_ringCap hdr) dataPtr n other) (\<lambda>result.
         if result \<noteq> 0 then js_ret result
         else js_bind (atomics_load (shr2 (Some regionOffset) + 6)) (\<lambda>features.
           if features AND FEATURE_TERMINAL_ERROR = 0 then js_ret result
           else js_bind (atomics_load (ctl + 0)) (\<lambda>claim.
             if claim = 0 then js_ret result
             else js_bind (atomics_load (ctl + 7)) (\<lambda>token. js_bind (atomics_load (ctl + 0)) (\<lambda>claim.
               js_ret (if token = claim then -3 else result))))))) m"

text \<open>One pass of the loop of \<open>ringWrite\<close>; \<^term>\<open>None\<close> is a wait for the reader, otherwise the new \<open>off\<close>.\<close>

definition vgi_write_pass :: "int \<Rightarrow> int \<Rightarrow> int \<Rightarrow> jsnum \<Rightarrow> jsnum \<Rightarrow> int \<Rightarrow> int \<Rightarrow> jsnum \<Rightarrow> (byte list, jsnum option) jsm" where
  "vgi_write_pass ctl writeLane readLane dataByte ringCap srcPtr n off =
     js_bind (atomics_load (ctl + writeLane)) (\<lambda>w. js_bind (atomics_load (ctl + readLane)) (\<lambda>r.
     let free = num2 (-) ringCap (Some (load w - load r))
     in if free = Some 0 then js_ret None
        else let k = num2 min free (num2 (-) (Some n) off); pos = js_mod (Some (load w)) ringCap; first = num2 min k (num2 (-) ringCap pos);
                 from = num2 (+) (Some srcPtr) off
          in js_bind (js_modify (copyWithin (num2 (+) dataByte pos) from (num2 (+) from first))) (\<lambda>_.
             js_bind (js_modify (if less_num first k then copyWithin dataByte (num2 (+) from first) (num2 (+) from k) else id)) (\<lambda>_.
             js_bind (atomics_store (ctl + writeLane) (store_num (num2 (+) (Some (load w)) k))) (\<lambda>_. js_ret (Some (num2 (+) off k)))))))"

text \<open>The loop: each wait lets other threads act, the next of \<open>others\<close>; \<^term>\<open>None\<close> while the write still waits. A pass that finds
  room writes at least one byte, so as many passes as there are waits and bytes are enough fuel.\<close>

fun vgi_ringWrite :: "nat \<Rightarrow> int \<Rightarrow> int \<Rightarrow> int \<Rightarrow> jsnum \<Rightarrow> jsnum \<Rightarrow> int \<Rightarrow> int \<Rightarrow> (byte list \<Rightarrow> byte list) list \<Rightarrow> jsnum \<Rightarrow> (byte list, int option) jsm" where
  "vgi_ringWrite 0 ctl writeLane readLane dataByte ringCap srcPtr n others off = js_ret (if less_num off (Some n) then None else Some n)"
| "vgi_ringWrite (Suc fuel) ctl writeLane readLane dataByte ringCap srcPtr n others off =
     (if less_num off (Some n)
      then js_bind (vgi_write_pass ctl writeLane readLane dataByte ringCap srcPtr n off) (\<lambda>pass. case pass of
          None \<Rightarrow> (case others of [] \<Rightarrow> js_ret None
            | act # acts \<Rightarrow> js_bind (js_modify act) (\<lambda>_. vgi_ringWrite fuel ctl writeLane readLane dataByte ringCap srcPtr n acts off))
        | Some off \<Rightarrow> vgi_ringWrite fuel ctl writeLane readLane dataByte ringCap srcPtr n others off)
      else js_ret (Some n))"

definition vgi_wasm_slot_write :: "int \<Rightarrow> int \<Rightarrow> int \<Rightarrow> int \<Rightarrow> (byte list \<Rightarrow> byte list) list \<Rightarrow> (byte list, int option) jsm" where
  "vgi_wasm_slot_write regionOffset slot dataPtr n others m =
     (let hdr = vgi_hdr m regionOffset; sb = vgi_slotByte regionOffset hdr slot
      in vgi_ringWrite (length others + nat n) (shr2 sb) 1 2 (num2 (+) sb (Some 64)) (hw_ringCap hdr) dataPtr n others (Some 0)) m"

lemma put_put:
  assumes "a + length xs + length ys \<le> length m"
  shows "put (a + length xs) ys (put a xs m) = put a (xs @ ys) m"
  using assms by (simp add: put_def ac_simps)

lemma put_nothing: "put a [] m = m"
  by (simp add: put_def)

lemma nth_subarray: "i < b - a \<Longrightarrow> b \<le> length m \<Longrightarrow> subarray a b m ! i = m ! (a + i)"
  by (simp add: subarray_def)

lemma subarray_inside:
  assumes "subarray a b m' = subarray a b m" "a \<le> c" "d \<le> b"
  shows "subarray c d m' = subarray c d m"
proof -
  have "subarray c d x = subarray (c - a) (d - a) (subarray a b x)" for x :: "'a list"
    using assms(2,3) by (simp add: subarray_def drop_take min_def)
  then show ?thesis using assms(1) by simp
qed

lemma channel_kept:
  assumes c: "channel_in m base n cap" and same: "subarray base (base + channelBytes n cap) m' = subarray base (base + channelBytes n cap) m" and len: "length m' = length m"
  shows "channel_in m' base n cap" "channel_at m' base n cap = channel_at m base n cap"
proof -
  have b: "64 dvd base" "64 \<le> channelBytes n cap" using c by (simp_all add: channel_in_def channelBytes_def HEADER_BYTES_def)
  have room: "base < 2 ^ 31" "base + 64 \<le> length m" using c b(2) by (simp_all add: channel_in_def)
  have lane: "mem_lane m' a = mem_lane m a" if "base \<le> a" "a + 4 \<le> base + channelBytes n cap" for a
    using subarray_inside [OF same that] by (simp add: mem_lane_def)
  have low: "mem_lane m' (base + k) = mem_lane m (base + k)" if "k \<le> 60" for k using lane b that by simp
  have "vgi_hdr m' (int base) = vgi_hdr m (int base)" using b(1) room len low by (simp add: hdr_lanes)
  then show "channel_in m' base n cap" using c len by (simp add: channel_in_def)
  have "slot_at m' (slot_byte base cap s) cap = slot_at m (slot_byte base cap s) cap" if "s < n" for s
  proof -
    note p = slot_places(3,4) [OF c that]
    have "mem_lane m' (slot_byte base cap s + k) = mem_lane m (slot_byte base cap s + k)" if "k \<le> 60" for k using lane p that by simp
    from this [of 0] this show ?thesis
      using subarray_inside [OF same, of "slot_byte base cap s + 64" "slot_byte base cap s + 64 + cap"]
        subarray_inside [OF same, of "slot_byte base cap s + 64 + cap" "slot_byte base cap s + 64 + cap + cap"] p
      by (simp add: slot_at_def)
  qed
  then show "channel_at m' base n cap = channel_at m base n cap"
    using low [of 24] low [of 32] by (simp add: channel_at_def slotBase_init slot_byte_def)
qed

text \<open>What the two copies of a read leave in the memory: the bytes of the ring, around its end, at the place they were asked for.\<close>

definition taken :: "nat \<Rightarrow> nat \<Rightarrow> nat \<Rightarrow> nat \<Rightarrow> nat \<Rightarrow> byte list \<Rightarrow> byte list" where
  "taken D pos first k dst m = (let m1 = copyWithin (Some (int dst)) (Some (int (D + pos))) (Some (int (D + pos + first))) m in
    if k > first then copyWithin (Some (int (dst + first))) (Some (int D)) (Some (int (D + k - first))) m1 else m1)"

lemma copyWithin_inside:
  assumes "a \<le> b" "b \<le> length m" "to + (b - a) \<le> length m"
  shows "copyWithin (Some (int to)) (Some (int a)) (Some (int b)) m = put to (subarray a b m) m"
proof -
  have "rel_index (length m) (Some (int i)) = i" if "i \<le> length m" for i using that by (simp add: rel_index_def)
  moreover have "to \<le> length m" "a \<le> length m" using assms by linarith+
  moreover have "min (b - a) (length m - to) = b - a" using assms by linarith
  ultimately show ?thesis using assms by (simp add: copyWithin_def Let_def)
qed

lemma taken_put:
  assumes p: "pos < cap" "k \<le> cap" "first = min k (cap - pos)" and room: "D + cap \<le> length m" "dst + k \<le> length m"
    and away: "dst + k \<le> D \<or> D + cap \<le> dst"
  shows "taken D pos first k dst m = put dst (subarray (D + pos) (D + pos + first) m @ subarray D (D + (k - first)) m) m"
proof -
  have f: "first \<le> k" "first \<le> cap - pos" using p(3) by simp_all
  define A where "A = subarray (D + pos) (D + pos + first) m"
  define B where "B = subarray D (D + (k - first)) m"
  have lens: "length A = first" "length B = k - first" using room f p(1,2) by (simp_all add: A_def B_def)
  have "D + (k - first) \<le> dst \<or> dst + length A \<le> D" "dst + length A \<le> length m" using away f p(2) lens room(2) by linarith+
  then have "subarray D (D + (k - first)) (put dst A m) = B" unfolding B_def by (rule subarray_put_other)
  moreover have "D + k - first = D + (k - first)" using f by simp
  moreover have n: "length (put dst A m) = length m" using lens room(2) f by (intro length_put) simp
  moreover have "copyWithin (Some (int (dst + first))) (Some (int D)) (Some (int (D + (k - first)))) (put dst A m)
      = put (dst + first) (subarray D (D + (k - first)) (put dst A m)) (put dst A m)"
    unfolding n by (rule copyWithin_inside) (use n room p(1,2) f in linarith)+
  ultimately have "copyWithin (Some (int (dst + first))) (Some (int D)) (Some (int (D + k - first))) (put dst A m) = put (dst + first) B (put dst A m)"
    by (simp only:)
  moreover have "put (dst + first) B (put dst A m) = put dst (A @ B) m" using put_put [of dst A B m] lens room(2) f by simp
  moreover have "B = []" if "\<not> k > first" using that lens(2) by simp
  moreover have "copyWithin (Some (int dst)) (Some (int (D + pos))) (Some (int (D + pos + first))) m = put dst A m"
    unfolding A_def using room p(1,2) f by (intro copyWithin_inside) simp_all
  ultimately show ?thesis by (simp add: taken_def Let_def A_def [symmetric] B_def [symmetric] del: of_nat_add of_nat_diff)
qed

lemma num2_int: "num2 (+) (Some (int a)) (Some (int b)) = Some (int (a + b))" "num2 min (Some (int a)) (Some (int b)) = Some (int (min a b))"
    "b \<le> a \<Longrightarrow> num2 (-) (Some (int a)) (Some (int b)) = Some (int (a - b))" "less_num (Some (int a)) (Some (int b)) \<longleftrightarrow> a < b"
  by (simp_all add: num2_def less_num_def of_nat_diff)

lemma take_taken:
  assumes "js_mod (Some r) (Some (int cap)) = Some (int pos)" "min avail n = int k" "first = min k (cap - pos)" "pos < cap"
    and "atomics_store (ctl + rl) (store (r + int k)) (taken D pos first k dst m) = (Inr (), m3)"
  shows "vgi_take ctl rl (Some (int D)) (Some (int cap)) r avail (int dst) n m = (Inr (int k), m3)"
proof -
  have "first \<le> D + k" "pos \<le> cap" using assms(3,4) by simp_all
  note num = num2_int(1,2,4) num2_int(3) [OF this(1)] num2_int(3) [OF this(2)]
  have "js_bind (js_modify (copyWithin (Some (int dst)) (Some (int (D + pos))) (Some (int (D + pos + first))))) (\<lambda>_.
      js_modify (if first < k then copyWithin (Some (int (dst + first))) (Some (int D)) (Some (int (D + k - first))) else id)) m
      = (Inr (), taken D pos first k dst m)"
    by (simp add: js_bind_def js_modify_def taken_def Let_def del: of_nat_add of_nat_diff)
  then show ?thesis
    unfolding vgi_take_def Let_def assms(1,2) num assms(3) [symmetric]
    by (simp add: js_bind_def js_modify_def js_ret_def assms(5) del: of_nat_add of_nat_diff)
qed

lemma taken_bytes:
  assumes p: "pos < cap" "k \<le> cap" "first = min k (cap - pos)" and room: "D + cap \<le> length m" "dst + k \<le> length m"
    and away: "dst + k \<le> D \<or> D + cap \<le> dst"
  shows "length (taken D pos first k dst m) = length m"
    "subarray dst (dst + k) (taken D pos first k dst m)
      = map (\<lambda>j. subarray D (D + cap) m ! (if j < first then pos + j else j - first)) [0..<k]"
    "d \<le> dst \<or> dst + k \<le> b \<Longrightarrow> subarray b d (taken D pos first k dst m) = subarray b d m"
proof -
  have f: "first \<le> k" "first \<le> cap - pos" using p(3) by simp_all
  let ?A = "subarray (D + pos) (D + pos + first) m" and ?B = "subarray D (D + (k - first)) m"
  have lens: "length ?A = first" "length ?B = k - first" using room f p(1,2) by simp_all
  note put = taken_put [OF assms]
  show "length (taken D pos first k dst m) = length m" unfolding put using room(2) lens f by (intro length_put) simp
  have "subarray dst (dst + k) (taken D pos first k dst m) = ?A @ ?B" unfolding put
    using subarray_put [of dst "?A @ ?B" m] room(2) lens f by simp
  also have "\<dots> = map (\<lambda>j. subarray D (D + cap) m ! (if j < first then pos + j else j - first)) [0..<k]"
    using lens room f p(1,2) by (intro nth_equalityI) (auto simp: nth_append nth_subarray add.assoc)
  finally show "subarray dst (dst + k) (taken D pos first k dst m)
      = map (\<lambda>j. subarray D (D + cap) m ! (if j < first then pos + j else j - first)) [0..<k]" .
  show "subarray b d (taken D pos first k dst m) = subarray b d m" if "d \<le> dst \<or> dst + k \<le> b"
  proof (cases "b \<le> d")
    case True
    then show ?thesis unfolding put using subarray_put_other [of b "d - b" dst "?A @ ?B" m] that room(2) lens f by auto
  qed (simp add: subarray_def)
qed

text \<open>C35: When the ring to the client holds bytes, a read gives exactly the next ones, as many as it holds and the caller has room for, at the places
  where the reference finds them; it moves the read position by as many, and changes nothing else of the channel and nothing outside the
  range it was given. The channel and the range lie below 2 GiB: the address of a range from there on arrives as a negative number,
  which the copy counts from the end of the memory (\<open>copy_above_2GiB_goes_elsewhere\<close>).\<close>

theorem stub_read_takes_the_next_bytes:
  fixes other :: "byte list \<Rightarrow> byte list"
  assumes c: "channel_in m base n cap" and s: "s < n"
    and x: "x = ch_slots (channel_at m base n cap) ! s" "r = load (rg_read (sl_w2c x))" "w = load (rg_write (sl_w2c x))"
    and bytes: "0 \<le> r" "r < w" "w - r \<le> int cap" and k: "k = min (nat (w - r)) len" "0 < len"
    and dst: "dst + len \<le> base \<or> base + channelBytes n cap \<le> dst" "dst + len \<le> length m" "dst + len \<le> 2 ^ 31"
  shows "\<exists>m'. vgi_wasm_slot_read (int base) (int s) (load (store (int dst))) (int len) other m = (Inr (int k), m')
    \<and> subarray dst (dst + k) m' = map (\<lambda>j. rg_data (sl_w2c x) ! ring_index cap r k j) [0..<k]
    \<and> channel_at m' base n cap = (channel_at m base n cap)\<lparr>ch_slots := (ch_slots (channel_at m base n cap))
        [s := x\<lparr>sl_w2c := (sl_w2c x)\<lparr>rg_read := store (r + int k)\<rparr>\<rparr>]\<rparr>
    \<and> (\<forall>b d. (d \<le> base \<or> base + channelBytes n cap \<le> b) \<and> (d \<le> dst \<or> dst + k \<le> b) \<longrightarrow> subarray b d m' = subarray b d m)"
proof -
  let ?sb = "slot_byte base cap s" and ?D = "slot_byte base cap s + 64 + cap"
  note p = slot_places [OF c s]
  have b: "base + channelBytes n cap \<le> length m" and h: "vgi_hdr m (int base) = header_numbers (initHeader n cap)" using c by (simp_all add: channel_in_def)
  have xs: "x = slot_at m ?sb cap" using s by (simp add: x(1) channel_at_slots)
  obtain wl rl where wl: "wl = rg_write (sl_w2c x)" "rl = rg_read (sl_w2c x)" by simp
  have wr: "atomics_load (int (?sb div 4) + 4) m = (Inr wl, m)" "atomics_load (int (?sb div 4) + 5) m = (Inr rl, m)" "load wl = w" "load rl = r"
    using slot_access(1) [OF c s, of 4] slot_access(1) [OF c s, of 5] by (simp_all add: wl x(2,3) xs slot_at_def)
  define pos where "pos = nat (js_rem r (int cap))"
  define first where "first = min k (cap - pos)"
  have pm: "pos = nat r mod cap" using bytes(1) nonneg_int_cases by (force simp: pos_def js_rem_def nat_mod_as_int)
  moreover have kb: "0 < k" "k \<le> cap" "k \<le> len" using k bytes by (simp_all add: min_def) linarith+
  ultimately have pos: "pos < cap" by simp
  have room: "?D + cap \<le> base + channelBytes n cap" "base + 64 \<le> ?D" using p(3,4) by simp_all
  have "?D + cap \<le> length m" "dst + k \<le> length m" "dst + k \<le> ?D \<or> ?D + cap \<le> dst" using room b dst kb by auto
  note got = taken_bytes [OF pos kb(2) first_def this]
  let ?m2 = "taken ?D pos first k dst m"
  have "subarray base (base + channelBytes n cap) ?m2 = subarray base (base + channelBytes n cap) m" using dst kb by (intro got(3)) auto
  note kept = channel_kept [OF c this got(1)]
  let ?m3 = "store_lane (?sb + 4 * 5) (store (r + int k)) ?m2"
  note st = store_in_slot [OF kept(1) s, of 5 "store (r + int k)"]
  have a5: "atomics_store (int (?sb div 4) + 5) (store (r + int k)) ?m2 = (Inr (), ?m3)" using slot_access(2) [OF kept(1) s, of 5] by simp
  have jk: "min (w - r) (int len) = int k" using bytes k by simp
  have avail: "wl \<noteq> rl" using wr(3,4) bytes by auto
  have jp: "js_mod (Some r) (Some (int cap)) = Some (int pos)" using bytes pos by (simp add: js_mod_def num2_def pos_def js_rem_def)
  have jd: "load (store (int dst)) = int dst" using dst(3) k(2) by (intro load_store) simp_all
  have "vgi_take (int (?sb div 4)) 5 (Some (int ?D)) (Some (int cap)) r (w - r) (int dst) (int len) m = (Inr (int k), ?m3)"
    using jp jk first_def pos a5 by (rule take_taken)
  then have "vgi_ringRead (int (?sb div 4)) 4 5 6 (Some (int ?D)) (Some (int cap)) (int dst) (int len) other m = (Inr (int k), ?m3)"
    using wr avail by (simp add: vgi_ringRead_def Let_def js_bind_def del: of_nat_add)
  then have "vgi_wasm_slot_read (int base) (int s) (load (store (int dst))) (int len) other m = (Inr (int k), ?m3)"
    unfolding jd vgi_wasm_slot_read_def Let_def p(1) p(7)
    using kb by (simp add: h header_numbers_def initHeader_def num2_def js_bind_def js_ret_def add.assoc)
  moreover have "subarray dst (dst + k) ?m3 = subarray dst (dst + k) ?m2" using st(3) dst kb by (auto simp: outside_same_def)
  then have "subarray dst (dst + k) ?m3 = map (\<lambda>j. rg_data (sl_w2c x) ! ring_index cap r k j) [0..<k]"
    unfolding got(2) by (simp add: xs slot_at_def ring_index_def Let_def pos_def first_def add.commute add.left_commute)
  moreover have "channel_at ?m3 base n cap = (channel_at m base n cap)\<lparr>ch_slots := (ch_slots (channel_at m base n cap))
        [s := x\<lparr>sl_w2c := (sl_w2c x)\<lparr>rg_read := store (r + int k)\<rparr>\<rparr>]\<rparr>"
    using st(2) kept(2) by (simp add: set_lane_def x(1))
  moreover have "subarray b' d ?m3 = subarray b' d m" if "d \<le> base \<or> base + channelBytes n cap \<le> b'" "d \<le> dst \<or> dst + k \<le> b'" for b' d
    using st(3) got(3) [OF that(2)] that(1) by (auto simp: outside_same_def)
  ultimately show ?thesis by blast
qed

text \<open>A range from 2 GiB on, in a memory that has not grown to 4 GiB: the copy puts the bytes below it, by as much as the memory is short.\<close>

lemma copy_above_2GiB_goes_elsewhere:
  assumes "2 ^ 31 \<le> dst" "dst < length m" "length m < 2 ^ 32" "2 ^ 32 - dst \<le> length m" "a \<le> b" "b - a \<le> 2 ^ 32 - dst" "b \<le> length m"
  shows "copyWithin (Some (load (store (int dst)))) (Some (int a)) (Some (int b)) m = put (dst - (2 ^ 32 - length m)) (subarray a b m) m"
proof -
  have "store (int dst) = store (int dst - 2 ^ 32)" unfolding store_def word_of_int_eq_iff take_bit_eq_mod using minus_mod_self2 [of "int dst" "2 ^ 32"] by simp
  moreover have "load (store (int dst - 2 ^ 32)) = int dst - 2 ^ 32" using assms by (intro load_store) simp_all
  ultimately have d: "load (store (int dst)) = int dst - 2 ^ 32" by simp
  have "rel_index (length m) (Some (int dst - 2 ^ 32)) = dst - (2 ^ 32 - length m)" using assms by (simp add: rel_index_def)
  moreover have "rel_index (length m) (Some (int i)) = i" if "i \<le> length m" for i using that by (simp add: rel_index_def)
  ultimately show ?thesis unfolding d using assms by (simp add: copyWithin_def Let_def min_def)
qed

text \<open>The same memory with three bytes in the ring to the client, and a place for them behind the channel.\<close>

definition full_memory :: "byte list" where
  "full_memory = put 136 [5, 6, 7] (store_lane 80 3 (stub_memory @ replicate 8 0))"

lemma lane_append: "a + 4 \<le> length m \<Longrightarrow> mem_lane (m @ ys) a = mem_lane m a"
  by (simp add: mem_lane_def subarray_def)

lemma full_memory_channel: "channel_in full_memory 0 1 8" "length full_memory = 200"
  "sl_w2c (ch_slots (channel_at full_memory 0 1 8) ! 0) = \<lparr>rg_write = 3, rg_read = 0, rg_closed = 0, rg_data = [5, 6, 7, 0, 0, 0, 0, 0]\<rparr>"
proof -
  have n: "length stub_memory = 192" by (simp add: stub_memory_def)
  have c: "channel_in (stub_memory @ replicate 8 0) 0 1 8"
    using stub_memory_channel n hdr_lanes [of 0 stub_memory] hdr_lanes [of 0 "stub_memory @ replicate 8 0"]
    by (simp add: channel_in_def lane_append)
  let ?m = "store_lane 80 3 (stub_memory @ replicate 8 0)"
  have p: "mem_lane full_memory a = mem_lane ?m a" if "a + 4 \<le> 136" for a
    using that n subarray_put_other [of a 4 136 "[5, 6, 7]" ?m] by (simp add: mem_lane_def full_memory_def)
  have l: "mem_lane full_memory a = (if a = 80 then 3 else mem_lane stub_memory a)" if "a + 4 \<le> 136" "a \<noteq> 80 \<longrightarrow> a + 4 \<le> 80 \<or> 84 \<le> a" for a
    using that n by (auto simp: p lane_append)
  show len: "length full_memory = 200" using n by (simp add: full_memory_def length_put)
  have "vgi_hdr full_memory (int 0) = vgi_hdr (stub_memory @ replicate 8 0) (int 0)"
    using n len hdr_lanes [of 0 full_memory] hdr_lanes [of 0 "stub_memory @ replicate 8 0"] by (simp add: l lane_append)
  with c len n show "channel_in full_memory 0 1 8" by (simp add: channel_in_def)
  have "subarray 136 144 full_memory = [5, 6, 7] @ subarray 139 144 ?m"
    using n by (simp add: full_memory_def put_def subarray_def)
  also have "subarray 139 144 ?m = subarray 139 144 (stub_memory @ replicate 8 0)" using n by (intro subarray_store_lane) simp_all
  also have "\<dots> = subarray 139 144 stub_memory" using n by (simp add: subarray_def)
  also have "\<dots> = [0, 0, 0, 0, 0]" by (simp add: subarray_def stub_memory_def numeral_eq_Suc)
  finally show "sl_w2c (ch_slots (channel_at full_memory 0 1 8) ! 0) = \<lparr>rg_write = 3, rg_read = 0, rg_closed = 0, rg_data = [5, 6, 7, 0, 0, 0, 0, 0]\<rparr>"
    by (simp add: channel_at_slots slot_byte_def slot_at_def l stub_memory_lanes)
qed

theorem stub_read_takes_the_next_bytes_witness:
  "\<exists>m'. vgi_wasm_slot_read 0 0 192 2 id full_memory = (Inr 2, m') \<and> subarray 192 194 m' = [5, 6]"
proof -
  note f = full_memory_channel
  have b: "channelBytes 1 8 = 192" by (simp add: channelBytes_def slotStride_def alignUp_def SLOT_CONTROL_BYTES_def HEADER_BYTES_def)
  have "load (3 :: lane) = 3" by (simp add: load_def)
  moreover have "load (store 192) = 192" by (simp add: load_store)
  ultimately show ?thesis
    using stub_read_takes_the_next_bytes [OF f(1), of 0 "ch_slots (channel_at full_memory 0 1 8) ! 0" 0 3 2 2 192 id] f(2) b unfolding f(3)
    by (auto simp: ring_index_def js_rem_def upt_rec)
qed

section \<open>Waiting for the bridge\<close>

text \<open>\<open>seen k\<close> is what the flag of the ready buffer holds after \<open>k\<close> waits. A wait ends after a second or with a signal.\<close>

function ensure_wait :: "(nat \<Rightarrow> int) \<Rightarrow> nat \<Rightarrow> nat option" where
  "ensure_wait seen k = (if seen k \<noteq> 0 then Some k else if 1000 * Suc k \<ge> 30000 then None else ensure_wait seen (Suc k))"
  by pat_completeness auto
termination by (relation "measure (\<lambda>(_, k). 30 - k)") auto

declare ensure_wait.simps [simp del]

text \<open>The answer, the memory after it, and whether the page was asked.\<close>

definition vgi_wasm_ensure_worker :: "bool \<Rightarrow> (nat \<Rightarrow> int) \<Rightarrow> int \<Rightarrow> byte list \<Rightarrow> int res \<times> byte list \<times> bool" where
  "vgi_wasm_ensure_worker hasSharedArrayBuffer seen regionOffset m =
     (let readyLane = shr2 (Some regionOffset) + 7
      in case atomics_load readyLane m of
        (Inl e, m) \<Rightarrow> (Inl e, m, False)
      | (Inr ready, m) \<Rightarrow>
          if ready = 1 then (Inr 0, m, False)
          else if \<not> hasSharedArrayBuffer then (Inr (-1), m, False)
          else case ensure_wait seen 0 of
            None \<Rightarrow> (Inr (-1), m, True)
          | Some k \<Rightarrow> if seen k = 1
              then (case atomics_store readyLane 1 m of (Inl e, m) \<Rightarrow> (Inl e, m, True) | (Inr _, m) \<Rightarrow> (Inr 0, m, True))
              else (Inr (-1), m, True))"

lemma ensure_wait_signal:
  assumes "seen = (\<lambda>j. if j < t then 0 else v)" "v \<noteq> 0" "k \<le> t" "k \<le> 29"
  shows "ensure_wait seen k = (if t < 30 then Some t else None)"
  using assms(1,3,4)
proof (induction seen k rule: ensure_wait.induct)
  case (1 seen k)
  show ?case
  proof (cases "k = t")
    case True
    with 1(2-4) assms(2) show ?thesis by (subst ensure_wait.simps) simp
  next
    case False
    with 1(2,3) have z: "seen k = 0" "Suc k \<le> t" by simp_all
    show ?thesis
    proof (cases "k = 29")
      case True
      with z show ?thesis by (subst ensure_wait.simps) simp
    next
      case False
      with 1(4) have "\<not> 1000 * Suc k \<ge> 30000" by simp
      with 1(1) [OF _ this 1(2) z(2)] 1(4) False z(1) show ?thesis by (subst ensure_wait.simps) simp
    qed
  qed
qed

text \<open>A thread of the engine that asks for a worker is told that it is there exactly when some thread has seen that before, or the bridge
  says so within thirty waits; in every case it goes on after that. Once a thread has been told so, every later request of any thread for
  this channel has the same answer without the page being asked: nothing takes the flag back, not the end of the worker either.\<close>

theorem ensure_worker_answer:
  fixes seen :: "nat \<Rightarrow> int"
  assumes v: "v = 1 \<or> v = -1" and off: "64 dvd off" "off + 64 \<le> length m" "off < 2 ^ 31" and seen: "seen = (\<lambda>k. if k < t then 0 else v)"
  shows "vgi_wasm_ensure_worker True seen (int off) m
      = (if mem_lane m (off + 28) = 1 then (Inr 0, m, False)
         else if t < 30 \<and> v = 1 then (Inr 0, store_lane (off + 28) 1 m, True) else (Inr (-1), m, True))
    \<and> (\<forall>m' asked. vgi_wasm_ensure_worker True seen (int off) m = (Inr 0, m', asked)
         \<longrightarrow> (\<forall>shared later. vgi_wasm_ensure_worker shared later (int off) m' = (Inr 0, m', False)))"
proof -
  have lane: "atomics_load (shr2 (Some (int off)) + 7) x = (Inr (mem_lane x (off + 28)), x)"
    "atomics_store (shr2 (Some (int off)) + 7) w x = (Inr (), store_lane (off + 28) w x)" if "off + 64 \<le> length x" for x w
    using base_access [OF off(1) that off(3), of 7] by simp_all
  have "ensure_wait seen 0 = (if t < 30 then Some t else None)" using ensure_wait_signal [OF seen _, of 0] v by auto
  then have e: "vgi_wasm_ensure_worker True seen (int off) m
      = (if mem_lane m (off + 28) = 1 then (Inr 0, m, False)
         else if t < 30 \<and> v = 1 then (Inr 0, store_lane (off + 28) 1 m, True) else (Inr (-1), m, True))"
    using v off(2) by (simp add: vgi_wasm_ensure_worker_def Let_def lane seen)
  moreover have "mem_lane (store_lane (off + 28) 1 m) (off + 28) = 1" "length (store_lane (off + 28) 1 m) = length m"
    using off(2) by simp_all
  ultimately show ?thesis using off(2) by (auto simp: vgi_wasm_ensure_worker_def Let_def lane split: if_splits)
qed

theorem ensure_worker_answer_witness:
  "\<exists>m'. vgi_wasm_ensure_worker True (\<lambda>k. if k < 2 then 0 else 1) 0 stub_memory = (Inr 0, m', True)
    \<and> vgi_wasm_ensure_worker False (\<lambda>_. 0) 0 m' = (Inr 0, m', False)"
proof -
  have n: "0 + 64 \<le> length stub_memory" by (simp add: stub_memory_def)
  have "mem_lane stub_memory 28 = 0" by (simp add: stub_memory_def mem_lane_def subarray_def le_value_def)
  then show ?thesis using ensure_worker_answer [of 1 0 stub_memory "\<lambda>k. if k < 2 then 0 else 1" 2] n by auto
qed

section \<open>Random bytes\<close>

text \<open>\<open>crypto.getRandomValues\<close>, which gives as many bytes as it is asked for, but not more than 65536. The source is a parameter.\<close>

definition getRandomValues :: "(nat \<Rightarrow> 'u \<Rightarrow> byte list \<times> 'u) \<Rightarrow> nat \<Rightarrow> ('u, byte list) jsm" where
  "getRandomValues source n u = (if n > 65536 then (Inl (JsError ''QuotaExceededError'' ''The requested length exceeds 65536 bytes''), u)
     else (case source n u of (bs, u') \<Rightarrow> (Inr bs, u')))"

function random_chunks :: "(nat \<Rightarrow> 'u \<Rightarrow> byte list \<times> 'u) \<Rightarrow> nat \<Rightarrow> nat \<Rightarrow> ('u, byte list) jsm" where
  "random_chunks source len off =
     (if off < len
      then js_bind (getRandomValues source (min (off + 65536) len - off)) (\<lambda>bs.
           js_bind (random_chunks source len (off + 65536)) (\<lambda>rest. js_ret (bs @ rest)))
      else js_ret [])"
  by pat_completeness auto
termination by (relation "measure (\<lambda>(_, len, off). len - off)") auto

declare random_chunks.simps [simp del]

definition duckdb_wasm_crypto_random :: "(nat \<Rightarrow> 'u \<Rightarrow> byte list \<times> 'u) \<Rightarrow> int \<Rightarrow> nat \<Rightarrow> byte list \<times> 'u \<Rightarrow> unit res \<times> byte list \<times> 'u" where
  "duckdb_wasm_crypto_random source buf len mu = (case mu of (m, u) \<Rightarrow>
     (let buf = nat (buf mod 2 ^ 32)
      in case random_chunks source len 0 u of
        (Inl e, u) \<Rightarrow> (Inl e, m, u)
      | (Inr tmp, u) \<Rightarrow> if length m < buf + length tmp then (Inl (RangeError ''offset is out of bounds''), m, u) else (Inr (), put buf tmp m, u)))"

text \<open>What the source gives for a length, piece after piece.\<close>

fun drawn :: "(nat \<Rightarrow> 'u \<Rightarrow> byte list \<times> 'u) \<Rightarrow> nat list \<Rightarrow> 'u \<Rightarrow> byte list \<times> 'u" where
  "drawn source [] u = ([], u)"
| "drawn source (n # ns) u = (case source n u of (xs, u') \<Rightarrow> case drawn source ns u' of (ys, u'') \<Rightarrow> (xs @ ys, u''))"

fun pieces :: "nat \<Rightarrow> nat list" where
  "pieces n = (if n = 0 then [] else if n \<le> 65536 then [n] else 65536 # pieces (n - 65536))"

declare pieces.simps [simp del]

lemma random_chunks_drawn: "random_chunks source len off u = (case drawn source (pieces (len - off)) u of (bs, u') \<Rightarrow> (Inr bs, u'))"
proof (induction source len off arbitrary: u rule: random_chunks.induct)
  case (1 source len off)
  show ?case
  proof (cases "off < len")
    case False
    then show ?thesis by (subst random_chunks.simps) (simp add: pieces.simps [of 0] js_ret_def)
  next
    case True
    let ?n = "min (off + 65536) len - off"
    have p: "pieces (len - off) = ?n # pieces (len - (off + 65536))"
      using True by (subst pieces.simps) (auto simp: min_def pieces.simps [of 0])
    obtain bs u1 where b: "source ?n u = (bs, u1)" by force
    have q: "\<not> ?n > 65536" by simp
    show ?thesis using True 1 [OF True, of u1] b q
      by (subst random_chunks.simps) (simp add: p getRandomValues_def js_bind_def js_ret_def split: prod.splits)
  qed
qed

text \<open>The stub fills the range it is given with what the source has drawn, whatever the length of the range: no piece exceeds what the
  source allows, an address in the upper half of the memory counts as such, and nothing else is changed.\<close>

theorem random_fills_the_range:
  assumes src: "\<And>n u. length (fst (source n u)) = n" and room: "nat (buf mod 2 ^ 32) + len \<le> length m"
  shows "\<exists>m'. duckdb_wasm_crypto_random source buf len (m, u) = (Inr (), m', snd (drawn source (pieces len) u))
    \<and> subarray (nat (buf mod 2 ^ 32)) (nat (buf mod 2 ^ 32) + len) m' = fst (drawn source (pieces len) u)
    \<and> length m' = length m
    \<and> (\<forall>b n. b + n \<le> nat (buf mod 2 ^ 32) \<or> nat (buf mod 2 ^ 32) + len \<le> b \<longrightarrow> subarray b (b + n) m' = subarray b (b + n) m)"
proof -
  have sum: "length (fst (drawn source ns u)) = sum_list ns" for ns u
  proof (induction ns arbitrary: u)
    case (Cons n ns)
    obtain xs u' where x: "source n u = (xs, u')" by force
    then have "length xs = n" using src [of n u] by simp
    with x Cons [of u'] show ?case by (cases "drawn source ns u'") simp
  qed simp
  have "sum_list (pieces n) = n" for n
    by (induction n rule: pieces.induct) (subst pieces.simps, simp)
  then have len: "length (fst (drawn source (pieces len) u)) = len" using sum by simp
  obtain bs u' where d: "drawn source (pieces len) u = (bs, u')" by force
  have r: "random_chunks source len 0 u = (Inr bs, u')" using random_chunks_drawn [of source len 0 u] d by simp
  have n: "length bs = len" using len d by simp
  have "duckdb_wasm_crypto_random source buf len (m, u) = (Inr (), put (nat (buf mod 2 ^ 32)) bs m, u')"
    using r n room by (simp add: duckdb_wasm_crypto_random_def Let_def)
  then show ?thesis using subarray_put [of "nat (buf mod 2 ^ 32)" bs m] subarray_put_other [of _ _ "nat (buf mod 2 ^ 32)" bs m]
      length_put [of "nat (buf mod 2 ^ 32)" bs m] n room d by auto
qed

theorem random_fills_the_range_witness:
  "\<exists>m'. duckdb_wasm_crypto_random (\<lambda>n u. (replicate n 9, Suc u)) 1 2 ([0, 0, 0, 0], 0) = (Inr (), m', 1) \<and> subarray 1 3 m' = [9, 9]"
proof -
  have "replicate 2 (9 :: byte) = [9, 9]" by (simp add: numeral_2_eq_2)
  moreover have "pieces 2 = [2]" by (simp add: pieces.simps)
  ultimately show ?thesis using random_fills_the_range [of "\<lambda>n u. (replicate n 9, Suc u)" 1 2 "[0, 0, 0, 0]" 0] by (auto simp: eval_nat_numeral)
qed

section \<open>Texts for the engine\<close>

text \<open>A block with the text and a zero at its end; 0 when there is no text or no memory.\<close>

definition new_c_string :: "'e wasm \<Rightarrow> string \<Rightarrow> 'e \<Rightarrow> nat \<times> 'e" where
  "new_c_string W s e = (case w_malloc W (length (text_encode s) + 1) e of
     (buf, e) \<Rightarrow> if buf = 0 then (0, e) else (buf, w_setHEAPU8 W buf (text_encode s @ [0]) e))"

definition duckdb_wasm_get_auth_error :: "'e wasm \<Rightarrow> string \<Rightarrow> 'e \<Rightarrow> nat \<times> 'e" where
  "duckdb_wasm_get_auth_error W auth_error e = (if auth_error = [] then (0, e) else new_c_string W auth_error e)"

definition duckdb_wasm_get_page_origin :: "'e wasm \<Rightarrow> string option \<Rightarrow> string option \<Rightarrow> 'e \<Rightarrow> nat \<times> 'e" where
  "duckdb_wasm_get_page_origin W duckdb_page_origin location_origin e =
     (let origin = (case duckdb_page_origin of
            Some given \<Rightarrow> if given \<noteq> [] then given else (case location_origin of Some l \<Rightarrow> l | None \<Rightarrow> [])
          | None \<Rightarrow> (case location_origin of Some l \<Rightarrow> l | None \<Rightarrow> []))
      in if origin = [] \<or> origin = ''null'' \<or> starts_with ''blob:'' origin then (0, e) else new_c_string W origin e)"

end
