(* ===== verification/Hb_SqlTypes.thy ===== *)
theory Hb_SqlTypes
  imports Hb_Types
begin

text \<open>
  The types of the columns of an insert and of the results of scalar functions: \<open>arrowToSQLType\<close> (\<open>json_typedef.ts\<close>) describes an
  Arrow type by a name and attributes, and \<open>SQLToArrowType\<close> of the engine (\<open>lib/src/json_typedef.cc\<close>) reads the description. Here is that
  reader, and the theorem that what it reads is the type that was described.
\<close>

section \<open>The engine's types\<close>

text \<open>The Arrow types of the engine: numbers of bits for integers (signed or not) and floats, and \<open>smallest_decimal\<close> of a precision and scale.\<close>

datatype engine_type =
    ET_Null | ET_Binary | ET_LargeBinary | ET_Utf8 | ET_LargeUtf8 | ET_Bool
  | ET_Int bool nat
  | ET_Float nat
  | ET_Decimal int int | ET_Decimal128 int int | ET_Decimal256 int int
  | ET_Date32 | ET_Date64
  | ET_Time32 time_unit | ET_Time64 time_unit
  | ET_Timestamp time_unit "string option"
  | ET_Duration time_unit
  | ET_DayTimeInterval | ET_MonthInterval
  | ET_FixedSizeBinary nat
  | ET_List engine_type
  | ET_Struct "(string \<times> engine_type) list"
  | ET_Map engine_type engine_type

section \<open>The engine's reader\<close>

text \<open>The names that stand for a type on their own.\<close>

definition plain_names :: "(string \<times> engine_type) list" where
  "plain_names = [
     (''binary'', ET_Binary), (''bool'', ET_Bool), (''boolean'', ET_Bool), (''date'', ET_Date64), (''date32'', ET_Date32),
     (''date32[d]'', ET_Date32), (''date64'', ET_Date64), (''date64[ms]'', ET_Date64), (''daytimeinterval'', ET_DayTimeInterval),
     (''double'', ET_Float 64), (''duration'', ET_Duration Millisecond), (''duration[ms]'', ET_Duration Millisecond),
     (''duration[ns]'', ET_Duration Nanosecond), (''duration[s]'', ET_Duration Second), (''duration[us]'', ET_Duration Microsecond),
     (''float'', ET_Float 32), (''float16'', ET_Float 16), (''float32'', ET_Float 32), (''float64'', ET_Float 64), (''halffloat'', ET_Float 16),
     (''int16'', ET_Int True 16), (''int32'', ET_Int True 32), (''int64'', ET_Int True 64), (''int8'', ET_Int True 8),
     (''interval[dt]'', ET_DayTimeInterval), (''interval[m]'', ET_MonthInterval), (''largebinary'', ET_LargeBinary), (''largeutf8'', ET_LargeUtf8),
     (''monthinterval'', ET_MonthInterval), (''null'', ET_Null), (''string'', ET_Utf8), (''time'', ET_Time32 Second),
     (''time32[ms]'', ET_Time32 Millisecond), (''time32[s]'', ET_Time32 Second), (''time64[ns]'', ET_Time64 Nanosecond),
     (''time64[us]'', ET_Time64 Microsecond), (''time[ms]'', ET_Time32 Millisecond), (''time[ns]'', ET_Time64 Nanosecond),
     (''time[s]'', ET_Time32 Second), (''time[us]'', ET_Time64 Microsecond), (''uint16'', ET_Int False 16), (''uint32'', ET_Int False 32),
     (''uint64'', ET_Int False 64), (''uint8'', ET_Int False 8), (''utf8'', ET_Utf8)]"

definition timestamp_names :: "(string \<times> time_unit) list" where
  "timestamp_names = [(''timestamp'', Second), (''timestamp[s]'', Second), (''timestamp[ms]'', Millisecond), (''timestamp[us]'', Microsecond),
     (''timestamp[ns]'', Nanosecond)]"

definition tolower :: "char \<Rightarrow> char" where
  "tolower c = (if 65 \<le> (of_char c :: nat) \<and> (of_char c :: nat) \<le> 90 then char_of ((of_char c :: nat) + 32) else c)"

text \<open>A text of the document as C++ takes it for a time zone: up to a zero character.\<close>

definition c_string :: "string \<Rightarrow> string" where
  "c_string = takeWhile (\<lambda>c. c \<noteq> CHR 0x00)"

definition read_decimal :: "(int \<Rightarrow> int \<Rightarrow> engine_type) \<Rightarrow> int \<Rightarrow> int \<Rightarrow> engine_type option" where
  "read_decimal decimal p s = (if p \<le> 0 \<or> s < 0 then None else Some (decimal p s))"

text \<open>\<open>SQLToArrowType\<close>; None is \<open>Status::Invalid\<close>. A description has no \<open>listSize\<close> and no \<open>mode\<close>, so that fixed-size lists and unions are
  always refused; a missing type of keys or values, which \<open>arrowToSQLType\<close> never leaves out, is undefined behaviour in the source and an error here.\<close>

function SQLToArrowType :: "SQLType \<Rightarrow> engine_type option"
  and SQLToArrowFields :: "SQLField list \<Rightarrow> (string \<times> engine_type) list option"
where
  "SQLToArrowType (SQLType name p s tz width key val fs) =
     (let n = map tolower name in
      case map_of plain_names n of Some t \<Rightarrow> Some t
      | None \<Rightarrow> (case map_of timestamp_names n of Some u \<Rightarrow> Some (ET_Timestamp u (map_option c_string tz))
      | None \<Rightarrow>
          if n = ''decimal'' then read_decimal ET_Decimal (case p of None \<Rightarrow> 0 | Some i \<Rightarrow> i) (case s of None \<Rightarrow> 0 | Some i \<Rightarrow> i)
          else if n = ''decimal128'' then read_decimal ET_Decimal128 (case p of None \<Rightarrow> 0 | Some i \<Rightarrow> i) (case s of None \<Rightarrow> 0 | Some i \<Rightarrow> i)
          else if n = ''decimal256'' then read_decimal ET_Decimal256 (case p of None \<Rightarrow> 12 | Some i \<Rightarrow> i) (case s of None \<Rightarrow> 2 | Some i \<Rightarrow> i)
          else if n = ''fixedsizebinary'' then (case width of None \<Rightarrow> None | Some w \<Rightarrow> if w = 0 then None else Some (ET_FixedSizeBinary w))
          else if n = ''list'' then (case val of None \<Rightarrow> None | Some v \<Rightarrow> map_option ET_List (SQLToArrowType v))
          else if n = ''map'' then (case key of None \<Rightarrow> None | Some k \<Rightarrow> (case SQLToArrowType k of None \<Rightarrow> None | Some kt \<Rightarrow>
                 (case val of None \<Rightarrow> None | Some v \<Rightarrow> map_option (ET_Map kt) (SQLToArrowType v))))
          else if n = ''struct'' then (case fs of None \<Rightarrow> None | Some cs \<Rightarrow> map_option ET_Struct (SQLToArrowFields cs))
          else None))"
| "SQLToArrowFields [] = Some []"
| "SQLToArrowFields ((n, t) # cs) =
     (case SQLToArrowType t of None \<Rightarrow> None | Some et \<Rightarrow>
        if n = '''' then None else map_option (\<lambda>es. (n, et) # es) (SQLToArrowFields cs))"
  by pat_completeness auto
termination
  by (relation "measure (case_sum size (size_list (size_prod (\<lambda>_. 0) size)))") auto

section \<open>What is described is read\<close>

text \<open>The type of the engine that an Arrow type of the client stands for. Those whose id leaves the width or unit open have a fixed one. The engine
  refuses a decimal without digits, a width of 0 and a child without a name.\<close>

fun time_type :: "time_unit \<Rightarrow> engine_type" where
  "time_type Second = ET_Time32 Second"
| "time_type Millisecond = ET_Time32 Millisecond"
| "time_type Microsecond = ET_Time64 Microsecond"
| "time_type Nanosecond = ET_Time64 Nanosecond"

fun stands_for :: "arrow_type \<Rightarrow> engine_type option"
  and fields_stand_for :: "(string \<times> arrow_type) list \<Rightarrow> (string \<times> engine_type) list option"
where
  "stands_for AT_Binary = Some ET_Binary"
| "stands_for AT_Bool = Some ET_Bool"
| "stands_for AT_Date = Some ET_Date64"
| "stands_for AT_DateDay = Some ET_Date32"
| "stands_for AT_DateMillisecond = Some ET_Date64"
| "stands_for (AT_Decimal p s) = (if 0 < p \<and> 0 \<le> s then Some (ET_Decimal p s) else None)"
| "stands_for AT_Float = Some (ET_Float 32)"
| "stands_for AT_Float16 = Some (ET_Float 16)"
| "stands_for AT_Float32 = Some (ET_Float 32)"
| "stands_for AT_Float64 = Some (ET_Float 64)"
| "stands_for AT_Int = Some (ET_Int True 32)"
| "stands_for AT_Int16 = Some (ET_Int True 16)"
| "stands_for AT_Int32 = Some (ET_Int True 32)"
| "stands_for AT_Int64 = Some (ET_Int True 64)"
| "stands_for AT_Uint8 = Some (ET_Int False 8)"
| "stands_for AT_Uint16 = Some (ET_Int False 16)"
| "stands_for AT_Uint32 = Some (ET_Int False 32)"
| "stands_for AT_Uint64 = Some (ET_Int False 64)"
| "stands_for AT_IntervalDayTime = Some ET_DayTimeInterval"
| "stands_for AT_IntervalYearMonth = Some ET_MonthInterval"
| "stands_for (AT_FixedSizeBinary w) = (if w = 0 then None else Some (ET_FixedSizeBinary w))"
| "stands_for AT_Null = Some ET_Null"
| "stands_for AT_Utf8 = Some ET_Utf8"
| "stands_for (AT_Time u) = Some (time_type (case u of None \<Rightarrow> Second | Some v \<Rightarrow> v))"
| "stands_for (AT_Timestamp u tz) = Some (ET_Timestamp (case u of None \<Rightarrow> Second | Some v \<Rightarrow> v)
     (case tz of None \<Rightarrow> None | Some z \<Rightarrow> if z = [] then None else Some (c_string z)))"
| "stands_for (AT_List v) = map_option ET_List (stands_for v)"
| "stands_for (AT_Struct cs) = map_option ET_Struct (fields_stand_for cs)"
| "stands_for (AT_Map k v) = (case (stands_for k, stands_for v) of (Some kt, Some vt) \<Rightarrow> Some (ET_Map kt vt) | _ \<Rightarrow> None)"
| "stands_for (AT_Other s) = None"
| "fields_stand_for [] = Some []"
| "fields_stand_for ((n, t) # cs) =
     (case (stands_for t, fields_stand_for cs) of (Some et, Some es) \<Rightarrow> if n = [] then None else Some ((n, et) # es) | _ \<Rightarrow> None)"

text \<open>The type ids that \<open>arrowToSQLType\<close> does not list, at any depth.\<close>

fun unlisted :: "arrow_type \<Rightarrow> bool" where
  "unlisted (AT_Other s) = True"
| "unlisted (AT_List v) = unlisted v"
| "unlisted (AT_Struct cs) = list_ex (\<lambda>(n, t). unlisted t) cs"
| "unlisted (AT_Map k v) = (unlisted k \<or> unlisted v)"
| "unlisted _ = False"

definition read_description :: "('a \<Rightarrow> 'b option) \<Rightarrow> 'a res \<Rightarrow> 'b option" where
  "read_description f r = (case r of Inl e \<Rightarrow> None | Inr t \<Rightarrow> f t)"

lemma lowered:
  "map tolower ''binary'' = ''binary''"
  "map tolower ''bool'' = ''bool''"
  "map tolower ''date'' = ''date''"
  "map tolower ''date32[d]'' = ''date32[d]''"
  "map tolower ''date64[ms]'' = ''date64[ms]''"
  "map tolower ''decimal'' = ''decimal''"
  "map tolower ''float'' = ''float''"
  "map tolower ''float16'' = ''float16''"
  "map tolower ''float32'' = ''float32''"
  "map tolower ''float64'' = ''float64''"
  "map tolower ''int32'' = ''int32''"
  "map tolower ''int16'' = ''int16''"
  "map tolower ''int64'' = ''int64''"
  "map tolower ''uint16'' = ''uint16''"
  "map tolower ''uint32'' = ''uint32''"
  "map tolower ''uint64'' = ''uint64''"
  "map tolower ''uint8'' = ''uint8''"
  "map tolower ''interval[dt]'' = ''interval[dt]''"
  "map tolower ''interval[m]'' = ''interval[m]''"
  "map tolower ''list'' = ''list''"
  "map tolower ''fixedsizebinary'' = ''fixedsizebinary''"
  "map tolower ''null'' = ''null''"
  "map tolower ''utf8'' = ''utf8''"
  "map tolower ''struct'' = ''struct''"
  "map tolower ''map'' = ''map''"
  "map tolower ''time[s]'' = ''time[s]''"
  "map tolower ''time[us]'' = ''time[us]''"
  "map tolower ''time[ms]'' = ''time[ms]''"
  "map tolower ''time[ns]'' = ''time[ns]''"
  "map tolower ''timestamp'' = ''timestamp''"
  "map tolower ''timestamp[s]'' = ''timestamp[s]''"
  "map tolower ''timestamp[us]'' = ''timestamp[us]''"
  "map tolower ''timestamp[ns]'' = ''timestamp[ns]''"
  "map tolower ''timestamp[ms]'' = ''timestamp[ms]''"
  by code_simp+

lemma looked_up:
  "map_of plain_names ''binary'' = Some ET_Binary"
  "map_of plain_names ''bool'' = Some ET_Bool"
  "map_of plain_names ''date'' = Some ET_Date64"
  "map_of plain_names ''date32[d]'' = Some ET_Date32"
  "map_of plain_names ''date64[ms]'' = Some ET_Date64"
  "map_of plain_names ''float'' = Some (ET_Float 32)"
  "map_of plain_names ''float16'' = Some (ET_Float 16)"
  "map_of plain_names ''float32'' = Some (ET_Float 32)"
  "map_of plain_names ''float64'' = Some (ET_Float 64)"
  "map_of plain_names ''int32'' = Some (ET_Int True 32)"
  "map_of plain_names ''int16'' = Some (ET_Int True 16)"
  "map_of plain_names ''int64'' = Some (ET_Int True 64)"
  "map_of plain_names ''uint16'' = Some (ET_Int False 16)"
  "map_of plain_names ''uint32'' = Some (ET_Int False 32)"
  "map_of plain_names ''uint64'' = Some (ET_Int False 64)"
  "map_of plain_names ''uint8'' = Some (ET_Int False 8)"
  "map_of plain_names ''interval[dt]'' = Some ET_DayTimeInterval"
  "map_of plain_names ''interval[m]'' = Some ET_MonthInterval"
  "map_of plain_names ''null'' = Some ET_Null"
  "map_of plain_names ''utf8'' = Some ET_Utf8"
  "map_of plain_names ''decimal'' = None" "map_of timestamp_names ''decimal'' = None"
  "map_of plain_names ''fixedsizebinary'' = None" "map_of timestamp_names ''fixedsizebinary'' = None"
  "map_of plain_names ''list'' = None" "map_of timestamp_names ''list'' = None"
  "map_of plain_names ''map'' = None" "map_of timestamp_names ''map'' = None"
  "map_of plain_names ''struct'' = None" "map_of timestamp_names ''struct'' = None"
  by code_simp+

lemma plain_read:
  "map_of plain_names (map tolower n) = Some t \<Longrightarrow> SQLToArrowType (SQLType n p s tz w k v f) = Some t"
  by simp

lemma time_names:
  "map_of plain_names (map tolower (time_name None)) = Some (ET_Time32 Second)"
  "map_of plain_names (map tolower (time_name (Some Second))) = Some (ET_Time32 Second)"
  "map_of plain_names (map tolower (time_name (Some Millisecond))) = Some (ET_Time32 Millisecond)"
  "map_of plain_names (map tolower (time_name (Some Microsecond))) = Some (ET_Time64 Microsecond)"
  "map_of plain_names (map tolower (time_name (Some Nanosecond))) = Some (ET_Time64 Nanosecond)"
  by code_simp+

lemma timestamp_names_plain:
  "map_of plain_names (map tolower (timestamp_name None)) = None"
  "map_of plain_names (map tolower (timestamp_name (Some Second))) = None"
  "map_of plain_names (map tolower (timestamp_name (Some Millisecond))) = None"
  "map_of plain_names (map tolower (timestamp_name (Some Microsecond))) = None"
  "map_of plain_names (map tolower (timestamp_name (Some Nanosecond))) = None"
  "map_of timestamp_names (map tolower (timestamp_name None)) = Some Second"
  "map_of timestamp_names (map tolower (timestamp_name (Some Second))) = Some Second"
  "map_of timestamp_names (map tolower (timestamp_name (Some Millisecond))) = Some Millisecond"
  "map_of timestamp_names (map tolower (timestamp_name (Some Microsecond))) = Some Microsecond"
  "map_of timestamp_names (map tolower (timestamp_name (Some Nanosecond))) = Some Nanosecond"
  by code_simp+

lemma time_read: "map_of plain_names (map tolower (time_name u)) = Some (time_type (case u of None \<Rightarrow> Second | Some v \<Rightarrow> v))"
proof (cases u)
  case (Some v)
  then show ?thesis by (cases v) (simp_all only: time_names option.case time_type.simps)
qed (simp only: time_names option.case time_type.simps)

lemma timestamp_read:
  "map_of plain_names (map tolower (timestamp_name u)) = None"
  "map_of timestamp_names (map tolower (timestamp_name u)) = Some (case u of None \<Rightarrow> Second | Some v \<Rightarrow> v)"
proof -
  consider "u = None" | "u = Some Second" | "u = Some Millisecond" | "u = Some Microsecond" | "u = Some Nanosecond"
    by (cases u) (metis time_unit.exhaust option.collapse)+
  then have "map_of plain_names (map tolower (timestamp_name u)) = None
    \<and> map_of timestamp_names (map tolower (timestamp_name u)) = Some (case u of None \<Rightarrow> Second | Some v \<Rightarrow> v)"
    by cases (simp_all only: timestamp_names_plain option.case simp_thms)
  then show "map_of plain_names (map tolower (timestamp_name u)) = None"
    "map_of timestamp_names (map tolower (timestamp_name u)) = Some (case u of None \<Rightarrow> Second | Some v \<Rightarrow> v)" by blast+
qed

lemma descriptions_read:
  "read_description SQLToArrowType (arrowToSQLType ty) = stands_for ty"
  "read_description SQLToArrowFields (arrowToSQLFields cs) = fields_stand_for cs"
  by (induction ty and cs rule: arrowToSQLType_arrowToSQLFields.induct)
    (auto simp add: read_description_def lowered looked_up time_read timestamp_read read_decimal_def timezone_or_undefined_def Let_def
      simp del: list.map(2) split: sum.splits option.splits)

lemma described_listed:
  "(\<exists>e. arrowToSQLType ty = Inl e) \<longleftrightarrow> unlisted ty"
  "(\<exists>e. arrowToSQLFields cs = Inl e) \<longleftrightarrow> list_ex (\<lambda>(n, t). unlisted t) cs"
  by (induction ty and cs rule: arrowToSQLType_arrowToSQLFields.induct) (auto split: sum.splits)


end
