(* ===== verification/Hb_History.thy ===== *)
theory Hb_History
  imports Hb_Prelude
begin

text \<open>
  \<open>packages/duckdb-wasm-shell/src/utils/history_store.ts\<close>: the history of the shell, kept in IndexedDB as a ring of 1024 entries, and
  \<open>load_history\<close> of the shell (\<open>crate/src/shell.rs\<close>), which turns what \<open>load\<close> returns into a history again. A request to
  IndexedDB is granted or refused by the browser; two transactions on the same stores run in the order they were made, so that a
  \<open>push\<close> is one step.
\<close>

section \<open>IndexedDB\<close>

record log_entry =
  le_key :: nat
  le_when :: nat
  le_input :: string

record log_info =
  li_key :: nat
  li_nextEntryKey :: nat
  li_entryCount :: nat

text \<open>A database with its object stores, if they exist; the objects of a store in the order of their keys. A database of the version the store asks for
  has both: only \<open>createSchema\<close> makes one.\<close>

record idb =
  db_version :: nat
  db_LOG_INFO :: "log_info list option"
  db_LOG_ENTRIES :: "log_entry list option"

datatype answer = Granted | Refused

fun store_put :: "('a \<Rightarrow> nat) \<Rightarrow> 'a \<Rightarrow> 'a list \<Rightarrow> 'a list" where
  "store_put key x [] = [x]"
| "store_put key x (y # ys) = (if key x < key y then x # y # ys else if key x = key y then x # ys else y # store_put key x ys)"

fun store_get :: "('a \<Rightarrow> nat) \<Rightarrow> nat \<Rightarrow> 'a list \<Rightarrow> 'a option" where
  "store_get key k [] = None"
| "store_get key k (y # ys) = (if key y = k then Some y else store_get key k ys)"

section \<open>The store\<close>

definition DB_VERSION :: nat where
  "DB_VERSION = 4"

definition HISTORY_SIZE_SHIFT :: nat where
  "HISTORY_SIZE_SHIFT = 10"

abbreviation history_size :: nat where
  "history_size \<equiv> 2 ^ HISTORY_SIZE_SHIFT"

text \<open>The object and, in \<open>hs_disk\<close>, the database of the origin. \<open>hs_opening\<close>: the success of an opening that had to create the schema is still to
  come. The promise of \<open>open\<close> settles before it, with the transaction of the upgrade.\<close>

record history_store =
  hs_disk :: "idb option"
  hs_idb :: bool
  hs_opening :: bool
  hs_nextEntryKey :: nat
  hs_entryCount :: nat

definition HistoryStore :: "idb option \<Rightarrow> history_store" where
  "HistoryStore disk = \<lparr>hs_disk = disk, hs_idb = False, hs_opening = False, hs_nextEntryKey = 0, hs_entryCount = 0\<rparr>"

definition createSchema :: "idb \<Rightarrow> idb" where
  "createSchema d =
     (let d = (if db_LOG_INFO d \<noteq> None then d\<lparr>db_LOG_INFO := None\<rparr> else d);
          d = (if db_LOG_ENTRIES d \<noteq> None then d\<lparr>db_LOG_ENTRIES := None\<rparr> else d)
      in d\<lparr>db_LOG_INFO := Some [], db_LOG_ENTRIES := Some []\<rparr>)"

definition loadMetadata :: "answer \<Rightarrow> history_store \<Rightarrow> history_store" where
  "loadMetadata a s =
     (if \<not> hs_idb s then s
      else let entry = (case (a, hs_disk s) of
                 (Granted, Some d) \<Rightarrow> (case db_LOG_INFO d of Some infos \<Rightarrow> store_get li_key 0 infos | None \<Rightarrow> None)
               | _ \<Rightarrow> None)
           in s\<lparr>hs_nextEntryKey := (case entry of Some e \<Rightarrow> li_nextEntryKey e | None \<Rightarrow> 0),
                hs_entryCount := (case entry of Some e \<Rightarrow> li_entryCount e | None \<Rightarrow> 0)\<rparr>)"

definition history_open :: "answer \<Rightarrow> answer \<Rightarrow> history_store \<Rightarrow> history_store" where
  "history_open a get s =
     (case a of Refused \<Rightarrow> loadMetadata get s
      | Granted \<Rightarrow>
         (let d = (case hs_disk s of Some d \<Rightarrow> d | None \<Rightarrow> \<lparr>db_version = 0, db_LOG_INFO = None, db_LOG_ENTRIES = None\<rparr>)
          in if DB_VERSION < db_version d then loadMetadata get s
             else if db_version d < DB_VERSION
             then loadMetadata get (s\<lparr>hs_disk := Some ((createSchema d)\<lparr>db_version := DB_VERSION\<rparr>), hs_opening := True\<rparr>)
             else loadMetadata get (s\<lparr>hs_idb := True\<rparr>)))"

definition open_succeeds :: "history_store \<Rightarrow> history_store" where
  "open_succeeds s = (if hs_opening s then s\<lparr>hs_idb := True, hs_opening := False\<rparr> else s)"

definition history_load :: "answer \<Rightarrow> history_store \<Rightarrow> (string list \<times> nat) res" where
  "history_load a s =
     (if hs_entryCount s = 0 then Inr ([], 0)
      else if \<not> hs_idb s then Inl (TypeError ''Cannot read properties of null'')
      else case (a, hs_disk s) of
         (Granted, Some d) \<Rightarrow> (case db_LOG_ENTRIES d of
             Some es \<Rightarrow> Inr (map le_input es, min (hs_nextEntryKey s) history_size)
           | None \<Rightarrow> Inl (JsError ''NotFoundError'' []))
       | _ \<Rightarrow> Inl (JsError ''AbortError'' []))"

definition history_push :: "answer \<Rightarrow> nat \<Rightarrow> string \<Rightarrow> (history_store, unit) jsm" where
  "history_push a now input s =
     (if \<not> hs_idb s then (Inr (), s)
      else let entryKey = hs_nextEntryKey s mod history_size;
               s = s\<lparr>hs_nextEntryKey := hs_nextEntryKey s + 1, hs_entryCount := min (hs_entryCount s + 1) history_size\<rparr>
           in case (a, hs_disk s) of
                (Granted, Some d) \<Rightarrow> (case (db_LOG_INFO d, db_LOG_ENTRIES d) of
                    (Some infos, Some es) \<Rightarrow>
                      (Inr (), s\<lparr>hs_disk := Some (d\<lparr>
                         db_LOG_ENTRIES := Some (store_put le_key \<lparr>le_key = entryKey, le_when = now, le_input = input\<rparr> es),
                         db_LOG_INFO := Some (store_put li_key
                           \<lparr>li_key = 0, li_nextEntryKey = hs_nextEntryKey s, li_entryCount = hs_entryCount s\<rparr> infos)\<rparr>)\<rparr>)
                  | _ \<Rightarrow> (Inl (JsError ''NotFoundError'' []), s))
              | _ \<Rightarrow> (Inl (JsError ''AbortError'' []), s))"

definition history_reset :: "answer \<Rightarrow> answer \<Rightarrow> history_store \<Rightarrow> history_store" where
  "history_reset a get s = history_open a get (s\<lparr>hs_idb := False, hs_disk := None\<rparr>)"

text \<open>\<open>Shell::load_history\<close>: the entries from the cursor on and then those before it; slicing outside of the vector panics (None).\<close>

definition shell_load_history :: "string list \<Rightarrow> nat \<Rightarrow> string list option" where
  "shell_load_history history cursor = (if cursor \<le> length history then Some (drop cursor history @ take cursor history) else None)"

section \<open>A ring of entries\<close>

text \<open>What the store holds after the inputs \<open>xs\<close>: for a ring of \<open>n\<close> places, the \<open>i\<close>-th input is at place \<open>i mod n\<close>.\<close>

fun ring_insert :: "nat \<Rightarrow> nat \<Rightarrow> 'a \<Rightarrow> 'a list \<Rightarrow> 'a list" where
  "ring_insert n i x ys = (if i mod n < length ys then ys[i mod n := x] else ys @ [x])"

definition ring_fill :: "nat \<Rightarrow> 'a list \<Rightarrow> 'a list" where
  "ring_fill n xs = fold (\<lambda>(i, x) ys. ring_insert n i x ys) (List.enumerate 0 xs) []"

lemma ring_fill_Nil [simp]: "ring_fill n [] = []"
  by (simp add: ring_fill_def)

lemma ring_fill_snoc: "ring_fill n (xs @ [x]) = ring_insert n (length xs) x (ring_fill n xs)"
  by (simp add: ring_fill_def enumerate_append_eq)

lemma ring_fill_partial: "length xs \<le> n \<Longrightarrow> ring_fill n xs = xs"
  by (induction xs rule: rev_induct) (simp_all add: ring_fill_snoc)

lemma rotated_update:
  assumes "p < length ys"
  shows "drop (Suc p) (ys[p := x]) @ take (Suc p) (ys[p := x]) = tl (drop p ys @ take p ys) @ [x]"
  using assms by (simp add: take_Suc_conv_app_nth tl_append Cons_nth_drop_Suc [symmetric])

text \<open>Turned by the place of the next entry, a full ring gives the last inputs in order.\<close>

lemma ring_fill_recent:
  assumes "0 < n" "n \<le> length xs"
  shows "length (ring_fill n xs) = n"
    "drop (length xs mod n) (ring_fill n xs) @ take (length xs mod n) (ring_fill n xs) = drop (length xs - n) xs"
proof -
  have "length (ring_fill n xs) = n \<and>
      drop (length xs mod n) (ring_fill n xs) @ take (length xs mod n) (ring_fill n xs) = drop (length xs - n) xs"
    using assms(2)
  proof (induction xs rule: rev_induct)
    case Nil
    with assms(1) show ?case by simp
  next
    case (snoc x xs)
    show ?case
    proof (cases "length xs < n")
      case True
      with snoc.prems have "length (xs @ [x]) = n" by simp
      moreover from this have "ring_fill n (xs @ [x]) = xs @ [x]" by (intro ring_fill_partial) simp
      ultimately show ?thesis by simp
    next
      case False
      note big = this
      define p ys where "p = length xs mod n" and "ys = ring_fill n xs"
      have p: "p < n" using assms(1) by (simp add: p_def)
      have ys: "length ys = n" "drop p ys @ take p ys = drop (length xs - n) xs" using snoc.IH False by (simp_all add: ys_def p_def)
      have fill: "ring_fill n (xs @ [x]) = ys[p := x]" using p ys(1) by (simp add: ring_fill_snoc ys_def p_def)
      have "drop (Suc p) (ys[p := x]) @ take (Suc p) (ys[p := x]) = tl (drop (length xs - n) xs) @ [x]"
        using rotated_update [of p ys x] p ys by simp
      also have "\<dots> = drop (length (xs @ [x]) - n) (xs @ [x])" using False assms(1) by (simp add: tl_drop [symmetric] drop_Suc Suc_diff_le)
      finally have turned: "drop (Suc p) (ys[p := x]) @ take (Suc p) (ys[p := x]) = drop (length (xs @ [x]) - n) (xs @ [x])" .
      show ?thesis
      proof (cases "Suc p = n")
        case True
        then have "length (xs @ [x]) mod n = 0" by (simp add: p_def mod_Suc)
        with turned True ys(1) fill big show ?thesis by simp
      next
        case False
        then have "length (xs @ [x]) mod n = Suc p" by (simp add: p_def mod_Suc)
        with turned ys(1) fill show ?thesis by simp
      qed
    qed
  qed
  then show "length (ring_fill n xs) = n"
    "drop (length xs mod n) (ring_fill n xs) @ take (length xs mod n) (ring_fill n xs) = drop (length xs - n) xs" by simp_all
qed

lemma length_ring_fill: "0 < n \<Longrightarrow> length (ring_fill n xs) = min (length xs) n"
  using ring_fill_recent(1) [of n xs] ring_fill_partial [of xs n] by (cases "n \<le> length xs") simp_all

lemma turn_back:
  assumes "drop p ys @ take p ys = zs" "p \<le> length ys"
  shows "ys = drop (length ys - p) zs @ take (length ys - p) zs"
  using assms by auto

section \<open>The entries on the disk\<close>

text \<open>The objects in the store are numbered from 0, so that putting one at a place in use replaces it and putting one at the next place appends it.\<close>

lemma store_put_numbered:
  assumes "map key ys = [m..<m + length ys]" "m \<le> key x" "key x \<le> m + length ys"
  shows "store_put key x ys = (if key x - m < length ys then ys[key x - m := x] else ys @ [x])"
  using assms
proof (induction ys arbitrary: m)
  case (Cons y ys)
  then have y: "key y = m" "map key ys = [Suc m..<Suc m + length ys]" by (simp_all add: upt_conv_Cons del: upt_Suc)
  show ?case
  proof (cases "key x = m")
    case False
    with Cons.prems(2,3) have "Suc m \<le> key x" "key x \<le> Suc m + length ys" "key x - m = Suc (key x - Suc m)" by simp_all
    with Cons.IH [OF y(2)] y(1) show ?thesis by simp
  qed (simp add: y(1))
qed simp

definition entries_of :: "string list \<Rightarrow> log_entry list \<Rightarrow> bool" where
  "entries_of xs es \<longleftrightarrow> map le_key es = [0..<length es] \<and> map le_input es = ring_fill history_size xs"

lemma entries_put:
  assumes "entries_of xs es"
  shows "entries_of (xs @ [x]) (store_put le_key \<lparr>le_key = length xs mod history_size, le_when = now, le_input = x\<rparr> es)"
proof -
  let ?p = "length xs mod history_size" and ?e = "\<lparr>le_key = length xs mod history_size, le_when = now, le_input = x\<rparr>"
  have k: "map le_key es = [0..<0 + length es]" and f: "map le_input es = ring_fill history_size xs"
    using assms by (simp_all add: entries_of_def)
  have len: "length es = min (length xs) history_size"
    using arg_cong [OF f, of length] length_ring_fill [of history_size xs] by simp
  have same: "length (ring_fill history_size xs) = length es" using arg_cong [OF f, of length] by simp
  have "?p \<le> length es" by (cases "length xs < history_size") (simp_all add: len less_imp_le)
  then have put: "store_put le_key ?e es = (if ?p < length es then es[?p := ?e] else es @ [?e])"
    using store_put_numbered [OF k, of ?e] by simp
  have key: "le_key (es ! ?p) = ?p" if "?p < length es"
    using that k by (metis add.left_neutral nth_map nth_upt)
  show ?thesis
  proof (cases "?p < length es")
    case True
    have "map le_key (es[?p := ?e]) = (map le_key es)[?p := ?p]" by (simp add: map_update)
    also have "\<dots> = map le_key es" using True key by (metis list_update_id nth_map)
    finally show ?thesis using True k by (simp add: entries_of_def put map_update f ring_fill_snoc same)
  next
    case False
    with \<open>?p \<le> length es\<close> have p: "?p = length es" by simp
    from put p have "store_put le_key ?e es = es @ [?e]" by simp
    then show ?thesis using k f p by (simp add: entries_of_def ring_fill_snoc same)
  qed
qed

section \<open>Sessions\<close>

text \<open>
  The pages of the origin share one disk. A page is visited, runs inputs and may reset its history (with no other page open, since otherwise the
  browser holds the deletion back); the answers of the browser come with each event. \<open>load\<close> does not change anything.
\<close>

datatype session_event =
  Visit nat answer answer
| Input nat answer nat string
| ResetHistory nat answer answer

record history_world =
  hw_disk :: "idb option"
  hw_pages :: "nat \<Rightarrow> history_store option"

definition on_page :: "nat \<Rightarrow> (history_store \<Rightarrow> history_store) \<Rightarrow> history_world \<Rightarrow> history_world" where
  "on_page p f w = (case hw_pages w p of None \<Rightarrow> w
     | Some s \<Rightarrow> let s' = f (s\<lparr>hs_disk := hw_disk w\<rparr>) in w\<lparr>hw_disk := hs_disk s', hw_pages := (hw_pages w)(p \<mapsto> s')\<rparr>)"

fun history_step :: "session_event \<Rightarrow> history_world \<Rightarrow> history_world" where
  "history_step (Visit p a get) w =
     on_page p (\<lambda>s. open_succeeds (history_open a get s)) (w\<lparr>hw_pages := (hw_pages w)(p \<mapsto> HistoryStore (hw_disk w))\<rparr>)"
| "history_step (Input p a now x) w = on_page p (\<lambda>s. snd (history_push a now x s)) w"
| "history_step (ResetHistory p a get) w = on_page p (\<lambda>s. open_succeeds (history_reset a get s)) w"

definition new_origin :: history_world where
  "new_origin = \<lparr>hw_disk = None, hw_pages = (\<lambda>_. None)\<rparr>"

text \<open>What the shell of a page holds after a load, if it does not panic, and the place of the next entry.\<close>

definition restored :: "history_store \<Rightarrow> string list option" where
  "restored s = (case history_load Granted s of Inr (hist, cursor) \<Rightarrow> shell_load_history hist cursor | Inl _ \<Rightarrow> None)"

definition page_store :: "nat \<Rightarrow> history_world \<Rightarrow> history_store" where
  "page_store p w = (case hw_pages w p of Some s \<Rightarrow> s\<lparr>hs_disk := hw_disk w\<rparr> | None \<Rightarrow> HistoryStore (hw_disk w))"

text \<open>Sessions in which the browser grants every request, nothing is reset, and only the page visited last runs inputs.\<close>

fun quiet :: "nat option \<Rightarrow> session_event list \<Rightarrow> bool" where
  "quiet cur [] \<longleftrightarrow> True"
| "quiet cur (Visit p a get # es) \<longleftrightarrow> a = Granted \<and> get = Granted \<and> quiet (Some p) es"
| "quiet cur (Input p a now x # es) \<longleftrightarrow> a = Granted \<and> cur = Some p \<and> quiet cur es"
| "quiet cur (ResetHistory p a get # es) \<longleftrightarrow> False"

fun inputs :: "session_event list \<Rightarrow> string list" where
  "inputs [] = []"
| "inputs (Input p a now x # es) = x # inputs es"
| "inputs (e # es) = inputs es"

definition disk_inv :: "string list \<Rightarrow> idb option \<Rightarrow> bool" where
  "disk_inv xs d \<longleftrightarrow> d = None \<and> xs = []
     \<or> (\<exists>infos es. d = Some \<lparr>db_version = DB_VERSION, db_LOG_INFO = Some infos, db_LOG_ENTRIES = Some es\<rparr> \<and> entries_of xs es
          \<and> infos = (if xs = [] then [] else [\<lparr>li_key = 0, li_nextEntryKey = length xs, li_entryCount = min (length xs) history_size\<rparr>]))"

definition history_inv :: "string list \<Rightarrow> history_store \<Rightarrow> bool" where
  "history_inv xs s \<longleftrightarrow> hs_idb s \<and> \<not> hs_opening s \<and> hs_nextEntryKey s = length xs \<and> hs_entryCount s = min (length xs) history_size
     \<and> hs_disk s \<noteq> None \<and> disk_inv xs (hs_disk s)"

lemma history_inv_open: "disk_inv xs d \<Longrightarrow> history_inv xs (open_succeeds (history_open Granted Granted (HistoryStore d)))"
  by (auto simp: history_inv_def disk_inv_def open_succeeds_def history_open_def HistoryStore_def DB_VERSION_def createSchema_def loadMetadata_def
      entries_of_def)

lemma history_inv_push:
  assumes "history_inv xs s" shows "history_inv (xs @ [x]) (snd (history_push Granted now x s))"
  using assms entries_put [of xs _ x now]
  by (auto simp: history_inv_def disk_inv_def history_push_def Let_def min_def)

definition world_inv :: "string list \<Rightarrow> nat option \<Rightarrow> history_world \<Rightarrow> bool" where
  "world_inv xs cur w \<longleftrightarrow> disk_inv xs (hw_disk w) \<and> (\<forall>p. cur = Some p \<longrightarrow> hw_pages w p \<noteq> None \<and> history_inv xs (page_store p w))"

lemma history_inv_disk: "history_inv xs s \<Longrightarrow> disk_inv xs (hs_disk s)"
  by (simp add: history_inv_def)

lemma world_inv_visit: "world_inv xs cur w \<Longrightarrow> world_inv xs (Some p) (history_step (Visit p Granted Granted) w)"
proof -
  assume w: "world_inv xs cur w"
  let ?s = "open_succeeds (history_open Granted Granted (HistoryStore (hw_disk w)))"
  have "history_inv xs ?s" using w history_inv_open by (simp add: world_inv_def)
  moreover have "(HistoryStore d)\<lparr>hs_disk := d\<rparr> = HistoryStore d" for d by (simp add: HistoryStore_def)
  ultimately show ?thesis using history_inv_disk [of xs ?s] by (simp add: world_inv_def on_page_def page_store_def Let_def)
qed

lemma world_inv_input:
  assumes "world_inv xs (Some p) w"
  shows "world_inv (xs @ [x]) (Some p) (history_step (Input p Granted now x) w)"
proof -
  obtain s where s: "hw_pages w p = Some s" "history_inv xs (s\<lparr>hs_disk := hw_disk w\<rparr>)"
    using assms by (auto simp: world_inv_def page_store_def)
  note i = history_inv_push [OF s(2), of x now]
  show ?thesis using i history_inv_disk [OF i] s(1) by (simp add: world_inv_def on_page_def page_store_def Let_def)
qed

lemma world_inv_run: "quiet cur es \<Longrightarrow> world_inv xs cur w \<Longrightarrow> \<exists>cur'. world_inv (xs @ inputs es) cur' (fold history_step es w)"
proof (induction es arbitrary: cur xs w)
  case (Cons e es)
  show ?case
  proof (cases e)
    case (Visit p a get)
    with Cons.IH [OF _ world_inv_visit [OF Cons.prems(2), of p]] Cons.prems(1) show ?thesis by simp
  next
    case (Input p a now x)
    with Cons.prems have "world_inv (xs @ [x]) (Some p) (history_step (Input p Granted now x) w)" by (intro world_inv_input) simp
    with Cons.IH [OF _ this] Cons.prems(1) Input show ?thesis by auto
  next
    case (ResetHistory p a get)
    with Cons.prems(1) show ?thesis by simp
  qed
qed auto

lemma history_inv_load:
  assumes "history_inv xs s"
  shows "history_load Granted s = Inr (ring_fill history_size xs, min (length xs) history_size)"
proof (cases "xs = []")
  case False
  then have ne: "0 < hs_entryCount s" using assms by (simp add: history_inv_def)
  obtain infos es where "hs_disk s = Some \<lparr>db_version = DB_VERSION, db_LOG_INFO = infos, db_LOG_ENTRIES = Some es\<rparr>" "entries_of xs es"
    "hs_idb s" "hs_nextEntryKey s = length xs" using assms False by (auto simp: history_inv_def disk_inv_def)
  with ne show ?thesis by (simp add: history_load_def entries_of_def)
qed (use assms in \<open>simp add: history_inv_def history_load_def\<close>)

text \<open>C39: When the browser grants the requests of a session, nothing is reset and no two pages run inputs at the same time, then whatever the
  user ran on however many visits, the shell of a later visit comes back with it, in order, up to 1024 inputs. After more it has the last
  1024, but cut at the place of the ring where the next entry goes, the newer part first: the store returns the size of the ring as the
  cursor, and not that place, with which they would be in order. The lemmas below show what a refused request, a reset and a second open
  page do to the history.\<close>

theorem history_comes_back:
  fixes es :: "session_event list" and p :: nat
  assumes "quiet None es"
  defines "xs \<equiv> inputs es" and "s \<equiv> page_store p (fold history_step (es @ [Visit p Granted Granted]) new_origin)"
  defines "recent \<equiv> drop (length xs - history_size) xs" and "edge \<equiv> history_size - length xs mod history_size"
  shows "restored s = Some (if length xs \<le> history_size then xs else drop edge recent @ take edge recent)
    \<and> (\<exists>hist cursor. history_load Granted s = Inr (hist, cursor) \<and> shell_load_history hist (hs_nextEntryKey s mod history_size) = Some recent)"
proof -
  have "world_inv [] None new_origin" by (simp add: world_inv_def new_origin_def disk_inv_def)
  then obtain cur where "world_inv xs cur (fold history_step es new_origin)"
    using world_inv_run [OF assms(1)] by (fastforce simp: xs_def)
  from world_inv_visit [OF this, of p] have inv: "history_inv xs s" by (simp add: world_inv_def s_def)
  note load = history_inv_load [OF inv]
  have n: "0 < history_size" by simp
  have place: "hs_nextEntryKey s = length xs" using inv by (simp add: history_inv_def)
  show ?thesis
  proof (cases "length xs < history_size")
    case True
    then show ?thesis by (simp add: restored_def load shell_load_history_def ring_fill_partial place recent_def)
  next
    case False
    then have big: "history_size \<le> length xs" by simp
    note r = ring_fill_recent [OF n big]
    have p: "length xs mod history_size \<le> length (ring_fill history_size xs)" using r(1) by (simp add: less_imp_le)
    have "ring_fill history_size xs = drop edge recent @ take edge recent"
      using turn_back [OF r(2) p] by (simp only: r(1) edge_def recent_def)
    moreover have "restored s = Some (ring_fill history_size xs)" using big r(1) by (simp add: restored_def load shell_load_history_def)
    moreover have "ring_fill history_size xs = xs" if "length xs \<le> history_size" by (rule ring_fill_partial [OF that])
    moreover have "shell_load_history (ring_fill history_size xs) (hs_nextEntryKey s mod history_size) = Some recent"
      unfolding shell_load_history_def place recent_def using p r(2) by simp
    ultimately show ?thesis using load by simp
  qed
qed

theorem history_comes_back_witness:
  "restored (page_store 1 (fold history_step
     [Visit 0 Granted Granted, Input 0 Granted 5 ''a'', Visit 2 Granted Granted, Input 2 Granted 6 ''b'', Visit 1 Granted Granted] new_origin))
   = Some [''a'', ''b'']"
  using history_comes_back [of "[Visit 0 Granted Granted, Input 0 Granted 5 ''a'', Visit 2 Granted Granted, Input 2 Granted 6 ''b'']" 1]
  by (simp add: HISTORY_SIZE_SHIFT_def)

text \<open>Two pages that are open at the same time overwrite each other's entries.\<close>

lemma two_pages_lose_entries:
  "restored (page_store 2 (fold history_step
     [Visit 0 Granted Granted, Visit 1 Granted Granted, Input 0 Granted 5 ''a'', Input 1 Granted 6 ''b'', Visit 2 Granted Granted] new_origin))
   = Some [''b'']"
  by (simp add: on_page_def page_store_def new_origin_def open_succeeds_def history_open_def HistoryStore_def DB_VERSION_def createSchema_def
      loadMetadata_def history_push_def restored_def history_load_def shell_load_history_def HISTORY_SIZE_SHIFT_def Let_def)

text \<open>The first visit of an origin.\<close>

definition first_visit :: history_store where
  "first_visit = open_succeeds (history_open Granted Granted (HistoryStore None))"

text \<open>A reset empties the disk but not the two counters: the next load returns a cursor behind the end, on which the shell panics.\<close>

lemma reset_keeps_the_counters:
  assumes "0 < hs_entryCount s" "0 < hs_nextEntryKey s"
  shows "restored (open_succeeds (history_reset Granted Granted s)) = None"
  using assms by (simp add: restored_def open_succeeds_def history_reset_def history_open_def createSchema_def loadMetadata_def
      history_load_def shell_load_history_def DB_VERSION_def)

text \<open>A refused \<open>put\<close> has already moved the counters: the next one that is granted leaves a gap, and the load after it fails in the same way.\<close>

lemma refused_push_breaks_the_history:
  "restored (snd (history_push Granted 1 ''b'' (snd (history_push Refused 0 ''a'' first_visit)))) = None"
  by (simp add: first_visit_def open_succeeds_def history_open_def HistoryStore_def DB_VERSION_def createSchema_def loadMetadata_def
      history_push_def restored_def history_load_def shell_load_history_def HISTORY_SIZE_SHIFT_def)

end
