(* ===== verification/Hb_Shell.thy ===== *)
theory Hb_Shell
  imports Hb_History
begin

text \<open>
  \<open>packages/duckdb-wasm-shell/src/shell.ts\<close> and \<open>utils/files.ts\<close>: the inputs of the shell in the fragment of a link and their return,
  the start of the shell, and the files a user picks. The shell itself (\<open>crate/\<close>, compiled from Rust) is seen as the calls made to it.
\<close>

section \<open>URI components\<close>

text \<open>A string is its UTF-8 bytes. The well-formed sequences of the Unicode standard, by their first byte.\<close>

definition utf8_length :: "nat \<Rightarrow> nat" where
  "utf8_length b = (if b < 128 then 1 else if b < 194 then 0 else if b < 224 then 2 else if b < 240 then 3 else if b < 245 then 4 else 0)"

definition utf8_second :: "nat \<Rightarrow> nat \<Rightarrow> bool" where
  "utf8_second b c \<longleftrightarrow> (if b = 224 then 160 \<le> c else if b = 240 then 144 \<le> c else True)
     \<and> (if b = 237 then c < 160 else if b = 244 then c < 144 else True)"

definition utf8_continuation :: "nat \<Rightarrow> bool" where
  "utf8_continuation c \<longleftrightarrow> 128 \<le> c \<and> c < 192"

definition utf8_character :: "nat list \<Rightarrow> bool" where
  "utf8_character bs = (case bs of [] \<Rightarrow> False | b # cs \<Rightarrow> length bs = utf8_length b \<and> list_all utf8_continuation cs
     \<and> (case cs of [] \<Rightarrow> True | c # _ \<Rightarrow> utf8_second b c))"

abbreviation code :: "char \<Rightarrow> nat" where
  "code \<equiv> of_char"

function utf8_text :: "string \<Rightarrow> bool" where
  "utf8_text s = (case s of [] \<Rightarrow> True
     | c # t \<Rightarrow> let n = utf8_length (code c) in
         if n \<noteq> 0 \<and> utf8_character (map code (take n s)) then utf8_text (drop n s) else False)"
  by pat_completeness auto
termination
  by (relation "measure length") auto

declare utf8_text.simps [simp del]

lemma utf8_text_Cons:
  "utf8_text (c # t) \<longleftrightarrow> (let n = utf8_length (code c) in
     (n \<noteq> 0 \<and> utf8_character (map code (take n (c # t)))) \<and> utf8_text (drop n (c # t)))"
  by (subst utf8_text.simps) (auto simp: Let_def)

text \<open>\<open>encodeURIComponent\<close>: what it leaves as it is, and two hexadecimal digits for each other byte.\<close>

definition hex_digits :: string where
  "hex_digits = ''0123456789ABCDEF''"

definition uri_plain :: "char \<Rightarrow> bool" where
  "uri_plain c \<longleftrightarrow> c \<in> set ''abcdefghijklmnopqrstuvwxyzABCDEFGHIJKLMNOPQRSTUVWXYZ0123456789-_.!~*'' \<or> c \<in> {CHR 0x27, CHR ''('', CHR '')''}"

definition percent :: "nat \<Rightarrow> string" where
  "percent b = [CHR ''%'', hex_digits ! (b div 16), hex_digits ! (b mod 16)]"

definition encodeURIComponent :: "string \<Rightarrow> string" where
  "encodeURIComponent s = concat (map (\<lambda>c. if uri_plain c then [c] else percent (code c)) s)"

text \<open>\<open>decodeURIComponent\<close>: an escape whose byte has \<open>n\<close> leading ones is the first of \<open>n\<close> escapes, which make a character.\<close>

definition hex_value :: "char \<Rightarrow> nat option" where
  "hex_value c = (let n = code c in
     if 48 \<le> n \<and> n \<le> 57 then Some (n - 48) else if 65 \<le> n \<and> n \<le> 70 then Some (n - 55) else if 97 \<le> n \<and> n \<le> 102 then Some (n - 87) else None)"

definition escape :: "string \<Rightarrow> (nat \<times> string) option" where
  "escape s = (case s of
     p # h # l # r \<Rightarrow> (if p = CHR ''%'' then (case (hex_value h, hex_value l) of (Some a, Some b) \<Rightarrow> Some (16 * a + b, r) | _ \<Rightarrow> None) else None)
   | _ \<Rightarrow> None)"

fun escapes :: "nat \<Rightarrow> string \<Rightarrow> (nat list \<times> string) option" where
  "escapes 0 s = Some ([], s)"
| "escapes (Suc n) s = (case escape s of None \<Rightarrow> None | Some (b, r) \<Rightarrow> map_option (\<lambda>(bs, t). (b # bs, t)) (escapes n r))"

definition leading_ones :: "nat \<Rightarrow> nat" where
  "leading_ones b = (if b < 128 then 0 else if b < 192 then 1 else if b < 224 then 2 else if b < 240 then 3 else if b < 248 then 4 else 5)"

abbreviation URIError :: js_error where
  "URIError \<equiv> JsError ''URIError'' ''URI malformed''"

lemma escape_shorter: "escape s = Some (b, r) \<Longrightarrow> length r < length s"
  by (auto simp: escape_def split: list.splits option.splits if_splits)

lemma escapes_shorter: "escapes n s = Some (bs, r) \<Longrightarrow> length r \<le> length s"
  by (induction n arbitrary: s bs) (fastforce dest: escape_shorter split: option.splits)+

function decodeURIComponent :: "string \<Rightarrow> string res" where
  "decodeURIComponent s = (case s of [] \<Rightarrow> Inr []
     | c # t \<Rightarrow>
         if c \<noteq> CHR ''%'' then map_sum id (\<lambda>u. c # u) (decodeURIComponent t)
         else case escape s of None \<Rightarrow> Inl URIError
         | Some (b, r) \<Rightarrow>
             let n = leading_ones b in
             if n = 0 then map_sum id (\<lambda>u. char_of b # u) (decodeURIComponent r)
             else if n = 1 \<or> 4 < n then Inl URIError
             else case escapes (n - 1) r of None \<Rightarrow> Inl URIError
             | Some (bs, q) \<Rightarrow> if utf8_character (b # bs) then map_sum id (\<lambda>u. map char_of (b # bs) @ u) (decodeURIComponent q) else Inl URIError)"
  by pat_completeness auto
termination
  by (relation "measure length") (auto dest!: escape_shorter escapes_shorter)

declare decodeURIComponent.simps [simp del]

section \<open>The encoding comes back\<close>

lemma code_less: "code c < 256"
  using nat_of_char_less_256 [of c] by simp

lemma hex_value_digit: "i < 16 \<Longrightarrow> hex_value (hex_digits ! i) = Some i"
proof -
  have "\<forall>i \<in> set [0..<16]. hex_value (hex_digits ! i) = Some i" by (simp add: upt_rec hex_digits_def hex_value_def)
  then show "i < 16 \<Longrightarrow> hex_value (hex_digits ! i) = Some i" by simp
qed

lemma escape_percent: "b < 256 \<Longrightarrow> escape (percent b @ r) = Some (b, r)"
  using hex_value_digit [of "b div 16"] hex_value_digit [of "b mod 16"] by (simp add: escape_def percent_def)

lemma escapes_percent: "\<forall>b \<in> set bs. b < 256 \<Longrightarrow> escapes (length bs) (concat (map percent bs) @ r) = Some (bs, r)"
  by (induction bs) (simp_all add: escape_percent)

lemma plain_ascii: "uri_plain c \<Longrightarrow> code c < 128 \<and> c \<noteq> CHR ''%''"
  by (auto simp: uri_plain_def)

lemma utf8_lead: "utf8_length b \<noteq> 0 \<Longrightarrow> utf8_length b = (if b < 128 then 1 else leading_ones b) \<and> leading_ones b \<le> 4 \<and> leading_ones b \<noteq> 1"
  by (auto simp: utf8_length_def leading_ones_def split: if_splits)

lemma encode_append: "encodeURIComponent (s @ t) = encodeURIComponent s @ encodeURIComponent t"
  by (simp add: encodeURIComponent_def)

lemma encode_high: "\<forall>c \<in> set s. 128 \<le> code c \<Longrightarrow> encodeURIComponent s = concat (map percent (map code s))"
  by (induction s) (auto simp: encodeURIComponent_def dest: plain_ascii)

lemma utf8_character_high: "utf8_character (map code s) \<Longrightarrow> 1 < length s \<Longrightarrow> c \<in> set s \<Longrightarrow> 128 \<le> code c"
  by (cases s) (auto simp: utf8_character_def utf8_length_def utf8_continuation_def list_all_iff split: if_splits)

lemma decode_character:
  assumes "utf8_character (map code s)"
  shows "decodeURIComponent (encodeURIComponent s @ r) = map_sum id (\<lambda>u. s @ u) (decodeURIComponent r)"
proof -
  obtain c t where s: "s = c # t" using assms by (cases s) (simp_all add: utf8_character_def)
  show ?thesis
  proof (cases "t = []")
    case True
    have "utf8_length (code c) = 1" using assms by (simp add: utf8_character_def s True)
    then have ascii: "code c < 128" by (auto simp: utf8_length_def split: if_splits)
    show ?thesis
    proof (cases "uri_plain c")
      case True
      then show ?thesis using plain_ascii [OF True] by (simp add: s \<open>t = []\<close> encodeURIComponent_def decodeURIComponent.simps [of "c # r"])
    next
      case False
      have "escape (percent (code c) @ r) = Some (code c, r)" by (rule escape_percent [OF code_less])
      with False ascii show ?thesis
        by (simp add: s \<open>t = []\<close> encodeURIComponent_def decodeURIComponent.simps [of "percent (code c) @ r"] leading_ones_def)
          (simp add: percent_def Let_def leading_ones_def)
    qed
  next
    case False
    then have len: "1 < length s" by (simp add: s)
    note high = utf8_character_high [OF assms len]
    have "utf8_length (code c) = length s" using assms by (simp add: utf8_character_def s)
    then have n: "leading_ones (code c) = length s" "length s \<le> 4" using utf8_lead [of "code c"] len high [of c] by (auto simp: s split: if_splits)
    have enc: "encodeURIComponent s = percent (code c) @ concat (map percent (map code t))" using encode_high [of s] high by (simp add: s)
    have e: "escape (encodeURIComponent s @ r) = Some (code c, concat (map percent (map code t)) @ r)"
      unfolding enc using escape_percent [OF code_less] by simp
    have es: "escapes (length t) (concat (map percent (map code t)) @ r) = Some (map code t, r)"
      using escapes_percent [of "map code t" r] code_less by simp
    have "\<exists>u. encodeURIComponent s @ r = CHR ''%'' # u" by (simp add: enc percent_def)
    then obtain u where u: "encodeURIComponent s @ r = CHR ''%'' # u" by blast
    have ch: "utf8_character (code c # map code t)" "length t = length s - 1" using assms by (simp_all add: s)
    have "decodeURIComponent (encodeURIComponent s @ r) = map_sum id (\<lambda>v. map char_of (code c # map code t) @ v) (decodeURIComponent r)"
      unfolding decodeURIComponent.simps [of "encodeURIComponent s @ r"] using e es n len ch by (auto simp add: u Let_def simp del: list.map)
    then show ?thesis by (simp add: s comp_def)
  qed
qed

lemma decode_encode: "utf8_text s \<Longrightarrow> decodeURIComponent (encodeURIComponent s) = Inr s"
proof (induction s rule: utf8_text.induct)
  case (1 s)
  show ?case
  proof (cases s)
    case Nil
    then show ?thesis by (simp add: encodeURIComponent_def decodeURIComponent.simps)
  next
    case (Cons c t)
    let ?n = "utf8_length (code c)"
    have s: "?n \<noteq> 0 \<and> utf8_character (map code (take ?n s))" "utf8_text (drop ?n s)"
      using "1.prems" unfolding Cons utf8_text_Cons Let_def by simp_all
    have "encodeURIComponent s = encodeURIComponent (take ?n s) @ encodeURIComponent (drop ?n s)" by (simp flip: encode_append)
    then show ?thesis using decode_character [OF conjunct2 [OF s(1)]] "1.IH" [OF Cons refl s] by simp
  qed
qed

section \<open>The inputs in a link\<close>

text \<open>\<open>extraswaps\<close>, which is its own inverse.\<close>

fun swapped :: "char \<Rightarrow> char" where
  "swapped c = (if c = CHR '' '' then CHR ''-'' else if c = CHR ''-'' then CHR '' '' else if c = CHR '';'' then CHR ''~''
     else if c = CHR ''~'' then CHR '';'' else c)"

definition extraswaps :: "string \<Rightarrow> string" where
  "extraswaps input = map swapped input"

text \<open>
  \<open>location.hash\<close>: empty, or a \<open>#\<close> and the fragment. Assigning it drops a \<open>#\<close> at the front, tabs and line ends, and escapes what may not
  stand in a fragment.
\<close>

definition fragment_char :: "char \<Rightarrow> string" where
  "fragment_char c = (if code c < 32 \<or> 126 < code c \<or> c \<in> {CHR '' '', CHR 0x22, CHR ''<'', CHR ''>'', CHR 0x60} then percent (code c) else [c])"

definition set_hash :: "string \<Rightarrow> string" where
  "set_hash v =
     (let v = (case v of c # r \<Rightarrow> if c = CHR ''#'' then r else v | [] \<Rightarrow> []);
          v = filter (\<lambda>c. c \<notin> {CHR 0x09, CHR 0x0A, CHR 0x0D}) v;
          f = concat (map fragment_char v)
      in if f = [] then [] else CHR ''#'' # f)"

text \<open>The fields of \<open>ShellRuntime\<close> and what it touches of the page: the fragment of its address and the target of the anchor \<open>hashencoded\<close>.\<close>

record shell_runtime =
  rt_database :: bool
  rt_history :: history_store
  rt_hash :: string
  rt_location_hash :: string
  rt_anchor :: "string option"

definition ShellRuntime :: "idb option \<Rightarrow> string \<Rightarrow> string option \<Rightarrow> shell_runtime" where
  "ShellRuntime disk location_hash anchor =
     \<lparr>rt_database = False, rt_history = HistoryStore disk, rt_hash = [], rt_location_hash = location_hash, rt_anchor = anchor\<rparr>"

text \<open>The promise of \<open>history.push\<close> is not awaited, so that its errors are not the caller's.\<close>

definition pushInputToHistory :: "answer \<Rightarrow> nat \<Rightarrow> string \<Rightarrow> shell_runtime \<Rightarrow> shell_runtime" where
  "pushInputToHistory a now v s =
     (let encode = encodeURIComponent (extraswaps v);
          s = (if rt_hash s = [] then s\<lparr>rt_hash := ''queries=v0''\<rparr> else s);
          s = s\<lparr>rt_hash := rt_hash s @ '',''\<rparr>;
          s = s\<lparr>rt_hash := rt_hash s @ encode\<rparr>;
          s = (if starts_with ''#savequeries'' (rt_location_hash s) then s\<lparr>rt_location_hash := set_hash (''savequeries&'' @ rt_hash s)\<rparr> else s);
          s = (if rt_anchor s \<noteq> None then s\<lparr>rt_anchor := Some (''/#'' @ rt_hash s)\<rparr> else s)
      in s\<lparr>rt_history := snd (history_push a now v (rt_history s))\<rparr>)"

text \<open>The end of \<open>embed\<close>: the queries of the fragment, from the second piece on.\<close>

fun decode_pieces :: "string list \<Rightarrow> string list res" where
  "decode_pieces [] = Inr []"
| "decode_pieces (p # ps) = (case decodeURIComponent p of Inl e \<Rightarrow> Inl e | Inr u \<Rightarrow> map_sum id (\<lambda>sqls. extraswaps u # sqls) (decode_pieces ps))"

definition init_queries :: "string \<Rightarrow> string list res" where
  "init_queries location_hash = decode_pieces (drop 1 (split_on (CHR '','') location_hash))"

lemma extraswaps_twice [simp]: "extraswaps (extraswaps s) = s"
  by (simp add: extraswaps_def comp_def map_idI)

text \<open>Swapping moves only characters below 128, to such, so that text stays text.\<close>

lemma swapped_high: "128 \<le> code c \<Longrightarrow> swapped c = c"
  by auto

lemma swapped_low: "code c < 128 \<Longrightarrow> code (swapped c) < 128"
  by auto

lemma utf8_length_swapped: "utf8_length (code (swapped c)) = utf8_length (code c)"
  using swapped_high [of c] swapped_low [of c] by (cases "code c < 128") (simp_all add: utf8_length_def del: swapped.simps)

lemma utf8_character_swapped:
  assumes "utf8_character (map code s)" shows "utf8_character (map code (extraswaps s))"
proof (cases "1 < length s")
  case True
  have "extraswaps s = s" unfolding extraswaps_def
    using utf8_character_high [OF assms True] swapped_high by (simp add: map_idI del: swapped.simps)
  with assms show ?thesis by simp
next
  case False
  obtain c where "s = [c]" using assms False by (cases s; cases "tl s") (simp_all add: utf8_character_def)
  with assms show ?thesis by (simp add: utf8_character_def extraswaps_def utf8_length_swapped del: swapped.simps)
qed

lemma utf8_swapped: "utf8_text s \<Longrightarrow> utf8_text (extraswaps s)"
proof (induction s rule: utf8_text.induct)
  case (1 s)
  show ?case
  proof (cases s)
    case (Cons c t)
    let ?n = "utf8_length (code c)"
    have s: "?n \<noteq> 0 \<and> utf8_character (map code (take ?n s))" "utf8_text (drop ?n s)"
      using "1.prems" unfolding Cons utf8_text_Cons Let_def by simp_all
    have e: "extraswaps s = swapped c # extraswaps t" by (simp add: extraswaps_def Cons)
    have td: "take n (extraswaps s) = extraswaps (take n s)" "drop n (extraswaps s) = extraswaps (drop n s)" for n
      by (simp_all add: extraswaps_def take_map drop_map)
    have "utf8_text (drop ?n (extraswaps s))" "utf8_character (map code (take ?n (extraswaps s)))"
      unfolding td using "1.IH" [OF Cons refl s] utf8_character_swapped s(1) by simp_all
    then show ?thesis using s(1) unfolding e utf8_text_Cons by (simp add: utf8_length_swapped del: swapped.simps)
  qed (simp add: extraswaps_def utf8_text.simps)
qed

text \<open>What an encoded component is made of stands in a fragment as it is, and no comma is among it.\<close>

definition link_char :: "char \<Rightarrow> bool" where
  "link_char c \<longleftrightarrow> uri_plain c \<or> c \<in> {CHR ''%'', CHR ''='', CHR ''&'', CHR '',''}"

lemma link_char_stays: "link_char c \<Longrightarrow> fragment_char c = [c] \<and> c \<notin> {CHR 0x09, CHR 0x0A, CHR 0x0D, CHR ''#''}"
  by (auto simp: link_char_def uri_plain_def fragment_char_def)

lemma percent_chars: "b < 256 \<Longrightarrow> set (percent b) \<subseteq> insert (CHR ''%'') (set hex_digits)"
proof -
  assume "b < 256"
  then have "b div 16 < length hex_digits" "b mod 16 < length hex_digits" by (simp_all add: hex_digits_def)
  then show ?thesis by (auto simp: percent_def)
qed

lemma encoded_chars: "set (encodeURIComponent s) \<subseteq> {c. uri_plain c \<or> c = CHR ''%''}"
proof -
  have "set hex_digits \<subseteq> {c. uri_plain c}" by (auto simp: hex_digits_def uri_plain_def)
  then show ?thesis using percent_chars [OF code_less] by (fastforce simp: encodeURIComponent_def)
qed

lemma no_comma: "CHR '','' \<notin> set (encodeURIComponent s)"
  using encoded_chars [of s] by (auto simp: uri_plain_def)

lemma set_hash_plain:
  assumes "list_all link_char v" "v \<noteq> []" shows "set_hash v = CHR ''#'' # v"
proof -
  have l: "\<forall>c \<in> set v. link_char c" using assms(1) by (simp add: list_all_iff)
  then have f: "filter (\<lambda>c. c \<notin> {CHR 0x09, CHR 0x0A, CHR 0x0D}) v = v" "concat (map fragment_char v) = v"
    using link_char_stays by (simp_all add: filter_id_conv concat_map_singleton cong: map_cong)
  have g: "(case v of c # r \<Rightarrow> if c = CHR ''#'' then r else v | [] \<Rightarrow> []) = v"
    using l link_char_stays by (auto split: list.splits)
  show ?thesis using assms(2) by (simp only: set_hash_def Let_def f g if_False)
qed

section \<open>The link replays the inputs\<close>

definition link_text :: "string list \<Rightarrow> string" where
  "link_text vs = ''queries=v0'' @ concat (map (\<lambda>v. CHR '','' # encodeURIComponent (extraswaps v)) vs)"

lemma link_text_chars: "list_all link_char (link_text vs)"
proof -
  have "list_all link_char ''queries=v0''" by (simp add: link_char_def uri_plain_def)
  moreover have "\<forall>c \<in> set (encodeURIComponent s). link_char c" for s using encoded_chars [of s] by (auto simp: link_char_def)
  ultimately show ?thesis by (auto simp: link_text_def list_all_iff link_char_def)
qed

lemma split_on_pieces:
  assumes "c \<notin> set p" "\<forall>q \<in> set ps. c \<notin> set q"
  shows "split_on c (p @ concat (map (\<lambda>q. c # q) ps)) = p # ps"
  using assms
proof (induction ps arbitrary: p)
  case Nil
  then show ?case by (induction p) auto
next
  case (Cons q ps)
  have "split_on c (q @ concat (map (\<lambda>q. c # q) ps)) = q # ps" using Cons by simp
  then show ?case using Cons.prems(1) by (induction p) auto
qed

lemma decode_pieces_encoded:
  "\<forall>v \<in> set vs. utf8_text v \<Longrightarrow> decode_pieces (map (\<lambda>v. encodeURIComponent (extraswaps v)) vs) = Inr vs"
  by (induction vs) (simp_all add: decode_encode utf8_swapped)

lemma init_queries_link:
  assumes "\<forall>v \<in> set vs. utf8_text v" "CHR '','' \<notin> set p"
  shows "init_queries (p @ link_text vs) = Inr vs"
proof -
  have "split_on (CHR '','') ((p @ ''queries=v0'') @ concat (map (\<lambda>q. CHR '','' # q) (map (\<lambda>v. encodeURIComponent (extraswaps v)) vs)))
      = (p @ ''queries=v0'') # map (\<lambda>v. encodeURIComponent (extraswaps v)) vs"
    using assms(2) no_comma by (intro split_on_pieces) auto
  then show ?thesis using decode_pieces_encoded [OF assms(1)] by (simp add: init_queries_def link_text_def comp_def)
qed

definition pushed :: "(answer \<times> nat \<times> string) list \<Rightarrow> shell_runtime \<Rightarrow> shell_runtime" where
  "pushed ps s = fold (\<lambda>(a, now, v). pushInputToHistory a now v) ps s"

lemma link_text_snoc: "link_text (vs @ [v]) = link_text vs @ '','' @ encodeURIComponent (extraswaps v)"
  by (simp add: link_text_def)

lemma push_fields:
  "rt_hash (pushInputToHistory a now v s) = (if rt_hash s = [] then ''queries=v0'' else rt_hash s) @ '','' @ encodeURIComponent (extraswaps v)"
  "rt_anchor (pushInputToHistory a now v s) = map_option (\<lambda>_. ''/#'' @ rt_hash (pushInputToHistory a now v s)) (rt_anchor s)"
  "rt_location_hash (pushInputToHistory a now v s) = (if starts_with ''#savequeries'' (rt_location_hash s)
     then set_hash (''savequeries&'' @ rt_hash (pushInputToHistory a now v s)) else rt_location_hash s)"
  by (cases "rt_anchor s"; simp add: pushInputToHistory_def Let_def)+

lemma pushed_link:
  assumes "rt_hash s = []" "ps \<noteq> []"
  defines "vs \<equiv> map (\<lambda>(a, now, v). v) ps"
  shows "rt_hash (pushed ps s) = link_text vs
    \<and> rt_anchor (pushed ps s) = map_option (\<lambda>_. ''/#'' @ link_text vs) (rt_anchor s)
    \<and> (starts_with ''#savequeries'' (rt_location_hash s) \<longrightarrow> rt_location_hash (pushed ps s) = ''#savequeries&'' @ link_text vs)"
  using assms(2) unfolding vs_def
proof (induction ps rule: rev_induct)
  case (snoc e ps)
  obtain a now v where e: "e = (a, now, v)" by (cases e)
  let ?vs = "map (\<lambda>(a, now, v). v) ps"
  have shape: "rt_hash (pushInputToHistory a now v t) = h \<and> rt_anchor (pushInputToHistory a now v t) = map_option (\<lambda>_. ''/#'' @ h) (rt_anchor t)
      \<and> (starts_with ''#savequeries'' (rt_location_hash t) \<longrightarrow> rt_location_hash (pushInputToHistory a now v t) = ''#savequeries&'' @ h)"
    if "(if rt_hash t = [] then ''queries=v0'' else rt_hash t) = link_text us" "h = link_text (us @ [v])" for t us h
  proof -
    have h: "rt_hash (pushInputToHistory a now v t) = h" by (simp only: push_fields(1) that link_text_snoc)
    have "list_all link_char (''savequeries&'' @ h)" using link_text_chars [of "us @ [v]"] by (simp add: that(2) link_char_def uri_plain_def)
    then have "set_hash (''savequeries&'' @ h) = ''#savequeries&'' @ h" using set_hash_plain [of "''savequeries&'' @ h"] by simp
    then show ?thesis by (cases "starts_with ''#savequeries'' (rt_location_hash t)"; simp only: push_fields(2,3) h simp_thms if_True if_False)
  qed
  show ?case
  proof (cases "ps = []")
    case True
    have "(if rt_hash s = [] then ''queries=v0'' else rt_hash s) = link_text []" using assms(1) by (simp add: link_text_def)
    from shape [OF this refl] show ?thesis by (simp add: pushed_def e True)
  next
    case False
    note IH = snoc.IH [OF False]
    have "link_text ?vs \<noteq> []" by (simp add: link_text_def)
    then have "(if rt_hash (pushed ps s) = [] then ''queries=v0'' else rt_hash (pushed ps s)) = link_text ?vs" using IH by simp
    from shape [OF this refl] IH show ?thesis by (cases "rt_anchor s") (auto simp: pushed_def e)
  qed
qed simp

text \<open>C38: Whoever follows the link the shell shows, or comes back to an address whose fragment asks to save the queries, has the inputs run again
  exactly as they were made, whatever characters they hold.\<close>

theorem link_replays_the_inputs:
  assumes "rt_hash s = []" "ps \<noteq> []" "\<forall>(a, now, v) \<in> set ps. utf8_text v"
  defines "vs \<equiv> map (\<lambda>(a, now, v). v) ps"
  shows "(rt_anchor s \<noteq> None \<longrightarrow> (\<exists>h. rt_anchor (pushed ps s) = Some (''/#'' @ h) \<and> init_queries (set_hash h) = Inr vs))
    \<and> (starts_with ''#savequeries'' (rt_location_hash s) \<longrightarrow> init_queries (rt_location_hash (pushed ps s)) = Inr vs)"
proof -
  have utf8: "\<forall>v \<in> set vs. utf8_text v" using assms(3) by (auto simp: vs_def)
  note link = pushed_link [OF assms(1,2), folded vs_def]
  have "link_text vs \<noteq> []" by (simp add: link_text_def)
  then have "set_hash (link_text vs) = ''#'' @ link_text vs" using set_hash_plain [OF link_text_chars] by simp
  then have "init_queries (set_hash (link_text vs)) = Inr vs" using init_queries_link [OF utf8, of "''#''"] by simp
  moreover have "init_queries (''#savequeries&'' @ link_text vs) = Inr vs" by (rule init_queries_link [OF utf8]) simp
  ultimately show ?thesis using link by auto
qed

theorem link_replays_the_inputs_witness:
  "init_queries (rt_location_hash (pushed [(Refused, 0, ''SELECT 1, -2;''), (Granted, 1, ''.clear'')]
      (ShellRuntime None ''#savequeries'' None))) = Inr [''SELECT 1, -2;'', ''.clear'']"
proof -
  have "utf8_text ''SELECT 1, -2;''" "utf8_text ''.clear''"
    by (simp_all add: utf8_text_Cons utf8_length_def utf8_character_def Let_def utf8_text.simps [of "[]"])
  then show ?thesis
    using link_replays_the_inputs [of "ShellRuntime None ''#savequeries'' None" "[(Refused, 0, ''SELECT 1, -2;''), (Granted, 1, ''.clear'')]"]
    by (simp add: ShellRuntime_def)
qed

section \<open>The start of the shell\<close>

text \<open>The calls \<open>embed\<close> makes to the shell. The options of its look and what it reports of the download are left out.\<close>

datatype shell_call =
  C_default
| C_embed
| C_writeln string
| C_loadHistory "string list" nat
| C_configureDatabase
| C_passInitQueries "string list"

record shell_page =
  pg_runtime :: shell_runtime
  pg_calls :: "shell_call list"

definition TERM_BOLD :: string where "TERM_BOLD = CHR 0x1B # ''[1m''"
definition TERM_NORMAL :: string where "TERM_NORMAL = CHR 0x1B # ''[m''"
definition TERM_CLEAR :: string where "TERM_CLEAR = CHR 0x1B # ''[2K'' @ [CHR 0x0D]"

definition shell_call :: "shell_call \<Rightarrow> (shell_page, unit) jsm" where
  "shell_call c = js_modify (\<lambda>p. p\<lparr>pg_calls := pg_calls p @ [c]\<rparr>)"

text \<open>\<open>loadHistory\<close> of the shell traps when it panics.\<close>

definition shell_loadHistory :: "string list \<Rightarrow> nat \<Rightarrow> (shell_page, unit) jsm" where
  "shell_loadHistory hist histCursor = js_bind (shell_call (C_loadHistory hist histCursor)) (\<lambda>_.
     if shell_load_history hist histCursor = None then js_throw (JsError ''RuntimeError'' ''unreachable'') else js_ret ())"

definition embed_step :: "string \<Rightarrow> (shell_page, unit) jsm \<Rightarrow> (shell_page, unit) jsm" where
  "embed_step label work =
     js_bind (shell_call (C_writeln (TERM_BOLD @ ''[ RUN ]'' @ TERM_NORMAL @ '' '' @ label))) (\<lambda>_.
     js_bind work (\<lambda>_.
     shell_call (C_writeln (TERM_BOLD @ ''[ OK  ]'' @ TERM_NORMAL @ '' '' @ label))))"

definition load_history_work :: "answer \<Rightarrow> answer \<Rightarrow> answer \<Rightarrow> (shell_page, unit) jsm" where
  "load_history_work a get ld =
     js_bind (js_modify (\<lambda>p. p\<lparr>pg_runtime := (pg_runtime p)\<lparr>rt_history := history_open a get (rt_history (pg_runtime p))\<rparr>\<rparr>)) (\<lambda>_.
     \<lambda>p. (case history_load ld (rt_history (pg_runtime p)) of
            Inl e \<Rightarrow> (Inl e, p)
          | Inr (hist, histCursor) \<Rightarrow> shell_loadHistory hist histCursor p))"

definition embed :: "unit res \<Rightarrow> answer \<Rightarrow> answer \<Rightarrow> answer \<Rightarrow> (shell_page, unit) jsm" where
  "embed resolveDatabase a get ld =
     js_bind (shell_call C_default) (\<lambda>_.
     js_bind (shell_call C_embed) (\<lambda>_.
     js_bind (shell_call (C_writeln (TERM_BOLD @ ''[ RUN ]'' @ TERM_NORMAL @ '' Instantiating Haybarn''))) (\<lambda>_.
     js_bind (\<lambda>p. (resolveDatabase, p)) (\<lambda>_.
     js_bind (js_modify (\<lambda>p. p\<lparr>pg_runtime := (pg_runtime p)\<lparr>rt_database := True\<rparr>\<rparr>)) (\<lambda>_.
     js_bind (shell_call (C_writeln (TERM_CLEAR @ TERM_BOLD @ ''[ OK  ]'' @ TERM_NORMAL @ '' Instantiating Haybarn''))) (\<lambda>_.
     js_bind (embed_step ''Loading Shell History'' (load_history_work a get ld)) (\<lambda>_.
     js_bind (embed_step ''Attaching Shell'' (shell_call C_configureDatabase)) (\<lambda>_.
     js_bind (\<lambda>p. (init_queries (rt_location_hash (pg_runtime p)), p)) (\<lambda>sqls.
     embed_step ''Rewinding history!'' (shell_call (C_passInitQueries sqls)))))))))))"

text \<open>A fragment with a comma and a malformed escape after it: the shell is attached, but \<open>embed\<close> rejects and the rest never happens.\<close>

lemma malformed_link_rejects:
  "fst (embed (Inr ()) Granted Granted Granted \<lparr>pg_runtime = ShellRuntime None ''#a,100%'' None, pg_calls = []\<rparr>) = Inl URIError"
proof -
  have "init_queries ''#a,100%'' = Inl URIError" by (simp add: init_queries_def decodeURIComponent.simps escape_def)
  then show ?thesis
    by (simp add: embed_def embed_step_def load_history_work_def shell_loadHistory_def shell_call_def js_defs ShellRuntime_def
        HistoryStore_def history_open_def createSchema_def loadMetadata_def history_load_def shell_load_history_def DB_VERSION_def Let_def)
qed

section \<open>Files the user picks\<close>

text \<open>\<open>pickFilesForFileReader\<close>: the input element reports a choice by \<open>change\<close>; a dialog that is cancelled is noticed by the focus that comes
  back, a second later. An event carries the files the element then holds.\<close>

datatype picked_file = DropFile string | RegisterFileHandle string

record picker =
  pk_closed :: bool
  pk_listening :: bool
  pk_timer :: bool
  pk_calls :: "picked_file list"
  pk_resolved :: "nat option"

datatype picker_event = Click | Focus | Second "string list" | Change "string list"

definition no_picker :: picker where
  "no_picker = \<lparr>pk_closed = False, pk_listening = False, pk_timer = False, pk_calls = [], pk_resolved = None\<rparr>"

definition finish :: "string list \<Rightarrow> picker \<Rightarrow> picker" where
  "finish files s = s\<lparr>pk_closed := True,
     pk_calls := pk_calls s @ concat (map (\<lambda>file. [DropFile file, RegisterFileHandle file]) files),
     pk_resolved := (case pk_resolved s of None \<Rightarrow> Some (length files) | Some n \<Rightarrow> Some n)\<rparr>"

fun picker_step :: "picker_event \<Rightarrow> picker \<Rightarrow> picker" where
  "picker_step Click s = s\<lparr>pk_listening := True\<rparr>"
| "picker_step Focus s = (if pk_listening s then (let s = s\<lparr>pk_listening := False\<rparr> in if pk_closed s then s else s\<lparr>pk_timer := True\<rparr>) else s)"
| "picker_step (Second files) s = (if pk_timer s then (let s = s\<lparr>pk_timer := False\<rparr> in if pk_closed s then s else finish files s) else s)"
| "picker_step (Change files) s = finish files (s\<lparr>pk_listening := False\<rparr>)"

text \<open>\<open>pickFiles\<close> of the runtime, which answers 0 without a database.\<close>

definition pickFiles :: "shell_runtime \<Rightarrow> picker_event list \<Rightarrow> nat option" where
  "pickFiles s es = (if \<not> rt_database s then Some 0 else pk_resolved (fold picker_step es no_picker))"

lemma chosen_in_time: "pk_resolved (fold picker_step [Click, Change fs, Focus] no_picker) = Some (length fs)"
  by (simp add: no_picker_def finish_def)

text \<open>A choice that the browser reports more than a second after the focus: its files are registered, but 0 has been returned.\<close>

lemma chosen_late:
  "pk_resolved (fold picker_step [Click, Focus, Second [], Change fs] no_picker) = Some 0
    \<and> pk_calls (fold picker_step [Click, Focus, Second [], Change fs] no_picker)
      = concat (map (\<lambda>file. [DropFile file, RegisterFileHandle file]) fs)"
  by (simp add: no_picker_def finish_def Let_def)

end
