(* ===== verification/Hb_React.thy ===== *)
theory Hb_React
  imports Hb_Prelude
begin

text \<open>
  \<open>packages/react-duckdb/src\<close>: the providers that resolve a bundle, a database and connections for the components of a React application.
  Of React the model has what the providers use: the updates of a state in the order they were handed over, cells that stay (\<open>useRef\<close>),
  callbacks that keep the values of the render that made them (\<open>useCallback\<close>), and effects that run after a render in which one of their
  inputs changed. Database, bundle and connection are values of any type.
\<close>

section \<open>Resolvable\<close>

datatype ResolvableStatus = NONE | RUNNING | FAILED | COMPLETED

record ('v, 'p) Resolvable =
  rv_status :: ResolvableStatus
  rv_value :: "'v option"
  rv_error :: "string option"
  rv_progress :: "'p option"

definition new_Resolvable :: "('v, 'p) Resolvable" where
  "new_Resolvable = \<lparr>rv_status = NONE, rv_value = None, rv_error = None, rv_progress = None\<rparr>"

definition resolving :: "('v, 'p) Resolvable \<Rightarrow> bool" where
  "resolving r \<longleftrightarrow> rv_status r \<noteq> NONE"

definition completeWith :: "'v \<Rightarrow> 'p option \<Rightarrow> ('v, 'p) Resolvable \<Rightarrow> ('v, 'p) Resolvable" where
  "completeWith value progress r = \<lparr>rv_status = COMPLETED, rv_value = Some value, rv_error = rv_error r, rv_progress = progress\<rparr>"

text \<open>\<open>error || null\<close>: an empty message is no error.\<close>

definition failWith :: "string \<Rightarrow> 'p option \<Rightarrow> ('v, 'p) Resolvable \<Rightarrow> ('v, 'p) Resolvable" where
  "failWith error progress r =
     \<lparr>rv_status = FAILED, rv_value = rv_value r, rv_error = (if error = [] then None else Some error), rv_progress = progress\<rparr>"

definition updateRunning :: "'p option \<Rightarrow> ('v, 'p) Resolvable \<Rightarrow> ('v, 'p) Resolvable" where
  "updateRunning progress r = \<lparr>rv_status = RUNNING, rv_value = rv_value r, rv_error = rv_error r, rv_progress = progress\<rparr>"

lemmas resolvable_defs = new_Resolvable_def resolving_def completeWith_def failWith_def updateRunning_def

text \<open>The updates handed to \<open>setBundle\<close> and \<open>updateSetup\<close>, and the state they make.\<close>

datatype ('v, 'p) update = UpdateRunning "'p option" | FailWith string | CompleteWith 'v

fun updated :: "('v, 'p) update \<Rightarrow> ('v, 'p) Resolvable \<Rightarrow> ('v, 'p) Resolvable" where
  "updated (UpdateRunning p) r = updateRunning p r"
| "updated (FailWith e) r = failWith e None r"
| "updated (CompleteWith v) r = completeWith v None r"

definition shown :: "('v, 'p) update list \<Rightarrow> ('v, 'p) Resolvable" where
  "shown us = fold updated us new_Resolvable"

lemma shown_Nil [simp]: "shown [] = new_Resolvable"
  by (simp add: shown_def)

lemma shown_snoc [simp]: "shown (us @ [u]) = updated u (shown us)"
  by (simp add: shown_def)

section \<open>The bundle\<close>

text \<open>
  \<open>DuckDBPlatform\<close>. \<open>pl_captured\<close> is the state at the render that made the callback, which is the one in which \<open>props.bundles\<close> last changed.
  A promise is its place in \<open>pl_promises\<close>; it is None while it is pending. \<open>named\<close> is the bundle the query of the address asks for, if it is one of
  the bundles: then the function under way has ended before it is assigned.
\<close>

record 'b platform =
  pl_captured :: "('b, unit) Resolvable"
  pl_inFlight :: "nat option"
  pl_promises :: "'b option option list"
  pl_updates :: "('b, unit) update list"

datatype 'b resolved = Now "'b option" | Promised nat

definition resolve_bundle :: "'b option \<Rightarrow> 'b platform \<Rightarrow> 'b resolved \<times> 'b platform" where
  "resolve_bundle named s =
     (if rv_error (pl_captured s) \<noteq> None then (Now None, s)
      else if rv_value (pl_captured s) \<noteq> None then (Now (rv_value (pl_captured s)), s)
      else case pl_inFlight s of Some n \<Rightarrow> (Promised n, s)
      | None \<Rightarrow>
          (let n = length (pl_promises s);
               s = s\<lparr>pl_updates := pl_updates s @ [UpdateRunning None]\<rparr>
           in case named of
                Some b \<Rightarrow> (Promised n, s\<lparr>pl_updates := pl_updates s @ [CompleteWith b], pl_promises := pl_promises s @ [Some (Some b)],
                             pl_inFlight := Some n\<rparr>)
              | None \<Rightarrow> (Promised n, s\<lparr>pl_promises := pl_promises s @ [None], pl_inFlight := Some n\<rparr>)))"

text \<open>\<open>selectBundle\<close> settles.\<close>

definition bundle_selected :: "nat \<Rightarrow> (string + 'b) \<Rightarrow> 'b platform \<Rightarrow> 'b platform" where
  "bundle_selected n r s =
     (case r of Inr b \<Rightarrow> s\<lparr>pl_inFlight := None, pl_updates := pl_updates s @ [CompleteWith b], pl_promises := (pl_promises s)[n := Some (Some b)]\<rparr>
      | Inl e \<Rightarrow> s\<lparr>pl_inFlight := None, pl_updates := pl_updates s @ [FailWith e], pl_promises := (pl_promises s)[n := Some None]\<rparr>)"

datatype 'b platform_event = AskBundle "'b option" | Selected nat "string + 'b"

inductive platform_step :: "'b platform \<Rightarrow> 'b platform_event \<Rightarrow> 'b platform \<Rightarrow> bool" where
  ask: "platform_step s (AskBundle named) (snd (resolve_bundle named s))"
| selected: "n < length (pl_promises s) \<Longrightarrow> pl_promises s ! n = None \<Longrightarrow> platform_step s (Selected n r) (bundle_selected n r s)"

definition DuckDBPlatform :: "'b platform" where
  "DuckDBPlatform = \<lparr>pl_captured = new_Resolvable, pl_inFlight = None, pl_promises = [], pl_updates = []\<rparr>"

text \<open>One selection at a time, and the one under way is the one new callers get.\<close>

definition platform_inv :: "'b platform \<Rightarrow> bool" where
  "platform_inv s \<longleftrightarrow> (\<forall>n < length (pl_promises s). pl_promises s ! n = None \<longrightarrow> pl_inFlight s = Some n)
     \<and> (\<forall>n. pl_inFlight s = Some n \<longrightarrow> n < length (pl_promises s))"

lemma platform_inv_ask: "platform_inv s \<Longrightarrow> platform_inv (snd (resolve_bundle named s))"
  by (cases "pl_inFlight s"; cases named) (auto simp: platform_inv_def resolve_bundle_def Let_def nth_append less_Suc_eq)

lemma platform_inv_selected:
  assumes "platform_inv s" "n < length (pl_promises s)" "pl_promises s ! n = None"
  shows "platform_inv (bundle_selected n r s)"
proof -
  have pending: "pl_inFlight s = Some k" if "k < length (pl_promises s)" "pl_promises s ! k = None" for k
    using assms(1) that unfolding platform_inv_def by blast
  have others: "pl_promises s ! k \<noteq> None" if "k < length (pl_promises s)" "k \<noteq> n" for k
  proof
    assume "pl_promises s ! k = None"
    with pending [OF that(1)] pending [OF assms(2,3)] have "Some k = Some n" by metis
    with that(2) show False by simp
  qed
  have "(pl_promises s)[n := Some v] ! k \<noteq> None" if "k < length (pl_promises s)" for k v
    using others [OF that] that assms(2) by (cases "k = n") simp_all
  then show ?thesis by (cases r) (simp_all add: platform_inv_def bundle_selected_def del: not_None_eq)
qed

lemma platform_inv_step: "platform_inv s \<Longrightarrow> platform_step s e t \<Longrightarrow> platform_inv t"
  by (elim platform_step.cases) (simp_all add: platform_inv_ask platform_inv_selected)

interpretation platform: invariant_machine platform_step platform_inv
  by unfold_locales (rule platform_inv_step)

text \<open>The checks for an error and for a value look at the captured state: after a failure, as after a success, the next call starts again.\<close>

lemma resolver_starts_again:
  assumes "pl_captured s = new_Resolvable" "pl_inFlight s = Some n" "platform_inv s"
  shows "fst (resolve_bundle None (bundle_selected n r s)) = Promised (length (pl_promises s))"
  using assms by (auto simp: resolve_bundle_def bundle_selected_def new_Resolvable_def Let_def split: sum.splits)

section \<open>The database\<close>

text \<open>
  \<open>DuckDBProvider\<close>: the resolver runs once. Between two awaits it is in one of the phases; \<open>dp_ref\<close> is the cell that the cleanup looks
  into for a worker to terminate. The resolver keeps its worker in a variable of the same name instead.
\<close>

datatype 'd phase = Idle | Bundling | Instantiating 'd | Opening 'd | Settled "'d option"

record ('d, 'p) db_provider =
  dp_phase :: "'d phase"
  dp_updates :: "('d, 'p) update list"
  dp_workers :: nat
  dp_ref :: "nat option"
  dp_terminated :: "nat list"

definition DuckDBProvider :: "('d, 'p) db_provider" where
  "DuckDBProvider = \<lparr>dp_phase = Idle, dp_updates = [], dp_workers = 0, dp_ref = None, dp_terminated = []\<rparr>"

text \<open>The resolver is called; \<open>resolveBundle\<close> settles, and the constructors throw, with the worker made or not, or make worker and database; a report on the download arrives;
  \<open>instantiate\<close> and \<open>open\<close> settle; the provider is unmounted.\<close>

datatype ('d, 'p) db_event =
  AskDatabase
| Bundle bool "(bool \<times> string) + 'd"
| Report 'p
| Instantiated "string + unit"
| Opened "string + unit"
| Unmount

definition db_fails :: "string \<Rightarrow> ('d, 'p) db_provider \<Rightarrow> ('d, 'p) db_provider" where
  "db_fails e s = s\<lparr>dp_updates := dp_updates s @ [FailWith e], dp_phase := Settled None\<rparr>"

definition db_completes :: "'d \<Rightarrow> ('d, 'p) db_provider \<Rightarrow> ('d, 'p) db_provider" where
  "db_completes d s = s\<lparr>dp_updates := dp_updates s @ [CompleteWith d], dp_phase := Settled (Some d)\<rparr>"

fun db_step :: "bool \<Rightarrow> ('d, 'p) db_event \<Rightarrow> ('d, 'p) db_provider \<Rightarrow> ('d, 'p) db_provider" where
  "db_step config AskDatabase s = (case dp_phase s of Idle \<Rightarrow> s\<lparr>dp_phase := Bundling\<rparr> | _ \<Rightarrow> s)"
| "db_step config (Bundle found made) s = (case dp_phase s of
     Bundling \<Rightarrow> (if \<not> found then db_fails ''invalid bundle'' s
       else case made of Inl (worker, e) \<Rightarrow> db_fails e (s\<lparr>dp_workers := dp_workers s + (if worker then 1 else 0)\<rparr>)
       | Inr d \<Rightarrow> s\<lparr>dp_workers := dp_workers s + 1, dp_phase := Instantiating d\<rparr>)
   | _ \<Rightarrow> s)"
| "db_step config (Report p) s = (case dp_phase s of
     Instantiating d \<Rightarrow> s\<lparr>dp_updates := dp_updates s @ [UpdateRunning (Some p)]\<rparr> | _ \<Rightarrow> s)"
| "db_step config (Instantiated r) s = (case dp_phase s of
     Instantiating d \<Rightarrow> (case r of Inl e \<Rightarrow> db_fails e s | Inr _ \<Rightarrow> if config then s\<lparr>dp_phase := Opening d\<rparr> else db_completes d s)
   | _ \<Rightarrow> s)"
| "db_step config (Opened r) s = (case dp_phase s of
     Opening d \<Rightarrow> (case r of Inl e \<Rightarrow> db_fails e s | Inr _ \<Rightarrow> db_completes d s) | _ \<Rightarrow> s)"
| "db_step config Unmount s = (case dp_ref s of Some w \<Rightarrow> s\<lparr>dp_terminated := dp_terminated s @ [w], dp_ref := None\<rparr> | None \<Rightarrow> s)"

text \<open>What the components see tells how far the resolver is; one worker at most is made, and none is ever terminated.\<close>

definition db_inv :: "('d, 'p) db_provider \<Rightarrow> bool" where
  "db_inv s \<longleftrightarrow> dp_ref s = None \<and> dp_terminated s = [] \<and> dp_workers s \<le> 1
     \<and> (case dp_phase s of Idle \<Rightarrow> shown (dp_updates s) = new_Resolvable \<and> dp_workers s = 0
        | Bundling \<Rightarrow> shown (dp_updates s) = new_Resolvable \<and> dp_workers s = 0
        | Settled (Some d) \<Rightarrow> rv_status (shown (dp_updates s)) = COMPLETED \<and> rv_value (shown (dp_updates s)) = Some d
        | Settled None \<Rightarrow> rv_status (shown (dp_updates s)) = FAILED \<and> rv_value (shown (dp_updates s)) = None
        | _ \<Rightarrow> rv_status (shown (dp_updates s)) \<in> {NONE, RUNNING} \<and> rv_value (shown (dp_updates s)) = None)"

lemma db_inv_step: "db_inv s \<Longrightarrow> db_inv (db_step config e s)"
  by (cases e)
    (auto simp: db_inv_def db_fails_def db_completes_def resolvable_defs split: phase.splits option.splits sum.splits if_splits)

lemma db_inv_run: "db_inv (fold (db_step config) es DuckDBProvider)"
proof (induction es rule: rev_induct)
  case Nil
  show ?case by (simp add: db_inv_def DuckDBProvider_def)
qed (simp add: db_inv_step)

text \<open>A failure is final: no event leaves it, so that every later caller gets null.\<close>

lemma db_failure_is_final: "dp_phase s = Settled None \<Longrightarrow> dp_phase (fold (db_step config) es s) = Settled None"
proof (induction es arbitrary: s)
  case (Cons e es)
  have "dp_phase (db_step config e s) = Settled None" using Cons.prems by (cases e) (simp_all split: option.splits)
  then show ?case by (simp add: Cons.IH)
qed simp

section \<open>Connections\<close>

text \<open>
  \<open>DuckDBConnectionProvider\<close>. A render shows a database and the pending ids; the callback has those of the last render in which the
  database changed. \<open>cp_next\<close> is the value of \<open>setPending\<close> that waits for the next render. A connection that is being made
  is the id it is for.
\<close>

record 'd conn_provider =
  cp_db :: "('d, unit) Resolvable"
  cp_pending :: "nat list"
  cp_next :: "nat list option"
  cp_captured :: "nat list"
  cp_connecting :: "nat list"
  cp_pool :: "(nat, nat) jsmap"
  cp_asked :: bool
  cp_connections :: nat

definition DuckDBConnectionProvider :: "'d conn_provider" where
  "DuckDBConnectionProvider = \<lparr>cp_db = new_Resolvable, cp_pending = [], cp_next = None, cp_captured = [], cp_connecting = [],
     cp_pool = [], cp_asked = False, cp_connections = 0\<rparr>"

text \<open>\<open>dialer\<close> up to its await: \<open>inFlight.current.get(id)\<close> finds nothing, since nothing is ever put there.\<close>

definition dialer :: "nat \<Rightarrow> 'd conn_provider \<Rightarrow> 'd conn_provider" where
  "dialer i s = s\<lparr>cp_connecting := cp_connecting s @ [i]\<rparr>"

definition dialerCallback :: "nat option \<Rightarrow> 'd conn_provider \<Rightarrow> 'd conn_provider" where
  "dialerCallback i s =
     (let i = (case i of Some n \<Rightarrow> n | None \<Rightarrow> 0) in
      if rv_value (cp_db s) \<noteq> None then dialer i s
      else if \<not> resolving (cp_db s) then s\<lparr>cp_asked := True, cp_next := Some (cp_captured s @ [i])\<rparr>
      else s)"

text \<open>The effect: runs where the database or the pending ids changed.\<close>

definition process_pending :: "'d conn_provider \<Rightarrow> 'd conn_provider" where
  "process_pending s = (if rv_value (cp_db s) = None then s else fold dialer (cp_pending s) (s\<lparr>cp_next := Some []\<rparr>))"

datatype 'd conn_event = Dial "nat option" | Render | Database "('d, unit) Resolvable" | Connected nat

fun conn_step :: "'d conn_event \<Rightarrow> 'd conn_provider \<Rightarrow> 'd conn_provider" where
  "conn_step (Dial i) s = dialerCallback i s"
| "conn_step Render s = (case cp_next s of None \<Rightarrow> s
     | Some p \<Rightarrow> (let s' = s\<lparr>cp_pending := p, cp_next := None\<rparr> in if p = cp_pending s then s' else process_pending s'))"
| "conn_step (Database r) s = (let p = (case cp_next s of Some p \<Rightarrow> p | None \<Rightarrow> cp_pending s) in
     process_pending (s\<lparr>cp_db := r, cp_pending := p, cp_next := None, cp_captured := p\<rparr>))"
| "conn_step (Connected n) s = (if n < length (cp_connecting s)
     then s\<lparr>cp_connecting := take n (cp_connecting s) @ drop (Suc n) (cp_connecting s), cp_connections := cp_connections s + 1,
            cp_pool := jm_set (cp_connecting s ! n) (cp_connections s) (cp_pool s)\<rparr>
     else s)"

section \<open>Requests that get lost\<close>

text \<open>What the next render of a database will find pending.\<close>

definition upcoming :: "'d conn_provider \<Rightarrow> nat list" where
  "upcoming s = (case cp_next s of Some p \<Rightarrow> p | None \<Rightarrow> cp_pending s)"

fun asks :: "'d conn_event \<Rightarrow> bool" where
  "asks (Dial i) = True"
| "asks Render = True"
| "asks e = False"

fun dialed :: "'d conn_event list \<Rightarrow> nat list" where
  "dialed [] = []"
| "dialed (Dial i # es) = (case i of Some n \<Rightarrow> n | None \<Rightarrow> 0) # dialed es"
| "dialed (e # es) = dialed es"

definition last_of :: "'a list \<Rightarrow> 'a list \<Rightarrow> 'a list" where
  "last_of old xs = (if xs = [] then old else [last xs])"

text \<open>Nobody has asked for the database yet: each request takes the place of the one before.\<close>

lemma asked_before:
  assumes "list_all asks es" "cp_db s = new_Resolvable" "cp_captured s = []" "cp_connecting s = []"
  shows "upcoming (fold conn_step es s) = last_of (upcoming s) (dialed es) \<and> cp_db (fold conn_step es s) = new_Resolvable
    \<and> cp_connecting (fold conn_step es s) = []"
  using assms
proof (induction es arbitrary: s)
  case (Cons e es)
  let ?t = "conn_step e s"
  have "upcoming ?t = last_of (upcoming s) (dialed [e]) \<and> cp_db ?t = new_Resolvable \<and> cp_captured ?t = [] \<and> cp_connecting ?t = []"
    using Cons.prems
    by (cases e) (auto simp: upcoming_def dialerCallback_def process_pending_def resolvable_defs last_of_def Let_def split: option.splits)
  with Cons.IH [of ?t] Cons.prems(1) show ?case by (cases e) (auto simp: last_of_def)
qed (simp add: last_of_def)

text \<open>The database is on its way: requests do nothing.\<close>

lemma asked_meanwhile:
  assumes "list_all asks es" "resolving (cp_db s)" "rv_value (cp_db s) = None" "cp_connecting s = []"
  shows "upcoming (fold conn_step es s) = upcoming s \<and> cp_db (fold conn_step es s) = cp_db s \<and> cp_connecting (fold conn_step es s) = []"
  using assms
proof (induction es arbitrary: s)
  case (Cons e es)
  let ?t = "conn_step e s"
  have "upcoming ?t = upcoming s \<and> cp_db ?t = cp_db s \<and> cp_connecting ?t = []"
    using Cons.prems by (cases e) (auto simp: upcoming_def dialerCallback_def process_pending_def Let_def split: option.splits)
  with Cons.IH [of ?t] Cons.prems show ?case by (cases e) auto
qed simp

definition round_events :: "('d, unit) Resolvable \<times> 'd conn_event list \<Rightarrow> 'd conn_event list" where
  "round_events = (\<lambda>(r, es). Database r # es)"

lemma asked_in_rounds:
  assumes "\<forall>(r, es) \<in> set rounds. resolving r \<and> rv_value r = None \<and> list_all asks es" "cp_connecting s = []"
  shows "upcoming (fold conn_step (concat (map round_events rounds)) s) = upcoming s
    \<and> cp_connecting (fold conn_step (concat (map round_events rounds)) s) = []"
  using assms
proof (induction rounds arbitrary: s)
  case (Cons x rounds)
  obtain r es where x: "x = (r, es)" by force
  let ?t = "conn_step (Database r) s"
  have r: "resolving r" "rv_value r = None" "list_all asks es" using Cons.prems(1) by (simp_all add: x)
  have t: "cp_db ?t = r" "upcoming ?t = upcoming s" "cp_connecting ?t = []"
    using r(2) Cons.prems(2) by (simp_all add: process_pending_def upcoming_def Let_def)
  from asked_meanwhile [OF r(3), of ?t] r t Cons.IH [of "fold conn_step es ?t"] Cons.prems(1)
  show ?case by (simp add: x round_events_def)
qed simp

lemma connecting_dialed: "cp_connecting (fold dialer is s) = cp_connecting s @ is"
  by (induction "is" arbitrary: s) (simp_all add: dialer_def)

text \<open>C40: However many connections components ask for until the database is up, one is made: for the id that was asked for last before the state of the
  database first changed. The others are neither made nor kept.\<close>

theorem early_requests_are_lost:
  fixes up :: "('d, unit) Resolvable"
  assumes "list_all asks es" "\<forall>(r, es') \<in> set rounds. resolving r \<and> rv_value r = None \<and> list_all asks es'" "rv_value up \<noteq> None"
  shows "cp_connecting (fold conn_step (es @ concat (map round_events rounds) @ [Database up]) DuckDBConnectionProvider)
    = last_of [] (dialed es)"
proof -
  let ?s = "fold conn_step es DuckDBConnectionProvider" and ?rs = "concat (map round_events rounds)"
  have s: "upcoming ?s = last_of [] (dialed es)" "cp_connecting ?s = []"
    using asked_before [OF assms(1), of DuckDBConnectionProvider] by (simp_all add: DuckDBConnectionProvider_def upcoming_def)
  note t = asked_in_rounds [OF assms(2) s(2)]
  have "cp_connecting (conn_step (Database up) u) = cp_connecting u @ upcoming u" for u :: "'d conn_provider"
    using assms(3) by (auto simp: process_pending_def connecting_dialed upcoming_def Let_def)
  then show ?thesis using s t by simp
qed

theorem early_requests_are_lost_witness:
  "cp_connecting (fold conn_step [Dial (Some 1), Dial (Some 2), Render, Database (updateRunning None new_Resolvable), Dial (Some 3),
     Database (completeWith ''db'' None new_Resolvable)] DuckDBConnectionProvider) = [2]"
  using early_requests_are_lost [of "[Dial (Some 1), Dial (Some 2), Render]" "[(updateRunning None new_Resolvable, [Dial (Some 3)])]"
      "completeWith ''db'' None new_Resolvable"]
  by (simp add: round_events_def last_of_def resolvable_defs)

text \<open>Asking twice for one id makes two connections, of which the pool keeps the second: the first is never closed.\<close>

lemma asking_twice_leaks:
  assumes "rv_value (cp_db s) \<noteq> None" "cp_connecting s = []"
  shows "cp_connections (fold conn_step [Dial (Some i), Dial (Some i), Connected 0, Connected 0] s) = cp_connections s + 2
    \<and> jm_get (cp_pool (fold conn_step [Dial (Some i), Dial (Some i), Connected 0, Connected 0] s)) i = Some (cp_connections s + 1)"
  using assms by (simp add: dialerCallback_def dialer_def)

end
