(* ===== verification/Hb_Dylink.thy ===== *)
theory Hb_Dylink
  imports Hb_Prelude
begin

text \<open>
  \<open>scripts/patch_dylink_glue.cjs\<close> puts a reader of WebAssembly modules into the code that links side modules: \<open>__hbMutableGlobals\<close> reads from
  the bytes of a module which of its exported globals are mutable, and \<open>relocateExports\<close> goes by that instead of writing to each
  global and catching the exception. Here is the reader, and the binary format it reads, by an encoder.
\<close>

section \<open>The reader\<close>

text \<open>\<open>b[o]\<close>, which is undefined past the end; the offset \<open>o\<close> of the code is passed along.\<close>

definition byte_at :: "nat list \<Rightarrow> nat \<Rightarrow> nat option" where
  "byte_at b o' = (if o' < length b then Some (b ! o') else None)"

text \<open>\<open>L\<close>: a number in LEB128; what is undefined counts as 0 and ends it. The code adds it up in a double, which is exact for the lengths, counts and
  indices of a module (they have 32 bits); of operands only the end matters.\<close>

function read_leb :: "nat list \<Rightarrow> nat \<Rightarrow> nat \<times> nat" where
  "read_leb b p = (case byte_at b p of None \<Rightarrow> (0, p + 1)
     | Some x \<Rightarrow> if odd (x div 128) then (case read_leb b (p + 1) of (v, q) \<Rightarrow> (x mod 128 + 128 * v, q)) else (x mod 128, p + 1))"
  by pat_completeness auto
termination
  by (relation "measure (\<lambda>(b, p). length b - p)") (auto simp: byte_at_def split: if_splits)

declare read_leb.simps [simp del]

lemma read_leb_forward: "p < snd (read_leb b p)"
proof (induction b p rule: read_leb.induct)
  case (1 b p)
  then show ?case by (subst read_leb.simps) (force split: option.splits prod.splits)
qed

lemma read_leb_forward_eq: "(n, q) = read_leb b p \<Longrightarrow> p < q"
  by (metis read_leb_forward snd_conv)

text \<open>\<open>S\<close>, \<open>T\<close> and \<open>M\<close>: the offset behind a name, a type and the limits of a table or memory.\<close>

definition skip_name :: "nat list \<Rightarrow> nat \<Rightarrow> nat" where
  "skip_name b p = (case read_leb b p of (n, q) \<Rightarrow> q + n)"

definition skip_type :: "nat list \<Rightarrow> nat \<Rightarrow> nat" where
  "skip_type b p = (if byte_at b p = Some 99 \<or> byte_at b p = Some 100 then snd (read_leb b (p + 1)) else p + 1)"

definition skip_limits :: "nat list \<Rightarrow> nat \<Rightarrow> nat" where
  "skip_limits b p =
     (let f = (case byte_at b p of Some f \<Rightarrow> f | None \<Rightarrow> 0);
          q = snd (read_leb b (p + 1));
          q = (if odd f then snd (read_leb b q) else q)
      in if odd (f div 8) then snd (read_leb b q) else q)"

definition mutable_at :: "nat list \<Rightarrow> nat \<Rightarrow> bool" where
  "mutable_at b p = (case byte_at b p of Some x \<Rightarrow> odd x | None \<Rightarrow> False)"

text \<open>The section of imports; None is the return without a value.\<close>

fun read_imports :: "nat \<Rightarrow> nat list \<Rightarrow> nat \<Rightarrow> bool list \<Rightarrow> (bool list \<times> nat) option" where
  "read_imports 0 b p m = Some (m, p)"
| "read_imports (Suc c) b p m =
     (let p = skip_name b p; p = skip_name b p; k = byte_at b p; p = p + 1 in
      if k = Some 0 then read_imports c b (snd (read_leb b p)) m
      else if k = Some 1 then read_imports c b (skip_limits b (skip_type b p)) m
      else if k = Some 2 then read_imports c b (skip_limits b p) m
      else if k = Some 3 then (let p = skip_type b p in read_imports c b (p + 1) (m @ [mutable_at b p]))
      else if k = Some 4 then read_imports c b (snd (read_leb b (p + 1))) m
      else None)"

text \<open>A constant expression, up to and with its end.\<close>

function skip_init :: "nat list \<Rightarrow> nat \<Rightarrow> nat option" where
  "skip_init b p = (case byte_at b p of None \<Rightarrow> None
     | Some x \<Rightarrow>
         if x = 11 then Some (p + 1)
         else if x = 67 then skip_init b (p + 1 + 4)
         else if x = 68 then skip_init b (p + 1 + 8)
         else if x = 65 \<or> x = 66 \<or> x = 35 \<or> x = 208 \<or> x = 210 then skip_init b (snd (read_leb b (p + 1)))
         else if \<not> (106 \<le> x \<and> x \<le> 108 \<or> 124 \<le> x \<and> x \<le> 126) then None
         else skip_init b (p + 1))"
  by pat_completeness auto
termination
proof (relation "measure (\<lambda>(b, p). length b - p)")
  fix b p x
  assume "byte_at b p = Some x"
  then have "p < length b" by (simp add: byte_at_def split: if_splits)
  moreover have "p + 1 < snd (read_leb b (p + 1))" by (rule read_leb_forward)
  ultimately show "((b, snd (read_leb b (p + 1))), b, p) \<in> measure (\<lambda>(b, p). length b - p)" by simp
qed (auto simp: byte_at_def split: if_splits)

declare skip_init.simps [simp del]

fun read_globals :: "nat \<Rightarrow> nat list \<Rightarrow> nat \<Rightarrow> bool list \<Rightarrow> (bool list \<times> nat) option" where
  "read_globals 0 b p m = Some (m, p)"
| "read_globals (Suc c) b p m =
     (let p = skip_type b p in case skip_init b (p + 1) of None \<Rightarrow> None | Some q \<Rightarrow> read_globals c b q (m @ [mutable_at b p]))"

text \<open>The section of exports. \<open>U\<close> is \<open>UTF8ArrayToString\<close> of Emscripten.\<close>

definition add_name :: "'n \<Rightarrow> 'n list \<Rightarrow> 'n list" where
  "add_name x r = (if x \<in> set r then r else r @ [x])"

fun read_exports :: "(nat list \<Rightarrow> nat \<Rightarrow> nat \<Rightarrow> 'n) \<Rightarrow> nat \<Rightarrow> nat list \<Rightarrow> nat \<Rightarrow> bool list \<Rightarrow> 'n list \<Rightarrow> 'n list \<times> nat" where
  "read_exports U 0 b p m r = (r, p)"
| "read_exports U (Suc c) b p m r =
     (let a = p; p = skip_name b p; k = byte_at b p; (i, p) = read_leb b (p + 1);
          r = (if k = Some 3 \<and> i < length m \<and> m ! i then (case read_leb b a of (l, q) \<Rightarrow> add_name (U b q l) r) else r)
      in read_exports U c b p m r)"

function read_sections :: "(nat list \<Rightarrow> nat \<Rightarrow> nat \<Rightarrow> 'n) \<Rightarrow> nat list \<Rightarrow> nat \<Rightarrow> bool list \<Rightarrow> 'n list \<Rightarrow> 'n list option" where
  "read_sections U b p m r =
     (if p < length b then
        (case read_leb b (p + 1) of (n, q) \<Rightarrow>
           let sid = b ! p; e = q + n in
           if sid = 2 then (case read_leb b q of (c, q) \<Rightarrow> (case read_imports c b q m of None \<Rightarrow> None
             | Some (m, q) \<Rightarrow> if q \<noteq> e then None else read_sections U b e m r))
           else if sid = 6 then (case read_leb b q of (c, q) \<Rightarrow> (case read_globals c b q m of None \<Rightarrow> None
             | Some (m, q) \<Rightarrow> if q \<noteq> e then None else read_sections U b e m r))
           else if sid = 7 then (case read_leb b q of (c, q) \<Rightarrow> (case read_exports U c b q m r of (r, q) \<Rightarrow> if q = e then Some r else None))
           else read_sections U b e m r)
      else Some r)"
  by pat_completeness auto
termination
proof (relation "measure (\<lambda>(U, b, p, m, r). length b - p)")
  show "wf (measure (\<lambda>(U, b, p, m, r). length b - p))" by simp
qed (auto dest!: read_leb_forward_eq)

declare read_sections.simps [simp del]

definition mutable_globals :: "(nat list \<Rightarrow> nat \<Rightarrow> nat \<Rightarrow> 'n) \<Rightarrow> nat list \<Rightarrow> 'n list option" where
  "mutable_globals U b = read_sections U b 8 [] []"

text \<open>\<open>relocateExport\<close>, as patched: is the export a global that may not be written? Without a result of the reader Emscripten's probe decides.\<close>

definition relocated :: "'n list option \<Rightarrow> bool \<Rightarrow> bool \<Rightarrow> 'n \<Rightarrow> bool" where
  "relocated hbMut isGlobal isImmutableGlobal name =
     (case hbMut of Some names \<Rightarrow> isGlobal \<and> name \<notin> set names | None \<Rightarrow> isImmutableGlobal)"

section \<open>The binary format\<close>

text \<open>
  A number with the bytes its encoding is longer than it has to be: linkers pad. Every encoding in LEB128, of a signed number as well, is
  one of these.
\<close>

type_synonym leb = "nat \<times> nat"

function leb_bytes :: "nat \<Rightarrow> nat \<Rightarrow> nat list" where
  "leb_bytes v pad = (if v < 128 then (case pad of 0 \<Rightarrow> [v] | Suc k \<Rightarrow> (v + 128) # leb_bytes 0 k)
     else (v mod 128 + 128) # leb_bytes (v div 128) pad)"
  by pat_completeness auto
termination
  by (relation "measure (\<lambda>(v, pad). v + pad)") auto

declare leb_bytes.simps [simp del]

abbreviation leb :: "leb \<Rightarrow> nat list" where
  "leb n \<equiv> leb_bytes (fst n) (snd n)"

type_synonym name = "nat \<times> nat list"

definition name_bytes :: "name \<Rightarrow> nat list" where
  "name_bytes n = leb_bytes (length (snd n)) (fst n) @ snd n"

text \<open>A type: one byte, or a reference with its heap type. Limits: the flags, the minimum, and what the flags say. A constant instruction: those with
  a number (\<open>i32.const\<close>, \<open>i64.const\<close>, \<open>global.get\<close>, \<open>ref.null\<close>, \<open>ref.func\<close>), the constants of floating point, the constant of a
  vector with the padding of its second opcode, addition, subtraction and multiplication, and the instructions of the garbage collector
  (\<open>struct.new\<close>, \<open>array.new\<close>, \<open>ref.i31\<close> and so on) with their second opcode and their operands.\<close>

datatype wasm_type = Plain nat | Reference nat leb

datatype limits = Limits nat leb leb leb

datatype import_desc =
  ImFunction leb
| ImTable wasm_type limits
| ImMemory limits
| ImGlobal wasm_type bool
| ImTag nat leb

datatype const_instr =
  WithNumber nat leb
| F32 "nat list"
| F64 "nat list"
| V128 nat "nat list"
| Arithmetic nat
| Collected leb "leb list"

datatype wasm_section =
  Imports nat nat "(name \<times> name \<times> import_desc) list"
| Globals nat nat "(wasm_type \<times> bool \<times> const_instr list) list"
| Other nat nat "nat list"

text \<open>The two numbers of a section: the padding of its size and of the number of its entries. An export: its name, its kind and its index. A module: its sections before the exports, the exports, if any, and what follows.\<close>

record wasm_export =
  ex_name :: name
  ex_kind :: nat
  ex_index :: leb

record wasm_module =
  wm_header :: "nat list"
  wm_sections :: "wasm_section list"
  wm_exports :: "(nat \<times> nat \<times> wasm_export list) option"
  wm_rest :: "nat list"

fun type_bytes :: "wasm_type \<Rightarrow> nat list" where
  "type_bytes (Plain t) = [t]"
| "type_bytes (Reference t h) = t # leb h"

fun limits_bytes :: "limits \<Rightarrow> nat list" where
  "limits_bytes (Limits f least most page) = f # leb least @ (if odd f then leb most else []) @ (if odd (f div 8) then leb page else [])"

definition bit_byte :: "bool \<Rightarrow> nat" where
  "bit_byte m = (if m then 1 else 0)"

fun desc_bytes :: "import_desc \<Rightarrow> nat list" where
  "desc_bytes (ImFunction i) = 0 # leb i"
| "desc_bytes (ImTable t l) = 1 # type_bytes t @ limits_bytes l"
| "desc_bytes (ImMemory l) = 2 # limits_bytes l"
| "desc_bytes (ImGlobal t m) = 3 # type_bytes t @ [bit_byte m]"
| "desc_bytes (ImTag a i) = 4 # a # leb i"

fun instr_bytes :: "const_instr \<Rightarrow> nat list" where
  "instr_bytes (WithNumber x i) = x # leb i"
| "instr_bytes (F32 bs) = 67 # bs"
| "instr_bytes (F64 bs) = 68 # bs"
| "instr_bytes (V128 pad bs) = 253 # leb_bytes 12 pad @ bs"
| "instr_bytes (Arithmetic x) = [x]"
| "instr_bytes (Collected x is) = 251 # leb x @ concat (map leb is)"

definition import_bytes :: "name \<times> name \<times> import_desc \<Rightarrow> nat list" where
  "import_bytes = (\<lambda>(m, n, d). name_bytes m @ name_bytes n @ desc_bytes d)"

definition global_bytes :: "wasm_type \<times> bool \<times> const_instr list \<Rightarrow> nat list" where
  "global_bytes = (\<lambda>(t, m, is). type_bytes t @ bit_byte m # concat (map instr_bytes is) @ [11])"

definition export_bytes :: "wasm_export \<Rightarrow> nat list" where
  "export_bytes x = name_bytes (ex_name x) @ ex_kind x # leb (ex_index x)"

text \<open>The content of a section begins with the number of its entries; before it stand its id and its size.\<close>

definition section_frame :: "nat \<Rightarrow> nat \<Rightarrow> nat list \<Rightarrow> nat list" where
  "section_frame sid pad content = sid # leb_bytes (length content) pad @ content"

fun section_bytes :: "wasm_section \<Rightarrow> nat list" where
  "section_bytes (Imports pad k xs) = section_frame 2 pad (leb_bytes (length xs) k @ concat (map import_bytes xs))"
| "section_bytes (Globals pad k xs) = section_frame 6 pad (leb_bytes (length xs) k @ concat (map global_bytes xs))"
| "section_bytes (Other sid pad content) = section_frame sid pad content"

definition exports_bytes :: "nat \<times> nat \<times> wasm_export list \<Rightarrow> nat list" where
  "exports_bytes = (\<lambda>(pad, k, xs). section_frame 7 pad (leb_bytes (length xs) k @ concat (map export_bytes xs)))"

definition module_bytes :: "wasm_module \<Rightarrow> nat list" where
  "module_bytes w = wm_header w @ concat (map section_bytes (wm_sections w))
     @ (case wm_exports w of None \<Rightarrow> [] | Some x \<Rightarrow> exports_bytes x @ wm_rest w)"

text \<open>What the format asks for.\<close>

fun type_ok :: "wasm_type \<Rightarrow> bool" where
  "type_ok (Plain t) \<longleftrightarrow> t \<noteq> 99 \<and> t \<noteq> 100"
| "type_ok (Reference t h) \<longleftrightarrow> t = 99 \<or> t = 100"

fun desc_ok :: "import_desc \<Rightarrow> bool" where
  "desc_ok (ImTable t l) \<longleftrightarrow> type_ok t"
| "desc_ok (ImGlobal t m) \<longleftrightarrow> type_ok t"
| "desc_ok d \<longleftrightarrow> True"

fun instr_ok :: "const_instr \<Rightarrow> bool" where
  "instr_ok (WithNumber x i) \<longleftrightarrow> x \<in> {65, 66, 35, 208, 210}"
| "instr_ok (F32 bs) \<longleftrightarrow> length bs = 4"
| "instr_ok (F64 bs) \<longleftrightarrow> length bs = 8"
| "instr_ok (V128 pad bs) \<longleftrightarrow> length bs = 16"
| "instr_ok (Arithmetic x) \<longleftrightarrow> 106 \<le> x \<and> x \<le> 108 \<or> 124 \<le> x \<and> x \<le> 126"
| "instr_ok (Collected x is) \<longleftrightarrow> True"

fun section_ok :: "wasm_section \<Rightarrow> bool" where
  "section_ok (Imports pad k xs) \<longleftrightarrow> list_all (\<lambda>(m, n, d). desc_ok d) xs"
| "section_ok (Globals pad k xs) \<longleftrightarrow> list_all (\<lambda>(t, m, is). type_ok t \<and> list_all instr_ok is) xs"
| "section_ok (Other sid pad content) \<longleftrightarrow> sid \<notin> {2, 6, 7}"

text \<open>What the reader knows: not the constants of vectors, and not the instructions of the garbage collector.\<close>

fun instr_known :: "const_instr \<Rightarrow> bool" where
  "instr_known (V128 pad bs) \<longleftrightarrow> False"
| "instr_known (Collected x is) \<longleftrightarrow> False"
| "instr_known i \<longleftrightarrow> True"

fun section_known :: "wasm_section \<Rightarrow> bool" where
  "section_known (Globals pad k xs) \<longleftrightarrow> list_all (\<lambda>(t, m, is). list_all instr_known is) xs"
| "section_known s \<longleftrightarrow> True"

definition module_known :: "wasm_module \<Rightarrow> bool" where
  "module_known w \<longleftrightarrow> list_all section_known (wm_sections w)"

text \<open>The globals of a module, the imported ones first: which are mutable.\<close>

fun desc_mutable :: "import_desc \<Rightarrow> bool list" where
  "desc_mutable (ImGlobal t m) = [m]"
| "desc_mutable d = []"

fun section_mutable :: "wasm_section \<Rightarrow> bool list" where
  "section_mutable (Imports pad k xs) = concat (map (\<lambda>(m, n, d). desc_mutable d) xs)"
| "section_mutable (Globals pad k xs) = map (\<lambda>(t, m, is). m) xs"
| "section_mutable (Other sid pad content) = []"

definition module_mutable :: "wasm_module \<Rightarrow> bool list" where
  "module_mutable w = concat (map section_mutable (wm_sections w))"

definition module_exports :: "wasm_module \<Rightarrow> wasm_export list" where
  "module_exports w = (case wm_exports w of None \<Rightarrow> [] | Some (pad, k, xs) \<Rightarrow> xs)"

definition mutable_export :: "bool list \<Rightarrow> wasm_export \<Rightarrow> bool" where
  "mutable_export m x \<longleftrightarrow> ex_kind x = 3 \<and> fst (ex_index x) < length m \<and> m ! fst (ex_index x)"

definition wasm_ok :: "(nat list \<Rightarrow> 'n) \<Rightarrow> wasm_module \<Rightarrow> bool" where
  "wasm_ok dec w \<longleftrightarrow> length (wm_header w) = 8 \<and> list_all section_ok (wm_sections w)
     \<and> distinct (map (\<lambda>x. dec (snd (ex_name x))) (module_exports w))
     \<and> (\<forall>x \<in> set (module_exports w). 0 \<notin> set (snd (ex_name x)) \<and> (ex_kind x = 3 \<longrightarrow> fst (ex_index x) < length (module_mutable w)))"

text \<open>\<open>UTF8ArrayToString\<close> decodes a range of the array, up to a zero byte if it holds one; names with such a byte are left out.\<close>

definition decodes_range :: "(nat list \<Rightarrow> nat \<Rightarrow> nat \<Rightarrow> 'n) \<Rightarrow> (nat list \<Rightarrow> 'n) \<Rightarrow> bool" where
  "decodes_range U dec \<longleftrightarrow> (\<forall>b p n. p + n \<le> length b \<longrightarrow> 0 \<notin> set (subarray p (p + n) b) \<longrightarrow> U b p n = dec (subarray p (p + n) b))"

section \<open>The reader follows the format\<close>

lemma drop_at: "drop p b = x # r \<Longrightarrow> byte_at b p = Some x" "drop p b = x # r \<Longrightarrow> drop (p + 1) b = r"
proof -
  assume d: "drop p b = x # r"
  then have p: "p < length b" using not_less_eq_eq by fastforce
  with d show "byte_at b p = Some x" by (simp add: byte_at_def) (metis nth_via_drop)
  show "drop (p + 1) b = r" using d by (metis Suc_eq_plus1 drop_Suc list.sel(3) tl_drop)
qed

lemma drop_on: "drop p b = xs @ r \<Longrightarrow> drop (p + length xs) b = r"
  by (metis add.commute append_eq_conv_conj drop_drop)

lemma read_leb_bytes: "drop p b = leb_bytes v k @ r \<Longrightarrow> read_leb b p = (v, p + length (leb_bytes v k))"
proof (induction v k arbitrary: p rule: leb_bytes.induct)
  case (1 v k)
  show ?case
  proof (cases "v < 128")
    case True
    show ?thesis
    proof (cases k)
      case 0
      have l: "leb_bytes v k = [v]" using True by (simp add: leb_bytes.simps [of v 0] 0)
      have d: "drop p b = v # r" using "1.prems" by (simp add: l)
      show ?thesis using drop_at(1) [OF d] True by (simp add: l read_leb.simps [of b p])
    next
      case (Suc j)
      have d: "drop p b = (v + 128) # leb_bytes 0 j @ r" using "1.prems" True by (simp add: leb_bytes.simps [of v "Suc j"] Suc)
      have "(v + 128) div 128 = 1" "(v + 128) mod 128 = v" using True by simp_all
      then have odd: "odd ((v + 128) div 128)" "(v + 128) mod 128 = v" by (simp_all only: odd_one) simp
      from "1.IH"(1) [OF True Suc drop_at(2) [OF d]] drop_at(1) [OF d] odd True
      show ?thesis by (simp add: leb_bytes.simps [of v "Suc j"] read_leb.simps [of b p] Suc)
    qed
  next
    case False
    have d: "drop p b = (v mod 128 + 128) # leb_bytes (v div 128) k @ r" using "1.prems" False by (simp add: leb_bytes.simps [of v k])
    have "(v mod 128 + 128) div 128 = 1" "(v mod 128 + 128) mod 128 = v mod 128" by simp_all
    then have odd: "odd ((v mod 128 + 128) div 128)" "(v mod 128 + 128) mod 128 = v mod 128" by (simp_all only: odd_one) simp
    from "1.IH"(2) [OF False drop_at(2) [OF d]] drop_at(1) [OF d] odd False
    show ?thesis by (simp add: leb_bytes.simps [of v k] read_leb.simps [of b p])
  qed
qed

lemma skip_name_bytes: "drop p b = name_bytes n @ r \<Longrightarrow> skip_name b p = p + length (name_bytes n)"
  using read_leb_bytes [of p b "length (snd n)" "fst n" "snd n @ r"] by (simp add: skip_name_def name_bytes_def)

lemma skip_type_bytes: "type_ok t \<Longrightarrow> drop p b = type_bytes t @ r \<Longrightarrow> skip_type b p = p + length (type_bytes t)"
proof (cases t)
  case (Reference x h)
  assume "type_ok t" "drop p b = type_bytes t @ r"
  then have d: "drop p b = x # leb h @ r" "x = 99 \<or> x = 100" by (simp_all add: Reference)
  show ?thesis using drop_at(1) [OF d(1)] read_leb_bytes [OF drop_at(2) [OF d(1)]] d(2) by (auto simp: skip_type_def Reference)
qed (auto simp: skip_type_def dest: drop_at(1))

lemma skip_limits_bytes: "drop p b = limits_bytes l @ r \<Longrightarrow> skip_limits b p = p + length (limits_bytes l)"
proof (cases l)
  case (Limits f least most page)
  assume "drop p b = limits_bytes l @ r"
  then have d: "drop p b = f # leb least @ (if odd f then leb most else []) @ (if odd (f div 8) then leb page else []) @ r" by (simp add: Limits)
  note d1 = drop_at(2) [OF d]
  note r1 = read_leb_bytes [OF d1] and d2 = drop_on [OF d1]
  show ?thesis
  proof (cases "odd f")
    case True
    with d2 have e: "drop (p + 1 + length (leb least)) b = leb most @ (if odd (f div 8) then leb page else []) @ r" by simp
    note r2 = read_leb_bytes [OF e] and d3 = drop_on [OF e]
    show ?thesis using d3 read_leb_bytes [of _ b "fst page" "snd page" r] drop_at(1) [OF d] r1 r2 True
      by (cases "odd (f div 8)") (simp_all add: skip_limits_def Limits Let_def)
  next
    case False
    then show ?thesis using d2 read_leb_bytes [of _ b "fst page" "snd page" r] drop_at(1) [OF d] r1
      by (cases "odd (f div 8)") (simp_all add: skip_limits_def Limits Let_def)
  qed
qed

lemma mutable_bit: "drop p b = bit_byte m # r \<Longrightarrow> mutable_at b p = m"
  by (drule drop_at(1)) (simp add: mutable_at_def bit_byte_def)

lemma read_import:
  assumes "desc_ok d" "drop p b = import_bytes (mo, n, d) @ r"
  shows "read_imports (Suc c) b p m = read_imports c b (p + length (import_bytes (mo, n, d))) (m @ desc_mutable d)"
proof -
  have d0: "drop p b = name_bytes mo @ name_bytes n @ desc_bytes d @ r" using assms(2) by (simp add: import_bytes_def)
  note d1 = drop_on [OF d0]
  note d2 = drop_on [OF d1]
  let ?q = "p + length (name_bytes mo) + length (name_bytes n)"
  have skip: "skip_name b p = p + length (name_bytes mo)" "skip_name b (p + length (name_bytes mo)) = ?q"
    by (rule skip_name_bytes [OF d0], rule skip_name_bytes [OF d1])
  show ?thesis
  proof (cases d)
    case (ImFunction i)
    with d2 have e: "drop ?q b = 0 # leb i @ r" by simp
    show ?thesis using drop_at(1) [OF e] read_leb_bytes [OF drop_at(2) [OF e]] by (simp add: skip Let_def ImFunction import_bytes_def add.assoc)
  next
    case (ImTable t l)
    with d2 have e: "drop ?q b = 1 # type_bytes t @ limits_bytes l @ r" by simp
    note e1 = drop_at(2) [OF e]
    have "type_ok t" using assms(1) by (simp add: ImTable)
    with drop_at(1) [OF e] skip_type_bytes [OF _ e1] skip_limits_bytes [OF drop_on [OF e1]]
    show ?thesis by (simp add: skip Let_def ImTable import_bytes_def add.assoc)
  next
    case (ImMemory l)
    with d2 have e: "drop ?q b = 2 # limits_bytes l @ r" by simp
    show ?thesis using drop_at(1) [OF e] skip_limits_bytes [OF drop_at(2) [OF e]] by (simp add: skip Let_def ImMemory import_bytes_def add.assoc)
  next
    case (ImGlobal t mu)
    with d2 have e: "drop ?q b = 3 # type_bytes t @ bit_byte mu # r" by simp
    note e1 = drop_at(2) [OF e]
    have "type_ok t" using assms(1) by (simp add: ImGlobal)
    with drop_at(1) [OF e] skip_type_bytes [OF _ e1] mutable_bit [OF drop_on [OF e1]]
    show ?thesis by (simp add: skip Let_def ImGlobal import_bytes_def add.assoc)
  next
    case (ImTag a i)
    with d2 have e: "drop ?q b = 4 # a # leb i @ r" by simp
    show ?thesis using drop_at(1) [OF e] read_leb_bytes [OF drop_at(2) [OF drop_at(2) [OF e]]]
      by (simp add: skip Let_def ImTag import_bytes_def add.assoc)
  qed
qed

lemma read_imports_bytes:
  "list_all (\<lambda>(mo, n, d). desc_ok d) xs \<Longrightarrow> drop p b = concat (map import_bytes xs) @ r \<Longrightarrow>
    read_imports (length xs) b p m = Some (m @ concat (map (\<lambda>(mo, n, d). desc_mutable d) xs), p + length (concat (map import_bytes xs)))"
proof (induction xs arbitrary: p m)
  case (Cons x xs)
  obtain mo n d where x: "x = (mo, n, d)" by (cases x)
  have e: "drop p b = import_bytes x @ concat (map import_bytes xs) @ r" using Cons.prems(2) by simp
  from read_import [OF _ e [unfolded x], of "length xs" m] Cons.IH [OF _ drop_on [OF e]] Cons.prems(1)
  show ?case by (simp add: x add.assoc)
qed simp

lemma skip_instr:
  assumes "instr_ok i" "drop p b = instr_bytes i @ rest"
  shows "skip_init b p = (if instr_known i then skip_init b (p + length (instr_bytes i)) else None)"
proof (cases i)
  case (WithNumber x n)
  with assms have f: "drop p b = x # leb n @ rest" "x \<in> {65, 66, 35, 208, 210}" by simp_all
  show ?thesis using f(2) drop_at(1) [OF f(1)] read_leb_bytes [OF drop_at(2) [OF f(1)]] by (auto simp: skip_init.simps [of b p] WithNumber)
next
  case (F32 bs)
  with assms have f: "drop p b = 67 # bs @ rest" "length bs = 4" by simp_all
  then show ?thesis using drop_at(1) [OF f(1)] by (simp add: skip_init.simps [of b p] F32 add.commute)
next
  case (F64 bs)
  with assms have f: "drop p b = 68 # bs @ rest" "length bs = 8" by simp_all
  then show ?thesis using drop_at(1) [OF f(1)] by (simp add: skip_init.simps [of b p] F64 add.commute)
next
  case (V128 pad bs)
  with assms have f: "drop p b = 253 # (leb_bytes 12 pad @ bs @ rest)" by simp
  then show ?thesis using drop_at(1) [OF f] by (simp add: skip_init.simps [of b p] V128)
next
  case (Arithmetic x)
  with assms have f: "drop p b = x # rest" "106 \<le> x \<and> x \<le> 108 \<or> 124 \<le> x \<and> x \<le> 126" by simp_all
  then show ?thesis using drop_at(1) [OF f(1)] by (auto simp: skip_init.simps [of b p] Arithmetic)
next
  case (Collected x "is")
  with assms have f: "drop p b = 251 # (leb x @ concat (map leb is) @ rest)" by simp
  then show ?thesis using drop_at(1) [OF f] by (simp add: skip_init.simps [of b p] Collected)
qed

lemma skip_init_bytes:
  "list_all instr_ok is \<Longrightarrow> drop p b = concat (map instr_bytes is) @ 11 # r \<Longrightarrow>
    skip_init b p = (if list_all instr_known is then Some (p + length (concat (map instr_bytes is)) + 1) else None)"
proof (induction "is" arbitrary: p)
  case Nil
  then show ?case by (simp add: skip_init.simps [of b p] drop_at(1))
next
  case (Cons i "is")
  have e: "drop p b = instr_bytes i @ concat (map instr_bytes is) @ 11 # r" using Cons.prems(2) by simp
  have ok: "instr_ok i" "list_all instr_ok is" using Cons.prems(1) by simp_all
  show ?case using skip_instr [OF ok(1) e] Cons.IH [OF ok(2) drop_on [OF e]] by (simp add: add.assoc)
qed

lemma read_global:
  assumes "type_ok t" "list_all instr_ok is" "drop p b = global_bytes (t, mu, is) @ r"
  shows "read_globals (Suc c) b p m
    = (if list_all instr_known is then read_globals c b (p + length (global_bytes (t, mu, is))) (m @ [mu]) else None)"
proof -
  have d: "drop p b = type_bytes t @ bit_byte mu # concat (map instr_bytes is) @ 11 # r" using assms(3) by (simp add: global_bytes_def)
  note d1 = drop_on [OF d]
  show ?thesis
    using skip_type_bytes [OF assms(1) d] mutable_bit [OF d1] skip_init_bytes [OF assms(2) drop_at(2) [OF d1]]
    by (simp add: Let_def global_bytes_def add.assoc)
qed

lemma read_globals_bytes:
  "list_all (\<lambda>(t, mu, is). type_ok t \<and> list_all instr_ok is) xs \<Longrightarrow> drop p b = concat (map global_bytes xs) @ r \<Longrightarrow>
    read_globals (length xs) b p m = (if list_all (\<lambda>(t, mu, is). list_all instr_known is) xs
      then Some (m @ map (\<lambda>(t, mu, is). mu) xs, p + length (concat (map global_bytes xs))) else None)"
proof (induction xs arbitrary: p m)
  case (Cons x xs)
  obtain t mu "is" where x: "x = (t, mu, is)" by (cases x)
  have e: "drop p b = global_bytes x @ concat (map global_bytes xs) @ r" using Cons.prems(2) by simp
  from read_global [OF _ _ e [unfolded x], of "length xs" m] Cons.IH [OF _ drop_on [OF e]] Cons.prems(1)
  show ?case by (simp add: x add.assoc)
qed simp

definition add_export :: "(nat list \<Rightarrow> 'n) \<Rightarrow> bool list \<Rightarrow> wasm_export \<Rightarrow> 'n list \<Rightarrow> 'n list" where
  "add_export dec m x r = (if mutable_export m x then add_name (dec (snd (ex_name x))) r else r)"

lemma read_export:
  assumes "decodes_range U dec" "0 \<notin> set (snd (ex_name x))" "drop p b = export_bytes x @ rest"
  shows "read_exports U (Suc c) b p m r = read_exports U c b (p + length (export_bytes x)) m (add_export dec m x r)"
proof -
  let ?n = "ex_name x"
  have d: "drop p b = name_bytes ?n @ ex_kind x # leb (ex_index x) @ rest" using assms(3) by (simp add: export_bytes_def)
  note d1 = drop_on [OF d]
  have l: "drop p b = leb_bytes (length (snd ?n)) (fst ?n) @ snd ?n @ ex_kind x # leb (ex_index x) @ rest" using d by (simp add: name_bytes_def)
  let ?q = "p + length (leb_bytes (length (snd ?n)) (fst ?n))"
  note d2 = drop_on [OF l]
  have "?q + length (snd ?n) \<le> length b" using arg_cong [OF d2, of length] by simp
  then have "U b ?q (length (snd ?n)) = dec (snd ?n)"
    using assms(1,2) d2 by (simp add: decodes_range_def subarray_def)
  then show ?thesis
    using skip_name_bytes [OF d] drop_at(1) [OF d1] read_leb_bytes [OF drop_at(2) [OF d1]] read_leb_bytes [OF l]
    by (simp add: Let_def export_bytes_def add_export_def mutable_export_def add.assoc)
qed

lemma read_exports_bytes:
  assumes "decodes_range U dec"
  shows "list_all (\<lambda>x. 0 \<notin> set (snd (ex_name x))) xs \<Longrightarrow> drop p b = concat (map export_bytes xs) @ rest \<Longrightarrow>
    read_exports U (length xs) b p m r = (fold (add_export dec m) xs r, p + length (concat (map export_bytes xs)))"
proof (induction xs arbitrary: p r)
  case (Cons x xs)
  have e: "drop p b = export_bytes x @ concat (map export_bytes xs) @ rest" using Cons.prems by simp
  from read_export [OF assms _ e, of "length xs" m r] Cons.IH [OF _ drop_on [OF e]] Cons.prems(1)
  show ?case by (simp add: add.assoc)
qed simp

lemma read_frame:
  assumes "drop p b = section_frame sid pad content @ r"
  obtains q where "p < length b" "b ! p = sid" "read_leb b (p + 1) = (length content, q)" "drop q b = content @ r"
    "q + length content = p + length (section_frame sid pad content)"
proof -
  have d: "drop p b = sid # leb_bytes (length content) pad @ content @ r" using assms by (simp add: section_frame_def)
  note d1 = drop_at(2) [OF d]
  have "p < length b \<and> b ! p = sid" using drop_at(1) [OF d] by (simp add: byte_at_def split: if_splits)
  then show ?thesis using that [of "p + 1 + length (leb_bytes (length content) pad)"] read_leb_bytes [OF d1] drop_on [OF d1]
    by (simp add: section_frame_def)
qed

lemma read_section:
  assumes "section_ok s" "drop p b = section_bytes s @ rest"
  shows "read_sections U b p m r
    = (if section_known s then read_sections U b (p + length (section_bytes s)) (m @ section_mutable s) r else None)"
proof (cases s)
  case (Imports pad k xs)
  let ?c = "leb_bytes (length xs) k @ concat (map import_bytes xs)"
  obtain q where q: "p < length b" "b ! p = 2" "read_leb b (p + 1) = (length ?c, q)" "drop q b = ?c @ rest"
    "q + length ?c = p + length (section_bytes s)"
    using read_frame [of p b 2 pad ?c rest] assms(2) by (auto simp: Imports)
  have d: "drop q b = leb_bytes (length xs) k @ concat (map import_bytes xs) @ rest" using q(4) by simp
  note n = read_leb_bytes [OF d] read_imports_bytes [OF _ drop_on [OF d]]
  show ?thesis using q n assms(1) by (subst read_sections.simps) (simp add: Imports Let_def add.assoc)
next
  case (Globals pad k xs)
  let ?c = "leb_bytes (length xs) k @ concat (map global_bytes xs)"
  obtain q where q: "p < length b" "b ! p = 6" "read_leb b (p + 1) = (length ?c, q)" "drop q b = ?c @ rest"
    "q + length ?c = p + length (section_bytes s)"
    using read_frame [of p b 6 pad ?c rest] assms(2) by (auto simp: Globals)
  have d: "drop q b = leb_bytes (length xs) k @ concat (map global_bytes xs) @ rest" using q(4) by simp
  note n = read_leb_bytes [OF d] read_globals_bytes [OF _ drop_on [OF d]]
  show ?thesis using q n assms(1) by (subst read_sections.simps) (simp add: Globals Let_def add.assoc)
next
  case (Other sid pad content)
  obtain q where q: "p < length b" "b ! p = sid" "read_leb b (p + 1) = (length content, q)"
    "q + length content = p + length (section_bytes s)"
    using read_frame [of p b sid pad content rest] assms(2) by (auto simp: Other)
  show ?thesis using q assms(1) by (subst read_sections.simps) (simp add: Other Let_def)
qed

lemma read_sections_bytes:
  "list_all section_ok ss \<Longrightarrow> drop p b = concat (map section_bytes ss) @ rest \<Longrightarrow>
    read_sections U b p m r = (if list_all section_known ss
      then read_sections U b (p + length (concat (map section_bytes ss))) (m @ concat (map section_mutable ss)) r else None)"
proof (induction ss arbitrary: p m)
  case (Cons s ss)
  have e: "drop p b = section_bytes s @ concat (map section_bytes ss) @ rest" using Cons.prems(2) by simp
  from read_section [OF _ e, of U m r] Cons.IH [OF _ drop_on [OF e]] Cons.prems(1)
  show ?case by (simp add: add.assoc)
qed simp

text \<open>On a module whose constant expressions it knows the reader returns the names of its mutable exports; otherwise it gives up.\<close>

lemma mutable_globals_read:
  assumes "wasm_ok dec w" "decodes_range U dec"
  shows "mutable_globals U (module_bytes w)
    = (if module_known w then Some (fold (add_export dec (module_mutable w)) (module_exports w) []) else None)"
proof -
  let ?b = "module_bytes w" and ?ss = "concat (map section_bytes (wm_sections w))"
  have h: "length (wm_header w) = 8" "list_all section_ok (wm_sections w)" using assms(1) by (simp_all add: wasm_ok_def)
  have d: "drop 8 ?b = ?ss @ (case wm_exports w of None \<Rightarrow> [] | Some x \<Rightarrow> exports_bytes x @ wm_rest w)"
    using h(1) by (simp add: module_bytes_def)
  have start: "mutable_globals U ?b = (if module_known w then read_sections U ?b (8 + length ?ss) (module_mutable w) [] else None)"
    using read_sections_bytes [OF h(2) d, of U "[]" "[]"] by (simp add: mutable_globals_def module_mutable_def module_known_def)
  show ?thesis
  proof (cases "wm_exports w")
    case None
    have "\<not> 8 + length ?ss < length ?b" using h(1) by (simp add: module_bytes_def None)
    then show ?thesis unfolding start by (subst read_sections.simps) (simp add: module_exports_def None)
  next
    case (Some x)
    obtain pad k xs where x: "x = (pad, k, xs)" by (cases x)
    let ?c = "leb_bytes (length xs) k @ concat (map export_bytes xs)"
    have "drop (8 + length ?ss) ?b = section_frame 7 pad ?c @ wm_rest w" using drop_on [OF d] by (simp add: Some x exports_bytes_def)
    then obtain q where q: "8 + length ?ss < length ?b" "?b ! (8 + length ?ss) = 7" "read_leb ?b (8 + length ?ss + 1) = (length ?c, q)"
      "drop q ?b = ?c @ wm_rest w" by (rule read_frame)
    have e: "drop q ?b = leb_bytes (length xs) k @ concat (map export_bytes xs) @ wm_rest w" using q(4) by simp
    have nul: "list_all (\<lambda>x. 0 \<notin> set (snd (ex_name x))) xs" using assms(1) by (simp add: wasm_ok_def module_exports_def Some x list_all_iff)
    note n = read_leb_bytes [OF e] read_exports_bytes [OF assms(2) nul drop_on [OF e]]
    show ?thesis unfolding start using q(1-3) n by (subst read_sections.simps) (simp add: module_exports_def Some x Let_def)
  qed
qed

lemma set_added: "set (fold (add_export dec m) xs r) = set r \<union> {dec (snd (ex_name x)) |x. x \<in> set xs \<and> mutable_export m x}"
  by (induction xs arbitrary: r) (auto simp: add_export_def add_name_def)

definition immutable_global :: "wasm_module \<Rightarrow> wasm_export \<Rightarrow> bool" where
  "immutable_global w x \<longleftrightarrow> ex_kind x = 3 \<and> \<not> module_mutable w ! fst (ex_index x)"

text \<open>C36: For every module of the binary format \<open>relocateExport\<close> treats each export as it would with Emscripten's probe, which writes to each
  global. The reader spares the probe for exactly the modules whose constant expressions it knows; when a global before the exports is
  initialised with a vector or with an instruction of the garbage collector it gives up, and the probe decides. The names of exports are
  different and hold no zero byte.\<close>

theorem relocation_agrees_with_the_probe:
  assumes "wasm_ok dec w" "decodes_range U dec" "x \<in> set (module_exports w)"
  shows "(mutable_globals U (module_bytes w) = None \<longleftrightarrow> \<not> module_known w)
    \<and> relocated (mutable_globals U (module_bytes w)) (ex_kind x = 3) (immutable_global w x) (dec (snd (ex_name x))) = immutable_global w x"
proof (cases "module_known w")
  case False
  then show ?thesis using mutable_globals_read [OF assms(1,2)] by (simp add: relocated_def)
next
  case True
  let ?xs = "module_exports w" and ?m = "module_mutable w"
  note r = mutable_globals_read [OF assms(1,2)]
  have names: "distinct (map (\<lambda>x. dec (snd (ex_name x))) ?xs)" and index: "ex_kind x = 3 \<Longrightarrow> fst (ex_index x) < length ?m"
    using assms(1,3) by (simp_all add: wasm_ok_def)
  have "dec (snd (ex_name x)) \<in> set (fold (add_export dec ?m) ?xs []) \<longleftrightarrow> mutable_export ?m x"
  proof
    assume "dec (snd (ex_name x)) \<in> set (fold (add_export dec ?m) ?xs [])"
    then obtain y where "y \<in> set ?xs" "mutable_export ?m y" "dec (snd (ex_name y)) = dec (snd (ex_name x))" unfolding set_added by auto
    moreover from this have "y = x" using names assms(3) by (auto simp: distinct_map inj_on_def)
    ultimately show "mutable_export ?m x" by simp
  qed (use assms(3) in \<open>auto simp: set_added\<close>)
  then show ?thesis using index True by (auto simp: r relocated_def immutable_global_def mutable_export_def)
qed

text \<open>A global initialised with \<open>v128.const\<close>: the reader gives up.\<close>

lemma vector_global_is_left_to_the_probe:
  assumes "decodes_range U dec" "wm_sections w = [Globals 0 0 [(Plain 123, False, [V128 0 (replicate 16 0)])]]" "wasm_ok dec w"
  shows "mutable_globals U (module_bytes w) = None"
  using mutable_globals_read [OF assms(3,1)] by (simp add: module_known_def assms(2))

text \<open>A module with an imported global and two of its own, of which the second is exported and mutable; its numbers are padded as a linker pads them.\<close>

definition small_module :: wasm_module where
  "small_module = \<lparr>wm_header = [0, 97, 115, 109, 1, 0, 0, 0],
     wm_sections = [Other 0 0 [1, 2, 3], Imports 4 0 [((0, [101]), (0, [103]), ImGlobal (Plain 127) False), ((0, [101]), (0, [109]), ImMemory (Limits 1 (1, 0) (300, 2) (0, 0)))],
       Globals 0 1 [(Plain 127, False, [WithNumber 65 (200, 3)]), (Reference 99 (112, 0), True, [WithNumber 208 (112, 0)])]],
     wm_exports = Some (4, 0, [\<lparr>ex_name = (0, [120]), ex_kind = 3, ex_index = (1, 0)\<rparr>, \<lparr>ex_name = (1, [121]), ex_kind = 3, ex_index = (2, 4)\<rparr>]),
     wm_rest = [10, 2, 0, 0]\<rparr>"

theorem relocation_agrees_with_the_probe_witness:
  "relocated (mutable_globals (\<lambda>b p n. subarray p (p + n) b) (module_bytes small_module)) True False [121] = False"
proof -
  have "wasm_ok id small_module" by (simp add: wasm_ok_def small_module_def module_exports_def module_mutable_def)
  moreover have "decodes_range (\<lambda>b p n. subarray p (p + n) b) id" by (simp add: decodes_range_def)
  moreover have "\<lparr>ex_name = (1, [121]), ex_kind = 3, ex_index = (2, 4)\<rparr> \<in> set (module_exports small_module)"
    by (simp add: small_module_def module_exports_def)
  ultimately show ?thesis
    using relocation_agrees_with_the_probe [of id small_module "\<lambda>b p n. subarray p (p + n) b" "\<lparr>ex_name = (1, [121]), ex_kind = 3, ex_index = (2, 4)\<rparr>"]
    by (simp add: immutable_global_def small_module_def module_mutable_def)
qed

section \<open>Modules compiled before\<close>

text \<open>
  \<open>__hbTakeArmedModule\<close>: the engine has armed the module compiled from an extension it has verified, with the bytes it was compiled from. Loading a
  library takes it if its name fits, and the scan of the bytes then stands in for the scan of the file, which a compiled module cannot give.
\<close>

record 'm armed =
  am_name :: string
  am_bytes :: "nat list"
  am_module :: 'm

record ('m, 'n) linker =
  lk_armed :: "'m armed option"
  lk_nextMut :: "'n list option"

datatype 'm binary = Bytes "nat list" | Compiled 'm

definition takeArmedModule :: "(nat list \<Rightarrow> nat \<Rightarrow> nat \<Rightarrow> 'n) \<Rightarrow> string \<Rightarrow> ('m, 'n) linker \<Rightarrow> 'm option \<times> ('m, 'n) linker" where
  "takeArmedModule U n k =
     (let k = k\<lparr>lk_nextMut := None\<rparr> in
      case lk_armed k of None \<Rightarrow> (None, k)
      | Some a \<Rightarrow> if n = am_name a \<or> ends_with (CHR ''/'' # am_name a) n
          then (Some (am_module a), k\<lparr>lk_armed := None, lk_nextMut := mutable_globals U (am_bytes a)\<rparr>) else (None, k))"

definition loadLibData :: "(nat list \<Rightarrow> nat \<Rightarrow> nat \<Rightarrow> 'n) \<Rightarrow> (string \<Rightarrow> nat list) \<Rightarrow> string \<Rightarrow> ('m, 'n) linker \<Rightarrow> 'm binary \<times> ('m, 'n) linker" where
  "loadLibData U file libName k =
     (case takeArmedModule U libName k of (Some pre, k) \<Rightarrow> (Compiled pre, k) | (None, k) \<Rightarrow> (Bytes (file libName), k))"

definition scan :: "(nat list \<Rightarrow> nat \<Rightarrow> nat \<Rightarrow> 'n) \<Rightarrow> 'm binary \<Rightarrow> ('m, 'n) linker \<Rightarrow> 'n list option \<times> ('m, 'n) linker" where
  "scan U binary k =
     ((case lk_nextMut k of Some r \<Rightarrow> Some r | None \<Rightarrow> (case binary of Bytes b \<Rightarrow> mutable_globals U b | Compiled m \<Rightarrow> None)), k\<lparr>lk_nextMut := None\<rparr>)"

definition load_library :: "(nat list \<Rightarrow> nat \<Rightarrow> nat \<Rightarrow> 'n) \<Rightarrow> (string \<Rightarrow> nat list) \<Rightarrow> string \<Rightarrow> ('m, 'n) linker \<Rightarrow> ('m binary \<times> 'n list option) \<times> ('m, 'n) linker" where
  "load_library U file libName k = (case loadLibData U file libName k of (b, k) \<Rightarrow> (case scan U b k of (r, k) \<Rightarrow> ((b, r), k)))"

text \<open>Loading a library whose bytes were verified gives the same scan with the module that was armed as without; a scan left over from a load that failed
  is never used for another library; and a module is taken once.\<close>

lemma armed_module_scan:
  assumes "\<And>a. lk_armed k = Some a \<Longrightarrow> n = am_name a \<or> ends_with (CHR ''/'' # am_name a) n \<Longrightarrow> am_bytes a = file n"
  shows "snd (fst (load_library U file n k)) = mutable_globals U (file n)" "lk_nextMut (snd (load_library U file n k)) = None"
  using assms by (auto simp: load_library_def loadLibData_def takeArmedModule_def scan_def Let_def split: option.splits)

end
