(* ===== verification/Hb_DylinkGot.thy ===== *)
theory Hb_DylinkGot
  imports Hb_Prelude
begin

text \<open>
  \<open>scripts/patch_dylink_glue.cjs\<close>: the global offset table of dynamic linking. Emscripten's start-up enters every export of the main module; the
  patched code enters one when it is first asked for. Both are here, Emscripten's by the text the script compares it with before it
  patches, and the table is seen to give the same entries. The address of a function in the table of functions is kept as the function: it is given out
  in another order.
\<close>

section \<open>The table\<close>

datatype wasm_value = Function nat | Data nat | NoAddress

datatype got_value = Missing | Address_of nat | Data_at nat

record got_entry =
  ge_value :: got_value
  ge_required :: bool

type_synonym got = "(string, got_entry) jsmap"
type_synonym exports = "(string, wasm_value) jsmap"

fun new_value :: "wasm_value \<Rightarrow> got_value option" where
  "new_value (Function f) = Some (Address_of f)"
| "new_value (Data d) = Some (Data_at d)"
| "new_value NoAddress = None"

text \<open>\<open>GOTHandler.get\<close> and \<open>updateGOT\<close> of Emscripten. \<open>internal\<close> is \<open>isInternalSym\<close>.\<close>

definition got_get :: "bool \<Rightarrow> string \<Rightarrow> got \<Rightarrow> got_entry \<times> got" where
  "got_get weak s g =
     (let e = (case jm_get g s of Some e \<Rightarrow> e | None \<Rightarrow> \<lparr>ge_value = Missing, ge_required = False\<rparr>);
          e = (if weak then e else e\<lparr>ge_required := True\<rparr>)
      in (e, jm_set s e g))"

definition enter :: "(string \<Rightarrow> bool) \<Rightarrow> bool \<Rightarrow> string \<times> wasm_value \<Rightarrow> got \<Rightarrow> got" where
  "enter internal replace sx g =
     (case sx of (s, x) \<Rightarrow>
        if internal s then g
        else let existing = (case jm_get g s of Some e \<Rightarrow> ge_value e \<noteq> Missing | None \<Rightarrow> False) in
          if replace \<or> \<not> existing
          then (case new_value x of None \<Rightarrow> g
            | Some v \<Rightarrow> jm_set s (case jm_get g s of Some e \<Rightarrow> e\<lparr>ge_value := v\<rparr> | None \<Rightarrow> \<lparr>ge_value = v, ge_required = False\<rparr>) g)
          else g)"

definition updateGOT :: "(string \<Rightarrow> bool) \<Rightarrow> exports \<Rightarrow> bool \<Rightarrow> got \<Rightarrow> got" where
  "updateGOT internal exports replace g = fold (enter internal replace) exports g"

text \<open>The patched ones: \<open>__hbGOTFromMain\<close>, \<open>GOTHandler.get\<close> and \<open>updateGOT\<close>, which is given the main module's exports (the same object) or others.\<close>

record lazy_got =
  hb_main :: "exports option"
  hb_got :: got

definition hbGOTFromMain :: "(string \<Rightarrow> bool) \<Rightarrow> string \<Rightarrow> lazy_got \<Rightarrow> lazy_got" where
  "hbGOTFromMain internal s l =
     (case hb_main l of None \<Rightarrow> l
      | Some m \<Rightarrow> if jm_get (hb_got l) s = None \<and> jm_get m s \<noteq> None \<and> \<not> internal s
          then l\<lparr>hb_got := updateGOT internal [(s, the (jm_get m s))] False (hb_got l)\<rparr> else l)"

definition lazy_get :: "(string \<Rightarrow> bool) \<Rightarrow> bool \<Rightarrow> string \<Rightarrow> lazy_got \<Rightarrow> got_entry \<times> lazy_got" where
  "lazy_get internal weak s l =
     (let l = hbGOTFromMain internal s l in case got_get weak s (hb_got l) of (e, g) \<Rightarrow> (e, l\<lparr>hb_got := g\<rparr>))"

definition fill :: "(string \<Rightarrow> bool) \<Rightarrow> exports \<Rightarrow> string \<Rightarrow> got \<Rightarrow> got" where
  "fill internal m s g =
     (case jm_get m s of None \<Rightarrow> g
      | Some x \<Rightarrow> if \<not> internal s \<and> map_option ge_value (jm_get g s) = Some Missing then updateGOT internal [(s, x)] False g else g)"

definition lazy_update_main :: "(string \<Rightarrow> bool) \<Rightarrow> exports \<Rightarrow> lazy_got \<Rightarrow> lazy_got" where
  "lazy_update_main internal m l = l\<lparr>hb_got := fold (fill internal m) (jm_keys (hb_got l)) (hb_got l)\<rparr>"

definition lazy_update :: "(string \<Rightarrow> bool) \<Rightarrow> exports \<Rightarrow> bool \<Rightarrow> lazy_got \<Rightarrow> lazy_got" where
  "lazy_update internal e replace l =
     (let l = (if hb_main l \<noteq> None \<and> \<not> replace then fold (hbGOTFromMain internal) (jm_keys e) l else l)
      in l\<lparr>hb_got := updateGOT internal e replace (hb_got l)\<rparr>)"

text \<open>What happens to the table: a module asks for an entry when it is linked, the main module has been started (\<open>mergeLibSymbols\<close> and then
  \<open>updateGOT\<close> with its exports), a side module has been loaded.\<close>

datatype got_event = Ask bool string | Side exports bool

fun eager_run :: "(string \<Rightarrow> bool) \<Rightarrow> got_event list \<Rightarrow> got \<Rightarrow> got_entry list \<times> got" where
  "eager_run internal [] g = ([], g)"
| "eager_run internal (Ask weak s # es) g = (case got_get weak s g of (e, g) \<Rightarrow> map_prod (\<lambda>r. e # r) id (eager_run internal es g))"
| "eager_run internal (Side x replace # es) g = eager_run internal es (updateGOT internal x replace g)"

fun lazy_run :: "(string \<Rightarrow> bool) \<Rightarrow> got_event list \<Rightarrow> lazy_got \<Rightarrow> got_entry list \<times> lazy_got" where
  "lazy_run internal [] l = ([], l)"
| "lazy_run internal (Ask weak s # es) l = (case lazy_get internal weak s l of (e, l) \<Rightarrow> map_prod (\<lambda>r. e # r) id (lazy_run internal es l))"
| "lazy_run internal (Side x replace # es) l = lazy_run internal es (lazy_update internal x replace l)"

definition lazy_start :: "(string \<Rightarrow> bool) \<Rightarrow> exports \<Rightarrow> lazy_got \<Rightarrow> lazy_got" where
  "lazy_start internal m l = lazy_update_main internal m (l\<lparr>hb_main := Some m\<rparr>)"

section \<open>One entry at a time\<close>

text \<open>What entering an export does to the entry of its name.\<close>

definition entered :: "(string \<Rightarrow> bool) \<Rightarrow> bool \<Rightarrow> string \<Rightarrow> wasm_value \<Rightarrow> got_entry option \<Rightarrow> got_entry option" where
  "entered internal replace s x e =
     (if internal s \<or> \<not> replace \<and> map_option ge_value e \<notin> {None, Some Missing} then e
      else case new_value x of None \<Rightarrow> e
        | Some v \<Rightarrow> Some (case e of Some e \<Rightarrow> e\<lparr>ge_value := v\<rparr> | None \<Rightarrow> \<lparr>ge_value = v, ge_required = False\<rparr>))"

lemma jm_get_enter:
  "jm_get (enter internal replace (s, x) g) t = (if t = s then entered internal replace s x (jm_get g s) else jm_get g t)"
  by (auto simp: enter_def entered_def Let_def split: option.splits)

lemma jm_get_updateGOT:
  assumes "jm_wf es"
  shows "jm_get (updateGOT internal es replace g) t
    = (case jm_get es t of None \<Rightarrow> jm_get g t | Some x \<Rightarrow> entered internal replace t x (jm_get g t))"
  using assms
proof (induction es arbitrary: g)
  case (Cons sx es)
  obtain s x where sx: "sx = (s, x)" by force
  have wf: "jm_wf es" "jm_get es s = None" using Cons.prems by (auto simp: jm_wf_def sx map_of_eq_None_iff)
  have step: "updateGOT internal (sx # es) replace g = updateGOT internal es replace (enter internal replace (s, x) g)"
    by (simp add: updateGOT_def sx)
  show ?case unfolding step Cons.IH [OF wf(1)] using wf(2) by (auto simp: sx jm_get_enter split: option.splits)
qed (simp add: updateGOT_def)

lemma updateGOT_one: "jm_get (updateGOT internal [(s, x)] replace g) t = (if t = s then entered internal replace s x (jm_get g s) else jm_get g t)"
  by (simp add: updateGOT_def jm_get_enter)

text \<open>The entry the start of the main module would have made for a name nobody had asked for.\<close>

definition main_entry :: "(string \<Rightarrow> bool) \<Rightarrow> exports \<Rightarrow> string \<Rightarrow> got_entry option" where
  "main_entry internal m s = (case jm_get m s of None \<Rightarrow> None | Some x \<Rightarrow> entered internal False s x None)"

definition same_table :: "(string \<Rightarrow> bool) \<Rightarrow> exports \<Rightarrow> lazy_got \<Rightarrow> got \<Rightarrow> bool" where
  "same_table internal m l g \<longleftrightarrow> hb_main l = Some m
     \<and> (\<forall>s. jm_get g s = (case jm_get (hb_got l) s of Some e \<Rightarrow> Some e | None \<Rightarrow> main_entry internal m s))"

lemma from_main:
  assumes "hb_main l = Some m"
  shows "hb_main (hbGOTFromMain internal s l) = Some m"
    "jm_get (hb_got (hbGOTFromMain internal s l)) t
      = (if t = s \<and> jm_get (hb_got l) s = None then main_entry internal m s else jm_get (hb_got l) t)"
  using assms by (auto simp: hbGOTFromMain_def updateGOT_one main_entry_def entered_def split: option.splits)

lemma from_main_list:
  assumes "hb_main l = Some m"
  shows "hb_main (fold (hbGOTFromMain internal) ss l) = Some m
    \<and> jm_get (hb_got (fold (hbGOTFromMain internal) ss l)) t
      = (if t \<in> set ss \<and> jm_get (hb_got l) t = None then main_entry internal m t else jm_get (hb_got l) t)"
  using assms
proof (induction ss arbitrary: l)
  case (Cons s ss)
  note f = from_main [OF Cons.prems, of internal s]
  show ?case using Cons.IH [OF f(1)] by (auto simp: f(2))
qed simp

lemma same_get:
  assumes "same_table internal m l g"
  shows "fst (lazy_get internal weak s l) = fst (got_get weak s g)"
    "same_table internal m (snd (lazy_get internal weak s l)) (snd (got_get weak s g))"
proof -
  have m: "hb_main l = Some m" using assms by (simp add: same_table_def)
  note f = from_main [OF m, of internal s]
  have look: "jm_get (hb_got (hbGOTFromMain internal s l)) s = jm_get g s" using assms by (auto simp: f(2) same_table_def split: option.splits)
  show "fst (lazy_get internal weak s l) = fst (got_get weak s g)"
    by (simp add: lazy_get_def got_get_def Let_def look)
  show "same_table internal m (snd (lazy_get internal weak s l)) (snd (got_get weak s g))"
    using assms by (auto simp: same_table_def lazy_get_def got_get_def Let_def look f split: option.splits)
qed

lemma entered_None: "entered internal replace s x e = None \<Longrightarrow> e = None"
  by (auto simp: entered_def split: if_splits option.splits)

lemma entered_over_main:
  "entered internal True s y (main_entry internal m s)
    = (case entered internal True s y None of Some e \<Rightarrow> Some e | None \<Rightarrow> main_entry internal m s)"
  by (cases "internal s"; cases "new_value y") (auto simp: main_entry_def entered_def split: option.splits)

lemma same_update:
  assumes "same_table internal m l g" "jm_wf x"
  shows "same_table internal m (lazy_update internal x replace l) (updateGOT internal x replace g)"
proof -
  have m: "hb_main l = Some m" and g: "\<And>s. jm_get g s = (case jm_get (hb_got l) s of Some e \<Rightarrow> Some e | None \<Rightarrow> main_entry internal m s)"
    using assms(1) by (simp_all add: same_table_def)
  define l1 where "l1 = (if hb_main l \<noteq> None \<and> \<not> replace then fold (hbGOTFromMain internal) (jm_keys x) l else l)"
  have keys: "t \<in> fst ` set x \<longleftrightarrow> jm_get x t \<noteq> None" for t by (simp add: map_of_eq_None_iff)
  have l1: "hb_main l1 = Some m"
    "jm_get (hb_got l1) t = (if \<not> replace \<and> jm_get x t \<noteq> None then jm_get g t else jm_get (hb_got l) t)" for t
    using from_main_list [OF m, of internal "jm_keys x"] m g [of t] by (auto simp: l1_def keys split: option.splits)
  have u: "lazy_update internal x replace l = l1\<lparr>hb_got := updateGOT internal x replace (hb_got l1)\<rparr>"
    by (simp add: lazy_update_def l1_def Let_def)
  have "jm_get (updateGOT internal x replace g) t
      = (case jm_get (updateGOT internal x replace (hb_got l1)) t of Some e \<Rightarrow> Some e | None \<Rightarrow> main_entry internal m t)" for t
  proof (cases "jm_get x t")
    case None
    then show ?thesis using g [of t] by (simp add: jm_get_updateGOT [OF assms(2)] l1(2))
  next
    case (Some y)
    show ?thesis
    proof (cases "\<not> replace \<or> jm_get (hb_got l) t \<noteq> None")
      case True
      have same: "jm_get (hb_got l1) t = jm_get g t" using True g [of t] Some by (auto simp: l1(2))
      have "main_entry internal m t = None" if "entered internal replace t y (jm_get g t) = None"
        using entered_None [OF that] g [of t] by (simp split: option.splits)
      then show ?thesis by (auto simp: jm_get_updateGOT [OF assms(2)] Some same split: option.splits)
    next
      case False
      then have "jm_get g t = main_entry internal m t" "jm_get (hb_got l1) t = None" using g [of t] by (simp_all add: l1(2))
      then show ?thesis using False by (simp add: jm_get_updateGOT [OF assms(2)] Some entered_over_main)
    qed
  qed
  then show ?thesis by (simp add: same_table_def u l1(1))
qed

lemma same_run:
  assumes "same_table internal m l g" "\<forall>x replace. Side x replace \<in> set es \<longrightarrow> jm_wf x"
  shows "fst (lazy_run internal es l) = fst (eager_run internal es g)"
  using assms
proof (induction es arbitrary: l g)
  case (Cons e es)
  then show ?case
  proof (cases e)
    case (Ask weak s)
    note sg = same_get [OF Cons.prems(1), of weak s]
    obtain a l' b g' where r: "lazy_get internal weak s l = (a, l')" "got_get weak s g = (b, g')" by (meson surj_pair)
    have "fst (lazy_run internal es l') = fst (eager_run internal es g')" using Cons.IH [of l' g'] sg(2) r Cons.prems(2) by auto
    then show ?thesis using sg(1) r by (simp add: Ask)
  next
    case (Side x replace)
    then have "jm_wf x" using Cons.prems(2) by auto
    then show ?thesis using Cons.IH [OF same_update [OF Cons.prems(1)]] Cons.prems(2) by (simp add: Side)
  qed
qed simp

section \<open>The start of the main module\<close>

lemma before_start:
  assumes "hb_main l = None"
  shows "fst (lazy_run internal es l) = fst (eager_run internal es (hb_got l))"
    "hb_got (snd (lazy_run internal es l)) = snd (eager_run internal es (hb_got l))" "hb_main (snd (lazy_run internal es l)) = None"
proof -
  have "fst (lazy_run internal es l) = fst (eager_run internal es (hb_got l))
    \<and> hb_got (snd (lazy_run internal es l)) = snd (eager_run internal es (hb_got l)) \<and> hb_main (snd (lazy_run internal es l)) = None"
    using assms
  proof (induction es arbitrary: l)
    case (Cons e es)
    then show ?case
    proof (cases e)
      case (Ask weak s)
      obtain a g where r: "got_get weak s (hb_got l) = (a, g)" by force
      have "lazy_get internal weak s l = (a, l\<lparr>hb_got := g\<rparr>)" using Cons.prems by (simp add: lazy_get_def hbGOTFromMain_def r)
      then show ?thesis using Cons.IH [of "l\<lparr>hb_got := g\<rparr>"] Cons.prems r by (simp add: Ask)
    next
      case (Side x replace)
      have "lazy_update internal x replace l = l\<lparr>hb_got := updateGOT internal x replace (hb_got l)\<rparr>" using Cons.prems by (simp add: lazy_update_def)
      then show ?thesis using Cons.IH [of "l\<lparr>hb_got := updateGOT internal x replace (hb_got l)\<rparr>"] Cons.prems by (simp add: Side)
    qed
  qed simp
  then show "fst (lazy_run internal es l) = fst (eager_run internal es (hb_got l))"
    "hb_got (snd (lazy_run internal es l)) = snd (eager_run internal es (hb_got l))" "hb_main (snd (lazy_run internal es l)) = None" by simp_all
qed

text \<open>The entry of a name that has one is filled as the eager start fills it; to fill it again changes nothing.\<close>

definition filled :: "(string \<Rightarrow> bool) \<Rightarrow> exports \<Rightarrow> string \<Rightarrow> got_entry option \<Rightarrow> got_entry option" where
  "filled internal m s e = (case jm_get m s of None \<Rightarrow> e | Some x \<Rightarrow> if e = None then None else entered internal False s x e)"

lemma filled_None [simp]: "filled internal m s None = None"
  by (simp add: filled_def split: option.splits)

lemma filled_twice: "filled internal m s (filled internal m s e) = filled internal m s e"
  by (cases e) (auto simp: filled_def entered_def split: option.splits)

lemma jm_get_fill: "jm_get (fill internal m s g) t = (if t = s then filled internal m s (jm_get g s) else jm_get g t)"
proof (cases "jm_get m s")
  case (Some x)
  then show ?thesis by (cases "jm_get g s") (auto simp: fill_def filled_def updateGOT_one entered_def)
qed (simp add: fill_def filled_def)

lemma jm_get_fills: "jm_get (fold (fill internal m) ss g) t = (if t \<in> set ss then filled internal m t (jm_get g t) else jm_get g t)"
  by (induction ss arbitrary: g) (auto simp: jm_get_fill filled_twice)

lemma same_start:
  assumes "jm_wf m"
  shows "same_table internal m (lazy_start internal m l) (updateGOT internal m False (hb_got l))"
proof -
  have "jm_get (hb_got (lazy_start internal m l)) t = filled internal m t (jm_get (hb_got l) t)" for t
  proof (cases "jm_get (hb_got l) t")
    case None
    then show ?thesis by (simp add: lazy_start_def lazy_update_main_def jm_get_fills)
  next
    case (Some e)
    then have "t \<in> set (jm_keys (hb_got l))" by (metis map_of_eq_None_iff option.distinct(1) set_map)
    then show ?thesis by (simp add: lazy_start_def lazy_update_main_def jm_get_fills)
  qed
  moreover have "(case jm_get m t of None \<Rightarrow> e | Some x \<Rightarrow> entered internal False t x e)
      = (case filled internal m t e of Some e \<Rightarrow> Some e | None \<Rightarrow> main_entry internal m t)" for t e
    by (cases e) (auto simp: filled_def main_entry_def entered_def split: option.splits)
  ultimately show ?thesis
    by (simp add: same_table_def jm_get_updateGOT [OF assms]) (simp add: lazy_start_def lazy_update_main_def)
qed

text \<open>C37: Whatever modules ask for and whatever side modules are loaded, before and after the main module starts: each request gets the entry that
  the table would have given which is filled at the start.\<close>

theorem lazy_table_gives_the_same_entries:
  fixes internal :: "string \<Rightarrow> bool" and es1 :: "got_event list"
  assumes "jm_wf m" "\<forall>x replace. Side x replace \<in> set es2 \<longrightarrow> jm_wf x"
  defines "l \<equiv> snd (lazy_run internal es1 \<lparr>hb_main = None, hb_got = []\<rparr>)" and "g \<equiv> snd (eager_run internal es1 [])"
  shows "fst (lazy_run internal es1 \<lparr>hb_main = None, hb_got = []\<rparr>) = fst (eager_run internal es1 [])
    \<and> fst (lazy_run internal es2 (lazy_start internal m l)) = fst (eager_run internal es2 (updateGOT internal m False g))"
proof -
  note b = before_start [of "\<lparr>hb_main = None, hb_got = []\<rparr>" internal es1]
  have "hb_got l = g" using b(2) by (simp add: l_def g_def)
  then show ?thesis using b(1) same_run [OF same_start [OF assms(1), of internal l] assms(2)] by simp
qed

text \<open>A main module with a function and a datum; a side module brings a datum of the same name and another.\<close>

theorem lazy_table_gives_the_same_entries_witness:
  "fst (lazy_run (\<lambda>s. False) [Ask False ''data'', Side [(''data'', Data 9), (''own'', Data 8)] False, Ask True ''data'', Ask False ''own'']
      (lazy_start (\<lambda>s. False) [(''main'', Function 1), (''data'', Data 4)] \<lparr>hb_main = None, hb_got = []\<rparr>))
    = [\<lparr>ge_value = Data_at 4, ge_required = True\<rparr>, \<lparr>ge_value = Data_at 4, ge_required = True\<rparr>, \<lparr>ge_value = Data_at 8, ge_required = True\<rparr>]"
  using lazy_table_gives_the_same_entries [of "[(''main'', Function 1), (''data'', Data 4)]"
      "[Ask False ''data'', Side [(''data'', Data 9), (''own'', Data 8)] False, Ask True ''data'', Ask False ''own'']" "\<lambda>s. False" "[]"]
  by (simp add: jm_wf_def updateGOT_def enter_def got_get_def Let_def)

end
