(* ===== verification/Spec2Isabelle.thy ===== *)
theory Spec2Isabelle
  imports Hb_FileStats Hb_Prefetch Hb_Dispatcher_Props Hb_Answers Hb_Cancel Hb_Client Hb_System Hb_Connection
    Hb_Bindings_Props Hb_SabClaims Hb_SabFifo Hb_S3 Hb_Runtime_Browser_Handles
    Hb_HttpMailbox Hb_Bridge_Workers Hb_OAuth Hb_Runtime_Node_Props Hb_Udf_Props Hb_Pthread Hb_Instantiate Hb_Stubs
    Hb_SqlTypes Hb_Shell Hb_React Hb_Dylink Hb_DylinkGot
begin

text \<open>
  A verification development of the TypeScript and JavaScript core of DuckDB-Wasm in its Haybarn distribution. Paths are under
  \<open>packages/duckdb-wasm/src/\<close> unless they start with \<open>lib/\<close> or \<open>scripts/\<close>.

  \<^bold>\<open>The program.\<close> The page owns an \<open>AsyncDuckDB\<close> (\<open>parallel/async_bindings.ts\<close>) that posts requests to a web worker
  and keeps a pending task per request. In the worker an \<open>AsyncDuckDBDispatcher\<close> (\<open>parallel/worker_dispatcher.ts\<close>)
  turns each request into a call of the bindings (\<open>bindings/bindings_base.ts\<close>), which call the engine, a WebAssembly module.
  The engine calls back into JavaScript: for files (\<open>bindings/runtime_browser.ts\<close>, \<open>bindings/runtime_node.ts\<close>), for scalar
  functions (\<open>bindings/udf_runtime.ts\<close>), for HTTP requests a helper thread serves (\<open>bindings/http_fetch_helper.ts\<close>), and for worker
  processes it talks to through a channel in shared memory (\<open>lib/vgi-sab-ring.js\<close>, \<open>lib/js-stubs.js\<close>), which the page sets up
  (\<open>vgi/webworker-bridge.ts\<close>, \<open>vgi/oauth-bridge.ts\<close>).

  \<^bold>\<open>What they share.\<close>
  \<^item> \<open>Hb_Prelude\<close>: errors, computations that may throw (\<open>js\<close>: a state to a sum of an error and a value), JavaScript maps, byte
    buffers, strings, executions of a step function and the invariants they keep. The locale \<open>js_map\<close> states the laws of a \<open>Map\<close> and is
    interpreted by the association lists of the model (\<open>jm\<close>); the locale \<open>invariant_machine\<close> turns an invariant of single steps into
    one of executions and is interpreted by every component that runs (\<open>pf\<close>, \<open>watch\<close>, \<open>sys\<close>, \<open>claims\<close>, \<open>fifo\<close>, \<open>mailbox\<close>, \<open>vgi\<close>,
    \<open>browser\<close>, \<open>nodefds\<close>).
  \<^item> \<open>Hb_Types\<close>: data types of \<open>status.ts\<close>, \<open>bindings/config.ts\<close>, \<open>bindings/runtime.ts\<close>, \<open>json_typedef.ts\<close>; the SQL name of an Arrow type.
  \<^item> \<open>Hb_SqlTypes\<close>: the SQL name of an Arrow type against the reader the engine has for it (\<open>lib/src/json_typedef.cc\<close>).
  \<^item> \<open>Hb_FileStats\<close>: \<open>bindings/file_stats.ts\<close> against the encoder of the engine: each block's counters come back, saturated at four bits.

  \<^bold>\<open>Page and worker.\<close>
  \<^item> \<open>Hb_Protocol\<close>: requests, responses and log entries; the interface of the bindings, one function a request, as the dispatcher uses it.
  \<^item> \<open>Hb_Prefetch\<close>: \<open>parallel/extension_prefetch.ts\<close>: the bytes kept never exceed the cap, and a download that was overtaken stores nothing.
  \<^item> \<open>Hb_Dispatcher\<close>, \<open>Hb_Dispatcher_Props\<close>, \<open>Hb_Answers\<close>, \<open>Hb_Cancel\<close>: the dispatcher, \<open>onMessage\<close> whole. Each handler meets the contract
    of the locale \<open>request_handler\<close> (interpretations \<open>h_...\<close>); from it, over any execution, each request is answered once and with the type it
    asks for. The locale \<open>watch_predicate\<close> gives what the cancellation watcher keeps.
  \<^item> \<open>Hb_AsyncDuckDB\<close>, \<open>Hb_AsyncApi\<close>, \<open>Hb_Client\<close>: the client, its public methods as the requests they post, and the settling of its promises
    (locale \<open>task_predicate\<close>).
  \<^item> \<open>Hb_System\<close>: the two composed over two message channels: a promise settles with the answer the worker gave, and none is left when nothing moves.
  \<^item> \<open>Hb_Connection\<close>: \<open>bindings/connection.ts\<close> and \<open>parallel/async_connection.ts\<close>: the two result streams are one function of what the engine does.

  \<^bold>\<open>The bindings over the module.\<close>
  \<^item> \<open>Hb_Json\<close>: \<open>JSON.stringify\<close> and \<open>JSON.parse\<close> on literals, integers, ASCII strings, arrays and objects; parsing undoes printing.
  \<^item> \<open>Hb_Wasm\<close>, \<open>Hb_Bindings\<close>, \<open>Hb_Extension_Load\<close>, \<open>Hb_BindingsOps\<close>, \<open>Hb_Bindings_Props\<close>: every method of \<open>DuckDBBindingsBase\<close>, that
    extension loads run on one thread and every other query on as many as configured, that what a method allocates it frees, and the recogniser of
    extension loads against a grammar.
  \<^item> \<open>Hb_Instantiate\<close>, \<open>Hb_Platform\<close>, \<open>Hb_Pthread\<close>: \<open>instantiate\<close> with its awaits under any number of overlapping calls, the choice of a bundle
    (\<open>platform.ts\<close>, \<open>targets/\<close>), the reports on the download, and the script of a thread worker.
  \<^item> \<open>Hb_Udf\<close>, \<open>Hb_Udf_Props\<close>: \<open>bindings/udf_runtime.ts\<close> and the engine's reader of its answer (\<open>lib/src/webdb.cc\<close>), as writes to one linear memory.

  \<^bold>\<open>Files, HTTP and signatures.\<close>
  \<^item> \<open>Hb_Web\<close>, \<open>Hb_Runtime_Browser\<close>, \<open>Hb_Runtime_Browser_Props\<close>, \<open>Hb_Runtime_Browser_Handles\<close>: the browser runtime, on blobs, the origin private file
    system and HTTP servers; that a read gives the slice of the file, and which access handles are open.
  \<^item> \<open>Hb_Runtime_Node\<close>, \<open>Hb_Runtime_Node_Props\<close>: the Node runtime on a file system of paths, inodes and descriptors.
  \<^item> \<open>Hb_S3\<close>: \<open>utils/s3_helper.ts\<close>: the signature is computed over the request that is sent.
  \<^item> \<open>Hb_HttpFetch\<close>, \<open>Hb_HttpMailbox\<close>: \<open>bindings/http_fetch_helper.ts\<close> against the callers of \<open>lib/src/http_fetch.cc\<close>: the wire format round-trips, and
    one slot of the mailbox, an access at a time, under any interleaving of the helper and its callers.

  \<^bold>\<open>The channel to worker processes.\<close>
  \<^item> \<open>Hb_SabRing\<close>, \<open>Hb_SabClaims\<close>, \<open>Hb_SabFifo\<close>: \<open>lib/vgi-sab-ring.js\<close>: the layout; the claims of a slot under any interleaving of its users; the two
    ring loops, an access at a time, refine a queue.
  \<^item> \<open>Hb_Stubs\<close>: the client's side of the same channel in \<open>lib/js-stubs.js\<close>, by addresses in the flat linear memory: it does on the memory what the
    operations of \<open>Hb_SabRing\<close> do on the channel it lays out (a functional refinement along \<open>channel_at\<close>).
  \<^item> \<open>Hb_Bridge\<close>, \<open>Hb_Bridge_Props\<close>, \<open>Hb_Bridge_Regions\<close>, \<open>Hb_Bridge_Workers\<close>: \<open>vgi/webworker-bridge.ts\<close>: each request answered once, only workers
    the application allows, regions of an adapter that never share memory.
  \<^item> \<open>Hb_OAuth\<close>: \<open>vgi/oauth-bridge.ts\<close> and the blocking stub of the login: a code that is returned was called back under the state the engine chose.

  \<^bold>\<open>Around it.\<close>
  \<^item> \<open>Hb_History\<close>, \<open>Hb_Shell\<close>: the shell of the package \<open>duckdb-wasm-shell\<close>: the history in IndexedDB as a ring, the inputs in a link and their
    return, the start of the shell, the choice of files.
  \<^item> \<open>Hb_React\<close>: the providers of the package \<open>react-duckdb\<close>: which bundle, database and connections the components get.
  \<^item> \<open>Hb_Dylink\<close>, \<open>Hb_DylinkGot\<close>: what \<open>scripts/patch_dylink_glue.cjs\<close> puts into the code that links extensions: a reader of WebAssembly modules,
    against an encoder of the binary format, and the offset table filled on demand, against the table filled at the start.

  \<^bold>\<open>Parameters and hypotheses.\<close> What is not in the repository, or is compiled from C++, is an argument. The module is a record \<open>W\<close> of functions on an
  engine state; a property assumes of it only what it needs, by name: \<open>heap_is_memory\<close> and \<open>cells_ok\<close> (the heap views are views of one memory),
  \<open>malloc_ok\<close>, \<open>memory_ok\<close> and \<open>memory_stays\<close> (the allocator gives blocks of the memory that are free, and the memory grows at most), \<open>epoch_is_current\<close>
  (the configuration the engine reports), \<open>engine_describes\<close> (the description of a file). Servers are a function from requests to responses; js-sha256, the
  parser of URLs, wasm-feature-detect, fast-glob, Apache Arrow's readers, the factory Emscripten generates and the JavaScript functions of the application
  are functions. Every property with such a hypothesis has a witness with concrete functions for them.

  \<^bold>\<open>Concurrency.\<close> Threads and promises are step functions on a shared state; an execution is any list of events. The code of a worker between two
  awaits is one step; code that waits on shared memory is one step for each access to it.

  \<^bold>\<open>Bounds and fuel.\<close> Loops over lists are structural. \<open>JSON_parse\<close> has fuel twice the length of the text and one more, which \<open>parse_stringify\<close> shows is enough
  for what \<open>stringify\<close> prints. The write loop of the stub has fuel for its waits and its bytes; each round writes a byte or waits. The stub that asks for a
  worker waits at most thirty times, as the code does. \<open>send\<close> of a connection ends when the engine does after finitely many polls, which \<open>send_returns\<close> assumes.
  Numbers that pass through a double stay below \<open>2 ^ 53\<close>, positions in a ring below \<open>2 ^ 31\<close> (they are lanes of 32 bits), and where the code exceeds
  these bounds the property says so by a hypothesis. The property of the mailbox is for executions in which no thread claims the slot while
  another is between raising its flag of abandonment and its return (\<open>prompt\<close>); \<open>abandoned_slot_can_leak\<close> shows what leaving can do to a slot.

  \<^bold>\<open>Not modelled.\<close> Console output and the diagnostic global of the bridge. The functions of \<open>lib/js-stubs.js\<close> that only pass a call on to the runtime, the yield to
  the event loop (\<open>_emscripten_yield\<close>) and the legacy entry point that sets the offset of a channel. The hand-over of the loaded module to the factory Emscripten
  generates, which is not in the repository. The worker entry scripts in \<open>targets/\<close>, which create a dispatcher and nothing else. The empty \<open>DEFAULT_RUNTIME\<close>. Of the shell the
  clipboard, downloads, the report of the loading and the formatting of numbers, and the part that is compiled from Rust. Of the linking glue the rewriting of its
  text and the proxies for imports and exports. The demo application and the benchmarks: presentation, on top of libraries that are not in the repository. The
  scripts that build and bundle the program, which do not run in it.
\<close>

end
